(* ===== verification/Yeux_Prelude.thy ===== *)
theory Yeux_Prelude
  imports Main "HOL-Library.Char_ord" "HOL-Library.List_Lexorder"
begin

text \<open>
  Shared vocabulary of the development: results (\<open>error + value\<close>), the ordered map that
  stands for Rust's \<open>BTreeMap\<close>, the ordered set that stands for \<open>BTreeSet\<close>, UTF-8
  strings, and the two interfaces (locales) that several components rely on: a keyed store
  and a state machine with absorbing terminal states.

  A Rust \<open>String\<close> is a UTF-8 byte sequence, and so is a HOL \<open>string\<close> here: a
  list of bytes (\<open>char\<close>). \<open>len()\<close> is \<open>length\<close>, \<open>==\<close> is equality and \<open>Ord\<close> is
  the lexicographic order of bytes, which is the order that \<open>List_Lexorder\<close> and
  \<open>Char_ord\<close> provide.
\<close>

named_theorems bt_simps \<open>rewrite rules of the ordered map\<close>
named_theorems result_simps \<open>rewrite rules of results\<close>
named_theorems step_defs \<open>the step functions of the state machines\<close>

section \<open>Results\<close>

type_synonym ('e, 'a) rust_result = "'e + 'a"

abbreviation Err :: "'e \<Rightarrow> ('e, 'a) rust_result" where
  "Err \<equiv> Inl"

abbreviation Ok :: "'a \<Rightarrow> ('e, 'a) rust_result" where
  "Ok \<equiv> Inr"

text \<open>The question mark operator: stop at the first error.\<close>

definition rbind :: "('e, 'a) rust_result \<Rightarrow> ('a \<Rightarrow> ('e, 'b) rust_result) \<Rightarrow> ('e, 'b) rust_result" where
  "rbind r f = (case r of Inl e \<Rightarrow> Inl e | Inr x \<Rightarrow> f x)"

definition map_err :: "('e \<Rightarrow> 'f) \<Rightarrow> ('e, 'a) rust_result \<Rightarrow> ('f, 'a) rust_result" where
  "map_err g r = (case r of Inl e \<Rightarrow> Inl (g e) | Inr x \<Rightarrow> Inr x)"

definition ok_or :: "'e \<Rightarrow> 'a option \<Rightarrow> ('e, 'a) rust_result" where
  "ok_or e v = (case v of None \<Rightarrow> Inl e | Some x \<Rightarrow> Inr x)"

definition is_ok :: "('e, 'a) rust_result \<Rightarrow> bool" where
  "is_ok r = (case r of Inl _ \<Rightarrow> False | Inr _ \<Rightarrow> True)"

lemma rbind_Inl [simp, result_simps]: "rbind (Inl e) f = Inl e"
  by (simp add: rbind_def)

lemma rbind_Inr [simp, result_simps]: "rbind (Inr x) f = f x"
  by (simp add: rbind_def)

lemma rbind_eq_Inr [result_simps]: "rbind r f = Inr y \<longleftrightarrow> (\<exists>x. r = Inr x \<and> f x = Inr y)"
  by (cases r) auto

lemma rbind_eq_Inl [result_simps]:
  "rbind r f = Inl e \<longleftrightarrow> r = Inl e \<or> (\<exists>x. r = Inr x \<and> f x = Inl e)"
  by (cases r) auto

lemma map_err_eq_Inr [simp, result_simps]: "map_err g r = Inr y \<longleftrightarrow> r = Inr y"
  by (cases r) (auto simp: map_err_def)

lemma map_err_simps [simp, result_simps]: "map_err g (Inr x) = Inr x" "map_err g (Inl e) = Inl (g e)"
  by (simp_all add: map_err_def)

lemma ok_or_eq_Inr [simp, result_simps]: "ok_or e v = Inr y \<longleftrightarrow> v = Some y"
  by (cases v) (auto simp: ok_or_def)

lemma is_ok_simps [simp, result_simps]: "is_ok (Inl e) = False" "is_ok (Inr x) = True"
  by (simp_all add: is_ok_def)

lemma is_ok_iff [result_simps]: "is_ok r \<longleftrightarrow> (\<exists>x. r = Inr x)"
  by (cases r) auto

text \<open>\<open>iter().map(f).collect::<Result<Vec<_>, _>>()\<close>: the results in order, or the first error.\<close>

fun collect_results :: "('a \<Rightarrow> ('e, 'b) rust_result) \<Rightarrow> 'a list \<Rightarrow> ('e, 'b list) rust_result" where
  "collect_results f [] = Inr []"
| "collect_results f (x # xs) =
     rbind (f x) (\<lambda>y. rbind (collect_results f xs) (\<lambda>ys. Inr (y # ys)))"

lemma collect_results_Inr:
  "collect_results f xs = Inr ys \<longleftrightarrow> list_all2 (\<lambda>x y. f x = Inr y) xs ys"
  by (induction xs arbitrary: ys) (auto simp: rbind_eq_Inr list_all2_Cons1)

lemma collect_results_Inl:
  "collect_results f xs = Inl e \<longleftrightarrow>
     (\<exists>i < length xs. f (xs ! i) = Inl e \<and> (\<forall>j < i. is_ok (f (xs ! j))))"
proof (induction xs)
  case Nil
  then show ?case by simp
next
  case (Cons x xs)
  have split: "(\<exists>i < Suc n. P i) \<longleftrightarrow> P 0 \<or> (\<exists>i < n. P (Suc i))" for P n
    by (metis gr0_conv_Suc less_Suc_eq_0_disj)
  have all: "(\<forall>j < Suc n. P j) \<longleftrightarrow> P 0 \<and> (\<forall>j < n. P (Suc j))" for P n
    by (metis gr0_conv_Suc less_Suc_eq_0_disj)
  show ?case
    by (cases "f x") (auto simp: rbind_eq_Inl split all Cons.IH)
qed

section \<open>Bounded integers\<close>

text \<open>
  \<open>u64\<close> and \<open>usize\<close> values are natural numbers below \<open>2 ^ 64\<close>; the wrapping and the
  saturating addition are written out where the source uses them.
\<close>

definition u64_max :: nat where
  "u64_max = 2 ^ 64 - 1"

definition i64_max :: nat where
  "i64_max = 2 ^ 63 - 1"

definition wrapping_add :: "nat \<Rightarrow> nat \<Rightarrow> nat" where
  "wrapping_add a b = (a + b) mod 2 ^ 64"

definition saturating_add :: "nat \<Rightarrow> nat \<Rightarrow> nat" where
  "saturating_add a b = min (a + b) u64_max"

lemma saturating_add_le: "saturating_add a b \<le> a + b"
  by (simp add: saturating_add_def)

lemma saturating_add_gt: "c < u64_max \<Longrightarrow> c < saturating_add a b \<longleftrightarrow> c < a + b"
  by (auto simp: saturating_add_def)

lemma wrapping_add_small: "a + b \<le> u64_max \<Longrightarrow> wrapping_add a b = a + b"
  by (simp add: wrapping_add_def u64_max_def)

section \<open>Ordered maps and sets\<close>

text \<open>
  A \<open>BTreeMap\<close> is the list of its entries in key order, which is the order in which the
  source iterates over it (\<open>values()\<close>, \<open>iter()\<close>, \<open>into_iter()\<close>).
\<close>

type_synonym ('k, 'v) btree_map = "('k \<times> 'v) list"

definition bt_empty :: "('k, 'v) btree_map" where
  "bt_empty = []"

definition bt_get :: "('k, 'v) btree_map \<Rightarrow> 'k \<Rightarrow> 'v option" where
  "bt_get m k = map_of m k"

fun bt_insert :: "('k::linorder, 'v) btree_map \<Rightarrow> 'k \<Rightarrow> 'v \<Rightarrow> ('k, 'v) btree_map" where
  "bt_insert [] k v = [(k, v)]"
| "bt_insert (e # m) k v =
     (if fst e = k then (k, v) # m
      else if k < fst e then (k, v) # e # m
      else e # bt_insert m k v)"

definition bt_remove :: "('k, 'v) btree_map \<Rightarrow> 'k \<Rightarrow> ('k, 'v) btree_map" where
  "bt_remove m k = filter (\<lambda>e. fst e \<noteq> k) m"

definition bt_retain :: "('k \<Rightarrow> 'v \<Rightarrow> bool) \<Rightarrow> ('k, 'v) btree_map \<Rightarrow> ('k, 'v) btree_map" where
  "bt_retain p m = filter (\<lambda>e. p (fst e) (snd e)) m"

definition bt_contains :: "('k, 'v) btree_map \<Rightarrow> 'k \<Rightarrow> bool" where
  "bt_contains m k \<longleftrightarrow> bt_get m k \<noteq> None"

definition bt_values :: "('k, 'v) btree_map \<Rightarrow> 'v list" where
  "bt_values m = map snd m"

definition bt_keys :: "('k, 'v) btree_map \<Rightarrow> 'k list" where
  "bt_keys m = map fst m"

definition bt_wf :: "('k::linorder, 'v) btree_map \<Rightarrow> bool" where
  "bt_wf m \<longleftrightarrow> sorted_wrt (<) (map fst m)"

lemma bt_get_empty [simp, bt_simps]: "bt_get bt_empty k = None" "bt_get [] k = None"
  by (simp_all add: bt_get_def bt_empty_def)

lemma bt_get_insert [simp, bt_simps]:
  "bt_get (bt_insert m k v) k' = (if k' = k then Some v else bt_get m k')"
  by (induction m) (auto simp: bt_get_def)

lemma bt_contains_insert [simp, bt_simps]:
  "bt_contains (bt_insert m k v) k' \<longleftrightarrow> k' = k \<or> bt_contains m k'"
  by (simp add: bt_contains_def)

lemma bt_contains_empty [simp, bt_simps]: "\<not> bt_contains bt_empty k" "\<not> bt_contains [] k"
  by (simp_all add: bt_contains_def)

lemma bt_contains_iff: "bt_contains m k \<longleftrightarrow> k \<in> fst ` set m"
  by (simp add: bt_contains_def bt_get_def map_of_eq_None_iff)

lemma bt_get_remove [simp, bt_simps]:
  "bt_get (bt_remove m k) k' = (if k' = k then None else bt_get m k')"
  by (induction m) (auto simp: bt_get_def bt_remove_def)

lemma bt_wf_empty [simp, bt_simps]: "bt_wf bt_empty" "bt_wf []"
  by (simp_all add: bt_wf_def bt_empty_def)

lemma fst_set_bt_insert: "fst ` set (bt_insert m k v) = insert k (fst ` set m)"
  by (induction m) (auto simp: image_iff)

lemma bt_wf_insert [simp, bt_simps]: "bt_wf m \<Longrightarrow> bt_wf (bt_insert m k v)"
proof (induction m)
  case Nil
  then show ?case by (simp add: bt_wf_def)
next
  case (Cons e m)
  have tail: "bt_wf (bt_insert m k v)"
    using Cons by (simp add: bt_wf_def)
  have "\<forall>x \<in> insert k (fst ` set m). fst e < x" if "fst e < k"
    using that Cons.prems by (auto simp: bt_wf_def)
  then have bound: "\<forall>x \<in> fst ` set (bt_insert m k v). fst e < x" if "fst e < k"
    using that by (simp add: fst_set_bt_insert)
  have below: "k < x" if "k < fst e" "x \<in> fst ` set m" for x
    using that Cons.prems by (fastforce simp: bt_wf_def)
  show ?case
    using Cons.prems tail bound below by (auto simp: bt_wf_def)
qed

lemma bt_wf_filter: "bt_wf m \<Longrightarrow> bt_wf (filter p m)"
  by (induction m) (auto simp: bt_wf_def)

lemma bt_wf_remove [simp, bt_simps]: "bt_wf m \<Longrightarrow> bt_wf (bt_remove m k)"
  by (simp add: bt_remove_def bt_wf_filter)

lemma bt_wf_retain [simp, bt_simps]: "bt_wf m \<Longrightarrow> bt_wf (bt_retain p m)"
  by (simp add: bt_retain_def bt_wf_filter)

lemma bt_wf_distinct: "bt_wf m \<Longrightarrow> distinct (map fst m)"
  by (induction m) (auto simp: bt_wf_def)

lemma bt_mem_get: "bt_wf m \<Longrightarrow> (k, v) \<in> set m \<longleftrightarrow> bt_get m k = Some v"
  unfolding bt_get_def by (metis bt_wf_distinct map_of_eq_Some_iff)

lemma bt_get_mem: "bt_get m k = Some v \<Longrightarrow> (k, v) \<in> set m"
  by (simp add: bt_get_def map_of_SomeD)

lemma bt_get_retain [bt_simps]:
  assumes "bt_wf m"
  shows "bt_get (bt_retain p m) k =
    (case bt_get m k of None \<Rightarrow> None | Some v \<Rightarrow> if p k v then Some v else None)"
  using assms
proof (induction m)
  case Nil
  then show ?case by (simp add: bt_retain_def)
next
  case (Cons e m)
  then have "bt_wf m" and "fst e \<notin> fst ` set m"
    by (auto simp: bt_wf_def)
  moreover have "bt_get m (fst e) = None"
    using calculation(2) by (simp add: bt_get_def map_of_eq_None_iff)
  moreover have "bt_get (bt_retain p m) (fst e) = None"
    using calculation(2) by (auto simp: bt_get_def bt_retain_def map_of_eq_None_iff)
  ultimately show ?case
    using Cons.IH by (cases e) (auto simp: bt_get_def bt_retain_def split: option.splits)
qed

lemma bt_values_iff: "bt_wf m \<Longrightarrow> v \<in> set (bt_values m) \<longleftrightarrow> (\<exists>k. bt_get m k = Some v)"
  by (force simp: bt_values_def bt_mem_get[symmetric] image_iff)

lemma length_bt_insert:
  "length (bt_insert m k v) \<le> Suc (length m)"
  by (induction m) auto

lemma length_bt_insert_new:
  "bt_wf m \<Longrightarrow> \<not> bt_contains m k \<Longrightarrow> length (bt_insert m k v) = Suc (length m)"
  by (induction m) (auto simp: bt_contains_iff bt_wf_def)

lemma length_bt_insert_old:
  "bt_wf m \<Longrightarrow> bt_contains m k \<Longrightarrow> length (bt_insert m k v) = length m"
  by (induction m) (auto simp: bt_contains_iff bt_wf_def)

text \<open>
  The contract of a keyed store, on which every client of an ordered map relies: what a
  lookup returns after an insertion, and that an insertion keeps the store well formed.
\<close>

locale keyed_store =
  fixes get :: "'m \<Rightarrow> 'k \<Rightarrow> 'v option"
    and put :: "'m \<Rightarrow> 'k \<Rightarrow> 'v \<Rightarrow> 'm"
    and wf :: "'m \<Rightarrow> bool"
  assumes get_put: "get (put m k v) k' = (if k' = k then Some v else get m k')"
    and wf_put: "wf m \<Longrightarrow> wf (put m k v)"
begin

definition put_all :: "'m \<Rightarrow> ('k \<times> 'v) list \<Rightarrow> 'm" where
  "put_all m kvs = foldl (\<lambda>m' e. put m' (fst e) (snd e)) m kvs"

lemma wf_put_all: "wf m \<Longrightarrow> wf (put_all m kvs)"
  by (induction kvs arbitrary: m) (auto simp: put_all_def wf_put)

lemma get_put_all:
  "get (put_all m kvs) k = (case map_of (rev kvs) k of None \<Rightarrow> get m k | Some v \<Rightarrow> Some v)"
proof (induction kvs arbitrary: m)
  case Nil
  then show ?case by (simp add: put_all_def)
next
  case (Cons e kvs)
  then show ?case
    by (cases e) (auto simp: put_all_def get_put map_add_def split: option.splits)
qed

text \<open>A property of every stored value survives an insertion that establishes it.\<close>

lemma values_put:
  assumes "\<And>k v. get m k = Some v \<Longrightarrow> P k v" and "P k v" and "get (put m k v) k' = Some v'"
  shows "P k' v'"
  using assms by (auto simp: get_put split: if_splits)

end

interpretation bt: keyed_store bt_get bt_insert bt_wf
  by unfold_locales simp_all

text \<open>A \<open>BTreeSet\<close> as the list of its elements in order.\<close>

type_synonym 'a btree_set = "'a list"

definition bts_of_list :: "'a::linorder list \<Rightarrow> 'a btree_set" where
  "bts_of_list xs = sort (remdups xs)"

lemma set_bts_of_list [simp]: "set (bts_of_list xs) = set xs"
  by (simp add: bts_of_list_def)

lemma sorted_bts_of_list: "sorted (bts_of_list xs)"
  by (simp add: bts_of_list_def)

lemma distinct_bts_of_list: "distinct (bts_of_list xs)"
  by (simp add: bts_of_list_def)

section \<open>Strings\<close>

text \<open>
  \<open>s.trim().is_empty()\<close>: every character of \<open>s\<close> has the Unicode property White_Space.
  The characters are read off the UTF-8 bytes: U+0009 to U+000D and U+0020 are one byte,
  U+0085 and U+00A0 two bytes, U+1680, U+2000 to U+200A, U+2028, U+2029, U+202F, U+205F
  and U+3000 three bytes.
\<close>

definition byte :: "char \<Rightarrow> nat" where
  "byte c = of_char c"

definition is_space1 :: "char \<Rightarrow> bool" where
  "is_space1 c \<longleftrightarrow> (9 \<le> byte c \<and> byte c \<le> 13) \<or> byte c = 32"

definition is_space2 :: "char \<Rightarrow> char \<Rightarrow> bool" where
  "is_space2 c d \<longleftrightarrow> byte c = 194 \<and> (byte d = 133 \<or> byte d = 160)"

definition is_space3 :: "char \<Rightarrow> char \<Rightarrow> char \<Rightarrow> bool" where
  "is_space3 c d e \<longleftrightarrow>
     (byte c = 225 \<and> byte d = 154 \<and> byte e = 128) \<or>
     (byte c = 226 \<and> byte d = 128 \<and>
        ((128 \<le> byte e \<and> byte e \<le> 138) \<or> byte e = 168 \<or> byte e = 169 \<or> byte e = 175)) \<or>
     (byte c = 226 \<and> byte d = 129 \<and> byte e = 159) \<or>
     (byte c = 227 \<and> byte d = 128 \<and> byte e = 128)"

fun is_blank :: "string \<Rightarrow> bool" where
  "is_blank [] = True"
| "is_blank [c] = is_space1 c"
| "is_blank [c, d] = (if is_space1 c then is_blank [d] else is_space2 c d)"
| "is_blank (c # d # e # s) =
     (if is_space1 c then is_blank (d # e # s)
      else if is_space2 c d then is_blank (e # s)
      else is_space3 c d e \<and> is_blank s)"

text \<open>
  \<open>str::from_utf8\<close> accepts exactly the well-formed byte sequences of the Unicode standard
  (table 3-7): no overlong forms, no surrogates, nothing above U+10FFFF.
\<close>

definition continuation :: "char \<Rightarrow> bool" where
  "continuation c \<longleftrightarrow> 128 \<le> byte c \<and> byte c \<le> 191"

definition utf8_second :: "nat \<Rightarrow> char \<Rightarrow> bool" where
  "utf8_second lead d \<longleftrightarrow>
     (if lead = 224 then 160 \<le> byte d \<and> byte d \<le> 191
      else if lead = 237 then 128 \<le> byte d \<and> byte d \<le> 159
      else if lead = 240 then 144 \<le> byte d \<and> byte d \<le> 191
      else if lead = 244 then 128 \<le> byte d \<and> byte d \<le> 143
      else continuation d)"

fun utf8_valid :: "string \<Rightarrow> bool" where
  "utf8_valid [] = True"
| "utf8_valid (c # s) =
     (if byte c \<le> 127 then utf8_valid s
      else if 194 \<le> byte c \<and> byte c \<le> 223
      then (case s of d # t \<Rightarrow> continuation d \<and> utf8_valid t | [] \<Rightarrow> False)
      else if 224 \<le> byte c \<and> byte c \<le> 239
      then (case s of d # e # t \<Rightarrow> utf8_second (byte c) d \<and> continuation e \<and> utf8_valid t | _ \<Rightarrow> False)
      else if 240 \<le> byte c \<and> byte c \<le> 244
      then (case s of d # e # f # t \<Rightarrow>
              utf8_second (byte c) d \<and> continuation e \<and> continuation f \<and> utf8_valid t | _ \<Rightarrow> False)
      else False)"

text \<open>Decimal text of an unsigned integer.\<close>

fun dec_digits :: "nat \<Rightarrow> string" where
  "dec_digits n =
     (if n < 10 then [char_of (48 + n)] else dec_digits (n div 10) @ [char_of (48 + n mod 10)])"

declare dec_digits.simps [simp del]

section \<open>State machines with absorbing terminal states\<close>

text \<open>
  The contract that the turn machine and the invocation machine share: a step changes the
  state, and a terminal state has no step. The facts about whole runs are proved here once.
\<close>

locale absorbing_machine =
  fixes can_step :: "'s \<Rightarrow> 's \<Rightarrow> bool"
    and terminal :: "'s \<Rightarrow> bool"
  assumes step_irrefl: "\<not> can_step s s"
    and terminal_stuck: "terminal s \<Longrightarrow> \<not> can_step s t"
begin

fun path :: "'s \<Rightarrow> 's list \<Rightarrow> bool" where
  "path s [] = True"
| "path s (t # ts) = (can_step s t \<and> path t ts)"

lemma path_append: "path s (xs @ ys) \<longleftrightarrow> path s xs \<and> path (last (s # xs)) ys"
  by (induction xs arbitrary: s) auto

lemma terminal_path: "terminal s \<Longrightarrow> path s ts \<Longrightarrow> ts = []"
  by (cases ts) (auto dest: terminal_stuck)

text \<open>A run visits a terminal state at most once, and only as its last state.\<close>

lemma terminal_is_last:
  "path s ts \<Longrightarrow> i < length ts \<Longrightarrow> terminal (ts ! i) \<Longrightarrow> i = length ts - 1"
proof (induction ts arbitrary: s i)
  case Nil
  then show ?case by simp
next
  case (Cons t ts)
  show ?case
  proof (cases i)
    case 0
    with Cons.prems have "ts = []"
      by (auto dest: terminal_path)
    with 0 show ?thesis by simp
  next
    case (Suc j)
    with Cons.prems Cons.IH [of t j] show ?thesis by auto
  qed
qed

lemma consecutive_differ: "path s ts \<Longrightarrow> Suc i < length ts \<Longrightarrow> ts ! i \<noteq> ts ! Suc i"
proof (induction ts arbitrary: s i)
  case Nil
  then show ?case by simp
next
  case (Cons t ts)
  then show ?case
    by (cases i; cases ts) (auto simp: step_irrefl)
qed

end

section \<open>Folding a history into a state\<close>

text \<open>
  The contract of a replay: a step may reject an event, and a run stops at the first
  rejection. A run over a concatenation is the two runs one after the other, what every step
  keeps the run keeps, and what a step can only add a run only adds.
\<close>

locale event_fold =
  fixes step :: "'s \<Rightarrow> 'e \<Rightarrow> ('r, 's) rust_result"
    and run :: "'s \<Rightarrow> 'e list \<Rightarrow> ('r, 's) rust_result"
  assumes run_Nil: "run s [] = Ok s"
    and run_Cons: "run s (e # es) = rbind (step s e) (\<lambda>s'. run s' es)"
begin

lemma run_append: "run s (es @ fs) = rbind (run s es) (\<lambda>s'. run s' fs)"
proof (induction es arbitrary: s)
  case Nil
  then show ?case by (simp add: run_Nil)
next
  case (Cons e es)
  then show ?case by (cases "step s e") (simp_all add: run_Cons)
qed

lemma run_snoc: "run s (es @ [e]) = rbind (run s es) (\<lambda>s'. step s' e)"
proof -
  have "rbind r Ok = r" for r :: "('r, 's) rust_result" by (cases r) auto
  then show ?thesis by (simp add: run_append run_Cons run_Nil)
qed

text \<open>A run that fails fails at one event, after an accepted prefix.\<close>

lemma run_Err:
  "run s es = Err r \<Longrightarrow> \<exists>h e t s'. es = h @ e # t \<and> run s h = Ok s' \<and> step s' e = Err r"
proof (induction es arbitrary: s)
  case Nil
  then show ?case by (simp add: run_Nil)
next
  case (Cons e es)
  show ?case
  proof (cases "step s e")
    case (Inl r')
    then show ?thesis using Cons.prems by (intro exI [of _ "[]"]) (simp add: run_Cons run_Nil)
  next
    case (Inr s1)
    then have "run s1 es = Err r" using Cons.prems by (simp add: run_Cons)
    from Cons.IH [OF this] obtain h e' t s' where "es = h @ e' # t" "run s1 h = Ok s'" "step s' e' = Err r"
      by blast
    with Inr show ?thesis by (intro exI [of _ "e # h"] exI [of _ e'] exI [of _ t] exI [of _ s']) (simp add: run_Cons)
  qed
qed

lemma run_invariant:
  assumes "\<And>s e s'. I s \<Longrightarrow> step s e = Ok s' \<Longrightarrow> I s'"
  shows "run s es = Ok s' \<Longrightarrow> I s \<Longrightarrow> I s'"
proof (induction es arbitrary: s)
  case Nil
  then show ?case by (simp add: run_Nil)
next
  case (Cons e es)
  then show ?case using assms by (auto simp: run_Cons rbind_eq_Inr)
qed

text \<open>An invariant that relates the state to the events accepted so far.\<close>

lemma run_history:
  assumes "\<And>s es e s'. I es s \<Longrightarrow> step s e = Ok s' \<Longrightarrow> I (es @ [e]) s'"
  shows "run s es = Ok s' \<Longrightarrow> I h s \<Longrightarrow> I (h @ es) s'"
proof (induction es arbitrary: s h)
  case Nil
  then show ?case by (simp add: run_Nil)
next
  case (Cons e es)
  then obtain s1 where "step s e = Ok s1" "run s1 es = Ok s'" by (auto simp: run_Cons rbind_eq_Inr)
  with Cons.IH [of s1 "h @ [e]"] assms [OF Cons.prems(2)] show ?case by simp
qed

end

end
