(* ===== verification/Protocol_Types.thy ===== *)
theory Protocol_Types
  imports Yeux_Prelude "HOL-Library.Word"
begin

text \<open>
  The wire and event vocabulary of the crate \<open>yeux-protocol\<close>: identifiers, JSON values,
  capability grants, effect sets, invocations, turns, threads, jobs, model events and the
  event envelope. A struct is a record whose fields carry a short prefix (HOL records of one
  theory share a name space), an enum is a datatype with the source's variants, written
  \<open>turn_state.Completed\<close> for \<open>TurnState::Completed\<close>.

  Identifiers are UUIDs: 128-bit words, ordered as the source orders them (big-endian bytes).
  A \<open>DateTime<Utc>\<close> is the integer number of nanoseconds since the epoch.
\<close>

section \<open>Identifiers, instants, JSON values\<close>

type_synonym uuid = "128 word"
type_synonym command_id = uuid
type_synonym event_id = uuid
type_synonym workspace_id = uuid
type_synonym thread_id = uuid
type_synonym turn_id = uuid
type_synonym item_id = uuid
type_synonym invocation_id = uuid
type_synonym job_id = uuid
type_synonym agent_run_id = uuid
type_synonym model_request_id = uuid
type_synonym approval_id = uuid
type_synonym agent_id = string
type_synonym causation_id = string
type_synonym instant = int

text \<open>
  \<open>serde_json::Value\<close>. A number is an unsigned or negative 64-bit integer or a finite
  double (its bits); an object is the list of its entries in the map's iteration order.
\<close>

datatype jnumber = PosInt nat | NegInt int | Float "64 word"

datatype json =
    JNull
  | JBool bool
  | JNumber jnumber
  | JString string
  | JArray "json list"
  | JObject "(string \<times> json) list"

definition json_get :: "json \<Rightarrow> string \<Rightarrow> json option" where
  "json_get v key = (case v of JObject kvs \<Rightarrow> map_of kvs key | _ \<Rightarrow> None)"

definition json_as_str :: "json \<Rightarrow> string option" where
  "json_as_str v = (case v of JString s \<Rightarrow> Some s | _ \<Rightarrow> None)"

definition json_is_object :: "json \<Rightarrow> bool" where
  "json_is_object v = (case v of JObject _ \<Rightarrow> True | _ \<Rightarrow> False)"

section \<open>Protocol version\<close>

record protocol_version =
  major :: nat
  minor :: nat

definition PROTOCOL_VERSION :: protocol_version where
  "PROTOCOL_VERSION = \<lparr>major = 2, minor = 0\<rparr>"

definition accepts :: "protocol_version \<Rightarrow> protocol_version \<Rightarrow> bool" where
  "accepts self peer \<longleftrightarrow> major self = major peer \<and> minor peer \<le> minor self"

section \<open>Capability modes and grants\<close>

datatype capability_mode = Observe | Build | Operate

fun mode_rank :: "capability_mode \<Rightarrow> nat" where
  "mode_rank Observe = 0"
| "mode_rank Build = 1"
| "mode_rank Operate = 2"

instantiation capability_mode :: linorder
begin

definition less_eq_capability_mode :: "capability_mode \<Rightarrow> capability_mode \<Rightarrow> bool" where
  "less_eq_capability_mode a b \<longleftrightarrow> mode_rank a \<le> mode_rank b"

definition less_capability_mode :: "capability_mode \<Rightarrow> capability_mode \<Rightarrow> bool" where
  "less_capability_mode a b \<longleftrightarrow> mode_rank a < mode_rank b"

instance
proof
  fix a b c :: capability_mode
  show "(a < b) = (a \<le> b \<and> \<not> b \<le> a)"
    by (auto simp: less_eq_capability_mode_def less_capability_mode_def)
  show "a \<le> a"
    by (simp add: less_eq_capability_mode_def)
  show "a \<le> b \<Longrightarrow> b \<le> c \<Longrightarrow> a \<le> c"
    by (simp add: less_eq_capability_mode_def)
  show "a \<le> b \<Longrightarrow> b \<le> a \<Longrightarrow> a = b"
    by (cases a; cases b) (simp_all add: less_eq_capability_mode_def)
  show "a \<le> b \<or> b \<le> a"
    by (auto simp: less_eq_capability_mode_def)
qed

end

lemmas mode_order = less_eq_capability_mode_def less_capability_mode_def

definition minimum :: "capability_mode \<Rightarrow> capability_mode \<Rightarrow> capability_mode" where
  "minimum self other = (if mode_rank self \<le> mode_rank other then self else other)"

lemma minimum_eq_min: "minimum a b = min a b"
  by (simp add: minimum_def min_def less_eq_capability_mode_def)

record capability_grant =
  cg_mode :: capability_mode
  cg_filesystem_read :: "string list"
  cg_filesystem_write :: "string list"
  cg_filesystem_delete :: "string list"
  cg_process :: bool
  cg_network :: "string list"
  cg_secrets :: "string list"
  cg_external_write :: "string list"
  cg_expires_at :: "instant option"

definition observe_grant :: capability_grant where
  "observe_grant =
     \<lparr>cg_mode = Observe, cg_filesystem_read = [], cg_filesystem_write = [],
      cg_filesystem_delete = [], cg_process = False, cg_network = [], cg_secrets = [],
      cg_external_write = [], cg_expires_at = None\<rparr>"

section \<open>Effects\<close>

datatype concurrency_class = StructuredReadOnly | SerialProcess | SerialMutation

datatype idempotency = Idempotent | IdempotentWithKey | NonIdempotent | Unknown

datatype reversibility = Reversible | Compensatable | Irreversible | Unknown

record path_scope =
  ps_path :: string
  ps_recursive :: bool
  ps_resolved :: bool

record process_effect =
  pe_executable :: string
  pe_argument_digest :: "string option"
  pe_may_spawn_children :: bool

record network_effect =
  ne_scheme :: string
  ne_host :: string
  ne_port :: "nat option"

record external_effect =
  ee_system :: string
  ee_operation :: string
  ee_resource :: "string option"

record secret_handle =
  sh_name :: string

record effect_set =
  es_filesystem_read :: "path_scope list"
  es_filesystem_write :: "path_scope list"
  es_filesystem_delete :: "path_scope list"
  es_processes :: "process_effect list"
  es_network :: "network_effect list"
  es_secrets :: "secret_handle list"
  es_external_writes :: "external_effect list"
  es_idempotency :: idempotency
  es_reversibility :: reversibility

definition default_effects :: effect_set where
  "default_effects =
     \<lparr>es_filesystem_read = [], es_filesystem_write = [], es_filesystem_delete = [],
      es_processes = [], es_network = [], es_secrets = [], es_external_writes = [],
      es_idempotency = Idempotent, es_reversibility = Reversible\<rparr>"

definition is_read_only :: "effect_set \<Rightarrow> bool" where
  "is_read_only e \<longleftrightarrow>
     es_filesystem_write e = [] \<and> es_filesystem_delete e = [] \<and> es_processes e = [] \<and>
     es_network e = [] \<and> es_secrets e = [] \<and> es_external_writes e = []"

definition has_external_side_effects :: "effect_set \<Rightarrow> bool" where
  "has_external_side_effects e \<longleftrightarrow> es_network e \<noteq> [] \<or> es_external_writes e \<noteq> []"

record tool_spec =
  sp_id :: string
  sp_version :: string
  sp_description :: string
  sp_input_schema :: json
  sp_output_schema :: json
  sp_effect_template :: effect_set
  sp_concurrency :: concurrency_class
  sp_timeout_ms :: nat
  sp_inline_output_budget_bytes :: nat

section \<open>Invocations\<close>

datatype invocation_state =
  Proposed | Approved | Prepared | Started | Completed | Failed | Cancelled | Unknown

definition inv_is_terminal :: "invocation_state \<Rightarrow> bool" where
  "inv_is_terminal s \<longleftrightarrow>
     s = invocation_state.Completed \<or> s = invocation_state.Failed \<or> s = invocation_state.Cancelled"

datatype reconciliation_outcome = Completed | Failed

fun outcome_state :: "reconciliation_outcome \<Rightarrow> invocation_state" where
  "outcome_state reconciliation_outcome.Completed = invocation_state.Completed"
| "outcome_state reconciliation_outcome.Failed = invocation_state.Failed"

record reconciliation_evidence =
  re_source :: string
  re_summary :: string
  re_artifact_uri :: "string option"

record approval_binding =
  ab_approval_id :: approval_id
  ab_invocation_id :: invocation_id
  ab_workspace_id :: workspace_id
  ab_workspace_identity_digest :: string
  ab_thread_id :: thread_id
  ab_turn_id :: turn_id
  ab_agent_id :: agent_id
  ab_mode :: capability_mode
  ab_tool_id :: string
  ab_tool_version :: string
  ab_normalized_arguments_digest :: string
  ab_effect_digest :: string
  ab_granted_effects :: effect_set
  ab_expires_at :: instant

record prepared_invocation =
  pi_invocation_id :: invocation_id
  pi_tool_id :: string
  pi_tool_version :: string
  pi_workspace_id :: workspace_id
  pi_workspace_identity_digest :: string
  pi_thread_id :: thread_id
  pi_turn_id :: turn_id
  pi_agent_id :: agent_id
  pi_normalized_arguments :: json
  pi_normalized_arguments_digest :: string
  pi_effects :: effect_set
  pi_effect_digest :: string
  pi_prepared_token :: string
  pi_prepared_at :: instant
  pi_expires_at :: instant
  pi_approval :: "approval_binding option"

section \<open>Workspaces, threads, turns, items\<close>

datatype workspace_trust = Untrusted | Trusted

record workspace_identity =
  wi_canonical_root :: string
  wi_digest :: string
  wi_device :: "nat option"
  wi_inode :: "nat option"
  wi_git_common_dir :: "string option"

record workspace =
  ws_id :: workspace_id
  ws_root :: string
  ws_identity :: workspace_identity
  ws_trust :: workspace_trust
  ws_opened_at :: instant

datatype thread_status = Active | Idle | Archived | Failed

record thread =
  th_id :: thread_id
  th_workspace_id :: workspace_id
  th_parent_thread_id :: "thread_id option"
  th_parent_seq :: "nat option"
  th_title :: "string option"
  th_status :: thread_status
  th_created_at :: instant
  th_updated_at :: instant
  th_last_seq :: nat

datatype turn_state =
    Accepted
  | BuildingContext
  | RequestingModel
  | Streaming
  | ProposedTools
  | WaitingForApproval
  | Authorizing
  | Scheduling
  | Executing
  | IntegratingResults
  | WaitingForInput
  | Cancelling
  | Completed
  | Cancelled
  | Failed

definition turn_is_terminal :: "turn_state \<Rightarrow> bool" where
  "turn_is_terminal s \<longleftrightarrow>
     s = turn_state.Completed \<or> s = turn_state.Cancelled \<or> s = turn_state.Failed"

record turn =
  tu_id :: turn_id
  tu_thread_id :: thread_id
  tu_agent_id :: agent_id
  tu_state :: turn_state
  tu_started_at :: instant
  tu_ended_at :: "instant option"
  tu_failure :: "string option"

datatype item_kind =
  UserMessage | AssistantMessage | Reasoning | ToolCall | ToolResult | Checkpoint | Diagnostic

record item =
  it_id :: item_id
  it_thread_id :: thread_id
  it_turn_id :: turn_id
  it_agent_id :: agent_id
  it_kind :: item_kind
  it_content :: json
  it_created_at :: instant

section \<open>Jobs and agents\<close>

datatype job_schedule = At instant | Interval nat | Rrule string string | Manual

record run_budget =
  rb_max_tokens :: nat
  rb_max_cost_micros :: nat
  rb_max_duration_seconds :: nat

record job_spec =
  js_id :: job_id
  js_name :: string
  js_workspace_id :: workspace_id
  js_prompt :: string
  js_provider :: string
  js_model :: string
  js_tool_ids :: "string list"
  js_grant :: capability_grant
  js_budget :: run_budget
  js_schedule :: job_schedule
  js_allow_reentry :: bool
  js_metadata :: json

datatype job_state =
  Active | Paused | Running | WaitingForApproval | Completed | Failed | Cancelled

datatype workspace_isolation = SharedReadOnly | GitWorktree

record agent_spawn_spec =
  as_run_id :: agent_run_id
  as_parent_thread_id :: thread_id
  as_parent_agent_id :: agent_id
  as_child_agent_id :: agent_id
  as_workspace_id :: workspace_id
  as_task :: string
  as_grant :: capability_grant
  as_budget :: run_budget
  as_isolation :: workspace_isolation
  as_depth :: nat

datatype agent_result_state = Completed | Failed | Cancelled | BudgetExhausted

record agent_result =
  ar_run_id :: agent_run_id
  ar_child_thread_id :: thread_id
  ar_state :: agent_result_state
  ar_summary :: string
  ar_worktree_path :: "string option"
  ar_diff_artifact_uri :: "string option"
  ar_metadata :: json

section \<open>Model events\<close>

datatype image_source = Url string | Base64 string | Artifact string

datatype content_block =
    Text string
  | ReasoningText string
  | Image string image_source
  | ToolCallBlock (tc_call_id: string) (tc_name: string) (tc_arguments: json)
  | ToolResultBlock (tr_call_id: string) (tr_content: json) (tr_is_error: bool)

record money =
  mo_currency :: string
  mo_micros :: int

record usage =
  us_input_tokens :: nat
  us_output_tokens :: nat
  us_cached_tokens :: nat
  us_cost :: "money option"

datatype stop_reason = EndTurn | MaxTokens | ToolUse | Cancelled | ContentFilter | Other string

datatype model_event =
    TextDelta string
  | ReasoningDelta string
  | ToolCallDelta (td_call_id: string) (td_name: string) (td_json_delta: string)
  | Usage usage
  | Completed stop_reason
  | Failed string string bool

section \<open>Events\<close>

datatype event =
    WorkspaceOpened workspace
  | WorkspaceTrustChanged workspace_id workspace_trust
  | ThreadStarted thread
  | ThreadForked thread
  | ThreadArchived thread_id
  | TurnStarted turn
  | TurnStateChanged turn_id turn_state turn_state "string option"
  | TurnSteered turn_id string
  | ItemAdded item
  | ModelRequested model_request_id
  | ModelStreamEvent model_request_id model_event
  | InvocationProposed invocation_id string string string string effect_set string idempotency
  | InvocationStateChanged invocation_id invocation_state invocation_state "string option"
  | InvocationReconciled invocation_id reconciliation_outcome reconciliation_evidence
  | JobCreated job_spec
  | JobStateChanged job_id job_state job_state
  | AgentSpawned agent_spawn_spec
  | AgentCompleted agent_result
  | RuntimeDiagnostic string string bool

record event_envelope =
  en_schema_version :: protocol_version
  en_event_id :: event_id
  en_thread_id :: thread_id
  en_turn_id :: "turn_id option"
  en_agent_id :: agent_id
  en_seq :: nat
  en_time :: instant
  en_causation_id :: "causation_id option"
  en_event :: event

section \<open>Code outside the repository\<close>

text \<open>
  What the program takes from third-party crates is a parameter: the JSON text of a string
  and of a number (\<open>serde_json\<close>), the hexadecimal SHA-256 digest of a byte string
  (\<open>sha2\<close>, \<open>hex\<close>), the text of a UUID (\<open>uuid\<close>) and the JSON text of an instant
  (\<open>chrono\<close>).
\<close>

record externals =
  json_str :: "string \<Rightarrow> string"
  json_num :: "jnumber \<Rightarrow> string"
  sha256_hex :: "string \<Rightarrow> string"
  uuid_str :: "uuid \<Rightarrow> string"
  time_str :: "instant \<Rightarrow> string"

end
