(* ===== verification/Turn_Machine.thy ===== *)
theory Turn_Machine
  imports Protocol_Types
begin

text \<open>
  The turn state machine of \<open>yeux-core/src/agent.rs\<close>: the transition table, the machine
  with its steering queue, the actions and their target states. The lemmas give the shape of
  the table, what a successful action changes, and what every run of actions can reach.
\<close>

datatype turn_action =
    BeginContext
  | ContextBuilt
  | ModelAccepted
  | ModelStreaming
  | ToolsProposed
  | ApprovalRequired
  | ApprovalGranted
  | Scheduled
  | ExecutionStarted
  | ResultsIntegrated bool
  | InputRequired
  | InputReceived
  | Complete
  | Interrupt
  | CancellationFinished
  | Fail string

datatype turn_error = InvalidTransition turn_state turn_state | TerminalSteering turn_state

definition turn_edges :: "(turn_state \<times> turn_state) list" where
  "turn_edges =
     [(Accepted, BuildingContext),
      (BuildingContext, RequestingModel),
      (BuildingContext, WaitingForInput),
      (RequestingModel, Streaming),
      (Streaming, ProposedTools),
      (Streaming, turn_state.Completed),
      (ProposedTools, turn_state.WaitingForApproval),
      (ProposedTools, Authorizing),
      (turn_state.WaitingForApproval, Authorizing),
      (Authorizing, turn_state.WaitingForApproval),
      (Authorizing, Scheduling),
      (Scheduling, Executing),
      (Executing, IntegratingResults),
      (IntegratingResults, RequestingModel),
      (IntegratingResults, turn_state.Completed),
      (IntegratingResults, WaitingForInput),
      (WaitingForInput, BuildingContext),
      (Cancelling, turn_state.Cancelled)]"

definition can_transition_turn :: "turn_state \<Rightarrow> turn_state \<Rightarrow> bool" where
  "can_transition_turn frm to =
     (if frm = to \<or> turn_is_terminal frm then False
      else if to = Cancelling \<or> to = turn_state.Failed then True
      else (frm, to) \<in> set turn_edges)"

record turn_machine =
  tm_turn :: turn
  tm_steering :: "string list"

definition turn_machine_new :: "turn \<Rightarrow> turn_machine" where
  "turn_machine_new t = \<lparr>tm_turn = t, tm_steering = []\<rparr>"

definition pending_steering :: "turn_machine \<Rightarrow> nat" where
  "pending_steering m = length (tm_steering m)"

definition steer :: "turn_machine \<Rightarrow> string \<Rightarrow> (turn_error, turn_machine) rust_result" where
  "steer m message =
     (if turn_is_terminal (tu_state (tm_turn m))
      then Inl (TerminalSteering (tu_state (tm_turn m)))
      else Inr (m\<lparr>tm_steering := tm_steering m @ [message]\<rparr>))"

definition take_steering :: "turn_machine \<Rightarrow> string option \<times> turn_machine" where
  "take_steering m =
     (case tm_steering m of [] \<Rightarrow> (None, m) | s # rest \<Rightarrow> (Some s, m\<lparr>tm_steering := rest\<rparr>))"

definition transition ::
  "turn_machine \<Rightarrow> turn_state \<Rightarrow> instant \<Rightarrow> string option \<Rightarrow> (turn_error, turn_machine) rust_result" where
  "transition m to at reason =
     (let frm = tu_state (tm_turn m) in
      if \<not> can_transition_turn frm to then Inl (InvalidTransition frm to)
      else
        let t1 = (tm_turn m)\<lparr>tu_state := to\<rparr>;
            t2 = (if to = turn_state.Failed then t1\<lparr>tu_failure := reason\<rparr> else t1);
            t3 = (if turn_is_terminal to then t2\<lparr>tu_ended_at := Some at\<rparr> else t2)
        in Inr (m\<lparr>tm_turn := t3\<rparr>))"

fun action_target :: "turn_action \<Rightarrow> turn_state" where
  "action_target BeginContext = BuildingContext"
| "action_target InputReceived = BuildingContext"
| "action_target ContextBuilt = RequestingModel"
| "action_target ModelAccepted = RequestingModel"
| "action_target ModelStreaming = Streaming"
| "action_target ToolsProposed = ProposedTools"
| "action_target ApprovalRequired = turn_state.WaitingForApproval"
| "action_target ApprovalGranted = Authorizing"
| "action_target Scheduled = Scheduling"
| "action_target ExecutionStarted = Executing"
| "action_target (ResultsIntegrated True) = RequestingModel"
| "action_target (ResultsIntegrated False) = turn_state.Completed"
| "action_target Complete = turn_state.Completed"
| "action_target InputRequired = WaitingForInput"
| "action_target Interrupt = Cancelling"
| "action_target CancellationFinished = turn_state.Cancelled"
| "action_target (Fail _) = turn_state.Failed"

fun action_reason :: "turn_action \<Rightarrow> string option" where
  "action_reason (Fail message) = Some message"
| "action_reason _ = None"

definition apply_action ::
  "turn_machine \<Rightarrow> turn_action \<Rightarrow> instant \<Rightarrow> (turn_error, turn_machine \<times> turn_state) rust_result" where
  "apply_action m action at =
     rbind (transition m (action_target action) at (action_reason action))
       (\<lambda>m'. Inr (m', action_target action))"

text \<open>A run of actions: the machine after each action, stopping at the first rejected one.\<close>

fun run_actions ::
  "turn_machine \<Rightarrow> (turn_action \<times> instant) list \<Rightarrow> (turn_error, turn_machine) rust_result" where
  "run_actions m [] = Inr m"
| "run_actions m ((a, at) # rest) = rbind (apply_action m a at) (\<lambda>r. run_actions (fst r) rest)"

section \<open>The transition table\<close>

lemma turn_edges_nonterminal: "(s, t) \<in> set turn_edges \<Longrightarrow> \<not> turn_is_terminal s \<and> s \<noteq> t"
  by (auto simp: turn_edges_def turn_is_terminal_def)

lemma can_transition_turn_iff:
  "can_transition_turn s t \<longleftrightarrow>
     (s, t) \<in> set turn_edges \<or>
     (\<not> turn_is_terminal s \<and> s \<noteq> t \<and> (t = Cancelling \<or> t = turn_state.Failed))"
  using turn_edges_nonterminal [of s t] by (auto simp: can_transition_turn_def)

interpretation turns: absorbing_machine can_transition_turn turn_is_terminal
  by unfold_locales (auto simp: can_transition_turn_def)

lemma cancel_or_fail: "\<not> turn_is_terminal s \<Longrightarrow> s \<noteq> Cancelling \<Longrightarrow> can_transition_turn s Cancelling"
  "\<not> turn_is_terminal s \<Longrightarrow> can_transition_turn s turn_state.Failed"
  by (auto simp: can_transition_turn_def turn_is_terminal_def)

section \<open>Actions and runs\<close>

lemma transition_Inr:
  "transition m to at reason = Inr m' \<longleftrightarrow>
     can_transition_turn (tu_state (tm_turn m)) to \<and>
     m' = m\<lparr>tm_turn := (tm_turn m)\<lparr>tu_state := to,
              tu_failure := (if to = turn_state.Failed then reason else tu_failure (tm_turn m)),
              tu_ended_at := (if turn_is_terminal to then Some at else tu_ended_at (tm_turn m))\<rparr>\<rparr>"
  by (auto simp: transition_def Let_def)

lemma apply_action_Inr:
  "apply_action m a at = Inr (m', s) \<longleftrightarrow>
     s = action_target a \<and> transition m (action_target a) at (action_reason a) = Inr m'"
  by (auto simp: apply_action_def rbind_eq_Inr)

lemma apply_action_state:
  "apply_action m a at = Inr (m', s) \<Longrightarrow>
     can_transition_turn (tu_state (tm_turn m)) s \<and> tu_state (tm_turn m') = s \<and>
     tm_steering m' = tm_steering m"
  by (auto simp: apply_action_Inr transition_Inr)

text \<open>The targets of the actions: no action leads to \<open>IntegratingResults\<close>.\<close>

lemma action_target_not_integrating: "action_target a \<noteq> IntegratingResults"
  by (cases a rule: action_target.cases) simp_all

lemma run_actions_Cons_Inr:
  "run_actions m ((a, at) # rest) = Inr m' \<longleftrightarrow>
     (\<exists>m1 s. apply_action m a at = Inr (m1, s) \<and> run_actions m1 rest = Inr m')"
  by (force simp: rbind_eq_Inr)

lemma run_actions_never_integrating:
  "run_actions m as = Inr m' \<Longrightarrow> tu_state (tm_turn m) \<noteq> IntegratingResults \<Longrightarrow>
     tu_state (tm_turn m') \<noteq> IntegratingResults"
proof (induction "as" arbitrary: m)
  case Nil
  then show ?case by simp
next
  case (Cons e rest)
  obtain a at where e: "e = (a, at)" by (cases e)
  from Cons.prems(1) obtain m1 s
    where step: "apply_action m a at = Inr (m1, s)" and rest: "run_actions m1 rest = Inr m'"
    unfolding e run_actions_Cons_Inr by blast
  from step have "tu_state (tm_turn m1) \<noteq> IntegratingResults"
    using apply_action_state [OF step] by (auto simp: apply_action_Inr action_target_not_integrating)
  with rest show ?case by (rule Cons.IH)
qed

lemma executing_edges: "can_transition_turn Executing t \<longleftrightarrow> t \<in> {IntegratingResults, Cancelling, turn_state.Failed}"
  by (auto simp: can_transition_turn_iff turn_edges_def turn_is_terminal_def)

lemma cancelling_edges: "can_transition_turn Cancelling t \<longleftrightarrow> t \<in> {turn_state.Cancelled, turn_state.Failed}"
  by (auto simp: can_transition_turn_iff turn_edges_def turn_is_terminal_def)

lemma terminal_edges: "turn_is_terminal s \<Longrightarrow> \<not> can_transition_turn s t"
  by (rule turns.terminal_stuck)

text \<open>
  What a run keeps: an ended turn has an end time, a failed one ended by failing, and a
  terminal machine accepts nothing more.
\<close>

definition turn_wf :: "turn \<Rightarrow> bool" where
  "turn_wf t \<longleftrightarrow>
     (turn_is_terminal (tu_state t) \<longleftrightarrow> tu_ended_at t \<noteq> None) \<and>
     (tu_failure t \<noteq> None \<longrightarrow> tu_state t = turn_state.Failed)"

lemma transition_wf:
  assumes "transition m to at reason = Inr m'" and "turn_wf (tm_turn m)"
  shows "turn_wf (tm_turn m')"
proof -
  have "\<not> turn_is_terminal (tu_state (tm_turn m))"
    using assms(1) turns.terminal_stuck by (auto simp: transition_Inr)
  then show ?thesis
    using assms by (auto simp: turn_wf_def transition_Inr turn_is_terminal_def)
qed

lemma run_actions_wf: "run_actions m as = Inr m' \<Longrightarrow> turn_wf (tm_turn m) \<Longrightarrow> turn_wf (tm_turn m')"
proof (induction "as" arbitrary: m)
  case Nil
  then show ?case by simp
next
  case (Cons e rest)
  obtain a at where e: "e = (a, at)" by (cases e)
  from Cons.prems(1) obtain m1 s
    where step: "apply_action m a at = Inr (m1, s)" and rest: "run_actions m1 rest = Inr m'"
    unfolding e run_actions_Cons_Inr by blast
  from step have "turn_wf (tm_turn m1)"
    using transition_wf Cons.prems(2) by (auto simp: apply_action_Inr)
  with rest show ?case by (rule Cons.IH)
qed

text \<open>Every run extends to a terminal state in at most two further actions.\<close>

lemma interruptible:
  assumes "\<not> turn_is_terminal (tu_state (tm_turn m))"
  shows "\<exists>as m'. length as \<le> 2 \<and> run_actions m as = Inr m' \<and> tu_state (tm_turn m') = turn_state.Cancelled"
proof (cases "tu_state (tm_turn m) = Cancelling")
  case True
  then have "apply_action m CancellationFinished 0 =
      Inr (m\<lparr>tm_turn := (tm_turn m)\<lparr>tu_state := turn_state.Cancelled, tu_ended_at := Some 0\<rparr>\<rparr>, turn_state.Cancelled)"
    by (simp add: apply_action_Inr transition_def cancelling_edges turn_is_terminal_def Let_def)
  then have "run_actions m [(CancellationFinished, 0)] =
      Inr (m\<lparr>tm_turn := (tm_turn m)\<lparr>tu_state := turn_state.Cancelled, tu_ended_at := Some 0\<rparr>\<rparr>)"
    by simp
  then show ?thesis by (intro exI [of _ "[(CancellationFinished, 0)]"]) auto
next
  case False
  then have c: "can_transition_turn (tu_state (tm_turn m)) Cancelling"
    using assms by (rule cancel_or_fail(1)[rotated])
  define m1 where "m1 = m\<lparr>tm_turn := (tm_turn m)\<lparr>tu_state := Cancelling\<rparr>\<rparr>"
  have "apply_action m Interrupt 0 = Inr (m1, Cancelling)"
    using c by (simp add: apply_action_Inr transition_def m1_def Let_def turn_is_terminal_def)
  moreover have "apply_action m1 CancellationFinished 0 =
      Inr (m1\<lparr>tm_turn := (tm_turn m1)\<lparr>tu_state := turn_state.Cancelled, tu_ended_at := Some 0\<rparr>\<rparr>, turn_state.Cancelled)"
    by (simp add: apply_action_Inr transition_def cancelling_edges turn_is_terminal_def Let_def m1_def)
  ultimately have "run_actions m [(Interrupt, 0), (CancellationFinished, 0)] =
      Inr (m1\<lparr>tm_turn := (tm_turn m1)\<lparr>tu_state := turn_state.Cancelled, tu_ended_at := Some 0\<rparr>\<rparr>)"
    by simp
  then show ?thesis by (intro exI [of _ "[(Interrupt, 0), (CancellationFinished, 0)]"]) auto
qed

section \<open>Steering\<close>

text \<open>Steering messages come out in the order they went in.\<close>

fun drain :: "nat \<Rightarrow> turn_machine \<Rightarrow> string list" where
  "drain 0 m = []"
| "drain (Suc n) m =
     (case take_steering m of (None, _) \<Rightarrow> [] | (Some s, m') \<Rightarrow> s # drain n m')"

lemma drain_all: "length (tm_steering m) \<le> n \<Longrightarrow> drain n m = tm_steering m"
proof (induction n arbitrary: m)
  case 0
  then show ?case by simp
next
  case (Suc n)
  then show ?case by (cases "tm_steering m") (auto simp: take_steering_def)
qed

section \<open>Properties\<close>

text \<open>
  A machine whose turn has ended accepts nothing more: every action is rejected with the
  transition it asked for, and steering is rejected with the terminal state.
\<close>

lemma terminal_turn_rejects_everything:
  assumes "turn_is_terminal (tu_state (tm_turn m))"
  shows "apply_action m a at = Inl (turn_error.InvalidTransition (tu_state (tm_turn m)) (action_target a)) \<and>
    steer m message = Inl (TerminalSteering (tu_state (tm_turn m)))"
  using assms turns.terminal_stuck [OF assms]
  by (simp add: apply_action_def transition_def steer_def Let_def)

definition sample_turn :: "turn_state \<Rightarrow> turn" where
  "sample_turn s =
     \<lparr>tu_id = 1, tu_thread_id = 2, tu_agent_id = ''root'', tu_state = s, tu_started_at = 10,
      tu_ended_at = (if turn_is_terminal s then Some 11 else None), tu_failure = None\<rparr>"

theorem terminal_turn_rejects_everything_witness:
  "apply_action (turn_machine_new (sample_turn turn_state.Completed)) Interrupt 12 =
     Inl (turn_error.InvalidTransition turn_state.Completed Cancelling)"
  using terminal_turn_rejects_everything
    [of "turn_machine_new (sample_turn turn_state.Completed)" Interrupt 12 "[]"]
  by (simp add: turn_machine_new_def sample_turn_def turn_is_terminal_def)

text \<open>
  Every accepted run of actions keeps the turn record consistent: the turn has an end
  time exactly when it is terminal, and it carries a failure reason only when it failed.
\<close>

lemma accepted_run_keeps_turn_consistent:
  assumes "run_actions m as = Inr m'" and "turn_wf (tm_turn m)"
  shows "turn_wf (tm_turn m') \<and> tm_steering m' = tm_steering m"
proof -
  have "run_actions m as = Inr m' \<Longrightarrow> tm_steering m' = tm_steering m"
  proof (induction "as" arbitrary: m)
    case (Cons e rest)
    then show ?case
      by (cases e) (metis apply_action_state run_actions_Cons_Inr)
  qed simp
  with assms show ?thesis using run_actions_wf by blast
qed

lemma accepted_run_keeps_turn_consistent_witness:
  "\<exists>m'. run_actions (turn_machine_new (sample_turn Accepted))
      [(BeginContext, 11), (ContextBuilt, 12), (ModelStreaming, 13), (Complete, 14)] = Inr m' \<and>
     turn_wf (tm_turn m') \<and> tm_steering m' = []"
proof -
  let ?m = "turn_machine_new (sample_turn Accepted)"
  let ?as = "[(BeginContext, 11), (ContextBuilt, 12), (ModelStreaming, 13), (Complete, 14)]"
  have "\<exists>m'. run_actions ?m ?as = Inr m'"
    by (simp add: apply_action_def transition_def can_transition_turn_def turn_edges_def
        turn_machine_new_def sample_turn_def turn_is_terminal_def Let_def)
  then obtain m' where run: "run_actions ?m ?as = Inr m'" ..
  have "turn_wf (tm_turn ?m)"
    by (simp add: turn_wf_def turn_machine_new_def sample_turn_def turn_is_terminal_def)
  with accepted_run_keeps_turn_consistent [OF run] run show ?thesis
    by (auto simp: turn_machine_new_def)
qed

text \<open>
  A turn can always be ended by interruption: from every state that is not terminal, at
  most two further actions lead to \<open>Cancelled\<close>.
\<close>

lemma every_turn_is_interruptible:
  assumes "\<not> turn_is_terminal (tu_state (tm_turn m))"
  shows "\<exists>as m'. length as \<le> 2 \<and> run_actions m as = Inr m' \<and>
    tu_state (tm_turn m') = turn_state.Cancelled"
  using assms by (rule interruptible)

lemma every_turn_is_interruptible_witness:
  "\<exists>as m'. length as \<le> 2 \<and>
     run_actions (turn_machine_new (sample_turn turn_state.WaitingForApproval)) as = Inr m' \<and>
     tu_state (tm_turn m') = turn_state.Cancelled"
  using every_turn_is_interruptible [of "turn_machine_new (sample_turn turn_state.WaitingForApproval)"]
  by (simp add: turn_machine_new_def sample_turn_def turn_is_terminal_def)

text \<open>
  No action leads to \<open>IntegratingResults\<close>, the only state from which executed tools can
  continue: a turn that has started executing tools can, by actions, only be interrupted or
  fail, and never completes or asks the model again.
\<close>

lemma executing_turn_cannot_complete_by_actions:
  assumes "run_actions m as = Inr m'"
    and "tu_state (tm_turn m) \<in> {Executing, Cancelling, turn_state.Cancelled, turn_state.Failed}"
  shows "tu_state (tm_turn m') \<in> {Executing, Cancelling, turn_state.Cancelled, turn_state.Failed}"
  using assms
proof (induction "as" arbitrary: m)
  case Nil
  then show ?case by simp
next
  case (Cons e rest)
  obtain a at where e: "e = (a, at)" by (cases e)
  from Cons.prems(1) obtain m1 s
    where step: "apply_action m a at = Inr (m1, s)" and rest: "run_actions m1 rest = Inr m'"
    unfolding e run_actions_Cons_Inr by blast
  have "tu_state (tm_turn m1) \<in> {Cancelling, turn_state.Cancelled, turn_state.Failed}"
    using apply_action_state [OF step] Cons.prems(2) action_target_not_integrating [of a] step
      terminal_edges [of turn_state.Cancelled s] terminal_edges [of turn_state.Failed s]
    by (auto simp: executing_edges cancelling_edges apply_action_Inr turn_is_terminal_def)
  with rest show ?case by (intro Cons.IH) auto
qed

lemma executing_turn_cannot_complete_by_actions_witness:
  "\<exists>m'. run_actions (turn_machine_new (sample_turn Executing)) [(Interrupt, 11)] = Inr m' \<and>
     tu_state (tm_turn m') \<in> {Executing, Cancelling, turn_state.Cancelled, turn_state.Failed}"
proof -
  let ?m = "turn_machine_new (sample_turn Executing)"
  have "\<exists>m'. run_actions ?m [(Interrupt, 11)] = Inr m'"
    by (simp add: apply_action_def transition_def can_transition_turn_def turn_edges_def
        turn_machine_new_def sample_turn_def turn_is_terminal_def Let_def)
  then obtain m' where run: "run_actions ?m [(Interrupt, 11)] = Inr m'" ..
  have "tu_state (tm_turn ?m) \<in> {Executing, Cancelling, turn_state.Cancelled, turn_state.Failed}"
    by (simp add: turn_machine_new_def sample_turn_def)
  with executing_turn_cannot_complete_by_actions [OF run] run show ?thesis by auto
qed

end
