(* ===== verification/Invocation_Machine.thy ===== *)
theory Invocation_Machine
  imports Protocol_Types
begin

text \<open>
  The invocation state machine of \<open>yeux-core/src/invocation.rs\<close>: ordinary transitions,
  which depend on the idempotency contract only for the explicit retry of an unknown
  outcome, the separate reconciliation step, and the recovery disposition after a crash.
  The lemmas bound how often one invocation can enter the execution boundary.
\<close>

datatype recovery_disposition =
  ResumePreparation | RetryWithSameIdempotencyKey | ReconcileOnly | Terminal

datatype invocation_error = InvalidTransition invocation_state invocation_state

definition invocation_edges :: "(invocation_state \<times> invocation_state) list" where
  "invocation_edges =
     [(Proposed, Approved),
      (Approved, Prepared),
      (Prepared, Started),
      (Started, invocation_state.Completed),
      (Started, invocation_state.Failed),
      (Started, invocation_state.Cancelled),
      (Started, invocation_state.Unknown),
      (Proposed, invocation_state.Failed),
      (Proposed, invocation_state.Cancelled),
      (Approved, invocation_state.Failed),
      (Approved, invocation_state.Cancelled),
      (Prepared, invocation_state.Failed),
      (Prepared, invocation_state.Cancelled)]"

definition retryable :: "idempotency \<Rightarrow> bool" where
  "retryable i \<longleftrightarrow> i = Idempotent \<or> i = IdempotentWithKey"

definition can_transition_invocation_with_idempotency ::
  "invocation_state \<Rightarrow> invocation_state \<Rightarrow> idempotency \<Rightarrow> bool" where
  "can_transition_invocation_with_idempotency frm to i =
     (if frm = to \<or> inv_is_terminal frm then False
      else (frm, to) \<in> set invocation_edges \<or>
           (frm = invocation_state.Unknown \<and> to = Started \<and> retryable i))"

definition can_transition_invocation :: "invocation_state \<Rightarrow> invocation_state \<Rightarrow> bool" where
  "can_transition_invocation frm to = can_transition_invocation_with_idempotency frm to NonIdempotent"

definition can_reconcile_invocation :: "invocation_state \<Rightarrow> reconciliation_outcome \<Rightarrow> bool" where
  "can_reconcile_invocation frm outcome \<longleftrightarrow>
     frm = invocation_state.Unknown \<and>
     (outcome = reconciliation_outcome.Completed \<or> outcome = reconciliation_outcome.Failed)"

record invocation_machine =
  im_id :: invocation_id
  im_state :: invocation_state
  im_idempotency :: idempotency

definition machine_proposed :: "invocation_id \<Rightarrow> idempotency \<Rightarrow> invocation_machine" where
  "machine_proposed i idem = \<lparr>im_id = i, im_state = Proposed, im_idempotency = idem\<rparr>"

definition machine_from_parts ::
  "invocation_id \<Rightarrow> invocation_state \<Rightarrow> idempotency \<Rightarrow> invocation_machine" where
  "machine_from_parts i s idem = \<lparr>im_id = i, im_state = s, im_idempotency = idem\<rparr>"

definition inv_transition ::
  "invocation_machine \<Rightarrow> invocation_state \<Rightarrow> (invocation_error, invocation_machine) rust_result" where
  "inv_transition m to =
     (let frm = im_state m in
      if \<not> can_transition_invocation_with_idempotency frm to (im_idempotency m)
      then Inl (InvalidTransition frm to) else Inr (m\<lparr>im_state := to\<rparr>))"

definition reconcile ::
  "invocation_machine \<Rightarrow> reconciliation_outcome \<Rightarrow> (invocation_error, invocation_machine) rust_result" where
  "reconcile m outcome =
     (let frm = im_state m; to = outcome_state outcome in
      if \<not> can_reconcile_invocation frm outcome
      then Inl (InvalidTransition frm to) else Inr (m\<lparr>im_state := to\<rparr>))"

fun recovery_of :: "invocation_state \<Rightarrow> idempotency \<Rightarrow> recovery_disposition" where
  "recovery_of Proposed _ = ResumePreparation"
| "recovery_of Approved _ = ResumePreparation"
| "recovery_of Prepared _ = ResumePreparation"
| "recovery_of Started Idempotent = RetryWithSameIdempotencyKey"
| "recovery_of Started IdempotentWithKey = RetryWithSameIdempotencyKey"
| "recovery_of Started _ = ReconcileOnly"
| "recovery_of invocation_state.Unknown Idempotent = RetryWithSameIdempotencyKey"
| "recovery_of invocation_state.Unknown IdempotentWithKey = RetryWithSameIdempotencyKey"
| "recovery_of invocation_state.Unknown _ = ReconcileOnly"
| "recovery_of invocation_state.Completed _ = Terminal"
| "recovery_of invocation_state.Failed _ = Terminal"
| "recovery_of invocation_state.Cancelled _ = Terminal"

definition recovery_disposition_of :: "invocation_machine \<Rightarrow> recovery_disposition" where
  "recovery_disposition_of m = recovery_of (im_state m) (im_idempotency m)"

section \<open>The transition relation\<close>

lemma invocation_edges_nonterminal:
  "(s, t) \<in> set invocation_edges \<Longrightarrow> \<not> inv_is_terminal s \<and> s \<noteq> t \<and> s \<noteq> invocation_state.Unknown"
  by (auto simp: invocation_edges_def inv_is_terminal_def)

lemma can_transition_invocation_iff:
  "can_transition_invocation_with_idempotency s t i \<longleftrightarrow>
     (s, t) \<in> set invocation_edges \<or> (s = invocation_state.Unknown \<and> t = Started \<and> retryable i)"
  using invocation_edges_nonterminal [of s t]
  by (auto simp: can_transition_invocation_with_idempotency_def inv_is_terminal_def)

text \<open>
  One step of an invocation's life: an ordinary transition or a reconciliation. Both share
  the contract of a machine with absorbing terminal states.
\<close>

inductive inv_step :: "idempotency \<Rightarrow> invocation_state \<Rightarrow> invocation_state \<Rightarrow> bool" for i where
  ordinary: "can_transition_invocation_with_idempotency s t i \<Longrightarrow> inv_step i s t"
| reconciled: "can_reconcile_invocation s o' \<Longrightarrow> inv_step i s (outcome_state o')"

inductive_simps inv_step_iff: "inv_step i s t"

lemma inv_step_edges:
  "inv_step i s t \<longleftrightarrow>
     (s, t) \<in> set invocation_edges \<or> (s = invocation_state.Unknown \<and> t = Started \<and> retryable i) \<or>
     (s = invocation_state.Unknown \<and> (t = invocation_state.Completed \<or> t = invocation_state.Failed))"
proof -
  have "(\<exists>o'. t = outcome_state o' \<and> can_reconcile_invocation s o') \<longleftrightarrow>
      s = invocation_state.Unknown \<and> (t = invocation_state.Completed \<or> t = invocation_state.Failed)"
    by (auto simp: can_reconcile_invocation_def)
      (metis outcome_state.simps reconciliation_outcome.exhaust)+
  then show ?thesis
    by (auto simp: inv_step_iff can_transition_invocation_iff)
qed

interpretation invocations: absorbing_machine "inv_step i" inv_is_terminal for i
proof
  show "\<not> inv_step i s s" for s
    by (auto simp: inv_step_edges invocation_edges_def)
  show "inv_is_terminal s \<Longrightarrow> \<not> inv_step i s t" for s t
    by (auto simp: inv_step_edges invocation_edges_def inv_is_terminal_def)
qed

lemma inv_transition_Inr:
  "inv_transition m to = Inr m' \<longleftrightarrow>
     can_transition_invocation_with_idempotency (im_state m) to (im_idempotency m) \<and>
     m' = m\<lparr>im_state := to\<rparr>"
  by (auto simp: inv_transition_def Let_def)

lemma reconcile_Inr:
  "reconcile m oc = Inr m' \<longleftrightarrow>
     can_reconcile_invocation (im_state m) oc \<and> m' = m\<lparr>im_state := outcome_state oc\<rparr>"
  by (auto simp: reconcile_def Let_def)

section \<open>How often an invocation starts\<close>

text \<open>
  The rank of a state in an invocation's life. Every step of an invocation that may not be
  retried raises it, so no state is visited twice and a run has at most four steps.
\<close>

fun phase :: "invocation_state \<Rightarrow> nat" where
  "phase Proposed = 0"
| "phase Approved = 1"
| "phase Prepared = 2"
| "phase Started = 3"
| "phase invocation_state.Unknown = 4"
| "phase invocation_state.Completed = 5"
| "phase invocation_state.Failed = 5"
| "phase invocation_state.Cancelled = 5"

lemma phase_increases: "inv_step i s t \<Longrightarrow> \<not> retryable i \<Longrightarrow> phase s < phase t"
  by (auto simp: inv_step_edges invocation_edges_def)

lemma path_phases:
  "invocations.path i s ts \<Longrightarrow> \<not> retryable i \<Longrightarrow> t \<in> set ts \<Longrightarrow> phase s < phase t"
proof (induction ts arbitrary: s)
  case Nil
  then show ?case by simp
next
  case (Cons u ts)
  then have "phase s < phase u" using phase_increases by auto
  moreover have "t = u \<or> phase u < phase t" using Cons by auto
  ultimately show ?case by auto
qed

lemma path_distinct: "invocations.path i s ts \<Longrightarrow> \<not> retryable i \<Longrightarrow> distinct (s # ts)"
proof (induction ts arbitrary: s)
  case Nil
  then show ?case by simp
next
  case (Cons u ts)
  then have "distinct (u # ts)" by (metis invocations.path.simps(2))
  moreover have "s \<notin> set (u # ts)"
    using path_phases [OF Cons.prems(1,2)] by blast
  ultimately show ?case by simp
qed

lemma count_distinct: "distinct xs \<Longrightarrow> length (filter ((=) x) xs) \<le> 1"
  by (induction xs) (auto simp: filter_empty_conv)

text \<open>
  For any contract, a start that is not the first one is preceded by an unknown outcome.
\<close>

lemma restart_after_unknown:
  assumes "inv_step i s Started" and "s \<noteq> Prepared"
  shows "s = invocation_state.Unknown \<and> retryable i"
  using assms by (auto simp: inv_step_edges invocation_edges_def)

lemma prepared_only_from_approved: "inv_step i s Prepared \<longleftrightarrow> s = Approved"
  and approved_only_from_proposed: "inv_step i s Approved \<longleftrightarrow> s = Proposed"
  and proposed_is_initial: "\<not> inv_step i s Proposed"
  by (auto simp: inv_step_edges invocation_edges_def)

text \<open>Recovery advises a retry exactly where the machine accepts one.\<close>

lemma recovery_retry_iff:
  "recovery_of invocation_state.Unknown i = RetryWithSameIdempotencyKey \<longleftrightarrow>
     can_transition_invocation_with_idempotency invocation_state.Unknown Started i"
  by (cases i) (auto simp: can_transition_invocation_iff retryable_def invocation_edges_def)

lemma recovery_terminal_iff: "recovery_of s i = Terminal \<longleftrightarrow> inv_is_terminal s"
  by (cases s; cases i) (auto simp: inv_is_terminal_def)

section \<open>Runs of the machine\<close>

datatype inv_op = Transition invocation_state | Reconcile reconciliation_outcome

fun inv_apply :: "invocation_machine \<Rightarrow> inv_op \<Rightarrow> (invocation_error, invocation_machine) rust_result" where
  "inv_apply m (Transition to) = inv_transition m to"
| "inv_apply m (Reconcile oc) = reconcile m oc"

text \<open>The states a run of operations passes through, or the first rejection.\<close>

fun run_ops :: "invocation_machine \<Rightarrow> inv_op list \<Rightarrow> (invocation_error, invocation_state list) rust_result" where
  "run_ops m [] = Inr []"
| "run_ops m (x # xs) =
     rbind (inv_apply m x) (\<lambda>m'. rbind (run_ops m' xs) (\<lambda>ts. Inr (im_state m' # ts)))"

lemma inv_apply_step:
  "inv_apply m x = Inr m' \<Longrightarrow>
     inv_step (im_idempotency m) (im_state m) (im_state m') \<and> im_idempotency m' = im_idempotency m \<and> im_id m' = im_id m"
  by (cases x) (auto simp: inv_transition_Inr reconcile_Inr intro: inv_step.intros)

lemma run_ops_path:
  "run_ops m xs = Inr ts \<Longrightarrow> invocations.path (im_idempotency m) (im_state m) ts"
proof (induction xs arbitrary: m ts)
  case Nil
  then show ?case by simp
next
  case (Cons x xs)
  from Cons.prems obtain m' ts' where "inv_apply m x = Inr m'" "run_ops m' xs = Inr ts'"
    and ts: "ts = im_state m' # ts'"
    by (auto simp: rbind_eq_Inr)
  with Cons.IH [of m' ts'] inv_apply_step [of m x m'] show ?case by simp
qed

section \<open>Properties\<close>

text \<open>
  At most one execution: whatever sequence of transitions and reconciliations an
  invocation goes through, if its contract is not an idempotent one it enters \<open>Started\<close> at
  most once, and its life has at most five steps.
\<close>

lemma non_idempotent_starts_at_most_once:
  assumes "run_ops (machine_proposed i idem) xs = Inr ts"
    and "idem = NonIdempotent \<or> idem = idempotency.Unknown"
  shows "length (filter ((=) Started) ts) \<le> 1 \<and> length ts \<le> 5"
proof -
  have nr: "\<not> retryable idem" using assms(2) by (auto simp: retryable_def)
  have path: "invocations.path idem Proposed ts"
    using run_ops_path [OF assms(1)] by (simp add: machine_proposed_def)
  have d: "distinct (Proposed # ts)" using path_distinct [OF path nr] .
  have "distinct (map phase ts) \<and> set (map phase ts) \<subseteq> {1..5}"
  proof -
    have "invocations.path idem s ts \<Longrightarrow> distinct (map phase ts)" for s
    proof (induction ts arbitrary: s)
      case (Cons u us)
      then show ?case using path_phases [of idem u us] nr by fastforce
    qed simp
    moreover have "1 \<le> phase t \<and> phase t \<le> 5" if "t \<in> set ts" for t
      using path_phases [OF path nr that] by (cases t) auto
    ultimately show ?thesis using path by auto
  qed
  then have "length (map phase ts) \<le> card {1..5::nat}"
    by (metis card_mono distinct_card finite_atLeastAtMost)
  then show ?thesis using count_distinct [of ts Started] d by simp
qed

lemma non_idempotent_starts_at_most_once_witness:
  "run_ops (machine_proposed 7 NonIdempotent)
     [Transition Approved, Transition Prepared, Transition Started,
      Transition invocation_state.Unknown, Reconcile reconciliation_outcome.Failed] =
     Inr [Approved, Prepared, Started, invocation_state.Unknown, invocation_state.Failed] \<and>
   length (filter ((=) Started)
     [Approved, Prepared, Started, invocation_state.Unknown, invocation_state.Failed]) \<le> 1"
proof -
  let ?xs = "[Transition Approved, Transition Prepared, Transition Started,
      Transition invocation_state.Unknown, Reconcile reconciliation_outcome.Failed]"
  have run: "run_ops (machine_proposed 7 NonIdempotent) ?xs =
      Inr [Approved, Prepared, Started, invocation_state.Unknown, invocation_state.Failed]"
    by (simp add: machine_proposed_def inv_transition_def reconcile_def Let_def
        can_transition_invocation_iff invocation_edges_def can_reconcile_invocation_def)
  then show ?thesis using non_idempotent_starts_at_most_once [OF run] by simp
qed

text \<open>
  A second start is always an explicit retry: in every run, each entry into \<open>Started\<close>
  comes from \<open>Prepared\<close>, or from \<open>Unknown\<close> under an idempotent contract, and recovery
  advises a retry of an unknown outcome in exactly those contracts.
\<close>

lemma restart_only_as_idempotent_retry:
  assumes "run_ops (machine_proposed i idem) xs = Inr ts"
    and "Suc k < length ts" and "ts ! Suc k = Started"
  shows "ts ! k = Prepared \<or>
    (ts ! k = invocation_state.Unknown \<and> recovery_of invocation_state.Unknown idem = RetryWithSameIdempotencyKey)"
proof -
  have "invocations.path idem s us \<Longrightarrow> Suc j < length us \<Longrightarrow> inv_step idem (us ! j) (us ! Suc j)" for s us j
  proof (induction us arbitrary: s j)
    case (Cons u us)
    then show ?case by (cases j; cases us) auto
  qed simp
  then have "inv_step idem (ts ! k) Started"
    using run_ops_path [OF assms(1)] assms(2,3) by (metis invocation_machine.select_convs(2,3) machine_proposed_def)
  then show ?thesis
    using restart_after_unknown [of idem "ts ! k"] by (auto simp: recovery_retry_iff can_transition_invocation_iff)
qed

lemma restart_only_as_idempotent_retry_witness:
  "\<exists>ts. run_ops (machine_proposed 7 Idempotent)
     [Transition Approved, Transition Prepared, Transition Started,
      Transition invocation_state.Unknown, Transition Started] = Inr ts \<and> ts ! Suc 3 = Started \<and>
     (ts ! 3 = Prepared \<or>
       (ts ! 3 = invocation_state.Unknown \<and>
         recovery_of invocation_state.Unknown Idempotent = RetryWithSameIdempotencyKey))"
proof -
  let ?ts = "[Approved, Prepared, Started, invocation_state.Unknown, Started]"
  have run: "run_ops (machine_proposed 7 Idempotent)
     [Transition Approved, Transition Prepared, Transition Started,
      Transition invocation_state.Unknown, Transition Started] = Inr ?ts"
    by (simp add: machine_proposed_def inv_transition_def Let_def
        can_transition_invocation_iff invocation_edges_def retryable_def)
  have "?ts ! Suc 3 = Started" "Suc 3 < length ?ts" by (simp_all add: eval_nat_numeral)
  with restart_only_as_idempotent_retry [OF run, of 3] run show ?thesis by blast
qed

end
