(* ===== verification/Capability_Policy.thy ===== *)
theory Capability_Policy
  imports Protocol_Types
begin

text \<open>
  Capability intersection and policy evaluation (\<open>yeux-core/src/policy.rs\<close>) and the four
  capability layers the daemon supplies (\<open>yeuxd/src/grants.rs\<close>). The lemmas show that the
  intersection of scopes allows exactly what every layer allows, so that an allowed decision
  is within each layer on its own.
\<close>

section \<open>Paths\<close>

text \<open>
  \<open>std::path::Path\<close> on Unix compares component sequences: a leading slash is the root
  component, empty components and single dots are skipped (a leading single dot of a relative
  path is kept), two dots are a component of their own. \<open>starts_with\<close> is the prefix relation on components.
\<close>

datatype component = RootDir | CurDir | ParentDir | Normal string

fun split_slash :: "string \<Rightarrow> string list" where
  "split_slash [] = [[]]"
| "split_slash (c # s) =
     (if c = CHR ''/'' then [] # split_slash s
      else (case split_slash s of [] \<Rightarrow> [[c]] | p # ps \<Rightarrow> (c # p) # ps))"

definition component_of :: "string \<Rightarrow> component option" where
  "component_of p =
     (if p = [] \<or> p = ''.'' then None
      else if p = ''..'' then Some ParentDir else Some (Normal p))"

definition components :: "string \<Rightarrow> component list" where
  "components s =
     (let parts = split_slash s;
          rest = List.map_filter component_of parts
      in if s \<noteq> [] \<and> hd s = CHR ''/'' then RootDir # rest
         else if hd parts = ''.'' then CurDir # rest else rest)"

definition is_prefix :: "'a list \<Rightarrow> 'a list \<Rightarrow> bool" where
  "is_prefix xs ys \<longleftrightarrow> take (length xs) ys = xs"

definition path_starts_with :: "string \<Rightarrow> string \<Rightarrow> bool" where
  "path_starts_with child parent \<longleftrightarrow> is_prefix (components parent) (components child)"

section \<open>Scopes\<close>

definition intersect_exact_scopes :: "string list \<Rightarrow> string list \<Rightarrow> string list" where
  "intersect_exact_scopes left right =
     (let l = bts_of_list left; r = bts_of_list right in
      if ''*'' \<in> set l then r
      else if ''*'' \<in> set r then l
      else filter (\<lambda>s. s \<in> set r) l)"

definition path_contains :: "string \<Rightarrow> string \<Rightarrow> bool" where
  "path_contains parent child \<longleftrightarrow> parent = ''*'' \<or> path_starts_with child parent"

definition scope_meet :: "string \<Rightarrow> string \<Rightarrow> string option" where
  "scope_meet l r =
     (if path_contains l r then Some r else if path_contains r l then Some l else None)"

definition intersect_path_scopes :: "string list \<Rightarrow> string list \<Rightarrow> string list" where
  "intersect_path_scopes left right =
     bts_of_list (List.map_filter (\<lambda>(l, r). scope_meet l r) (List.product left right))"

definition min_expiry :: "instant option \<Rightarrow> instant option \<Rightarrow> instant option" where
  "min_expiry a b =
     (case (a, b) of
        (Some x, Some y) \<Rightarrow> Some (min x y)
      | (Some x, None) \<Rightarrow> Some x
      | (None, Some y) \<Rightarrow> Some y
      | (None, None) \<Rightarrow> None)"

definition intersect_two :: "capability_grant \<Rightarrow> capability_grant \<Rightarrow> capability_grant" where
  "intersect_two left right =
     \<lparr>cg_mode = minimum (cg_mode left) (cg_mode right),
      cg_filesystem_read = intersect_path_scopes (cg_filesystem_read left) (cg_filesystem_read right),
      cg_filesystem_write = intersect_path_scopes (cg_filesystem_write left) (cg_filesystem_write right),
      cg_filesystem_delete = intersect_path_scopes (cg_filesystem_delete left) (cg_filesystem_delete right),
      cg_process = (cg_process left \<and> cg_process right),
      cg_network = intersect_exact_scopes (cg_network left) (cg_network right),
      cg_secrets = intersect_exact_scopes (cg_secrets left) (cg_secrets right),
      cg_external_write = intersect_exact_scopes (cg_external_write left) (cg_external_write right),
      cg_expires_at = min_expiry (cg_expires_at left) (cg_expires_at right)\<rparr>"

definition intersect_grants :: "capability_grant list \<Rightarrow> capability_grant" where
  "intersect_grants grants =
     (case grants of [] \<Rightarrow> observe_grant | g # gs \<Rightarrow> foldl intersect_two g gs)"

definition exact_scope_allows :: "string list \<Rightarrow> string \<Rightarrow> bool" where
  "exact_scope_allows grants requested \<longleftrightarrow> list_ex (\<lambda>g. g = ''*'' \<or> g = requested) grants"

definition path_scope_allows :: "string list \<Rightarrow> string \<Rightarrow> bool" where
  "path_scope_allows grants requested \<longleftrightarrow> list_ex (\<lambda>g. path_contains g requested) grants"

definition network_scope :: "string \<Rightarrow> string \<Rightarrow> nat option \<Rightarrow> string" where
  "network_scope scheme host port =
     (case port of
        Some p \<Rightarrow> scheme @ ''://'' @ host @ '':'' @ dec_digits p
      | None \<Rightarrow> scheme @ ''://'' @ host)"

section \<open>Policy evaluation\<close>

record policy_input =
  pin_host_ceiling :: capability_grant
  pin_user_profile :: capability_grant
  pin_project_trust :: capability_grant
  pin_turn_override :: capability_grant
  pin_effects :: effect_set
  pin_now :: instant

datatype policy_decision =
    Allow capability_grant bool "string list"
  | Deny capability_grant "string list"

fun is_allowed :: "policy_decision \<Rightarrow> bool" where
  "is_allowed (Allow _ _ _) = True"
| "is_allowed (Deny _ _) = False"

fun effective_grant :: "policy_decision \<Rightarrow> capability_grant" where
  "effective_grant (Allow g _ _) = g"
| "effective_grant (Deny g _) = g"

definition external_scope :: "external_effect \<Rightarrow> string" where
  "external_scope x =
     ee_system x @ '':'' @ ee_operation x @ '':'' @ (case ee_resource x of None \<Rightarrow> ''*'' | Some r \<Rightarrow> r)"

definition expired_reasons :: "capability_grant \<Rightarrow> instant \<Rightarrow> string list" where
  "expired_reasons g now =
     (case cg_expires_at g of
        Some expiry \<Rightarrow> if expiry \<le> now then [''effective capability grant is expired''] else []
      | None \<Rightarrow> [])"

definition unresolved_reasons :: "effect_set \<Rightarrow> string list" where
  "unresolved_reasons e =
     map (\<lambda>s. ''filesystem scope is unresolved: '' @ ps_path s)
       (filter (\<lambda>s. \<not> ps_resolved s)
         (es_filesystem_read e @ es_filesystem_write e @ es_filesystem_delete e))"

definition read_reasons :: "capability_grant \<Rightarrow> effect_set \<Rightarrow> string list" where
  "read_reasons g e =
     map (\<lambda>s. ''filesystem read is outside the grant: '' @ ps_path s)
       (filter (\<lambda>s. \<not> path_scope_allows (cg_filesystem_read g) (ps_path s)) (es_filesystem_read e))"

definition write_reasons :: "capability_grant \<Rightarrow> effect_set \<Rightarrow> string list" where
  "write_reasons g e =
     map (\<lambda>s. ''filesystem write is outside the grant: '' @ ps_path s)
       (filter (\<lambda>s. cg_mode g < Build \<or> \<not> path_scope_allows (cg_filesystem_write g) (ps_path s))
         (es_filesystem_write e))"

definition delete_reasons :: "capability_grant \<Rightarrow> effect_set \<Rightarrow> string list" where
  "delete_reasons g e =
     map (\<lambda>s. ''filesystem delete is outside the grant: '' @ ps_path s)
       (filter (\<lambda>s. cg_mode g < Build \<or> \<not> path_scope_allows (cg_filesystem_delete g) (ps_path s))
         (es_filesystem_delete e))"

definition process_reasons :: "capability_grant \<Rightarrow> effect_set \<Rightarrow> string list" where
  "process_reasons g e =
     (if es_processes e \<noteq> [] \<and> (cg_mode g < Build \<or> \<not> cg_process g)
      then [''process execution is not granted''] else [])"

definition network_reasons :: "capability_grant \<Rightarrow> effect_set \<Rightarrow> string list" where
  "network_reasons g e =
     map (\<lambda>r. ''network access is outside the grant: '' @ r)
       (filter (\<lambda>r. \<not> exact_scope_allows (cg_network g) r)
         (map (\<lambda>n. network_scope (ne_scheme n) (ne_host n) (ne_port n)) (es_network e)))"

definition secret_reasons :: "capability_grant \<Rightarrow> effect_set \<Rightarrow> string list" where
  "secret_reasons g e =
     map (\<lambda>s. ''secret access is outside the grant: '' @ sh_name s)
       (filter (\<lambda>s. \<not> exact_scope_allows (cg_secrets g) (sh_name s)) (es_secrets e))"

definition external_reasons :: "capability_grant \<Rightarrow> effect_set \<Rightarrow> string list" where
  "external_reasons g e =
     map (\<lambda>r. ''external write is outside the grant: '' @ r)
       (filter (\<lambda>r. cg_mode g < Operate \<or> \<not> exact_scope_allows (cg_external_write g) r)
         (map external_scope (es_external_writes e)))"

definition denied_reasons :: "capability_grant \<Rightarrow> effect_set \<Rightarrow> instant \<Rightarrow> string list" where
  "denied_reasons g e now =
     expired_reasons g now @ unresolved_reasons e @ read_reasons g e @ write_reasons g e @
     delete_reasons g e @ process_reasons g e @ network_reasons g e @ secret_reasons g e @
     external_reasons g e"

definition evaluate_policy :: "policy_input \<Rightarrow> policy_decision" where
  "evaluate_policy inp =
     (let effective = intersect_grants
            [pin_host_ceiling inp, pin_user_profile inp, pin_project_trust inp, pin_turn_override inp];
          e = pin_effects inp;
          denied = denied_reasons effective e (pin_now inp)
      in if denied \<noteq> [] then Deny effective denied
         else
           let approval_required =
                 (es_filesystem_write e \<noteq> [] \<or> es_filesystem_delete e \<noteq> [] \<or> es_processes e \<noteq> [] \<or>
                  es_network e \<noteq> [] \<or> es_secrets e \<noteq> [] \<or> es_external_writes e \<noteq> []);
               reasons =
                 (if approval_required
                  then [''the invocation requests a side effect or privileged capability'']
                  else [''all requested effects are structured and read-only''])
           in Allow effective approval_required reasons)"

section \<open>The daemon's capability layers\<close>

record grant_layers =
  gl_host_ceiling :: capability_grant
  gl_user_profile :: capability_grant
  gl_project_trust :: capability_grant
  gl_turn_override :: capability_grant

definition read_only_grant :: "capability_mode \<Rightarrow> capability_grant" where
  "read_only_grant m =
     \<lparr>cg_mode = m, cg_filesystem_read = [''*''], cg_filesystem_write = [],
      cg_filesystem_delete = [], cg_process = False, cg_network = [], cg_secrets = [],
      cg_external_write = [], cg_expires_at = None\<rparr>"

definition workspace_grant :: "capability_mode \<Rightarrow> capability_grant" where
  "workspace_grant m =
     \<lparr>cg_mode = m, cg_filesystem_read = [''*''], cg_filesystem_write = [''*''],
      cg_filesystem_delete = [''*''], cg_process = True, cg_network = [], cg_secrets = [],
      cg_external_write = [], cg_expires_at = None\<rparr>"

fun host_ceiling :: "capability_mode \<Rightarrow> capability_grant" where
  "host_ceiling Observe = read_only_grant Observe"
| "host_ceiling Build = workspace_grant Build"
| "host_ceiling Operate = workspace_grant Operate"

fun project_grant :: "workspace_trust \<Rightarrow> capability_grant" where
  "project_grant Untrusted = read_only_grant Observe"
| "project_grant Trusted = workspace_grant Build"

definition identity_grant :: capability_grant where
  "identity_grant =
     \<lparr>cg_mode = Operate, cg_filesystem_read = [''*''], cg_filesystem_write = [''*''],
      cg_filesystem_delete = [''*''], cg_process = True, cg_network = [''*''],
      cg_secrets = [''*''], cg_external_write = [''*''], cg_expires_at = None\<rparr>"

definition unwrap_grant :: "capability_grant option \<Rightarrow> capability_grant" where
  "unwrap_grant g = (case g of None \<Rightarrow> identity_grant | Some x \<Rightarrow> x)"

definition resolve_grant_layers ::
  "capability_mode \<Rightarrow> workspace_trust \<Rightarrow> capability_grant option \<Rightarrow> capability_grant option \<Rightarrow> grant_layers" where
  "resolve_grant_layers host_mode trust profile override =
     \<lparr>gl_host_ceiling = host_ceiling host_mode,
      gl_user_profile = unwrap_grant profile,
      gl_project_trust = project_grant trust,
      gl_turn_override = unwrap_grant override\<rparr>"

section \<open>The contract of an intersection\<close>

text \<open>
  An intersection operation on scopes promises that its result allows a request exactly when
  both arguments do. From this contract alone, folding it over a list of layers allows
  exactly what every layer allows.
\<close>

locale scope_intersection =
  fixes allows :: "'s \<Rightarrow> 'r \<Rightarrow> bool"
    and meet :: "'s \<Rightarrow> 's \<Rightarrow> 's"
    and ok :: "'s \<Rightarrow> bool"
  assumes allows_meet: "ok a \<Longrightarrow> ok b \<Longrightarrow> allows (meet a b) x \<longleftrightarrow> allows a x \<and> allows b x"
    and ok_meet: "ok a \<Longrightarrow> ok b \<Longrightarrow> ok (meet a b)"
begin

lemma ok_fold: "ok a \<Longrightarrow> (\<And>b. b \<in> set bs \<Longrightarrow> ok b) \<Longrightarrow> ok (foldl meet a bs)"
  by (induction bs arbitrary: a) (auto simp: ok_meet)

lemma allows_fold:
  "ok a \<Longrightarrow> (\<And>b. b \<in> set bs \<Longrightarrow> ok b) \<Longrightarrow>
     allows (foldl meet a bs) x \<longleftrightarrow> allows a x \<and> (\<forall>b \<in> set bs. allows b x)"
  by (induction bs arbitrary: a) (auto simp: allows_meet ok_meet)

lemma meet_narrows: "ok a \<Longrightarrow> ok b \<Longrightarrow> allows (meet a b) x \<Longrightarrow> allows b x"
  by (simp add: allows_meet)

end

section \<open>Exact scopes\<close>

lemma exact_scope_allows_iff: "exact_scope_allows g x \<longleftrightarrow> ''*'' \<in> set g \<or> x \<in> set g"
  by (auto simp: exact_scope_allows_def list_ex_iff)

lemma exact_intersection_exact:
  "exact_scope_allows (intersect_exact_scopes a b) x \<longleftrightarrow>
     exact_scope_allows a x \<and> exact_scope_allows b x"
  by (auto simp: exact_scope_allows_iff intersect_exact_scopes_def Let_def)

interpretation exact_scopes: scope_intersection exact_scope_allows intersect_exact_scopes "\<lambda>_. True"
  by unfold_locales (simp_all add: exact_intersection_exact)

section \<open>Path scopes\<close>

lemma is_prefix_refl [simp]: "is_prefix xs xs"
  by (simp add: is_prefix_def)

lemma is_prefix_iff: "is_prefix xs ys \<longleftrightarrow> (\<exists>zs. ys = xs @ zs)"
  by (auto simp: is_prefix_def) (metis append_take_drop_id)

lemma is_prefix_trans: "is_prefix xs ys \<Longrightarrow> is_prefix ys zs \<Longrightarrow> is_prefix xs zs"
  by (auto simp: is_prefix_iff)

lemma is_prefix_comparable: "is_prefix xs zs \<Longrightarrow> is_prefix ys zs \<Longrightarrow> is_prefix xs ys \<or> is_prefix ys xs"
  by (auto simp: is_prefix_iff append_eq_append_conv2)

lemma is_prefix_Nil [simp]: "is_prefix [] ys"
  by (simp add: is_prefix_def)

lemma is_prefix_single: "is_prefix xs [y] \<longleftrightarrow> xs = [] \<or> xs = [y]"
  by (cases xs) (auto simp: is_prefix_def)

lemma components_star: "components ''*'' = [Normal ''*'']"
  by (simp add: components_def component_of_def List.map_filter_def)

text \<open>
  A scope is unambiguous when it is the wildcard or does not name a directory called like
  the wildcard: a scope such as the one written star slash has the wildcard's components
  without being the wildcard.
\<close>

definition scope_ok :: "string \<Rightarrow> bool" where
  "scope_ok s \<longleftrightarrow> s = ''*'' \<or> components s \<noteq> [Normal ''*'']"

definition scopes_ok :: "string list \<Rightarrow> bool" where
  "scopes_ok ss \<longleftrightarrow> list_all scope_ok ss"

lemma path_contains_trans:
  assumes "scope_ok l" and "path_contains l r" and "path_contains r x"
  shows "path_contains l x"
proof (cases "l = ''*''")
  case True
  then show ?thesis by (simp add: path_contains_def)
next
  case False
  then have l: "is_prefix (components l) (components r)"
    using assms(2) by (simp add: path_contains_def path_starts_with_def)
  show ?thesis
  proof (cases "r = ''*''")
    case True
    then have "components l = []"
      using l assms(1) False by (auto simp: components_star is_prefix_single scope_ok_def)
    then show ?thesis by (simp add: path_contains_def path_starts_with_def)
  next
    case r: False
    then show ?thesis
      using l assms(3) is_prefix_trans by (auto simp: path_contains_def path_starts_with_def)
  qed
qed

lemma path_contains_comparable:
  assumes "path_contains l x" and "path_contains r x"
  shows "path_contains l r \<or> path_contains r l"
  using assms is_prefix_comparable by (auto simp: path_contains_def path_starts_with_def)

lemma scope_meet_allows:
  assumes "scope_ok l" "scope_ok r"
  shows "(\<exists>t. scope_meet l r = Some t \<and> path_contains t x) \<longleftrightarrow> path_contains l x \<and> path_contains r x"
  using path_contains_trans [OF assms(1), of r x] path_contains_trans [OF assms(2), of l x]
    path_contains_comparable [of l x r]
  by (auto simp: scope_meet_def)

lemma set_intersect_path_scopes:
  "t \<in> set (intersect_path_scopes a b) \<longleftrightarrow> (\<exists>l \<in> set a. \<exists>r \<in> set b. scope_meet l r = Some t)"
  by (force simp: intersect_path_scopes_def List.map_filter_def image_iff)

lemma scopes_ok_meet: "scopes_ok a \<Longrightarrow> scopes_ok b \<Longrightarrow> scopes_ok (intersect_path_scopes a b)"
  by (auto simp: scopes_ok_def list_all_iff set_intersect_path_scopes scope_meet_def split: if_splits)

lemma path_scope_allows_iff: "path_scope_allows g x \<longleftrightarrow> (\<exists>s \<in> set g. path_contains s x)"
  by (auto simp: path_scope_allows_def list_ex_iff)

lemma path_intersection_exact:
  assumes "scopes_ok a" "scopes_ok b"
  shows "path_scope_allows (intersect_path_scopes a b) x \<longleftrightarrow> path_scope_allows a x \<and> path_scope_allows b x"
proof -
  have ok: "scope_ok l" "scope_ok r" if "l \<in> set a" "r \<in> set b" for l r
    using assms that by (auto simp: scopes_ok_def list_all_iff)
  have "path_scope_allows (intersect_path_scopes a b) x \<longleftrightarrow>
      (\<exists>l \<in> set a. \<exists>r \<in> set b. \<exists>t. scope_meet l r = Some t \<and> path_contains t x)"
    unfolding path_scope_allows_iff Bex_def set_intersect_path_scopes by blast
  also have "\<dots> \<longleftrightarrow> (\<exists>l \<in> set a. \<exists>r \<in> set b. path_contains l x \<and> path_contains r x)"
    using scope_meet_allows [OF ok] by blast
  finally show ?thesis by (auto simp: path_scope_allows_iff)
qed

interpretation path_scopes: scope_intersection path_scope_allows intersect_path_scopes scopes_ok
  by unfold_locales (simp_all add: path_intersection_exact scopes_ok_meet)

section \<open>Grants\<close>

text \<open>What one capability layer permits on its own.\<close>

definition grant_permits :: "capability_grant \<Rightarrow> effect_set \<times> instant \<Rightarrow> bool" where
  "grant_permits g req \<longleftrightarrow>
     (let e = fst req; now = snd req in
      (\<forall>t. cg_expires_at g = Some t \<longrightarrow> now < t) \<and>
      (\<forall>s \<in> set (es_filesystem_read e @ es_filesystem_write e @ es_filesystem_delete e). ps_resolved s) \<and>
      (\<forall>s \<in> set (es_filesystem_read e). path_scope_allows (cg_filesystem_read g) (ps_path s)) \<and>
      (\<forall>s \<in> set (es_filesystem_write e).
         Build \<le> cg_mode g \<and> path_scope_allows (cg_filesystem_write g) (ps_path s)) \<and>
      (\<forall>s \<in> set (es_filesystem_delete e).
         Build \<le> cg_mode g \<and> path_scope_allows (cg_filesystem_delete g) (ps_path s)) \<and>
      (es_processes e \<noteq> [] \<longrightarrow> Build \<le> cg_mode g \<and> cg_process g) \<and>
      (\<forall>n \<in> set (es_network e).
         exact_scope_allows (cg_network g) (network_scope (ne_scheme n) (ne_host n) (ne_port n))) \<and>
      (\<forall>s \<in> set (es_secrets e). exact_scope_allows (cg_secrets g) (sh_name s)) \<and>
      (\<forall>x \<in> set (es_external_writes e).
         Operate \<le> cg_mode g \<and> exact_scope_allows (cg_external_write g) (external_scope x)))"

definition grant_ok :: "capability_grant \<Rightarrow> bool" where
  "grant_ok g \<longleftrightarrow>
     scopes_ok (cg_filesystem_read g) \<and> scopes_ok (cg_filesystem_write g) \<and>
     scopes_ok (cg_filesystem_delete g)"

lemma denied_iff: "denied_reasons g e now = [] \<longleftrightarrow> grant_permits g (e, now)"
  by (auto simp: denied_reasons_def expired_reasons_def unresolved_reasons_def read_reasons_def
      write_reasons_def delete_reasons_def process_reasons_def network_reasons_def
      secret_reasons_def external_reasons_def grant_permits_def Let_def filter_empty_conv
      not_le not_less split: option.splits if_splits)

lemma min_expiry_gt:
  "(\<forall>t. min_expiry a b = Some t \<longrightarrow> now < t) \<longleftrightarrow>
     (\<forall>t. a = Some t \<longrightarrow> now < t) \<and> (\<forall>t. b = Some t \<longrightarrow> now < t)"
  by (cases a; cases b) (auto simp: min_expiry_def)

lemma le_minimum: "m \<le> minimum a b \<longleftrightarrow> m \<le> a \<and> m \<le> b"
  by (simp add: minimum_eq_min)

lemma grant_permits_meet:
  assumes "grant_ok a" "grant_ok b"
  shows "grant_permits (intersect_two a b) req \<longleftrightarrow> grant_permits a req \<and> grant_permits b req"
  using assms
  by (auto simp: grant_permits_def grant_ok_def intersect_two_def Let_def min_expiry_gt le_minimum
      path_intersection_exact exact_intersection_exact)

lemma grant_ok_meet: "grant_ok a \<Longrightarrow> grant_ok b \<Longrightarrow> grant_ok (intersect_two a b)"
  by (simp add: grant_ok_def intersect_two_def scopes_ok_meet)

interpretation grants: scope_intersection grant_permits intersect_two grant_ok
  by unfold_locales (simp_all add: grant_permits_meet grant_ok_meet)

lemma intersect_grants_permits:
  assumes "gs \<noteq> []" and "\<And>g. g \<in> set gs \<Longrightarrow> grant_ok g"
  shows "grant_permits (intersect_grants gs) req \<longleftrightarrow> (\<forall>g \<in> set gs. grant_permits g req)"
  using assms grants.allows_fold [of "hd gs" "tl gs" req]
  by (cases gs) (auto simp: intersect_grants_def)

definition policy_layers :: "policy_input \<Rightarrow> capability_grant list" where
  "policy_layers inp =
     [pin_host_ceiling inp, pin_user_profile inp, pin_project_trust inp, pin_turn_override inp]"

lemma is_allowed_iff:
  "is_allowed (evaluate_policy inp) \<longleftrightarrow>
     grant_permits (intersect_grants (policy_layers inp)) (pin_effects inp, pin_now inp)"
  by (simp add: evaluate_policy_def Let_def policy_layers_def denied_iff)

lemma effective_grant_evaluate:
  "effective_grant (evaluate_policy inp) = intersect_grants (policy_layers inp)"
  by (simp add: evaluate_policy_def Let_def policy_layers_def)

section \<open>The daemon's layers\<close>

lemma star_allows [simp]: "path_scope_allows [''*''] x" "exact_scope_allows [''*''] x"
  by (simp_all add: path_scope_allows_iff path_contains_def exact_scope_allows_iff)

lemma nothing_allowed [simp]: "\<not> path_scope_allows [] x" "\<not> exact_scope_allows [] x"
  by (simp_all add: path_scope_allows_iff exact_scope_allows_iff)

lemma layer_ok [simp]:
  shows read_only_ok: "grant_ok (read_only_grant md)"
    and workspace_ok: "grant_ok (workspace_grant md)"
    and identity_ok: "grant_ok identity_grant"
  by (simp_all add: grant_ok_def read_only_grant_def workspace_grant_def identity_grant_def
      scopes_ok_def scope_ok_def)

lemma layers_ok [simp]: "grant_ok (host_ceiling m)" "grant_ok (project_grant t)"
  by (cases m, simp_all) (cases t, simp_all)

text \<open>The identity grant is neutral: it permits everything the request itself does not forbid.\<close>

lemma identity_permits:
  "grant_permits identity_grant (e, now) \<longleftrightarrow>
     (\<forall>s \<in> set (es_filesystem_read e @ es_filesystem_write e @ es_filesystem_delete e). ps_resolved s)"
  by (auto simp: grant_permits_def identity_grant_def Let_def mode_order)

lemma no_elements: "(\<forall>x \<in> set xs. False) \<longleftrightarrow> xs = []"
  by (cases xs) auto

lemma read_only_grant_permits:
  "grant_permits (read_only_grant Observe) (e, now) \<Longrightarrow> is_read_only e"
  by (auto simp: grant_permits_def read_only_grant_def Let_def is_read_only_def mode_order no_elements)

lemma workspace_grant_permits:
  "grant_permits (workspace_grant m) (e, now) \<Longrightarrow>
     es_network e = [] \<and> es_secrets e = [] \<and> es_external_writes e = []"
  by (auto simp: grant_permits_def workspace_grant_def Let_def no_elements)

lemma host_permits:
  assumes "grant_permits (host_ceiling m) (e, now)"
  shows "es_network e = [] \<and> es_secrets e = [] \<and> es_external_writes e = [] \<and> (m = Observe \<longrightarrow> is_read_only e)"
  using assms read_only_grant_permits workspace_grant_permits
  by (cases m) (auto simp: is_read_only_def)

lemma project_permits:
  assumes "grant_permits (project_grant t) (e, now)"
  shows "es_network e = [] \<and> es_secrets e = [] \<and> es_external_writes e = [] \<and> (t = Untrusted \<longrightarrow> is_read_only e)"
  using assms read_only_grant_permits workspace_grant_permits
  by (cases t) (auto simp: is_read_only_def)

definition layered_input ::
  "capability_mode \<Rightarrow> workspace_trust \<Rightarrow> capability_grant option \<Rightarrow> capability_grant option \<Rightarrow>
     effect_set \<Rightarrow> instant \<Rightarrow> policy_input" where
  "layered_input m t profile override e now =
     (let l = resolve_grant_layers m t profile override in
      \<lparr>pin_host_ceiling = gl_host_ceiling l, pin_user_profile = gl_user_profile l,
       pin_project_trust = gl_project_trust l, pin_turn_override = gl_turn_override l,
       pin_effects = e, pin_now = now\<rparr>)"

section \<open>Coarse authority\<close>

text \<open>
  The part of a grant that does not depend on path scopes: expiry, mode, process, network,
  secrets and external writes. It intersects exactly for every grant, however its path
  scopes are written.
\<close>

definition coarse_permits :: "capability_grant \<Rightarrow> effect_set \<times> instant \<Rightarrow> bool" where
  "coarse_permits g req \<longleftrightarrow>
     (let e = fst req; now = snd req in
      (\<forall>t. cg_expires_at g = Some t \<longrightarrow> now < t) \<and>
      (es_filesystem_write e \<noteq> [] \<or> es_filesystem_delete e \<noteq> [] \<longrightarrow> Build \<le> cg_mode g) \<and>
      (es_processes e \<noteq> [] \<longrightarrow> Build \<le> cg_mode g \<and> cg_process g) \<and>
      (\<forall>n \<in> set (es_network e).
         exact_scope_allows (cg_network g) (network_scope (ne_scheme n) (ne_host n) (ne_port n))) \<and>
      (\<forall>s \<in> set (es_secrets e). exact_scope_allows (cg_secrets g) (sh_name s)) \<and>
      (\<forall>x \<in> set (es_external_writes e).
         Operate \<le> cg_mode g \<and> exact_scope_allows (cg_external_write g) (external_scope x)))"

lemma permits_coarse: "grant_permits g req \<Longrightarrow> coarse_permits g req"
  by (auto simp: grant_permits_def coarse_permits_def Let_def neq_Nil_conv)

interpretation coarse: scope_intersection coarse_permits intersect_two "\<lambda>_. True"
  by unfold_locales
    (auto simp: coarse_permits_def intersect_two_def Let_def min_expiry_gt le_minimum exact_intersection_exact)

lemma coarse_read_only: "coarse_permits (read_only_grant Observe) (e, now) \<Longrightarrow> is_read_only e"
  by (auto simp: coarse_permits_def read_only_grant_def Let_def is_read_only_def mode_order no_elements)

lemma coarse_workspace: "coarse_permits (workspace_grant m) (e, now) \<Longrightarrow>
    es_network e = [] \<and> es_secrets e = [] \<and> es_external_writes e = []"
  by (auto simp: coarse_permits_def workspace_grant_def Let_def no_elements)

section \<open>Properties\<close>

text \<open>
  C18: Policy evaluation is exactly the conjunction of the layers: for unambiguous path
  scopes, an effect set is allowed if and only if the host ceiling, the user profile, the
  project trust and the turn override each permit it on their own.
\<close>

theorem policy_allows_iff_every_layer_permits:
  assumes "\<forall>g \<in> set (policy_layers inp). grant_ok g"
  shows "is_allowed (evaluate_policy inp) \<longleftrightarrow>
    (\<forall>g \<in> set (policy_layers inp). grant_permits g (pin_effects inp, pin_now inp))"
  unfolding is_allowed_iff
  using assms by (intro intersect_grants_permits) (auto simp: policy_layers_def)

definition sample_write :: "string \<Rightarrow> effect_set" where
  "sample_write p = default_effects\<lparr>es_filesystem_write := [\<lparr>ps_path = p, ps_recursive = False, ps_resolved = True\<rparr>]\<rparr>"

definition sample_input :: "string list \<Rightarrow> string \<Rightarrow> policy_input" where
  "sample_input scopes p =
     layered_input Build Trusted (Some (identity_grant\<lparr>cg_filesystem_write := scopes\<rparr>)) None (sample_write p) 0"

lemmas sample_defs = sample_input_def sample_write_def layered_input_def resolve_grant_layers_def
  policy_layers_def unwrap_grant_def default_effects_def Let_def

theorem policy_allows_iff_every_layer_permits_witness:
  "is_allowed (evaluate_policy (sample_input [''/w''] ''/w/a'')) \<longleftrightarrow>
     (\<forall>g \<in> set (policy_layers (sample_input [''/w''] ''/w/a'')).
        grant_permits g (sample_write ''/w/a'', 0))"
proof -
  have "scope_ok ''/w''"
    by (simp add: scope_ok_def components_def component_of_def List.map_filter_def)
  then have "grant_ok (identity_grant\<lparr>cg_filesystem_write := [''/w'']\<rparr>)"
    by (simp add: grant_ok_def scopes_ok_def identity_grant_def) (simp add: scope_ok_def)
  then have "\<forall>g \<in> set (policy_layers (sample_input [''/w''] ''/w/a'')). grant_ok g"
    by (simp add: sample_defs)
  from policy_allows_iff_every_layer_permits [OF this] show ?thesis
    by (simp add: sample_input_def layered_input_def Let_def)
qed


text \<open>
  C34: Whatever the user profile and the turn override contain, the daemon's own layers keep
  network, secrets and external writes denied, and an observing host or an untrusted
  workspace denies every effect that is not read-only.
\<close>

theorem daemon_layers_bound_authority:
  assumes "is_allowed (evaluate_policy (layered_input m t profile override e now))"
  shows "es_network e = [] \<and> es_secrets e = [] \<and> es_external_writes e = [] \<and>
    (m = Observe \<or> t = Untrusted \<longrightarrow> is_read_only e)"
proof -
  have "coarse_permits (intersect_grants [host_ceiling m, unwrap_grant profile, project_grant t, unwrap_grant override]) (e, now)"
    using permits_coarse assms by (auto simp: is_allowed_iff sample_defs)
  then have h: "coarse_permits (host_ceiling m) (e, now)" and p: "coarse_permits (project_grant t) (e, now)"
    by (simp_all add: intersect_grants_def coarse.allows_meet)
  have "es_network e = [] \<and> es_secrets e = [] \<and> es_external_writes e = []"
    using h coarse_read_only coarse_workspace by (cases m) (auto simp: is_read_only_def)
  moreover have "m = Observe \<Longrightarrow> is_read_only e" using h coarse_read_only by simp
  moreover have "t = Untrusted \<Longrightarrow> is_read_only e" using p coarse_read_only by simp
  ultimately show ?thesis by blast
qed

theorem daemon_layers_bound_authority_witness:
  "is_allowed (evaluate_policy (layered_input Observe Trusted None None default_effects 5)) \<and>
   is_read_only default_effects"
proof -
  have "\<forall>g \<in> set (policy_layers (layered_input Observe Trusted None None default_effects 5)). grant_ok g"
    by (simp add: sample_defs)
  then have a: "is_allowed (evaluate_policy (layered_input Observe Trusted None None default_effects 5))"
    unfolding is_allowed_iff
    by (subst intersect_grants_permits)
      (auto simp: sample_defs grant_permits_def read_only_grant_def workspace_grant_def identity_grant_def)
  with daemon_layers_bound_authority [OF a] show ?thesis by simp
qed

text \<open>
  An allowed decision asks for approval exactly when the effects are not read-only, and
  a denial always names at least one reason.
\<close>

lemma decision_reports_side_effects:
  "case evaluate_policy inp of
     Allow g approval_required reasons \<Rightarrow> approval_required \<longleftrightarrow> \<not> is_read_only (pin_effects inp)
   | Deny g reasons \<Rightarrow> reasons \<noteq> []"
  by (auto simp: evaluate_policy_def Let_def is_read_only_def)

end
