(* ===== verification/Canonical_Digest.thy ===== *)
theory Canonical_Digest
  imports Protocol_Types
begin

text \<open>
  The canonical JSON text and the digests built on it (\<open>yeux-core/src/digest.rs\<close>), with
  the JSON value that \<open>serde\<close> derives for an effect set from the attributes of
  \<open>yeux-protocol/src/tool.rs\<close>. The lemmas show that the canonical text does not depend on
  the order of object entries and that it determines the value: two values with the same
  canonical text are equal up to the order of object entries.
\<close>

section \<open>Canonical JSON\<close>

definition join :: "string \<Rightarrow> string list \<Rightarrow> string" where
  "join sep ss = concat (case ss of [] \<Rightarrow> [] | s # rest \<Rightarrow> s # map (\<lambda>t. sep @ t) rest)"

definition write_entry :: "externals \<Rightarrow> string \<times> string \<Rightarrow> string" where
  "write_entry X e = json_str X (fst e) @ '':'' @ snd e"

text \<open>
  Keys are sorted and each key's value is written after it. The entries of an object have
  distinct keys, so sorting the entries by key is sorting the keys and looking each one up.
\<close>

primrec canonical_json :: "externals \<Rightarrow> json \<Rightarrow> string" where
  "canonical_json X JNull = ''null''"
| "canonical_json X (JBool b) = (if b then ''true'' else ''false'')"
| "canonical_json X (JNumber n) = json_num X n"
| "canonical_json X (JString s) = json_str X s"
| "canonical_json X (JArray vs) = ''['' @ join '','' (map (canonical_json X) vs) @ '']''"
| "canonical_json X (JObject kvs) =
     ''{'' @ join '',''
        (map (write_entry X) (sort_key fst (map (map_prod (\<lambda>k. k) (canonical_json X)) kvs))) @ ''}''"

definition digest_value :: "externals \<Rightarrow> json \<Rightarrow> string" where
  "digest_value X v = sha256_hex X (canonical_json X v)"

section \<open>Values up to the order of object entries\<close>

text \<open>The normal form: every object's entries in key order.\<close>

primrec json_norm :: "json \<Rightarrow> json" where
  "json_norm JNull = JNull"
| "json_norm (JBool b) = JBool b"
| "json_norm (JNumber n) = JNumber n"
| "json_norm (JString s) = JString s"
| "json_norm (JArray vs) = JArray (map json_norm vs)"
| "json_norm (JObject kvs) = JObject (sort_key fst (map (map_prod (\<lambda>k. k) json_norm) kvs))"

lemma sort_key_map_prod:
  "sort_key fst (map (map_prod (\<lambda>k. k) f) kvs) = map (map_prod (\<lambda>k. k) f) (sort_key fst kvs)"
proof -
  have ins: "insort_key fst (k, f v) (map (map_prod (\<lambda>k. k) f) kvs) =
      map (map_prod (\<lambda>k. k) f) (insort_key fst (k, v) kvs)" for k v kvs
    by (induction kvs) auto
  show ?thesis
    by (induction kvs) (auto simp: ins)
qed

lemma sort_key_idem: "sort_key f (sort_key f xs) = sort_key f xs"
  by (simp add: sort_key_id_if_sorted)

text \<open>Canonical text depends on the normal form only.\<close>

lemma canonical_json_norm: "canonical_json X (json_norm v) = canonical_json X v"
proof (induction v)
  case (JArray vs)
  then have "map (canonical_json X) (map json_norm vs) = map (canonical_json X) vs"
    by simp
  then show ?case by (simp only: json_norm.simps canonical_json.simps)
next
  case (JObject kvs)
  have eq: "map_prod (\<lambda>k. k) (canonical_json X) (map_prod (\<lambda>k. k) json_norm e) =
      map_prod (\<lambda>k. k) (canonical_json X) e" if "e \<in> set kvs" for e
    using JObject that by (cases e) (force simp: snds.simps)
  let ?c = "map_prod (\<lambda>k. k) (canonical_json X)" and ?n = "map_prod (\<lambda>k. k) json_norm"
  have "map ?c (sort_key fst (map ?n kvs)) = sort_key fst (map ?c (map ?n kvs))"
    by (rule sort_key_map_prod [symmetric])
  also have "map ?c (map ?n kvs) = map ?c kvs"
    using eq by simp
  finally have "sort_key fst (map ?c (sort_key fst (map ?n kvs))) = sort_key fst (map ?c kvs)"
    by (simp add: sort_key_idem)
  then show ?case by (simp only: json_norm.simps canonical_json.simps)
qed simp_all

section \<open>Canonical text determines the value\<close>

text \<open>
  What the proof needs of the JSON text of strings and numbers, as RFC 8259 and the crate's
  documentation give it: a string's text is self-delimiting and starts with a quote; a
  number's text is not empty, starts with a digit or a minus sign, contains no comma and no
  closing bracket or brace, and determines the number.
\<close>

definition num_start :: "char set" where
  "num_start = set ''-0123456789''"

definition json_delims :: "char set" where
  "json_delims = set '',]}''"

definition json_text_ok :: "externals \<Rightarrow> bool" where
  "json_text_ok X \<longleftrightarrow>
     (\<forall>s. \<exists>t. json_str X s = CHR 0x22 # t) \<and>
     (\<forall>s t r r'. json_str X s @ r = json_str X t @ r' \<longrightarrow> s = t \<and> r = r') \<and>
     (\<forall>n. \<exists>c t. json_num X n = c # t \<and> c \<in> num_start) \<and>
     (\<forall>n. set (json_num X n) \<inter> json_delims = {}) \<and>
     inj (json_num X)"

lemma json_text_okD:
  assumes "json_text_ok X"
  shows json_str_quote: "\<exists>t. json_str X s = CHR 0x22 # t"
    and json_str_self_delimiting: "json_str X s @ r = json_str X t @ r' \<Longrightarrow> s = t \<and> r = r'"
    and json_num_start: "\<exists>c t. json_num X n = c # t \<and> c \<in> num_start"
    and json_num_no_delim: "set (json_num X n) \<inter> json_delims = {}"
    and json_num_inj: "json_num X m = json_num X n \<Longrightarrow> m = n"
  using assms unfolding json_text_ok_def inj_def by blast+

text \<open>A continuation of a value's text: nothing, or a delimiter first.\<close>

definition delimited :: "string \<Rightarrow> bool" where
  "delimited r \<longleftrightarrow> r = [] \<or> hd r \<in> json_delims"

lemma delimited_simps [simp]:
  "delimited []" "delimited (c # r) \<longleftrightarrow> c \<in> json_delims"
  by (simp_all add: delimited_def)

lemma json_delims_iff: "c \<in> json_delims \<longleftrightarrow> c = CHR '','' \<or> c = CHR '']'' \<or> c = CHR ''}''"
  by (auto simp: json_delims_def)

lemma prefix_code:
  assumes "set a \<inter> D = {}" "set b \<inter> D = {}"
    and "r = [] \<or> hd r \<in> D" "r' = [] \<or> hd r' \<in> D"
    and "a @ r = b @ r'"
  shows "a = b \<and> r = r'"
  using assms
proof (induction a arbitrary: b)
  case Nil
  then show ?case by (cases b) auto
next
  case (Cons x a)
  then show ?case by (cases b) auto
qed

lemma json_num_delimited:
  assumes "json_text_ok X" "delimited r" "delimited r'" "json_num X m @ r = json_num X n @ r'"
  shows "m = n \<and> r = r'"
  using prefix_code [of "json_num X m" json_delims "json_num X n" r r'] assms
  by (auto simp: delimited_def dest: json_num_no_delim json_num_inj)

lemma join_simps [simp]:
  "join sep [] = []"
  "join sep [s] = s"
  "join sep (s # t # ss) = s @ sep @ join sep (t # ss)"
  by (simp_all add: join_def)

text \<open>
  Joined texts are unambiguous when each text is, and when no text starts with a delimiter.
  A text \<open>f a\<close> is unambiguous for the view \<open>g\<close> of its value when the text, followed by
  a delimiter, determines \<open>g a\<close> and where the text ends.
\<close>

definition unamb :: "('a \<Rightarrow> string) \<Rightarrow> ('a \<Rightarrow> 'b) \<Rightarrow> 'a \<Rightarrow> bool" where
  "unamb f g a \<longleftrightarrow>
     (\<forall>b r r'. delimited r \<longrightarrow> delimited r' \<longrightarrow> f a @ r = f b @ r' \<longrightarrow> g a = g b \<and> r = r')"

lemma unambI:
  "(\<And>b r r'. delimited r \<Longrightarrow> delimited r' \<Longrightarrow> f a @ r = f b @ r' \<Longrightarrow> g a = g b \<and> r = r') \<Longrightarrow> unamb f g a"
  unfolding unamb_def by blast

lemma unambD:
  "unamb f g a \<Longrightarrow> delimited r \<Longrightarrow> delimited r' \<Longrightarrow> f a @ r = f b @ r' \<Longrightarrow> g a = g b \<and> r = r'"
  unfolding unamb_def by blast

definition starts_value :: "string \<Rightarrow> bool" where
  "starts_value s \<longleftrightarrow> s \<noteq> [] \<and> hd s \<notin> json_delims"

definition join_tail :: "('a \<Rightarrow> string) \<Rightarrow> char \<Rightarrow> 'a list \<Rightarrow> string \<Rightarrow> string" where
  "join_tail f c xs q = (if xs = [] then c # q else '','' @ join '','' (map f xs) @ c # q)"

lemma join_Cons_tail: "join '','' (map f (x # xs)) @ c # q = f x @ join_tail f c xs q"
  by (cases xs) (auto simp: join_tail_def)

lemma delimited_join_tail: "c \<in> json_delims \<Longrightarrow> delimited (join_tail f c xs q)"
  by (auto simp: join_tail_def json_delims_iff)

lemma join_closed_empty:
  assumes "\<And>a. starts_value (f a)" and "c \<in> json_delims"
    and "c # r = join '','' (map f bs) @ c # r'"
  shows "bs = [] \<and> r = r'"
proof (cases bs)
  case Nil
  with assms show ?thesis by simp
next
  case (Cons b bs')
  then have "c # r = f b @ join_tail f c bs' r'"
    using assms(3) join_Cons_tail [of f b bs' c r'] by simp
  then have "c = hd (f b)"
    using assms(1) [of b] by (metis hd_append list.sel(1) starts_value_def)
  with assms(1) [of b] assms(2) show ?thesis by (simp add: starts_value_def)
qed

lemma join_unambiguous:
  assumes "\<And>a. a \<in> set as \<Longrightarrow> unamb f g a"
    and start: "\<And>a. starts_value (f a)"
    and close: "c \<in> json_delims" "c \<noteq> CHR '',''"
    and "join '','' (map f as) @ c # r = join '','' (map f bs) @ c # r'"
  shows "map g as = map g bs \<and> r = r'"
  using assms(1,5)
proof (induction "as" arbitrary: bs)
  case Nil
  then show ?case
    using join_closed_empty [where f = f and c = c and r = r and bs = bs and r' = r', OF start close(1)] by simp
next
  case (Cons a as')
  note IH = Cons.IH and prems = Cons.prems
  show ?case
  proof (cases bs)
    case Nil
    then show ?thesis
      using prems(2) join_closed_empty [where f = f and c = c and r = r' and bs = "a # as'" and r' = r, OF start close(1)] by simp
  next
    case (Cons b bs')
    have eq: "f a @ join_tail f c as' r = f b @ join_tail f c bs' r'"
      using prems(2) join_Cons_tail [of f a as' c r] join_Cons_tail [of f b bs' c r'] Cons
      by simp
    have "unamb f g a" using prems(1) by simp
    from unambD [OF this delimited_join_tail [OF close(1)] delimited_join_tail [OF close(1)] eq]
    have ab: "g a = g b" "join_tail f c as' r = join_tail f c bs' r'" by simp_all
    have "map g as' = map g bs' \<and> r = r'"
    proof (cases "as' = [] \<or> bs' = []")
      case True
      then show ?thesis
        using ab(2) close(2) by (auto simp: join_tail_def split: if_splits)
    next
      case False
      then have "join '','' (map f as') @ c # r = join '','' (map f bs') @ c # r'"
        using ab(2) by (simp add: join_tail_def)
      then show ?thesis
        using IH [of bs'] prems(1) by simp
    qed
    then show ?thesis using ab Cons by simp
  qed
qed

text \<open>The first character of a canonical text tells the kind of the value.\<close>

lemma canonical_start:
  assumes "json_text_ok X"
  shows "\<exists>c t. canonical_json X v = c # t \<and>
    c \<in> (case v of JNull \<Rightarrow> {CHR ''n''} | JBool b \<Rightarrow> {if b then CHR ''t'' else CHR ''f''}
      | JNumber _ \<Rightarrow> num_start | JString _ \<Rightarrow> {CHR 0x22} | JArray _ \<Rightarrow> {CHR ''[''}
      | JObject _ \<Rightarrow> {CHR ''{''})"
  using json_str_quote [OF assms] json_num_start [OF assms] by (cases v) auto

lemma canonical_starts_value:
  assumes "json_text_ok X"
  shows "starts_value (canonical_json X v)"
  using canonical_start [OF assms, of v]
  by (auto simp: starts_value_def json_delims_def num_start_def split: json.splits if_splits)

lemma canonical_same_kind:
  assumes "json_text_ok X" and "canonical_json X v @ r = canonical_json X w @ r'"
  shows "case v of JNull \<Rightarrow> w = JNull | JBool b \<Rightarrow> w = JBool b | JNumber _ \<Rightarrow> (\<exists>n. w = JNumber n)
    | JString _ \<Rightarrow> (\<exists>s. w = JString s) | JArray _ \<Rightarrow> (\<exists>vs. w = JArray vs)
    | JObject _ \<Rightarrow> (\<exists>kvs. w = JObject kvs)"
  using canonical_start [OF assms(1), of v] canonical_start [OF assms(1), of w] assms(2)
  by (auto simp: num_start_def split: json.splits if_splits)

definition entry_text :: "externals \<Rightarrow> string \<times> json \<Rightarrow> string" where
  "entry_text X e = json_str X (fst e) @ '':'' @ canonical_json X (snd e)"

lemma canonical_JObject:
  "canonical_json X (JObject kvs) = ''{'' @ join '','' (map (entry_text X) (sort_key fst kvs)) @ ''}''"
proof -
  have "write_entry X (map_prod (\<lambda>k. k) (canonical_json X) e) = entry_text X e" for e
    by (cases e) (simp add: write_entry_def entry_text_def)
  then show ?thesis
    by (simp add: sort_key_map_prod comp_def)
qed

lemma entry_starts_value: "json_text_ok X \<Longrightarrow> starts_value (entry_text X e)"
  using json_str_quote [of X "fst e"]
  by (auto simp: starts_value_def entry_text_def json_delims_def)

lemma entry_unamb:
  assumes "json_text_ok X" and "unamb (canonical_json X) json_norm (snd e)"
  shows "unamb (entry_text X) (map_prod (\<lambda>k. k) json_norm) e"
proof (rule unambI)
  fix b r r'
  assume r: "delimited r" "delimited r'" and "entry_text X e @ r = entry_text X b @ r'"
  then have "json_str X (fst e) @ '':'' @ canonical_json X (snd e) @ r =
      json_str X (fst b) @ '':'' @ canonical_json X (snd b) @ r'"
    by (simp add: entry_text_def)
  from json_str_self_delimiting [OF assms(1) this]
  have "fst e = fst b" "canonical_json X (snd e) @ r = canonical_json X (snd b) @ r'"
    by simp_all
  with unambD [OF assms(2) r] show "map_prod (\<lambda>k. k) json_norm e = map_prod (\<lambda>k. k) json_norm b \<and> r = r'"
    by (cases e; cases b) auto
qed

lemma delims [simp]: "CHR '']'' \<in> json_delims" "CHR ''}'' \<in> json_delims"
  by (simp_all add: json_delims_iff)

lemma canonical_unamb:
  assumes X: "json_text_ok X"
  shows "unamb (canonical_json X) json_norm v"
proof (induction v)
  case (JArray vs)
  show ?case
  proof (rule unambI)
    fix b r r' assume eq: "canonical_json X (JArray vs) @ r = canonical_json X b @ r'"
    from canonical_same_kind [OF X eq] obtain ws where b: "b = JArray ws" by auto
    from eq have "join '','' (map (canonical_json X) vs) @ CHR '']'' # r =
        join '','' (map (canonical_json X) ws) @ CHR '']'' # r'"
      by (simp add: b)
    from join_unambiguous [OF JArray canonical_starts_value [OF X] _ _ this]
    show "json_norm (JArray vs) = json_norm b \<and> r = r'" by (simp add: b)
  qed
next
  case (JObject kvs)
  have IH: "unamb (entry_text X) (map_prod (\<lambda>k. k) json_norm) e" if "e \<in> set (sort_key fst kvs)" for e
  proof -
    have "unamb (canonical_json X) json_norm (snd e)"
      using JObject [of e "snd e"] that by (simp add: snds.simps)
    then show ?thesis by (rule entry_unamb [OF X])
  qed
  show ?case
  proof (rule unambI)
    fix b r r' assume eq: "canonical_json X (JObject kvs) @ r = canonical_json X b @ r'"
    from canonical_same_kind [OF X eq] obtain ws where b: "b = JObject ws" by auto
    from eq have "join '','' (map (entry_text X) (sort_key fst kvs)) @ CHR ''}'' # r =
        join '','' (map (entry_text X) (sort_key fst ws)) @ CHR ''}'' # r'"
      unfolding b canonical_JObject by simp
    from join_unambiguous [OF IH entry_starts_value [OF X] _ _ this]
    show "json_norm (JObject kvs) = json_norm b \<and> r = r'"
      by (simp add: b sort_key_map_prod)
  qed
next
  case (JNumber n)
  show ?case
  proof (rule unambI)
    fix b r r' assume "delimited r" "delimited r'"
      and eq: "canonical_json X (JNumber n) @ r = canonical_json X b @ r'"
    moreover from canonical_same_kind [OF X eq] obtain m where b: "b = JNumber m" by auto
    ultimately show "json_norm (JNumber n) = json_norm b \<and> r = r'"
      using json_num_delimited [OF X, of r r' n m] by simp
  qed
next
  case (JString s)
  show ?case
  proof (rule unambI)
    fix b r r' assume eq: "canonical_json X (JString s) @ r = canonical_json X b @ r'"
    from canonical_same_kind [OF X eq] obtain t where b: "b = JString t" by auto
    with eq show "json_norm (JString s) = json_norm b \<and> r = r'"
      using json_str_self_delimiting [OF X, of s r t r'] by simp
  qed
next
  case JNull
  show ?case
  proof (rule unambI)
    fix b r r' assume eq: "canonical_json X JNull @ r = canonical_json X b @ r'"
    from canonical_same_kind [OF X eq] eq show "json_norm JNull = json_norm b \<and> r = r'" by simp
  qed
next
  case (JBool x)
  show ?case
  proof (rule unambI)
    fix b r r' assume eq: "canonical_json X (JBool x) @ r = canonical_json X b @ r'"
    from canonical_same_kind [OF X eq] eq show "json_norm (JBool x) = json_norm b \<and> r = r'" by simp
  qed
qed

lemma canonical_json_determines:
  assumes "json_text_ok X" and "canonical_json X v = canonical_json X w"
  shows "json_norm v = json_norm w"
  using unambD [OF canonical_unamb [OF assms(1), of v], of "[]" "[]" w] assms(2) by simp

text \<open>
  A collision of the hash: two different texts with the same digest. Equal digests mean
  equal values, unless a collision of SHA-256 is at hand.
\<close>

definition sha_collision :: "externals \<Rightarrow> string \<Rightarrow> string \<Rightarrow> bool" where
  "sha_collision X s t \<longleftrightarrow> s \<noteq> t \<and> sha256_hex X s = sha256_hex X t"

lemma digest_value_eq:
  assumes "json_text_ok X" and "digest_value X v = digest_value X w"
  shows "json_norm v = json_norm w \<or> sha_collision X (canonical_json X v) (canonical_json X w)"
proof (cases "canonical_json X v = canonical_json X w")
  case True
  then show ?thesis using canonical_json_determines [OF assms(1)] by blast
next
  case False
  then show ?thesis using assms(2) by (simp add: digest_value_def sha_collision_def)
qed

section \<open>An instance of the external functions\<close>

text \<open>
  An encoding that satisfies the hypotheses: every character of a string is escaped, a
  number is written in unary after a digit that tells its kind, and the digest is the text
  itself. It shows that the hypotheses are consistent and is the instance at which the
  theorems are evaluated.
\<close>

definition plain_str :: "string \<Rightarrow> string" where
  "plain_str s = CHR 0x22 # concat (map (\<lambda>c. [CHR 0x5C, c]) s) @ [CHR 0x22]"

fun plain_num :: "jnumber \<Rightarrow> string" where
  "plain_num (PosInt n) = CHR ''0'' # replicate n CHR ''u''"
| "plain_num (NegInt i) =
     CHR ''-'' # (if i < 0 then ''n'' else ''p'') @ replicate (nat (abs i)) CHR ''u''"
| "plain_num (Float w) = CHR ''1'' # replicate (unat w) CHR ''u''"

definition plain_externals :: externals where
  "plain_externals =
     \<lparr>json_str = plain_str, json_num = plain_num, sha256_hex = (\<lambda>s. s),
      uuid_str = (\<lambda>u. replicate (unat u) CHR ''u''), time_str = (\<lambda>t. plain_num (NegInt t))\<rparr>"

lemma plain_str_self_delimiting:
  "plain_str s @ r = plain_str t @ r' \<Longrightarrow> s = t \<and> r = r'"
proof -
  have "concat (map (\<lambda>c. [CHR 0x5C, c]) s) @ CHR 0x22 # r = concat (map (\<lambda>c. [CHR 0x5C, c]) t) @ CHR 0x22 # r'
      \<Longrightarrow> s = t \<and> r = r'"
  proof (induction s arbitrary: t)
    case Nil
    then show ?case by (cases t) auto
  next
    case (Cons c s)
    then show ?case by (cases t) auto
  qed
  then show "plain_str s @ r = plain_str t @ r' \<Longrightarrow> s = t \<and> r = r'"
    by (simp add: plain_str_def)
qed

lemma plain_num_inj: "plain_num m = plain_num n \<Longrightarrow> m = n"
  by (cases m; cases n) (auto split: if_splits simp: replicate_eq_replicate word_unat_eq_iff)

lemma plain_externals_sel [simp]:
  "json_str plain_externals = plain_str" "json_num plain_externals = plain_num"
  "sha256_hex plain_externals s = s"
  by (simp_all add: plain_externals_def)

lemma plain_externals_ok [simp]: "json_text_ok plain_externals"
proof -
  have "\<exists>t. plain_str s = CHR 0x22 # t" for s
    by (simp add: plain_str_def)
  moreover have "set (plain_num n) \<inter> json_delims = {}" for n
    by (cases n) (auto simp: json_delims_iff split: if_splits)
  moreover have "\<exists>c t. plain_num n = c # t \<and> c \<in> num_start" for n
    by (cases n) (auto simp: num_start_def)
  ultimately show ?thesis
    using plain_str_self_delimiting plain_num_inj
    unfolding json_text_ok_def plain_externals_sel inj_def by blast
qed

text \<open>
  C35: A digest binds a value. Under the documented properties of the JSON text of strings and
  numbers, two JSON values have the same security digest exactly when they are the same value
  up to the order of object entries, or their canonical texts are a collision of SHA-256.
\<close>

theorem digest_binds_value:
  assumes "json_text_ok X"
  shows "digest_value X v = digest_value X w \<longleftrightarrow>
    json_norm v = json_norm w \<or> sha_collision X (canonical_json X v) (canonical_json X w)"
proof
  assume "digest_value X v = digest_value X w"
  with digest_value_eq [OF assms] show "json_norm v = json_norm w \<or> sha_collision X (canonical_json X v) (canonical_json X w)"
    by blast
next
  assume "json_norm v = json_norm w \<or> sha_collision X (canonical_json X v) (canonical_json X w)"
  then show "digest_value X v = digest_value X w"
  proof
    assume "json_norm v = json_norm w"
    then have "canonical_json X v = canonical_json X w"
      by (metis canonical_json_norm)
    then show ?thesis by (simp add: digest_value_def)
  qed (simp add: digest_value_def sha_collision_def)
qed

theorem digest_binds_value_witness:
  "json_text_ok plain_externals \<and>
   digest_value plain_externals (JObject [(''b'', JNull), (''a'', JNumber (PosInt 2))]) =
     digest_value plain_externals (JObject [(''a'', JNumber (PosInt 2)), (''b'', JNull)]) \<and>
   digest_value plain_externals (JArray [JNull, JBool True]) \<noteq>
     digest_value plain_externals (JArray [JBool True, JNull])"
  using digest_binds_value [OF plain_externals_ok,
      of "JObject [(''b'', JNull), (''a'', JNumber (PosInt 2))]" "JObject [(''a'', JNumber (PosInt 2)), (''b'', JNull)]"]
    digest_binds_value [OF plain_externals_ok, of "JArray [JNull, JBool True]" "JArray [JBool True, JNull]"]
  by (simp add: sha_collision_def)

end
