(* ===== verification/Effect_Values.thy ===== *)
theory Effect_Values
  imports Canonical_Digest
begin

text \<open>
  The JSON value of an effect set, as \<open>serde\<close> derives it from the struct definitions and
  attributes of \<open>yeux-protocol/src/tool.rs\<close>: snake-case variant names, a field with
  \<open>skip_serializing_if = "Option::is_none"\<close> left out when it is \<open>None\<close>, any other
  \<open>None\<close> written as \<open>null\<close>. A \<open>serde_json\<close> object is a \<open>BTreeMap\<close>, so its
  entries are in key order. The digest of an effect set determines the effect set, up to a
  collision of the hash.
\<close>

fun idempotency_value :: "idempotency \<Rightarrow> json" where
  "idempotency_value Idempotent = JString ''idempotent''"
| "idempotency_value IdempotentWithKey = JString ''idempotent_with_key''"
| "idempotency_value NonIdempotent = JString ''non_idempotent''"
| "idempotency_value idempotency.Unknown = JString ''unknown''"

fun reversibility_value :: "reversibility \<Rightarrow> json" where
  "reversibility_value Reversible = JString ''reversible''"
| "reversibility_value Compensatable = JString ''compensatable''"
| "reversibility_value Irreversible = JString ''irreversible''"
| "reversibility_value reversibility.Unknown = JString ''unknown''"

definition option_str :: "string option \<Rightarrow> json" where
  "option_str v = (case v of None \<Rightarrow> JNull | Some s \<Rightarrow> JString s)"

definition path_scope_value :: "path_scope \<Rightarrow> json" where
  "path_scope_value p = JObject
     [(''path'', JString (ps_path p)), (''recursive'', JBool (ps_recursive p)),
      (''resolved'', JBool (ps_resolved p))]"

definition process_effect_value :: "process_effect \<Rightarrow> json" where
  "process_effect_value p = JObject
     [(''argument_digest'', option_str (pe_argument_digest p)),
      (''executable'', JString (pe_executable p)),
      (''may_spawn_children'', JBool (pe_may_spawn_children p))]"

definition network_effect_value :: "network_effect \<Rightarrow> json" where
  "network_effect_value n = JObject
     ((''host'', JString (ne_host n)) #
      (case ne_port n of None \<Rightarrow> [] | Some p \<Rightarrow> [(''port'', JNumber (PosInt p))]) @
      [(''scheme'', JString (ne_scheme n))])"

definition external_effect_value :: "external_effect \<Rightarrow> json" where
  "external_effect_value x = JObject
     ((''operation'', JString (ee_operation x)) #
      (case ee_resource x of None \<Rightarrow> [] | Some r \<Rightarrow> [(''resource'', JString r)]) @
      [(''system'', JString (ee_system x))])"

definition secret_handle_value :: "secret_handle \<Rightarrow> json" where
  "secret_handle_value s = JObject [(''name'', JString (sh_name s))]"

definition effect_set_value :: "effect_set \<Rightarrow> json" where
  "effect_set_value e = JObject
     [(''external_writes'', JArray (map external_effect_value (es_external_writes e))),
      (''filesystem_delete'', JArray (map path_scope_value (es_filesystem_delete e))),
      (''filesystem_read'', JArray (map path_scope_value (es_filesystem_read e))),
      (''filesystem_write'', JArray (map path_scope_value (es_filesystem_write e))),
      (''idempotency'', idempotency_value (es_idempotency e)),
      (''network'', JArray (map network_effect_value (es_network e))),
      (''processes'', JArray (map process_effect_value (es_processes e))),
      (''reversibility'', reversibility_value (es_reversibility e)),
      (''secrets'', JArray (map secret_handle_value (es_secrets e)))]"

text \<open>\<open>digest_serializable\<close>: serialising these structs cannot fail, so the digest is total.\<close>

definition digest_effects :: "externals \<Rightarrow> effect_set \<Rightarrow> string" where
  "digest_effects X e = digest_value X (effect_set_value e)"

section \<open>Effect values are normal and determine the effects\<close>

lemma json_norm_sorted:
  "sorted (map fst kvs) \<Longrightarrow> json_norm (JObject kvs) = JObject (map (map_prod (\<lambda>k. k) json_norm) kvs)"
  by (simp add: sort_key_map_prod sort_key_id_if_sorted)

lemma json_norm_leaf [simp]:
  "json_norm (idempotency_value i) = idempotency_value i"
  "json_norm (reversibility_value r) = reversibility_value r"
  "json_norm (option_str v) = option_str v"
  by (cases i, auto) (cases r, auto, cases v, auto simp: option_str_def)

lemma path_scope_norm [simp]: "json_norm (path_scope_value p) = path_scope_value p"
  unfolding path_scope_value_def by (subst json_norm_sorted) simp_all

lemma process_effect_norm [simp]: "json_norm (process_effect_value p) = process_effect_value p"
  unfolding process_effect_value_def by (subst json_norm_sorted) simp_all

lemma network_effect_norm [simp]: "json_norm (network_effect_value n) = network_effect_value n"
  unfolding network_effect_value_def by (subst json_norm_sorted) (auto split: option.splits)

lemma external_effect_norm [simp]: "json_norm (external_effect_value x) = external_effect_value x"
  unfolding external_effect_value_def by (subst json_norm_sorted) (auto split: option.splits)

lemma secret_handle_norm [simp]: "json_norm (secret_handle_value s) = secret_handle_value s"
  unfolding secret_handle_value_def by (subst json_norm_sorted) simp_all

lemma effect_set_norm [simp]: "json_norm (effect_set_value e) = effect_set_value e"
  unfolding effect_set_value_def by (subst json_norm_sorted) simp_all

lemma idempotency_value_inj: "inj idempotency_value"
proof (rule injI)
  fix i j show "idempotency_value i = idempotency_value j \<Longrightarrow> i = j"
    by (cases i; cases j) simp_all
qed

lemma reversibility_value_inj: "inj reversibility_value"
proof (rule injI)
  fix i j show "reversibility_value i = reversibility_value j \<Longrightarrow> i = j"
    by (cases i; cases j) simp_all
qed

lemma path_scope_value_inj: "inj path_scope_value"
  by (rule injI) (simp add: path_scope_value_def)

lemma process_effect_value_inj: "inj process_effect_value"
  by (rule injI) (auto simp: process_effect_value_def option_str_def split: option.splits)

lemma network_effect_value_inj: "inj network_effect_value"
  by (rule injI) (auto simp: network_effect_value_def split: option.splits)

lemma external_effect_value_inj: "inj external_effect_value"
  by (rule injI) (auto simp: external_effect_value_def split: option.splits)

lemma secret_handle_value_inj: "inj secret_handle_value"
  by (rule injI) (simp add: secret_handle_value_def)

lemmas value_injs =
  idempotency_value_inj [THEN injD] reversibility_value_inj [THEN injD]
  inj_mapI [OF path_scope_value_inj, THEN injD] inj_mapI [OF process_effect_value_inj, THEN injD]
  inj_mapI [OF network_effect_value_inj, THEN injD] inj_mapI [OF external_effect_value_inj, THEN injD]
  inj_mapI [OF secret_handle_value_inj, THEN injD]

lemma effect_set_value_inj: "effect_set_value e = effect_set_value f \<Longrightarrow> e = f"
  by (rule effect_set.equality) (auto simp: effect_set_value_def intro: value_injs)

lemma digest_effects_eq:
  assumes "json_text_ok X" and "digest_effects X e = digest_effects X f"
  shows "e = f \<or> sha_collision X (canonical_json X (effect_set_value e)) (canonical_json X (effect_set_value f))"
  using digest_value_eq [OF assms [unfolded digest_effects_def]] effect_set_value_inj by auto

end
