(* ===== verification/Approval.thy ===== *)
theory Approval
  imports Effect_Values
begin

text \<open>
  The last check before a prepared invocation runs (\<open>yeux-core/src/approval.rs\<close>): expiry,
  token, binding and content digests, in the order of the source. The theorems characterise
  acceptance completely and show that an approval authorises one invocation: two invocations
  accepted under the same binding agree in everything the binding names, and in their
  arguments and effects unless SHA-256 collides.

  \<open>ApprovalError::Digest\<close> reports a value that \<open>serde_json\<close> cannot serialise. Arguments
  are already JSON values and effect sets have no map with non-string keys, so the digest of
  the model is total and that error does not arise.
\<close>

datatype approval_error =
    PreparationExpired
  | EmptyPreparedToken
  | MissingApproval
  | ApprovalExpired
  | BindingMismatch string
  | Digest string

definition require_equal :: "'a \<Rightarrow> 'a \<Rightarrow> string \<Rightarrow> (approval_error, unit) rust_result" where
  "require_equal l r name = (if l \<noteq> r then Err (BindingMismatch name) else Ok ())"

definition check_binding ::
  "approval_binding \<Rightarrow> prepared_invocation \<Rightarrow> capability_mode \<Rightarrow> (approval_error, unit) rust_result" where
  "check_binding approval invocation expected_mode =
     rbind (require_equal (ab_workspace_id approval) (pi_workspace_id invocation) ''workspace_id'') (\<lambda>_.
     rbind (require_equal (ab_workspace_identity_digest approval)
        (pi_workspace_identity_digest invocation) ''workspace_identity_digest'') (\<lambda>_.
     rbind (require_equal (ab_thread_id approval) (pi_thread_id invocation) ''thread_id'') (\<lambda>_.
     rbind (require_equal (ab_invocation_id approval) (pi_invocation_id invocation) ''invocation_id'') (\<lambda>_.
     rbind (require_equal (ab_turn_id approval) (pi_turn_id invocation) ''turn_id'') (\<lambda>_.
     rbind (require_equal (ab_agent_id approval) (pi_agent_id invocation) ''agent_id'') (\<lambda>_.
     rbind (require_equal (ab_mode approval) expected_mode ''mode'') (\<lambda>_.
     rbind (require_equal (ab_tool_id approval) (pi_tool_id invocation) ''tool_id'') (\<lambda>_.
     rbind (require_equal (ab_tool_version approval) (pi_tool_version invocation) ''tool_version'') (\<lambda>_.
     rbind (require_equal (ab_normalized_arguments_digest approval)
        (pi_normalized_arguments_digest invocation) ''normalized_arguments_digest'') (\<lambda>_.
     require_equal (ab_effect_digest approval) (pi_effect_digest invocation) ''effect_digest''))))))))))"

definition check_content ::
  "externals \<Rightarrow> approval_binding \<Rightarrow> prepared_invocation \<Rightarrow> (approval_error, unit) rust_result" where
  "check_content X approval invocation =
     rbind (require_equal (digest_value X (pi_normalized_arguments invocation))
        (pi_normalized_arguments_digest invocation) ''normalized_arguments_content'') (\<lambda>_.
     rbind (require_equal (digest_effects X (pi_effects invocation))
        (pi_effect_digest invocation) ''effect_content'') (\<lambda>_.
     require_equal (digest_effects X (ab_granted_effects approval))
        (pi_effect_digest invocation) ''granted_effects''))"

definition validate_approval ::
  "externals \<Rightarrow> prepared_invocation \<Rightarrow> capability_mode \<Rightarrow> instant \<Rightarrow> (approval_error, unit) rust_result" where
  "validate_approval X invocation expected_mode now =
     (if pi_expires_at invocation \<le> now then Err PreparationExpired
      else if pi_prepared_token invocation = [] then Err EmptyPreparedToken
      else rbind (ok_or MissingApproval (pi_approval invocation)) (\<lambda>approval.
        if ab_expires_at approval \<le> now then Err ApprovalExpired
        else rbind (check_binding approval invocation expected_mode) (\<lambda>_.
          check_content X approval invocation)))"

section \<open>What acceptance means\<close>

text \<open>The declarative content of the checks.\<close>

definition binding_matches :: "approval_binding \<Rightarrow> prepared_invocation \<Rightarrow> capability_mode \<Rightarrow> bool" where
  "binding_matches a i m \<longleftrightarrow>
     ab_workspace_id a = pi_workspace_id i \<and>
     ab_workspace_identity_digest a = pi_workspace_identity_digest i \<and>
     ab_thread_id a = pi_thread_id i \<and> ab_invocation_id a = pi_invocation_id i \<and>
     ab_turn_id a = pi_turn_id i \<and> ab_agent_id a = pi_agent_id i \<and> ab_mode a = m \<and>
     ab_tool_id a = pi_tool_id i \<and> ab_tool_version a = pi_tool_version i \<and>
     ab_normalized_arguments_digest a = pi_normalized_arguments_digest i \<and>
     ab_effect_digest a = pi_effect_digest i"

definition content_matches :: "externals \<Rightarrow> approval_binding \<Rightarrow> prepared_invocation \<Rightarrow> bool" where
  "content_matches X a i \<longleftrightarrow>
     digest_value X (pi_normalized_arguments i) = pi_normalized_arguments_digest i \<and>
     digest_effects X (pi_effects i) = pi_effect_digest i \<and>
     digest_effects X (ab_granted_effects a) = pi_effect_digest i"

lemma require_equal_Ok [simp]: "require_equal l r name = Ok u \<longleftrightarrow> l = r"
  by (simp add: require_equal_def)

lemma check_binding_Ok: "check_binding a i m = Ok () \<longleftrightarrow> binding_matches a i m"
  by (simp add: check_binding_def binding_matches_def rbind_eq_Inr)

lemma check_content_Ok: "check_content X a i = Ok () \<longleftrightarrow> content_matches X a i"
  by (simp add: check_content_def content_matches_def rbind_eq_Inr)

lemma validate_approval_Ok:
  "validate_approval X i m now = Ok () \<longleftrightarrow>
     now < pi_expires_at i \<and> pi_prepared_token i \<noteq> [] \<and>
     (\<exists>a. pi_approval i = Some a \<and> now < ab_expires_at a \<and> binding_matches a i m \<and> content_matches X a i)"
  by (cases "pi_approval i")
    (auto simp: validate_approval_def ok_or_def rbind_eq_Inr check_binding_Ok check_content_Ok)

lemma validate_approval_Ok':
  assumes "validate_approval X i m now = Ok ()"
  obtains a where "pi_approval i = Some a" "binding_matches a i m" "content_matches X a i"
  using assms unfolding validate_approval_Ok by blast

text \<open>
  The preparation and its approval as the daemon builds them, at a concrete invocation.
\<close>

definition sample_invocation :: prepared_invocation where
  "sample_invocation =
     \<lparr>pi_invocation_id = 7, pi_tool_id = ''fs.read'', pi_tool_version = ''1'', pi_workspace_id = 1,
      pi_workspace_identity_digest = ''w'', pi_thread_id = 2, pi_turn_id = 3, pi_agent_id = ''root'',
      pi_normalized_arguments = JNull, pi_normalized_arguments_digest = ''null'',
      pi_effects = default_effects,
      pi_effect_digest = digest_effects plain_externals default_effects,
      pi_prepared_token = ''t'', pi_prepared_at = 0, pi_expires_at = 100,
      pi_approval = Some
        \<lparr>ab_approval_id = 9, ab_invocation_id = 7, ab_workspace_id = 1, ab_workspace_identity_digest = ''w'',
         ab_thread_id = 2, ab_turn_id = 3, ab_agent_id = ''root'', ab_mode = Observe,
         ab_tool_id = ''fs.read'', ab_tool_version = ''1'', ab_normalized_arguments_digest = ''null'',
         ab_effect_digest = digest_effects plain_externals default_effects,
         ab_granted_effects = default_effects, ab_expires_at = 90\<rparr>\<rparr>"

lemma sample_invocation_accepted:
  "validate_approval plain_externals sample_invocation Observe 50 = Ok ()"
  by (simp add: validate_approval_Ok sample_invocation_def binding_matches_def content_matches_def
      digest_value_def)

text \<open>
  C17: An accepted approval covers exactly the effects that run. When the check accepts an
  invocation, neither the preparation nor the approval has expired, the invocation carries a
  token and an approval bound to its identity, its workspace, its tool version and the mode,
  and the effects the user granted are the invocation's effects (or SHA-256 collides).
\<close>

theorem accepted_approval_grants_the_effects:
  assumes "json_text_ok X" and "validate_approval X i m now = Ok ()"
  shows "\<exists>a. pi_approval i = Some a \<and> now < pi_expires_at i \<and> now < ab_expires_at a \<and>
    pi_prepared_token i \<noteq> [] \<and> ab_mode a = m \<and> ab_invocation_id a = pi_invocation_id i \<and>
    ab_workspace_identity_digest a = pi_workspace_identity_digest i \<and>
    ab_tool_version a = pi_tool_version i \<and>
    (ab_granted_effects a = pi_effects i \<or>
     sha_collision X (canonical_json X (effect_set_value (ab_granted_effects a)))
       (canonical_json X (effect_set_value (pi_effects i))))"
proof -
  from assms(2) obtain a where a: "pi_approval i = Some a" "now < pi_expires_at i" "now < ab_expires_at a"
      "pi_prepared_token i \<noteq> []" and bind: "binding_matches a i m" and content: "content_matches X a i"
    unfolding validate_approval_Ok by blast
  from content have "digest_effects X (ab_granted_effects a) = digest_effects X (pi_effects i)"
    by (simp add: content_matches_def)
  from digest_effects_eq [OF assms(1) this] a bind show ?thesis
    unfolding binding_matches_def by blast
qed

theorem accepted_approval_grants_the_effects_witness:
  "json_text_ok plain_externals \<and> validate_approval plain_externals sample_invocation Observe 50 = Ok () \<and>
   (\<exists>a. pi_approval sample_invocation = Some a \<and> ab_granted_effects a = pi_effects sample_invocation)"
  using accepted_approval_grants_the_effects [OF plain_externals_ok sample_invocation_accepted]
    sample_invocation_accepted
  by (auto simp: sample_invocation_def sha_collision_def)

text \<open>
  An approval cannot be moved to another invocation. Two invocations that the check
  accepts under the same binding, possibly at different times, agree in invocation id, tool,
  version, workspace, thread, turn, agent and expected mode; and their arguments (up to the
  order of object entries) and their effects are the same, or SHA-256 collides.
\<close>

lemma approval_authorises_one_invocation:
  assumes "json_text_ok X"
    and i: "validate_approval X i m now = Ok ()" and j: "validate_approval X j m' now' = Ok ()"
    and same: "pi_approval i = pi_approval j"
  shows "pi_invocation_id i = pi_invocation_id j \<and> pi_tool_id i = pi_tool_id j \<and>
    pi_tool_version i = pi_tool_version j \<and> pi_workspace_id i = pi_workspace_id j \<and>
    pi_workspace_identity_digest i = pi_workspace_identity_digest j \<and>
    pi_thread_id i = pi_thread_id j \<and> pi_turn_id i = pi_turn_id j \<and> pi_agent_id i = pi_agent_id j \<and>
    m = m' \<and>
    (json_norm (pi_normalized_arguments i) = json_norm (pi_normalized_arguments j) \<or>
     sha_collision X (canonical_json X (pi_normalized_arguments i))
       (canonical_json X (pi_normalized_arguments j))) \<and>
    (pi_effects i = pi_effects j \<or>
     sha_collision X (canonical_json X (effect_set_value (pi_effects i)))
       (canonical_json X (effect_set_value (pi_effects j))))"
proof -
  from i obtain a where a: "pi_approval i = Some a" "binding_matches a i m" "content_matches X a i"
    by (rule validate_approval_Ok')
  from j same a(1) have b: "binding_matches a j m'" "content_matches X a j"
    by (auto elim: validate_approval_Ok')
  have args: "digest_value X (pi_normalized_arguments i) = digest_value X (pi_normalized_arguments j)"
    and effs: "digest_effects X (pi_effects i) = digest_effects X (pi_effects j)"
    using a(2,3) b by (simp_all add: binding_matches_def content_matches_def)
  show ?thesis
    using digest_value_eq [OF assms(1) args] digest_effects_eq [OF assms(1) effs] a(2) b(1)
    unfolding binding_matches_def by metis
qed

lemma approval_authorises_one_invocation_witness:
  "validate_approval plain_externals sample_invocation Observe 50 = Ok () \<and>
   validate_approval plain_externals (sample_invocation\<lparr>pi_tool_version := ''2''\<rparr>) Observe 50 \<noteq> Ok ()"
  using approval_authorises_one_invocation [OF plain_externals_ok sample_invocation_accepted,
      of "sample_invocation\<lparr>pi_tool_version := ''2''\<rparr>" Observe 50] sample_invocation_accepted
  by (auto simp: sample_invocation_def)

end
