(* ===== verification/Sandbox.thy ===== *)
theory Sandbox
  imports Capability_Policy
begin

text \<open>
  The pure part of \<open>yeux-runtime/src/sandbox.rs\<close>: the capabilities of the backends, the
  fail-closed capability check and the construction of the sandboxed command line. Detection
  and the launcher handshake start processes and are not modelled; \<open>TestPassthrough\<close> is
  compiled into tests only.

  The theorem reads the bubblewrap command line back with the documented arity of its options:
  whatever the environment, the directories and the arguments of the target contain, none of
  it is taken for an option.
\<close>

section \<open>Capabilities\<close>

record sandbox_capabilities =
  sc_filesystem_isolation :: bool
  sc_process_isolation :: bool
  sc_network_isolation :: bool
  sc_landlock :: bool
  sc_seccomp :: bool

definition sandbox_unavailable :: sandbox_capabilities where
  "sandbox_unavailable =
     \<lparr>sc_filesystem_isolation = False, sc_process_isolation = False, sc_network_isolation = False,
      sc_landlock = False, sc_seccomp = False\<rparr>"

record sandbox_requirement =
  sr_filesystem_isolation :: bool
  sr_process_isolation :: bool
  sr_network_isolation :: bool
  sr_allow_workspace_write :: bool
  sr_allow_network :: bool

definition default_requirement :: sandbox_requirement where
  "default_requirement =
     \<lparr>sr_filesystem_isolation = True, sr_process_isolation = True, sr_network_isolation = True,
      sr_allow_workspace_write = False, sr_allow_network = False\<rparr>"

datatype sandbox_backend =
    MacOsSeatbelt string
  | LinuxBubblewrap string bool bool
  | Unavailable string

datatype sandbox_error =
    Unavailable string
  | MissingCapability string
  | InvalidPath string
  | HandshakeFailed string

fun backend_name :: "sandbox_backend \<Rightarrow> string" where
  "backend_name (MacOsSeatbelt _) = ''seatbelt''"
| "backend_name (LinuxBubblewrap _ _ _) = ''bubblewrap''"
| "backend_name (sandbox_backend.Unavailable _) = ''unavailable''"

fun capabilities :: "sandbox_backend \<Rightarrow> sandbox_capabilities" where
  "capabilities (MacOsSeatbelt _) =
     \<lparr>sc_filesystem_isolation = True, sc_process_isolation = False, sc_network_isolation = True,
      sc_landlock = False, sc_seccomp = False\<rparr>"
| "capabilities (LinuxBubblewrap _ landlock seccomp) =
     \<lparr>sc_filesystem_isolation = True, sc_process_isolation = True, sc_network_isolation = True,
      sc_landlock = landlock, sc_seccomp = seccomp\<rparr>"
| "capabilities (sandbox_backend.Unavailable _) = sandbox_unavailable"

definition ensure :: "sandbox_backend \<Rightarrow> sandbox_requirement \<Rightarrow> (sandbox_error, unit) rust_result" where
  "ensure backend requirement =
     (case backend of
        sandbox_backend.Unavailable reason \<Rightarrow> Err (sandbox_error.Unavailable reason)
      | _ \<Rightarrow>
          let capability = capabilities backend in
          if sr_filesystem_isolation requirement \<and> \<not> sc_filesystem_isolation capability
          then Err (MissingCapability ''filesystem isolation'')
          else if sr_process_isolation requirement \<and> \<not> sc_process_isolation capability
          then Err (MissingCapability ''process isolation'')
          else if sr_network_isolation requirement \<and> \<not> sc_network_isolation capability
          then Err (MissingCapability ''network isolation'')
          else Ok ())"

section \<open>The command line\<close>

record sandboxed_command =
  sx_executable :: string
  sx_arguments :: "string list"
  sx_environment :: "(string, string) btree_map"

definition launcher_environment :: "(string, string) btree_map" where
  "launcher_environment = [(''PATH'', ''/usr/bin:/bin'')]"

text \<open>\<open>Path::to_str\<close>: a path whose bytes are not UTF-8 has no text.\<close>

definition executable_string :: "string \<Rightarrow> (sandbox_error, string) rust_result" where
  "executable_string path = (if utf8_valid path then Ok path else Err (InvalidPath path))"

definition quote_char :: "char \<Rightarrow> string" where
  "quote_char c = (if c = CHR 0x5C then [CHR 0x5C, CHR 0x5C] else if c = CHR 0x22 then [CHR 0x5C, CHR 0x22] else [c])"

text \<open>First every backslash is doubled, then every quote gets a backslash: one pass over the characters.\<close>

definition quote_profile_path :: "string \<Rightarrow> (sandbox_error, string) rust_result" where
  "quote_profile_path path = rbind (executable_string path) (\<lambda>s. Ok (concat (map quote_char s)))"

definition in_quotes :: "string \<Rightarrow> string" where
  "in_quotes s = CHR 0x22 # s @ [CHR 0x22]"

definition subpath :: "string \<Rightarrow> string" where
  "subpath s = ''(subpath '' @ in_quotes s @ '')''"

definition profile_base :: string where
  "profile_base =
     ''(version 1)(deny default)(import '' @ in_quotes ''system.sb'' @ '')(allow process-exec)(allow process-fork)(allow file-read* '' @
     subpath ''/usr'' @ '' '' @ subpath ''/bin'' @ subpath ''/System'' @ '' '' @ subpath ''/Library'' @
     subpath ''/opt/homebrew'' @ '' '' @ subpath ''/usr/local'' @ '')''"

definition macos_profile :: "string option \<Rightarrow> bool \<Rightarrow> bool \<Rightarrow> (sandbox_error, string) rust_result" where
  "macos_profile workspace_root allow_workspace_write allow_network =
     rbind (case workspace_root of
              None \<Rightarrow> Ok profile_base
            | Some root \<Rightarrow>
                rbind (quote_profile_path root) (\<lambda>workspace.
                Ok (profile_base @ ''(allow file-read* '' @ subpath workspace @ '')'' @
                    (if allow_workspace_write then ''(allow file-write* '' @ subpath workspace @ '')'' else [])))) (\<lambda>profile.
     Ok (profile @ (if allow_network then ''(allow network-outbound)'' else [])))"

text \<open>
  \<open>Path::parent\<close> and \<open>Path::ancestors\<close> of an absolute path (the root of a workspace is
  canonical) on its text: the last component and the separators before it are cut off; a
  trailing separator or single dot is no component.
\<close>

fun strip_back :: "string list \<Rightarrow> string list" where
  "strip_back parts =
     (if parts \<noteq> [] \<and> (last parts = [] \<or> last parts = ''.'') then strip_back (butlast parts) else parts)"

declare strip_back.simps [simp del]

fun join_slash :: "string list \<Rightarrow> string" where
  "join_slash [] = []"
| "join_slash [p] = p"
| "join_slash (p # q # ps) = p @ ''/'' @ join_slash (q # ps)"

lemma strip_back_length: "length (strip_back parts) \<le> length parts"
proof (induction parts rule: strip_back.induct)
  case (1 parts)
  then show ?case by (subst strip_back.simps) (auto intro: le_trans)
qed

function ancestor_parts :: "string list \<Rightarrow> string list list" where
  "ancestor_parts parts =
     (let r = strip_back parts in if r = [] then [r] else r # ancestor_parts (butlast r))"
  by auto
termination
proof (relation "measure length")
  show "wf (measure (length :: string list \<Rightarrow> nat))" by simp
  fix parts r :: "string list" assume "r = strip_back parts" "r \<noteq> []"
  then show "(butlast r, parts) \<in> measure length"
    using strip_back_length [of parts] by (cases "length r") auto
qed

declare ancestor_parts.simps [simp del]

definition parent_directories :: "string \<Rightarrow> string list" where
  "parent_directories path =
     (let rest = strip_back (tl (split_slash path)) in
      if rest = [] then []
      else rev (map (\<lambda>r. ''/'' @ join_slash r) (filter (\<lambda>r. r \<noteq> []) (ancestor_parts (butlast rest)))))"

definition is_system_path :: "string \<Rightarrow> bool" where
  "is_system_path path \<longleftrightarrow>
     list_ex (\<lambda>system. path_starts_with path system) [''/usr'', ''/bin'', ''/lib'', ''/lib64'', ''/etc'']"

definition append_parent_directories :: "string \<Rightarrow> string list" where
  "append_parent_directories path =
     concat (map (\<lambda>parent. if is_system_path parent \<or> \<not> utf8_valid parent then [] else [''--dir'', parent])
       (parent_directories path))"

definition bubblewrap_base :: "string list" where
  "bubblewrap_base =
     [''--die-with-parent'', ''--new-session'', ''--unshare-all'', ''--unshare-pid'', ''--clearenv'',
      ''--proc'', ''/proc'', ''--dev'', ''/dev'', ''--tmpfs'', ''/tmp'', ''--ro-bind'', ''/usr'', ''/usr''] @
     concat (map (\<lambda>system_path. [''--ro-bind-try'', system_path, system_path])
       [''/bin'', ''/lib'', ''/lib64'', ''/etc''])"

definition wrap_seatbelt ::
  "string \<Rightarrow> string \<Rightarrow> string list \<Rightarrow> (string, string) btree_map \<Rightarrow> string \<Rightarrow> sandbox_requirement \<Rightarrow>
   (sandbox_error, sandboxed_command) rust_result" where
  "wrap_seatbelt sandbox_exec executable arguments target_environment workspace_root requirement =
     rbind (macos_profile (Some workspace_root) (sr_allow_workspace_write requirement) (sr_allow_network requirement)) (\<lambda>profile.
     rbind (executable_string executable) (\<lambda>target.
     Ok \<lparr>sx_executable = sandbox_exec,
         sx_arguments = [''-p'', profile, ''/usr/bin/env'', ''-i''] @
           map (\<lambda>(name, v). name @ ''='' @ v) target_environment @ [target] @ arguments,
         sx_environment = launcher_environment\<rparr>))"

definition wrap_bubblewrap ::
  "string \<Rightarrow> string \<Rightarrow> string list \<Rightarrow> (string, string) btree_map \<Rightarrow> string \<Rightarrow> string \<Rightarrow> sandbox_requirement \<Rightarrow>
   (sandbox_error, sandboxed_command) rust_result" where
  "wrap_bubblewrap bubblewrap executable arguments target_environment workspace_root cwd requirement =
     rbind (executable_string workspace_root) (\<lambda>workspace.
     rbind (executable_string cwd) (\<lambda>directory.
     rbind (executable_string executable) (\<lambda>target.
     Ok \<lparr>sx_executable = bubblewrap,
         sx_arguments = bubblewrap_base @ append_parent_directories workspace_root @
           [if sr_allow_workspace_write requirement then ''--bind'' else ''--ro-bind'', workspace, workspace] @
           (if sr_allow_network requirement then [''--share-net''] else []) @
           concat (map (\<lambda>(name, v). [''--setenv'', name, v]) target_environment) @
           [''--chdir'', directory, ''--'', target] @ arguments,
         sx_environment = launcher_environment\<rparr>)))"

definition wrap ::
  "sandbox_backend \<Rightarrow> string \<Rightarrow> string list \<Rightarrow> (string, string) btree_map \<Rightarrow> string \<Rightarrow> string \<Rightarrow>
   sandbox_requirement \<Rightarrow> (sandbox_error, sandboxed_command) rust_result" where
  "wrap backend executable arguments target_environment workspace_root cwd requirement =
     rbind (ensure backend requirement) (\<lambda>_.
       case backend of
         MacOsSeatbelt sandbox_exec \<Rightarrow>
           wrap_seatbelt sandbox_exec executable arguments target_environment workspace_root requirement
       | LinuxBubblewrap bubblewrap _ _ \<Rightarrow>
           wrap_bubblewrap bubblewrap executable arguments target_environment workspace_root cwd requirement
       | sandbox_backend.Unavailable reason \<Rightarrow> Err (sandbox_error.Unavailable reason))"

section \<open>Reading the command line back\<close>

text \<open>
  The options of bubblewrap that occur, with the number of arguments its manual gives them.
  \<open>read_options\<close> reads a command line from the left up to \<open>--\<close>; the rest is the target.
\<close>

datatype bwrap_option =
    Flag string
  | OnPath string string
  | Bind string string string
  | SetEnv string string

definition flags :: "string set" where
  "flags = {''--die-with-parent'', ''--new-session'', ''--unshare-all'', ''--unshare-pid'', ''--clearenv'', ''--share-net''}"

definition path_options :: "string set" where
  "path_options = {''--proc'', ''--dev'', ''--tmpfs'', ''--dir'', ''--chdir''}"

definition bind_options :: "string set" where
  "bind_options = {''--ro-bind'', ''--ro-bind-try'', ''--bind''}"

fun read_options :: "string list \<Rightarrow> (bwrap_option list \<times> string list) option" where
  "read_options [] = None"
| "read_options (x # xs) =
     (if x = ''--'' then Some ([], xs)
      else if x \<in> flags then map_option (\<lambda>(os, rest). (Flag x # os, rest)) (read_options xs)
      else if x \<in> path_options
      then (case xs of p # ys \<Rightarrow> map_option (\<lambda>(os, rest). (OnPath x p # os, rest)) (read_options ys) | [] \<Rightarrow> None)
      else (case xs of
              a # b # ys \<Rightarrow>
                if x \<in> bind_options then map_option (\<lambda>(os, rest). (Bind x a b # os, rest)) (read_options ys)
                else if x = ''--setenv'' then map_option (\<lambda>(os, rest). (SetEnv a b # os, rest)) (read_options ys)
                else None
            | _ \<Rightarrow> None))"

fun option_words :: "bwrap_option \<Rightarrow> string list" where
  "option_words (Flag x) = [x]"
| "option_words (OnPath x p) = [x, p]"
| "option_words (Bind x a b) = [x, a, b]"
| "option_words (SetEnv a b) = [''--setenv'', a, b]"

fun option_known :: "bwrap_option \<Rightarrow> bool" where
  "option_known (Flag x) \<longleftrightarrow> x \<in> flags"
| "option_known (OnPath x p) \<longleftrightarrow> x \<in> path_options"
| "option_known (Bind x a b) \<longleftrightarrow> x \<in> bind_options"
| "option_known (SetEnv a b) \<longleftrightarrow> True"

lemma option_names:
  "''--'' \<notin> flags" "''--'' \<notin> path_options" "''--'' \<notin> bind_options"
  "flags \<inter> path_options = {}" "flags \<inter> bind_options = {}" "path_options \<inter> bind_options = {}"
  "''--setenv'' \<notin> flags" "''--setenv'' \<notin> path_options" "''--setenv'' \<notin> bind_options"
  by (simp_all add: flags_def path_options_def bind_options_def)

declare read_options.simps [simp del]

lemma read_option_words:
  assumes "option_known opt"
  shows "read_options (option_words opt @ xs) = map_option (\<lambda>(os, rest). (opt # os, rest)) (read_options xs)"
proof (cases opt)
  case (Flag x)
  then have "x \<in> flags" "x \<noteq> ''--''" using assms option_names by auto
  then show ?thesis unfolding Flag by (simp add: read_options.simps(2) [of x])
next
  case (OnPath x p)
  then have "x \<in> path_options" "x \<notin> flags" "x \<noteq> ''--''" using assms option_names by auto
  then show ?thesis unfolding OnPath by (simp add: read_options.simps(2) [of x])
next
  case (Bind x a b)
  then have "x \<in> bind_options" "x \<notin> path_options" "x \<notin> flags" "x \<noteq> ''--''" using assms option_names by auto
  then show ?thesis unfolding Bind by (simp add: read_options.simps(2) [of x])
next
  case (SetEnv a b)
  then show ?thesis using option_names by (simp add: read_options.simps(2) [of "''--setenv''"])
qed

lemma read_options_words:
  "list_all option_known os \<Longrightarrow> read_options (concat (map option_words os) @ ''--'' # rest) = Some (os, rest)"
proof (induction os)
  case Nil
  then show ?case by (simp add: read_options.simps(2) [of "''--''"])
next
  case (Cons opt os)
  then show ?case
    using read_option_words [of opt "concat (map option_words os) @ ''--'' # rest"] by simp
qed

definition base_options :: "bwrap_option list" where
  "base_options =
     map Flag [''--die-with-parent'', ''--new-session'', ''--unshare-all'', ''--unshare-pid'', ''--clearenv''] @
     [OnPath ''--proc'' ''/proc'', OnPath ''--dev'' ''/dev'', OnPath ''--tmpfs'' ''/tmp'', Bind ''--ro-bind'' ''/usr'' ''/usr''] @
     map (\<lambda>p. Bind ''--ro-bind-try'' p p) [''/bin'', ''/lib'', ''/lib64'', ''/etc'']"

text \<open>Directories are created for the parents of the root that are outside the system directories.\<close>

definition dir_options :: "string \<Rightarrow> bwrap_option list" where
  "dir_options root =
     map (OnPath ''--dir'') (filter (\<lambda>p. \<not> is_system_path p \<and> utf8_valid p) (parent_directories root))"

definition intended_options :: "sandbox_requirement \<Rightarrow> (string, string) btree_map \<Rightarrow> string \<Rightarrow> string \<Rightarrow> bwrap_option list" where
  "intended_options requirement environment root cwd =
     base_options @ dir_options root @
     [Bind (if sr_allow_workspace_write requirement then ''--bind'' else ''--ro-bind'') root root] @
     (if sr_allow_network requirement then [Flag ''--share-net''] else []) @
     map (\<lambda>(name, v). SetEnv name v) environment @ [OnPath ''--chdir'' cwd]"

lemma dir_option_words: "concat (map option_words (dir_options root)) = append_parent_directories root"
proof -
  have "concat (map option_words (map (OnPath ''--dir'') (filter (\<lambda>p. \<not> is_system_path p \<and> utf8_valid p) ps))) =
      concat (map (\<lambda>p. if is_system_path p \<or> \<not> utf8_valid p then [] else [''--dir'', p]) ps)" for ps
    by (induction ps) auto
  then show ?thesis by (simp only: dir_options_def append_parent_directories_def)
qed

lemma intended_known: "list_all option_known (intended_options requirement environment root cwd)"
  by (auto simp: intended_options_def base_options_def dir_options_def list_all_iff flags_def path_options_def bind_options_def)

lemma intended_words:
  "concat (map option_words (intended_options requirement environment root cwd)) =
     bubblewrap_base @ append_parent_directories root @
     [if sr_allow_workspace_write requirement then ''--bind'' else ''--ro-bind'', root, root] @
     (if sr_allow_network requirement then [''--share-net''] else []) @
     concat (map (\<lambda>(name, v). [''--setenv'', name, v]) environment) @ [''--chdir'', cwd]"
proof -
  have "concat (map option_words (map (\<lambda>(name, v). SetEnv name v) environment)) =
      concat (map (\<lambda>(name, v). [''--setenv'', name, v]) environment)"
    by (induction environment) auto
  then show ?thesis
    unfolding intended_options_def by (simp add: dir_option_words base_options_def bubblewrap_base_def)
qed

text \<open>
  C24: The command line cannot be injected. When the bubblewrap backend wraps a command, reading
  the command line back with the documented arity of the options yields exactly the intended
  sandbox and, after the separator, the target with its arguments: the network is shared if
  and only if the requirement allows it, the workspace is the only directory bound besides the
  system directories and is writable only if the requirement allows it, and the launcher's own
  environment is fixed, whatever the target's environment and arguments contain.
\<close>

theorem wrapped_command_reads_back:
  assumes "wrap (LinuxBubblewrap bubblewrap landlock seccomp) executable arguments environment root cwd requirement = Ok c"
  shows "read_options (sx_arguments c) = Some (intended_options requirement environment root cwd, executable # arguments) \<and>
    (Flag ''--share-net'' \<in> set (intended_options requirement environment root cwd) \<longleftrightarrow> sr_allow_network requirement) \<and>
    (\<forall>kind a b. Bind kind a b \<in> set (intended_options requirement environment root cwd) \<longrightarrow>
       a \<in> {''/usr'', ''/bin'', ''/lib'', ''/lib64'', ''/etc''} \<and> kind \<noteq> ''--bind'' \<or>
       a = root \<and> b = root \<and> (kind = ''--bind'' \<longleftrightarrow> sr_allow_workspace_write requirement)) \<and>
    sx_executable c = bubblewrap \<and> sx_environment c = launcher_environment"
proof -
  have c: "sx_arguments c = concat (map option_words (intended_options requirement environment root cwd)) @
      ''--'' # executable # arguments"
    and rest: "sx_executable c = bubblewrap \<and> sx_environment c = launcher_environment"
    using assms unfolding intended_words
    by (auto simp: wrap_def wrap_bubblewrap_def rbind_eq_Inr executable_string_def split: if_splits)
  have net: "Flag ''--share-net'' \<in> set (intended_options requirement environment root cwd) \<longleftrightarrow> sr_allow_network requirement"
    by (auto simp: intended_options_def base_options_def dir_options_def)
  have binds: "\<forall>kind a b. Bind kind a b \<in> set (intended_options requirement environment root cwd) \<longrightarrow>
       a \<in> {''/usr'', ''/bin'', ''/lib'', ''/lib64'', ''/etc''} \<and> kind \<noteq> ''--bind'' \<or>
       a = root \<and> b = root \<and> (kind = ''--bind'' \<longleftrightarrow> sr_allow_workspace_write requirement)"
    by (auto simp: intended_options_def base_options_def dir_options_def)
  show ?thesis
    using read_options_words [OF intended_known] net binds rest unfolding c by blast
qed

text \<open>An environment variable named like an option stays a variable.\<close>

theorem wrapped_command_reads_back_witness:
  "\<exists>c os. wrap (LinuxBubblewrap ''/usr/bin/bwrap'' False False) ''/bin/ls'' [''--share-net'']
       [(''--share-net'', ''--bind'')] ''/home/u'' ''/home/u'' default_requirement = Ok c \<and>
     read_options (sx_arguments c) = Some (os, [''/bin/ls'', ''--share-net'']) \<and> Flag ''--share-net'' \<notin> set os"
proof -
  have "is_ok (wrap (LinuxBubblewrap ''/usr/bin/bwrap'' False False) ''/bin/ls'' [''--share-net'']
       [(''--share-net'', ''--bind'')] ''/home/u'' ''/home/u'' default_requirement)"
    by (simp add: wrap_def ensure_def default_requirement_def wrap_bubblewrap_def executable_string_def byte_def)
  then obtain c where c: "wrap (LinuxBubblewrap ''/usr/bin/bwrap'' False False) ''/bin/ls'' [''--share-net'']
       [(''--share-net'', ''--bind'')] ''/home/u'' ''/home/u'' default_requirement = Ok c"
    by (auto simp: is_ok_iff)
  moreover have "\<not> sr_allow_network default_requirement" by (simp add: default_requirement_def)
  ultimately show ?thesis using wrapped_command_reads_back [OF c] by blast
qed

end
