(* ===== verification/Tool_Registry.thy ===== *)
theory Tool_Registry
  imports Sandbox Effect_Values "HOL-Library.Product_Lexorder"
begin

text \<open>
  The sealed tool registry (\<open>yeuxd/src/tools.rs\<close>): validation of the registered
  specifications, planning, revalidation and execution of a tool, and the executors for
  read-only calls. An adapter is a trait object: a record of its methods. What an adapter
  observes and changes outside the daemon (the file system, processes) is the world
  \<open>'w\<close>; the control of a search is the parameter \<open>'c\<close>. Nothing is assumed of either:
  the theorems show what the registry guarantees whatever its adapters answer.

  The seal of a registry (\<open>Arc<RegistrySeal>\<close>, compared by address) is a number.
\<close>

section \<open>Errors and their codes\<close>

record workspace_identity_snapshot =
  wis_canonical_root :: string
  wis_digest :: string
  wis_device :: "nat option"
  wis_inode :: "nat option"

datatype workspace_error =
    Io string
  | NotDirectory string
  | InvalidRelativePath string
  | OutsideWorkspace string string
  | WorkspaceIdentityChanged workspace_identity_snapshot workspace_identity_snapshot
  | WorkspaceIdentityDigestMismatch string string
  | FileIdentityChanged string "nat option" "nat option" "nat option" "nat option"
  | FileChangedDuringRead string
  | RevisionChanged string string string
  | ResolvedPathChanged string string
  | NotFound string
  | NotAFile string
  | MultipleHardLinks string
  | ReadLimitExceeded string nat
  | InvalidUtf8 string

datatype apply_patch_error =
    Workspace workspace_error
  | Io string
  | StaleRevision string string string
  | Persist string
  | DurabilityUncertain string string

datatype workspace_tool_error =
    UnknownTool string
  | InvalidArguments string string
  | InvalidLimits string nat nat
  | InvalidBaseRevision string
  | ReplacementBytesLimit nat
  | WorkspaceIdentityMismatch string string
  | Workspace workspace_error
  | ApplyPatch apply_patch_error
  | InvalidPathEncoding string
  | FileCountLimit nat
  | DepthLimit nat string
  | FileBytesLimit string nat
  | ScanBytesLimit nat
  | QueryBytesLimit nat
  | MatchLimit nat
  | SearchCancelled
  | SearchDeadlineExceeded
  | SearchBudgetExceeded nat
  | OutputBytesLimit nat
  | Serialization string

fun workspace_error_code :: "workspace_error \<Rightarrow> string" where
  "workspace_error_code (workspace_error.Io _) = ''workspace_io''"
| "workspace_error_code (NotDirectory _) = ''workspace_not_directory''"
| "workspace_error_code (InvalidRelativePath _) = ''workspace_invalid_path''"
| "workspace_error_code (OutsideWorkspace _ _) = ''workspace_path_escape''"
| "workspace_error_code (WorkspaceIdentityChanged _ _) = ''workspace_identity_changed''"
| "workspace_error_code (WorkspaceIdentityDigestMismatch _ _) = ''workspace_identity_digest_mismatch''"
| "workspace_error_code (FileIdentityChanged _ _ _ _ _) = ''workspace_file_identity_changed''"
| "workspace_error_code (FileChangedDuringRead _) = ''workspace_file_changed_during_read''"
| "workspace_error_code (RevisionChanged _ _ _) = ''workspace_revision_changed''"
| "workspace_error_code (ResolvedPathChanged _ _) = ''workspace_path_changed''"
| "workspace_error_code (NotFound _) = ''workspace_not_found''"
| "workspace_error_code (NotAFile _) = ''workspace_not_file''"
| "workspace_error_code (MultipleHardLinks _) = ''workspace_multiple_hard_links''"
| "workspace_error_code (ReadLimitExceeded _ _) = ''workspace_file_bytes_limit''"
| "workspace_error_code (InvalidUtf8 _) = ''workspace_invalid_utf8''"

fun workspace_tool_error_code :: "workspace_tool_error \<Rightarrow> string" where
  "workspace_tool_error_code (workspace_tool_error.UnknownTool _) = ''workspace_unknown_tool''"
| "workspace_tool_error_code (InvalidArguments _ _) = ''workspace_invalid_arguments''"
| "workspace_tool_error_code (InvalidLimits _ _ _) = ''workspace_invalid_limits''"
| "workspace_tool_error_code (InvalidBaseRevision _) = ''workspace_invalid_base_revision''"
| "workspace_tool_error_code (ReplacementBytesLimit _) = ''workspace_replacement_bytes_limit''"
| "workspace_tool_error_code (WorkspaceIdentityMismatch _ _) = ''workspace_identity_mismatch''"
| "workspace_tool_error_code (workspace_tool_error.Workspace e) = workspace_error_code e"
| "workspace_tool_error_code (ApplyPatch (apply_patch_error.Workspace e)) = workspace_error_code e"
| "workspace_tool_error_code (ApplyPatch (apply_patch_error.Io _)) = ''workspace_io''"
| "workspace_tool_error_code (ApplyPatch (StaleRevision _ _ _)) = ''workspace_stale_revision''"
| "workspace_tool_error_code (ApplyPatch (Persist _)) = ''workspace_publish_failed''"
| "workspace_tool_error_code (ApplyPatch (DurabilityUncertain _ _)) = ''workspace_durability_unknown''"
| "workspace_tool_error_code (InvalidPathEncoding _) = ''workspace_path_not_utf8''"
| "workspace_tool_error_code (FileCountLimit _) = ''workspace_file_count_limit''"
| "workspace_tool_error_code (DepthLimit _ _) = ''workspace_depth_limit''"
| "workspace_tool_error_code (FileBytesLimit _ _) = ''workspace_file_bytes_limit''"
| "workspace_tool_error_code (ScanBytesLimit _) = ''workspace_scan_bytes_limit''"
| "workspace_tool_error_code (QueryBytesLimit _) = ''workspace_query_bytes_limit''"
| "workspace_tool_error_code (MatchLimit _) = ''workspace_match_limit''"
| "workspace_tool_error_code SearchCancelled = ''workspace_search_cancelled''"
| "workspace_tool_error_code SearchDeadlineExceeded = ''workspace_search_deadline_exceeded''"
| "workspace_tool_error_code (SearchBudgetExceeded _) = ''workspace_search_budget_exceeded''"
| "workspace_tool_error_code (OutputBytesLimit _) = ''workspace_output_bytes_limit''"
| "workspace_tool_error_code (Serialization _) = ''workspace_output_serialization''"

text \<open>\<open>ProcessError\<close>; an I/O or join error is its text.\<close>

datatype process_error =
    Workspace workspace_error
  | Sandbox sandbox_error
  | Io string
  | Spawn string
  | ExecutableNotAbsolute string
  | InvalidExecutable string
  | ExecutableValidation string string
  | SensitiveEnvironmentVariable string
  | InvalidEnvironmentVariableName string
  | HandshakeJoin string
  | Join string
  | OutputDrainTimeout
  | OutputLimitExceeded
  | ProcessGroupUnavailable
  | DescendantsMaySurvive

datatype registry_error =
    EmptyRegistry
  | RegistrationLimit nat nat
  | EmptySpecField nat string
  | InvalidSpecIdentifier nat string string
  | SpecLimit nat string nat nat
  | InvalidSpec nat string string
  | DuplicateTool string string
  | AdapterIdentityMismatch string string
  | UnknownTool string string
  | ForeignPlan
  | ForeignExecutionPermit
  | PlanChanged string
  | EffectEscalation string string
  | AdapterPayloadMismatch string string
  | WorkspaceTool string string workspace_tool_error
  | Process string string process_error
  | InvalidProcessArguments string
  | ProcessRequiresAsync
  | Authority string
  | OutcomeUnknown string

fun registry_error_code :: "registry_error \<Rightarrow> string" where
  "registry_error_code EmptyRegistry = ''tool_registry_empty''"
| "registry_error_code (RegistrationLimit _ _) = ''tool_registry_registration_limit''"
| "registry_error_code (EmptySpecField _ _) = ''tool_registry_empty_spec_field''"
| "registry_error_code (InvalidSpecIdentifier _ _ _) = ''tool_registry_invalid_identifier''"
| "registry_error_code (SpecLimit _ _ _ _) = ''tool_registry_spec_limit''"
| "registry_error_code (InvalidSpec _ _ _) = ''tool_registry_invalid_spec''"
| "registry_error_code (DuplicateTool _ _) = ''tool_registry_duplicate_tool''"
| "registry_error_code (AdapterIdentityMismatch _ _) = ''tool_registry_adapter_identity_mismatch''"
| "registry_error_code (registry_error.UnknownTool _ _) = ''tool_registry_unknown_tool''"
| "registry_error_code ForeignPlan = ''tool_registry_foreign_plan''"
| "registry_error_code ForeignExecutionPermit = ''tool_registry_foreign_execution_permit''"
| "registry_error_code (PlanChanged _) = ''tool_registry_plan_changed''"
| "registry_error_code (EffectEscalation _ _) = ''tool_registry_effect_escalation''"
| "registry_error_code (AdapterPayloadMismatch _ _) = ''tool_registry_adapter_payload_mismatch''"
| "registry_error_code (WorkspaceTool _ _ source) = workspace_tool_error_code source"
| "registry_error_code (Process _ _ _) = ''process_execution_failed''"
| "registry_error_code (InvalidProcessArguments _) = ''process_invalid_arguments''"
| "registry_error_code ProcessRequiresAsync = ''process_async_required''"
| "registry_error_code (Authority _) = ''tool_authority_rejected''"
| "registry_error_code (OutcomeUnknown _) = ''tool_outcome_unknown''"

definition provider_code :: "registry_error \<Rightarrow> string" where
  "provider_code e = (case e of registry_error.UnknownTool _ _ \<Rightarrow> ''workspace_unknown_tool'' | _ \<Rightarrow> registry_error_code e)"

definition registry_outcome_unknown :: "registry_error \<Rightarrow> bool" where
  "registry_outcome_unknown e = (case e of OutcomeUnknown _ \<Rightarrow> True | _ \<Rightarrow> False)"

section \<open>Payloads and adapters\<close>

record file_revision_snapshot =
  fr_relative_path :: string
  fr_revision :: string
  fr_byte_length :: nat
  fr_device :: "nat option"
  fr_inode :: "nat option"

record workspace_diff_summary =
  ds_changed :: bool
  ds_previous_bytes :: nat
  ds_replacement_bytes :: nat
  ds_byte_delta :: int
  ds_previous_lines :: nat
  ds_replacement_lines :: nat
  ds_line_delta :: int
  ds_common_prefix_bytes :: nat
  ds_common_suffix_bytes :: nat
  ds_removed_bytes :: nat
  ds_inserted_bytes :: nat
  ds_first_changed_line :: "nat option"
  ds_unified_diff :: string

record prepared_workspace_mutation =
  pm_tool_id :: string
  pm_tool_version :: string
  pm_workspace_identity :: string
  pm_normalized_arguments :: json
  pm_effects :: effect_set
  pm_base_revision :: file_revision_snapshot
  pm_diff_summary :: workspace_diff_summary

record process_request =
  pq_executable :: string
  pq_arguments :: "string list"
  pq_cwd :: string
  pq_environment :: "(string, string) btree_map"
  pq_stdin :: "string option"
  pq_timeout_ms :: nat
  pq_output_limit_bytes :: nat
  pq_sandbox :: sandbox_requirement

datatype planned_payload =
    PlannedRead
  | PlannedMutation prepared_workspace_mutation
  | PlannedProcess process_request

datatype execution_payload =
    ExecutionRead
  | ExecutionMutation prepared_workspace_mutation
  | ExecutionProcess process_request

record adapter_plan =
  ap_workspace_identity :: string
  ap_normalized_arguments :: json
  ap_effects :: effect_set
  ap_payload :: planned_payload

record adapter_revalidation =
  ar_workspace_identity :: string
  ar_normalized_arguments :: json
  ar_effects :: effect_set
  ar_payload :: execution_payload

text \<open>\<open>ToolKey\<close> has the derived order: by identifier, then by version.\<close>

type_synonym tool_key = "string \<times> string"

definition key_from_spec :: "tool_spec \<Rightarrow> tool_key" where
  "key_from_spec spec = (sp_id spec, sp_version spec)"

record ('w, 'c) tool_adapter =
  ad_supports :: "tool_key \<Rightarrow> bool"
  ad_plan :: "'w \<Rightarrow> json \<Rightarrow> (registry_error, adapter_plan) rust_result"
  ad_revalidate :: "'w \<Rightarrow> string \<Rightarrow> json \<Rightarrow> effect_set \<Rightarrow> planned_payload \<Rightarrow>
    (registry_error, adapter_revalidation) rust_result"
  ad_execute :: "'w \<Rightarrow> json \<Rightarrow> execution_payload \<Rightarrow> 'c option \<Rightarrow> 'w \<times> (registry_error, json) rust_result"
  ad_execute_async :: "'w \<Rightarrow> json \<Rightarrow> execution_payload \<Rightarrow> 'w \<times> (registry_error, json) rust_result"

record ('w, 'c) registered_tool =
  rt_spec :: tool_spec
  rt_advertised :: bool
  rt_adapter :: "('w, 'c) tool_adapter"

record ('w, 'c) tool_registry =
  tr_seal :: nat
  tr_tools :: "(tool_key, ('w, 'c) registered_tool) btree_map"
  tr_advertised_specs :: "tool_spec list"

section \<open>Validation of specifications\<close>

definition max_registered_tools :: nat where "max_registered_tools = 128"
definition max_tool_id_bytes :: nat where "max_tool_id_bytes = 128"
definition max_tool_version_bytes :: nat where "max_tool_version_bytes = 64"
definition max_tool_description_bytes :: nat where "max_tool_description_bytes = 4 * 1024"
definition max_tool_schema_bytes :: nat where "max_tool_schema_bytes = 256 * 1024"
definition max_tool_timeout_ms :: nat where "max_tool_timeout_ms = 5 * 60 * 1000"
definition max_tool_inline_output_bytes :: nat where "max_tool_inline_output_bytes = 8 * 1024 * 1024"
definition max_effect_entries :: nat where "max_effect_entries = 128"
definition max_effect_string_bytes :: nat where "max_effect_string_bytes = 4 * 1024"

lemmas registry_limits =
  max_registered_tools_def max_tool_id_bytes_def max_tool_version_bytes_def max_tool_description_bytes_def
  max_tool_schema_bytes_def max_tool_timeout_ms_def max_tool_inline_output_bytes_def max_effect_entries_def
  max_effect_string_bytes_def

text \<open>\<open>str::trim\<close> on the UTF-8 bytes, from the front and (reversed) from the back.\<close>

fun trim_start :: "string \<Rightarrow> string" where
  "trim_start (c # s) =
     (if is_space1 c then trim_start s
      else case s of
        d # t \<Rightarrow>
          if is_space2 c d then trim_start t
          else (case t of e # u \<Rightarrow> if is_space3 c d e then trim_start u else c # s | [] \<Rightarrow> c # s)
      | [] \<Rightarrow> c # s)"
| "trim_start [] = []"

fun trim_end_rev :: "string \<Rightarrow> string" where
  "trim_end_rev (e # s) =
     (if is_space1 e then trim_end_rev s
      else case s of
        d # t \<Rightarrow>
          if is_space2 d e then trim_end_rev t
          else (case t of c # u \<Rightarrow> if is_space3 c d e then trim_end_rev u else e # s | [] \<Rightarrow> e # s)
      | [] \<Rightarrow> e # s)"
| "trim_end_rev [] = []"

definition trim :: "string \<Rightarrow> string" where
  "trim s = rev (trim_end_rev (rev (trim_start s)))"

definition is_ascii :: "string \<Rightarrow> bool" where
  "is_ascii s \<longleftrightarrow> list_all (\<lambda>c. byte c < 128) s"

definition is_ascii_alphanumeric :: "char \<Rightarrow> bool" where
  "is_ascii_alphanumeric c \<longleftrightarrow>
     (48 \<le> byte c \<and> byte c \<le> 57) \<or> (65 \<le> byte c \<and> byte c \<le> 90) \<or> (97 \<le> byte c \<and> byte c \<le> 122)"

definition is_tool_id_character :: "char \<Rightarrow> bool" where
  "is_tool_id_character c \<longleftrightarrow> is_ascii_alphanumeric c \<or> c \<in> set ''._-''"

definition is_tool_version_character :: "char \<Rightarrow> bool" where
  "is_tool_version_character c \<longleftrightarrow> is_ascii_alphanumeric c \<or> c \<in> set ''._-+''"

definition validate_nonempty_bounded :: "nat \<Rightarrow> string \<Rightarrow> string \<Rightarrow> nat \<Rightarrow> (registry_error, unit) rust_result" where
  "validate_nonempty_bounded index field v limit =
     (if is_blank v then Err (EmptySpecField index field)
      else if length v > limit then Err (SpecLimit index field (length v) limit)
      else Ok ())"

definition validate_identifier ::
  "nat \<Rightarrow> string \<Rightarrow> string \<Rightarrow> nat \<Rightarrow> (char \<Rightarrow> bool) \<Rightarrow> (registry_error, unit) rust_result" where
  "validate_identifier index field v limit allowed =
     rbind (validate_nonempty_bounded index field v limit) (\<lambda>_.
       if trim v \<noteq> v \<or> \<not> is_ascii v \<or>
          \<not> (case v of [] \<Rightarrow> False | c # _ \<Rightarrow> is_ascii_alphanumeric c) \<or>
          \<not> list_all allowed v
       then Err (InvalidSpecIdentifier index field v) else Ok ())"

text \<open>\<open>serde_json::to_vec\<close>: the compact text, entries in the map's order.\<close>

primrec json_to_vec :: "externals \<Rightarrow> json \<Rightarrow> string" where
  "json_to_vec X JNull = ''null''"
| "json_to_vec X (JBool b) = (if b then ''true'' else ''false'')"
| "json_to_vec X (JNumber n) = json_num X n"
| "json_to_vec X (JString s) = json_str X s"
| "json_to_vec X (JArray vs) = ''['' @ join '','' (map (json_to_vec X) vs) @ '']''"
| "json_to_vec X (JObject kvs) =
     ''{'' @ join '','' (map (write_entry X) (map (map_prod (\<lambda>k. k) (json_to_vec X)) kvs)) @ ''}''"

definition invalid_spec :: "nat \<Rightarrow> string \<Rightarrow> string \<Rightarrow> (registry_error, unit) rust_result" where
  "invalid_spec index field message = Err (InvalidSpec index field message)"

definition validate_required :: "nat \<Rightarrow> string \<Rightarrow> json \<Rightarrow> (registry_error, unit) rust_result" where
  "validate_required index field schema =
     (case json_get schema ''required'' of
        None \<Rightarrow> Ok ()
      | Some (JArray entries) \<Rightarrow>
          if list_ex (\<lambda>e. json_as_str e = None) entries
          then invalid_spec index field ''required entries must be strings'' else Ok ()
      | Some _ \<Rightarrow> invalid_spec index field ''required must be an array'')"

definition validate_schema :: "externals \<Rightarrow> nat \<Rightarrow> string \<Rightarrow> json \<Rightarrow> (registry_error, unit) rust_result" where
  "validate_schema X index field schema =
     (let encoded = length (json_to_vec X schema) in
      if encoded > max_tool_schema_bytes then Err (SpecLimit index field encoded max_tool_schema_bytes)
      else if \<not> json_is_object schema then invalid_spec index field ''schema root must be an object''
      else if json_get schema ''type'' \<noteq> Some (JString ''object'')
      then invalid_spec index field ''schema root type must be object''
      else if (case json_get schema ''properties'' of None \<Rightarrow> False | Some p \<Rightarrow> \<not> json_is_object p)
      then invalid_spec index field ''properties must be an object''
      else validate_required index field schema)"

definition validate_nonzero_limit :: "nat \<Rightarrow> string \<Rightarrow> nat \<Rightarrow> nat \<Rightarrow> (registry_error, unit) rust_result" where
  "validate_nonzero_limit index field v limit =
     (if v = 0 \<or> v > limit then Err (SpecLimit index field v limit) else Ok ())"

definition is_absolute :: "string \<Rightarrow> bool" where
  "is_absolute path \<longleftrightarrow> path \<noteq> [] \<and> hd path = CHR ''/''"

definition escapes :: "string \<Rightarrow> bool" where
  "escapes path \<longleftrightarrow> list_ex (\<lambda>c. c = ParentDir \<or> c = RootDir) (components path)"

definition validate_template_path :: "nat \<Rightarrow> path_scope \<Rightarrow> (registry_error, unit) rust_result" where
  "validate_template_path index scope =
     (if ps_path scope = [] \<or> is_absolute (ps_path scope) \<or> escapes (ps_path scope)
      then Err (InvalidSpec index ''effect_template'' (''invalid workspace-relative path scope: '' @ ps_path scope))
      else Ok ())"

definition option_list :: "'a option \<Rightarrow> 'a list" where
  "option_list v = (case v of None \<Rightarrow> [] | Some x \<Rightarrow> [x])"

definition effect_strings :: "effect_set \<Rightarrow> string list" where
  "effect_strings e =
     map ps_path (es_filesystem_read e @ es_filesystem_write e @ es_filesystem_delete e) @
     concat (map (\<lambda>p. pe_executable p # option_list (pe_argument_digest p)) (es_processes e)) @
     concat (map (\<lambda>n. [ne_scheme n, ne_host n]) (es_network e)) @
     map sh_name (es_secrets e) @
     concat (map (\<lambda>x. [ee_system x, ee_operation x] @ option_list (ee_resource x)) (es_external_writes e))"

definition effect_entry_count :: "effect_set \<Rightarrow> nat" where
  "effect_entry_count e =
     foldl saturating_add (length (es_filesystem_read e))
       [length (es_filesystem_write e), length (es_filesystem_delete e), length (es_processes e),
        length (es_network e), length (es_secrets e), length (es_external_writes e)]"

fun first_error :: "('a \<Rightarrow> ('e, unit) rust_result) \<Rightarrow> 'a list \<Rightarrow> ('e, unit) rust_result" where
  "first_error f [] = Ok ()"
| "first_error f (x # xs) = rbind (f x) (\<lambda>_. first_error f xs)"

definition validate_effect_template :: "nat \<Rightarrow> tool_spec \<Rightarrow> (registry_error, unit) rust_result" where
  "validate_effect_template index spec =
     (let effects = sp_effect_template spec in
      if effect_entry_count effects > max_effect_entries
      then Err (SpecLimit index ''effect_template_entries'' (effect_entry_count effects) max_effect_entries)
      else if sp_concurrency spec = StructuredReadOnly \<and> \<not> is_read_only effects
      then Err (InvalidSpec index ''effect_template''
                  ''structured_read_only tools must have read-only effect templates'')
      else
        rbind (first_error (validate_template_path index)
                 (es_filesystem_read effects @ es_filesystem_write effects @ es_filesystem_delete effects)) (\<lambda>_.
        first_error (\<lambda>v. if length v > max_effect_string_bytes
                         then Err (SpecLimit index ''effect_template_string'' (length v) max_effect_string_bytes)
                         else Ok ()) (effect_strings effects)))"

definition validate_spec :: "externals \<Rightarrow> nat \<Rightarrow> tool_spec \<Rightarrow> (registry_error, unit) rust_result" where
  "validate_spec X index spec =
     rbind (validate_identifier index ''id'' (sp_id spec) max_tool_id_bytes is_tool_id_character) (\<lambda>_.
     rbind (validate_identifier index ''version'' (sp_version spec) max_tool_version_bytes
              is_tool_version_character) (\<lambda>_.
     rbind (validate_nonempty_bounded index ''description'' (sp_description spec) max_tool_description_bytes) (\<lambda>_.
     rbind (validate_schema X index ''input_schema'' (sp_input_schema spec)) (\<lambda>_.
     rbind (validate_schema X index ''output_schema'' (sp_output_schema spec)) (\<lambda>_.
     rbind (validate_nonzero_limit index ''timeout_ms'' (sp_timeout_ms spec) max_tool_timeout_ms) (\<lambda>_.
     rbind (validate_nonzero_limit index ''inline_output_budget_bytes''
              (sp_inline_output_budget_bytes spec) max_tool_inline_output_bytes) (\<lambda>_.
     validate_effect_template index spec)))))))"

section \<open>Concrete effects against the template\<close>

definition is_safe_concrete_path :: "string \<Rightarrow> bool" where
  "is_safe_concrete_path path \<longleftrightarrow> \<not> is_absolute path \<and> \<not> escapes path"

definition path_scope_contains :: "path_scope \<Rightarrow> path_scope \<Rightarrow> bool" where
  "path_scope_contains template concrete \<longleftrightarrow>
     (if ps_recursive template
      then components (ps_path template) = components ''.'' \<or> path_starts_with (ps_path concrete) (ps_path template)
      else components (ps_path template) = components (ps_path concrete) \<and> \<not> ps_recursive concrete)"

definition scopes_are_subset :: "path_scope list \<Rightarrow> path_scope list \<Rightarrow> bool" where
  "scopes_are_subset concrete templates \<longleftrightarrow>
     list_all (\<lambda>scope. ps_resolved scope \<and> is_safe_concrete_path (ps_path scope) \<and>
       list_ex (\<lambda>template. path_scope_contains template scope) templates) concrete"

definition process_allowed :: "process_effect \<Rightarrow> process_effect \<Rightarrow> bool" where
  "process_allowed allowed effect \<longleftrightarrow>
     (pe_executable allowed = ''*'' \<or> pe_executable allowed = pe_executable effect) \<and>
     (pe_argument_digest allowed = None \<or> pe_argument_digest allowed = pe_argument_digest effect) \<and>
     (\<not> pe_may_spawn_children effect \<or> pe_may_spawn_children allowed)"

definition effects_within :: "effect_set \<Rightarrow> effect_set \<Rightarrow> bool" where
  "effects_within template concrete \<longleftrightarrow>
     scopes_are_subset (es_filesystem_read concrete) (es_filesystem_read template) \<and>
     scopes_are_subset (es_filesystem_write concrete) (es_filesystem_write template) \<and>
     scopes_are_subset (es_filesystem_delete concrete) (es_filesystem_delete template) \<and>
     list_all (\<lambda>effect. list_ex (\<lambda>allowed. process_allowed allowed effect) (es_processes template)) (es_processes concrete) \<and>
     list_all (\<lambda>effect. effect \<in> set (es_network template)) (es_network concrete) \<and>
     list_all (\<lambda>effect. effect \<in> set (es_secrets template)) (es_secrets concrete) \<and>
     list_all (\<lambda>effect. effect \<in> set (es_external_writes template)) (es_external_writes concrete) \<and>
     es_idempotency concrete = es_idempotency template \<and> es_reversibility concrete = es_reversibility template"

definition verify_effect_subset :: "tool_spec \<Rightarrow> effect_set \<Rightarrow> (registry_error, unit) rust_result" where
  "verify_effect_subset spec concrete =
     (if \<not> effects_within (sp_effect_template spec) concrete
      then Err (EffectEscalation (sp_id spec) (sp_version spec)) else Ok ())"

section \<open>The registry\<close>

fun register_all ::
  "externals \<Rightarrow> nat \<Rightarrow> (tool_key, ('w, 'c) registered_tool) btree_map \<Rightarrow> ('w, 'c) registered_tool list \<Rightarrow>
   (registry_error, (tool_key, ('w, 'c) registered_tool) btree_map) rust_result" where
  "register_all X index tools [] = Ok tools"
| "register_all X index tools (r # rs) =
     rbind (validate_spec X index (rt_spec r)) (\<lambda>_.
       let key = key_from_spec (rt_spec r) in
       if \<not> ad_supports (rt_adapter r) key then Err (AdapterIdentityMismatch (fst key) (snd key))
       else if bt_contains tools key then Err (DuplicateTool (fst key) (snd key))
       else register_all X (index + 1) (bt_insert tools key r) rs)"

definition advertised_of :: "(tool_key, ('w, 'c) registered_tool) btree_map \<Rightarrow> tool_spec list" where
  "advertised_of tools = map rt_spec (filter rt_advertised (bt_values tools))"

definition try_new ::
  "externals \<Rightarrow> nat \<Rightarrow> ('w, 'c) registered_tool list \<Rightarrow> (registry_error, ('w, 'c) tool_registry) rust_result" where
  "try_new X seal registrations =
     (if registrations = [] then Err EmptyRegistry
      else if length registrations > max_registered_tools
      then Err (RegistrationLimit (length registrations) max_registered_tools)
      else rbind (register_all X 0 bt_empty registrations) (\<lambda>tools.
        Ok \<lparr>tr_seal = seal, tr_tools = tools, tr_advertised_specs = advertised_of tools\<rparr>))"

definition registered_len :: "('w, 'c) tool_registry \<Rightarrow> nat" where
  "registered_len reg = length (tr_tools reg)"

definition is_registered :: "('w, 'c) tool_registry \<Rightarrow> string \<Rightarrow> string \<Rightarrow> bool" where
  "is_registered reg tool_id tool_version = bt_contains (tr_tools reg) (tool_id, tool_version)"

definition advertised_len :: "('w, 'c) tool_registry \<Rightarrow> nat" where
  "advertised_len reg = length (tr_advertised_specs reg)"

definition advertised_version :: "('w, 'c) tool_registry \<Rightarrow> string \<Rightarrow> string option" where
  "advertised_version reg tool_id =
     map_option sp_version (find (\<lambda>spec. sp_id spec = tool_id) (tr_advertised_specs reg))"

definition registration ::
  "('w, 'c) tool_registry \<Rightarrow> string \<Rightarrow> string \<Rightarrow> (registry_error, ('w, 'c) registered_tool) rust_result" where
  "registration reg tool_id tool_version =
     ok_or (registry_error.UnknownTool tool_id tool_version) (bt_get (tr_tools reg) (tool_id, tool_version))"

definition resolve_exact ::
  "('w, 'c) tool_registry \<Rightarrow> string \<Rightarrow> string \<Rightarrow> (registry_error, tool_spec) rust_result" where
  "resolve_exact reg tool_id tool_version = rbind (registration reg tool_id tool_version) (\<lambda>r. Ok (rt_spec r))"

section \<open>Plans and permits\<close>

record tool_plan =
  tp_registry_seal :: nat
  tp_key :: tool_key
  tp_workspace_identity :: string
  tp_normalized_arguments :: json
  tp_effects :: effect_set
  tp_payload :: planned_payload

record revalidated_tool_plan =
  rp_registry_seal :: nat
  rp_key :: tool_key
  rp_workspace_identity :: string
  rp_normalized_arguments :: json
  rp_effects :: effect_set
  rp_payload :: execution_payload

record execution_permit =
  xp_registry_seal :: nat
  xp_key :: tool_key
  xp_workspace_identity :: string
  xp_normalized_arguments :: json
  xp_effects :: effect_set
  xp_payload :: execution_payload

definition option_num :: "nat option \<Rightarrow> json" where
  "option_num v = (case v of None \<Rightarrow> JNull | Some n \<Rightarrow> JNumber (PosInt n))"

definition file_revision_value :: "file_revision_snapshot \<Rightarrow> json" where
  "file_revision_value r = JObject
     [(''byte_length'', JNumber (PosInt (fr_byte_length r))), (''device'', option_num (fr_device r)),
      (''inode'', option_num (fr_inode r)), (''relative_path'', JString (fr_relative_path r)),
      (''revision'', JString (fr_revision r))]"

fun planned_payload_binding :: "planned_payload \<Rightarrow> json" where
  "planned_payload_binding (PlannedMutation m) =
     JObject [(''base_revision'', file_revision_value (pm_base_revision m))]"
| "planned_payload_binding PlannedRead = JNull"
| "planned_payload_binding (PlannedProcess _) = JNull"

fun execution_payload_binding :: "execution_payload \<Rightarrow> json" where
  "execution_payload_binding (ExecutionMutation m) =
     JObject [(''base_revision'', file_revision_value (pm_base_revision m))]"
| "execution_payload_binding ExecutionRead = JNull"
| "execution_payload_binding (ExecutionProcess _) = JNull"

definition authority_binding_value :: "tool_key \<Rightarrow> string \<Rightarrow> json \<Rightarrow> effect_set \<Rightarrow> json \<Rightarrow> json" where
  "authority_binding_value key identity arguments effects payload = JObject
     [(''effects'', effect_set_value effects), (''normalized_arguments'', arguments), (''payload'', payload),
      (''tool_id'', JString (fst key)), (''tool_version'', JString (snd key)),
      (''workspace_identity'', JString identity)]"

definition plan_authority_binding_digest :: "externals \<Rightarrow> tool_plan \<Rightarrow> string" where
  "plan_authority_binding_digest X p =
     digest_value X (authority_binding_value (tp_key p) (tp_workspace_identity p) (tp_normalized_arguments p)
       (tp_effects p) (planned_payload_binding (tp_payload p)))"

definition revalidated_authority_binding_digest :: "externals \<Rightarrow> revalidated_tool_plan \<Rightarrow> string" where
  "revalidated_authority_binding_digest X p =
     digest_value X (authority_binding_value (rp_key p) (rp_workspace_identity p) (rp_normalized_arguments p)
       (rp_effects p) (execution_payload_binding (rp_payload p)))"

definition unified_diff :: "tool_plan \<Rightarrow> string option" where
  "unified_diff p =
     (case tp_payload p of
        PlannedMutation m \<Rightarrow>
          let diff = ds_unified_diff (pm_diff_summary m) in if is_blank diff then None else Some diff
      | _ \<Rightarrow> None)"

definition into_execution_permit :: "revalidated_tool_plan \<Rightarrow> execution_permit" where
  "into_execution_permit p =
     \<lparr>xp_registry_seal = rp_registry_seal p, xp_key = rp_key p, xp_workspace_identity = rp_workspace_identity p,
      xp_normalized_arguments = rp_normalized_arguments p, xp_effects = rp_effects p, xp_payload = rp_payload p\<rparr>"

definition plan ::
  "('w, 'c) tool_registry \<Rightarrow> 'w \<Rightarrow> string \<Rightarrow> string \<Rightarrow> json \<Rightarrow> (registry_error, tool_plan) rust_result" where
  "plan reg w tool_id tool_version arguments =
     rbind (registration reg tool_id tool_version) (\<lambda>r.
     rbind (ad_plan (rt_adapter r) w arguments) (\<lambda>p.
     rbind (verify_effect_subset (rt_spec r) (ap_effects p)) (\<lambda>_.
     Ok \<lparr>tp_registry_seal = tr_seal reg, tp_key = (tool_id, tool_version),
         tp_workspace_identity = ap_workspace_identity p, tp_normalized_arguments = ap_normalized_arguments p,
         tp_effects = ap_effects p, tp_payload = ap_payload p\<rparr>)))"

definition revalidate ::
  "('w, 'c) tool_registry \<Rightarrow> 'w \<Rightarrow> tool_plan \<Rightarrow> (registry_error, revalidated_tool_plan) rust_result" where
  "revalidate reg w p =
     (if tr_seal reg \<noteq> tp_registry_seal p then Err ForeignPlan
      else
        rbind (registration reg (fst (tp_key p)) (snd (tp_key p))) (\<lambda>r.
        rbind (ad_revalidate (rt_adapter r) w (tp_workspace_identity p) (tp_normalized_arguments p)
                 (tp_effects p) (tp_payload p)) (\<lambda>current.
        if ar_workspace_identity current \<noteq> tp_workspace_identity p then Err (PlanChanged ''workspace_identity'')
        else if ar_normalized_arguments current \<noteq> tp_normalized_arguments p
        then Err (PlanChanged ''normalized_arguments'')
        else if ar_effects current \<noteq> tp_effects p then Err (PlanChanged ''effects'')
        else
          rbind (verify_effect_subset (rt_spec r) (ar_effects current)) (\<lambda>_.
          Ok \<lparr>rp_registry_seal = tp_registry_seal p, rp_key = tp_key p,
              rp_workspace_identity = ar_workspace_identity current,
              rp_normalized_arguments = ar_normalized_arguments current,
              rp_effects = ar_effects current, rp_payload = ar_payload current\<rparr>))))"

text \<open>Execution: the world after the call and the result.\<close>

type_synonym 'w executed = "'w \<times> (registry_error, json) rust_result"

definition admit_permit ::
  "('w, 'c) tool_registry \<Rightarrow> execution_permit \<Rightarrow> (registry_error, ('w, 'c) tool_adapter) rust_result" where
  "admit_permit reg permit =
     (if tr_seal reg \<noteq> xp_registry_seal permit then Err ForeignExecutionPermit
      else
        rbind (registration reg (fst (xp_key permit)) (snd (xp_key permit))) (\<lambda>r.
        rbind (verify_effect_subset (rt_spec r) (xp_effects permit)) (\<lambda>_. Ok (rt_adapter r))))"

definition execute_async :: "('w, 'c) tool_registry \<Rightarrow> 'w \<Rightarrow> execution_permit \<Rightarrow> 'w executed" where
  "execute_async reg w permit =
     (case admit_permit reg permit of
        Inl e \<Rightarrow> (w, Err e)
      | Inr adapter \<Rightarrow> ad_execute_async adapter w (xp_normalized_arguments permit) (xp_payload permit))"

definition execute_with_control ::
  "('w, 'c) tool_registry \<Rightarrow> 'w \<Rightarrow> execution_permit \<Rightarrow> 'c option \<Rightarrow> 'w executed" where
  "execute_with_control reg w permit control =
     (case admit_permit reg permit of
        Inl e \<Rightarrow> (w, Err e)
      | Inr adapter \<Rightarrow> ad_execute adapter w (xp_normalized_arguments permit) (xp_payload permit) control)"

definition registry_execute :: "('w, 'c) tool_registry \<Rightarrow> 'w \<Rightarrow> execution_permit \<Rightarrow> 'w executed" where
  "registry_execute reg w permit = execute_with_control reg w permit None"

text \<open>
  A call plans, revalidates and executes at three moments; other programs may change the world
  in between.
\<close>

record 'w moments =
  at_plan :: 'w
  at_revalidate :: 'w
  at_execute :: 'w

definition execute_read_only_bound_with_control ::
  "('w, 'c) tool_registry \<Rightarrow> 'w moments \<Rightarrow> string \<Rightarrow> string \<Rightarrow> string \<Rightarrow> json \<Rightarrow> effect_set \<Rightarrow> 'c option \<Rightarrow>
   'w executed" where
  "execute_read_only_bound_with_control reg ws tool_id tool_version identity arguments effects control =
     (case rbind (plan reg (at_plan ws) tool_id tool_version arguments) (revalidate reg (at_revalidate ws)) of
        Inl e \<Rightarrow> (at_execute ws, Err e)
      | Inr p \<Rightarrow>
          if rp_workspace_identity p \<noteq> identity then (at_execute ws, Err (PlanChanged ''workspace_identity''))
          else if rp_normalized_arguments p \<noteq> arguments
          then (at_execute ws, Err (PlanChanged ''normalized_arguments''))
          else if rp_effects p \<noteq> effects then (at_execute ws, Err (PlanChanged ''effects''))
          else if \<not> is_read_only (rp_effects p)
          then (at_execute ws, Err (EffectEscalation tool_id tool_version))
          else execute_with_control reg (at_execute ws) (into_execution_permit p) control)"

definition execute_read_only_bound ::
  "('w, 'c) tool_registry \<Rightarrow> 'w moments \<Rightarrow> string \<Rightarrow> string \<Rightarrow> string \<Rightarrow> json \<Rightarrow> effect_set \<Rightarrow> 'w executed" where
  "execute_read_only_bound reg ws tool_id tool_version identity arguments effects =
     execute_read_only_bound_with_control reg ws tool_id tool_version identity arguments effects None"

definition execute_read_only_with_control ::
  "('w, 'c) tool_registry \<Rightarrow> 'w moments \<Rightarrow> string \<Rightarrow> string \<Rightarrow> json \<Rightarrow> 'c option \<Rightarrow> 'w executed" where
  "execute_read_only_with_control reg ws tool_id tool_version arguments control =
     (case plan reg (at_plan ws) tool_id tool_version arguments of
        Inl e \<Rightarrow> (at_execute ws, Err e)
      | Inr p \<Rightarrow>
          if \<not> is_read_only (tp_effects p) then (at_execute ws, Err (EffectEscalation tool_id tool_version))
          else (case revalidate reg (at_revalidate ws) p of
             Inl e \<Rightarrow> (at_execute ws, Err e)
           | Inr q \<Rightarrow>
               if \<not> is_read_only (rp_effects q) then (at_execute ws, Err (EffectEscalation tool_id tool_version))
               else execute_with_control reg (at_execute ws) (into_execution_permit q) control))"

definition execute_read_only ::
  "('w, 'c) tool_registry \<Rightarrow> 'w moments \<Rightarrow> string \<Rightarrow> string \<Rightarrow> json \<Rightarrow> 'w executed" where
  "execute_read_only reg ws tool_id tool_version arguments =
     execute_read_only_with_control reg ws tool_id tool_version arguments None"

section \<open>What a registry contains\<close>

text \<open>The declarative content of the checks on a specification.\<close>

definition identifier_valid :: "string \<Rightarrow> nat \<Rightarrow> (char \<Rightarrow> bool) \<Rightarrow> bool" where
  "identifier_valid v limit allowed \<longleftrightarrow>
     \<not> is_blank v \<and> length v \<le> limit \<and> trim v = v \<and> is_ascii v \<and> is_ascii_alphanumeric (hd v) \<and> list_all allowed v"

definition schema_valid :: "externals \<Rightarrow> json \<Rightarrow> bool" where
  "schema_valid X schema \<longleftrightarrow>
     length (json_to_vec X schema) \<le> max_tool_schema_bytes \<and> json_is_object schema \<and>
     json_get schema ''type'' = Some (JString ''object'') \<and>
     (\<forall>p. json_get schema ''properties'' = Some p \<longrightarrow> json_is_object p) \<and>
     (\<forall>r. json_get schema ''required'' = Some r \<longrightarrow> (\<exists>names. r = JArray (map JString names)))"

definition template_valid :: "concurrency_class \<Rightarrow> effect_set \<Rightarrow> bool" where
  "template_valid concurrency e \<longleftrightarrow>
     effect_entry_count e \<le> max_effect_entries \<and> (concurrency = StructuredReadOnly \<longrightarrow> is_read_only e) \<and>
     (\<forall>scope \<in> set (es_filesystem_read e @ es_filesystem_write e @ es_filesystem_delete e).
        ps_path scope \<noteq> [] \<and> is_safe_concrete_path (ps_path scope)) \<and>
     (\<forall>v \<in> set (effect_strings e). length v \<le> max_effect_string_bytes)"

definition spec_valid :: "externals \<Rightarrow> tool_spec \<Rightarrow> bool" where
  "spec_valid X spec \<longleftrightarrow>
     identifier_valid (sp_id spec) max_tool_id_bytes is_tool_id_character \<and>
     identifier_valid (sp_version spec) max_tool_version_bytes is_tool_version_character \<and>
     \<not> is_blank (sp_description spec) \<and> length (sp_description spec) \<le> max_tool_description_bytes \<and>
     schema_valid X (sp_input_schema spec) \<and> schema_valid X (sp_output_schema spec) \<and>
     0 < sp_timeout_ms spec \<and> sp_timeout_ms spec \<le> max_tool_timeout_ms \<and>
     0 < sp_inline_output_budget_bytes spec \<and> sp_inline_output_budget_bytes spec \<le> max_tool_inline_output_bytes \<and>
     template_valid (sp_concurrency spec) (sp_effect_template spec)"

lemma first_error_Ok: "first_error f xs = Ok () \<longleftrightarrow> (\<forall>x \<in> set xs. f x = Ok ())"
  by (induction xs) (auto simp: rbind_eq_Inr)

lemma validate_nonempty_bounded_Ok:
  "validate_nonempty_bounded i field v limit = Ok () \<longleftrightarrow> \<not> is_blank v \<and> length v \<le> limit"
  by (auto simp: validate_nonempty_bounded_def)

lemma validate_identifier_Ok:
  "validate_identifier i field v limit allowed = Ok () \<longleftrightarrow> identifier_valid v limit allowed"
  by (cases v) (auto simp: validate_identifier_def rbind_eq_Inr validate_nonempty_bounded_Ok identifier_valid_def)

lemma strings_only: "\<not> list_ex (\<lambda>e. json_as_str e = None) es \<longleftrightarrow> (\<exists>names. es = map JString names)"
proof (induction es)
  case (Cons e es)
  have "json_as_str e = Some s \<longleftrightarrow> e = JString s" for s by (cases e) (auto simp: json_as_str_def)
  then have "json_as_str e \<noteq> None \<longleftrightarrow> (\<exists>s. e = JString s)" by auto
  then show ?case using Cons.IH by (auto simp: Cons_eq_map_conv)
qed simp

lemma validate_required_Ok:
  "validate_required i field schema = Ok () \<longleftrightarrow>
     (\<forall>r. json_get schema ''required'' = Some r \<longrightarrow> (\<exists>names. r = JArray (map JString names)))"
proof (cases "json_get schema ''required''")
  case None
  then show ?thesis by (simp add: validate_required_def)
next
  case (Some r)
  then show ?thesis
  proof (cases r)
    case (JArray es)
    show ?thesis using strings_only [of es] Some JArray
      by (auto simp: validate_required_def invalid_spec_def)
  qed (simp_all add: validate_required_def invalid_spec_def)
qed

lemma validate_schema_Ok: "validate_schema X i field schema = Ok () \<longleftrightarrow> schema_valid X schema"
  by (auto simp: validate_schema_def schema_valid_def invalid_spec_def validate_required_Ok Let_def
      split: option.splits)

lemma validate_effect_template_Ok:
  "validate_effect_template i spec = Ok () \<longleftrightarrow> template_valid (sp_concurrency spec) (sp_effect_template spec)"
proof -
  have path: "validate_template_path i scope = Ok () \<longleftrightarrow> ps_path scope \<noteq> [] \<and> is_safe_concrete_path (ps_path scope)" for scope
    by (auto simp: validate_template_path_def is_safe_concrete_path_def)
  have bytes: "(if length v > max_effect_string_bytes then Err e else Ok ()) = Ok () \<longleftrightarrow> length v \<le> max_effect_string_bytes"
    for v :: string and e :: registry_error by auto
  show ?thesis
    unfolding validate_effect_template_def template_valid_def Let_def
    by (simp add: rbind_eq_Inr first_error_Ok path bytes not_less)
qed

lemma validate_spec_Ok: "validate_spec X i spec = Ok () \<longleftrightarrow> spec_valid X spec"
proof -
  have limit: "validate_nonzero_limit i field v limit = Ok () \<longleftrightarrow> 0 < v \<and> v \<le> limit" for field v limit
    by (auto simp: validate_nonzero_limit_def)
  show ?thesis
    by (simp add: validate_spec_def spec_valid_def rbind_eq_Inr validate_identifier_Ok validate_nonempty_bounded_Ok
        validate_schema_Ok validate_effect_template_Ok limit)
qed

text \<open>A registration that is admitted on its own.\<close>

definition registration_valid :: "externals \<Rightarrow> ('w, 'c) registered_tool \<Rightarrow> bool" where
  "registration_valid X r \<longleftrightarrow> spec_valid X (rt_spec r) \<and> ad_supports (rt_adapter r) (key_from_spec (rt_spec r))"

abbreviation key_of :: "('w, 'c) registered_tool \<Rightarrow> tool_key" where
  "key_of r \<equiv> key_from_spec (rt_spec r)"

lemma register_all_Ok:
  "register_all X i tools rs = Ok m \<longleftrightarrow>
     (\<forall>r \<in> set rs. registration_valid X r) \<and> distinct (map key_of rs) \<and> (\<forall>r \<in> set rs. \<not> bt_contains tools (key_of r)) \<and>
     m = foldl (\<lambda>m r. bt_insert m (key_of r) r) tools rs"
proof (induction rs arbitrary: i tools)
  case (Cons r rs)
  show ?case
    using Cons.IH validate_spec_Ok [of X i "rt_spec r"]
    by (auto simp: rbind_eq_Inr Let_def registration_valid_def image_iff split: if_splits)
qed auto

lemma foldl_insert:
  assumes "bt_wf m" and "distinct (map key_of rs)" and "\<forall>r \<in> set rs. \<not> bt_contains m (key_of r)"
  shows "bt_wf (foldl (\<lambda>m r. bt_insert m (key_of r) r) m rs) \<and>
    length (foldl (\<lambda>m r. bt_insert m (key_of r) r) m rs) = length m + length rs \<and>
    (\<forall>k v. bt_get (foldl (\<lambda>m r. bt_insert m (key_of r) r) m rs) k = Some v \<longleftrightarrow>
       bt_get m k = Some v \<or> (v \<in> set rs \<and> key_of v = k))"
  using assms
proof (induction rs arbitrary: m)
  case (Cons r rs)
  let ?m = "bt_insert m (key_of r) r"
  have "\<forall>x \<in> set rs. \<not> bt_contains ?m (key_of x)" using Cons.prems(2,3) by (auto simp: rev_image_eqI)
  with Cons have ih: "bt_wf (foldl (\<lambda>m r. bt_insert m (key_of r) r) ?m rs) \<and>
    length (foldl (\<lambda>m r. bt_insert m (key_of r) r) ?m rs) = length ?m + length rs \<and>
    (\<forall>k v. bt_get (foldl (\<lambda>m r. bt_insert m (key_of r) r) ?m rs) k = Some v \<longleftrightarrow>
       bt_get ?m k = Some v \<or> (v \<in> set rs \<and> key_of v = k))" by simp
  have len: "length ?m = Suc (length m)" using Cons.prems by (intro length_bt_insert_new) auto
  have new: "bt_get m (key_of r) = None" using Cons.prems(3) by (simp add: bt_contains_def)
  show ?case using ih len new by auto
qed auto

text \<open>What \<open>try_new\<close> establishes and every later operation relies on.\<close>

definition registry_wf :: "externals \<Rightarrow> ('w, 'c) tool_registry \<Rightarrow> bool" where
  "registry_wf X reg \<longleftrightarrow>
     bt_wf (tr_tools reg) \<and> length (tr_tools reg) \<le> max_registered_tools \<and>
     (\<forall>k r. bt_get (tr_tools reg) k = Some r \<longrightarrow> key_of r = k \<and> registration_valid X r) \<and>
     tr_advertised_specs reg = advertised_of (tr_tools reg)"

lemma advertised_keys_sorted:
  assumes "bt_wf m" and "\<And>k r. bt_get m k = Some r \<Longrightarrow> key_of r = k"
  shows "sorted_wrt (<) (map key_from_spec (advertised_of m))"
proof -
  have key: "key_of (snd e) = fst e" if "e \<in> set m" for e
    using that assms(2) bt_mem_get [OF assms(1)] by (metis prod.collapse)
  have "map key_from_spec (advertised_of m) = map fst (filter (\<lambda>e. rt_advertised (snd e)) m)"
    using key by (auto simp: advertised_of_def bt_values_def filter_map o_def)
  then show ?thesis using bt_wf_filter [OF assms(1)] by (simp add: bt_wf_def)
qed

lemma try_new_Ok:
  assumes "try_new X seal rs = Ok reg"
  shows "registry_wf X reg \<and> tr_seal reg = seal \<and> registered_len reg = length rs \<and>
    (\<forall>k r. bt_get (tr_tools reg) k = Some r \<longleftrightarrow> r \<in> set rs \<and> key_of r = k)"
proof -
  let ?m = "foldl (\<lambda>m r. bt_insert m (key_of r) r) bt_empty rs"
  have valid: "\<forall>r \<in> set rs. registration_valid X r" and d: "distinct (map key_of rs)"
    and len: "length rs \<le> max_registered_tools"
    and reg: "reg = \<lparr>tr_seal = seal, tr_tools = ?m, tr_advertised_specs = advertised_of ?m\<rparr>"
    using assms by (auto simp: try_new_def rbind_eq_Inr register_all_Ok split: if_splits)
  have "bt_wf ?m \<and> length ?m = length rs \<and> (\<forall>k v. bt_get ?m k = Some v \<longleftrightarrow> v \<in> set rs \<and> key_of v = k)"
    using foldl_insert [of bt_empty rs] d by (simp add: bt_empty_def)
  then show ?thesis using valid len by (auto simp: reg registry_wf_def registered_len_def)
qed

section \<open>What the executors do\<close>

lemma registration_Ok: "registration reg i v = Ok r \<longleftrightarrow> bt_get (tr_tools reg) (i, v) = Some r"
  by (simp add: registration_def)

lemma verify_effect_subset_Ok: "verify_effect_subset spec e = Ok () \<longleftrightarrow> effects_within (sp_effect_template spec) e"
  by (simp add: verify_effect_subset_def)

lemma plan_Ok:
  assumes "plan reg w i v args = Ok p"
  shows "tp_registry_seal p = tr_seal reg \<and> tp_key p = (i, v) \<and>
    (\<exists>r ap. registration reg i v = Ok r \<and> ad_plan (rt_adapter r) w args = Ok ap \<and>
       effects_within (sp_effect_template (rt_spec r)) (tp_effects p) \<and>
       tp_workspace_identity p = ap_workspace_identity ap \<and>
       tp_normalized_arguments p = ap_normalized_arguments ap \<and> tp_effects p = ap_effects ap \<and> tp_payload p = ap_payload ap)"
  using assms by (auto simp: plan_def rbind_eq_Inr verify_effect_subset_Ok)

lemma revalidate_Ok:
  assumes "revalidate reg w p = Ok q"
  shows "tr_seal reg = tp_registry_seal p \<and> rp_registry_seal q = tp_registry_seal p \<and> rp_key q = tp_key p \<and>
    rp_workspace_identity q = tp_workspace_identity p \<and> rp_normalized_arguments q = tp_normalized_arguments p \<and>
    rp_effects q = tp_effects p \<and>
    (\<exists>r ar. registration reg (fst (tp_key p)) (snd (tp_key p)) = Ok r \<and>
       ad_revalidate (rt_adapter r) w (tp_workspace_identity p) (tp_normalized_arguments p) (tp_effects p) (tp_payload p) = Ok ar \<and>
       effects_within (sp_effect_template (rt_spec r)) (rp_effects q) \<and> rp_payload q = ar_payload ar)"
  using assms by (auto simp: revalidate_def rbind_eq_Inr verify_effect_subset_Ok split: if_splits)

text \<open>A permit that was minted from a fresh revalidation is always admitted.\<close>

lemma fresh_permit_admitted:
  assumes "revalidate reg w p = Ok q"
  shows "\<exists>r. registration reg (fst (tp_key p)) (snd (tp_key p)) = Ok r \<and>
    admit_permit reg (into_execution_permit q) = Ok (rt_adapter r) \<and>
    effects_within (sp_effect_template (rt_spec r)) (rp_effects q)"
proof -
  note rv = revalidate_Ok [OF assms]
  then obtain r where r: "registration reg (fst (tp_key p)) (snd (tp_key p)) = Ok r"
      "effects_within (sp_effect_template (rt_spec r)) (rp_effects q)" by blast
  then show ?thesis
    using rv by (auto simp: admit_permit_def into_execution_permit_def verify_effect_subset_def)
qed

text \<open>What the template check means for the paths: they stay below the workspace root.\<close>

lemma effects_within_paths:
  assumes "effects_within t e"
  shows "\<forall>scope \<in> set (es_filesystem_read e @ es_filesystem_write e @ es_filesystem_delete e).
    ps_resolved scope \<and> ParentDir \<notin> set (components (ps_path scope)) \<and> RootDir \<notin> set (components (ps_path scope))"
  using assms
  by (auto simp: effects_within_def scopes_are_subset_def is_safe_concrete_path_def escapes_def list_all_iff list_ex_iff)

section \<open>Properties\<close>

text \<open>
  C23: A registry is built exactly from valid tools. Construction succeeds if and only if there
  are between 1 and 128 registrations, every specification is valid, every adapter implements
  the tool it is registered for and no identifier and version occur twice; the registry then
  resolves exactly these tools, and the specifications shown to the provider are those
  registered as advertised, in strictly increasing order of identifier and version.
\<close>

theorem registry_accepts_exactly_valid_tools:
  "((\<exists>reg. try_new X seal rs = Ok reg) \<longleftrightarrow>
     rs \<noteq> [] \<and> length rs \<le> max_registered_tools \<and> (\<forall>r \<in> set rs. registration_valid X r) \<and> distinct (map key_of rs)) \<and>
   (\<forall>reg. try_new X seal rs = Ok reg \<longrightarrow>
     (\<forall>i v r. registration reg i v = Ok r \<longleftrightarrow> r \<in> set rs \<and> key_of r = (i, v)) \<and>
     set (tr_advertised_specs reg) = rt_spec ` {r \<in> set rs. rt_advertised r} \<and>
     sorted_wrt (<) (map key_from_spec (tr_advertised_specs reg)))"
proof (intro conjI allI impI)
  show "(\<exists>reg. try_new X seal rs = Ok reg) \<longleftrightarrow>
     rs \<noteq> [] \<and> length rs \<le> max_registered_tools \<and> (\<forall>r \<in> set rs. registration_valid X r) \<and> distinct (map key_of rs)"
    by (auto simp: try_new_def rbind_eq_Inr register_all_Ok)
next
  fix reg assume ok: "try_new X seal rs = Ok reg"
  note reg = try_new_Ok [OF ok]
  then have wf: "bt_wf (tr_tools reg)" and adv: "tr_advertised_specs reg = advertised_of (tr_tools reg)"
    by (auto simp: registry_wf_def)
  show "registration reg i v = Ok r \<longleftrightarrow> r \<in> set rs \<and> key_of r = (i, v)" for i v r
    using reg by (simp add: registration_Ok)
  show "sorted_wrt (<) (map key_from_spec (tr_advertised_specs reg))"
    using reg unfolding adv by (intro advertised_keys_sorted [OF wf]) auto
  have "set (bt_values (tr_tools reg)) = set rs" using reg bt_values_iff [OF wf] by auto
  then show "set (tr_advertised_specs reg) = rt_spec ` {r \<in> set rs. rt_advertised r}"
    unfolding adv by (auto simp: advertised_of_def)
qed

text \<open>
  C21: The read-only executor runs exactly the persisted proposal. Whatever the adapters answer,
  either the call fails and the world is untouched, or the live preparation has the expected
  workspace identity, arguments and effects, the effects are read-only, lie within the tool's
  registered template and name only paths below the workspace, and what runs is the adapter
  registered under exactly this identifier and version, on its own revalidated payload.
\<close>

theorem bound_read_executes_only_the_proposal:
  assumes "execute_read_only_bound_with_control reg ws i v identity args effects control = (w', res)"
  shows "(w' = at_execute ws \<and> (\<exists>e. res = Err e)) \<or>
    (\<exists>r ap ar. registration reg i v = Ok r \<and> is_read_only effects \<and>
       effects_within (sp_effect_template (rt_spec r)) effects \<and>
       (\<forall>scope \<in> set (es_filesystem_read effects). ParentDir \<notin> set (components (ps_path scope)) \<and>
          RootDir \<notin> set (components (ps_path scope))) \<and>
       ad_plan (rt_adapter r) (at_plan ws) args = Ok ap \<and> ap_workspace_identity ap = identity \<and>
       ap_normalized_arguments ap = args \<and> ap_effects ap = effects \<and>
       ad_revalidate (rt_adapter r) (at_revalidate ws) identity args effects (ap_payload ap) = Ok ar \<and>
       (w', res) = ad_execute (rt_adapter r) (at_execute ws) args (ar_payload ar) control)"
proof (cases "rbind (plan reg (at_plan ws) i v args) (revalidate reg (at_revalidate ws))")
  case (Inl e)
  then show ?thesis using assms by (auto simp: execute_read_only_bound_with_control_def)
next
  case (Inr q)
  then obtain p where p: "plan reg (at_plan ws) i v args = Ok p" and q: "revalidate reg (at_revalidate ws) p = Ok q"
    by (auto simp: rbind_eq_Inr)
  note pl = plan_Ok [OF p] and rv = revalidate_Ok [OF q]
  show ?thesis
  proof (cases "rp_workspace_identity q = identity \<and> rp_normalized_arguments q = args \<and> rp_effects q = effects \<and> is_read_only effects")
    case False
    then show ?thesis using assms Inr by (auto simp: execute_read_only_bound_with_control_def split: if_splits)
  next
    case True
    then have run: "(w', res) = execute_with_control reg (at_execute ws) (into_execution_permit q) control"
      using assms Inr by (auto simp: execute_read_only_bound_with_control_def)
    from fresh_permit_admitted [OF q] pl obtain r where r: "registration reg i v = Ok r"
        "admit_permit reg (into_execution_permit q) = Ok (rt_adapter r)"
        "effects_within (sp_effect_template (rt_spec r)) effects" using True by auto
    have ex: "(w', res) = ad_execute (rt_adapter r) (at_execute ws) args (rp_payload q) control"
      using run r(2) True by (simp add: execute_with_control_def into_execution_permit_def)
    obtain ap where ap: "ad_plan (rt_adapter r) (at_plan ws) args = Ok ap" "ap_workspace_identity ap = identity"
        "ap_normalized_arguments ap = args" "ap_effects ap = effects" "tp_payload p = ap_payload ap"
      using pl r(1) rv True by auto
    obtain ar where ar: "ad_revalidate (rt_adapter r) (at_revalidate ws) identity args effects (ap_payload ap) = Ok ar"
        "rp_payload q = ar_payload ar"
      using rv r(1) pl True ap by auto
    show ?thesis using r(1,3) True ap ar ex effects_within_paths [OF r(3)] by (intro disjI2) auto
  qed
qed

section \<open>Witnesses\<close>

definition workspace_scope :: "string \<Rightarrow> bool \<Rightarrow> path_scope" where
  "workspace_scope path resolved = \<lparr>ps_path = path, ps_recursive = True, ps_resolved = resolved\<rparr>"

definition read_effects :: "string \<Rightarrow> bool \<Rightarrow> effect_set" where
  "read_effects path resolved = default_effects
     \<lparr>es_filesystem_read := [workspace_scope path resolved], es_idempotency := Idempotent,
      es_reversibility := Reversible\<rparr>"

definition sample_spec :: "string \<Rightarrow> tool_spec" where
  "sample_spec i =
     \<lparr>sp_id = i, sp_version = ''1'', sp_description = ''List files'',
      sp_input_schema = JObject [(''type'', JString ''object'')],
      sp_output_schema = JObject [(''type'', JString ''object'')],
      sp_effect_template = read_effects ''.'' False, sp_concurrency = StructuredReadOnly,
      sp_timeout_ms = 5, sp_inline_output_budget_bytes = 8\<rparr>"

text \<open>An adapter that lists a fixed directory; the world is the text of an access log.\<close>

definition listing_adapter :: "string \<Rightarrow> effect_set \<Rightarrow> (string, unit) tool_adapter" where
  "listing_adapter i effects =
     \<lparr>ad_supports = (\<lambda>key. key = (i, ''1'')),
      ad_plan = (\<lambda>w args. Ok \<lparr>ap_workspace_identity = ''ws'', ap_normalized_arguments = args,
                                ap_effects = effects, ap_payload = PlannedRead\<rparr>),
      ad_revalidate = (\<lambda>w identity args e payload. Ok \<lparr>ar_workspace_identity = identity,
                                ar_normalized_arguments = args, ar_effects = e, ar_payload = ExecutionRead\<rparr>),
      ad_execute = (\<lambda>w args payload control. (w @ ''read;'', Ok JNull)),
      ad_execute_async = (\<lambda>w args payload. (w @ ''read;'', Ok JNull))\<rparr>"

definition listing_tool :: "string \<Rightarrow> bool \<Rightarrow> (string, unit) registered_tool" where
  "listing_tool i advertised =
     \<lparr>rt_spec = sample_spec i, rt_advertised = advertised, rt_adapter = listing_adapter i (read_effects ''src'' True)\<rparr>"

definition sample_registry :: "(registry_error, (string, unit) tool_registry) rust_result" where
  "sample_registry = try_new plain_externals 7 [listing_tool ''list'' True, listing_tool ''audit'' False]"

lemma sample_spec_valid: "i \<in> {''list'', ''audit''} \<Longrightarrow> registration_valid plain_externals (listing_tool i b)"
  by (elim insertE)
    (simp_all add: registration_valid_def listing_tool_def listing_adapter_def sample_spec_def spec_valid_def key_from_spec_def
      identifier_valid_def schema_valid_def template_valid_def registry_limits read_effects_def workspace_scope_def
      default_effects_def effect_entry_count_def effect_strings_def is_read_only_def is_safe_concrete_path_def
      is_absolute_def escapes_def components_def component_of_def is_ascii_def is_ascii_alphanumeric_def byte_def
      is_tool_id_character_def is_tool_version_character_def is_space1_def is_space2_def is_space3_def trim_def
      json_is_object_def json_get_def join_def write_entry_def plain_str_def saturating_add_def u64_max_def option_list_def
      map_filter_simps)

lemma sample_tools_valid:
  "(\<forall>r \<in> set [listing_tool ''list'' True, listing_tool ''audit'' False]. registration_valid plain_externals r) \<and>
   distinct (map key_of [listing_tool ''list'' True, listing_tool ''audit'' False])"
  using sample_spec_valid by (auto simp: listing_tool_def sample_spec_def key_from_spec_def)

lemma sample_registry_built: "\<exists>reg. sample_registry = Ok reg"
  unfolding sample_registry_def try_new_def rbind_eq_Inr register_all_Ok
  using sample_tools_valid by (simp add: registry_limits rbind_eq_Inr register_all_Ok del: register_all.simps)

theorem registry_accepts_exactly_valid_tools_witness:
  "\<exists>reg. sample_registry = Ok reg \<and> tr_advertised_specs reg = [sample_spec ''list'']"
proof -
  let ?rs = "[listing_tool ''list'' True, listing_tool ''audit'' False]"
  note main = registry_accepts_exactly_valid_tools [of plain_externals 7 ?rs]
  have "length ?rs \<le> max_registered_tools" by (simp add: registry_limits)
  with sample_tools_valid main obtain reg where reg: "sample_registry = Ok reg" by (auto simp: sample_registry_def)
  have "{r \<in> set ?rs. rt_advertised r} = {listing_tool ''list'' True}" by (auto simp: listing_tool_def)
  then have specs: "set (tr_advertised_specs reg) = {sample_spec ''list''}"
      "sorted_wrt (<) (map key_from_spec (tr_advertised_specs reg))"
    using main reg by (simp_all add: sample_registry_def listing_tool_def)
  then have "distinct (tr_advertised_specs reg)" by (metis distinct_map strict_sorted_iff)
  then have "length (tr_advertised_specs reg) = 1" using distinct_card specs(1) by fastforce
  then have "tr_advertised_specs reg = [sample_spec ''list'']" using specs(1) by (cases "tr_advertised_specs reg") auto
  with reg show ?thesis by blast
qed

theorem bound_read_executes_only_the_proposal_witness:
  "\<exists>reg. sample_registry = Ok reg \<and>
     execute_read_only_bound_with_control reg \<lparr>at_plan = [], at_revalidate = [], at_execute = ''log;''\<rparr>
       ''list'' ''1'' ''ws'' JNull (read_effects ''src'' True) None = (''log;read;'', Ok JNull) \<and>
     fst (execute_read_only_bound_with_control reg \<lparr>at_plan = [], at_revalidate = [], at_execute = ''log;''\<rparr>
       ''list'' ''1'' ''other'' JNull (read_effects ''src'' True) None) = ''log;''"
proof -
  let ?rs = "[listing_tool ''list'' True, listing_tool ''audit'' False]"
  obtain reg where reg: "sample_registry = Ok reg" using sample_registry_built by blast
  then have tool: "registration reg ''list'' ''1'' = Ok (listing_tool ''list'' True)"
    using try_new_Ok [of plain_externals 7 ?rs reg]
    by (simp add: sample_registry_def registration_Ok) (simp add: listing_tool_def sample_spec_def key_from_spec_def)
  have within: "effects_within (sp_effect_template (sample_spec ''list'')) (read_effects ''src'' True)"
    by (simp add: effects_within_def sample_spec_def read_effects_def default_effects_def workspace_scope_def
        scopes_are_subset_def is_safe_concrete_path_def is_absolute_def escapes_def components_def component_of_def
        path_scope_contains_def map_filter_simps)
  have ro: "is_read_only (read_effects ''src'' True)" by (simp add: is_read_only_def read_effects_def default_effects_def)
  let ?ws = "\<lparr>at_plan = [], at_revalidate = [], at_execute = ''log;''\<rparr>"
  have run: "execute_read_only_bound_with_control reg ?ws ''list'' ''1'' ''ws'' JNull (read_effects ''src'' True) None =
      (''log;read;'', Ok JNull)"
    using tool within ro
    by (simp add: execute_read_only_bound_with_control_def plan_def revalidate_def verify_effect_subset_def
        listing_tool_def listing_adapter_def execute_with_control_def admit_permit_def into_execution_permit_def)
  have "fst (execute_read_only_bound_with_control reg ?ws ''list'' ''1'' ''other'' JNull (read_effects ''src'' True) None) = ''log;''"
    using bound_read_executes_only_the_proposal [OF prod.collapse [symmetric],
        of reg ?ws "''list''" "''1''" "''other''" JNull "read_effects ''src'' True" None] tool
    by (auto simp: listing_tool_def listing_adapter_def)
  with reg run show ?thesis by blast
qed

end
