(* ===== verification/Invocation_Pipeline.thy ===== *)
theory Invocation_Pipeline
  imports Tool_Registry Approval
begin

text \<open>
  The authority path of side-effecting tools (\<open>yeuxd/src/pipeline.rs\<close>): preparation under
  the policy, the approval, and the execution with its checks and its single-use tokens.
  The tables of issued and consumed tokens are the mutable state; a method returns them with
  its result, because pruning survives a failing call. A clock that the source reads several
  times in one call (\<open>Utc::now()\<close>) is a list of readings, a freshly generated UUID an
  argument. The mutexes protect pure map operations that do not panic, so they are never
  poisoned.

  The theorems: what must hold for an adapter to run (\<open>dispatch\<close>), that a token runs at most
  once in every interleaving of calls under the retention bounds, and that the eviction of the
  oldest consumed token breaks this beyond the capacity.
\<close>

section \<open>Data\<close>

definition nanos :: "int \<Rightarrow> int" where
  "nanos seconds = seconds * 1000000000"

definition DEFAULT_PREPARATION_TTL_SECONDS :: int where
  "DEFAULT_PREPARATION_TTL_SECONDS = 60"

definition MAX_ISSUED_TOKENS :: nat where
  "MAX_ISSUED_TOKENS = 4096"

definition CONSUMED_TOKEN_RETENTION_SECONDS :: int where
  "CONSUMED_TOKEN_RETENTION_SECONDS = DEFAULT_PREPARATION_TTL_SECONDS * 2"

record pipeline_grants =
  pg_host_ceiling :: capability_grant
  pg_user_profile :: capability_grant
  pg_project_trust :: capability_grant
  pg_turn_override :: capability_grant

definition default_pipeline_grants :: pipeline_grants where
  "default_pipeline_grants =
     \<lparr>pg_host_ceiling = observe_grant, pg_user_profile = observe_grant, pg_project_trust = observe_grant,
      pg_turn_override = observe_grant\<rparr>"

record invocation_context =
  ic_invocation_id :: invocation_id
  ic_workspace_id :: workspace_id
  ic_workspace_identity_digest :: string
  ic_thread_id :: thread_id
  ic_turn_id :: turn_id
  ic_agent_id :: agent_id
  ic_grants :: pipeline_grants
  ic_now :: instant
  ic_preparation_ttl :: int

datatype pipeline_error =
    Tool registry_error
  | PolicyDenied "string list"
  | ApprovalDenied
  | ApprovalRequired
  | ClientApprovalBinding
  | Sandbox sandbox_error
  | BindingMismatch string
  | InvalidMode
  | UnknownPreparedToken
  | TokenConsumed
  | PreparationExpired
  | TokenCapacity
  | Approval approval_error
  | Credential string

fun pipeline_error_code :: "pipeline_error \<Rightarrow> string" where
  "pipeline_error_code (Tool e) = registry_error_code e"
| "pipeline_error_code (PolicyDenied _) = ''policy_denied''"
| "pipeline_error_code ApprovalDenied = ''approval_denied''"
| "pipeline_error_code ApprovalRequired = ''approval_required''"
| "pipeline_error_code ClientApprovalBinding = ''client_approval_binding_rejected''"
| "pipeline_error_code (pipeline_error.Sandbox _) = ''sandbox_unavailable''"
| "pipeline_error_code (pipeline_error.BindingMismatch _) = ''invocation_binding_mismatch''"
| "pipeline_error_code InvalidMode = ''invalid_approval_mode''"
| "pipeline_error_code UnknownPreparedToken = ''unknown_prepared_token''"
| "pipeline_error_code TokenConsumed = ''prepared_token_consumed''"
| "pipeline_error_code pipeline_error.PreparationExpired = ''prepared_token_expired''"
| "pipeline_error_code TokenCapacity = ''prepared_token_capacity''"
| "pipeline_error_code (Approval e) = (if e = MissingApproval then ''approval_required'' else ''approval_invalid'')"
| "pipeline_error_code (Credential _) = ''credential_unavailable''"

definition pipeline_outcome_unknown :: "pipeline_error \<Rightarrow> bool" where
  "pipeline_outcome_unknown e = (case e of Tool r \<Rightarrow> registry_outcome_unknown r | _ \<Rightarrow> False)"

record issued_token_binding =
  ib_invocation_digest :: string
  ib_authority_binding_digest :: string
  ib_expires_at :: instant

type_synonym issued_table = "(string, issued_token_binding) btree_map"
type_synonym consumed_table = "(string, instant) btree_map"

record ('w, 'c) invocation_pipeline =
  pl_registry :: "('w, 'c) tool_registry"
  pl_sandbox :: sandbox_backend
  pl_issued_tokens :: issued_table
  pl_consumed_tokens :: consumed_table

definition pipeline_new :: "('w, 'c) tool_registry \<Rightarrow> sandbox_backend \<Rightarrow> ('w, 'c) invocation_pipeline" where
  "pipeline_new registry sandbox =
     \<lparr>pl_registry = registry, pl_sandbox = sandbox, pl_issued_tokens = bt_empty, pl_consumed_tokens = bt_empty\<rparr>"

section \<open>Requirements and bindings\<close>

definition required_mode :: "effect_set \<Rightarrow> (pipeline_error, capability_mode) rust_result" where
  "required_mode e =
     (if es_filesystem_write e = [] \<and> es_filesystem_delete e = [] \<and> es_processes e = [] \<and>
         es_network e = [] \<and> es_secrets e = [] \<and> es_external_writes e = [] then Ok Observe
      else if es_external_writes e \<noteq> [] \<or> es_network e \<noteq> [] then Ok Operate
      else Ok Build)"

definition requirement_for :: "bool \<Rightarrow> bool \<Rightarrow> sandbox_requirement" where
  "requirement_for allow_workspace_write process =
     \<lparr>sr_filesystem_isolation = True, sr_process_isolation = process, sr_network_isolation = True,
      sr_allow_workspace_write = allow_workspace_write, sr_allow_network = False\<rparr>"

definition ensure_for_effects :: "sandbox_backend \<Rightarrow> effect_set \<Rightarrow> (pipeline_error, unit) rust_result" where
  "ensure_for_effects sandbox e =
     (if is_read_only e then Ok ()
      else map_err pipeline_error.Sandbox (ensure sandbox
             (requirement_for (es_filesystem_write e \<noteq> [] \<or> es_filesystem_delete e \<noteq> []) (es_processes e \<noteq> []))))"

definition write_tools_available :: "('w, 'c) invocation_pipeline \<Rightarrow> bool" where
  "write_tools_available pl \<longleftrightarrow>
     is_registered (pl_registry pl) ''workspace.apply_patch'' ''1'' \<and>
     is_ok (ensure (pl_sandbox pl) (requirement_for True False))"

definition process_tools_available :: "('w, 'c) invocation_pipeline \<Rightarrow> bool" where
  "process_tools_available pl \<longleftrightarrow>
     is_registered (pl_registry pl) ''process.run'' ''1'' \<and>
     is_ok (ensure (pl_sandbox pl) (requirement_for False True))"

text \<open>The binding digest: every field of the invocation except its token and its approval.\<close>

definition prepared_binding_value :: "externals \<Rightarrow> prepared_invocation \<Rightarrow> json" where
  "prepared_binding_value X i = JObject
     [(''agent_id'', JString (pi_agent_id i)), (''effect_digest'', JString (pi_effect_digest i)),
      (''effects'', effect_set_value (pi_effects i)), (''expires_at'', JString (time_str X (pi_expires_at i))),
      (''invocation_id'', JString (uuid_str X (pi_invocation_id i))),
      (''normalized_arguments'', pi_normalized_arguments i),
      (''normalized_arguments_digest'', JString (pi_normalized_arguments_digest i)),
      (''prepared_at'', JString (time_str X (pi_prepared_at i))),
      (''thread_id'', JString (uuid_str X (pi_thread_id i))), (''tool_id'', JString (pi_tool_id i)),
      (''tool_version'', JString (pi_tool_version i)), (''turn_id'', JString (uuid_str X (pi_turn_id i))),
      (''workspace_id'', JString (uuid_str X (pi_workspace_id i))),
      (''workspace_identity_digest'', JString (pi_workspace_identity_digest i))]"

definition prepared_binding_digest :: "externals \<Rightarrow> prepared_invocation \<Rightarrow> string" where
  "prepared_binding_digest X i = digest_value X (prepared_binding_value X i)"

definition prune_issued_tokens :: "issued_table \<Rightarrow> instant \<Rightarrow> string option \<Rightarrow> issued_table" where
  "prune_issued_tokens issued now preserve =
     bt_retain (\<lambda>token binding. preserve = Some token \<or> ib_expires_at binding \<ge> now) issued"

definition prune_consumed_tokens :: "consumed_table \<Rightarrow> instant \<Rightarrow> consumed_table" where
  "prune_consumed_tokens consumed now =
     bt_retain (\<lambda>_ consumed_at. consumed_at \<ge> now - nanos CONSUMED_TOKEN_RETENTION_SECONDS) consumed"

section \<open>Preparation\<close>

type_synonym ('w, 'c, 'a) pipeline_result = "('w, 'c) invocation_pipeline \<times> (pipeline_error, 'a) rust_result"

definition policy_input_of :: "invocation_context \<Rightarrow> effect_set \<Rightarrow> policy_input" where
  "policy_input_of ctx effects =
     \<lparr>pin_host_ceiling = pg_host_ceiling (ic_grants ctx), pin_user_profile = pg_user_profile (ic_grants ctx),
      pin_project_trust = pg_project_trust (ic_grants ctx), pin_turn_override = pg_turn_override (ic_grants ctx),
      pin_effects = effects, pin_now = ic_now ctx\<rparr>"

definition effective_mode :: "invocation_context \<Rightarrow> effect_set \<Rightarrow> (pipeline_error, capability_mode) rust_result" where
  "effective_mode ctx effects =
     (case evaluate_policy (policy_input_of ctx effects) of
        Allow effective _ _ \<Rightarrow> Ok (cg_mode effective)
      | Deny _ reasons \<Rightarrow> Err (PolicyDenied reasons))"

definition prepared_of ::
  "externals \<Rightarrow> invocation_context \<Rightarrow> string \<Rightarrow> string \<Rightarrow> tool_plan \<Rightarrow> string \<Rightarrow> prepared_invocation" where
  "prepared_of X ctx tool_id tool_version p token =
     \<lparr>pi_invocation_id = ic_invocation_id ctx, pi_tool_id = tool_id, pi_tool_version = tool_version,
      pi_workspace_id = ic_workspace_id ctx, pi_workspace_identity_digest = ic_workspace_identity_digest ctx,
      pi_thread_id = ic_thread_id ctx, pi_turn_id = ic_turn_id ctx, pi_agent_id = ic_agent_id ctx,
      pi_normalized_arguments = tp_normalized_arguments p,
      pi_normalized_arguments_digest = digest_value X (tp_normalized_arguments p),
      pi_effects = tp_effects p, pi_effect_digest = digest_effects X (tp_effects p),
      pi_prepared_token = token, pi_prepared_at = ic_now ctx, pi_expires_at = ic_now ctx + ic_preparation_ttl ctx,
      pi_approval = None\<rparr>"

text \<open>Everything up to the token table: no state changes here.\<close>

definition prepare_plan ::
  "externals \<Rightarrow> ('w, 'c) invocation_pipeline \<Rightarrow> 'w \<Rightarrow> string \<Rightarrow> string \<Rightarrow> json \<Rightarrow> invocation_context \<Rightarrow> string \<Rightarrow>
   (pipeline_error, tool_plan \<times> prepared_invocation) rust_result" where
  "prepare_plan X pl w tool_id tool_version arguments ctx token =
     rbind (map_err Tool (plan (pl_registry pl) w tool_id tool_version arguments)) (\<lambda>p.
     if tp_workspace_identity p \<noteq> ic_workspace_identity_digest ctx
     then Err (pipeline_error.BindingMismatch ''workspace_identity_digest'')
     else
       rbind (effective_mode ctx (tp_effects p)) (\<lambda>mode.
       rbind (ensure_for_effects (pl_sandbox pl) (tp_effects p)) (\<lambda>_.
       if mode < Build \<and> \<not> is_read_only (tp_effects p) then Err InvalidMode
       else Ok (p, prepared_of X ctx tool_id tool_version p token))))"

definition issue_token ::
  "externals \<Rightarrow> ('w, 'c) invocation_pipeline \<Rightarrow> tool_plan \<Rightarrow> prepared_invocation \<Rightarrow> instant \<Rightarrow>
   ('w, 'c, prepared_invocation) pipeline_result" where
  "issue_token X pl p invocation now =
     (let issued = prune_issued_tokens (pl_issued_tokens pl) now None in
      if length issued \<ge> MAX_ISSUED_TOKENS then (pl\<lparr>pl_issued_tokens := issued\<rparr>, Err TokenCapacity)
      else (pl\<lparr>pl_issued_tokens := bt_insert issued (pi_prepared_token invocation)
                 \<lparr>ib_invocation_digest = prepared_binding_digest X invocation,
                  ib_authority_binding_digest = plan_authority_binding_digest X p,
                  ib_expires_at = pi_expires_at invocation\<rparr>\<rparr>, Ok invocation))"

definition prepare ::
  "externals \<Rightarrow> ('w, 'c) invocation_pipeline \<Rightarrow> 'w \<Rightarrow> string \<Rightarrow> string \<Rightarrow> json \<Rightarrow> invocation_context \<Rightarrow>
   string \<Rightarrow> instant \<Rightarrow> ('w, 'c, prepared_invocation) pipeline_result" where
  "prepare X pl w tool_id tool_version arguments ctx token now =
     (case prepare_plan X pl w tool_id tool_version arguments ctx token of
        Inl e \<Rightarrow> (pl, Err e)
      | Inr (p, invocation) \<Rightarrow> issue_token X pl p invocation now)"

section \<open>Approval\<close>

definition requires_approval :: "prepared_invocation \<Rightarrow> bool" where
  "requires_approval i \<longleftrightarrow> \<not> is_read_only (pi_effects i)"

record approval_request_params =
  aq_invocation :: prepared_invocation
  aq_explanation :: string
  aq_unified_diff :: "string option"

definition approval_request ::
  "('w, 'c) invocation_pipeline \<Rightarrow> 'w \<Rightarrow> prepared_invocation \<Rightarrow> string \<Rightarrow> approval_request_params" where
  "approval_request pl w i explanation =
     \<lparr>aq_invocation = i, aq_explanation = explanation,
      aq_unified_diff =
        (case plan (pl_registry pl) w (pi_tool_id i) (pi_tool_version i) (pi_normalized_arguments i) of
           Inl _ \<Rightarrow> None | Inr p \<Rightarrow> unified_diff p)\<rparr>"

definition ensure_issued ::
  "externals \<Rightarrow> ('w, 'c) invocation_pipeline \<Rightarrow> prepared_invocation \<Rightarrow> instant \<Rightarrow>
   ('w, 'c, issued_token_binding) pipeline_result" where
  "ensure_issued X pl i now =
     (let issued = prune_issued_tokens (pl_issued_tokens pl) now (Some (pi_prepared_token i));
          pl' = pl\<lparr>pl_issued_tokens := issued\<rparr> in
      case bt_get issued (pi_prepared_token i) of
        None \<Rightarrow>
          (pl', Err (if bt_contains (pl_consumed_tokens pl) (pi_prepared_token i)
                     then TokenConsumed else UnknownPreparedToken))
      | Some binding \<Rightarrow>
          if ib_invocation_digest binding \<noteq> prepared_binding_digest X i
          then (pl', Err (pipeline_error.BindingMismatch ''prepared_token_binding''))
          else (pl', Ok binding))"

definition approval_for :: "prepared_invocation \<Rightarrow> capability_mode \<Rightarrow> approval_id \<Rightarrow> approval_binding" where
  "approval_for i mode approval_id =
     \<lparr>ab_approval_id = approval_id, ab_invocation_id = pi_invocation_id i, ab_workspace_id = pi_workspace_id i,
      ab_workspace_identity_digest = pi_workspace_identity_digest i, ab_thread_id = pi_thread_id i,
      ab_turn_id = pi_turn_id i, ab_agent_id = pi_agent_id i, ab_mode = mode, ab_tool_id = pi_tool_id i,
      ab_tool_version = pi_tool_version i, ab_normalized_arguments_digest = pi_normalized_arguments_digest i,
      ab_effect_digest = pi_effect_digest i, ab_granted_effects = pi_effects i, ab_expires_at = pi_expires_at i\<rparr>"

definition approve_once ::
  "externals \<Rightarrow> ('w, 'c) invocation_pipeline \<Rightarrow> prepared_invocation \<Rightarrow> bool \<Rightarrow> instant \<Rightarrow> instant \<Rightarrow> approval_id \<Rightarrow>
   ('w, 'c, prepared_invocation) pipeline_result" where
  "approve_once X pl i approved now_issued now_expiry approval_id =
     (case ensure_issued X pl i now_issued of
        (pl', Inl e) \<Rightarrow> (pl', Err e)
      | (pl', Inr _) \<Rightarrow>
          (pl', if pi_expires_at i < now_expiry then Err pipeline_error.PreparationExpired
                else if \<not> requires_approval i then Ok i
                else if \<not> approved then Err ApprovalDenied
                else rbind (required_mode (pi_effects i)) (\<lambda>mode.
                       Ok (i\<lparr>pi_approval := Some (approval_for i mode approval_id)\<rparr>))))"

definition accept_approval_response ::
  "externals \<Rightarrow> ('w, 'c) invocation_pipeline \<Rightarrow> prepared_invocation \<Rightarrow> bool \<Rightarrow> approval_binding option \<Rightarrow>
   instant \<Rightarrow> instant \<Rightarrow> approval_id \<Rightarrow> ('w, 'c, prepared_invocation) pipeline_result" where
  "accept_approval_response X pl i approved supplied_binding now_issued now_expiry approval_id =
     (if supplied_binding \<noteq> None then (pl, Err ClientApprovalBinding)
      else approve_once X pl i approved now_issued now_expiry approval_id)"

section \<open>Execution\<close>

text \<open>The clock readings of one execution, in the order in which the source takes them.\<close>

record execution_clock =
  ck_issued :: instant
  ck_expiry :: instant
  ck_approval :: instant
  ck_consume :: instant

definition check_approval ::
  "externals \<Rightarrow> prepared_invocation \<Rightarrow> instant \<Rightarrow> (pipeline_error, unit) rust_result" where
  "check_approval X i now =
     rbind (if requires_approval i then required_mode (pi_effects i) else Ok Observe) (\<lambda>mode.
     if requires_approval i \<and> pi_approval i = None then Err ApprovalRequired
     else (case validate_approval X i mode now of
             Inr _ \<Rightarrow> Ok ()
           | Inl e \<Rightarrow> if \<not> requires_approval i \<and> e = MissingApproval then Ok () else Err (Approval e)))"

definition check_live ::
  "externals \<Rightarrow> issued_token_binding \<Rightarrow> prepared_invocation \<Rightarrow> revalidated_tool_plan \<Rightarrow>
   (pipeline_error, unit) rust_result" where
  "check_live X binding i q =
     (if rp_workspace_identity q \<noteq> pi_workspace_identity_digest i
      then Err (pipeline_error.BindingMismatch ''workspace_identity_digest'')
      else if rp_normalized_arguments q \<noteq> pi_normalized_arguments i
      then Err (pipeline_error.BindingMismatch ''normalized_arguments'')
      else if rp_effects q \<noteq> pi_effects i then Err (pipeline_error.BindingMismatch ''effects'')
      else if digest_value X (rp_normalized_arguments q) \<noteq> pi_normalized_arguments_digest i
      then Err (pipeline_error.BindingMismatch ''normalized_arguments_digest'')
      else if digest_effects X (rp_effects q) \<noteq> pi_effect_digest i
      then Err (pipeline_error.BindingMismatch ''effect_digest'')
      else if revalidated_authority_binding_digest X q \<noteq> ib_authority_binding_digest binding
      then Err (pipeline_error.BindingMismatch ''prepared_resource_binding'')
      else Ok ())"

text \<open>The checks before the token is consumed.\<close>

definition execute_checks ::
  "externals \<Rightarrow> ('w, 'c) invocation_pipeline \<Rightarrow> prepared_invocation \<Rightarrow> execution_clock \<Rightarrow> 'w moments \<Rightarrow>
   ('w, 'c, revalidated_tool_plan) pipeline_result" where
  "execute_checks X pl i clock ws =
     (case ensure_issued X pl i (ck_issued clock) of
        (pl', Inl e) \<Rightarrow> (pl', Err e)
      | (pl', Inr binding) \<Rightarrow>
          (pl', if pi_expires_at i < ck_expiry clock then Err pipeline_error.PreparationExpired
                else
                  rbind (check_approval X i (ck_approval clock)) (\<lambda>_.
                  rbind (ensure_for_effects (pl_sandbox pl) (pi_effects i)) (\<lambda>_.
                  rbind (map_err Tool (rbind (plan (pl_registry pl) (at_plan ws) (pi_tool_id i) (pi_tool_version i)
                           (pi_normalized_arguments i)) (revalidate (pl_registry pl) (at_revalidate ws)))) (\<lambda>q.
                  rbind (check_live X binding i q) (\<lambda>_. Ok q))))))"

text \<open>\<open>min_by_key\<close>: the first entry with the least time.\<close>

fun oldest_from :: "string \<times> instant \<Rightarrow> consumed_table \<Rightarrow> string \<times> instant" where
  "oldest_from best [] = best"
| "oldest_from best (e # es) = oldest_from (if snd e < snd best then e else best) es"

definition oldest :: "consumed_table \<Rightarrow> string option" where
  "oldest consumed = (case consumed of [] \<Rightarrow> None | e # es \<Rightarrow> Some (fst (oldest_from e es)))"

definition evict_oldest :: "consumed_table \<Rightarrow> consumed_table" where
  "evict_oldest consumed =
     (if length consumed \<ge> MAX_ISSUED_TOKENS
      then (case oldest consumed of None \<Rightarrow> consumed | Some token \<Rightarrow> bt_remove consumed token)
      else consumed)"

definition consume_token :: "consumed_table \<Rightarrow> string \<Rightarrow> instant \<Rightarrow> consumed_table \<times> (pipeline_error, unit) rust_result" where
  "consume_token consumed token now =
     (let consumed1 = prune_consumed_tokens consumed now in
      if bt_contains consumed1 token then (consumed1, Err TokenConsumed)
      else (bt_insert (evict_oldest consumed1) token now, Ok ()))"

definition execute ::
  "externals \<Rightarrow> ('w, 'c) invocation_pipeline \<Rightarrow> prepared_invocation \<Rightarrow> execution_clock \<Rightarrow> 'w moments \<Rightarrow>
   ('w, 'c) invocation_pipeline \<times> 'w \<times> (pipeline_error, json) rust_result" where
  "execute X pl i clock ws =
     (case execute_checks X pl i clock ws of
        (pl1, Inl e) \<Rightarrow> (pl1, at_execute ws, Err e)
      | (pl1, Inr q) \<Rightarrow>
          (case consume_token (pl_consumed_tokens pl1) (pi_prepared_token i) (ck_consume clock) of
             (consumed, Inl e) \<Rightarrow> (pl1\<lparr>pl_consumed_tokens := consumed\<rparr>, at_execute ws, Err e)
           | (consumed, Inr _) \<Rightarrow>
               (case execute_async (pl_registry pl1) (at_execute ws) (into_execution_permit q) of
                  (w', r) \<Rightarrow> (pl1\<lparr>pl_consumed_tokens := consumed\<rparr>, w', map_err Tool r))))"

text \<open>
  \<open>approve_and_execute\<close>: \<open>gate\<close> is the interactive decision; the readings \<open>now_issued\<close> and
  \<open>now_expiry\<close> belong to the approval.
\<close>

definition approve_and_execute ::
  "externals \<Rightarrow> ('w, 'c) invocation_pipeline \<Rightarrow> prepared_invocation \<Rightarrow> (approval_request_params \<Rightarrow> bool) \<Rightarrow> 'w \<Rightarrow>
   instant \<Rightarrow> instant \<Rightarrow> approval_id \<Rightarrow> execution_clock \<Rightarrow> 'w moments \<Rightarrow>
   ('w, 'c) invocation_pipeline \<times> 'w \<times> (pipeline_error, json) rust_result" where
  "approve_and_execute X pl i gate w_request now_issued now_expiry approval_id clock ws =
     (if requires_approval i
      then (case approve_once X pl i (gate (approval_request pl w_request i ''side-effecting tool requires approval''))
                   now_issued now_expiry approval_id of
              (pl', Inl e) \<Rightarrow> (pl', at_execute ws, Err e)
            | (pl', Inr approved) \<Rightarrow> execute X pl' approved clock ws)
      else execute X pl i clock ws)"

section \<open>What must hold for an adapter to run\<close>

lemma ensure_issued_Ok:
  assumes "ensure_issued X pl i now = (pl', Ok b)"
  shows "pl' = pl\<lparr>pl_issued_tokens := prune_issued_tokens (pl_issued_tokens pl) now (Some (pi_prepared_token i))\<rparr> \<and>
    bt_get (prune_issued_tokens (pl_issued_tokens pl) now (Some (pi_prepared_token i))) (pi_prepared_token i) = Some b \<and>
    ib_invocation_digest b = prepared_binding_digest X i"
  using assms by (auto simp: ensure_issued_def Let_def split: option.splits if_splits)

lemma ensure_issued_state:
  "fst (ensure_issued X pl i now) =
     pl\<lparr>pl_issued_tokens := prune_issued_tokens (pl_issued_tokens pl) now (Some (pi_prepared_token i))\<rparr>"
  by (auto simp: ensure_issued_def Let_def split: option.splits)

lemma check_approval_Ok:
  assumes "check_approval X i now = Ok ()" and "requires_approval i"
  shows "\<exists>a mode. pi_approval i = Some a \<and> required_mode (pi_effects i) = Ok mode \<and> validate_approval X i mode now = Ok ()"
  using assms by (auto simp: check_approval_def rbind_eq_Inr split: if_splits sum.splits)

lemma execute_checks_Ok:
  assumes "execute_checks X pl i clock ws = (pl', Ok q)"
  shows "\<exists>b p. ensure_issued X pl i (ck_issued clock) = (pl', Ok b) \<and> ck_expiry clock \<le> pi_expires_at i \<and>
    check_approval X i (ck_approval clock) = Ok () \<and> ensure_for_effects (pl_sandbox pl) (pi_effects i) = Ok () \<and>
    plan (pl_registry pl) (at_plan ws) (pi_tool_id i) (pi_tool_version i) (pi_normalized_arguments i) = Ok p \<and>
    revalidate (pl_registry pl) (at_revalidate ws) p = Ok q \<and> check_live X b i q = Ok ()"
  using assms
  by (auto simp: execute_checks_def rbind_eq_Inr not_less split: prod.splits sum.splits if_splits)

lemma check_live_Ok:
  "check_live X b i q = Ok () \<longleftrightarrow>
     rp_workspace_identity q = pi_workspace_identity_digest i \<and> rp_normalized_arguments q = pi_normalized_arguments i \<and>
     rp_effects q = pi_effects i \<and> digest_value X (pi_normalized_arguments i) = pi_normalized_arguments_digest i \<and>
     digest_effects X (pi_effects i) = pi_effect_digest i \<and>
     revalidated_authority_binding_digest X q = ib_authority_binding_digest b"
  by (auto simp: check_live_def)


section \<open>Interleavings\<close>

text \<open>
  Calls of one pipeline interleave at the locks: the checks of an execution end before its
  token is consumed, and other calls may come in between. \<open>tk_inflight\<close> holds the executions
  between the two with the time of their expiry check, \<open>tk_dispatched\<close> the consumed tokens
  with the time of consumption. \<open>tk_prepared\<close> and \<open>tk_checked\<close> record the invocations that
  were issued and checked. A step of the relation carries the assumptions of the single-use
  theorem: the clock does not run backwards, a generated token is new, a preparation lives at
  most \<open>T\<close>, an execution reaches its token at most \<open>L\<close> after its expiry check, and the table of
  consumed tokens is not full.
\<close>

record ('w, 'c) token_run =
  tk_pipeline :: "('w, 'c) invocation_pipeline"
  tk_clock :: instant
  tk_prepared :: "prepared_invocation list"
  tk_checked :: "prepared_invocation list"
  tk_inflight :: "(prepared_invocation \<times> instant) list"
  tk_dispatched :: "(string \<times> instant) list"

definition token_run_new :: "('w, 'c) invocation_pipeline \<Rightarrow> instant \<Rightarrow> ('w, 'c) token_run" where
  "token_run_new pl now =
     \<lparr>tk_pipeline = pl, tk_clock = now, tk_prepared = [], tk_checked = [], tk_inflight = [], tk_dispatched = []\<rparr>"

inductive pipeline_step :: "externals \<Rightarrow> int \<Rightarrow> int \<Rightarrow> ('w, 'c) token_run \<Rightarrow> ('w, 'c) token_run \<Rightarrow> bool" for X T L where
  prepared: "prepare X (tk_pipeline s) w tool_id tool_version arguments ctx token now = (pl, Ok i) \<Longrightarrow>
    tk_clock s \<le> now \<Longrightarrow> ic_now ctx \<le> now \<Longrightarrow> ic_preparation_ttl ctx \<le> T \<Longrightarrow>
    token \<notin> pi_prepared_token ` set (tk_prepared s) \<Longrightarrow>
    pipeline_step X T L s (s\<lparr>tk_pipeline := pl, tk_clock := now, tk_prepared := tk_prepared s @ [i]\<rparr>)"
| not_prepared: "prepare X (tk_pipeline s) w tool_id tool_version arguments ctx token now = (pl, Err e) \<Longrightarrow>
    tk_clock s \<le> now \<Longrightarrow> pipeline_step X T L s (s\<lparr>tk_pipeline := pl, tk_clock := now\<rparr>)"
| approved: "approve_once X (tk_pipeline s) i decision now_issued now_expiry approval_id = (pl, r) \<Longrightarrow>
    tk_clock s \<le> now_issued \<Longrightarrow> now_issued \<le> now_expiry \<Longrightarrow>
    pipeline_step X T L s (s\<lparr>tk_pipeline := pl, tk_clock := now_expiry\<rparr>)"
| checked: "execute_checks X (tk_pipeline s) i clock ws = (pl, Ok q) \<Longrightarrow>
    tk_clock s \<le> ck_issued clock \<Longrightarrow> ck_issued clock \<le> ck_expiry clock \<Longrightarrow> ck_expiry clock \<le> ck_approval clock \<Longrightarrow>
    pipeline_step X T L s (s\<lparr>tk_pipeline := pl, tk_clock := ck_approval clock, tk_checked := tk_checked s @ [i],
      tk_inflight := tk_inflight s @ [(i, ck_expiry clock)]\<rparr>)"
| not_checked: "execute_checks X (tk_pipeline s) i clock ws = (pl, Err e) \<Longrightarrow>
    tk_clock s \<le> ck_issued clock \<Longrightarrow> pipeline_step X T L s (s\<lparr>tk_pipeline := pl, tk_clock := ck_issued clock\<rparr>)"
| dispatched: "tk_inflight s = before @ (i, t) # after \<Longrightarrow>
    consume_token (pl_consumed_tokens (tk_pipeline s)) (pi_prepared_token i) now = (consumed, Ok ()) \<Longrightarrow>
    tk_clock s \<le> now \<Longrightarrow> now \<le> t + L \<Longrightarrow>
    length (prune_consumed_tokens (pl_consumed_tokens (tk_pipeline s)) now) < MAX_ISSUED_TOKENS \<Longrightarrow>
    pipeline_step X T L s (s\<lparr>tk_pipeline := (tk_pipeline s)\<lparr>pl_consumed_tokens := consumed\<rparr>, tk_clock := now,
      tk_inflight := before @ after, tk_dispatched := tk_dispatched s @ [(pi_prepared_token i, now)]\<rparr>)"
| refused: "tk_inflight s = before @ (i, t) # after \<Longrightarrow>
    consume_token (pl_consumed_tokens (tk_pipeline s)) (pi_prepared_token i) now = (consumed, Err e) \<Longrightarrow>
    tk_clock s \<le> now \<Longrightarrow>
    pipeline_step X T L s (s\<lparr>tk_pipeline := (tk_pipeline s)\<lparr>pl_consumed_tokens := consumed\<rparr>, tk_clock := now,
      tk_inflight := before @ after\<rparr>)"

definition binding_collision :: "externals \<Rightarrow> prepared_invocation list \<Rightarrow> prepared_invocation list \<Rightarrow> bool" where
  "binding_collision X is js \<longleftrightarrow>
     (\<exists>i \<in> set is. \<exists>j \<in> set js. sha_collision X (canonical_json X (prepared_binding_value X i))
        (canonical_json X (prepared_binding_value X j)))"

lemma binding_determines_expiry:
  assumes "json_text_ok X" and "inj (time_str X)" and "prepared_binding_digest X i = prepared_binding_digest X j"
    and "\<not> sha_collision X (canonical_json X (prepared_binding_value X i)) (canonical_json X (prepared_binding_value X j))"
  shows "pi_expires_at i = pi_expires_at j"
proof -
  have norm: "json_norm (prepared_binding_value X i) = json_norm (prepared_binding_value X j)"
    using digest_value_eq [OF assms(1)] assms(3,4) by (auto simp: prepared_binding_digest_def)
  have field: "map_of (map (map_prod (\<lambda>k. k) json_norm) kvs) ''expires_at'' = map_option json_norm (map_of kvs ''expires_at'')" for kvs
    by (induction kvs) auto
  have "json_get (json_norm (prepared_binding_value X v)) ''expires_at'' = Some (JString (time_str X (pi_expires_at v)))" for v
    unfolding prepared_binding_value_def by (subst json_norm_sorted) (simp_all add: json_get_def)
  with norm have "time_str X (pi_expires_at i) = time_str X (pi_expires_at j)" by (metis json.inject(3) option.inject)
  then show ?thesis using assms(2) by (simp add: inj_eq)
qed

text \<open>The invariant of the tables.\<close>

definition tables_ok :: "externals \<Rightarrow> ('w, 'c) token_run \<Rightarrow> bool" where
  "tables_ok X s \<longleftrightarrow>
     bt_wf (pl_issued_tokens (tk_pipeline s)) \<and> bt_wf (pl_consumed_tokens (tk_pipeline s)) \<and>
     (\<forall>k b. bt_get (pl_issued_tokens (tk_pipeline s)) k = Some b \<longrightarrow>
        (\<exists>i \<in> set (tk_prepared s). pi_prepared_token i = k \<and> ib_invocation_digest b = prepared_binding_digest X i))"

definition times_ok :: "int \<Rightarrow> ('w, 'c) token_run \<Rightarrow> bool" where
  "times_ok T s \<longleftrightarrow>
     (\<forall>i \<in> set (tk_prepared s). pi_expires_at i \<le> tk_clock s + T) \<and>
     (\<forall>(j, t) \<in> set (tk_inflight s). \<exists>i \<in> set (tk_prepared s). pi_prepared_token i = pi_prepared_token j \<and> t \<le> pi_expires_at i)"

definition used_ok :: "int \<Rightarrow> ('w, 'c) token_run \<Rightarrow> bool" where
  "used_ok T s \<longleftrightarrow>
     distinct (map fst (tk_dispatched s)) \<and>
     (\<forall>(k, t) \<in> set (tk_dispatched s).
        k \<in> pi_prepared_token ` set (tk_prepared s) \<and>
        (\<forall>i \<in> set (tk_prepared s). pi_prepared_token i = k \<longrightarrow> pi_expires_at i \<le> t + T) \<and>
        (bt_get (pl_consumed_tokens (tk_pipeline s)) k = Some t \<or>
         t + nanos CONSUMED_TOKEN_RETENTION_SECONDS < tk_clock s))"

lemma prune_issued_get:
  "bt_wf m \<Longrightarrow> bt_get (prune_issued_tokens m now p) k = Some b \<Longrightarrow> bt_get m k = Some b"
  by (auto simp: prune_issued_tokens_def bt_get_retain split: option.splits if_splits)

lemma prune_issued_wf: "bt_wf m \<Longrightarrow> bt_wf (prune_issued_tokens m now p)"
  by (simp add: prune_issued_tokens_def)

lemma prune_consumed_get:
  "bt_wf m \<Longrightarrow> bt_get (prune_consumed_tokens m now) k =
     (case bt_get m k of None \<Rightarrow> None
      | Some t \<Rightarrow> if now - nanos CONSUMED_TOKEN_RETENTION_SECONDS \<le> t then Some t else None)"
  by (simp add: prune_consumed_tokens_def bt_get_retain)

text \<open>What the calls do to the tables.\<close>

lemma prepare_tables:
  assumes "prepare X pl w tool_id tool_version arguments ctx token now = (pl', r)"
  shows "pl_consumed_tokens pl' = pl_consumed_tokens pl \<and>
    (case r of
       Inl e \<Rightarrow> pl_issued_tokens pl' = pl_issued_tokens pl \<or> pl_issued_tokens pl' = prune_issued_tokens (pl_issued_tokens pl) now None
     | Inr i \<Rightarrow> pi_prepared_token i = token \<and> pi_expires_at i = ic_now ctx + ic_preparation_ttl ctx \<and>
         (\<exists>b. ib_invocation_digest b = prepared_binding_digest X i \<and>
            pl_issued_tokens pl' = bt_insert (prune_issued_tokens (pl_issued_tokens pl) now None) token b))"
proof (cases "prepare_plan X pl w tool_id tool_version arguments ctx token")
  case (Inl e)
  then show ?thesis using assms by (auto simp: prepare_def)
next
  case (Inr pi)
  then obtain p i where pi: "pi = (p, i)" by fastforce
  have "i = prepared_of X ctx tool_id tool_version p token"
    using Inr by (auto simp: pi prepare_plan_def rbind_eq_Inr split: if_splits)
  then have i: "pi_prepared_token i = token" "pi_expires_at i = ic_now ctx + ic_preparation_ttl ctx"
    by (simp_all add: prepared_of_def)
  have issue: "issue_token X pl p i now = (pl', r)" using assms Inr pi by (simp add: prepare_def)
  show ?thesis
  proof (cases "length (prune_issued_tokens (pl_issued_tokens pl) now None) \<ge> MAX_ISSUED_TOKENS")
    case True
    then show ?thesis using issue by (auto simp: issue_token_def Let_def)
  next
    case False
    let ?b = "\<lparr>ib_invocation_digest = prepared_binding_digest X i,
      ib_authority_binding_digest = plan_authority_binding_digest X p, ib_expires_at = pi_expires_at i\<rparr>"
    have "r = Ok i" "pl_consumed_tokens pl' = pl_consumed_tokens pl"
        "pl_issued_tokens pl' = bt_insert (prune_issued_tokens (pl_issued_tokens pl) now None) token ?b"
      using issue False i by (auto simp: issue_token_def Let_def)
    then show ?thesis using i by (auto intro!: exI [of _ ?b])
  qed
qed

lemma approve_tables:
  assumes "approve_once X pl i d n1 n2 a = (pl', r)"
  shows "pl' = pl\<lparr>pl_issued_tokens := prune_issued_tokens (pl_issued_tokens pl) n1 (Some (pi_prepared_token i))\<rparr>"
  using assms ensure_issued_state [of X pl i n1] by (auto simp: approve_once_def split: prod.splits sum.splits)

lemma checks_tables:
  assumes "execute_checks X pl i clock ws = (pl', r)"
  shows "pl' = pl\<lparr>pl_issued_tokens := prune_issued_tokens (pl_issued_tokens pl) (ck_issued clock) (Some (pi_prepared_token i))\<rparr>"
  using assms ensure_issued_state [of X pl i "ck_issued clock"] by (auto simp: execute_checks_def split: prod.splits sum.splits)

lemma consume_tables:
  assumes "consume_token m k now = (m', r)" and "bt_wf m"
  shows "bt_wf m' \<and> (case r of Inl e \<Rightarrow> m' = prune_consumed_tokens m now
    | Inr _ \<Rightarrow> \<not> bt_contains (prune_consumed_tokens m now) k \<and>
        (length (prune_consumed_tokens m now) < MAX_ISSUED_TOKENS \<longrightarrow> m' = bt_insert (prune_consumed_tokens m now) k now))"
proof -
  let ?m1 = "prune_consumed_tokens m now"
  have wf: "bt_wf ?m1" using assms(2) by (simp add: prune_consumed_tokens_def)
  have ev: "bt_wf (evict_oldest ?m1)" using wf by (simp add: evict_oldest_def split: option.split)
  show ?thesis
  proof (cases "bt_contains ?m1 k")
    case True
    then show ?thesis using assms(1) wf by (auto simp: consume_token_def Let_def)
  next
    case False
    then have "m' = bt_insert (evict_oldest ?m1) k now" "r = Ok ()" using assms(1) by (auto simp: consume_token_def Let_def)
    then show ?thesis using False ev by (simp add: evict_oldest_def)
  qed
qed


lemma tables_step:
  assumes "pipeline_step X T L s s'" and "tables_ok X s"
  shows "tables_ok X s'"
  using assms
proof (induction rule: pipeline_step.induct)
  case (prepared s w tool_id tool_version arguments ctx token now pl i)
  from prepare_tables [OF prepared(1)] obtain b where b: "pi_prepared_token i = token"
      "ib_invocation_digest b = prepared_binding_digest X i" "pl_consumed_tokens pl = pl_consumed_tokens (tk_pipeline s)"
      "pl_issued_tokens pl = bt_insert (prune_issued_tokens (pl_issued_tokens (tk_pipeline s)) now None) token b"
    by auto
  then show ?case
    using prepared.prems by (auto simp: tables_ok_def prune_issued_wf split: if_splits dest: prune_issued_get)
next
  case (not_prepared s w tool_id tool_version arguments ctx token now pl e)
  then show ?case
    using prepare_tables [OF not_prepared(1)]
    by (auto simp: tables_ok_def prune_issued_wf dest: prune_issued_get)
next
  case (approved s i decision now_issued now_expiry approval_id pl r)
  then show ?case
    using approve_tables [OF approved(1)] by (auto simp: tables_ok_def prune_issued_wf dest: prune_issued_get)
next
  case (checked s i clock ws pl q)
  then show ?case
    using checks_tables [OF checked(1)] by (auto simp: tables_ok_def prune_issued_wf dest: prune_issued_get)
next
  case (not_checked s i clock ws pl e)
  then show ?case
    using checks_tables [OF not_checked(1)] by (auto simp: tables_ok_def prune_issued_wf dest: prune_issued_get)
next
  case (dispatched s before i t after now consumed)
  then show ?case using consume_tables [OF dispatched(2)] by (auto simp: tables_ok_def)
next
  case (refused s before i t after now consumed e)
  then show ?case using consume_tables [OF refused(2)] by (auto simp: tables_ok_def)
qed

lemma times_step:
  assumes "pipeline_step X T L s s'" and "tables_ok X s" and "times_ok T s" and "json_text_ok X" and "inj (time_str X)"
    and "\<not> binding_collision X (tk_prepared s') (tk_checked s')"
  shows "times_ok T s'"
  using assms
proof (induction rule: pipeline_step.induct)
  case (prepared s w tool_id tool_version arguments ctx token now pl i)
  have "pi_expires_at i \<le> now + T" using prepare_tables [OF prepared(1)] prepared(3,4) by simp
  then show ?case using prepared by (fastforce simp: times_ok_def)
next
  case (checked s i clock ws pl q)
  from execute_checks_Ok [OF checked(1)] obtain b where b: "ensure_issued X (tk_pipeline s) i (ck_issued clock) = (pl, Ok b)"
      "ck_expiry clock \<le> pi_expires_at i" by blast
  then have get: "bt_get (pl_issued_tokens (tk_pipeline s)) (pi_prepared_token i) = Some b"
      and dig: "ib_invocation_digest b = prepared_binding_digest X i"
    using ensure_issued_Ok [OF b(1)] checked.prems(1) by (auto simp: tables_ok_def dest: prune_issued_get)
  then obtain j where j: "j \<in> set (tk_prepared s)" "pi_prepared_token j = pi_prepared_token i"
      "prepared_binding_digest X j = prepared_binding_digest X i"
    using checked.prems(1) unfolding tables_ok_def by metis
  have "pi_expires_at j = pi_expires_at i"
    using binding_determines_expiry [OF checked.prems(3,4) j(3)] checked.prems(5) j(1) by (auto simp: binding_collision_def)
  then show ?case using checked.prems(2) checked(2,3,4) j(1,2) b(2) by (fastforce simp: times_ok_def)
next
  case (not_prepared s w tool_id tool_version arguments ctx token now pl e)
  then show ?case by (fastforce simp: times_ok_def)
next
  case (approved s i decision now_issued now_expiry approval_id pl r)
  then show ?case by (fastforce simp: times_ok_def)
next
  case (not_checked s i clock ws pl e)
  then show ?case by (fastforce simp: times_ok_def)
next
  case (dispatched s before i t after now consumed)
  then show ?case by (fastforce simp: times_ok_def)
next
  case (refused s before i t after now consumed e)
  then show ?case by (fastforce simp: times_ok_def)
qed

lemma retained:
  assumes "bt_wf m" and "bt_get m k = Some t \<or> t + nanos CONSUMED_TOKEN_RETENTION_SECONDS < clock" and "clock \<le> now"
  shows "bt_get (prune_consumed_tokens m now) k = Some t \<or> t + nanos CONSUMED_TOKEN_RETENTION_SECONDS < now"
  using assms by (auto simp: prune_consumed_get)

lemma used_clock:
  assumes "used_ok T s" and "tk_clock s \<le> now" and "pl_consumed_tokens pl = pl_consumed_tokens (tk_pipeline s)"
    and "tk_pipeline s' = pl" "tk_clock s' = now" "tk_prepared s' = tk_prepared s" "tk_dispatched s' = tk_dispatched s"
  shows "used_ok T s'"
  using assms by (fastforce simp: used_ok_def)

lemma used_step:
  assumes "pipeline_step X T L s s'" and "tables_ok X s" and "times_ok T s" and "used_ok T s"
    and "T + L \<le> nanos CONSUMED_TOKEN_RETENTION_SECONDS"
  shows "used_ok T s'"
  using assms
proof (induction rule: pipeline_step.induct)
  case (prepared s w tool_id tool_version arguments ctx token now pl i)
  then show ?case using prepare_tables [OF prepared(1)] by (fastforce simp: used_ok_def)
next
  case (not_prepared s w tool_id tool_version arguments ctx token now pl e)
  then show ?case using prepare_tables [OF not_prepared(1)] by (intro used_clock [OF not_prepared.prems(3)]) auto
next
  case (approved s i decision now_issued now_expiry approval_id pl r)
  then show ?case using approve_tables [OF approved(1)] by (intro used_clock [OF approved.prems(3)]) auto
next
  case (checked s i clock ws pl q)
  then show ?case using checks_tables [OF checked(1)] by (intro used_clock [OF checked.prems(3)]) auto
next
  case (not_checked s i clock ws pl e)
  then show ?case using checks_tables [OF not_checked(1)] by (intro used_clock [OF not_checked.prems(3)]) auto
next
  case (refused s before i t after now consumed e)
  have wf: "bt_wf (pl_consumed_tokens (tk_pipeline s))" using refused.prems(1) by (simp add: tables_ok_def)
  have "consumed = prune_consumed_tokens (pl_consumed_tokens (tk_pipeline s)) now" using consume_tables [OF refused(2) wf] by simp
  then show ?case
    using refused.prems(3) retained [OF wf _ refused(3)] by (fastforce simp: used_ok_def)
next
  case (dispatched s before i t after now consumed)
  let ?m = "pl_consumed_tokens (tk_pipeline s)" and ?k = "pi_prepared_token i" and ?R = "nanos CONSUMED_TOKEN_RETENTION_SECONDS"
  have wf: "bt_wf ?m" using dispatched.prems(1) by (simp add: tables_ok_def)
  have unused: "\<not> bt_contains (prune_consumed_tokens ?m now) ?k"
    and consumed: "consumed = bt_insert (prune_consumed_tokens ?m now) ?k now"
    using consume_tables [OF dispatched(2) wf] dispatched(5) by auto
  obtain j where j: "j \<in> set (tk_prepared s)" "pi_prepared_token j = ?k" "t \<le> pi_expires_at j"
    using dispatched.prems(2) dispatched(1) by (auto simp: times_ok_def)
  have kept: "bt_get (prune_consumed_tokens ?m now) k = Some u \<or> u + ?R < now" if "(k, u) \<in> set (tk_dispatched s)" for k u
    using that dispatched.prems(3) retained [OF wf _ dispatched(3)] by (fastforce simp: used_ok_def)
  have new: "?k \<notin> fst ` set (tk_dispatched s)"
  proof
    assume "?k \<in> fst ` set (tk_dispatched s)"
    then obtain u where u: "(?k, u) \<in> set (tk_dispatched s)" by auto
    then have "pi_expires_at j \<le> u + T" using dispatched.prems(3) j by (auto simp: used_ok_def)
    then have "now \<le> u + ?R" using j(3) dispatched(4) dispatched.prems(4) by linarith
    with kept [OF u] unused show False by (auto simp: bt_contains_def)
  qed
  have old: "k \<in> pi_prepared_token ` set (tk_prepared s) \<and>
        (\<forall>i \<in> set (tk_prepared s). pi_prepared_token i = k \<longrightarrow> pi_expires_at i \<le> u + T) \<and>
        (bt_get consumed k = Some u \<or> u + ?R < now)" if "(k, u) \<in> set (tk_dispatched s)" for k u
  proof -
    have "k \<noteq> ?k" using that new by force
    then show ?thesis using that kept [OF that] dispatched.prems(3) by (auto simp: used_ok_def consumed)
  qed
  have now: "\<forall>i' \<in> set (tk_prepared s). pi_expires_at i' \<le> now + T"
    using dispatched.prems(2) dispatched(3) by (fastforce simp: times_ok_def)
  have "distinct (map fst (tk_dispatched s @ [(?k, now)]))" using new dispatched.prems(3) by (auto simp: used_ok_def)
  moreover have "?k \<in> pi_prepared_token ` set (tk_prepared s)" using j by (metis imageI)
  ultimately show ?case using old now by (auto simp: used_ok_def consumed)
qed

lemma step_grows:
  assumes "pipeline_step X T L s s'"
  shows "set (tk_prepared s) \<subseteq> set (tk_prepared s') \<and> set (tk_checked s) \<subseteq> set (tk_checked s')"
  using assms by (induction rule: pipeline_step.induct) auto

text \<open>
  C16: A prepared token runs at most once. In every interleaving of preparations, approvals and
  executions on one pipeline, each token is dispatched at most once, provided that a
  preparation's lifetime and the delay between the expiry check and the consumption of the
  token together do not exceed the retention of consumed tokens (the daemon's lifetime of 60
  seconds leaves 60 seconds for the delay), or two invocations of the run have colliding
  SHA-256 texts.
\<close>

theorem token_is_dispatched_at_most_once:
  assumes X: "json_text_ok X" "inj (time_str X)" and bound: "T + L \<le> nanos CONSUMED_TOKEN_RETENTION_SECONDS"
    and run: "(pipeline_step X T L)\<^sup>*\<^sup>* (token_run_new (pipeline_new registry sandbox) start) s"
  shows "distinct (map fst (tk_dispatched s)) \<or> binding_collision X (tk_prepared s) (tk_checked s)"
proof -
  have "tables_ok X s \<and> (times_ok T s \<and> used_ok T s \<or> binding_collision X (tk_prepared s) (tk_checked s))"
    using run
  proof (induction rule: rtranclp_induct)
    case base
    show ?case by (simp add: token_run_new_def pipeline_new_def tables_ok_def times_ok_def used_ok_def)
  next
    case (step s s')
    have mono: "binding_collision X (tk_prepared s) (tk_checked s) \<Longrightarrow> binding_collision X (tk_prepared s') (tk_checked s')"
      using step_grows [OF step(2)] unfolding binding_collision_def by blast
    show ?case
      using step.IH mono tables_step [OF step(2)] times_step [OF step(2) _ _ X] used_step [OF step(2) _ _ _ bound] by blast
  qed
  then show ?thesis by (auto simp: used_ok_def)
qed

text \<open>
  C40: A full table forgets the oldest token. When 4096 tokens are held as consumed, consuming
  one more removes the oldest of them, and that token can be consumed, and hence its
  invocation executed, a second time, although it may still be issued and unexpired.
\<close>

theorem full_table_forgets_oldest_token:
  assumes "bt_wf consumed" and "length (prune_consumed_tokens consumed now) \<ge> MAX_ISSUED_TOKENS"
    and "oldest (prune_consumed_tokens consumed now) = Some k"
    and "\<not> bt_contains (prune_consumed_tokens consumed now) other" and "k \<noteq> other"
  shows "\<exists>consumed1. consume_token consumed other now = (consumed1, Ok ()) \<and>
    (\<exists>consumed2. consume_token consumed1 k later = (consumed2, Ok ()))"
proof -
  let ?m = "prune_consumed_tokens consumed now"
  let ?m1 = "bt_insert (bt_remove ?m k) other now"
  have wf: "bt_wf ?m1" using assms(1) by (simp add: prune_consumed_tokens_def)
  have one: "consume_token consumed other now = (?m1, Ok ())"
    using assms(2-4) by (simp add: consume_token_def evict_oldest_def Let_def)
  have "bt_get ?m1 k = None" using assms(5) by simp
  then have "\<not> bt_contains (prune_consumed_tokens ?m1 later) k"
    by (simp add: bt_contains_def prune_consumed_get [OF wf])
  then have "\<exists>m2. consume_token ?m1 k later = (m2, Ok ())" by (simp add: consume_token_def Let_def)
  with one show ?thesis by blast
qed

section \<open>An approved invocation runs\<close>

lemma prepare_Ok:
  assumes "prepare X pl w tool_id tool_version arguments ctx token now = (pl', Ok i)"
  shows "\<exists>p. plan (pl_registry pl) w tool_id tool_version arguments = Ok p \<and> i = prepared_of X ctx tool_id tool_version p token \<and>
    tp_workspace_identity p = ic_workspace_identity_digest ctx \<and> ensure_for_effects (pl_sandbox pl) (tp_effects p) = Ok () \<and>
    pl' = pl\<lparr>pl_issued_tokens := bt_insert (prune_issued_tokens (pl_issued_tokens pl) now None) token
      \<lparr>ib_invocation_digest = prepared_binding_digest X i, ib_authority_binding_digest = plan_authority_binding_digest X p,
       ib_expires_at = pi_expires_at i\<rparr>\<rparr>"
  using assms
  by (auto simp: prepare_def issue_token_def prepare_plan_def prepared_of_def rbind_eq_Inr Let_def split: sum.splits if_splits)

lemma required_mode_total: "\<exists>mode. required_mode e = Ok mode"
  by (simp add: required_mode_def)

lemma minted_approval_validates:
  assumes "i = prepared_of X ctx tool_id tool_version p token" and "token \<noteq> []" and "now < pi_expires_at i"
  shows "validate_approval X (i\<lparr>pi_approval := Some (approval_for i mode aid)\<rparr>) mode now = Ok ()"
  using assms
  by (simp add: validate_approval_Ok binding_matches_def content_matches_def approval_for_def prepared_of_def)

lemma approved_invocation_checks:
  assumes i: "i = prepared_of X ctx tool_id tool_version p token" and token: "token \<noteq> []" and now: "now < pi_expires_at i"
    and j: "j = (if requires_approval i then i\<lparr>pi_approval := Some (approval_for i mode aid)\<rparr> else i)"
    and mode: "required_mode (pi_effects i) = Ok mode"
  shows "check_approval X j now = Ok ()"
proof (cases "requires_approval i")
  case True
  then have "requires_approval j" "pi_effects j = pi_effects i" "pi_approval j \<noteq> None" by (simp_all add: j requires_approval_def)
  then show ?thesis
    using True mode minted_approval_validates [OF i token now, of mode aid] by (simp add: check_approval_def j)
next
  case False
  have "validate_approval X i Observe now = Err MissingApproval"
    using token now by (simp add: validate_approval_def i prepared_of_def ok_or_def)
  then show ?thesis using False by (simp add: check_approval_def j)
qed

lemma ensure_issued_again:
  assumes "bt_wf issued" and "pl_issued_tokens pl = issued" and "bt_get issued (pi_prepared_token j) = Some b"
    and "ib_invocation_digest b = prepared_binding_digest X j"
  shows "ensure_issued X pl j now =
    (pl\<lparr>pl_issued_tokens := prune_issued_tokens issued now (Some (pi_prepared_token j))\<rparr>, Ok b)"
  using assms by (simp add: ensure_issued_def Let_def prune_issued_tokens_def bt_get_retain)

lemma approved_checks:
  assumes wf: "bt_wf (pl_issued_tokens pl)"
    and prep: "prepare X pl w tool_id tool_version arguments ctx token now = (pl1, Ok i)"
    and appr: "approve_once X pl1 i True now_issued now_expiry aid = (pl2, Ok j)"
    and token: "token \<noteq> []"
    and time: "ck_expiry clock \<le> pi_expires_at i" "ck_approval clock < pi_expires_at i"
    and plan: "plan (pl_registry pl) w tool_id tool_version arguments = Ok p"
    and again: "plan (pl_registry pl) (at_plan ws) tool_id tool_version (pi_normalized_arguments i) = Ok p"
    and reval: "revalidate (pl_registry pl) (at_revalidate ws) p = Ok q"
      "execution_payload_binding (rp_payload q) = planned_payload_binding (tp_payload p)"
  shows "\<exists>pl3. execute_checks X pl2 j clock ws = (pl3, Ok q) \<and> pl_registry pl3 = pl_registry pl \<and>
    pl_consumed_tokens pl3 = pl_consumed_tokens pl \<and> pi_prepared_token j = token"
proof -
  from prepare_Ok [OF prep] plan have i: "i = prepared_of X ctx tool_id tool_version p token"
    and ident: "tp_workspace_identity p = ic_workspace_identity_digest ctx"
    and box: "ensure_for_effects (pl_sandbox pl) (tp_effects p) = Ok ()" by auto
  define b where "b = \<lparr>ib_invocation_digest = prepared_binding_digest X i,
    ib_authority_binding_digest = plan_authority_binding_digest X p, ib_expires_at = pi_expires_at i\<rparr>"
  have pl1: "pl1 = pl\<lparr>pl_issued_tokens := bt_insert (prune_issued_tokens (pl_issued_tokens pl) now None) token b\<rparr>"
    using prepare_Ok [OF prep] plan by (auto simp: b_def)
  have tok: "pi_prepared_token i = token" by (simp add: i prepared_of_def)
  obtain mode where mode: "required_mode (pi_effects i) = Ok mode" using required_mode_total by blast
  have j: "j = (if requires_approval i then i\<lparr>pi_approval := Some (approval_for i mode aid)\<rparr> else i)"
    using appr mode by (auto simp: approve_once_def split: prod.splits sum.splits if_splits)
  have fields: "pi_prepared_token j = token" "pi_effects j = pi_effects i" "pi_expires_at j = pi_expires_at i"
      "pi_tool_id j = tool_id" "pi_tool_version j = tool_version" "pi_normalized_arguments j = pi_normalized_arguments i"
    and bind: "prepared_binding_digest X j = prepared_binding_digest X i"
    by (auto simp: j i prepared_of_def prepared_binding_digest_def prepared_binding_value_def)
  have pl2: "pl2 = pl1\<lparr>pl_issued_tokens := prune_issued_tokens (pl_issued_tokens pl1) now_issued (Some token)\<rparr>"
    using approve_tables [OF appr] tok by simp
  have iwf: "bt_wf (pl_issued_tokens pl2)" and get: "bt_get (pl_issued_tokens pl2) token = Some b"
    using wf by (simp_all add: pl2 pl1 prune_issued_tokens_def bt_get_retain)
  obtain pl3 where issued: "ensure_issued X pl2 j (ck_issued clock) = (pl3, Ok b)"
      and pl3: "pl_registry pl3 = pl_registry pl" "pl_consumed_tokens pl3 = pl_consumed_tokens pl"
    using ensure_issued_again [OF iwf refl, of j b X "ck_issued clock"] get fields(1) bind by (auto simp: b_def pl2 pl1)
  have appr_ok: "check_approval X j (ck_approval clock) = Ok ()"
    by (rule approved_invocation_checks [OF i token time(2) j mode])
  have live: "check_live X b j q = Ok ()"
    using revalidate_Ok [OF reval(1)] plan_Ok [OF plan] ident reval(2)
    by (simp add: check_live_Ok j i prepared_of_def b_def plan_authority_binding_digest_def revalidated_authority_binding_digest_def)
  have same: "pl_sandbox pl2 = pl_sandbox pl" "pl_registry pl2 = pl_registry pl" "pi_effects i = tp_effects p"
    by (simp_all add: pl2 pl1 i prepared_of_def)
  show ?thesis
    using issued time(1) appr_ok box again reval(1) live fields same pl3 by (simp add: execute_checks_def not_less)
qed

text \<open>
  C22: An approved invocation runs. If the pipeline prepared an invocation, the user approved it
  in time, the token is unused and the resource is unchanged (planning the normalised
  arguments again gives the same plan, which revalidates to the same payload binding), then
  \<open>execute\<close> passes every check and the registered adapter runs on the prepared arguments.
\<close>

theorem approved_invocation_runs:
  assumes wf: "bt_wf (pl_issued_tokens pl)" "bt_wf (pl_consumed_tokens pl)"
    and prep: "prepare X pl w tool_id tool_version arguments ctx token now = (pl1, Ok i)"
    and appr: "approve_once X pl1 i True now_issued now_expiry aid = (pl2, Ok j)"
    and token: "token \<noteq> []" "\<not> bt_contains (pl_consumed_tokens pl) token"
    and time: "ck_expiry clock \<le> pi_expires_at i" "ck_approval clock < pi_expires_at i"
    and plan: "plan (pl_registry pl) w tool_id tool_version arguments = Ok p"
    and again: "plan (pl_registry pl) (at_plan ws) tool_id tool_version (pi_normalized_arguments i) = Ok p"
    and reval: "revalidate (pl_registry pl) (at_revalidate ws) p = Ok q"
      "execution_payload_binding (rp_payload q) = planned_payload_binding (tp_payload p)"
    and tool: "registration (pl_registry pl) tool_id tool_version = Ok r"
    and run: "ad_execute_async (rt_adapter r) (at_execute ws) (pi_normalized_arguments i) (rp_payload q) = (w', out)"
  shows "\<exists>pl'. execute X pl2 j clock ws = (pl', w', map_err Tool out)"
proof -
  from approved_checks [OF wf(1) prep appr token(1) time plan again reval] obtain pl3
    where checks: "execute_checks X pl2 j clock ws = (pl3, Ok q)" "pi_prepared_token j = token"
      and pl3: "pl_registry pl3 = pl_registry pl" "pl_consumed_tokens pl3 = pl_consumed_tokens pl" by blast
  have "\<not> bt_contains (prune_consumed_tokens (pl_consumed_tokens pl) (ck_consume clock)) token"
    using token(2) by (simp add: bt_contains_def prune_consumed_get [OF wf(2)])
  then obtain consumed where con: "consume_token (pl_consumed_tokens pl3) token (ck_consume clock) = (consumed, Ok ())"
    by (simp add: consume_token_def Let_def pl3)
  have "admit_permit (pl_registry pl) (into_execution_permit q) = Ok (rt_adapter r)"
    using fresh_permit_admitted [OF reval(1)] plan_Ok [OF plan] tool by auto
  moreover have "pi_normalized_arguments i = rp_normalized_arguments q"
    using revalidate_Ok [OF reval(1)] prepare_Ok [OF prep] plan by (auto simp: prepared_of_def)
  ultimately have "execute_async (pl_registry pl3) (at_execute ws) (into_execution_permit q) = (w', out)"
    using run by (simp add: execute_async_def into_execution_permit_def pl3)
  then show ?thesis using checks con by (simp add: execute_def)
qed

section \<open>Witnesses\<close>

text \<open>A tool that writes below the workspace, under unrestricted grants and a sandbox.\<close>

definition note_effects :: "string \<Rightarrow> bool \<Rightarrow> effect_set" where
  "note_effects path resolved = default_effects\<lparr>es_filesystem_write := [workspace_scope path resolved]\<rparr>"

definition note_tool :: "(string, unit) registered_tool" where
  "note_tool =
     \<lparr>rt_spec = (sample_spec ''note'')\<lparr>sp_effect_template := note_effects ''.'' False\<rparr>, rt_advertised = True,
      rt_adapter = (listing_adapter ''note'' (note_effects ''src'' True))
        \<lparr>ad_execute_async := (\<lambda>w args payload. (w @ ''note;'', Ok JNull))\<rparr>\<rparr>"

definition note_pipeline :: "(string, unit) invocation_pipeline" where
  "note_pipeline = pipeline_new
     \<lparr>tr_seal = 7, tr_tools = bt_insert bt_empty (''note'', ''1'') note_tool, tr_advertised_specs = [rt_spec note_tool]\<rparr>
     (LinuxBubblewrap ''/usr/bin/bwrap'' True True)"

definition note_context :: invocation_context where
  "note_context =
     \<lparr>ic_invocation_id = 1, ic_workspace_id = 2, ic_workspace_identity_digest = ''ws'', ic_thread_id = 3, ic_turn_id = 4,
      ic_agent_id = ''agent'',
      ic_grants = \<lparr>pg_host_ceiling = workspace_grant Build, pg_user_profile = workspace_grant Build,
        pg_project_trust = workspace_grant Build, pg_turn_override = workspace_grant Build\<rparr>, ic_now = 0, ic_preparation_ttl = 60\<rparr>"

definition note_plan :: tool_plan where
  "note_plan = \<lparr>tp_registry_seal = 7, tp_key = (''note'', ''1''), tp_workspace_identity = ''ws'',
     tp_normalized_arguments = JNull, tp_effects = note_effects ''src'' True, tp_payload = PlannedRead\<rparr>"

definition note_revalidated :: revalidated_tool_plan where
  "note_revalidated = \<lparr>rp_registry_seal = 7, rp_key = (''note'', ''1''), rp_workspace_identity = ''ws'',
     rp_normalized_arguments = JNull, rp_effects = note_effects ''src'' True, rp_payload = ExecutionRead\<rparr>"

definition note_moments :: "string moments" where
  "note_moments = \<lparr>at_plan = [], at_revalidate = [], at_execute = ''log;''\<rparr>"

definition note_invocation :: prepared_invocation where
  "note_invocation = prepared_of plain_externals note_context ''note'' ''1'' note_plan ''token''"

definition note_prepared :: "(string, unit) invocation_pipeline" where
  "note_prepared = note_pipeline\<lparr>pl_issued_tokens := bt_insert bt_empty ''token''
     \<lparr>ib_invocation_digest = prepared_binding_digest plain_externals note_invocation,
      ib_authority_binding_digest = plan_authority_binding_digest plain_externals note_plan, ib_expires_at = 60\<rparr>\<rparr>"

definition note_approved :: prepared_invocation where
  "note_approved = note_invocation\<lparr>pi_approval := Some (approval_for note_invocation Build 9)\<rparr>"

definition note_clock :: "int \<Rightarrow> execution_clock" where
  "note_clock t = \<lparr>ck_issued = t, ck_expiry = t, ck_approval = t, ck_consume = t\<rparr>"

lemma note_registered: "registration (pl_registry note_pipeline) ''note'' ''1'' = Ok note_tool"
  by (simp add: registration_def note_pipeline_def pipeline_new_def ok_or_def)

lemma note_within: "effects_within (sp_effect_template (rt_spec note_tool)) (note_effects ''src'' True)"
  by (simp add: effects_within_def note_tool_def note_effects_def default_effects_def workspace_scope_def
      scopes_are_subset_def is_safe_concrete_path_def is_absolute_def escapes_def components_def component_of_def
      path_scope_contains_def map_filter_simps)

lemma note_planned: "plan (pl_registry note_pipeline) w ''note'' ''1'' JNull = Ok note_plan"
  using note_registered note_within
  by (simp add: plan_def verify_effect_subset_def note_plan_def)
    (simp add: note_tool_def listing_adapter_def note_pipeline_def pipeline_new_def)

lemma note_revalidates: "revalidate (pl_registry note_pipeline) w note_plan = Ok note_revalidated"
  using note_registered note_within
  by (simp add: revalidate_def note_plan_def note_revalidated_def)
    (simp add: note_tool_def listing_adapter_def note_pipeline_def pipeline_new_def verify_effect_subset_def)

lemma note_sandboxed: "ensure_for_effects (pl_sandbox note_pipeline) (note_effects ''src'' True) = Ok ()"
  by (simp add: ensure_for_effects_def ensure_def requirement_for_def note_pipeline_def pipeline_new_def
      note_effects_def default_effects_def is_read_only_def Let_def)

lemma workspace_grant_meet: "intersect_two (workspace_grant m) (workspace_grant m) = workspace_grant m"
proof -
  have "path_contains ''*'' ''*''" by (simp add: path_contains_def path_starts_with_def)
  then have "intersect_path_scopes [''*''] [''*''] = [''*'']"
    by (simp add: intersect_path_scopes_def List.map_filter_def scope_meet_def bts_of_list_def)
  then show ?thesis
    by (simp add: intersect_two_def workspace_grant_def min_expiry_def minimum_def intersect_exact_scopes_def bts_of_list_def
        List.map_filter_def)
qed

lemma note_policy: "effective_mode note_context (note_effects ''src'' True) = Ok Build"
proof -
  have "denied_reasons (workspace_grant Build) (note_effects ''src'' True) 0 = []"
    by (simp add: denied_iff grant_permits_def workspace_grant_def note_effects_def default_effects_def workspace_scope_def Let_def)
  then show ?thesis
    by (simp add: effective_mode_def evaluate_policy_def policy_input_of_def note_context_def intersect_grants_def
        workspace_grant_meet Let_def) (simp add: workspace_grant_def)
qed

lemma note_expiry: "pi_expires_at note_invocation = 60"
  by (simp add: note_invocation_def prepared_of_def note_context_def)

lemma note_prepares: "prepare plain_externals note_pipeline [] ''note'' ''1'' JNull note_context ''token'' 0 = (note_prepared, Ok note_invocation)"
proof -
  have "prepare_plan plain_externals note_pipeline [] ''note'' ''1'' JNull note_context ''token'' = Ok (note_plan, note_invocation)"
    using note_policy note_sandboxed
    by (simp add: prepare_plan_def note_planned) (simp add: note_plan_def note_context_def note_invocation_def mode_order)
  moreover have "pi_prepared_token note_invocation = ''token''" by (simp add: note_invocation_def prepared_of_def)
  moreover have "prune_issued_tokens (pl_issued_tokens note_pipeline) 0 None = bt_empty"
    by (simp add: note_pipeline_def pipeline_new_def prune_issued_tokens_def bt_retain_def bt_empty_def)
  ultimately show ?thesis
    by (simp add: prepare_def issue_token_def note_prepared_def note_expiry MAX_ISSUED_TOKENS_def bt_empty_def)
qed

lemma note_issued: "\<exists>b. ensure_issued plain_externals note_prepared note_invocation t = (note_prepared, Ok b)"
proof -
  have "pi_prepared_token note_invocation = ''token''" by (simp add: note_invocation_def prepared_of_def)
  then show ?thesis
    by (simp add: ensure_issued_def Let_def prune_issued_tokens_def note_prepared_def bt_empty_def bt_get_def bt_retain_def)
qed

lemma note_approves:
  assumes "t \<le> 60"
  shows "approve_once plain_externals note_prepared note_invocation True t t 9 = (note_prepared, Ok note_approved)"
proof -
  have "pi_effects note_invocation = note_effects ''src'' True" by (simp add: note_invocation_def prepared_of_def note_plan_def)
  then have "required_mode (pi_effects note_invocation) = Ok Build" "requires_approval note_invocation"
    by (simp_all add: required_mode_def requires_approval_def is_read_only_def note_effects_def default_effects_def)
  then show ?thesis
    using assms note_issued [of t] by (auto simp: approve_once_def note_expiry note_approved_def)
qed

lemma note_arguments: "pi_normalized_arguments note_invocation = JNull"
  by (simp add: note_invocation_def prepared_of_def note_plan_def)

lemma note_payload: "execution_payload_binding (rp_payload note_revalidated) = planned_payload_binding (tp_payload note_plan)"
  by (simp add: note_revalidated_def note_plan_def)

lemma note_tables: "bt_wf (pl_issued_tokens note_pipeline)" "pl_consumed_tokens note_pipeline = bt_empty"
  by (simp_all add: note_pipeline_def pipeline_new_def)

lemma note_checks:
  assumes "t < 60"
  shows "\<exists>pl3. execute_checks plain_externals note_prepared note_approved (note_clock t) note_moments = (pl3, Ok note_revalidated) \<and>
    pl_consumed_tokens pl3 = bt_empty \<and> pi_prepared_token note_approved = ''token''"
  using approved_checks [OF note_tables(1) note_prepares note_approves [of 0], of "note_clock t" note_plan note_moments note_revalidated]
    assms note_planned note_revalidates note_payload
  by (auto simp: note_clock_def note_expiry note_arguments note_tables)


theorem token_is_dispatched_at_most_once_witness:
  "\<exists>s. (pipeline_step plain_externals 60 5)\<^sup>*\<^sup>* (token_run_new note_pipeline 0) s \<and> map fst (tk_dispatched s) = [''token''] \<and>
     (distinct (map fst (tk_dispatched s)) \<or> binding_collision plain_externals (tk_prepared s) (tk_checked s))"
proof -
  let ?step = "pipeline_step plain_externals 60 5"
  obtain pl3 where checks: "execute_checks plain_externals note_prepared note_approved (note_clock 1) note_moments = (pl3, Ok note_revalidated)"
      and pl3: "pl_consumed_tokens pl3 = bt_empty" "pi_prepared_token note_approved = ''token''"
    using note_checks [of 1] by auto
  let ?s1 = "(token_run_new note_pipeline 0)\<lparr>tk_pipeline := note_prepared, tk_clock := 0, tk_prepared := [note_invocation]\<rparr>"
  let ?s2 = "?s1\<lparr>tk_pipeline := pl3, tk_clock := 1, tk_checked := [note_approved], tk_inflight := [(note_approved, 1)]\<rparr>"
  let ?s3 = "?s2\<lparr>tk_pipeline := pl3\<lparr>pl_consumed_tokens := [(''token'', 2)]\<rparr>, tk_clock := 2, tk_inflight := [],
    tk_dispatched := [(''token'', 2)]\<rparr>"
  have "?step (token_run_new note_pipeline 0) ?s1"
    using pipeline_step.prepared [of plain_externals "token_run_new note_pipeline 0", simplified token_run_new_def, simplified, OF note_prepares, of 60 5]
    by (simp add: token_run_new_def note_context_def)
  moreover have "?step ?s1 ?s2"
    using pipeline_step.checked [of plain_externals ?s1 note_approved "note_clock 1" note_moments pl3 note_revalidated 60 5] checks
    by (simp add: token_run_new_def note_clock_def)
  moreover have "?step ?s2 ?s3"
    using pipeline_step.dispatched [of ?s2 "[]" note_approved 1 "[]" 2 "[(''token'', 2)]" 5 plain_externals 60] pl3
    by (simp add: token_run_new_def consume_token_def prune_consumed_tokens_def bt_retain_def bt_empty_def evict_oldest_def
        bt_contains_def MAX_ISSUED_TOKENS_def)
  ultimately have run: "?step\<^sup>*\<^sup>* (token_run_new note_pipeline 0) ?s3" by (meson converse_rtranclp_into_rtranclp r_into_rtranclp)
  have inj: "inj (time_str plain_externals)" using plain_num_inj by (auto simp: inj_def plain_externals_def)
  have "(60::int) + 5 \<le> nanos CONSUMED_TOKEN_RETENTION_SECONDS"
    by (simp add: nanos_def CONSUMED_TOKEN_RETENTION_SECONDS_def DEFAULT_PREPARATION_TTL_SECONDS_def)
  from token_is_dispatched_at_most_once [OF plain_externals_ok inj this run [unfolded note_pipeline_def]]
  show ?thesis using run by (intro exI [of _ ?s3]) simp
qed

definition used_table :: "nat \<Rightarrow> consumed_table" where
  "used_table n = map (\<lambda>k. (replicate k CHR ''u'', 0)) [0..<n]"

lemma oldest_from_equal: "\<forall>e \<in> set es. snd e = snd b \<Longrightarrow> oldest_from b es = b"
  by (induction es) auto

lemma used_table_wf: "bt_wf (used_table n)"
proof -
  have "replicate m (CHR ''u'') < replicate (Suc (m + k)) (CHR ''u'')" for m k by (induction m) auto
  then have "replicate m (CHR ''u'') < replicate n (CHR ''u'')" if "m < n" for m n using less_imp_Suc_add [OF that] by auto
  then show ?thesis
    by (auto simp: bt_wf_def used_table_def sorted_wrt_map intro: sorted_wrt_mono_rel [OF _ sorted_wrt_upt])
qed

lemma used_table_prune: "prune_consumed_tokens (used_table n) 1 = used_table n"
  by (simp add: prune_consumed_tokens_def bt_retain_def used_table_def nanos_def CONSUMED_TOKEN_RETENTION_SECONDS_def
      DEFAULT_PREPARATION_TTL_SECONDS_def filter_map comp_def)

lemma used_table_oldest: "oldest (used_table (Suc n)) = Some []"
  by (simp add: used_table_def upt_conv_Cons oldest_def oldest_from_equal del: upt_Suc)

lemma used_table_other: "\<not> bt_contains (used_table n) ''x''"
proof -
  have "replicate k CHR ''u'' \<noteq> ''x''" for k by (cases k) auto
  then show ?thesis by (force simp: bt_contains_def bt_get_def used_table_def map_of_eq_None_iff)
qed

theorem full_table_forgets_oldest_token_witness:
  "\<exists>consumed1. consume_token (used_table 4096) ''x'' 1 = (consumed1, Ok ()) \<and>
    (\<exists>consumed2. consume_token consumed1 [] 2 = (consumed2, Ok ()))"
proof -
  have "length (used_table 4096) \<ge> MAX_ISSUED_TOKENS" by (simp only: used_table_def length_map length_upt MAX_ISSUED_TOKENS_def)
  moreover have "oldest (used_table 4096) = Some []" using used_table_oldest [of 4095] by simp
  ultimately show ?thesis
    using full_table_forgets_oldest_token [OF used_table_wf, of 4096 1 "[]" "''x''" 2] used_table_other [of 4096]
    by (simp add: used_table_prune)
qed

theorem approved_invocation_runs_witness:
  "\<exists>pl'. execute plain_externals note_prepared note_approved (note_clock 3) note_moments = (pl', ''log;note;'', Ok JNull)"
proof -
  have run: "ad_execute_async (rt_adapter note_tool) (at_execute note_moments) JNull (rp_payload note_revalidated) =
      (''log;note;'', Ok JNull)"
    by (simp add: note_tool_def note_moments_def)
  have "bt_wf (pl_consumed_tokens note_pipeline)" "\<not> bt_contains (pl_consumed_tokens note_pipeline) ''token''"
    by (simp_all add: note_tables bt_contains_def)
  then show ?thesis
    using approved_invocation_runs [OF note_tables(1) _ note_prepares note_approves [of 0], of "note_clock 3" note_plan note_moments
        note_revalidated note_tool "''log;note;''" "Ok JNull"] note_planned note_revalidates note_payload note_registered run
    by (simp add: note_clock_def note_expiry note_arguments)
qed

end
