(* ===== verification/Core_Projection.thy ===== *)
theory Core_Projection
  imports Effect_Values Turn_Machine Invocation_Machine
begin

text \<open>
  The projection of an event history (\<open>yeux-core/src/projection.rs\<close>): the state rebuilt
  from evidence, \<open>apply\<close> with its checks in the order of the source, and \<open>replay\<close>.

  \<open>apply\<close> mutates the projection through \<open>&mut self\<close> and may return an error; the model
  returns the projection after the call together with the result, so that a mutation made
  before an error is visible. The sequence number is a \<open>u64\<close>, whose successor wraps.
\<close>

section \<open>State\<close>

record projected_invocation =
  pv_invocation_id :: invocation_id
  pv_thread_id :: thread_id
  pv_turn_id :: turn_id
  pv_agent_id :: agent_id
  pv_call_id :: string
  pv_tool_id :: string
  pv_tool_version :: string
  pv_normalized_arguments_digest :: string
  pv_effects :: effect_set
  pv_effect_digest :: string
  pv_idempotency :: idempotency
  pv_state :: invocation_state
  pv_reason :: "string option"
  pv_reconciliation :: "reconciliation_evidence option"

record projected_job =
  pj_spec :: job_spec
  pj_state :: job_state

record projection =
  pr_workspaces :: "(workspace_id, workspace) btree_map"
  pr_threads :: "(thread_id, thread) btree_map"
  pr_turns :: "(turn_id, turn) btree_map"
  pr_items :: "(item_id, item) btree_map"
  pr_invocations :: "(invocation_id, projected_invocation) btree_map"
  pr_jobs :: "(job_id, projected_job) btree_map"
  pr_model_events :: "(model_request_id, model_event list) btree_map"
  pr_agent_results :: "(agent_run_id, agent_result) btree_map"
  pr_steering :: "(turn_id, string list) btree_map"
  pr_last_seq_by_thread :: "(thread_id, nat) btree_map"
  pr_seen_events :: "event_id btree_set"

definition projection_default :: projection where
  "projection_default =
     \<lparr>pr_workspaces = bt_empty, pr_threads = bt_empty, pr_turns = bt_empty, pr_items = bt_empty,
      pr_invocations = bt_empty, pr_jobs = bt_empty, pr_model_events = bt_empty,
      pr_agent_results = bt_empty, pr_steering = bt_empty, pr_last_seq_by_thread = bt_empty,
      pr_seen_events = []\<rparr>"

datatype replay_error =
    IncompatibleSchema nat nat nat nat
  | DuplicateEvent event_id
  | SequenceGap thread_id nat nat
  | DuplicateEntity string string
  | MissingEntity string string
  | EnvelopeMismatch string
  | ActiveTurnConflict thread_id turn_id
  | TurnStateMismatch turn_id turn_state turn_state
  | InvalidTurnTransition turn_state turn_state
  | InvocationStateMismatch invocation_id invocation_state invocation_state
  | InvalidInvocationTransition invocation_state invocation_state
  | InvocationEvidenceMismatch invocation_id string
  | JobStateMismatch job_id job_state job_state

type_synonym apply_result = "projection \<times> (replay_error, unit) rust_result"

abbreviation reject :: "projection \<Rightarrow> replay_error \<Rightarrow> apply_result" where
  "reject p e \<equiv> (p, Err e)"

abbreviation accept :: "projection \<Rightarrow> apply_result" where
  "accept p \<equiv> (p, Ok ())"

definition bts_insert :: "'a::linorder btree_set \<Rightarrow> 'a \<Rightarrow> 'a btree_set" where
  "bts_insert s x = insort_insert x s"

definition active_turn :: "projection \<Rightarrow> thread_id \<Rightarrow> turn option" where
  "active_turn p t =
     find (\<lambda>u. tu_thread_id u = t \<and> \<not> turn_is_terminal (tu_state u)) (bt_values (pr_turns p))"

section \<open>One event\<close>

text \<open>\<open>if let Some(thread) = self.threads.get_mut(..)\<close>\<close>

definition modify_thread :: "thread_id \<Rightarrow> (thread \<Rightarrow> thread) \<Rightarrow> projection \<Rightarrow> projection" where
  "modify_thread t f p =
     (case bt_get (pr_threads p) t of
        None \<Rightarrow> p
      | Some th \<Rightarrow> p\<lparr>pr_threads := bt_insert (pr_threads p) t (f th)\<rparr>)"

definition apply_workspace_opened :: "externals \<Rightarrow> projection \<Rightarrow> workspace \<Rightarrow> apply_result" where
  "apply_workspace_opened X p w =
     (if bt_contains (pr_workspaces p) (ws_id w)
      then reject p (DuplicateEntity ''workspace'' (uuid_str X (ws_id w)))
      else accept (p\<lparr>pr_workspaces := bt_insert (pr_workspaces p) (ws_id w) w\<rparr>))"

definition apply_workspace_trust_changed ::
  "externals \<Rightarrow> projection \<Rightarrow> workspace_id \<Rightarrow> workspace_trust \<Rightarrow> apply_result" where
  "apply_workspace_trust_changed X p wid trust =
     (case bt_get (pr_workspaces p) wid of
        None \<Rightarrow> reject p (MissingEntity ''workspace'' (uuid_str X wid))
      | Some w \<Rightarrow> accept (p\<lparr>pr_workspaces := bt_insert (pr_workspaces p) wid (w\<lparr>ws_trust := trust\<rparr>)\<rparr>))"

definition apply_thread_created :: "externals \<Rightarrow> projection \<Rightarrow> event_envelope \<Rightarrow> thread \<Rightarrow> apply_result" where
  "apply_thread_created X p env t =
     (if th_id t \<noteq> en_thread_id env then reject p (EnvelopeMismatch ''thread_id'')
      else if bt_contains (pr_threads p) (th_id t)
      then reject p (DuplicateEntity ''thread'' (uuid_str X (th_id t)))
      else if \<not> bt_contains (pr_workspaces p) (th_workspace_id t)
      then reject p (MissingEntity ''workspace'' (uuid_str X (th_workspace_id t)))
      else case th_parent_thread_id t of
        Some parent \<Rightarrow>
          if \<not> bt_contains (pr_threads p) parent
          then reject p (MissingEntity ''parent thread'' (uuid_str X parent))
          else accept (p\<lparr>pr_threads := bt_insert (pr_threads p) (th_id t) t\<rparr>)
      | None \<Rightarrow> accept (p\<lparr>pr_threads := bt_insert (pr_threads p) (th_id t) t\<rparr>))"

definition apply_thread_archived :: "externals \<Rightarrow> projection \<Rightarrow> event_envelope \<Rightarrow> thread_id \<Rightarrow> apply_result" where
  "apply_thread_archived X p env tid =
     (if tid \<noteq> en_thread_id env then reject p (EnvelopeMismatch ''thread_id'')
      else case bt_get (pr_threads p) tid of
        None \<Rightarrow> reject p (MissingEntity ''thread'' (uuid_str X tid))
      | Some t \<Rightarrow>
          accept (p\<lparr>pr_threads := bt_insert (pr_threads p) tid (t\<lparr>th_status := Archived\<rparr>)\<rparr>))"

definition apply_turn_started :: "externals \<Rightarrow> projection \<Rightarrow> event_envelope \<Rightarrow> turn \<Rightarrow> apply_result" where
  "apply_turn_started X p env t =
     (if tu_thread_id t \<noteq> en_thread_id env \<or> en_turn_id env \<noteq> Some (tu_id t)
      then reject p (EnvelopeMismatch ''turn_id'')
      else if tu_state t \<noteq> Accepted then reject p (EnvelopeMismatch ''initial turn state'')
      else if \<not> bt_contains (pr_threads p) (tu_thread_id t)
      then reject p (MissingEntity ''thread'' (uuid_str X (tu_thread_id t)))
      else case active_turn p (tu_thread_id t) of
        Some active \<Rightarrow> reject p (ActiveTurnConflict (tu_thread_id t) (tu_id active))
      | None \<Rightarrow>
          if bt_contains (pr_turns p) (tu_id t)
          then reject p (DuplicateEntity ''turn'' (uuid_str X (tu_id t)))
          else accept (modify_thread (tu_thread_id t) (\<lambda>th. th\<lparr>th_status := thread_status.Active\<rparr>)
                 (p\<lparr>pr_turns := bt_insert (pr_turns p) (tu_id t) t\<rparr>)))"

definition changed_turn :: "turn \<Rightarrow> turn_state \<Rightarrow> string option \<Rightarrow> instant \<Rightarrow> turn" where
  "changed_turn t to reason time =
     t\<lparr>tu_state := to,
       tu_failure := (if to = turn_state.Failed then reason else tu_failure t),
       tu_ended_at := (if turn_is_terminal to then Some time else tu_ended_at t)\<rparr>"

definition apply_turn_state_changed ::
  "externals \<Rightarrow> projection \<Rightarrow> event_envelope \<Rightarrow> turn_id \<Rightarrow> turn_state \<Rightarrow> turn_state \<Rightarrow> string option \<Rightarrow> apply_result" where
  "apply_turn_state_changed X p env tid frm to reason =
     (if en_turn_id env \<noteq> Some tid then reject p (EnvelopeMismatch ''turn_id'')
      else case bt_get (pr_turns p) tid of
        None \<Rightarrow> reject p (MissingEntity ''turn'' (uuid_str X tid))
      | Some t \<Rightarrow>
          if tu_state t \<noteq> frm then reject p (TurnStateMismatch tid (tu_state t) frm)
          else if \<not> can_transition_turn frm to then reject p (InvalidTurnTransition frm to)
          else
            let p' = p\<lparr>pr_turns := bt_insert (pr_turns p) tid (changed_turn t to reason (en_time env))\<rparr> in
            accept (if turn_is_terminal to
              then modify_thread (tu_thread_id t)
                (\<lambda>th. th\<lparr>th_status := (if to = turn_state.Failed then thread_status.Failed else Idle)\<rparr>) p'
              else p'))"

definition apply_turn_steered :: "externals \<Rightarrow> projection \<Rightarrow> turn_id \<Rightarrow> string \<Rightarrow> apply_result" where
  "apply_turn_steered X p tid message =
     (if \<not> bt_contains (pr_turns p) tid then reject p (MissingEntity ''turn'' (uuid_str X tid))
      else accept (p\<lparr>pr_steering := bt_insert (pr_steering p) tid
             ((case bt_get (pr_steering p) tid of None \<Rightarrow> [] | Some ms \<Rightarrow> ms) @ [message])\<rparr>))"

definition apply_item_added :: "externals \<Rightarrow> projection \<Rightarrow> event_envelope \<Rightarrow> item \<Rightarrow> apply_result" where
  "apply_item_added X p env i =
     (if it_thread_id i \<noteq> en_thread_id env \<or> en_turn_id env \<noteq> Some (it_turn_id i)
      then reject p (EnvelopeMismatch ''item parent'')
      else if \<not> bt_contains (pr_turns p) (it_turn_id i)
      then reject p (MissingEntity ''turn'' (uuid_str X (it_turn_id i)))
      else
        let previous = bt_get (pr_items p) (it_id i);
            p' = p\<lparr>pr_items := bt_insert (pr_items p) (it_id i) i\<rparr> in
        if previous \<noteq> None then reject p' (DuplicateEntity ''item'' (uuid_str X (it_id i)))
        else accept p')"

definition apply_model_requested :: "projection \<Rightarrow> model_request_id \<Rightarrow> apply_result" where
  "apply_model_requested p rid =
     accept (case bt_get (pr_model_events p) rid of
        None \<Rightarrow> p\<lparr>pr_model_events := bt_insert (pr_model_events p) rid []\<rparr>
      | Some _ \<Rightarrow> p)"

definition apply_model_stream_event ::
  "externals \<Rightarrow> projection \<Rightarrow> model_request_id \<Rightarrow> model_event \<Rightarrow> apply_result" where
  "apply_model_stream_event X p rid ev =
     (case bt_get (pr_model_events p) rid of
        None \<Rightarrow> reject p (MissingEntity ''model request'' (uuid_str X rid))
      | Some evs \<Rightarrow> accept (p\<lparr>pr_model_events := bt_insert (pr_model_events p) rid (evs @ [ev])\<rparr>))"

definition apply_invocation_proposed ::
  "externals \<Rightarrow> projection \<Rightarrow> event_envelope \<Rightarrow> invocation_id \<Rightarrow> string \<Rightarrow> string \<Rightarrow> string \<Rightarrow> string \<Rightarrow>
   effect_set \<Rightarrow> string \<Rightarrow> idempotency \<Rightarrow> apply_result" where
  "apply_invocation_proposed X p env iid call tool version args_digest effects effect_digest idem =
     (case en_turn_id env of
        None \<Rightarrow> reject p (EnvelopeMismatch ''invocation turn_id'')
      | Some tid \<Rightarrow>
          if idem \<noteq> es_idempotency effects
          then reject p (InvocationEvidenceMismatch iid ''idempotency'')
          else if digest_effects X effects \<noteq> effect_digest
          then reject p (InvocationEvidenceMismatch iid ''effect_digest'')
          else if bt_contains (pr_invocations p) iid
          then reject p (DuplicateEntity ''invocation'' (uuid_str X iid))
          else accept (p\<lparr>pr_invocations := bt_insert (pr_invocations p) iid
            \<lparr>pv_invocation_id = iid, pv_thread_id = en_thread_id env, pv_turn_id = tid,
             pv_agent_id = en_agent_id env, pv_call_id = call, pv_tool_id = tool,
             pv_tool_version = version, pv_normalized_arguments_digest = args_digest,
             pv_effects = effects, pv_effect_digest = effect_digest, pv_idempotency = idem,
             pv_state = Proposed, pv_reason = None, pv_reconciliation = None\<rparr>\<rparr>))"

definition wrong_parent :: "projected_invocation \<Rightarrow> event_envelope \<Rightarrow> bool" where
  "wrong_parent v env \<longleftrightarrow>
     pv_thread_id v \<noteq> en_thread_id env \<or> Some (pv_turn_id v) \<noteq> en_turn_id env \<or>
     pv_agent_id v \<noteq> en_agent_id env"

definition apply_invocation_state_changed ::
  "externals \<Rightarrow> projection \<Rightarrow> event_envelope \<Rightarrow> invocation_id \<Rightarrow> invocation_state \<Rightarrow> invocation_state \<Rightarrow>
   string option \<Rightarrow> apply_result" where
  "apply_invocation_state_changed X p env iid frm to reason =
     (case bt_get (pr_invocations p) iid of
        None \<Rightarrow> reject p (MissingEntity ''invocation'' (uuid_str X iid))
      | Some v \<Rightarrow>
          if wrong_parent v env then reject p (EnvelopeMismatch ''invocation parent'')
          else if pv_state v \<noteq> frm then reject p (InvocationStateMismatch iid (pv_state v) frm)
          else if \<not> can_transition_invocation_with_idempotency frm to (pv_idempotency v)
          then reject p (InvalidInvocationTransition frm to)
          else accept (p\<lparr>pr_invocations := bt_insert (pr_invocations p) iid
                 (v\<lparr>pv_state := to, pv_reason := reason\<rparr>)\<rparr>))"

definition apply_invocation_reconciled ::
  "externals \<Rightarrow> projection \<Rightarrow> event_envelope \<Rightarrow> invocation_id \<Rightarrow> reconciliation_outcome \<Rightarrow>
   reconciliation_evidence \<Rightarrow> apply_result" where
  "apply_invocation_reconciled X p env iid outcome evidence =
     (case bt_get (pr_invocations p) iid of
        None \<Rightarrow> reject p (MissingEntity ''invocation'' (uuid_str X iid))
      | Some v \<Rightarrow>
          if wrong_parent v env then reject p (EnvelopeMismatch ''invocation parent'')
          else if is_blank (re_source evidence) \<or> is_blank (re_summary evidence)
          then reject p (InvocationEvidenceMismatch iid ''reconciliation evidence'')
          else if \<not> can_reconcile_invocation (pv_state v) outcome
          then reject p (InvalidInvocationTransition (pv_state v) (outcome_state outcome))
          else accept (p\<lparr>pr_invocations := bt_insert (pr_invocations p) iid
                 (v\<lparr>pv_state := outcome_state outcome, pv_reason := Some (re_summary evidence),
                    pv_reconciliation := Some evidence\<rparr>)\<rparr>))"

definition apply_job_created :: "externals \<Rightarrow> projection \<Rightarrow> job_spec \<Rightarrow> apply_result" where
  "apply_job_created X p job =
     (if bt_contains (pr_jobs p) (js_id job)
      then reject p (DuplicateEntity ''job'' (uuid_str X (js_id job)))
      else accept (p\<lparr>pr_jobs := bt_insert (pr_jobs p) (js_id job)
             \<lparr>pj_spec = job, pj_state = job_state.Active\<rparr>\<rparr>))"

definition apply_job_state_changed ::
  "externals \<Rightarrow> projection \<Rightarrow> job_id \<Rightarrow> job_state \<Rightarrow> job_state \<Rightarrow> apply_result" where
  "apply_job_state_changed X p jid frm to =
     (case bt_get (pr_jobs p) jid of
        None \<Rightarrow> reject p (MissingEntity ''job'' (uuid_str X jid))
      | Some j \<Rightarrow>
          if pj_state j \<noteq> frm then reject p (JobStateMismatch jid (pj_state j) frm)
          else accept (p\<lparr>pr_jobs := bt_insert (pr_jobs p) jid (j\<lparr>pj_state := to\<rparr>)\<rparr>))"

fun apply_event :: "externals \<Rightarrow> projection \<Rightarrow> event_envelope \<Rightarrow> event \<Rightarrow> apply_result" where
  "apply_event X p env (WorkspaceOpened w) = apply_workspace_opened X p w"
| "apply_event X p env (WorkspaceTrustChanged w trust) = apply_workspace_trust_changed X p w trust"
| "apply_event X p env (ThreadStarted t) = apply_thread_created X p env t"
| "apply_event X p env (ThreadForked t) = apply_thread_created X p env t"
| "apply_event X p env (ThreadArchived t) = apply_thread_archived X p env t"
| "apply_event X p env (TurnStarted t) = apply_turn_started X p env t"
| "apply_event X p env (TurnStateChanged t frm to reason) = apply_turn_state_changed X p env t frm to reason"
| "apply_event X p env (TurnSteered t message) = apply_turn_steered X p t message"
| "apply_event X p env (ItemAdded i) = apply_item_added X p env i"
| "apply_event X p env (ModelRequested r) = apply_model_requested p r"
| "apply_event X p env (ModelStreamEvent r ev) = apply_model_stream_event X p r ev"
| "apply_event X p env (InvocationProposed i call tool version args effects digest idem) =
     apply_invocation_proposed X p env i call tool version args effects digest idem"
| "apply_event X p env (InvocationStateChanged i frm to reason) =
     apply_invocation_state_changed X p env i frm to reason"
| "apply_event X p env (InvocationReconciled i outcome evidence) =
     apply_invocation_reconciled X p env i outcome evidence"
| "apply_event X p env (JobCreated job) = apply_job_created X p job"
| "apply_event X p env (JobStateChanged j frm to) = apply_job_state_changed X p j frm to"
| "apply_event X p env (AgentSpawned _) = accept p"
| "apply_event X p env (AgentCompleted r) =
     accept (p\<lparr>pr_agent_results := bt_insert (pr_agent_results p) (ar_run_id r) r\<rparr>)"
| "apply_event X p env (RuntimeDiagnostic _ _ _) = accept p"

text \<open>The bookkeeping after an accepted event.\<close>

definition record_event :: "projection \<Rightarrow> event_envelope \<Rightarrow> projection" where
  "record_event p env =
     modify_thread (en_thread_id env) (\<lambda>t. t\<lparr>th_last_seq := en_seq env, th_updated_at := en_time env\<rparr>)
       (p\<lparr>pr_seen_events := bts_insert (pr_seen_events p) (en_event_id env),
          pr_last_seq_by_thread := bt_insert (pr_last_seq_by_thread p) (en_thread_id env) (en_seq env)\<rparr>)"

definition last_seq :: "projection \<Rightarrow> thread_id \<Rightarrow> nat" where
  "last_seq p t = (case bt_get (pr_last_seq_by_thread p) t of None \<Rightarrow> 0 | Some n \<Rightarrow> n)"

definition check_envelope :: "projection \<Rightarrow> event_envelope \<Rightarrow> (replay_error, unit) rust_result" where
  "check_envelope p env =
     (if \<not> accepts PROTOCOL_VERSION (en_schema_version env)
      then Err (IncompatibleSchema (major (en_schema_version env)) (minor (en_schema_version env))
                 (major PROTOCOL_VERSION) (minor PROTOCOL_VERSION))
      else if en_event_id env \<in> set (pr_seen_events p) then Err (DuplicateEvent (en_event_id env))
      else
        let expected = wrapping_add (last_seq p (en_thread_id env)) 1 in
        if en_seq env \<noteq> expected then Err (SequenceGap (en_thread_id env) expected (en_seq env))
        else Ok ())"

definition apply_envelope :: "externals \<Rightarrow> projection \<Rightarrow> event_envelope \<Rightarrow> apply_result" where
  "apply_envelope X p env =
     (case check_envelope p env of
        Inl e \<Rightarrow> reject p e
      | Inr _ \<Rightarrow>
          (case apply_event X p env (en_event env) of
             (p', Inl e) \<Rightarrow> reject p' e
           | (p', Inr _) \<Rightarrow> accept (record_event p' env)))"

text \<open>\<open>replay\<close> starts from the empty projection and stops at the first error.\<close>

fun replay_from :: "externals \<Rightarrow> projection \<Rightarrow> event_envelope list \<Rightarrow> (replay_error, projection) rust_result" where
  "replay_from X p [] = Ok p"
| "replay_from X p (env # envs) =
     (case apply_envelope X p env of
        (p', Inl e) \<Rightarrow> Err e
      | (p', Inr _) \<Rightarrow> replay_from X p' envs)"

definition replay :: "externals \<Rightarrow> event_envelope list \<Rightarrow> (replay_error, projection) rust_result" where
  "replay X envs = replay_from X projection_default envs"

section \<open>Steps and replays\<close>

definition apply_step :: "externals \<Rightarrow> projection \<Rightarrow> event_envelope \<Rightarrow> (replay_error, projection) rust_result" where
  "apply_step X p env = (case apply_envelope X p env of (p', Inl e) \<Rightarrow> Err e | (p', Inr _) \<Rightarrow> Ok p')"

interpretation replays: event_fold "apply_step X" "replay_from X" for X
  by unfold_locales (auto simp: apply_step_def split: prod.splits sum.splits)

lemma check_envelope_Ok:
  "check_envelope p env = Ok () \<longleftrightarrow>
     accepts PROTOCOL_VERSION (en_schema_version env) \<and> en_event_id env \<notin> set (pr_seen_events p) \<and>
     en_seq env = wrapping_add (last_seq p (en_thread_id env)) 1"
  by (auto simp: check_envelope_def Let_def)

lemma apply_step_Ok:
  "apply_step X p env = Ok p' \<longleftrightarrow>
     check_envelope p env = Ok () \<and>
     (\<exists>q. apply_event X p env (en_event env) = (q, Ok ()) \<and> p' = record_event q env)"
  by (auto simp: apply_step_def apply_envelope_def split: sum.splits prod.splits)

lemmas handler_defs =
  apply_workspace_opened_def apply_workspace_trust_changed_def apply_thread_created_def
  apply_thread_archived_def apply_turn_started_def apply_turn_state_changed_def
  apply_turn_steered_def apply_item_added_def apply_model_requested_def
  apply_model_stream_event_def apply_invocation_proposed_def apply_invocation_state_changed_def
  apply_invocation_reconciled_def apply_job_created_def apply_job_state_changed_def

text \<open>What the bookkeeping leaves alone.\<close>

lemma modify_thread_sel [simp]:
  "pr_workspaces (modify_thread t f p) = pr_workspaces p"
  "pr_turns (modify_thread t f p) = pr_turns p"
  "pr_items (modify_thread t f p) = pr_items p"
  "pr_invocations (modify_thread t f p) = pr_invocations p"
  "pr_jobs (modify_thread t f p) = pr_jobs p"
  "pr_model_events (modify_thread t f p) = pr_model_events p"
  "pr_agent_results (modify_thread t f p) = pr_agent_results p"
  "pr_steering (modify_thread t f p) = pr_steering p"
  "pr_last_seq_by_thread (modify_thread t f p) = pr_last_seq_by_thread p"
  "pr_seen_events (modify_thread t f p) = pr_seen_events p"
  by (simp_all add: modify_thread_def split: option.splits)

lemma modify_thread_get [simp]:
  "bt_get (pr_threads (modify_thread t f p)) k =
     (if k = t then map_option f (bt_get (pr_threads p) t) else bt_get (pr_threads p) k)"
  by (simp add: modify_thread_def split: option.splits)

lemma modify_thread_contains [simp]:
  "bt_contains (pr_threads (modify_thread t f p)) k \<longleftrightarrow> bt_contains (pr_threads p) k"
  by (simp add: bt_contains_def)

lemma modify_thread_wf [simp]: "bt_wf (pr_threads p) \<Longrightarrow> bt_wf (pr_threads (modify_thread t f p))"
  by (simp add: modify_thread_def split: option.splits)

lemma record_event_sel [simp]:
  "pr_workspaces (record_event p env) = pr_workspaces p"
  "pr_turns (record_event p env) = pr_turns p"
  "pr_items (record_event p env) = pr_items p"
  "pr_invocations (record_event p env) = pr_invocations p"
  "pr_jobs (record_event p env) = pr_jobs p"
  "pr_model_events (record_event p env) = pr_model_events p"
  "pr_agent_results (record_event p env) = pr_agent_results p"
  "pr_steering (record_event p env) = pr_steering p"
  "pr_last_seq_by_thread (record_event p env) =
     bt_insert (pr_last_seq_by_thread p) (en_thread_id env) (en_seq env)"
  "pr_seen_events (record_event p env) = bts_insert (pr_seen_events p) (en_event_id env)"
  by (simp_all add: record_event_def)

lemma record_event_threads [simp]:
  "bt_get (pr_threads (record_event p env)) k =
     (if k = en_thread_id env
      then map_option (\<lambda>t. t\<lparr>th_last_seq := en_seq env, th_updated_at := en_time env\<rparr>) (bt_get (pr_threads p) k)
      else bt_get (pr_threads p) k)"
  "bt_contains (pr_threads (record_event p env)) k \<longleftrightarrow> bt_contains (pr_threads p) k"
  "bt_wf (pr_threads p) \<Longrightarrow> bt_wf (pr_threads (record_event p env))"
  by (simp_all add: record_event_def)

text \<open>Handlers of events do not touch the bookkeeping.\<close>

lemma apply_event_bookkeeping:
  assumes "apply_event X p env ev = (q, r)"
  shows "pr_last_seq_by_thread q = pr_last_seq_by_thread p \<and> pr_seen_events q = pr_seen_events p"
  using assms by (cases ev) (auto simp: handler_defs Let_def split: if_splits option.splits)

lemma set_bts_insert [simp]: "set (bts_insert s x) = insert x (set s)"
  by (simp add: bts_insert_def set_insort_insert)

lemma apply_step_bookkeeping:
  assumes "apply_step X p env = Ok p'"
  shows "set (pr_seen_events p') = insert (en_event_id env) (set (pr_seen_events p))"
    and "last_seq p' t = (if t = en_thread_id env then en_seq env else last_seq p t)"
  using assms by (auto simp: apply_step_Ok last_seq_def dest: apply_event_bookkeeping)

section \<open>The invariant of a projection\<close>

definition maps_wf :: "projection \<Rightarrow> bool" where
  "maps_wf p \<longleftrightarrow>
     bt_wf (pr_workspaces p) \<and> bt_wf (pr_threads p) \<and> bt_wf (pr_turns p) \<and> bt_wf (pr_items p) \<and>
     bt_wf (pr_invocations p) \<and> bt_wf (pr_jobs p) \<and> bt_wf (pr_model_events p) \<and>
     bt_wf (pr_agent_results p) \<and> bt_wf (pr_steering p) \<and> bt_wf (pr_last_seq_by_thread p)"

text \<open>Every entity is filed under its own identifier.\<close>

definition keys_ok :: "projection \<Rightarrow> bool" where
  "keys_ok p \<longleftrightarrow>
     (\<forall>k w. bt_get (pr_workspaces p) k = Some w \<longrightarrow> ws_id w = k) \<and>
     (\<forall>k t. bt_get (pr_threads p) k = Some t \<longrightarrow> th_id t = k) \<and>
     (\<forall>k t. bt_get (pr_turns p) k = Some t \<longrightarrow> tu_id t = k) \<and>
     (\<forall>k i. bt_get (pr_items p) k = Some i \<longrightarrow> it_id i = k) \<and>
     (\<forall>k v. bt_get (pr_invocations p) k = Some v \<longrightarrow> pv_invocation_id v = k) \<and>
     (\<forall>k j. bt_get (pr_jobs p) k = Some j \<longrightarrow> js_id (pj_spec j) = k) \<and>
     (\<forall>k r. bt_get (pr_agent_results p) k = Some r \<longrightarrow> ar_run_id r = k)"

text \<open>Every reference that \<open>apply\<close> checks points to an entity of the projection.\<close>

definition parents_ok :: "projection \<Rightarrow> bool" where
  "parents_ok p \<longleftrightarrow>
     (\<forall>k t. bt_get (pr_threads p) k = Some t \<longrightarrow>
        bt_contains (pr_workspaces p) (th_workspace_id t) \<and>
        (\<forall>q. th_parent_thread_id t = Some q \<longrightarrow> bt_contains (pr_threads p) q)) \<and>
     (\<forall>k t. bt_get (pr_turns p) k = Some t \<longrightarrow> bt_contains (pr_threads p) (tu_thread_id t)) \<and>
     (\<forall>k i. bt_get (pr_items p) k = Some i \<longrightarrow> bt_contains (pr_turns p) (it_turn_id i)) \<and>
     (\<forall>k. bt_contains (pr_steering p) k \<longrightarrow> bt_contains (pr_turns p) k)"

definition running :: "projection \<Rightarrow> turn_id \<Rightarrow> thread_id \<Rightarrow> bool" where
  "running p k t \<longleftrightarrow>
     (\<exists>u. bt_get (pr_turns p) k = Some u \<and> tu_thread_id u = t \<and> \<not> turn_is_terminal (tu_state u))"

definition one_active :: "projection \<Rightarrow> bool" where
  "one_active p \<longleftrightarrow> (\<forall>t k l. running p k t \<longrightarrow> running p l t \<longrightarrow> k = l)"

definition turns_ended :: "projection \<Rightarrow> bool" where
  "turns_ended p \<longleftrightarrow>
     (\<forall>k t. bt_get (pr_turns p) k = Some t \<longrightarrow> turn_is_terminal (tu_state t) \<longrightarrow> tu_ended_at t \<noteq> None)"

text \<open>The stored evidence of an invocation is the evidence that was verified.\<close>

definition invocation_verified :: "externals \<Rightarrow> projected_invocation \<Rightarrow> bool" where
  "invocation_verified X v \<longleftrightarrow>
     pv_effect_digest v = digest_effects X (pv_effects v) \<and>
     pv_idempotency v = es_idempotency (pv_effects v) \<and>
     (\<forall>e. pv_reconciliation v = Some e \<longrightarrow>
        (pv_state v = invocation_state.Completed \<or> pv_state v = invocation_state.Failed) \<and>
        \<not> is_blank (re_source e) \<and> \<not> is_blank (re_summary e) \<and> pv_reason v = Some (re_summary e))"

definition evidence_ok :: "externals \<Rightarrow> projection \<Rightarrow> bool" where
  "evidence_ok X p \<longleftrightarrow> (\<forall>k v. bt_get (pr_invocations p) k = Some v \<longrightarrow> invocation_verified X v)"

definition seqs_ok :: "projection \<Rightarrow> bool" where
  "seqs_ok p \<longleftrightarrow>
     (\<forall>k t. bt_get (pr_threads p) k = Some t \<longrightarrow> bt_get (pr_last_seq_by_thread p) k = Some (th_last_seq t))"

definition proj_ok :: "externals \<Rightarrow> projection \<Rightarrow> bool" where
  "proj_ok X p \<longleftrightarrow>
     maps_wf p \<and> keys_ok p \<and> parents_ok p \<and> one_active p \<and> turns_ended p \<and> evidence_ok X p \<and> seqs_ok p"

lemma apply_event_maps_wf:
  "maps_wf p \<Longrightarrow> apply_event X p env ev = (q, r) \<Longrightarrow> maps_wf q"
  by (cases ev) (auto simp: handler_defs maps_wf_def Let_def split: if_splits option.splits)

text \<open>What a handler and the bookkeeping both keep, an accepted step keeps.\<close>

lemma apply_step_invariant:
  assumes "apply_step X p env = Ok p'"
    and "\<And>q. apply_event X p env (en_event env) = (q, Ok ()) \<Longrightarrow> I q"
    and "\<And>q. I q \<Longrightarrow> I (record_event q env)"
  shows "I p'"
  using assms by (auto simp: apply_step_Ok)

lemma record_event_parents: "parents_ok q \<Longrightarrow> parents_ok (record_event q env)"
  unfolding parents_ok_def record_event_sel record_event_threads by (force split: if_splits)

lemma record_event_keeps:
  "maps_wf q \<Longrightarrow> maps_wf (record_event q env)"
  "keys_ok q \<Longrightarrow> keys_ok (record_event q env)"
  "one_active q \<Longrightarrow> one_active (record_event q env)"
  "turns_ended q \<Longrightarrow> turns_ended (record_event q env)"
  "evidence_ok X q \<Longrightarrow> evidence_ok X (record_event q env)"
  by (auto simp: maps_wf_def keys_ok_def one_active_def running_def turns_ended_def evidence_ok_def)

lemma maps_wf_step: "maps_wf p \<Longrightarrow> apply_step X p env = Ok p' \<Longrightarrow> maps_wf p'"
  by (auto simp: apply_step_Ok intro: record_event_keeps(1) apply_event_maps_wf)

lemma apply_event_keys_ok:
  "keys_ok p \<Longrightarrow> apply_event X p env ev = (q, r) \<Longrightarrow> keys_ok q"
  by (cases ev) (auto simp: handler_defs keys_ok_def changed_turn_def Let_def split: if_splits option.splits)

lemma apply_event_parents_ok:
  "parents_ok p \<Longrightarrow> apply_event X p env ev = (q, Ok ()) \<Longrightarrow> parents_ok q"
  by (cases ev)
    (fastforce simp: handler_defs parents_ok_def changed_turn_def bt_contains_def Let_def
      split: if_splits option.splits)+

lemma terminal_invocation_stuck:
  "can_transition_invocation_with_idempotency s t i \<Longrightarrow> \<not> inv_is_terminal s"
  by (simp add: can_transition_invocation_with_idempotency_def split: if_splits)

text \<open>
  How an event changes one invocation: it is proposed with verified evidence, or it takes a
  step of its machine and keeps its evidence, or it stays as it is.
\<close>

definition same_evidence :: "projected_invocation \<Rightarrow> projected_invocation \<Rightarrow> bool" where
  "same_evidence v w \<longleftrightarrow>
     pv_invocation_id w = pv_invocation_id v \<and> pv_thread_id w = pv_thread_id v \<and>
     pv_turn_id w = pv_turn_id v \<and> pv_agent_id w = pv_agent_id v \<and> pv_call_id w = pv_call_id v \<and>
     pv_tool_id w = pv_tool_id v \<and> pv_tool_version w = pv_tool_version v \<and>
     pv_normalized_arguments_digest w = pv_normalized_arguments_digest v \<and>
     pv_effects w = pv_effects v \<and> pv_effect_digest w = pv_effect_digest v \<and>
     pv_idempotency w = pv_idempotency v"

fun about_invocation :: "event \<Rightarrow> invocation_id option" where
  "about_invocation (InvocationProposed i _ _ _ _ _ _ _) = Some i"
| "about_invocation (InvocationStateChanged i _ _ _) = Some i"
| "about_invocation (InvocationReconciled i _ _) = Some i"
| "about_invocation _ = None"

lemma apply_event_other_invocation:
  "apply_event X p env ev = (q, Ok ()) \<Longrightarrow> about_invocation ev \<noteq> Some k \<Longrightarrow>
     bt_get (pr_invocations q) k = bt_get (pr_invocations p) k"
  by (cases ev) (auto simp: handler_defs Let_def split: if_splits option.splits)

lemma proposed_invocation:
  assumes "apply_invocation_proposed X p env k call tool version args effects digest idem = (q, Ok ())"
  shows "bt_get (pr_invocations p) k = None \<and> (\<exists>w. bt_get (pr_invocations q) k = Some w \<and>
    pv_state w = Proposed \<and> pv_reconciliation w = None \<and> pv_idempotency w = idem \<and>
    pv_effect_digest w = digest_effects X (pv_effects w) \<and> pv_idempotency w = es_idempotency (pv_effects w))"
  using assms by (auto simp: apply_invocation_proposed_def bt_contains_def split: if_splits option.splits)

lemma state_changed_invocation:
  assumes "apply_invocation_state_changed X p env k frm to reason = (q, Ok ())"
  shows "\<exists>v w. bt_get (pr_invocations p) k = Some v \<and> bt_get (pr_invocations q) k = Some w \<and>
    same_evidence v w \<and> pv_state v = frm \<and> pv_state w = to \<and> pv_reconciliation w = pv_reconciliation v \<and>
    can_transition_invocation_with_idempotency frm to (pv_idempotency v)"
  using assms by (auto simp: apply_invocation_state_changed_def same_evidence_def split: if_splits option.splits)

lemma reconciled_invocation:
  assumes "apply_invocation_reconciled X p env k oc e = (q, Ok ())"
  shows "\<exists>v w. bt_get (pr_invocations p) k = Some v \<and> bt_get (pr_invocations q) k = Some w \<and>
    same_evidence v w \<and> can_reconcile_invocation (pv_state v) oc \<and> pv_state w = outcome_state oc \<and>
    pv_reconciliation w = Some e \<and> pv_reason w = Some (re_summary e) \<and>
    \<not> is_blank (re_source e) \<and> \<not> is_blank (re_summary e)"
  using assms by (auto simp: apply_invocation_reconciled_def same_evidence_def split: if_splits option.splits)

lemma apply_event_evidence_ok:
  assumes ok: "evidence_ok X p" and ap: "apply_event X p env ev = (q, Ok ())"
  shows "evidence_ok X q"
  unfolding evidence_ok_def
proof (intro allI impI)
  fix k w assume w: "bt_get (pr_invocations q) k = Some w"
  have old: "bt_get (pr_invocations p) k = Some v \<Longrightarrow> invocation_verified X v" for v
    using ok by (auto simp: evidence_ok_def)
  show "invocation_verified X w"
  proof (cases "about_invocation ev = Some k")
    case False
    then show ?thesis using apply_event_other_invocation [OF ap] w old by simp
  next
    case True
    then consider (proposed) call tool version args effects digest idem where
        "ev = InvocationProposed k call tool version args effects digest idem"
      | (changed) frm to reason where "ev = InvocationStateChanged k frm to reason"
      | (reconciled) oc e where "ev = InvocationReconciled k oc e"
      by (cases ev) auto
    then show ?thesis
    proof cases
      case proposed
      with ap w show ?thesis by (auto dest!: proposed_invocation simp: invocation_verified_def)
    next
      case changed
      with ap w obtain v where v: "bt_get (pr_invocations p) k = Some v" "same_evidence v w"
        "pv_reconciliation w = pv_reconciliation v" "\<not> inv_is_terminal (pv_state v)"
        by (auto dest!: state_changed_invocation dest: terminal_invocation_stuck)
      with old [OF v(1)] show ?thesis by (auto simp: invocation_verified_def same_evidence_def inv_is_terminal_def)
    next
      case reconciled
      with ap w obtain v where v: "bt_get (pr_invocations p) k = Some v" "same_evidence v w"
        "pv_state w = outcome_state oc" "pv_reconciliation w = Some e" "pv_reason w = Some (re_summary e)"
        "\<not> is_blank (re_source e)" "\<not> is_blank (re_summary e)"
        by (auto dest!: reconciled_invocation)
      with old [OF v(1)] show ?thesis by (cases oc) (auto simp: invocation_verified_def same_evidence_def)
    qed
  qed
qed

lemma active_turn_None:
  assumes "maps_wf p"
  shows "active_turn p t = None \<longleftrightarrow> (\<forall>k. \<not> running p k t)"
proof -
  have "bt_wf (pr_turns p)" using assms by (simp add: maps_wf_def)
  then show ?thesis
    by (auto simp: active_turn_def running_def find_None_iff bt_values_iff)
qed

text \<open>
  How an event changes one turn: it starts in a thread where no turn is running, or it takes
  a step of the turn machine, or it stays as it is.
\<close>

fun about_turn :: "event \<Rightarrow> turn_id option" where
  "about_turn (TurnStarted t) = Some (tu_id t)"
| "about_turn (TurnStateChanged t _ _ _) = Some t"
| "about_turn _ = None"

lemma apply_event_other_turn:
  "apply_event X p env ev = (q, Ok ()) \<Longrightarrow> about_turn ev \<noteq> Some k \<Longrightarrow>
     bt_get (pr_turns q) k = bt_get (pr_turns p) k"
  by (cases ev) (auto simp: handler_defs Let_def split: if_splits option.splits)

lemma started_turn:
  assumes "maps_wf p" and "apply_turn_started X p env t = (q, Ok ())"
  shows "bt_get (pr_turns p) (tu_id t) = None \<and> bt_get (pr_turns q) (tu_id t) = Some t \<and>
    tu_state t = Accepted \<and> tu_thread_id t = en_thread_id env \<and> (\<forall>k. \<not> running p k (tu_thread_id t))"
  using assms
  by (auto simp: apply_turn_started_def bt_contains_def active_turn_None split: if_splits option.splits)

lemma state_changed_turn:
  assumes "apply_turn_state_changed X p env k frm to reason = (q, Ok ())"
  shows "\<exists>t. bt_get (pr_turns p) k = Some t \<and> tu_state t = frm \<and> can_transition_turn frm to \<and>
    bt_get (pr_turns q) k = Some (changed_turn t to reason (en_time env))"
  using assms by (auto simp: apply_turn_state_changed_def Let_def split: if_splits option.splits)

lemma about_turn_cases:
  assumes "about_turn ev = Some k"
  obtains (started) t where "ev = TurnStarted t" "tu_id t = k"
    | (changed) frm to reason where "ev = TurnStateChanged k frm to reason"
  using assms by (cases ev) auto

lemma apply_event_turns_ended:
  assumes "maps_wf p" and ok: "turns_ended p" and ap: "apply_event X p env ev = (q, Ok ())"
  shows "turns_ended q"
  unfolding turns_ended_def
proof (intro allI impI)
  fix k u assume u: "bt_get (pr_turns q) k = Some u" and terminal: "turn_is_terminal (tu_state u)"
  show "tu_ended_at u \<noteq> None"
  proof (cases "about_turn ev = Some k")
    case False
    then show ?thesis using apply_event_other_turn [OF ap] u terminal ok by (auto simp: turns_ended_def)
  next
    case True
    then show ?thesis
    proof (cases rule: about_turn_cases)
      case (started t)
      then show ?thesis using started_turn [OF assms(1), of X env t q] ap u terminal
        by (auto simp: turn_is_terminal_def)
    next
      case changed
      then show ?thesis using ap u terminal by (auto dest!: state_changed_turn simp: changed_turn_def)
    qed
  qed
qed

lemma apply_event_running:
  assumes "maps_wf p" and ap: "apply_event X p env ev = (q, Ok ())" and run: "running q k t"
  shows "running p k t \<or> (\<exists>u. ev = TurnStarted u \<and> tu_id u = k \<and> (\<forall>l. \<not> running p l t))"
proof (cases "about_turn ev = Some k")
  case False
  then show ?thesis using apply_event_other_turn [OF ap] run by (simp add: running_def)
next
  case True
  then show ?thesis
  proof (cases rule: about_turn_cases)
    case (started u)
    then show ?thesis using started_turn [OF assms(1), of X env u q] ap run by (auto simp: running_def)
  next
    case (changed frm to reason)
    then obtain v where "bt_get (pr_turns p) k = Some v" "can_transition_turn (tu_state v) to"
      "bt_get (pr_turns q) k = Some (changed_turn v to reason (en_time env))"
      using ap by (auto dest!: state_changed_turn)
    then show ?thesis using run turns.terminal_stuck by (auto simp: running_def changed_turn_def)
  qed
qed

lemma apply_event_one_active:
  assumes "maps_wf p" and "one_active p" and "apply_event X p env ev = (q, Ok ())"
  shows "one_active q"
  unfolding one_active_def
proof (intro allI impI)
  fix t k l assume "running q k t" "running q l t"
  with apply_event_running [OF assms(1,3), of _ t] assms(2) show "k = l"
    unfolding one_active_def by (metis event.inject(6))
qed

text \<open>Only the envelope's own thread can appear or move.\<close>

lemma apply_event_thread:
  assumes "apply_event X p env ev = (q, Ok ())" and "k \<noteq> en_thread_id env" and "bt_get (pr_threads q) k = Some t"
  shows "\<exists>t'. bt_get (pr_threads p) k = Some t' \<and> th_last_seq t = th_last_seq t'"
  using assms by (cases ev) (auto simp: handler_defs Let_def split: if_splits option.splits)

lemma seqs_ok_step:
  assumes "seqs_ok p" and "apply_step X p env = Ok p'"
  shows "seqs_ok p'"
proof -
  from assms(2) obtain q where q: "apply_event X p env (en_event env) = (q, Ok ())" "p' = record_event q env"
    by (auto simp: apply_step_Ok)
  show ?thesis
    unfolding seqs_ok_def q(2)
    using apply_event_thread [OF q(1)] apply_event_bookkeeping [OF q(1)] assms(1)
    by (fastforce simp: seqs_ok_def)
qed

lemma proj_ok_step:
  assumes "proj_ok X p" and "apply_step X p env = Ok p'"
  shows "proj_ok X p'"
proof -
  from assms(1) have p: "maps_wf p" "keys_ok p" "parents_ok p" "one_active p" "turns_ended p"
      "evidence_ok X p" "seqs_ok p"
    by (simp_all add: proj_ok_def)
  show ?thesis
    unfolding proj_ok_def
  proof (intro conjI)
    show "maps_wf p'"
      using assms(2) by (rule apply_step_invariant) (simp_all add: apply_event_maps_wf [OF p(1)] record_event_keeps)
    show "keys_ok p'"
      using assms(2) by (rule apply_step_invariant) (simp_all add: apply_event_keys_ok [OF p(2)] record_event_keeps)
    show "parents_ok p'"
      using assms(2)
      by (rule apply_step_invariant) (simp_all add: apply_event_parents_ok [OF p(3)] record_event_parents)
    show "one_active p'"
      using assms(2)
      by (rule apply_step_invariant) (simp_all add: apply_event_one_active [OF p(1,4)] record_event_keeps)
    show "turns_ended p'"
      using assms(2)
      by (rule apply_step_invariant) (simp_all add: apply_event_turns_ended [OF p(1,5)] record_event_keeps)
    show "evidence_ok X p'"
      using assms(2)
      by (rule apply_step_invariant) (simp_all add: apply_event_evidence_ok [OF p(6)] record_event_keeps)
    show "seqs_ok p'" using p(7) assms(2) by (rule seqs_ok_step)
  qed
qed

lemma proj_ok_default: "proj_ok X projection_default"
  by (auto simp: proj_ok_def projection_default_def maps_wf_def keys_ok_def parents_ok_def one_active_def
      running_def turns_ended_def evidence_ok_def seqs_ok_def)

lemma replay_proj_ok:
  assumes "replay X es = Ok p"
  shows "proj_ok X p"
  using replays.run_invariant [where I = "proj_ok X" and X = X] proj_ok_step assms proj_ok_default [of X]
  unfolding replay_def by blast

section \<open>Histories\<close>

definition events_of_thread :: "thread_id \<Rightarrow> event_envelope list \<Rightarrow> event_envelope list" where
  "events_of_thread t es = filter (\<lambda>e. en_thread_id e = t) es"

definition contiguous :: "event_envelope list \<Rightarrow> projection \<Rightarrow> bool" where
  "contiguous es p \<longleftrightarrow>
     set (pr_seen_events p) = en_event_id ` set es \<and> distinct (map en_event_id es) \<and>
     (\<forall>e \<in> set es. accepts PROTOCOL_VERSION (en_schema_version e)) \<and>
     (\<forall>t. last_seq p t = length (events_of_thread t es) \<and>
          map en_seq (events_of_thread t es) = [1..<Suc (length (events_of_thread t es))])"

lemma contiguous_step:
  assumes "length es < u64_max" and "contiguous es p" and "apply_step X p env = Ok p'"
  shows "contiguous (es @ [env]) p'"
proof -
  let ?t = "en_thread_id env"
  have c: "accepts PROTOCOL_VERSION (en_schema_version env)" "en_event_id env \<notin> set (pr_seen_events p)"
    "en_seq env = wrapping_add (last_seq p ?t) 1"
    using assms(3) by (auto simp: apply_step_Ok check_envelope_Ok)
  have "length (events_of_thread ?t es) < u64_max"
    using assms(1) by (simp add: events_of_thread_def le_less_trans [OF length_filter_le])
  then have "en_seq env = Suc (length (events_of_thread ?t es))"
    using c(3) assms(2) by (simp add: contiguous_def wrapping_add_small)
  then show ?thesis
    using assms(2) c(1,2) apply_step_bookkeeping [OF assms(3)]
    by (auto simp: contiguous_def events_of_thread_def)
qed

lemma replay_contiguous:
  assumes "replay X es = Ok p" and "length es \<le> u64_max"
  shows "contiguous es p"
proof -
  let ?I = "\<lambda>h q. length h \<le> u64_max \<longrightarrow> contiguous h q"
  have "?I [] projection_default"
    by (simp add: contiguous_def projection_default_def last_seq_def events_of_thread_def)
  moreover have "?I (h @ [e]) q'" if "?I h q" "apply_step X q e = Ok q'" for h q e q'
    using that contiguous_step by auto
  ultimately have "?I ([] @ es) p"
    using replays.run_history [where I = ?I and X = X and h = "[]"] assms(1) unfolding replay_def by blast
  with assms(2) show ?thesis by simp
qed

text \<open>An ended turn and an ended invocation are never touched again.\<close>

lemma ended_turn_step:
  assumes "maps_wf p" and ap: "apply_step X p env = Ok p'"
    and t: "bt_get (pr_turns p) k = Some t" "turn_is_terminal (tu_state t)"
  shows "bt_get (pr_turns p') k = Some t"
proof -
  from ap obtain q where q: "apply_event X p env (en_event env) = (q, Ok ())" "p' = record_event q env"
    by (auto simp: apply_step_Ok)
  have "about_turn (en_event env) \<noteq> Some k"
  proof
    assume "about_turn (en_event env) = Some k"
    then show False
    proof (cases rule: about_turn_cases)
      case (started u)
      then show ?thesis using started_turn [OF assms(1), of X env u q] q(1) t by simp
    next
      case changed
      then show ?thesis using state_changed_turn q(1) t turns.terminal_stuck by fastforce
    qed
  qed
  then show ?thesis using apply_event_other_turn [OF q(1)] t q(2) by simp
qed

lemma ended_invocation_step:
  assumes ap: "apply_step X p env = Ok p'"
    and v: "bt_get (pr_invocations p) k = Some v" "inv_is_terminal (pv_state v)"
  shows "bt_get (pr_invocations p') k = Some v"
proof -
  from ap obtain q where q: "apply_event X p env (en_event env) = (q, Ok ())" "p' = record_event q env"
    by (auto simp: apply_step_Ok)
  have "about_invocation (en_event env) \<noteq> Some k"
    using q(1) v
    by (cases "en_event env")
      (auto dest!: proposed_invocation state_changed_invocation reconciled_invocation
        dest: terminal_invocation_stuck simp: can_reconcile_invocation_def inv_is_terminal_def)
  then show ?thesis using apply_event_other_invocation [OF q(1)] v q(2) by simp
qed

section \<open>The life of one invocation in a history\<close>

fun trail_of :: "invocation_id \<Rightarrow> event \<Rightarrow> invocation_state list" where
  "trail_of i (InvocationStateChanged j _ to _) = (if i = j then [to] else [])"
| "trail_of i (InvocationReconciled j oc _) = (if i = j then [outcome_state oc] else [])"
| "trail_of i _ = []"

text \<open>The states an invocation enters, in the order of the history.\<close>

definition trail :: "invocation_id \<Rightarrow> event_envelope list \<Rightarrow> invocation_state list" where
  "trail i es = concat (map (\<lambda>e. trail_of i (en_event e)) es)"

definition trail_ok :: "invocation_id \<Rightarrow> event_envelope list \<Rightarrow> projection \<Rightarrow> bool" where
  "trail_ok i es p \<longleftrightarrow>
     (case bt_get (pr_invocations p) i of
        None \<Rightarrow> trail i es = []
      | Some v \<Rightarrow> invocations.path (pv_idempotency v) Proposed (trail i es) \<and>
                  last (Proposed # trail i es) = pv_state v)"

lemma trail_snoc: "trail i (es @ [env]) = trail i es @ trail_of i (en_event env)"
  by (simp add: trail_def)

lemma trail_of_other: "about_invocation ev \<noteq> Some i \<Longrightarrow> trail_of i ev = []"
  by (cases ev) auto

lemma trail_extend:
  assumes "trail_ok i es p" and "bt_get (pr_invocations p) i = Some v" and "inv_step (pv_idempotency v) (pv_state v) (pv_state w)"
    and "same_evidence v w" and "bt_get (pr_invocations p') i = Some w"
    and "trail i es' = trail i es @ [pv_state w]"
  shows "trail_ok i es' p'"
  using assms by (simp add: trail_ok_def invocations.path_append same_evidence_def)

lemma trail_ok_step:
  assumes ok: "trail_ok i es p" and ap: "apply_step X p env = Ok p'"
  shows "trail_ok i (es @ [env]) p'"
proof -
  from ap obtain q where q: "apply_event X p env (en_event env) = (q, Ok ())" and p': "p' = record_event q env"
    by (auto simp: apply_step_Ok)
  show ?thesis
  proof (cases "about_invocation (en_event env) = Some i")
    case False
    then show ?thesis
      using ok apply_event_other_invocation [OF q] trail_of_other
      by (auto simp: trail_ok_def trail_snoc p' split: option.splits)
  next
    case True
    then consider (proposed) call tool version args effects digest idem where
        "en_event env = InvocationProposed i call tool version args effects digest idem"
      | (changed) frm to reason where "en_event env = InvocationStateChanged i frm to reason"
      | (reconciled) oc e where "en_event env = InvocationReconciled i oc e"
      by (cases "en_event env") auto
    then show ?thesis
    proof cases
      case proposed
      then show ?thesis using q ok by (auto dest!: proposed_invocation simp: trail_ok_def trail_snoc p')
    next
      case changed
      with q have "apply_invocation_state_changed X p env i frm to reason = (q, Ok ())" by simp
      from state_changed_invocation [OF this] obtain v w where
        vw: "bt_get (pr_invocations p) i = Some v" "bt_get (pr_invocations q) i = Some w" "same_evidence v w"
          "pv_state w = to" "inv_step (pv_idempotency v) (pv_state v) (pv_state w)"
        using inv_step.ordinary by metis
      have "trail i (es @ [env]) = trail i es @ [pv_state w]" by (simp add: trail_snoc changed vw(4))
      with ok vw show ?thesis using trail_extend [of i es p v w p'] by (simp add: p')
    next
      case reconciled
      with q have "apply_invocation_reconciled X p env i oc e = (q, Ok ())" by simp
      from reconciled_invocation [OF this] obtain v w where
        vw: "bt_get (pr_invocations p) i = Some v" "bt_get (pr_invocations q) i = Some w" "same_evidence v w"
          "pv_state w = outcome_state oc" "inv_step (pv_idempotency v) (pv_state v) (pv_state w)"
        using inv_step.reconciled by metis
      have "trail i (es @ [env]) = trail i es @ [pv_state w]" by (simp add: trail_snoc reconciled vw(4))
      with ok vw show ?thesis using trail_extend [of i es p v w p'] by (simp add: p')
    qed
  qed
qed

lemma replay_trail_ok:
  assumes "replay X es = Ok p"
  shows "trail_ok i es p"
proof -
  have "trail_ok i [] projection_default"
    by (simp add: trail_ok_def trail_def projection_default_def)
  then have "trail_ok i ([] @ es) p"
    using assms unfolding replay_def
    by (intro replays.run_history [where I = "trail_ok i" and X = X and h = "[]"] trail_ok_step)
  then show ?thesis by simp
qed

section \<open>Rejections\<close>

lemma apply_event_reject:
  assumes "apply_event X p env ev = (q, Err er)"
  shows "q = p \<or> (\<exists>i. ev = ItemAdded i \<and> bt_contains (pr_items p) (it_id i) \<and>
    er = DuplicateEntity ''item'' (uuid_str X (it_id i)) \<and>
    q = p\<lparr>pr_items := bt_insert (pr_items p) (it_id i) i\<rparr>)"
  using assms by (cases ev) (auto simp: handler_defs bt_contains_def Let_def split: if_splits option.splits)

lemma apply_envelope_reject:
  assumes "apply_envelope X p env = (q, Err er)"
  shows "q = p \<or> (\<exists>i. en_event env = ItemAdded i \<and> bt_contains (pr_items p) (it_id i) \<and>
    er = DuplicateEntity ''item'' (uuid_str X (it_id i)) \<and>
    q = p\<lparr>pr_items := bt_insert (pr_items p) (it_id i) i\<rparr>)"
  using assms apply_event_reject [of X p env "en_event env"]
  by (auto simp: apply_envelope_def split: sum.splits prod.splits)

text \<open>The handlers never report an error of the envelope.\<close>

definition envelope_error :: "replay_error \<Rightarrow> bool" where
  "envelope_error e =
     (case e of IncompatibleSchema _ _ _ _ \<Rightarrow> True | DuplicateEvent _ \<Rightarrow> True | SequenceGap _ _ _ \<Rightarrow> True
      | _ \<Rightarrow> False)"

lemma apply_event_error: "apply_event X p env ev = (q, Err er) \<Longrightarrow> \<not> envelope_error er"
  by (cases ev) (auto simp: handler_defs envelope_error_def Let_def split: if_splits option.splits)

text \<open>A complete history can only be rejected for what its events say.\<close>

lemma complete_history_error:
  assumes "distinct (map en_event_id es)" and "\<forall>e \<in> set es. accepts PROTOCOL_VERSION (en_schema_version e)"
    and "\<forall>t. map en_seq (events_of_thread t es) = [1..<Suc (length (events_of_thread t es))]"
    and "length es < u64_max" and "replay X es = Err er"
  shows "\<not> envelope_error er"
proof -
  from assms(5) obtain h e t p where es: "es = h @ e # t" and h: "replay X h = Ok p" and st: "apply_step X p e = Err er"
    using replays.run_Err [of X projection_default es er] unfolding replay_def by blast
  let ?t = "en_thread_id e" and ?n = "length (events_of_thread (en_thread_id e) h)"
  have c: "contiguous h p" using replay_contiguous [OF h] assms(4) es by simp
  have "map en_seq (events_of_thread ?t es) ! ?n = en_seq e"
    by (simp add: es events_of_thread_def nth_append)
  moreover have "[1..<Suc (length (events_of_thread ?t es))] ! ?n = Suc ?n"
    by (subst nth_upt) (auto simp: es events_of_thread_def)
  ultimately have "en_seq e = Suc (last_seq p ?t)"
    using assms(3) c by (metis contiguous_def)
  moreover have "?n < u64_max"
    using assms(4) le_less_trans [OF length_filter_le [of "\<lambda>x. en_thread_id x = ?t" h]]
    by (simp add: es events_of_thread_def)
  ultimately have seq: "en_seq e = wrapping_add (last_seq p ?t) 1"
    using c by (simp add: contiguous_def wrapping_add_small)
  have "en_event_id e \<notin> set (pr_seen_events p)"
    using c assms(1) by (auto simp: contiguous_def es)
  with seq assms(2) have "check_envelope p e = Ok ()" by (simp add: check_envelope_Ok es)
  with st show ?thesis
    by (auto simp: apply_step_def apply_envelope_def split: prod.splits sum.splits dest: apply_event_error)
qed

section \<open>A concrete history\<close>

definition sample_envelope :: "nat \<Rightarrow> event \<Rightarrow> event_envelope" where
  "sample_envelope n ev =
     \<lparr>en_schema_version = PROTOCOL_VERSION, en_event_id = of_nat n, en_thread_id = 2, en_turn_id = Some 1,
      en_agent_id = ''root'', en_seq = n, en_time = int n, en_causation_id = None, en_event = ev\<rparr>"

definition sample_workspace :: workspace where
  "sample_workspace =
     \<lparr>ws_id = 5, ws_root = ''/w'',
      ws_identity = \<lparr>wi_canonical_root = ''/w'', wi_digest = ''w'', wi_device = None, wi_inode = None,
        wi_git_common_dir = None\<rparr>,
      ws_trust = Untrusted, ws_opened_at = 0\<rparr>"

definition sample_thread :: thread where
  "sample_thread =
     \<lparr>th_id = 2, th_workspace_id = 5, th_parent_thread_id = None, th_parent_seq = None, th_title = None,
      th_status = Idle, th_created_at = 0, th_updated_at = 0, th_last_seq = 0\<rparr>"

definition sample_item :: "json \<Rightarrow> item" where
  "sample_item content =
     \<lparr>it_id = 6, it_thread_id = 2, it_turn_id = 1, it_agent_id = ''root'', it_kind = UserMessage,
      it_content = content, it_created_at = 4\<rparr>"

definition sample_effects :: effect_set where
  "sample_effects = default_effects\<lparr>es_idempotency := NonIdempotent\<rparr>"

definition sample_conversation :: "event_envelope list" where
  "sample_conversation =
     [sample_envelope 1 (WorkspaceOpened sample_workspace),
      sample_envelope 2 (ThreadStarted sample_thread),
      sample_envelope 3 (TurnStarted (sample_turn Accepted)),
      sample_envelope 4 (ItemAdded (sample_item JNull)),
      sample_envelope 5 (TurnStateChanged 1 Accepted turn_state.Failed (Some ''tool''))]"

definition sample_invocation_history :: "event_envelope list" where
  "sample_invocation_history =
     [sample_envelope 1 (InvocationProposed 7 ''call'' ''fs.write'' ''1'' ''args'' sample_effects
        (digest_effects plain_externals sample_effects) NonIdempotent),
      sample_envelope 2 (InvocationStateChanged 7 Proposed Approved None),
      sample_envelope 3 (InvocationStateChanged 7 Approved Prepared None),
      sample_envelope 4 (InvocationStateChanged 7 Prepared Started None),
      sample_envelope 5 (InvocationStateChanged 7 Started invocation_state.Failed None)]"

lemmas replay_simps =
  replay_def projection_default_def handler_defs check_envelope_def apply_envelope_def record_event_def
  modify_thread_def bts_insert_def insort_insert_key_def last_seq_def wrapping_add_def
  PROTOCOL_VERSION_def accepts_def active_turn_def bt_values_def bt_contains_def bt_get_def bt_empty_def
  changed_turn_def wrong_parent_def can_transition_turn_def turn_is_terminal_def
  can_transition_invocation_iff invocation_edges_def
  sample_envelope_def sample_workspace_def sample_thread_def sample_item_def sample_turn_def sample_effects_def
  sample_conversation_def sample_invocation_history_def

lemma sample_conversation_replays:
  "\<exists>p. replay X sample_conversation = Ok p \<and> bt_get (pr_items p) 6 = Some (sample_item JNull) \<and>
     (\<exists>t. bt_get (pr_turns p) 1 = Some t \<and> tu_state t = turn_state.Failed) \<and>
     last_seq p 2 = 5"
  by (simp add: replay_simps)

lemma sample_invocation_replays:
  "\<exists>p v. replay plain_externals sample_invocation_history = Ok p \<and> bt_get (pr_invocations p) 7 = Some v \<and>
     pv_idempotency v = NonIdempotent \<and> pv_state v = invocation_state.Failed"
  by (simp add: replay_simps)

definition sample_next_turn :: event_envelope where
  "sample_next_turn =
     (sample_envelope 6 (TurnStarted ((sample_turn Accepted)\<lparr>tu_id := 8\<rparr>)))\<lparr>en_turn_id := Some 8\<rparr>"

lemma sample_next_turn_replays:
  "\<exists>p. replay X (sample_conversation @ [sample_next_turn]) = Ok p \<and> running p 8 2"
  by (simp add: replay_simps sample_next_turn_def running_def)

section \<open>Properties\<close>

text \<open>
  C12: Every projection that a replay builds is consistent: entities are filed under their own
  identifiers, the references that \<open>apply\<close> checks resolve, each thread has at most one
  running turn, an ended turn carries its end time, the effect digest and the idempotency of
  every invocation match its effects, reconciliation evidence is not blank and belongs to a
  finished invocation, and each thread carries the sequence number of its last event.
\<close>

theorem replayed_projection_is_consistent:
  assumes "replay X es = Ok p"
  shows "proj_ok X p"
  using assms by (rule replay_proj_ok)

theorem replayed_projection_is_consistent_witness:
  "\<exists>p. replay plain_externals sample_conversation = Ok p \<and> proj_ok plain_externals p \<and>
     bt_get (pr_items p) 6 = Some (sample_item JNull)"
  using sample_conversation_replays [of plain_externals] replayed_projection_is_consistent by blast

text \<open>
  C25: A replay accepts only complete histories: for up to \<open>2^64 - 1\<close> events, the event
  identifiers are pairwise different, every schema version is supported, and the sequence
  numbers of each thread's events are \<open>1, 2, ..., n\<close> in this order, where \<open>n\<close> is the
  sequence number the projection remembers.
\<close>

theorem replay_accepts_only_contiguous_histories:
  assumes "replay X es = Ok p" and "length es \<le> u64_max"
  shows "distinct (map en_event_id es) \<and>
    (\<forall>e \<in> set es. accepts PROTOCOL_VERSION (en_schema_version e)) \<and>
    (\<forall>t. map en_seq (events_of_thread t es) = [1..<Suc (last_seq p t)])"
  using replay_contiguous [OF assms] by (simp add: contiguous_def)

theorem replay_accepts_only_contiguous_histories_witness:
  "\<exists>p. replay plain_externals sample_conversation = Ok p \<and>
     map en_seq (events_of_thread 2 sample_conversation) = [1..<Suc (last_seq p 2)] \<and> last_seq p 2 = 5"
proof -
  obtain p where p: "replay plain_externals sample_conversation = Ok p" "last_seq p 2 = 5"
    using sample_conversation_replays [of plain_externals] by blast
  have "length sample_conversation \<le> u64_max" by (simp add: sample_conversation_def u64_max_def)
  from replay_accepts_only_contiguous_histories [OF p(1) this] p show ?thesis by blast
qed

text \<open>
  C31: Ended work is immutable: in every continuation of an accepted history that is accepted
  too, a turn that had reached a terminal state and an invocation that had reached a terminal
  state are still the same, field by field.
\<close>

theorem ended_work_is_immutable:
  assumes "replay X es = Ok p" and "replay X (es @ fs) = Ok p'"
  shows "(bt_get (pr_turns p) k = Some t \<longrightarrow> turn_is_terminal (tu_state t) \<longrightarrow> bt_get (pr_turns p') k = Some t) \<and>
    (bt_get (pr_invocations p) i = Some v \<longrightarrow> inv_is_terminal (pv_state v) \<longrightarrow>
       bt_get (pr_invocations p') i = Some v)"
proof -
  have rest: "replay_from X p fs = Ok p'"
    using assms by (simp add: replay_def replays.run_append)
  let ?T = "\<lambda>q. maps_wf q \<and> bt_get (pr_turns q) k = Some t"
  have "?T p'" if "bt_get (pr_turns p) k = Some t" "turn_is_terminal (tu_state t)"
  proof -
    have "?T q'" if "?T q" "apply_step X q e = Ok q'" for q e q'
      using that \<open>turn_is_terminal (tu_state t)\<close> ended_turn_step maps_wf_step by blast
    then show ?thesis
      using replays.run_invariant [where I = ?T and X = X] rest replay_proj_ok [OF assms(1)] that(1)
      unfolding proj_ok_def by blast
  qed
  moreover have "bt_get (pr_invocations p') i = Some v"
    if "bt_get (pr_invocations p) i = Some v" "inv_is_terminal (pv_state v)"
    using replays.run_invariant [where I = "\<lambda>q. bt_get (pr_invocations q) i = Some v" and X = X] rest that
      ended_invocation_step by blast
  ultimately show ?thesis by blast
qed

theorem ended_work_is_immutable_witness:
  "\<exists>p p' t. replay plain_externals sample_conversation = Ok p \<and>
     replay plain_externals (sample_conversation @ [sample_next_turn]) = Ok p' \<and>
     bt_get (pr_turns p) 1 = Some t \<and> tu_state t = turn_state.Failed \<and> bt_get (pr_turns p') 1 = Some t"
proof -
  obtain p t where p: "replay plain_externals sample_conversation = Ok p" "bt_get (pr_turns p) 1 = Some t"
      "tu_state t = turn_state.Failed"
    using sample_conversation_replays [of plain_externals] by blast
  obtain p' where "replay plain_externals (sample_conversation @ [sample_next_turn]) = Ok p'"
    using sample_next_turn_replays [of plain_externals] by blast
  with p ended_work_is_immutable [OF p(1) this, of 1 t] show ?thesis by (auto simp: turn_is_terminal_def)
qed

text \<open>
  C19: The invocation machine governs the history: in every accepted history the states that
  the events of one invocation enter form a run of the invocation machine that ends in the
  projected state. An invocation without an idempotent contract therefore has at most one
  \<open>Started\<close> event.
\<close>

theorem replayed_invocation_starts_at_most_once:
  assumes "replay X es = Ok p" and "bt_get (pr_invocations p) i = Some v"
  shows "invocations.path (pv_idempotency v) Proposed (trail i es) \<and>
    last (Proposed # trail i es) = pv_state v \<and>
    (pv_idempotency v = NonIdempotent \<or> pv_idempotency v = idempotency.Unknown \<longrightarrow>
       length (filter ((=) Started) (trail i es)) \<le> 1)"
proof -
  have path: "invocations.path (pv_idempotency v) Proposed (trail i es)"
    and last: "last (Proposed # trail i es) = pv_state v"
    using replay_trail_ok [OF assms(1), of i] assms(2) by (simp_all add: trail_ok_def)
  show ?thesis
    using path last path_distinct [OF path] count_distinct [of "trail i es" Started]
    by (auto simp: retryable_def)
qed

theorem replayed_invocation_starts_at_most_once_witness:
  "\<exists>p v. replay plain_externals sample_invocation_history = Ok p \<and> bt_get (pr_invocations p) 7 = Some v \<and>
     pv_idempotency v = NonIdempotent \<and> length (filter ((=) Started) (trail 7 sample_invocation_history)) \<le> 1"
  using sample_invocation_replays replayed_invocation_starts_at_most_once by blast

text \<open>
  A rejected event leaves the projection as it was, with one exception: an \<open>ItemAdded\<close>
  event whose item identifier is already taken is reported as a duplicate after the stored
  item has been overwritten.
\<close>

lemma rejection_keeps_projection:
  assumes "apply_envelope X p env = (q, Err er)"
  shows "q = p \<or>
    (\<exists>i. en_event env = ItemAdded i \<and> bt_contains (pr_items p) (it_id i) \<and>
       er = DuplicateEntity ''item'' (uuid_str X (it_id i)) \<and>
       q = p\<lparr>pr_items := bt_insert (pr_items p) (it_id i) i\<rparr>)"
  using assms by (rule apply_envelope_reject)

lemma rejection_keeps_projection_witness:
  "apply_envelope plain_externals projection_default (sample_envelope 2 (ThreadArchived 2)) =
     (projection_default, Err (SequenceGap 2 1 2))"
proof -
  have r: "snd (apply_envelope plain_externals projection_default (sample_envelope 2 (ThreadArchived 2))) =
      Err (SequenceGap 2 1 2)"
    by (simp add: apply_envelope_def check_envelope_def sample_envelope_def projection_default_def
        accepts_def last_seq_def wrapping_add_def Let_def)
  then obtain q where q: "apply_envelope plain_externals projection_default (sample_envelope 2 (ThreadArchived 2)) =
      (q, Err (SequenceGap 2 1 2))"
    by (metis prod.collapse)
  from rejection_keeps_projection [OF q] q show ?thesis by (auto simp: sample_envelope_def)
qed

text \<open>
  The exception is real: an \<open>ItemAdded\<close> event that passes the envelope checks and names
  an existing turn, but reuses the identifier of a stored item, returns an error and replaces
  the stored item by the rejected one.
\<close>

lemma rejected_duplicate_item_overwrites:
  assumes "check_envelope p env = Ok ()" and "en_event env = ItemAdded i"
    and "it_thread_id i = en_thread_id env" and "en_turn_id env = Some (it_turn_id i)"
    and "bt_contains (pr_turns p) (it_turn_id i)" and "bt_get (pr_items p) (it_id i) = Some old"
  shows "\<exists>q. apply_envelope X p env = (q, Err (DuplicateEntity ''item'' (uuid_str X (it_id i)))) \<and>
    bt_get (pr_items q) (it_id i) = Some i"
  using assms by (auto simp: apply_envelope_def apply_item_added_def Let_def)

lemma rejected_duplicate_item_overwrites_witness:
  "\<exists>p q. replay plain_externals sample_conversation = Ok p \<and>
     bt_get (pr_items p) 6 = Some (sample_item JNull) \<and>
     snd (apply_envelope plain_externals p (sample_envelope 6 (ItemAdded (sample_item (JBool True))))) \<noteq> Ok () \<and>
     fst (apply_envelope plain_externals p (sample_envelope 6 (ItemAdded (sample_item (JBool True))))) = q \<and>
     bt_get (pr_items q) 6 = Some (sample_item (JBool True))"
proof -
  obtain p t where p: "replay plain_externals sample_conversation = Ok p" "last_seq p 2 = 5"
      "bt_get (pr_items p) 6 = Some (sample_item JNull)" "bt_get (pr_turns p) 1 = Some t"
    using sample_conversation_replays [of plain_externals] by blast
  have "length sample_conversation \<le> u64_max" by (simp add: sample_conversation_def u64_max_def)
  from replay_contiguous [OF p(1) this] have seen: "set (pr_seen_events p) = {1, 2, 3, 4, 5}"
    by (simp add: contiguous_def sample_conversation_def sample_envelope_def insert_commute)
  let ?env = "sample_envelope 6 (ItemAdded (sample_item (JBool True)))"
  have "check_envelope p ?env = Ok ()"
    using p(2) seen by (simp add: check_envelope_Ok sample_envelope_def PROTOCOL_VERSION_def accepts_def wrapping_add_def)
  then obtain q where q: "apply_envelope plain_externals p ?env =
      (q, Err (DuplicateEntity ''item'' (uuid_str plain_externals (it_id (sample_item (JBool True))))))"
      "bt_get (pr_items q) (it_id (sample_item (JBool True))) = Some (sample_item (JBool True))"
    using rejected_duplicate_item_overwrites [of p ?env "sample_item (JBool True)" "sample_item JNull" plain_externals] p(3,4)
    by (auto simp: sample_envelope_def sample_item_def bt_contains_def)
  have "it_id (sample_item (JBool True)) = 6" by (simp add: sample_item_def)
  with p(1,3) q show ?thesis by auto
qed

end
