(* ===== verification/Event_Ledger.thy ===== *)
theory Event_Ledger
  imports Protocol_Types
begin

text \<open>
  The append-only event ledger of \<open>yeux-runtime/src/ledger.rs\<close>: the two tables with their
  constraints, transactions, sequence allocation, idempotent single and batch appends,
  command receipts, import, and the ordered reads.

  A table is the list of its rows in insertion order. An \<open>INSERT\<close> checks the schema's
  constraints (\<open>UNIQUE\<close>, \<open>PRIMARY KEY\<close>, \<open>CHECK\<close>) and fails with \<open>Database\<close>; a
  transaction that ends in an error is rolled back, so an operation returns the new ledger or
  an error. \<open>rusqlite\<close> refuses to bind a \<open>u64\<close> above \<open>i64::MAX\<close>. Failures of the disk
  or of the lock (\<open>Io\<close>, \<open>Poisoned\<close>) are not modelled. \<open>Panic\<close> stands for a failing
  \<open>expect\<close>. What a JSON column reads back after it was written as text is a parameter
  (\<open>serde_json\<close>), the argument \<open>stored\<close> below.
\<close>

section \<open>Rows and errors\<close>

record ledger_event =
  le_schema_version :: protocol_version
  le_event_id :: string
  le_thread_id :: string
  le_turn_id :: "string option"
  le_agent_id :: string
  le_seq :: nat
  le_time :: instant
  le_causation_id :: "string option"
  le_kind :: string
  le_payload :: json

record new_ledger_event =
  nl_schema_version :: protocol_version
  nl_event_id :: string
  nl_thread_id :: string
  nl_turn_id :: "string option"
  nl_agent_id :: string
  nl_time :: instant
  nl_causation_id :: "string option"
  nl_kind :: string
  nl_payload :: json

record new_command_receipt =
  nr_command_id :: string
  nr_method :: string
  nr_params_digest :: string
  nr_response :: json
  nr_created_at :: instant

record command_receipt =
  cr_command_id :: string
  cr_method :: string
  cr_params_digest :: string
  cr_response :: json
  cr_created_at :: instant

record command_append_result =
  ca_event :: "ledger_event option"
  ca_response :: json
  ca_replayed :: bool

record command_batch_append_result =
  cb_events :: "ledger_event list"
  cb_response :: json
  cb_replayed :: bool

datatype ledger_error =
    Database string
  | Json string
  | EventIdConflict string
  | CommandIdConflict string
  | EmptyEventBatch
  | InvalidInvocationOutcome string
  | InvocationStateConflict string invocation_state "invocation_state option"
  | SequenceOverflow string
  | SequenceGap string nat nat
  | InvalidEnvelope string
  | Panic string

text \<open>The database: the rows of \<open>events\<close> with their append order, and the receipts.\<close>

record ledger =
  lg_events :: "(nat \<times> ledger_event) list"
  lg_receipts :: "command_receipt list"

definition initialize_schema :: ledger where
  "initialize_schema = \<lparr>lg_events = [], lg_receipts = []\<rparr>"

section \<open>Statements\<close>

type_synonym codec_text = "json \<Rightarrow> json"

definition row_to_event :: "codec_text \<Rightarrow> ledger_event \<Rightarrow> ledger_event" where
  "row_to_event stored row = row\<lparr>le_payload := stored (le_payload row)\<rparr>"

definition get_event_by_id :: "codec_text \<Rightarrow> ledger \<Rightarrow> string \<Rightarrow> ledger_event option" where
  "get_event_by_id stored db event_id =
     map_option (row_to_event stored) (find (\<lambda>e. le_event_id e = event_id) (map snd (lg_events db)))"

text \<open>\<open>SELECT COALESCE(MAX(seq), 0) FROM events WHERE thread_id = ?1\<close>\<close>

definition max_seq :: "ledger \<Rightarrow> string \<Rightarrow> nat" where
  "max_seq db t = foldr max (map le_seq (filter (\<lambda>e. le_thread_id e = t) (map snd (lg_events db)))) 0"

definition max_append_order :: "ledger \<Rightarrow> nat" where
  "max_append_order db = foldr max (map fst (lg_events db)) 0"

definition next_sqlite_sequence :: "nat \<Rightarrow> string \<Rightarrow> (ledger_error, nat) rust_result" where
  "next_sqlite_sequence current scope =
     (if current \<ge> i64_max then Err (SequenceOverflow scope) else Ok (current + 1))"

definition thread_scope :: "string \<Rightarrow> string" where
  "thread_scope t = ''thread '' @ t"

definition insert_event :: "ledger \<Rightarrow> ledger_event \<Rightarrow> nat \<Rightarrow> (ledger_error, ledger) rust_result" where
  "insert_event db ev append_order =
     (if append_order = 0 \<or> append_order \<in> fst ` set (lg_events db) \<or>
         le_seq ev = 0 \<or>
         (\<exists>e \<in> set (map snd (lg_events db)). le_event_id e = le_event_id ev) \<or>
         (\<exists>e \<in> set (map snd (lg_events db)). le_thread_id e = le_thread_id ev \<and> le_seq e = le_seq ev)
      then Err (Database ''constraint'')
      else Ok (db\<lparr>lg_events := lg_events db @ [(append_order, ev)]\<rparr>))"

definition insert_command_receipt ::
  "ledger \<Rightarrow> new_command_receipt \<Rightarrow> (ledger_error, ledger \<times> command_receipt) rust_result" where
  "insert_command_receipt db receipt =
     (if \<exists>r \<in> set (lg_receipts db). cr_command_id r = nr_command_id receipt
      then Err (Database ''constraint'')
      else
        let row = \<lparr>cr_command_id = nr_command_id receipt, cr_method = nr_method receipt,
                   cr_params_digest = nr_params_digest receipt, cr_response = nr_response receipt,
                   cr_created_at = nr_created_at receipt\<rparr> in
        Ok (db\<lparr>lg_receipts := lg_receipts db @ [row]\<rparr>, row))"

definition get_command_receipt :: "codec_text \<Rightarrow> ledger \<Rightarrow> string \<Rightarrow> command_receipt option" where
  "get_command_receipt stored db command_id =
     map_option (\<lambda>r. r\<lparr>cr_response := stored (cr_response r)\<rparr>)
       (find (\<lambda>r. cr_command_id r = command_id) (lg_receipts db))"

definition new_event_matches :: "new_ledger_event \<Rightarrow> ledger_event \<Rightarrow> bool" where
  "new_event_matches input existing \<longleftrightarrow>
     nl_schema_version input = le_schema_version existing \<and> nl_event_id input = le_event_id existing \<and>
     nl_thread_id input = le_thread_id existing \<and> nl_turn_id input = le_turn_id existing \<and>
     nl_agent_id input = le_agent_id existing \<and> nl_time input = le_time existing \<and>
     nl_causation_id input = le_causation_id existing \<and> nl_kind input = le_kind existing \<and>
     nl_payload input = le_payload existing"

definition sequenced :: "new_ledger_event \<Rightarrow> nat \<Rightarrow> ledger_event" where
  "sequenced input seq =
     \<lparr>le_schema_version = nl_schema_version input, le_event_id = nl_event_id input,
      le_thread_id = nl_thread_id input, le_turn_id = nl_turn_id input, le_agent_id = nl_agent_id input,
      le_seq = seq, le_time = nl_time input, le_causation_id = nl_causation_id input,
      le_kind = nl_kind input, le_payload = nl_payload input\<rparr>"

section \<open>Single appends\<close>

text \<open>Allocation and insertion of one event, as \<open>append\<close> and \<open>append_with_receipt\<close> do it.\<close>

definition allocate_and_insert :: "ledger \<Rightarrow> new_ledger_event \<Rightarrow> (ledger_error, ledger) rust_result" where
  "allocate_and_insert db input =
     rbind (next_sqlite_sequence (max_seq db (nl_thread_id input)) (thread_scope (nl_thread_id input))) (\<lambda>seq.
     rbind (next_sqlite_sequence (max_append_order db) ''global append order'') (\<lambda>append_order.
     insert_event db (sequenced input seq) append_order))"

definition inserted_event :: "codec_text \<Rightarrow> ledger \<Rightarrow> string \<Rightarrow> (ledger_error, ledger_event) rust_result" where
  "inserted_event stored db event_id = ok_or (Panic ''inserted event exists'') (get_event_by_id stored db event_id)"

definition append_event :: "codec_text \<Rightarrow> ledger \<Rightarrow> new_ledger_event \<Rightarrow> (ledger_error, ledger \<times> ledger_event) rust_result" where
  "append_event stored db input =
     (case get_event_by_id stored db (nl_event_id input) of
        Some existing \<Rightarrow>
          if new_event_matches input existing then Ok (db, existing)
          else Err (EventIdConflict (nl_event_id input))
      | None \<Rightarrow>
          rbind (allocate_and_insert db input) (\<lambda>db'.
          rbind (inserted_event stored db' (nl_event_id input)) (\<lambda>ev. Ok (db', ev))))"

text \<open>
  The receipt check that every command append starts with: no receipt, a repetition, or a
  divergent reuse.
\<close>

definition committed_response ::
  "codec_text \<Rightarrow> ledger \<Rightarrow> new_command_receipt \<Rightarrow> (ledger_error, command_receipt option) rust_result" where
  "committed_response stored db receipt =
     (case get_command_receipt stored db (nr_command_id receipt) of
        None \<Rightarrow> Ok None
      | Some existing \<Rightarrow>
          if cr_method existing = nr_method receipt \<and> cr_params_digest existing = nr_params_digest receipt
          then Ok (Some existing) else Err (CommandIdConflict (nr_command_id receipt)))"

definition append_with_receipt ::
  "codec_text \<Rightarrow> ledger \<Rightarrow> new_ledger_event \<Rightarrow> new_command_receipt \<Rightarrow>
   (ledger_error, ledger \<times> command_append_result) rust_result" where
  "append_with_receipt stored db input receipt =
     rbind (committed_response stored db receipt) (\<lambda>committed.
       case committed of
         Some existing \<Rightarrow> Ok (db, \<lparr>ca_event = None, ca_response = cr_response existing, ca_replayed = True\<rparr>)
       | None \<Rightarrow>
           if get_event_by_id stored db (nl_event_id input) \<noteq> None
           then Err (EventIdConflict (nl_event_id input))
           else
             rbind (allocate_and_insert db input) (\<lambda>db1.
             rbind (insert_command_receipt db1 receipt) (\<lambda>(db2, _).
             rbind (inserted_event stored db2 (nl_event_id input)) (\<lambda>ev.
             Ok (db2, \<lparr>ca_event = Some ev, ca_response = nr_response receipt, ca_replayed = False\<rparr>)))))"

section \<open>Batches\<close>

text \<open>The first identifier that repeats an earlier one of the batch.\<close>

fun first_repeated :: "string list \<Rightarrow> string list \<Rightarrow> string option" where
  "first_repeated seen [] = None"
| "first_repeated seen (i # ids) = (if i \<in> set seen then Some i else first_repeated (i # seen) ids)"

text \<open>\<open>last_seq_by_thread\<close>, loaded once per thread of the batch.\<close>

fun preload :: "ledger \<Rightarrow> (string, nat) btree_map \<Rightarrow> new_ledger_event list \<Rightarrow> (string, nat) btree_map" where
  "preload db m [] = m"
| "preload db m (input # inputs) =
     preload db
       (if bt_contains m (nl_thread_id input) then m
        else bt_insert m (nl_thread_id input) (max_seq db (nl_thread_id input))) inputs"

fun insert_all ::
  "ledger \<Rightarrow> (string, nat) btree_map \<Rightarrow> nat \<Rightarrow> new_ledger_event list \<Rightarrow>
   (ledger_error, ledger \<times> ledger_event list) rust_result" where
  "insert_all db m append_order [] = Ok (db, [])"
| "insert_all db m append_order (input # inputs) =
     rbind (ok_or (Panic ''every input thread was preloaded'') (bt_get m (nl_thread_id input))) (\<lambda>last.
     rbind (next_sqlite_sequence last (thread_scope (nl_thread_id input))) (\<lambda>seq.
     rbind (next_sqlite_sequence append_order ''global append order'') (\<lambda>order'.
     rbind (insert_event db (sequenced input seq) order') (\<lambda>db'.
     rbind (insert_all db' (bt_insert m (nl_thread_id input) seq) order' inputs) (\<lambda>(db'', events).
     Ok (db'', sequenced input seq # events))))))"

definition insert_batch ::
  "ledger \<Rightarrow> new_ledger_event list \<Rightarrow> (ledger_error, ledger \<times> ledger_event list) rust_result" where
  "insert_batch db inputs = insert_all db (preload db bt_empty inputs) (max_append_order db) inputs"

text \<open>A batch all of whose events are stored: each must match.\<close>

fun replay_existing ::
  "(new_ledger_event \<times> ledger_event option) list \<Rightarrow> (ledger_error, ledger_event list) rust_result" where
  "replay_existing [] = Ok []"
| "replay_existing ((input, existing) # rest) =
     rbind (ok_or (Panic ''every event was counted as existing'') existing) (\<lambda>ev.
       if \<not> new_event_matches input ev then Err (EventIdConflict (nl_event_id input))
       else rbind (replay_existing rest) (\<lambda>evs. Ok (ev # evs)))"

definition append_batch_transaction ::
  "codec_text \<Rightarrow> ledger \<Rightarrow> new_ledger_event list \<Rightarrow> (ledger_error, ledger \<times> ledger_event list) rust_result" where
  "append_batch_transaction stored db inputs =
     (if inputs = [] then Err EmptyEventBatch
      else case first_repeated [] (map nl_event_id inputs) of
        Some i \<Rightarrow> Err (EventIdConflict i)
      | None \<Rightarrow>
          let existing = map (\<lambda>input. get_event_by_id stored db (nl_event_id input)) inputs;
              existing_count = length (filter (\<lambda>e. e \<noteq> None) existing) in
          if existing_count = length inputs
          then rbind (replay_existing (zip inputs existing)) (\<lambda>evs. Ok (db, evs))
          else if existing_count \<noteq> 0
          then (case find (\<lambda>(_, e). e \<noteq> None) (zip inputs existing) of
                  Some (input, _) \<Rightarrow> Err (EventIdConflict (nl_event_id input))
                | None \<Rightarrow> Err (Panic ''a partial batch contains an existing event''))
          else insert_batch db inputs)"

definition append_batch ::
  "codec_text \<Rightarrow> ledger \<Rightarrow> new_ledger_event list \<Rightarrow> (ledger_error, ledger \<times> ledger_event list) rust_result" where
  "append_batch stored db inputs = append_batch_transaction stored db inputs"

text \<open>The preflight of a command's batch: the first repeated or already stored identifier.\<close>

fun preflight :: "codec_text \<Rightarrow> ledger \<Rightarrow> string list \<Rightarrow> string list \<Rightarrow> (ledger_error, unit) rust_result" where
  "preflight stored db seen [] = Ok ()"
| "preflight stored db seen (i # ids) =
     (if i \<in> set seen \<or> get_event_by_id stored db i \<noteq> None then Err (EventIdConflict i)
      else preflight stored db (i # seen) ids)"

definition append_batch_with_receipt ::
  "codec_text \<Rightarrow> ledger \<Rightarrow> new_ledger_event list \<Rightarrow> new_command_receipt \<Rightarrow>
   (ledger_error, ledger \<times> command_batch_append_result) rust_result" where
  "append_batch_with_receipt stored db inputs receipt =
     rbind (committed_response stored db receipt) (\<lambda>committed.
       case committed of
         Some existing \<Rightarrow> Ok (db, \<lparr>cb_events = [], cb_response = cr_response existing, cb_replayed = True\<rparr>)
       | None \<Rightarrow>
           if inputs = [] then Err EmptyEventBatch
           else
             rbind (preflight stored db [] (map nl_event_id inputs)) (\<lambda>_.
             rbind (insert_batch db inputs) (\<lambda>(db1, events).
             rbind (insert_command_receipt db1 receipt) (\<lambda>(db2, stored_receipt).
             Ok (db2, \<lparr>cb_events = events, cb_response = cr_response stored_receipt, cb_replayed = False\<rparr>)))))"

definition command_receipt_of :: "codec_text \<Rightarrow> ledger \<Rightarrow> string \<Rightarrow> command_receipt option" where
  "command_receipt_of stored db command_id = get_command_receipt stored db command_id"

definition record_command_receipt ::
  "codec_text \<Rightarrow> ledger \<Rightarrow> new_command_receipt \<Rightarrow> (ledger_error, ledger \<times> command_receipt) rust_result" where
  "record_command_receipt stored db receipt =
     rbind (committed_response stored db receipt) (\<lambda>committed.
       case committed of Some existing \<Rightarrow> Ok (db, existing) | None \<Rightarrow> insert_command_receipt db receipt)"

section \<open>Import and reads\<close>

definition import_with_duplicate_policy ::
  "codec_text \<Rightarrow> ledger \<Rightarrow> ledger_event \<Rightarrow> bool \<Rightarrow> (ledger_error, ledger) rust_result" where
  "import_with_duplicate_policy stored db ev duplicate_ok =
     (case get_event_by_id stored db (le_event_id ev) of
        Some existing \<Rightarrow>
          if duplicate_ok \<and> existing = ev then Ok db else Err (EventIdConflict (le_event_id ev))
      | None \<Rightarrow>
          rbind (next_sqlite_sequence (max_seq db (le_thread_id ev)) (thread_scope (le_thread_id ev))) (\<lambda>expected.
            if le_seq ev \<noteq> expected then Err (SequenceGap (le_thread_id ev) expected (le_seq ev))
            else rbind (next_sqlite_sequence (max_append_order db) ''global append order'') (\<lambda>append_order.
              insert_event db ev append_order)))"

definition import_event :: "codec_text \<Rightarrow> ledger \<Rightarrow> ledger_event \<Rightarrow> (ledger_error, ledger) rust_result" where
  "import_event stored db ev = import_with_duplicate_policy stored db ev True"

fun validate_sequence :: "string \<Rightarrow> nat \<Rightarrow> ledger_event list \<Rightarrow> (ledger_error, unit) rust_result" where
  "validate_sequence t expected [] = Ok ()"
| "validate_sequence t expected (e # es) =
     (if le_seq e \<noteq> expected then Err (SequenceGap t expected (le_seq e))
      else validate_sequence t (saturating_add expected 1) es)"

definition bind_u64 :: "nat \<Rightarrow> (ledger_error, nat) rust_result" where
  "bind_u64 n = (if n > i64_max then Err (Database ''integer out of range'') else Ok n)"

text \<open>\<open>WHERE thread_id = ?1 AND seq > ?2 ORDER BY seq ASC\<close>\<close>

definition thread_rows :: "codec_text \<Rightarrow> ledger \<Rightarrow> string \<Rightarrow> nat \<Rightarrow> ledger_event list" where
  "thread_rows stored db t after_seq =
     map (row_to_event stored)
       (sort_key le_seq
         (filter (\<lambda>e. le_thread_id e = t \<and> le_seq e > after_seq) (map snd (lg_events db))))"

definition replay_thread :: "codec_text \<Rightarrow> ledger \<Rightarrow> string \<Rightarrow> nat \<Rightarrow> (ledger_error, ledger_event list) rust_result" where
  "replay_thread stored db t after_seq =
     rbind (bind_u64 after_seq) (\<lambda>after.
       let events = thread_rows stored db t after in
       rbind (validate_sequence t (saturating_add after_seq 1) events) (\<lambda>_. Ok events))"

definition replay_page ::
  "codec_text \<Rightarrow> ledger \<Rightarrow> string \<Rightarrow> nat \<Rightarrow> nat \<Rightarrow> (ledger_error, ledger_event list) rust_result" where
  "replay_page stored db t after_seq limit =
     (if limit = 0 then Ok []
      else
        rbind (bind_u64 after_seq) (\<lambda>after. rbind (bind_u64 limit) (\<lambda>n.
          let events = take n (thread_rows stored db t after) in
          rbind (validate_sequence t (saturating_add after_seq 1) events) (\<lambda>_. Ok events))))"

definition all_events :: "codec_text \<Rightarrow> ledger \<Rightarrow> ledger_event list" where
  "all_events stored db = map (row_to_event stored \<circ> snd) (sort_key fst (lg_events db))"

section \<open>The well-formed ledger\<close>

definition history :: "ledger \<Rightarrow> ledger_event list" where
  "history db = map snd (lg_events db)"

definition of_thread :: "string \<Rightarrow> ledger_event list \<Rightarrow> ledger_event list" where
  "of_thread t es = filter (\<lambda>e. le_thread_id e = t) es"

text \<open>
  Append orders are \<open>1, 2, ...\<close> in insertion order, identifiers are unique, the sequence
  numbers of each thread are \<open>1, 2, ...\<close> in insertion order, and everything fits SQLite's
  signed 64-bit integers.
\<close>

definition ledger_wf :: "ledger \<Rightarrow> bool" where
  "ledger_wf db \<longleftrightarrow>
     map fst (lg_events db) = [1..<Suc (length (lg_events db))] \<and>
     distinct (map le_event_id (history db)) \<and>
     (\<forall>t. map le_seq (of_thread t (history db)) = [1..<Suc (length (of_thread t (history db)))]) \<and>
     length (lg_events db) \<le> i64_max \<and>
     distinct (map cr_command_id (lg_receipts db))"

lemma ledger_wf_empty [simp]: "ledger_wf initialize_schema"
  by (simp add: ledger_wf_def initialize_schema_def history_def of_thread_def)

lemma initialize_schema_sel [simp]:
  "history initialize_schema = []" "lg_events initialize_schema = []" "lg_receipts initialize_schema = []"
  by (simp_all add: initialize_schema_def history_def)

lemma foldr_max_upt: "foldr max [1..<Suc n] 0 = n"
proof -
  have "foldr max [1..<Suc n] m = max n m" for m
    by (induction n arbitrary: m) (simp_all add: max_def)
  then show ?thesis by simp
qed

lemma max_seq_wf: "ledger_wf db \<Longrightarrow> max_seq db t = length (of_thread t (history db))"
  unfolding max_seq_def ledger_wf_def history_def [symmetric] of_thread_def [symmetric]
  by (simp only: foldr_max_upt)

lemma max_append_order_wf: "ledger_wf db \<Longrightarrow> max_append_order db = length (lg_events db)"
  unfolding max_append_order_def ledger_wf_def by (simp only: foldr_max_upt)

lemma length_history [simp]: "length (history db) = length (lg_events db)"
  by (simp add: history_def)

lemma of_thread_le: "length (of_thread t es) \<le> length es"
  by (simp add: of_thread_def)

lemma of_thread_append [simp]: "of_thread t (xs @ ys) = of_thread t xs @ of_thread t ys"
  by (simp add: of_thread_def)

lemma of_thread_single: "of_thread t [e] = (if le_thread_id e = t then [e] else [])"
  by (simp add: of_thread_def)

definition stored_ids :: "ledger \<Rightarrow> string set" where
  "stored_ids db = le_event_id ` set (history db)"

lemma get_event_None: "get_event_by_id stored db i = None \<longleftrightarrow> i \<notin> stored_ids db"
  by (auto simp: get_event_by_id_def stored_ids_def history_def find_None_iff)

lemma get_event_present: "get_event_by_id stored db i \<noteq> None \<longleftrightarrow> i \<in> stored_ids db"
  by (simp only: get_event_None not_not)

lemma filter_all_iff: "length (filter P xs) = length xs \<longleftrightarrow> (\<forall>x \<in> set xs. P x)"
  using sum_length_filter_compl [of P xs] by (auto simp: filter_empty_conv filter_id_conv)

lemma get_event_Some:
  assumes "ledger_wf db"
  shows "get_event_by_id stored db i = Some ev \<longleftrightarrow>
    (\<exists>e \<in> set (history db). le_event_id e = i \<and> ev = row_to_event stored e)"
proof -
  have "find (\<lambda>e. le_event_id e = i) es = Some e \<longleftrightarrow> e \<in> set es \<and> le_event_id e = i"
    if "distinct (map le_event_id es)" for es e
    using that by (induction es) (auto simp: image_iff)
  then show ?thesis
    using assms by (auto simp: get_event_by_id_def history_def [symmetric] ledger_wf_def)
qed

text \<open>One more row.\<close>

definition push_row :: "ledger \<Rightarrow> ledger_event \<Rightarrow> ledger" where
  "push_row db ev = db\<lparr>lg_events := lg_events db @ [(Suc (length (lg_events db)), ev)]\<rparr>"

lemma push_row_sel [simp]:
  "history (push_row db ev) = history db @ [ev]"
  "length (lg_events (push_row db ev)) = Suc (length (lg_events db))"
  "lg_receipts (push_row db ev) = lg_receipts db"
  "stored_ids (push_row db ev) = insert (le_event_id ev) (stored_ids db)"
  by (simp_all add: push_row_def history_def stored_ids_def)

definition next_seq :: "ledger \<Rightarrow> string \<Rightarrow> nat" where
  "next_seq db t = Suc (length (of_thread t (history db)))"

lemma insert_event_wf:
  assumes wf: "ledger_wf db" and fresh: "le_event_id ev \<notin> stored_ids db"
    and seq: "le_seq ev = next_seq db (le_thread_id ev)" and room: "length (lg_events db) < i64_max"
  shows "insert_event db ev (Suc (length (lg_events db))) = Ok (push_row db ev) \<and> ledger_wf (push_row db ev)"
proof -
  have orders: "fst ` set (lg_events db) = {1..<Suc (length (lg_events db))}"
    using wf unfolding ledger_wf_def by (metis set_map set_upt)
  have seqs: "le_seq ` set (of_thread t (history db)) = {1..<next_seq db t}" for t
    using wf unfolding ledger_wf_def next_seq_def by (metis set_map set_upt)
  have unused: "\<not> (le_thread_id e = le_thread_id ev \<and> le_seq e = le_seq ev)" if "e \<in> set (history db)" for e
  proof
    assume "le_thread_id e = le_thread_id ev \<and> le_seq e = le_seq ev"
    with that have "le_seq ev \<in> le_seq ` set (of_thread (le_thread_id ev) (history db))"
      by (intro image_eqI [of _ _ e]) (auto simp: of_thread_def)
    with seqs seq show False by simp
  qed
  have fresh_all: "\<forall>e \<in> set (history db). le_event_id e \<noteq> le_event_id ev"
    using fresh unfolding stored_ids_def by (metis imageI)
  have "insert_event db ev (Suc (length (lg_events db))) = Ok (push_row db ev)"
    using fresh_all unused seq orders unfolding insert_event_def history_def [symmetric]
    by (auto simp: push_row_def next_seq_def)
  moreover have "ledger_wf (push_row db ev)"
    using wf fresh seq room
    by (auto simp: ledger_wf_def push_row_def history_def stored_ids_def next_seq_def of_thread_single of_thread_def)
  ultimately show ?thesis ..
qed

lemma next_sequence [simp]:
  "current < i64_max \<Longrightarrow> next_sqlite_sequence current s = Ok (Suc current)"
  "next_sqlite_sequence i64_max s = Err (SequenceOverflow s)"
  by (simp_all add: next_sqlite_sequence_def)

lemma sequenced_sel [simp]:
  "le_event_id (sequenced input n) = nl_event_id input"
  "le_thread_id (sequenced input n) = nl_thread_id input"
  "le_seq (sequenced input n) = n"
  "le_payload (sequenced input n) = nl_payload input"
  by (simp_all add: sequenced_def)

definition is_overflow :: "ledger_error \<Rightarrow> bool" where
  "is_overflow e \<longleftrightarrow> (\<exists>s. e = SequenceOverflow s)"

text \<open>
  What an append of fresh events does to a well-formed ledger: it pushes the sequenced
  events, or reports that the sequence space is used up.
\<close>

fun assign :: "ledger \<Rightarrow> new_ledger_event list \<Rightarrow> ledger_event list" where
  "assign db [] = []"
| "assign db (input # inputs) =
     (let ev = sequenced input (next_seq db (nl_thread_id input)) in ev # assign (push_row db ev) inputs)"

definition push_rows :: "ledger \<Rightarrow> ledger_event list \<Rightarrow> ledger" where
  "push_rows db evs = foldl push_row db evs"

lemma push_rows_simps [simp]:
  "push_rows db [] = db" "push_rows db (e # es) = push_rows (push_row db e) es"
  by (simp_all add: push_rows_def)

lemma push_rows_sel [simp]:
  "history (push_rows db evs) = history db @ evs"
  "length (lg_events (push_rows db evs)) = length (lg_events db) + length evs"
  "lg_receipts (push_rows db evs) = lg_receipts db"
  "stored_ids (push_rows db evs) = stored_ids db \<union> le_event_id ` set evs"
  by (induction evs arbitrary: db) auto

lemma assign_ids: "map le_event_id (assign db inputs) = map nl_event_id inputs"
  by (induction db inputs rule: assign.induct) (simp_all add: Let_def)

lemma length_assign [simp]: "length (assign db inputs) = length inputs"
  by (metis assign_ids length_map)

lemma allocate_and_insert_wf:
  assumes wf: "ledger_wf db" and fresh: "nl_event_id input \<notin> stored_ids db"
  shows "(\<exists>e. allocate_and_insert db input = Err e \<and> is_overflow e \<and> length (lg_events db) = i64_max) \<or>
    allocate_and_insert db input = Ok (push_rows db (assign db [input])) \<and> ledger_wf (push_rows db (assign db [input]))"
proof (cases "length (lg_events db) < i64_max")
  case True
  moreover have "length (of_thread (nl_thread_id input) (history db)) < i64_max"
    using True of_thread_le [of "nl_thread_id input" "history db"] by simp
  ultimately show ?thesis
    using insert_event_wf [OF wf, of "sequenced input (next_seq db (nl_thread_id input))"] fresh
    by (simp add: allocate_and_insert_def max_seq_wf [OF wf] max_append_order_wf [OF wf] next_seq_def)
next
  case False
  then have full: "length (lg_events db) = i64_max"
    using wf by (simp add: ledger_wf_def)
  then show ?thesis
    using of_thread_le [of "nl_thread_id input" "history db"]
    by (cases "length (of_thread (nl_thread_id input) (history db)) < i64_max")
      (auto simp: allocate_and_insert_def max_seq_wf [OF wf] max_append_order_wf [OF wf] is_overflow_def)
qed

text \<open>The preloaded sequence numbers are those of the ledger.\<close>

lemma preload_get:
  "bt_get (preload db m inputs) t =
     (if bt_contains m t then bt_get m t
      else if t \<in> nl_thread_id ` set inputs then Some (max_seq db t) else None)"
  by (induction inputs arbitrary: m) (auto simp: bt_contains_def)

lemma insert_all_wf:
  assumes "ledger_wf db" and "\<forall>i \<in> set inputs. bt_get m (nl_thread_id i) = Some (length (of_thread (nl_thread_id i) (history db)))"
    and "distinct (map nl_event_id inputs)" and "nl_event_id ` set inputs \<inter> stored_ids db = {}"
  shows "(\<exists>e. insert_all db m (length (lg_events db)) inputs = Err e \<and> is_overflow e \<and>
            i64_max < length (lg_events db) + length inputs) \<or>
    insert_all db m (length (lg_events db)) inputs = Ok (push_rows db (assign db inputs), assign db inputs) \<and>
    ledger_wf (push_rows db (assign db inputs))"
  using assms
proof (induction inputs arbitrary: db m)
  case Nil
  then show ?case by simp
next
  case (Cons input inputs)
  let ?t = "nl_thread_id input" and ?n = "length (lg_events db)"
  let ?ev = "sequenced input (next_seq db ?t)"
  let ?m = "bt_insert m ?t (next_seq db ?t)"
  have get: "bt_get m ?t = Some (length (of_thread ?t (history db)))" using Cons.prems(2) by simp
  show ?case
  proof (cases "?n < i64_max")
    case True
    have small: "length (of_thread ?t (history db)) < i64_max"
      using True of_thread_le [of ?t "history db"] by simp
    have ins: "insert_event db ?ev (Suc ?n) = Ok (push_row db ?ev)" and wf: "ledger_wf (push_row db ?ev)"
      using insert_event_wf [OF Cons.prems(1), of ?ev] Cons.prems(4) True by auto
    have step: "insert_all db m ?n (input # inputs) =
        rbind (insert_all (push_row db ?ev) ?m (Suc ?n) inputs) (\<lambda>(db'', evs). Ok (db'', ?ev # evs))"
      using get small True ins by (simp add: ok_or_def next_seq_def)
    have m: "\<forall>i \<in> set inputs. bt_get ?m (nl_thread_id i) =
        Some (length (of_thread (nl_thread_id i) (history (push_row db ?ev))))"
      using Cons.prems(2) by (auto simp: of_thread_single next_seq_def)
    have "distinct (map nl_event_id inputs)" "nl_event_id ` set inputs \<inter> stored_ids (push_row db ?ev) = {}"
      using Cons.prems(3,4) by auto
    from Cons.IH [OF wf m this] show ?thesis
      unfolding step by (auto simp: Let_def simp del: insert_all.simps)
  next
    case False
    then have "?n = i64_max" using Cons.prems(1) by (simp add: ledger_wf_def)
    then show ?thesis
      using get of_thread_le [of ?t "history db"]
      by (cases "length (of_thread ?t (history db)) < i64_max") (auto simp: ok_or_def is_overflow_def)
  qed
qed

lemma insert_batch_wf:
  assumes wf: "ledger_wf db" and "distinct (map nl_event_id inputs)" and "nl_event_id ` set inputs \<inter> stored_ids db = {}"
  shows "(\<exists>e. insert_batch db inputs = Err e \<and> is_overflow e \<and> i64_max < length (lg_events db) + length inputs) \<or>
    insert_batch db inputs = Ok (push_rows db (assign db inputs), assign db inputs) \<and>
    ledger_wf (push_rows db (assign db inputs))"
  unfolding insert_batch_def max_append_order_wf [OF wf]
  using wf _ assms(2,3) by (rule insert_all_wf) (simp add: preload_get max_seq_wf [OF wf])

section \<open>What the operations return\<close>

lemma stored_event:
  assumes "ledger_wf db" and "e \<in> set (history db)"
  shows "get_event_by_id stored db (le_event_id e) = Some (row_to_event stored e)"
  using get_event_Some [OF assms(1)] assms(2) by blast

lemma append_event_Ok:
  assumes wf: "ledger_wf db" and ok: "append_event stored db input = Ok (db', ev)"
  shows "ledger_wf db' \<and> le_event_id ev = nl_event_id input \<and>
    (db' = db \<and> new_event_matches input ev \<and> get_event_by_id stored db (nl_event_id input) = Some ev \<or>
     nl_event_id input \<notin> stored_ids db \<and> db' = push_rows db (assign db [input]) \<and>
     ev = row_to_event stored (sequenced input (next_seq db (nl_thread_id input))))"
proof (cases "get_event_by_id stored db (nl_event_id input)")
  case (Some existing)
  then show ?thesis
    using ok wf by (auto simp: append_event_def new_event_matches_def split: if_splits)
next
  case None
  then have fresh: "nl_event_id input \<notin> stored_ids db" by (simp add: get_event_None)
  let ?db = "push_rows db (assign db [input])"
  let ?ev = "sequenced input (next_seq db (nl_thread_id input))"
  have "allocate_and_insert db input = Ok ?db" and wf': "ledger_wf ?db" and
    got: "inserted_event stored db' (nl_event_id input) = Ok ev" "db' = ?db"
    using allocate_and_insert_wf [OF wf fresh] ok None by (auto simp: append_event_def rbind_eq_Inr)
  moreover have "get_event_by_id stored ?db (nl_event_id input) = Some (row_to_event stored ?ev)"
    using stored_event [OF wf', of ?ev] by (simp add: Let_def)
  ultimately show ?thesis using fresh by (simp add: inserted_event_def row_to_event_def)
qed

lemma append_event_Err:
  assumes wf: "ledger_wf db" and er: "append_event stored db input = Err e"
  shows "e = EventIdConflict (nl_event_id input) \<or> is_overflow e"
proof (cases "get_event_by_id stored db (nl_event_id input)")
  case (Some existing)
  then show ?thesis using er by (auto simp: append_event_def split: if_splits)
next
  case None
  let ?ev = "sequenced input (next_seq db (nl_thread_id input))"
  have fresh: "nl_event_id input \<notin> stored_ids db" using None by (simp add: get_event_None)
  consider (full) e' where "allocate_and_insert db input = Err e'" "is_overflow e'"
    | (ok) "allocate_and_insert db input = Ok (push_row db ?ev)" "ledger_wf (push_row db ?ev)"
    using allocate_and_insert_wf [OF wf fresh] by (auto simp: Let_def)
  then show ?thesis
  proof cases
    case ok
    then show ?thesis
      using er None stored_event [OF ok(2), of ?ev stored] by (simp add: append_event_def inserted_event_def ok_or_def)
  qed (use er None in \<open>simp add: append_event_def\<close>)
qed

lemma first_repeated_None: "first_repeated seen ids = None \<longleftrightarrow> distinct ids \<and> set ids \<inter> set seen = {}"
  by (induction ids arbitrary: seen) auto

lemma preflight_Ok: "preflight stored db seen ids = Ok () \<longleftrightarrow> distinct ids \<and> set ids \<inter> (set seen \<union> stored_ids db) = {}"
  by (induction ids arbitrary: seen) (auto simp: get_event_None)

lemma preflight_Err: "preflight stored db seen ids = Err e \<Longrightarrow> \<exists>i \<in> set ids. e = EventIdConflict i"
  by (induction ids arbitrary: seen) (auto split: if_splits)

lemma replay_existing_Ok:
  "replay_existing (zip inputs (map f inputs)) = Ok evs \<longleftrightarrow>
     list_all2 (\<lambda>input ev. f input = Some ev \<and> new_event_matches input ev) inputs evs"
proof (induction inputs arbitrary: evs)
  case Nil
  then show ?case by (cases evs) auto
next
  case (Cons i inputs)
  then show ?case by (cases "f i") (auto simp: list_all2_Cons1 ok_or_def rbind_eq_Inr)
qed

lemma replay_existing_Err:
  assumes "\<forall>input \<in> set inputs. f input \<noteq> None" and "replay_existing (zip inputs (map f inputs)) = Err e"
  shows "\<exists>i \<in> nl_event_id ` set inputs. e = EventIdConflict i"
  using assms by (induction inputs) (auto simp: ok_or_def rbind_eq_Inl split: if_splits)

text \<open>The three ways a batch with distinct identifiers can meet the ledger.\<close>

lemma batch_cases:
  assumes "inputs \<noteq> []" and "distinct (map nl_event_id inputs)"
  shows "append_batch stored db inputs =
    (if nl_event_id ` set inputs \<subseteq> stored_ids db
     then rbind (replay_existing (zip inputs (map (\<lambda>i. get_event_by_id stored db (nl_event_id i)) inputs))) (\<lambda>evs. Ok (db, evs))
     else if nl_event_id ` set inputs \<inter> stored_ids db = {} then insert_batch db inputs
     else case find (\<lambda>(_, e). e \<noteq> None) (zip inputs (map (\<lambda>i. get_event_by_id stored db (nl_event_id i)) inputs)) of
            Some (input, _) \<Rightarrow> Err (EventIdConflict (nl_event_id input))
          | None \<Rightarrow> Err (Panic ''a partial batch contains an existing event''))"
proof -
  let ?f = "\<lambda>i. get_event_by_id stored db (nl_event_id i)"
  have none: "first_repeated [] (map nl_event_id inputs) = None"
    using assms(2) by (simp add: first_repeated_None)
  have all: "length (filter (\<lambda>e. e \<noteq> None) (map ?f inputs)) = length inputs \<longleftrightarrow>
      nl_event_id ` set inputs \<subseteq> stored_ids db"
    unfolding length_map [of ?f inputs, symmetric] filter_all_iff by (simp only: set_map ball_simps(9) get_event_present image_subset_iff)
  have zero: "length (filter (\<lambda>e. e \<noteq> None) (map ?f inputs)) = 0 \<longleftrightarrow> nl_event_id ` set inputs \<inter> stored_ids db = {}"
    by (auto simp: filter_empty_conv get_event_None)
  show ?thesis
    unfolding append_batch_def append_batch_transaction_def
    using assms(1) none all zero by (simp add: Let_def)
qed

lemma append_batch_Ok:
  assumes wf: "ledger_wf db" and ok: "append_batch stored db inputs = Ok (db', evs)"
  shows "ledger_wf db' \<and> inputs \<noteq> [] \<and> distinct (map nl_event_id inputs) \<and>
    (db' = db \<and>
       list_all2 (\<lambda>i ev. get_event_by_id stored db (nl_event_id i) = Some ev \<and> new_event_matches i ev) inputs evs \<or>
     nl_event_id ` set inputs \<inter> stored_ids db = {} \<and> db' = push_rows db (assign db inputs) \<and> evs = assign db inputs)"
proof -
  have ne: "inputs \<noteq> []" and d: "distinct (map nl_event_id inputs)"
    using ok by (auto simp: append_batch_def append_batch_transaction_def first_repeated_None split: if_splits option.splits)
  note cases = ok [unfolded batch_cases [OF ne d]]
  consider (stored) "nl_event_id ` set inputs \<subseteq> stored_ids db"
    | (fresh) "\<not> nl_event_id ` set inputs \<subseteq> stored_ids db" "nl_event_id ` set inputs \<inter> stored_ids db = {}"
    using cases by (auto split: if_splits option.splits)
  then show ?thesis
  proof cases
    case stored
    then show ?thesis using cases wf ne d by (auto simp: rbind_eq_Inr replay_existing_Ok)
  next
    case fresh
    then have "insert_batch db inputs = Ok (db', evs)" using cases by simp
    with insert_batch_wf [OF wf d fresh(2)] ne d fresh(2) show ?thesis by auto
  qed
qed

lemma find_present:
  "find (\<lambda>(_, e). e \<noteq> None) (zip xs (map f xs)) = None \<longleftrightarrow> (\<forall>x \<in> set xs. f x = None)"
  by (induction xs) auto

lemma append_batch_Err:
  assumes wf: "ledger_wf db" and er: "append_batch stored db inputs = Err e"
  shows "e = EmptyEventBatch \<or> (\<exists>i \<in> nl_event_id ` set inputs. e = EventIdConflict i) \<or> is_overflow e"
proof (cases "inputs = [] \<or> \<not> distinct (map nl_event_id inputs)")
  case True
  have rep: "first_repeated seen ids = Some i \<Longrightarrow> i \<in> set ids" for seen ids i
    by (induction ids arbitrary: seen) (auto split: if_splits)
  show ?thesis
  proof (cases "inputs = []")
    case False
    with True have "first_repeated [] (map nl_event_id inputs) \<noteq> None" by (simp add: first_repeated_None)
    then show ?thesis
      using er rep False by (force simp: append_batch_def append_batch_transaction_def)
  qed (use er in \<open>simp add: append_batch_def append_batch_transaction_def\<close>)
next
  case False
  then have ne: "inputs \<noteq> []" and d: "distinct (map nl_event_id inputs)" by auto
  let ?f = "\<lambda>i. get_event_by_id stored db (nl_event_id i)"
  note cases = er [unfolded batch_cases [OF ne d]]
  consider (stored) "nl_event_id ` set inputs \<subseteq> stored_ids db"
    | (fresh) "\<not> nl_event_id ` set inputs \<subseteq> stored_ids db" "nl_event_id ` set inputs \<inter> stored_ids db = {}"
    | (partial) "\<not> nl_event_id ` set inputs \<subseteq> stored_ids db" "nl_event_id ` set inputs \<inter> stored_ids db \<noteq> {}"
    by blast
  then show ?thesis
  proof cases
    case stored
    then have "\<forall>i \<in> set inputs. ?f i \<noteq> None" by (auto simp: get_event_None)
    with replay_existing_Err [of inputs ?f e] stored cases show ?thesis by (auto simp: rbind_eq_Inl)
  next
    case fresh
    then have "insert_batch db inputs = Err e" using cases by simp
    with insert_batch_wf [OF wf d fresh(2)] show ?thesis by auto
  next
    case partial
    have "find (\<lambda>(_, e). e \<noteq> None) (zip inputs (map ?f inputs)) \<noteq> None"
      unfolding find_present using partial(2) get_event_None by blast
    then obtain i x where "find (\<lambda>(_, e). e \<noteq> None) (zip inputs (map ?f inputs)) = Some (i, x)" by auto
    moreover from this have "i \<in> set inputs" by (auto simp: find_Some_iff dest: nth_mem set_zip_leftD)
    ultimately show ?thesis using cases partial by auto
  qed
qed

text \<open>Payloads that read back as they were written.\<close>

definition text_stable :: "codec_text \<Rightarrow> new_ledger_event \<Rightarrow> bool" where
  "text_stable stored input \<longleftrightarrow> stored (nl_payload input) = nl_payload input"

lemma assign_matches: "list_all2 new_event_matches inputs (assign db inputs)"
  by (induction db inputs rule: assign.induct) (simp_all add: Let_def new_event_matches_def sequenced_def)

lemma assign_stored:
  assumes "ledger_wf (push_rows db (assign db inputs))" and "\<forall>i \<in> set inputs. text_stable stored i"
  shows "list_all2 (\<lambda>i ev. get_event_by_id stored (push_rows db (assign db inputs)) (nl_event_id i) = Some ev \<and>
    new_event_matches i ev) inputs (assign db inputs)"
proof -
  let ?db = "push_rows db (assign db inputs)"
  have "get_event_by_id stored ?db (nl_event_id i) = Some ev"
    if "i \<in> set inputs" "ev \<in> set (assign db inputs)" "new_event_matches i ev" for i ev
  proof -
    have "stored (le_payload ev) = le_payload ev"
      using assms(2) that unfolding new_event_matches_def text_stable_def by metis
    then have "row_to_event stored ev = ev" by (simp add: row_to_event_def)
    then show ?thesis
      using stored_event [OF assms(1), of ev stored] that(2,3) by (simp add: new_event_matches_def)
  qed
  then show ?thesis
    using assign_matches [of inputs db] by (auto elim: list.rel_mono_strong)
qed

lemma append_batch_again:
  assumes wf: "ledger_wf db" and ok: "append_batch stored db inputs = Ok (db', evs)"
    and stable: "\<forall>i \<in> set inputs. text_stable stored i"
  shows "append_batch stored db' inputs = Ok (db', evs)"
proof -
  note r = append_batch_Ok [OF wf ok]
  show ?thesis
  proof (cases "db' = db")
    case False
    with r have db': "db' = push_rows db (assign db inputs)" "evs = assign db inputs" and wf': "ledger_wf db'"
      and ne: "inputs \<noteq> []" "distinct (map nl_event_id inputs)" by auto
    have "nl_event_id ` set inputs \<subseteq> stored_ids db'"
      using arg_cong [OF assign_ids [of db inputs], of set] by (auto simp: db'(1))
    moreover have "replay_existing (zip inputs (map (\<lambda>i. get_event_by_id stored db' (nl_event_id i)) inputs)) = Ok evs"
      using assign_stored [of db inputs] wf' stable by (simp add: replay_existing_Ok db')
    ultimately show ?thesis by (simp add: batch_cases [OF ne])
  qed (use ok in simp)
qed

section \<open>Receipts\<close>

definition add_receipt :: "ledger \<Rightarrow> new_command_receipt \<Rightarrow> ledger" where
  "add_receipt db r =
     db\<lparr>lg_receipts := lg_receipts db @
       [\<lparr>cr_command_id = nr_command_id r, cr_method = nr_method r, cr_params_digest = nr_params_digest r,
         cr_response = nr_response r, cr_created_at = nr_created_at r\<rparr>]\<rparr>"

lemma add_receipt_sel [simp]:
  "lg_events (add_receipt db r) = lg_events db" "history (add_receipt db r) = history db"
  "stored_ids (add_receipt db r) = stored_ids db"
  by (simp_all add: add_receipt_def history_def stored_ids_def)

definition receipt_ids :: "ledger \<Rightarrow> string set" where
  "receipt_ids db = cr_command_id ` set (lg_receipts db)"

lemma get_receipt_None: "get_command_receipt stored db c = None \<longleftrightarrow> c \<notin> receipt_ids db"
  by (auto simp: get_command_receipt_def receipt_ids_def find_None_iff)

lemma insert_receipt_wf:
  assumes "ledger_wf db" and "nr_command_id r \<notin> receipt_ids db"
  shows "insert_command_receipt db r = Ok (add_receipt db r, last (lg_receipts (add_receipt db r))) \<and>
    ledger_wf (add_receipt db r)"
proof -
  have "\<forall>c \<in> set (lg_receipts db). cr_command_id c \<noteq> nr_command_id r"
    using assms(2) unfolding receipt_ids_def by (metis imageI)
  then show ?thesis
    using assms by (auto simp: insert_command_receipt_def add_receipt_def ledger_wf_def history_def receipt_ids_def Let_def)
qed

lemma committed_response_None:
  "committed_response stored db r = Ok None \<longleftrightarrow> nr_command_id r \<notin> receipt_ids db"
  using get_receipt_None [of stored db "nr_command_id r"]
  by (auto simp: committed_response_def split: option.splits if_splits)

lemma committed_response_Err:
  "committed_response stored db r = Err e \<Longrightarrow> e = CommandIdConflict (nr_command_id r)"
  by (auto simp: committed_response_def split: option.splits if_splits)

text \<open>A stored receipt answers every later call with its command identifier.\<close>

lemma get_receipt_added:
  assumes "nr_command_id r \<notin> receipt_ids db"
  shows "get_command_receipt stored (add_receipt db r) (nr_command_id r) =
    Some \<lparr>cr_command_id = nr_command_id r, cr_method = nr_method r, cr_params_digest = nr_params_digest r,
          cr_response = stored (nr_response r), cr_created_at = nr_created_at r\<rparr>"
proof -
  have "find P (xs @ ys) = (case find P xs of None \<Rightarrow> find P ys | Some x \<Rightarrow> Some x)" for P and xs ys :: "command_receipt list"
    by (induction xs) auto
  moreover have "find (\<lambda>c. cr_command_id c = nr_command_id r) (lg_receipts db) = None"
    using assms unfolding find_None_iff receipt_ids_def by (metis imageI)
  ultimately show ?thesis by (simp add: get_command_receipt_def add_receipt_def)
qed

lemma append_batch_with_receipt_Ok:
  assumes wf: "ledger_wf db" and ok: "append_batch_with_receipt stored db inputs r = Ok (db', res)"
  shows "ledger_wf db' \<and>
    (cb_replayed res \<and> db' = db \<and> cb_events res = [] \<and>
       (\<exists>c. get_command_receipt stored db (nr_command_id r) = Some c \<and> cr_method c = nr_method r \<and>
          cr_params_digest c = nr_params_digest r \<and> cb_response res = cr_response c) \<or>
     \<not> cb_replayed res \<and> nr_command_id r \<notin> receipt_ids db \<and> inputs \<noteq> [] \<and>
       db' = add_receipt (push_rows db (assign db inputs)) r \<and> cb_events res = assign db inputs \<and>
       cb_response res = nr_response r)"
proof (cases "nr_command_id r \<in> receipt_ids db")
  case True
  then obtain c where "get_command_receipt stored db (nr_command_id r) = Some c"
    using get_receipt_None by blast
  then show ?thesis
    using ok wf by (auto simp: append_batch_with_receipt_def committed_response_def split: if_splits)
next
  case False
  then have fresh: "committed_response stored db r = Ok None" by (simp add: committed_response_None)
  then obtain db1 evs where pre: "inputs \<noteq> []" "distinct (map nl_event_id inputs)"
      "nl_event_id ` set inputs \<inter> stored_ids db = {}" and ins: "insert_batch db inputs = Ok (db1, evs)"
    using ok by (auto simp: append_batch_with_receipt_def rbind_eq_Inr preflight_Ok split: if_splits)
  from insert_batch_wf [OF wf pre(2,3)] ins
  have db1: "db1 = push_rows db (assign db inputs)" "evs = assign db inputs" "ledger_wf db1" by auto
  have "nr_command_id r \<notin> receipt_ids db1" using False by (simp add: db1(1) receipt_ids_def)
  from insert_receipt_wf [OF db1(3) this] show ?thesis
    using ok fresh pre ins db1 False
    by (auto simp: append_batch_with_receipt_def rbind_eq_Inr add_receipt_def split: if_splits)
qed

lemma append_with_receipt_Ok:
  assumes wf: "ledger_wf db" and ok: "append_with_receipt stored db input r = Ok (db', res)"
  shows "ledger_wf db' \<and>
    (ca_replayed res \<and> db' = db \<and> ca_event res = None \<and>
       (\<exists>c. get_command_receipt stored db (nr_command_id r) = Some c \<and> cr_method c = nr_method r \<and>
          cr_params_digest c = nr_params_digest r \<and> ca_response res = cr_response c) \<or>
     \<not> ca_replayed res \<and> nr_command_id r \<notin> receipt_ids db \<and>
       db' = add_receipt (push_rows db (assign db [input])) r \<and> ca_response res = nr_response r)"
proof (cases "nr_command_id r \<in> receipt_ids db")
  case True
  then obtain c where "get_command_receipt stored db (nr_command_id r) = Some c"
    using get_receipt_None by blast
  then show ?thesis
    using ok wf by (auto simp: append_with_receipt_def committed_response_def split: if_splits)
next
  case False
  then have fresh: "committed_response stored db r = Ok None" by (simp add: committed_response_None)
  then obtain db1 where pre: "nl_event_id input \<notin> stored_ids db" and ins: "allocate_and_insert db input = Ok db1"
    using ok by (auto simp: append_with_receipt_def rbind_eq_Inr get_event_None split: if_splits)
  from allocate_and_insert_wf [OF wf pre] ins
  have db1: "db1 = push_rows db (assign db [input])" "ledger_wf db1" by auto
  have "nr_command_id r \<notin> receipt_ids db1" using False by (simp add: db1(1) receipt_ids_def)
  from insert_receipt_wf [OF db1(2) this] show ?thesis
    using ok fresh pre ins db1 False
    by (auto simp: append_with_receipt_def rbind_eq_Inr get_event_None split: if_splits)
qed

lemma record_command_receipt_Ok:
  assumes wf: "ledger_wf db" and ok: "record_command_receipt stored db r = Ok (db', c)"
  shows "ledger_wf db' \<and> (db' = db \<and> nr_command_id r \<in> receipt_ids db \<or>
    nr_command_id r \<notin> receipt_ids db \<and> db' = add_receipt db r)"
proof (cases "nr_command_id r \<in> receipt_ids db")
  case True
  then obtain c where "get_command_receipt stored db (nr_command_id r) = Some c"
    using get_receipt_None by blast
  then show ?thesis
    using ok wf True by (auto simp: record_command_receipt_def committed_response_def split: if_splits)
next
  case False
  then show ?thesis
    using ok insert_receipt_wf [OF wf False] committed_response_None [of stored db r]
    by (simp add: record_command_receipt_def)
qed

section \<open>Import and reads\<close>

lemma import_Ok:
  assumes wf: "ledger_wf db" and ok: "import_with_duplicate_policy stored db ev dup = Ok db'"
  shows "ledger_wf db' \<and>
    (dup \<and> db' = db \<and> get_event_by_id stored db (le_event_id ev) = Some ev \<or>
     le_event_id ev \<notin> stored_ids db \<and> le_seq ev = next_seq db (le_thread_id ev) \<and> db' = push_row db ev)"
proof (cases "get_event_by_id stored db (le_event_id ev)")
  case (Some existing)
  then show ?thesis using ok wf by (auto simp: import_with_duplicate_policy_def split: if_splits)
next
  case None
  then have fresh: "le_event_id ev \<notin> stored_ids db" by (simp add: get_event_None)
  have room: "length (lg_events db) < i64_max" and seq: "le_seq ev = next_seq db (le_thread_id ev)"
    and ins: "insert_event db ev (Suc (length (lg_events db))) = Ok db'"
    using ok None
    by (auto simp: import_with_duplicate_policy_def rbind_eq_Inr next_sqlite_sequence_def max_seq_wf [OF wf]
        max_append_order_wf [OF wf] next_seq_def split: if_splits)
  from insert_event_wf [OF wf fresh seq room] ins show ?thesis using fresh seq by auto
qed

lemma import_fresh:
  assumes wf: "ledger_wf db" and "le_event_id ev \<notin> stored_ids db" and "le_seq ev = next_seq db (le_thread_id ev)"
    and "length (lg_events db) < i64_max"
  shows "import_with_duplicate_policy stored db ev dup = Ok (push_row db ev) \<and> ledger_wf (push_row db ev)"
proof -
  have "length (of_thread (le_thread_id ev) (history db)) < i64_max"
    using of_thread_le [of "le_thread_id ev" "history db"] assms(4) by simp
  then show ?thesis
    using assms insert_event_wf [OF assms] get_event_None [of stored db "le_event_id ev"]
    by (simp add: import_with_duplicate_policy_def max_seq_wf [OF wf] max_append_order_wf [OF wf] next_seq_def)
qed

text \<open>Rows come back in the order of their sequence numbers, which is the order of insertion.\<close>

lemma sort_key_sorted: "sorted (map f xs) \<Longrightarrow> sort_key f xs = xs"
proof (induction xs)
  case (Cons x xs)
  then show ?case by (cases xs) (auto simp: insort_is_Cons)
qed simp

lemma filter_upt_drop:
  assumes "map f xs = [1..<Suc n]"
  shows "filter (\<lambda>x. f x > k) xs = drop k xs"
proof -
  have "map f xs = [a..<a + length xs] \<Longrightarrow> filter (\<lambda>x. f x > k) xs = drop (Suc k - a) xs" for a
  proof (induction xs arbitrary: a)
    case (Cons x xs)
    have "[a..<a + length (x # xs)] = a # [Suc a..<Suc a + length xs]" by (simp add: upt_conv_Cons del: upt_Suc)
    with Cons.prems have x: "f x = a" "map f xs = [Suc a..<Suc a + length xs]" by simp_all
    have all: "filter (\<lambda>x. k < f x) xs = xs" if "k < a"
    proof -
      have "\<forall>y \<in> set xs. f y \<in> set [Suc a..<Suc a + length xs]" by (metis x(2) imageI set_map)
      with that show ?thesis by (auto simp: filter_id_conv)
    qed
    show ?case
    proof (cases "k < a")
      case True
      then show ?thesis using x(1) all by simp
    next
      case False
      then have "Suc k - a = Suc (k - a)" by simp
      with False x Cons.IH [of "Suc a"] show ?thesis by simp
    qed
  qed simp
  moreover have "length xs = n" by (metis assms diff_Suc_1 length_map length_upt)
  ultimately show ?thesis using assms by (metis diff_Suc_1 plus_1_eq_Suc)
qed

lemma thread_rows_wf:
  assumes "ledger_wf db"
  shows "thread_rows stored db t k = map (row_to_event stored) (drop k (of_thread t (history db)))"
proof -
  let ?es = "of_thread t (history db)"
  have seqs: "map le_seq ?es = [1..<Suc (length ?es)]" using assms by (simp add: ledger_wf_def)
  have "filter (\<lambda>e. le_thread_id e = t \<and> le_seq e > k) (history db) = filter (\<lambda>e. le_seq e > k) ?es"
    by (simp add: of_thread_def conj_commute)
  also have "\<dots> = drop k ?es" by (rule filter_upt_drop [OF seqs])
  finally have rows: "filter (\<lambda>e. le_thread_id e = t \<and> le_seq e > k) (map snd (lg_events db)) = drop k ?es"
    by (simp add: history_def)
  have "sorted (map le_seq (drop k ?es))"
    unfolding drop_map [symmetric] seqs by (simp add: sorted_wrt_drop del: upt_Suc)
  then show ?thesis unfolding thread_rows_def rows by (simp add: sort_key_sorted)
qed

lemma saturating_step:
  "k < u64_max \<Longrightarrow> saturating_add k 1 = Suc k" "k < u64_max \<Longrightarrow> saturating_add k (Suc 0) = Suc k"
  by (simp_all add: saturating_add_def u64_max_def)

lemma take_upt_min: "take n [i..<j] = [i..<min (i + n) j]"
  by (cases "i + n \<le> j") (simp_all add: take_upt min_def)

lemma i64_below_u64: "i64_max < u64_max"
  by (simp add: i64_max_def u64_max_def)

lemma validate_sequence_upt:
  "map le_seq es = [k..<k + length es] \<Longrightarrow> k + length es \<le> u64_max \<Longrightarrow> validate_sequence t k es = Ok ()"
proof (induction es arbitrary: k)
  case (Cons e es)
  have "[k..<k + length (e # es)] = k # [Suc k..<Suc k + length es]"
    by (simp add: upt_conv_Cons del: upt_Suc)
  with Cons.prems have e: "le_seq e = k" "map le_seq es = [Suc k..<Suc k + length es]" by simp_all
  moreover have "k < u64_max" using Cons.prems(2) by simp
  ultimately show ?case using Cons.IH [of "Suc k"] Cons.prems(2) by (simp add: saturating_step)
qed simp

lemma row_to_event_sel [simp]:
  "le_event_id (row_to_event stored e) = le_event_id e" "le_thread_id (row_to_event stored e) = le_thread_id e"
  "le_seq (row_to_event stored e) = le_seq e" "le_payload (row_to_event stored e) = stored (le_payload e)"
  by (simp_all add: row_to_event_def)

lemma row_to_event_id [simp]: "row_to_event (\<lambda>v. v) = (\<lambda>e. e)"
  by (rule ext) (simp add: row_to_event_def)

lemma validate_rows:
  assumes wf: "ledger_wf db" and "k \<le> i64_max"
  shows "validate_sequence t (saturating_add k 1) (take n (thread_rows stored db t k)) = Ok ()"
proof -
  let ?es = "of_thread t (history db)"
  have seqs: "map le_seq ?es = [1..<Suc (length ?es)]" and len: "length ?es \<le> i64_max"
    using wf of_thread_le [of t "history db"] unfolding ledger_wf_def by auto
  let ?rows = "take n (thread_rows stored db t k)"
  have "map le_seq ?rows = take n (drop k (map le_seq ?es))"
    by (simp add: thread_rows_wf [OF wf] take_map drop_map comp_def)
  also have "\<dots> = [Suc k..<min (Suc k + n) (Suc (length ?es))]"
    unfolding seqs by (simp add: drop_upt take_upt_min del: upt_Suc)
  finally have rows: "map le_seq ?rows = [Suc k..<min (Suc k + n) (Suc (length ?es))]" .
  show ?thesis
  proof (cases "k < length ?es")
    case True
    have "length ?rows = min (Suc k + n) (Suc (length ?es)) - Suc k"
      by (metis rows length_map length_upt)
    with True have "min (Suc k + n) (Suc (length ?es)) = Suc k + length ?rows" by auto
    moreover have "Suc k + length ?rows \<le> u64_max"
      using calculation len i64_below_u64 by linarith
    ultimately have "validate_sequence t (Suc k) ?rows = Ok ()"
      using validate_sequence_upt [of ?rows "Suc k" t] rows by simp
    with assms(2) i64_below_u64 show ?thesis by (simp add: saturating_step)
  next
    case False
    then show ?thesis by (simp add: thread_rows_wf [OF wf])
  qed
qed

lemma replay_thread_wf:
  assumes "ledger_wf db" and "k \<le> i64_max"
  shows "replay_thread stored db t k = Ok (map (row_to_event stored) (drop k (of_thread t (history db))))"
  using validate_rows [OF assms, of t "length (thread_rows stored db t k)"] assms
  by (simp add: replay_thread_def bind_u64_def Let_def thread_rows_wf)

lemma replay_page_wf:
  assumes "ledger_wf db" and "k \<le> i64_max" and "n \<le> i64_max"
  shows "replay_page stored db t k n = Ok (map (row_to_event stored) (take n (drop k (of_thread t (history db)))))"
  using validate_rows [OF assms(1,2), of t n] assms
  by (simp add: replay_page_def bind_u64_def Let_def thread_rows_wf take_map)

lemma all_events_wf: "ledger_wf db \<Longrightarrow> all_events stored db = map (row_to_event stored) (history db)"
proof -
  assume "ledger_wf db"
  then have "sorted (map fst (lg_events db))" unfolding ledger_wf_def by (metis sorted_upt)
  then show ?thesis by (simp add: all_events_def sort_key_sorted history_def)
qed

text \<open>Importing a list of events one after the other.\<close>

fun import_all :: "codec_text \<Rightarrow> ledger \<Rightarrow> ledger_event list \<Rightarrow> (ledger_error, ledger) rust_result" where
  "import_all stored db [] = Ok db"
| "import_all stored db (e # es) = rbind (import_event stored db e) (\<lambda>db'. import_all stored db' es)"

interpretation importing: event_fold "import_event stored" "import_all stored" for stored
  by unfold_locales simp_all

lemma upt_prefix:
  assumes "xs @ ys = [1..<Suc (length xs + length ys)]"
  shows "xs = [1..<Suc (length xs)]"
  using arg_cong [OF assms, of "take (length xs)"] by (simp add: take_upt_min del: upt_Suc)

lemma ledger_wf_prefix:
  assumes "ledger_wf (push_row db e)"
  shows "ledger_wf db \<and> le_event_id e \<notin> stored_ids db \<and> le_seq e = next_seq db (le_thread_id e) \<and>
    length (lg_events db) < i64_max"
proof -
  let ?n = "\<lambda>t. length (of_thread t (history db))"
  have seqs: "map le_seq (of_thread t (history db) @ of_thread t [e]) =
      [1..<Suc (?n t + length (of_thread t [e]))]" for t
    using assms unfolding ledger_wf_def push_row_sel of_thread_append by (metis length_append)
  have "map le_seq (of_thread t (history db)) = [1..<Suc (?n t)]" for t
    using upt_prefix [of "map le_seq (of_thread t (history db))" "map le_seq (of_thread t [e])"] seqs [of t]
    by (simp del: upt_Suc)
  moreover have "map fst (lg_events db) = [1..<Suc (length (lg_events db))]"
    using assms upt_prefix [of "map fst (lg_events db)" "[Suc (length (lg_events db))]"]
    by (simp add: ledger_wf_def push_row_def)
  moreover have "le_seq e = next_seq db (le_thread_id e)"
    using seqs [of "le_thread_id e"] by (simp add: of_thread_single next_seq_def)
  ultimately show ?thesis
    using assms by (simp add: ledger_wf_def stored_ids_def del: upt_Suc)
qed

lemma ledger_wf_push_all: "ledger_wf (push_rows db es) \<Longrightarrow> ledger_wf db"
  by (induction es arbitrary: db) (auto dest: ledger_wf_prefix)

lemma import_all_wf:
  "ledger_wf (push_rows db es) \<Longrightarrow> import_all stored db es = Ok (push_rows db es)"
proof (induction es arbitrary: db)
  case (Cons e es)
  then have "ledger_wf (push_row db e)" using ledger_wf_push_all by simp
  from ledger_wf_prefix [OF this] have "import_event stored db e = Ok (push_row db e)"
    using import_fresh unfolding import_event_def by blast
  with Cons show ?case by simp
qed simp

lemma push_rows_orders:
  "map fst (lg_events (push_rows db es)) = map fst (lg_events db) @ [Suc (length (lg_events db))..<Suc (length (lg_events db) + length es)]"
proof (induction es arbitrary: db)
  case (Cons e es)
  show ?case
    unfolding push_rows_simps Cons.IH by (simp add: push_row_def upt_conv_Cons del: upt_Suc)
qed simp

lemma ledger_wf_rebuilt:
  assumes "ledger_wf db"
  shows "ledger_wf (push_rows initialize_schema (map (row_to_event stored) (history db)))"
proof -
  let ?db = "push_rows initialize_schema (map (row_to_event stored) (history db))"
  have hist: "history ?db = map (row_to_event stored) (history db)"
    by simp
  have threads: "of_thread t (map (row_to_event stored) es) = map (row_to_event stored) (of_thread t es)" for t es
    by (simp add: of_thread_def filter_map comp_def)
  have "map fst (lg_events ?db) = [1..<Suc (length (lg_events ?db))]"
    by (simp add: push_rows_orders initialize_schema_def del: upt_Suc)
  moreover have "lg_receipts ?db = []" "length (lg_events ?db) = length (lg_events db)"
    by (simp_all add: initialize_schema_def)
  moreover have "map le_event_id (history ?db) = map le_event_id (history db)"
    "map le_seq (of_thread t (history ?db)) = map le_seq (of_thread t (history db))" for t
    by (simp_all add: hist threads comp_def)
  moreover have "length (of_thread t (history ?db)) = length (of_thread t (history db))" for t
    by (simp add: hist threads)
  ultimately show ?thesis using assms by (simp add: ledger_wf_def comp_def del: upt_Suc)
qed

section \<open>Concrete inputs\<close>

definition sample_new_event :: "string \<Rightarrow> string \<Rightarrow> new_ledger_event" where
  "sample_new_event i t =
     \<lparr>nl_schema_version = PROTOCOL_VERSION, nl_event_id = i, nl_thread_id = t, nl_turn_id = None,
      nl_agent_id = ''root'', nl_time = 0, nl_causation_id = None, nl_kind = ''runtime/diagnostic'',
      nl_payload = JNull\<rparr>"

definition sample_receipt :: "string \<Rightarrow> new_command_receipt" where
  "sample_receipt digest =
     \<lparr>nr_command_id = ''c1'', nr_method = ''turn/start'', nr_params_digest = digest,
      nr_response = JBool True, nr_created_at = 0\<rparr>"

definition sample_ledger :: ledger where
  "sample_ledger = push_rows initialize_schema
     (assign initialize_schema [sample_new_event ''e1'' ''t'', sample_new_event ''e2'' ''u'', sample_new_event ''e3'' ''t''])"

lemma sample_batch:
  "append_batch stored initialize_schema
     [sample_new_event ''e1'' ''t'', sample_new_event ''e2'' ''u'', sample_new_event ''e3'' ''t''] =
   Ok (sample_ledger, assign initialize_schema
     [sample_new_event ''e1'' ''t'', sample_new_event ''e2'' ''u'', sample_new_event ''e3'' ''t''])"
  and sample_ledger_wf: "ledger_wf sample_ledger"
proof -
  let ?in = "[sample_new_event ''e1'' ''t'', sample_new_event ''e2'' ''u'', sample_new_event ''e3'' ''t'']"
  have ids: "distinct (map nl_event_id ?in)" "nl_event_id ` set ?in \<inter> stored_ids initialize_schema = {}"
    by (simp_all add: sample_new_event_def stored_ids_def initialize_schema_def history_def)
  have "\<not> i64_max < length (lg_events initialize_schema) + length ?in"
    by (simp add: i64_max_def initialize_schema_def)
  then have "insert_batch initialize_schema ?in = Ok (sample_ledger, assign initialize_schema ?in)"
    and "ledger_wf sample_ledger"
    using insert_batch_wf [OF ledger_wf_empty ids] unfolding sample_ledger_def by auto
  moreover have "\<not> nl_event_id ` set ?in \<subseteq> stored_ids initialize_schema"
    using ids(2) by auto
  ultimately show "append_batch stored initialize_schema ?in = Ok (sample_ledger, assign initialize_schema ?in)"
    and "ledger_wf sample_ledger"
    using batch_cases [of ?in stored initialize_schema] ids by simp_all
qed

section \<open>Properties\<close>

text \<open>
  C14: A batch is appended as a whole and at most once. When \<open>append_batch\<close> returns events
  on a well-formed ledger, they match the inputs one by one, the history is either unchanged
  or extended by exactly these events, the ledger is well formed again, and a repetition of
  the call (a retry after a lost reply) returns the same events and changes nothing.
\<close>

theorem batch_append_is_atomic_and_idempotent:
  assumes "ledger_wf db" and "append_batch stored db inputs = Ok (db', evs)"
    and "\<forall>i \<in> set inputs. text_stable stored i"
  shows "list_all2 new_event_matches inputs evs \<and>
    (db' = db \<or> history db' = history db @ evs \<and> lg_receipts db' = lg_receipts db) \<and>
    ledger_wf db' \<and> append_batch stored db' inputs = Ok (db', evs)"
  using append_batch_Ok [OF assms(1,2)] append_batch_again [OF assms] assign_matches [of inputs db]
  by (auto elim: list.rel_mono_strong)

theorem batch_append_is_atomic_and_idempotent_witness:
  "\<exists>evs. append_batch (\<lambda>v. v) initialize_schema
     [sample_new_event ''e1'' ''t'', sample_new_event ''e2'' ''u'', sample_new_event ''e3'' ''t''] = Ok (sample_ledger, evs) \<and>
   append_batch (\<lambda>v. v) sample_ledger
     [sample_new_event ''e1'' ''t'', sample_new_event ''e2'' ''u'', sample_new_event ''e3'' ''t''] = Ok (sample_ledger, evs) \<and>
   map le_seq evs = [1, 1, 2]"
  using batch_append_is_atomic_and_idempotent [OF ledger_wf_empty sample_batch [of "\<lambda>v. v"]] sample_batch [of "\<lambda>v. v"]
  by (simp add: text_stable_def Let_def next_seq_def of_thread_def sample_new_event_def)



text \<open>
  A command commits once. After \<open>append_batch_with_receipt\<close> has returned, every further
  call with the same command identifier, method and parameter digest, whatever events it
  carries, returns the stored response, appends nothing and reports the replay; a call that
  reuses the identifier for another method or other parameters is refused.
\<close>

lemma command_commits_once:
  assumes "ledger_wf db" and "append_batch_with_receipt stored db inputs r = Ok (db', res)"
    and "stored (nr_response r) = nr_response r"
    and "nr_command_id r' = nr_command_id r"
  shows "ledger_wf db' \<and>
    (if nr_method r' = nr_method r \<and> nr_params_digest r' = nr_params_digest r
     then append_batch_with_receipt stored db' inputs' r' =
       Ok (db', \<lparr>cb_events = [], cb_response = cb_response res, cb_replayed = True\<rparr>)
     else append_batch_with_receipt stored db' inputs' r' = Err (CommandIdConflict (nr_command_id r)))"
proof -
  note res = append_batch_with_receipt_Ok [OF assms(1,2)]
  obtain c where c: "get_command_receipt stored db' (nr_command_id r) = Some c" "cr_method c = nr_method r"
      "cr_params_digest c = nr_params_digest r" "cr_response c = cb_response res"
  proof (cases "cb_replayed res")
    case True
    then show ?thesis using res that by auto
  next
    case False
    let ?db = "push_rows db (assign db inputs)"
    have "nr_command_id r \<notin> receipt_ids ?db" using res False by (auto simp: receipt_ids_def)
    from get_receipt_added [OF this, of stored] that show ?thesis using res False assms(3) by auto
  qed
  then show ?thesis
    using res assms(4) by (auto simp: append_batch_with_receipt_def committed_response_def)
qed

lemma command_commits_once_witness:
  "\<exists>db' res. append_batch_with_receipt (\<lambda>v. v) initialize_schema [sample_new_event ''e1'' ''t''] (sample_receipt ''d'') = Ok (db', res) \<and>
     append_batch_with_receipt (\<lambda>v. v) db' [sample_new_event ''e9'' ''t''] (sample_receipt ''d'') =
       Ok (db', \<lparr>cb_events = [], cb_response = JBool True, cb_replayed = True\<rparr>) \<and>
     append_batch_with_receipt (\<lambda>v. v) db' [sample_new_event ''e9'' ''t''] (sample_receipt ''other'') =
       Err (CommandIdConflict ''c1'')"
proof -
  let ?r = "append_batch_with_receipt (\<lambda>v. v) initialize_schema [sample_new_event ''e1'' ''t''] (sample_receipt ''d'')"
  have "\<exists>db' res. ?r = Ok (db', res) \<and> cb_response res = JBool True"
    by (simp add: append_batch_with_receipt_def committed_response_def get_command_receipt_def get_event_by_id_def
        insert_batch_def max_seq_def max_append_order_def next_sqlite_sequence_def i64_max_def ok_or_def
        insert_event_def insert_command_receipt_def initialize_schema_def sample_receipt_def sample_new_event_def Let_def)
  then obtain db' res where ok: "?r = Ok (db', res)" and resp: "cb_response res = JBool True" by blast
  have "nr_response (sample_receipt ''d'') = nr_response (sample_receipt ''d'')" ..
  from command_commits_once [OF ledger_wf_empty ok this, of "sample_receipt ''d''" "[sample_new_event ''e9'' ''t'']"]
    command_commits_once [OF ledger_wf_empty ok this, of "sample_receipt ''other''" "[sample_new_event ''e9'' ''t'']"]
  show ?thesis using ok resp by (auto simp: sample_receipt_def)
qed

text \<open>
  Reconnecting clients miss nothing. On a well-formed ledger a replay after sequence
  number \<open>k\<close> returns exactly the thread's events from the \<open>k+1\<close>-st on, in order, and never
  reports a gap; a page is a prefix of that list, and what remains is the replay after the
  page.
\<close>

lemma replay_is_complete_and_paginated:
  assumes "ledger_wf db" and "k \<le> i64_max" and "0 < n" and "n \<le> i64_max"
    and "k + n \<le> i64_max"
  shows "\<exists>page rest. replay_thread stored db t k = Ok (page @ rest) \<and>
    page @ rest = map (row_to_event stored) (drop k (of_thread t (history db))) \<and>
    replay_page stored db t k n = Ok page \<and> length page \<le> n \<and>
    replay_thread stored db t (k + length page) = Ok rest"
proof -
  let ?es = "map (row_to_event stored) (drop k (of_thread t (history db)))"
  have "replay_page stored db t k n = Ok (take n ?es)"
    using replay_page_wf [OF assms(1,2,4)] by (simp add: take_map)
  moreover have "replay_thread stored db t (k + length (take n ?es)) = Ok (drop n ?es)"
  proof (cases "n \<le> length ?es")
    case True
    then show ?thesis
      using replay_thread_wf [OF assms(1), of "k + n"] assms(5) by (simp add: drop_map add.commute)
  next
    case False
    then show ?thesis
      using replay_thread_wf [OF assms(1), of "k + length ?es"] assms(5)
      by (simp add: drop_map add.commute)
  qed
  moreover have "replay_thread stored db t k = Ok (take n ?es @ drop n ?es)"
    using replay_thread_wf [OF assms(1,2)] by simp
  ultimately show ?thesis
    by (intro exI [of _ "take n ?es"] exI [of _ "drop n ?es"]) simp
qed

lemma replay_is_complete_and_paginated_witness:
  "\<exists>page rest. replay_thread (\<lambda>v. v) sample_ledger ''t'' 0 = Ok (page @ rest) \<and>
     replay_page (\<lambda>v. v) sample_ledger ''t'' 0 1 = Ok page \<and> length page \<le> 1 \<and>
     replay_thread (\<lambda>v. v) sample_ledger ''t'' (0 + length page) = Ok rest"
  using replay_is_complete_and_paginated [OF sample_ledger_wf, of 0 1 "\<lambda>v. v" "''t''"]
  by (simp add: i64_max_def) blast

text \<open>
  Export and import are inverse. Importing the exported events of a well-formed ledger
  into an empty one succeeds and rebuilds the same history with the same append order (the
  payloads being what their text reads back as).
\<close>

lemma import_rebuilds_exported_history:
  assumes "ledger_wf db"
  shows "\<exists>db'. import_all stored initialize_schema (all_events stored db) = Ok db' \<and> ledger_wf db' \<and>
    history db' = map (row_to_event stored) (history db) \<and> map fst (lg_events db') = map fst (lg_events db)"
proof -
  let ?es = "map (row_to_event stored) (history db)"
  let ?db = "push_rows initialize_schema ?es"
  have wf: "ledger_wf ?db" by (rule ledger_wf_rebuilt [OF assms])
  have "import_all stored initialize_schema (all_events stored db) = Ok ?db"
    using import_all_wf [OF wf] by (simp add: all_events_wf [OF assms])
  moreover have "map fst (lg_events ?db) = map fst (lg_events db)"
    using assms wf by (simp add: ledger_wf_def del: upt_Suc)
  ultimately show ?thesis using wf by (intro exI [of _ ?db]) simp
qed

lemma import_rebuilds_exported_history_witness:
  "ledger_wf sample_ledger \<and>
   (\<exists>db'. import_all (\<lambda>v. v) initialize_schema (all_events (\<lambda>v. v) sample_ledger) = Ok db' \<and>
      history db' = history sample_ledger)"
  using import_rebuilds_exported_history [OF sample_ledger_wf, of "\<lambda>v. v"] sample_ledger_wf
  by (auto simp: row_to_event_id)

end
