(* ===== verification/Ledger_Outcomes.thy ===== *)
theory Ledger_Outcomes
  imports Event_Ledger Effect_Values Invocation_Machine
begin

text \<open>
  The typed invocation appends of \<open>yeux-runtime/src/ledger.rs\<close>: validation of an outcome
  pair, of an unknown marker and of a reconciliation, the transaction-local projection of one
  invocation, and the checked append that binds both. The conversions between ledger rows and
  protocol envelopes and the \<open>EventStore\<close> port are here too.

  What \<open>serde_json\<close> and \<open>uuid\<close> do is a parameter, the record \<open>codec\<close>: the text
  round trip of a JSON value, the decoding of an event from its tag and payload, of an
  identifier and of content blocks, the JSON value of an event, and the parser of UUIDs. A
  failing decoder returns its error text.
\<close>

record codec =
  cd_stored :: "json \<Rightarrow> json"
  cd_event :: "string \<Rightarrow> json \<Rightarrow> (string, event) rust_result"
  cd_uuid :: "json \<Rightarrow> (string, uuid) rust_result"
  cd_blocks :: "json \<Rightarrow> (string, content_block list) rust_result"
  cd_event_value :: "event \<Rightarrow> json"
  cd_parse_uuid :: "string \<Rightarrow> (string, uuid) rust_result"

record new_invocation_outcome =
  no_tool_result :: new_ledger_event
  no_terminal_state :: new_ledger_event

record new_invocation_unknown =
  nu_state :: new_ledger_event

record new_invocation_unknown_outcome =
  nuo_unknown_state :: new_ledger_event
  nuo_tool_result :: new_ledger_event

abbreviation invalid :: "string \<Rightarrow> (ledger_error, 'a) rust_result" where
  "invalid message \<equiv> Err (InvalidInvocationOutcome message)"

section \<open>Validation\<close>

definition decode_new_event :: "codec \<Rightarrow> new_ledger_event \<Rightarrow> (ledger_error, event) rust_result" where
  "decode_new_event C input =
     map_err (\<lambda>error. InvalidInvocationOutcome
         (''event '' @ nl_event_id input @ '' is not valid protocol data: '' @ error))
       (cd_event C (nl_kind input) (nl_payload input))"

definition same_scope :: "new_ledger_event \<Rightarrow> new_ledger_event \<Rightarrow> bool" where
  "same_scope a b \<longleftrightarrow>
     nl_schema_version a = nl_schema_version b \<and> nl_thread_id a = nl_thread_id b \<and>
     nl_turn_id a = nl_turn_id b \<and> nl_agent_id a = nl_agent_id b \<and> nl_causation_id a = nl_causation_id b"

definition unsupported_schema :: "protocol_version \<Rightarrow> string" where
  "unsupported_schema v = ''unsupported event schema '' @ dec_digits (major v) @ ''.'' @ dec_digits (minor v)"

fun state_debug :: "invocation_state \<Rightarrow> string" where
  "state_debug Proposed = ''Proposed''"
| "state_debug Approved = ''Approved''"
| "state_debug Prepared = ''Prepared''"
| "state_debug Started = ''Started''"
| "state_debug invocation_state.Completed = ''Completed''"
| "state_debug invocation_state.Failed = ''Failed''"
| "state_debug invocation_state.Cancelled = ''Cancelled''"
| "state_debug invocation_state.Unknown = ''Unknown''"

definition bool_debug :: "bool \<Rightarrow> string" where
  "bool_debug b = (if b then ''true'' else ''false'')"

text \<open>The \<open>match\<close> on the terminal event of an outcome.\<close>

definition terminal_of :: "event \<Rightarrow> (ledger_error, invocation_id \<times> invocation_state) rust_result" where
  "terminal_of ev =
     (case ev of
        InvocationStateChanged i frm to _ \<Rightarrow>
          if inv_is_terminal to \<and> can_transition_invocation frm to then Ok (i, to)
          else if frm = invocation_state.Unknown
          then invalid ''Unknown must be resolved by tool/reconciled evidence''
          else invalid ''terminal_state must be a terminal tool/state_changed or tool/reconciled event''
      | InvocationReconciled i outcome evidence \<Rightarrow>
          if is_blank (re_source evidence) \<or> is_blank (re_summary evidence)
          then invalid ''reconciliation evidence source and summary are required''
          else Ok (i, outcome_state outcome)
      | _ \<Rightarrow> invalid ''terminal_state must be a terminal tool/state_changed or tool/reconciled event'')"

definition result_item :: "event \<Rightarrow> string \<Rightarrow> (ledger_error, item) rust_result" where
  "result_item ev message =
     (case ev of ItemAdded i \<Rightarrow> if it_kind i = ToolResult then Ok i else invalid message | _ \<Rightarrow> invalid message)"

definition item_outside_scope :: "externals \<Rightarrow> item \<Rightarrow> new_ledger_event \<Rightarrow> bool" where
  "item_outside_scope X i scope \<longleftrightarrow>
     uuid_str X (it_thread_id i) \<noteq> nl_thread_id scope \<or>
     Some (uuid_str X (it_turn_id i)) \<noteq> nl_turn_id scope \<or> it_agent_id i \<noteq> nl_agent_id scope"

definition item_invocation_id :: "codec \<Rightarrow> item \<Rightarrow> string \<Rightarrow> string \<Rightarrow> (ledger_error, invocation_id) rust_result" where
  "item_invocation_id C i missing wrong =
     rbind (ok_or (InvalidInvocationOutcome missing) (json_get (it_content i) ''invocation_id'')) (\<lambda>v.
       map_err (\<lambda>error. InvalidInvocationOutcome (wrong @ error)) (cd_uuid C v))"

definition item_blocks :: "codec \<Rightarrow> item \<Rightarrow> string \<Rightarrow> string \<Rightarrow> (ledger_error, content_block list) rust_result" where
  "item_blocks C i missing wrong =
     rbind (ok_or (InvalidInvocationOutcome missing) (json_get (it_content i) ''content'')) (\<lambda>v.
       map_err (\<lambda>error. InvalidInvocationOutcome (wrong @ error)) (cd_blocks C v))"

text \<open>\<open>[ContentBlock::ToolResult { .. }] if !call_id.trim().is_empty()\<close>\<close>

definition single_result :: "content_block list \<Rightarrow> (string \<times> bool) option" where
  "single_result blocks =
     (case blocks of
        [ToolResultBlock call _ is_error] \<Rightarrow> if is_blank call then None else Some (call, is_error)
      | _ \<Rightarrow> None)"

definition validate_invocation_outcome ::
  "codec \<Rightarrow> externals \<Rightarrow> new_invocation_outcome \<Rightarrow> (ledger_error, unit) rust_result" where
  "validate_invocation_outcome C X input =
     (let result_scope = no_tool_result input; terminal_scope = no_terminal_state input in
      if \<not> same_scope result_scope terminal_scope
      then invalid ''ToolResult and terminal state must share schema, thread, turn, agent, and causation''
      else if \<not> accepts PROTOCOL_VERSION (nl_schema_version result_scope)
      then invalid (unsupported_schema (nl_schema_version result_scope))
      else if nl_turn_id result_scope = None
      then invalid ''invocation outcome events require a turn''
      else
        rbind (decode_new_event C result_scope) (\<lambda>result_event.
        rbind (decode_new_event C terminal_scope) (\<lambda>terminal_event.
        rbind (terminal_of terminal_event) (\<lambda>(invocation_id, terminal_state).
        rbind (result_item result_event ''tool_result must be an item/added ToolResult'') (\<lambda>item.
        if item_outside_scope X item result_scope
        then invalid ''ToolResult item parent does not match its event envelope''
        else
          rbind (item_invocation_id C item ''ToolResult item is missing invocation_id''
             ''ToolResult item has an invalid invocation_id: '') (\<lambda>item_id.
          if item_id \<noteq> invocation_id
          then invalid ''ToolResult and terminal state name different invocations''
          else
            rbind (item_blocks C item ''ToolResult item is missing content blocks''
               ''ToolResult item content is invalid: '') (\<lambda>blocks.
            case single_result blocks of
              None \<Rightarrow> invalid ''ToolResult item must contain exactly one named tool_result block''
            | Some (_, is_error) \<Rightarrow>
                if is_error \<noteq> (terminal_state \<noteq> invocation_state.Completed)
                then invalid (''ToolResult is_error='' @ bool_debug is_error @
                        '' disagrees with terminal state '' @ state_debug terminal_state)
                else Ok ())))))))"

text \<open>\<open>Started -> Unknown\<close> with a reason that is not blank.\<close>

definition unknown_marker :: "event \<Rightarrow> string \<Rightarrow> (ledger_error, invocation_id) rust_result" where
  "unknown_marker ev message =
     (case ev of
        InvocationStateChanged i frm to reason \<Rightarrow>
          if frm = Started \<and> to = invocation_state.Unknown
          then (if (case reason of None \<Rightarrow> True | Some r \<Rightarrow> is_blank r)
                then invalid ''Started -> Unknown requires a non-empty reason'' else Ok i)
          else invalid message
      | _ \<Rightarrow> invalid message)"

definition validate_invocation_unknown ::
  "codec \<Rightarrow> new_ledger_event \<Rightarrow> (ledger_error, invocation_id) rust_result" where
  "validate_invocation_unknown C input =
     (if \<not> accepts PROTOCOL_VERSION (nl_schema_version input)
      then invalid (unsupported_schema (nl_schema_version input))
      else if nl_turn_id input = None then invalid ''Started -> Unknown events require a turn''
      else rbind (decode_new_event C input) (\<lambda>ev.
        unknown_marker ev ''unknown marker must be a Started -> Unknown tool/state_changed event''))"

definition validate_invocation_unknown_outcome ::
  "codec \<Rightarrow> externals \<Rightarrow> new_invocation_unknown_outcome \<Rightarrow> (ledger_error, invocation_id) rust_result" where
  "validate_invocation_unknown_outcome C X input =
     (let state_scope = nuo_unknown_state input; result_scope = nuo_tool_result input in
      if nl_event_id state_scope = nl_event_id result_scope
      then invalid ''Unknown marker and ToolResult must use distinct event IDs''
      else if \<not> same_scope state_scope result_scope
      then invalid ''Unknown marker and ToolResult must share schema, thread, turn, agent, and causation''
      else if \<not> accepts PROTOCOL_VERSION (nl_schema_version state_scope)
      then invalid (unsupported_schema (nl_schema_version state_scope))
      else if nl_turn_id state_scope = None then invalid ''Unknown outcomes require a turn''
      else
        rbind (decode_new_event C state_scope) (\<lambda>state_event.
        rbind (unknown_marker state_event ''unknown outcome marker must be a Started -> Unknown event'') (\<lambda>invocation_id.
        rbind (decode_new_event C result_scope) (\<lambda>result_event.
        rbind (result_item result_event ''unknown outcome must include an item/added ToolResult'') (\<lambda>item.
        if item_outside_scope X item result_scope
        then invalid ''Unknown ToolResult item parent does not match its event envelope''
        else
          rbind (item_invocation_id C item ''Unknown ToolResult is missing invocation_id''
             ''Unknown ToolResult has an invalid invocation_id: '') (\<lambda>item_id.
          if item_id \<noteq> invocation_id
          then invalid ''Unknown marker and ToolResult name different invocations''
          else
            rbind (item_blocks C item ''Unknown ToolResult is missing content blocks''
               ''Unknown ToolResult content is invalid: '') (\<lambda>blocks.
            case single_result blocks of
              Some (_, True) \<Rightarrow> Ok invocation_id
            | _ \<Rightarrow> invalid ''Unknown ToolResult must contain exactly one error tool_result block'')))))))"

definition validate_invocation_reconciliation ::
  "codec \<Rightarrow> externals \<Rightarrow> new_invocation_outcome \<Rightarrow> (ledger_error, unit) rust_result" where
  "validate_invocation_reconciliation C X input =
     rbind (validate_invocation_outcome C X input) (\<lambda>_.
     rbind (decode_new_event C (no_terminal_state input)) (\<lambda>ev.
       case ev of
         InvocationReconciled _ _ _ \<Rightarrow> Ok ()
       | _ \<Rightarrow> invalid ''reconciliation outcome must use the explicit tool/reconciled event''))"

definition invocation_outcome_precondition ::
  "codec \<Rightarrow> new_invocation_outcome \<Rightarrow>
   (ledger_error, invocation_id \<times> invocation_state \<times> invocation_state) rust_result" where
  "invocation_outcome_precondition C input =
     rbind (decode_new_event C (no_terminal_state input)) (\<lambda>ev.
       case ev of
         InvocationStateChanged i frm to _ \<Rightarrow>
           if inv_is_terminal to then Ok (i, frm, to)
           else invalid ''cannot determine invocation outcome precondition''
       | InvocationReconciled i outcome _ \<Rightarrow> Ok (i, invocation_state.Unknown, outcome_state outcome)
       | _ \<Rightarrow> invalid ''cannot determine invocation outcome precondition'')"

section \<open>The transaction-local projection of one invocation\<close>

definition empty_field :: "(string \<times> string) list \<Rightarrow> string option" where
  "empty_field named = map_option fst (find (\<lambda>(_, value). is_blank value) named)"

definition validate_invocation_proposal_evidence ::
  "externals \<Rightarrow> invocation_id \<Rightarrow> string \<Rightarrow> string \<Rightarrow> string \<Rightarrow> string \<Rightarrow> effect_set \<Rightarrow> string \<Rightarrow> idempotency \<Rightarrow>
   (ledger_error, unit) rust_result" where
  "validate_invocation_proposal_evidence X i call tool version args effects digest idem =
     (case empty_field [(''call_id'', call), (''tool_id'', tool), (''tool_version'', version),
              (''normalized_arguments_digest'', args), (''effect_digest'', digest)] of
        Some field \<Rightarrow> invalid (''invocation proposal '' @ uuid_str X i @ '' has an empty '' @ field)
      | None \<Rightarrow>
          if es_idempotency effects \<noteq> idem
          then invalid ''invocation proposal idempotency disagrees with effects''
          else if digest_effects X effects \<noteq> digest
          then invalid (''invocation proposal effect_digest does not match effects for '' @ uuid_str X i)
          else Ok ())"

definition validate_invocation_proposal_scope ::
  "string \<Rightarrow> string option \<Rightarrow> string \<Rightarrow> (ledger_error, unit) rust_result" where
  "validate_invocation_proposal_scope thread turn agent =
     (if is_blank thread then invalid ''invocation proposal has an empty thread_id''
      else if (case turn of None \<Rightarrow> True | Some t \<Rightarrow> is_blank t)
      then invalid ''invocation proposal requires a non-empty turn_id''
      else if is_blank agent then invalid ''invocation proposal has an empty agent_id''
      else Ok ())"

type_synonym local_state = "invocation_state option \<times> idempotency option"

definition project_one :: "externals \<Rightarrow> string \<Rightarrow> local_state \<Rightarrow> event \<Rightarrow> (ledger_error, local_state) rust_result" where
  "project_one X target st ev =
     (case ev of
        InvocationProposed i call tool version args effects digest idem \<Rightarrow>
          if uuid_str X i \<noteq> target then Ok st
          else if fst st \<noteq> None then invalid ''invocation has more than one proposal''
          else rbind (validate_invocation_proposal_evidence X i call tool version args effects digest idem)
                 (\<lambda>_. Ok (Some Proposed, Some idem))
      | InvocationStateChanged i frm to _ \<Rightarrow>
          if uuid_str X i \<noteq> target then Ok st
          else rbind (ok_or (InvalidInvocationOutcome ''invocation state change has no proposal'') (fst st)) (\<lambda>current.
            if current \<noteq> frm \<or>
               \<not> can_transition_invocation_with_idempotency frm to
                   (case snd st of None \<Rightarrow> idempotency.Unknown | Some i \<Rightarrow> i)
            then invalid ''invocation state history is not a valid transition''
            else Ok (Some to, snd st))
      | InvocationReconciled i outcome evidence \<Rightarrow>
          if uuid_str X i \<noteq> target then Ok st
          else rbind (ok_or (InvalidInvocationOutcome ''invocation reconciliation has no proposal'') (fst st)) (\<lambda>current.
            if is_blank (re_source evidence) \<or> is_blank (re_summary evidence) \<or>
               \<not> can_reconcile_invocation current outcome
            then invalid ''invocation reconciliation is not valid from the projected state''
            else Ok (Some (outcome_state outcome), snd st))
      | _ \<Rightarrow> Ok st)"

definition invocation_kinds :: "string list" where
  "invocation_kinds = [''tool/proposed'', ''tool/state_changed'', ''tool/reconciled'']"

fun project_rows ::
  "codec \<Rightarrow> externals \<Rightarrow> string \<Rightarrow> local_state \<Rightarrow> ledger_event list \<Rightarrow> (ledger_error, local_state) rust_result" where
  "project_rows C X target st [] = Ok st"
| "project_rows C X target st (row # rows) =
     rbind (map_err (\<lambda>error. InvalidInvocationOutcome
              (''invocation history contains an incomplete protocol event: '' @ error))
            (cd_event C (le_kind row) (le_payload row))) (\<lambda>ev.
     rbind (project_one X target st ev) (\<lambda>st'. project_rows C X target st' rows))"

definition invocation_rows :: "codec \<Rightarrow> ledger \<Rightarrow> ledger_event list" where
  "invocation_rows C db = filter (\<lambda>e. le_kind e \<in> set invocation_kinds) (all_events (cd_stored C) db)"

definition invocation_state_in ::
  "codec \<Rightarrow> externals \<Rightarrow> ledger \<Rightarrow> string \<Rightarrow> (ledger_error, invocation_state option) rust_result" where
  "invocation_state_in C X db target =
     rbind (project_rows C X target (None, None) (invocation_rows C db)) (\<lambda>st. Ok (fst st))"

type_synonym invocation_scope = "string \<times> string option \<times> string \<times> string"

fun scope_in_rows ::
  "codec \<Rightarrow> externals \<Rightarrow> string \<Rightarrow> ledger_event list \<Rightarrow> (ledger_error, invocation_scope option) rust_result" where
  "scope_in_rows C X target [] = Ok None"
| "scope_in_rows C X target (row # rows) =
     rbind (map_err (\<lambda>error. InvalidInvocationOutcome (''invocation proposal is incomplete: '' @ error))
            (cd_event C ''tool/proposed'' (le_payload row))) (\<lambda>ev.
       case ev of
         InvocationProposed i call _ _ _ _ _ _ \<Rightarrow>
           if uuid_str X i = target
           then rbind (validate_invocation_proposal_scope (le_thread_id row) (le_turn_id row) (le_agent_id row))
                  (\<lambda>_. Ok (Some (le_thread_id row, le_turn_id row, le_agent_id row, call)))
           else scope_in_rows C X target rows
       | _ \<Rightarrow> scope_in_rows C X target rows)"

definition invocation_scope_in ::
  "codec \<Rightarrow> externals \<Rightarrow> ledger \<Rightarrow> string \<Rightarrow> (ledger_error, invocation_scope option) rust_result" where
  "invocation_scope_in C X db target =
     scope_in_rows C X target (filter (\<lambda>e. le_kind e = ''tool/proposed'') (all_events (cd_stored C) db))"

definition tool_result_call_id :: "codec \<Rightarrow> new_ledger_event \<Rightarrow> string option" where
  "tool_result_call_id C input =
     (case decode_new_event C input of
        Inr (ItemAdded i) \<Rightarrow>
          if it_kind i \<noteq> ToolResult then None
          else (case json_get (it_content i) ''content'' of
                  None \<Rightarrow> None
                | Some v \<Rightarrow>
                    (case cd_blocks C v of
                       Inr [ToolResultBlock call _ _] \<Rightarrow> Some call
                     | _ \<Rightarrow> None))
      | _ \<Rightarrow> None)"

section \<open>Checked appends\<close>

text \<open>The second half of the checked append: the scope and the call of the proposal.\<close>

definition append_in_proposal_scope ::
  "codec \<Rightarrow> externals \<Rightarrow> ledger \<Rightarrow> new_ledger_event list \<Rightarrow> string \<Rightarrow>
   (ledger_error, ledger \<times> ledger_event list) rust_result" where
  "append_in_proposal_scope C X db inputs target =
     rbind (invocation_scope_in C X db target) (\<lambda>scope.
       case scope of
         None \<Rightarrow> invalid ''invocation outcome requires a persisted proposal''
       | Some (proposal_thread, proposal_turn, proposal_agent, proposal_call_id) \<Rightarrow>
           if \<exists>input \<in> set inputs. nl_thread_id input \<noteq> proposal_thread \<or>
                nl_turn_id input \<noteq> proposal_turn \<or> nl_agent_id input \<noteq> proposal_agent
           then invalid ''invocation outcome scope does not match its proposal''
           else if \<exists>input \<in> set inputs.
                (case tool_result_call_id C input of None \<Rightarrow> False | Some call \<Rightarrow> call \<noteq> proposal_call_id)
           then invalid ''ToolResult call_id does not match its invocation proposal''
           else append_batch_transaction (cd_stored C) db inputs)"

definition append_invocation_events_checked ::
  "codec \<Rightarrow> externals \<Rightarrow> ledger \<Rightarrow> new_ledger_event list \<Rightarrow> invocation_id \<Rightarrow> invocation_state \<Rightarrow> invocation_state \<Rightarrow>
   (ledger_error, ledger \<times> ledger_event list) rust_result" where
  "append_invocation_events_checked C X db inputs invocation_id expected_state expected_final_state =
     (let fully_existing = (\<forall>input \<in> set inputs. get_event_by_id (cd_stored C) db (nl_event_id input) \<noteq> None);
          target = uuid_str X invocation_id in
      rbind (invocation_state_in C X db target) (\<lambda>found.
        if \<not> fully_existing \<and> found \<noteq> Some expected_state
        then Err (InvocationStateConflict target expected_state found)
        else if fully_existing \<and> found \<noteq> Some expected_final_state
        then Err (InvocationStateConflict target expected_final_state found)
        else if found = None then invalid ''invocation outcome requires a persisted proposal''
        else append_in_proposal_scope C X db inputs target))"

definition append_invocation_outcome ::
  "codec \<Rightarrow> externals \<Rightarrow> ledger \<Rightarrow> new_invocation_outcome \<Rightarrow> (ledger_error, ledger \<times> ledger_event list) rust_result" where
  "append_invocation_outcome C X db input =
     rbind (validate_invocation_outcome C X input) (\<lambda>_.
     rbind (invocation_outcome_precondition C input) (\<lambda>(i, expected, final).
       append_invocation_events_checked C X db [no_tool_result input, no_terminal_state input] i expected final))"

definition append_invocation_unknown ::
  "codec \<Rightarrow> externals \<Rightarrow> ledger \<Rightarrow> new_invocation_unknown \<Rightarrow> (ledger_error, ledger \<times> ledger_event) rust_result" where
  "append_invocation_unknown C X db input =
     rbind (validate_invocation_unknown C (nu_state input)) (\<lambda>i.
     rbind (append_invocation_events_checked C X db [nu_state input] i Started invocation_state.Unknown) (\<lambda>(db', events).
       if events = [] then Err (Panic ''a one-event invocation marker always returns one event'')
       else Ok (db', last events)))"

definition append_invocation_unknown_outcome ::
  "codec \<Rightarrow> externals \<Rightarrow> ledger \<Rightarrow> new_invocation_unknown_outcome \<Rightarrow>
   (ledger_error, ledger \<times> ledger_event list) rust_result" where
  "append_invocation_unknown_outcome C X db input =
     rbind (validate_invocation_unknown_outcome C X input) (\<lambda>i.
       append_invocation_events_checked C X db [nuo_unknown_state input, nuo_tool_result input] i
         Started invocation_state.Unknown)"

definition append_invocation_reconciliation ::
  "codec \<Rightarrow> externals \<Rightarrow> ledger \<Rightarrow> new_invocation_outcome \<Rightarrow> (ledger_error, ledger \<times> ledger_event list) rust_result" where
  "append_invocation_reconciliation C X db input =
     rbind (validate_invocation_reconciliation C X input) (\<lambda>_.
     rbind (invocation_outcome_precondition C input) (\<lambda>(i, expected, final).
       append_invocation_events_checked C X db [no_tool_result input, no_terminal_state input] i
         invocation_state.Unknown final))"

definition append_invocation_reconciliation_with_receipt ::
  "codec \<Rightarrow> externals \<Rightarrow> ledger \<Rightarrow> new_invocation_outcome \<Rightarrow> new_command_receipt \<Rightarrow>
   (ledger_error, ledger \<times> command_batch_append_result) rust_result" where
  "append_invocation_reconciliation_with_receipt C X db input receipt =
     rbind (validate_invocation_reconciliation C X input) (\<lambda>_.
     rbind (invocation_outcome_precondition C input) (\<lambda>(i, expected, final).
     rbind (committed_response (cd_stored C) db receipt) (\<lambda>committed.
       case committed of
         Some existing \<Rightarrow> Ok (db, \<lparr>cb_events = [], cb_response = cr_response existing, cb_replayed = True\<rparr>)
       | None \<Rightarrow>
           rbind (append_invocation_events_checked C X db [no_tool_result input, no_terminal_state input] i
              expected final) (\<lambda>(db1, events).
           rbind (insert_command_receipt db1 receipt) (\<lambda>(db2, stored_receipt).
           Ok (db2, \<lparr>cb_events = events, cb_response = cr_response stored_receipt, cb_replayed = False\<rparr>))))))"

section \<open>Hypotheses on the codec\<close>

text \<open>The \<open>kind\<close> tag of an event, from the \<open>serde\<close> attributes of \<open>yeux-protocol/src/event.rs\<close>.\<close>

fun event_kind :: "event \<Rightarrow> string" where
  "event_kind (WorkspaceOpened _) = ''workspace/opened''"
| "event_kind (WorkspaceTrustChanged _ _) = ''workspace/trust_changed''"
| "event_kind (ThreadStarted _) = ''thread/started''"
| "event_kind (ThreadForked _) = ''thread/forked''"
| "event_kind (ThreadArchived _) = ''thread/archived''"
| "event_kind (TurnStarted _) = ''turn/started''"
| "event_kind (TurnStateChanged _ _ _ _) = ''turn/state_changed''"
| "event_kind (TurnSteered _ _) = ''turn/steered''"
| "event_kind (ItemAdded _) = ''item/added''"
| "event_kind (ModelRequested _) = ''model/requested''"
| "event_kind (ModelStreamEvent _ _) = ''model/event''"
| "event_kind (InvocationProposed _ _ _ _ _ _ _ _) = ''tool/proposed''"
| "event_kind (InvocationStateChanged _ _ _ _) = ''tool/state_changed''"
| "event_kind (InvocationReconciled _ _ _) = ''tool/reconciled''"
| "event_kind (JobCreated _) = ''job/created''"
| "event_kind (JobStateChanged _ _ _) = ''job/state_changed''"
| "event_kind (AgentSpawned _) = ''agent/spawned''"
| "event_kind (AgentCompleted _) = ''agent/completed''"
| "event_kind (RuntimeDiagnostic _ _ _) = ''runtime/diagnostic''"

text \<open>
  JSON text reads back as the value that was written, and the decoder of a tagged enum
  selects the variant by its tag.
\<close>

definition codec_ok :: "codec \<Rightarrow> bool" where
  "codec_ok C \<longleftrightarrow>
     (\<forall>v. cd_stored C v = v) \<and> (\<forall>k p ev. cd_event C k p = Ok ev \<longrightarrow> event_kind ev = k)"

lemma codec_okD:
  assumes "codec_ok C"
  shows "cd_stored C = (\<lambda>v. v)" and "cd_event C k p = Ok ev \<Longrightarrow> event_kind ev = k"
  using assms by (auto simp: codec_ok_def)

section \<open>What a checked append establishes\<close>

definition project_row ::
  "codec \<Rightarrow> externals \<Rightarrow> string \<Rightarrow> local_state \<Rightarrow> ledger_event \<Rightarrow> (ledger_error, local_state) rust_result" where
  "project_row C X target st row =
     rbind (map_err (\<lambda>error. InvalidInvocationOutcome
              (''invocation history contains an incomplete protocol event: '' @ error))
            (cd_event C (le_kind row) (le_payload row))) (project_one X target st)"

lemma rbind_assoc: "rbind (rbind r f) g = rbind r (\<lambda>x. rbind (f x) g)"
  by (cases r) auto

interpretation local_projection: event_fold "project_row C X target" "project_rows C X target" for C X target
  by unfold_locales (simp_all add: project_row_def rbind_assoc)

lemma invocation_rows_wf:
  assumes "codec_ok C" and "ledger_wf db"
  shows "invocation_rows C db = filter (\<lambda>e. le_kind e \<in> set invocation_kinds) (history db)"
  using assms by (simp add: invocation_rows_def all_events_wf codec_okD(1))

lemma proposal_scope_Ok:
  assumes "append_in_proposal_scope C X db inputs target = Ok r"
  shows "append_batch_transaction (cd_stored C) db inputs = Ok r"
proof -
  from assms obtain a b c d where "invocation_scope_in C X db target = Ok (Some (a, b, c, d))"
    by (auto simp: append_in_proposal_scope_def rbind_eq_Inr split: option.splits)
  then show ?thesis using assms by (simp add: append_in_proposal_scope_def split: if_splits)
qed

lemma checked_Ok:
  assumes "append_invocation_events_checked C X db inputs i expected final = Ok (db', evs)"
  shows "append_batch (cd_stored C) db inputs = Ok (db', evs) \<and>
    (if nl_event_id ` set inputs \<subseteq> stored_ids db
     then invocation_state_in C X db (uuid_str X i) = Ok (Some final)
     else invocation_state_in C X db (uuid_str X i) = Ok (Some expected))"
proof -
  have full: "(\<forall>input \<in> set inputs. get_event_by_id (cd_stored C) db (nl_event_id input) \<noteq> None) \<longleftrightarrow>
      nl_event_id ` set inputs \<subseteq> stored_ids db"
    by (simp only: get_event_present image_subset_iff)
  obtain found where found: "invocation_state_in C X db (uuid_str X i) = Ok found"
    using assms unfolding append_invocation_events_checked_def Let_def rbind_eq_Inr by blast
  show ?thesis
    using assms proposal_scope_Ok [of C X db inputs] unfolding append_invocation_events_checked_def Let_def full found append_batch_def
    by (auto split: if_splits)
qed

text \<open>When every check passes, the checked append is the plain batch append.\<close>

lemma checked_eq_batch:
  assumes "invocation_state_in C X db (uuid_str X i) = Ok (Some expected)"
    and "invocation_scope_in C X db (uuid_str X i) = Ok (Some (t, u, a, c))"
    and "\<forall>n \<in> set inputs. nl_thread_id n = t \<and> nl_turn_id n = u \<and> nl_agent_id n = a \<and>
      (\<forall>d. tool_result_call_id C n = Some d \<longrightarrow> d = c)"
    and "\<not> nl_event_id ` set inputs \<subseteq> stored_ids db"
  shows "append_invocation_events_checked C X db inputs i expected final = append_batch (cd_stored C) db inputs"
proof -
  have "\<not> (\<forall>n \<in> set inputs. get_event_by_id (cd_stored C) db (nl_event_id n) \<noteq> None)"
    using assms(4) by (simp only: get_event_present image_subset_iff not_False_eq_True)
  moreover have "append_in_proposal_scope C X db inputs (uuid_str X i) = append_batch_transaction (cd_stored C) db inputs"
    using assms(3) by (auto simp: append_in_proposal_scope_def assms(2) split: option.splits)
  ultimately show ?thesis
    unfolding append_invocation_events_checked_def Let_def assms(1) append_batch_def by auto
qed

text \<open>
  If the new rows take the local projection from the expected to the final state, the final
  state is what the ledger projects after the append, whether it was new or a repetition.
\<close>

lemma checked_projects_final:
  assumes C: "codec_ok C" and wf: "ledger_wf db"
    and ok: "append_invocation_events_checked C X db inputs i expected final = Ok (db', evs)"
    and rows: "\<And>st. fst st = Some expected \<Longrightarrow>
      project_rows C X (uuid_str X i) st (filter (\<lambda>e. le_kind e \<in> set invocation_kinds) (assign db inputs)) =
        Ok (Some final, snd st)"
  shows "invocation_state_in C X db' (uuid_str X i) = Ok (Some final) \<and>
    (db' = db \<or> invocation_state_in C X db (uuid_str X i) = Ok (Some expected) \<and>
       db' = push_rows db (assign db inputs) \<and> evs = assign db inputs)"
proof -
  note r = checked_Ok [OF ok]
  note b = append_batch_Ok [OF wf conjunct1 [OF r]]
  show ?thesis
  proof (cases "nl_event_id ` set inputs \<subseteq> stored_ids db")
    case True
    then have "nl_event_id ` set inputs \<inter> stored_ids db \<noteq> {}" using b by (cases inputs) auto
    then have "db' = db" using b by blast
    then show ?thesis using r True by simp
  next
    case False
    then have before: "invocation_state_in C X db (uuid_str X i) = Ok (Some expected)" using r by simp
    have "\<not> list_all2 (\<lambda>j ev. get_event_by_id (cd_stored C) db (nl_event_id j) = Some ev \<and> new_event_matches j ev) inputs evs"
      using False get_event_present [of "cd_stored C" db] by (force simp: list_all2_conv_all_nth in_set_conv_nth)
    with b have new: "db' = push_rows db (assign db inputs)" "evs = assign db inputs" and wf': "ledger_wf db'" by auto
    from before obtain st where st: "project_rows C X (uuid_str X i) (None, None) (invocation_rows C db) = Ok st"
        "fst st = Some expected"
      by (auto simp: invocation_state_in_def rbind_eq_Inr)
    have "invocation_rows C db' = invocation_rows C db @ filter (\<lambda>e. le_kind e \<in> set invocation_kinds) (assign db inputs)"
      using wf' wf by (simp add: invocation_rows_wf [OF C] new(1))
    then have "invocation_state_in C X db' (uuid_str X i) = Ok (Some final)"
      using st rows [OF st(2)] by (simp add: invocation_state_in_def local_projection.run_append)
    with before new show ?thesis by blast
  qed
qed

lemma project_one_changed:
  assumes "fst st = Some frm" and "can_transition_invocation frm to"
  shows "project_one X (uuid_str X i) st (InvocationStateChanged i frm to reason) = Ok (Some to, snd st)"
proof -
  have "can_transition_invocation_with_idempotency frm to idem" for idem
    using assms(2) by (auto simp: can_transition_invocation_def can_transition_invocation_iff retryable_def)
  then show ?thesis using assms(1) by (simp add: project_one_def ok_or_def)
qed

lemma project_one_reconciled:
  assumes "fst st = Some invocation_state.Unknown" and "\<not> is_blank (re_source e)" and "\<not> is_blank (re_summary e)"
  shows "project_one X (uuid_str X i) st (InvocationReconciled i oc e) = Ok (Some (outcome_state oc), snd st)"
  using assms by (cases oc) (simp_all add: project_one_def ok_or_def can_reconcile_invocation_def)

text \<open>The content of a valid outcome pair.\<close>

lemma validate_outcome_Ok:
  assumes "validate_invocation_outcome C X input = Ok ()"
  obtains item ev i s where
    "same_scope (no_tool_result input) (no_terminal_state input)"
    "cd_event C (nl_kind (no_tool_result input)) (nl_payload (no_tool_result input)) = Ok (ItemAdded item)"
    "cd_event C (nl_kind (no_terminal_state input)) (nl_payload (no_terminal_state input)) = Ok ev"
    "terminal_of ev = Ok (i, s)"
proof -
  from assms obtain rev ev i s item where
    "same_scope (no_tool_result input) (no_terminal_state input)"
    "decode_new_event C (no_tool_result input) = Ok rev" "decode_new_event C (no_terminal_state input) = Ok ev"
    "terminal_of ev = Ok (i, s)" "result_item rev ''tool_result must be an item/added ToolResult'' = Ok item"
    by (auto simp: validate_invocation_outcome_def Let_def rbind_eq_Inr split: if_splits)
  with that show ?thesis
    by (auto simp: decode_new_event_def result_item_def split: event.splits if_splits)
qed

text \<open>The two kinds of terminal event, with the state before and after.\<close>

lemma terminal_cases:
  assumes "terminal_of ev = Ok (i, s)"
  obtains (changed) frm reason where "ev = InvocationStateChanged i frm s reason" "inv_is_terminal s"
      "can_transition_invocation frm s"
    | (reconciled) oc e where "ev = InvocationReconciled i oc e" "s = outcome_state oc"
      "\<not> is_blank (re_source e)" "\<not> is_blank (re_summary e)"
  using assms by (cases ev) (auto simp: terminal_of_def split: if_splits)

lemma outcome_terminal: "inv_is_terminal (outcome_state oc)"
  by (cases oc) (simp_all add: inv_is_terminal_def)

lemma kinds_filter:
  "event_kind (ItemAdded item) \<notin> set invocation_kinds"
  "event_kind (InvocationStateChanged i frm to r) \<in> set invocation_kinds"
  "event_kind (InvocationReconciled i oc e) \<in> set invocation_kinds"
  by (simp_all add: invocation_kinds_def)

lemma sequenced_kind [simp]: "le_kind (sequenced input n) = nl_kind input"
  by (simp add: sequenced_def)

text \<open>What the rows of a valid outcome pair project to.\<close>

lemma outcome_rows:
  assumes C: "codec_ok C" and ok: "validate_invocation_outcome C X input = Ok ()"
    and pre: "invocation_outcome_precondition C input = Ok (i, expected, final)"
  shows "inv_is_terminal final \<and> \<not> inv_is_terminal expected \<and>
    (fst st = Some expected \<longrightarrow>
      project_rows C X (uuid_str X i) st (filter (\<lambda>e. le_kind e \<in> set invocation_kinds)
        (assign db [no_tool_result input, no_terminal_state input])) = Ok (Some final, snd st))"
proof -
  from ok obtain item ev j s where
    r: "cd_event C (nl_kind (no_tool_result input)) (nl_payload (no_tool_result input)) = Ok (ItemAdded item)" and
    t: "cd_event C (nl_kind (no_terminal_state input)) (nl_payload (no_terminal_state input)) = Ok ev"
      "terminal_of ev = Ok (j, s)"
    by (rule validate_outcome_Ok)
  have kind_r: "nl_kind (no_tool_result input) \<notin> set invocation_kinds"
    using codec_okD(2) [OF C r] kinds_filter(1) by metis
  have kind_t: "nl_kind (no_terminal_state input) = event_kind ev"
    using codec_okD(2) [OF C t(1)] by simp
  from t(2) show ?thesis
  proof (cases rule: terminal_cases)
    case (changed frm reason)
    then have eq: "i = j" "expected = frm" "final = s"
      using pre t(1) by (auto simp: invocation_outcome_precondition_def decode_new_event_def rbind_eq_Inr)
    have "\<not> inv_is_terminal frm"
      using changed(3) by (simp add: can_transition_invocation_def can_transition_invocation_with_idempotency_def split: if_splits)
    then show ?thesis
      using kind_r kind_t kinds_filter(2) t(1) changed
      by (simp add: Let_def project_one_changed eq)
  next
    case (reconciled oc e)
    then have eq: "i = j" "expected = invocation_state.Unknown" "final = s"
      using pre t(1) by (auto simp: invocation_outcome_precondition_def decode_new_event_def rbind_eq_Inr)
    show ?thesis
      using kind_r kind_t kinds_filter(3) t(1) reconciled
      by (simp add: Let_def project_one_reconciled eq outcome_terminal inv_is_terminal_def [of invocation_state.Unknown])
  qed
qed

lemma unknown_marker_Ok:
  "unknown_marker ev m = Ok i \<longleftrightarrow>
     (\<exists>r. ev = InvocationStateChanged i Started invocation_state.Unknown (Some r) \<and> \<not> is_blank r)"
  by (cases ev) (auto simp: unknown_marker_def split: option.splits if_splits)

lemma started_unknown: "can_transition_invocation Started invocation_state.Unknown"
  by (simp add: can_transition_invocation_def can_transition_invocation_iff invocation_edges_def)

lemma unknown_rows:
  assumes C: "codec_ok C" and ok: "validate_invocation_unknown C input = Ok i" and st: "fst st = Some Started"
  shows "project_rows C X (uuid_str X i) st (filter (\<lambda>e. le_kind e \<in> set invocation_kinds) (assign db [input])) =
    Ok (Some invocation_state.Unknown, snd st)"
proof -
  from ok obtain r where t: "cd_event C (nl_kind input) (nl_payload input) =
      Ok (InvocationStateChanged i Started invocation_state.Unknown r)"
    by (auto simp: validate_invocation_unknown_def rbind_eq_Inr decode_new_event_def unknown_marker_Ok split: if_splits)
  have "nl_kind input \<in> set invocation_kinds"
    using codec_okD(2) [OF C t] by (simp add: invocation_kinds_def)
  then show ?thesis
    using t st project_one_changed [OF st started_unknown] by (simp add: Let_def)
qed

section \<open>Every operation of the ledger\<close>

inductive ledger_step :: "codec \<Rightarrow> externals \<Rightarrow> ledger \<Rightarrow> ledger \<Rightarrow> bool" for C X where
  append: "append_event (cd_stored C) db input = Ok (db', ev) \<Longrightarrow> ledger_step C X db db'"
| batch: "append_batch (cd_stored C) db inputs = Ok (db', evs) \<Longrightarrow> ledger_step C X db db'"
| with_receipt: "append_with_receipt (cd_stored C) db input r = Ok (db', res) \<Longrightarrow> ledger_step C X db db'"
| batch_with_receipt:
    "append_batch_with_receipt (cd_stored C) db inputs r = Ok (db', bres) \<Longrightarrow> ledger_step C X db db'"
| receipt: "record_command_receipt (cd_stored C) db r = Ok (db', c) \<Longrightarrow> ledger_step C X db db'"
| imported: "import_with_duplicate_policy (cd_stored C) db ev dup = Ok db' \<Longrightarrow> ledger_step C X db db'"
| outcome: "append_invocation_outcome C X db oin = Ok (db', evs) \<Longrightarrow> ledger_step C X db db'"
| unknown: "append_invocation_unknown C X db uin = Ok (db', ev) \<Longrightarrow> ledger_step C X db db'"
| unknown_outcome: "append_invocation_unknown_outcome C X db uoin = Ok (db', evs) \<Longrightarrow> ledger_step C X db db'"
| reconciliation: "append_invocation_reconciliation C X db oin = Ok (db', evs) \<Longrightarrow> ledger_step C X db db'"
| reconciliation_with_receipt:
    "append_invocation_reconciliation_with_receipt C X db oin r = Ok (db', bres) \<Longrightarrow> ledger_step C X db db'"

definition extends :: "ledger \<Rightarrow> ledger \<Rightarrow> bool" where
  "extends db db' \<longleftrightarrow>
     (\<exists>new. history db' = history db @ new) \<and> (\<exists>new. lg_receipts db' = lg_receipts db @ new)"

lemma extends_refl [simp]: "extends db db"
  by (simp add: extends_def)

lemma extends_trans: "extends a b \<Longrightarrow> extends b c \<Longrightarrow> extends a c"
  by (auto simp: extends_def)

lemma extends_push [simp]:
  "extends db (push_rows db evs)" "extends db (push_row db ev)" "extends db (add_receipt db r)"
  "extends db (add_receipt (push_rows db evs) r)" "extends db (add_receipt (push_row db ev) r)"
  by (simp_all add: extends_def) (simp_all add: add_receipt_def)

lemma batch_step: "ledger_wf db \<Longrightarrow> append_batch stored db inputs = Ok (db', evs) \<Longrightarrow> ledger_wf db' \<and> extends db db'"
  using append_batch_Ok by fastforce

lemma checked_step:
  "ledger_wf db \<Longrightarrow> append_invocation_events_checked C X db inputs i a b = Ok (db', evs) \<Longrightarrow> ledger_wf db' \<and> extends db db'"
  using checked_Ok batch_step by blast

lemma receipt_step:
  assumes "ledger_wf db" and "committed_response stored db r = Ok None"
    and "ledger_wf db1 \<and> extends db db1" and "lg_receipts db1 = lg_receipts db"
    and "insert_command_receipt db1 r = Ok (db', c)"
  shows "ledger_wf db' \<and> extends db db'"
proof -
  have "nr_command_id r \<notin> receipt_ids db1"
    using assms(2,4) by (simp add: committed_response_None receipt_ids_def)
  then have "db' = add_receipt db1 r \<and> ledger_wf db'"
    using insert_receipt_wf assms(3,5) by fastforce
  then show ?thesis using assms(3) extends_trans extends_push(3) by blast
qed

lemma checked_receipts:
  assumes "ledger_wf db" and "append_invocation_events_checked C X db inputs i a b = Ok (db', evs)"
  shows "lg_receipts db' = lg_receipts db"
  using append_batch_Ok [OF assms(1) conjunct1 [OF checked_Ok [OF assms(2)]]] by auto

lemma ledger_step_keeps: "ledger_step C X db db' \<Longrightarrow> ledger_wf db \<Longrightarrow> ledger_wf db' \<and> extends db db'"
proof (induction rule: ledger_step.induct)
  case (append db input db' ev)
  then show ?case using append_event_Ok by fastforce
next
  case (batch db inputs db' evs)
  then show ?case using batch_step by blast
next
  case (with_receipt db input r db' res)
  then show ?case using append_with_receipt_Ok [of db "cd_stored C" input r db' res] by auto
next
  case (batch_with_receipt db inputs r db' bres)
  then show ?case using append_batch_with_receipt_Ok [of db "cd_stored C" inputs r db' bres] by auto
next
  case (receipt db r db' c)
  then show ?case using record_command_receipt_Ok [of db "cd_stored C" r db' c] by auto
next
  case (imported db ev dup db')
  then show ?case using import_Ok [of db "cd_stored C" ev dup db'] by auto
next
  case (outcome db oin db' evs)
  then show ?case using checked_step by (fastforce simp: append_invocation_outcome_def rbind_eq_Inr)
next
  case (unknown db uin db' ev)
  then show ?case using checked_step by (fastforce simp: append_invocation_unknown_def rbind_eq_Inr split: if_splits)
next
  case (unknown_outcome db uoin db' evs)
  then show ?case using checked_step by (fastforce simp: append_invocation_unknown_outcome_def rbind_eq_Inr)
next
  case (reconciliation db oin db' evs)
  then show ?case using checked_step by (fastforce simp: append_invocation_reconciliation_def rbind_eq_Inr)
next
  case (reconciliation_with_receipt db oin r db' bres)
  then obtain i a b co where co: "committed_response (cd_stored C) db r = Ok co"
    and tail: "(case co of
         Some existing \<Rightarrow> Ok (db, \<lparr>cb_events = [], cb_response = cr_response existing, cb_replayed = True\<rparr>)
       | None \<Rightarrow>
           rbind (append_invocation_events_checked C X db [no_tool_result oin, no_terminal_state oin] i a b) (\<lambda>(db1, events).
           rbind (insert_command_receipt db1 r) (\<lambda>(db2, stored_receipt).
           Ok (db2, \<lparr>cb_events = events, cb_response = cr_response stored_receipt, cb_replayed = False\<rparr>)))) = Ok (db', bres)"
    by (auto simp: append_invocation_reconciliation_with_receipt_def rbind_eq_Inr)
  show ?case
  proof (cases co)
    case None
    then obtain db1 evs c where "append_invocation_events_checked C X db [no_tool_result oin, no_terminal_state oin] i a b = Ok (db1, evs)"
        "insert_command_receipt db1 r = Ok (db', c)"
      using tail by (auto simp: rbind_eq_Inr)
    then show ?thesis
      using receipt_step [of db "cd_stored C" r db1 db' c] co None checked_step checked_receipts
        reconciliation_with_receipt.prems by blast
  qed (use tail reconciliation_with_receipt.prems in simp)
qed

text \<open>
  The contract of an append-only store: every step keeps it well formed and only adds to it.
  Then so does every sequence of steps.
\<close>

locale journal =
  fixes step :: "'d \<Rightarrow> 'd \<Rightarrow> bool"
    and wf :: "'d \<Rightarrow> bool"
    and grows :: "'d \<Rightarrow> 'd \<Rightarrow> bool"
  assumes step_wf: "wf d \<Longrightarrow> step d d' \<Longrightarrow> wf d'"
    and step_grows: "wf d \<Longrightarrow> step d d' \<Longrightarrow> grows d d'"
    and grows_refl: "grows d d"
    and grows_trans: "grows a b \<Longrightarrow> grows b c \<Longrightarrow> grows a c"
begin

lemma steps_keep: "step\<^sup>*\<^sup>* d d' \<Longrightarrow> wf d \<Longrightarrow> wf d' \<and> grows d d'"
proof (induction rule: rtranclp_induct)
  case base
  then show ?case using grows_refl by simp
next
  case (step a b)
  then show ?case using step_wf step_grows grows_trans by blast
qed

end

interpretation ledgers: journal "ledger_step C X" ledger_wf extends for C X
  using ledger_step_keeps extends_trans by unfold_locales (blast, blast, simp, blast)

section \<open>A concrete ledger\<close>

definition sample_events :: "event list" where
  "sample_events =
     [InvocationProposed 7 ''call'' ''fs.write'' ''1'' ''args'' default_effects
        (digest_effects plain_externals default_effects) Idempotent,
      InvocationStateChanged 7 Proposed Approved None,
      InvocationStateChanged 7 Approved Prepared None,
      InvocationStateChanged 7 Prepared Started None,
      ItemAdded \<lparr>it_id = 6, it_thread_id = 2, it_turn_id = 1, it_agent_id = ''root'', it_kind = ToolResult,
        it_content = JObject [(''content'', JNull), (''invocation_id'', JNull)], it_created_at = 4\<rparr>,
      InvocationStateChanged 7 Started invocation_state.Completed None,
      InvocationStateChanged 7 Started invocation_state.Unknown (Some ''lost'')]"

text \<open>A codec for these events: the payload is the event's position in the list.\<close>

definition sample_codec :: codec where
  "sample_codec =
     \<lparr>cd_stored = (\<lambda>v. v),
      cd_event = (\<lambda>k p. case p of
          JNumber (PosInt n) \<Rightarrow>
            if n < length sample_events \<and> event_kind (sample_events ! n) = k then Ok (sample_events ! n)
            else Err ''mismatch''
        | _ \<Rightarrow> Err ''mismatch''),
      cd_uuid = (\<lambda>_. Ok 7),
      cd_blocks = (\<lambda>_. Ok [ToolResultBlock ''call'' JNull False]),
      cd_event_value = (\<lambda>_. JNull),
      cd_parse_uuid = (\<lambda>s. Ok (of_nat (length s)))\<rparr>"

lemma sample_codec_ok: "codec_ok sample_codec"
  by (auto simp: codec_ok_def sample_codec_def split: json.splits jnumber.splits if_splits)

lemma sample_codec_sel [simp]:
  "cd_stored sample_codec = (\<lambda>v. v)"
  "cd_event sample_codec k (JNumber (PosInt n)) =
     (if n < length sample_events \<and> event_kind (sample_events ! n) = k then Ok (sample_events ! n) else Err ''mismatch'')"
  "cd_uuid sample_codec v = Ok 7"
  "cd_blocks sample_codec v = Ok [ToolResultBlock ''call'' JNull False]"
  by (simp_all add: sample_codec_def)

lemma plain_uuid: "uuid_str plain_externals 2 = ''uu''" "uuid_str plain_externals 1 = ''u''"
proof -
  have "replicate 2 CHR ''u'' = ''uu''" by (simp add: numeral_2_eq_2)
  then show "uuid_str plain_externals 2 = ''uu''" "uuid_str plain_externals 1 = ''u''"
    by (simp_all add: plain_externals_def)
qed

lemma digest_not_blank: "\<not> is_blank (digest_effects plain_externals e)"
proof -
  have "\<not> is_blank (CHR ''{'' # s)" for s
    by (cases s; cases "tl s") (auto simp: is_space1_def is_space2_def is_space3_def byte_def)
  then show ?thesis by (simp add: digest_effects_def digest_value_def effect_set_value_def)
qed

definition sample_row :: "string \<Rightarrow> nat \<Rightarrow> new_ledger_event" where
  "sample_row i n =
     \<lparr>nl_schema_version = PROTOCOL_VERSION, nl_event_id = i, nl_thread_id = ''uu'', nl_turn_id = Some ''u'',
      nl_agent_id = ''root'', nl_time = 0, nl_causation_id = None, nl_kind = event_kind (sample_events ! n),
      nl_payload = JNumber (PosInt n)\<rparr>"

definition started_rows :: "new_ledger_event list" where
  "started_rows = [sample_row ''a'' 0, sample_row ''b'' 1, sample_row ''c'' 2, sample_row ''d'' 3]"

definition started_ledger :: ledger where
  "started_ledger = push_rows initialize_schema (assign initialize_schema started_rows)"

definition sample_outcome :: "string \<Rightarrow> new_invocation_outcome" where
  "sample_outcome i = \<lparr>no_tool_result = sample_row (i @ ''r'') 4, no_terminal_state = sample_row (i @ ''t'') 5\<rparr>"

lemma started_ledger_step:
  "append_batch (cd_stored C) initialize_schema started_rows = Ok (started_ledger, assign initialize_schema started_rows)"
  and started_ledger_wf: "ledger_wf started_ledger"
proof -
  have ids: "distinct (map nl_event_id started_rows)" "nl_event_id ` set started_rows \<inter> stored_ids initialize_schema = {}"
    by (simp_all add: started_rows_def sample_row_def stored_ids_def)
  moreover have "\<not> i64_max < length (lg_events initialize_schema) + length started_rows"
    by (simp add: i64_max_def started_rows_def)
  moreover have "started_rows \<noteq> []" "\<not> nl_event_id ` set started_rows \<subseteq> stored_ids initialize_schema"
    by (simp_all add: started_rows_def stored_ids_def)
  ultimately show "append_batch (cd_stored C) initialize_schema started_rows = Ok (started_ledger, assign initialize_schema started_rows)"
    and "ledger_wf started_ledger"
    using insert_batch_wf [OF ledger_wf_empty ids] batch_cases [of started_rows "cd_stored C" initialize_schema]
    unfolding started_ledger_def by auto
qed

lemmas sample_simps =
  sample_row_def sample_events_def started_rows_def sample_outcome_def same_scope_def accepts_def PROTOCOL_VERSION_def decode_new_event_def
  terminal_of_def result_item_def item_outside_scope_def item_invocation_id_def item_blocks_def
  single_result_def json_get_def is_space1_def is_space2_def is_space3_def byte_def

lemma sample_outcome_valid: "validate_invocation_outcome sample_codec plain_externals (sample_outcome i) = Ok ()"
  by (simp add: validate_invocation_outcome_def Let_def sample_simps plain_uuid ok_or_def inv_is_terminal_def
      can_transition_invocation_def can_transition_invocation_iff invocation_edges_def)

lemma default_effects_idem: "es_idempotency default_effects = Idempotent"
  by (simp add: default_effects_def)

lemma started_state: "invocation_state_in sample_codec plain_externals started_ledger (uuid_str plain_externals 7) = Ok (Some Started)"
proof -
  have "history started_ledger = assign initialize_schema started_rows" by (simp add: started_ledger_def)
  then show ?thesis
    by (simp add: invocation_state_in_def invocation_rows_wf [OF sample_codec_ok started_ledger_wf] Let_def
        invocation_kinds_def project_one_def validate_invocation_proposal_evidence_def empty_field_def ok_or_def
        can_transition_invocation_iff invocation_edges_def digest_not_blank sequenced_def sample_simps
        default_effects_idem)
qed

lemma started_scope:
  "invocation_scope_in sample_codec plain_externals started_ledger (uuid_str plain_externals 7) =
     Ok (Some (''uu'', Some ''u'', ''root'', ''call''))"
proof -
  have "history started_ledger = assign initialize_schema started_rows" by (simp add: started_ledger_def)
  then show ?thesis
    by (simp add: invocation_scope_in_def all_events_wf [OF started_ledger_wf] codec_okD(1) [OF sample_codec_ok] Let_def
        validate_invocation_proposal_scope_def sequenced_def sample_simps)
qed

lemma sample_precondition:
  "invocation_outcome_precondition sample_codec (sample_outcome i) = Ok (7, Started, invocation_state.Completed)"
  by (simp add: invocation_outcome_precondition_def sample_simps inv_is_terminal_def)

lemma started_ids: "stored_ids started_ledger = {''a'', ''b'', ''c'', ''d''}"
proof -
  have "map le_event_id (history started_ledger) = [''a'', ''b'', ''c'', ''d'']"
    unfolding started_ledger_def push_rows_sel initialize_schema_sel append_Nil assign_ids
    by (simp add: started_rows_def sample_row_def)
  then have "set (map le_event_id (history started_ledger)) = {''a'', ''b'', ''c'', ''d''}" by simp
  then show ?thesis by (simp add: stored_ids_def)
qed

lemma started_append:
  assumes "inputs \<noteq> []" and "length inputs \<le> 2" and "distinct (map nl_event_id inputs)"
    and "nl_event_id ` set inputs \<inter> stored_ids started_ledger = {}"
  shows "append_batch (cd_stored sample_codec) started_ledger inputs =
      Ok (push_rows started_ledger (assign started_ledger inputs), assign started_ledger inputs) \<and>
    ledger_wf (push_rows started_ledger (assign started_ledger inputs))"
proof -
  have "length (lg_events started_ledger) = 4"
    unfolding started_ledger_def push_rows_sel length_assign by (simp add: started_rows_def)
  moreover have "\<not> nl_event_id ` set inputs \<subseteq> stored_ids started_ledger"
    using assms(1,4) by (cases inputs) auto
  ultimately show ?thesis
    using insert_batch_wf [OF started_ledger_wf assms(3,4)] batch_cases [OF assms(1,3)] assms(2,4)
    by (auto simp: i64_max_def)
qed

lemma started_checked:
  assumes "\<forall>n \<in> set inputs. nl_thread_id n = ''uu'' \<and> nl_turn_id n = Some ''u'' \<and> nl_agent_id n = ''root'' \<and>
      (\<forall>d. tool_result_call_id sample_codec n = Some d \<longrightarrow> d = ''call'')"
    and "inputs \<noteq> []" and "length inputs \<le> 2" and "distinct (map nl_event_id inputs)"
    and "nl_event_id ` set inputs \<inter> stored_ids started_ledger = {}"
  shows "append_invocation_events_checked sample_codec plain_externals started_ledger inputs 7 Started final =
    Ok (push_rows started_ledger (assign started_ledger inputs), assign started_ledger inputs)"
proof -
  have "\<not> nl_event_id ` set inputs \<subseteq> stored_ids started_ledger"
    using assms(2,5) by (cases inputs) auto
  from checked_eq_batch [OF started_state started_scope assms(1) this] started_append [OF assms(2-5)]
  show ?thesis by simp
qed

lemma sample_outcome_appended:
  "\<exists>db evs. append_invocation_outcome sample_codec plain_externals started_ledger (sample_outcome ''e'') = Ok (db, evs) \<and>
     stored_ids db = {''a'', ''b'', ''c'', ''d'', ''er'', ''et''} \<and> db \<noteq> started_ledger"
proof -
  let ?in = "[no_tool_result (sample_outcome ''e''), no_terminal_state (sample_outcome ''e'')]"
  let ?db = "push_rows started_ledger (assign started_ledger ?in)"
  have ids: "map nl_event_id ?in = [''er'', ''et'']" by (simp add: sample_simps)
  then have new: "distinct (map nl_event_id ?in)" "nl_event_id ` set ?in \<inter> stored_ids started_ledger = {}"
    by (simp_all add: started_ids)
  have "append_invocation_events_checked sample_codec plain_externals started_ledger ?in 7 Started invocation_state.Completed =
      Ok (?db, assign started_ledger ?in)"
    using new by (intro started_checked) (simp_all add: tool_result_call_id_def sample_simps)
  then have "append_invocation_outcome sample_codec plain_externals started_ledger (sample_outcome ''e'') =
      Ok (?db, assign started_ledger ?in)"
    by (simp add: append_invocation_outcome_def sample_outcome_valid sample_precondition)
  moreover have new_ids: "set (map le_event_id (assign started_ledger ?in)) = {''er'', ''et''}"
    unfolding assign_ids ids by simp
  moreover have st: "stored_ids ?db = {''a'', ''b'', ''c'', ''d'', ''er'', ''et''}"
    unfolding push_rows_sel started_ids set_map [symmetric] new_ids by auto
  moreover have "?db \<noteq> started_ledger"
  proof
    assume "?db = started_ledger"
    then have "stored_ids ?db = stored_ids started_ledger" by (rule arg_cong)
    moreover have "''er'' \<in> stored_ids ?db" unfolding st by simp
    moreover have "''er'' \<notin> stored_ids started_ledger" unfolding started_ids by simp
    ultimately show False by (simp only:)
  qed
  ultimately show ?thesis by blast
qed

section \<open>Properties\<close>

text \<open>
  C13: A committed outcome is final and complete. When \<open>append_invocation_outcome\<close> succeeds,
  the ledger projects the invocation in the terminal state that the outcome announces; if the
  call appended anything, the ledger projected the announced earlier state before, and the
  appended rows are the tool result followed immediately by the terminal state, so no prefix
  of the thread shows a terminal state without its result.
\<close>

theorem outcome_commits_result_before_terminal_state:
  assumes C: "codec_ok C" and wf: "ledger_wf db"
    and ok: "append_invocation_outcome C X db input = Ok (db', evs)"
  shows "\<exists>i expected final. invocation_outcome_precondition C input = Ok (i, expected, final) \<and>
    inv_is_terminal final \<and> invocation_state_in C X db' (uuid_str X i) = Ok (Some final) \<and>
    (db' = db \<or>
     invocation_state_in C X db (uuid_str X i) = Ok (Some expected) \<and>
     (\<exists>result terminal. history db' = history db @ [result, terminal] \<and> evs = [result, terminal] \<and>
        new_event_matches (no_tool_result input) result \<and> new_event_matches (no_terminal_state input) terminal \<and>
        le_thread_id result = le_thread_id terminal \<and> le_seq terminal = Suc (le_seq result)))"
proof -
  let ?in = "[no_tool_result input, no_terminal_state input]"
  obtain i expected final where v: "validate_invocation_outcome C X input = Ok ()"
    and pre: "invocation_outcome_precondition C input = Ok (i, expected, final)"
    and ch: "append_invocation_events_checked C X db ?in i expected final = Ok (db', evs)"
    using ok by (auto simp: append_invocation_outcome_def rbind_eq_Inr)
  have scope: "nl_thread_id (no_tool_result input) = nl_thread_id (no_terminal_state input)"
    using v by (rule validate_outcome_Ok) (simp add: same_scope_def)
  have terminal: "inv_is_terminal final" using outcome_rows [OF C v pre] by blast
  have fin: "invocation_state_in C X db' (uuid_str X i) = Ok (Some final)"
    and new: "db' = db \<or> invocation_state_in C X db (uuid_str X i) = Ok (Some expected) \<and>
      db' = push_rows db (assign db ?in) \<and> evs = assign db ?in"
    using checked_projects_final [OF C wf ch] outcome_rows [OF C v pre] by blast+
  have "\<exists>result terminal. assign db ?in = [result, terminal] \<and>
      new_event_matches (no_tool_result input) result \<and> new_event_matches (no_terminal_state input) terminal \<and>
      le_thread_id result = le_thread_id terminal \<and> le_seq terminal = Suc (le_seq result)"
    using scope by (simp add: Let_def new_event_matches_def sequenced_def next_seq_def of_thread_def)
  with pre terminal fin new show ?thesis by (metis push_rows_sel(1))
qed

theorem outcome_commits_result_before_terminal_state_witness:
  "\<exists>db evs. append_invocation_outcome sample_codec plain_externals started_ledger (sample_outcome ''e'') = Ok (db, evs) \<and>
     invocation_state_in sample_codec plain_externals db (uuid_str plain_externals 7) = Ok (Some invocation_state.Completed)"
proof -
  obtain db evs where ok: "append_invocation_outcome sample_codec plain_externals started_ledger (sample_outcome ''e'') = Ok (db, evs)"
    using sample_outcome_appended by blast
  from outcome_commits_result_before_terminal_state [OF sample_codec_ok started_ledger_wf ok] ok show ?thesis
    by (auto simp: sample_precondition)
qed

text \<open>
  An invocation has one outcome. After an outcome has been committed, a second outcome for
  the same invocation, valid in itself but with an event that is not stored, is refused with
  the state conflict that names the committed state: of two workers that race to finish an
  invocation exactly one succeeds.
\<close>

lemma second_outcome_is_refused:
  assumes C: "codec_ok C" and wf: "ledger_wf db"
    and ok: "append_invocation_outcome C X db input = Ok (db', evs)"
    and pre: "invocation_outcome_precondition C input = Ok (i, expected, final)"
    and v2: "validate_invocation_outcome C X other = Ok ()"
    and pre2: "invocation_outcome_precondition C other = Ok (i, expected2, final2)"
    and fresh: "nl_event_id (no_tool_result other) \<notin> stored_ids db' \<or> nl_event_id (no_terminal_state other) \<notin> stored_ids db'"
  shows "append_invocation_outcome C X db' other =
    Err (InvocationStateConflict (uuid_str X i) expected2 (Some final))"
proof -
  from ok have v: "validate_invocation_outcome C X input = Ok ()"
    and ch: "append_invocation_events_checked C X db [no_tool_result input, no_terminal_state input] i expected final = Ok (db', evs)"
    using pre by (auto simp: append_invocation_outcome_def rbind_eq_Inr)
  have state: "invocation_state_in C X db' (uuid_str X i) = Ok (Some final)"
    using checked_projects_final [OF C wf ch] outcome_rows [OF C v pre] by blast
  have "expected2 \<noteq> final" using outcome_rows [OF C v pre] outcome_rows [OF C v2 pre2] by blast
  moreover have "\<not> (\<forall>n \<in> set [no_tool_result other, no_terminal_state other].
      get_event_by_id (cd_stored C) db' (nl_event_id n) \<noteq> None)"
    using fresh by (auto simp: get_event_None)
  ultimately show ?thesis
    using v2 pre2 state by (simp add: append_invocation_outcome_def append_invocation_events_checked_def Let_def)
qed

lemma second_outcome_is_refused_witness:
  "\<exists>db evs. append_invocation_outcome sample_codec plain_externals started_ledger (sample_outcome ''e'') = Ok (db, evs) \<and>
     append_invocation_outcome sample_codec plain_externals db (sample_outcome ''f'') =
       Err (InvocationStateConflict (uuid_str plain_externals 7) Started (Some invocation_state.Completed))"
proof -
  obtain db evs where ok: "append_invocation_outcome sample_codec plain_externals started_ledger (sample_outcome ''e'') = Ok (db, evs)"
    and ids: "stored_ids db = {''a'', ''b'', ''c'', ''d'', ''er'', ''et''}"
    using sample_outcome_appended by blast
  have "nl_event_id (no_tool_result (sample_outcome ''f'')) \<notin> stored_ids db"
    by (simp add: ids sample_outcome_def sample_row_def)
  with second_outcome_is_refused [OF sample_codec_ok started_ledger_wf ok sample_precondition
      sample_outcome_valid sample_precondition [of "''f''"]] ok
  show ?thesis by blast
qed

text \<open>
  C32: The ledger only grows. Starting from a fresh database, every sequence of successful
  operations (single and batch appends, appends with a receipt, receipts, imports and all
  typed invocation appends) keeps the ledger well formed, and what was stored at any moment
  is a prefix of what is stored later, for events and for receipts.
\<close>

theorem ledger_only_grows:
  assumes "(ledger_step C X)\<^sup>*\<^sup>* initialize_schema db" and "(ledger_step C X)\<^sup>*\<^sup>* db db'"
  shows "ledger_wf db \<and> ledger_wf db' \<and>
    (\<exists>new. history db' = history db @ new) \<and> (\<exists>new. lg_receipts db' = lg_receipts db @ new)"
  using ledgers.steps_keep [OF assms(1) ledger_wf_empty] ledgers.steps_keep [OF assms(2)]
  unfolding extends_def by blast

theorem ledger_only_grows_witness:
  "\<exists>db. (ledger_step sample_codec plain_externals)\<^sup>*\<^sup>* initialize_schema started_ledger \<and>
     (ledger_step sample_codec plain_externals)\<^sup>*\<^sup>* started_ledger db \<and> db \<noteq> started_ledger \<and>
     (\<exists>new. history db = history started_ledger @ new)"
proof -
  have start: "(ledger_step sample_codec plain_externals)\<^sup>*\<^sup>* initialize_schema started_ledger"
    using ledger_step.batch [OF started_ledger_step [of sample_codec]] by blast
  obtain db evs where "append_invocation_outcome sample_codec plain_externals started_ledger (sample_outcome ''e'') = Ok (db, evs)"
    "db \<noteq> started_ledger"
    using sample_outcome_appended by blast
  moreover from this have later: "(ledger_step sample_codec plain_externals)\<^sup>*\<^sup>* started_ledger db"
    using ledger_step.outcome by blast
  ultimately show ?thesis using start ledger_only_grows [OF start later] by blast
qed

text \<open>
  An unknown outcome is marked only while the invocation runs. When
  \<open>append_invocation_unknown\<close> succeeds, the ledger projects \<open>Unknown\<close> afterwards, and if
  the call appended the marker the invocation was \<open>Started\<close> before.
\<close>

lemma unknown_marker_only_from_started:
  assumes C: "codec_ok C" and wf: "ledger_wf db" and ok: "append_invocation_unknown C X db input = Ok (db', ev)"
  shows "\<exists>i. validate_invocation_unknown C (nu_state input) = Ok i \<and>
    invocation_state_in C X db' (uuid_str X i) = Ok (Some invocation_state.Unknown) \<and>
    (db' = db \<or> invocation_state_in C X db (uuid_str X i) = Ok (Some Started) \<and> history db' = history db @ [ev])"
proof -
  obtain i evs where v: "validate_invocation_unknown C (nu_state input) = Ok i"
    and ch: "append_invocation_events_checked C X db [nu_state input] i Started invocation_state.Unknown = Ok (db', evs)"
    and ev: "ev = last evs"
    using ok by (auto simp: append_invocation_unknown_def rbind_eq_Inr split: if_splits)
  from checked_projects_final [OF C wf ch unknown_rows [OF C v]] v ev show ?thesis
    by (auto simp: Let_def)
qed

definition sample_unknown :: new_invocation_unknown where
  "sample_unknown = \<lparr>nu_state = sample_row ''x'' 6\<rparr>"

lemma unknown_marker_only_from_started_witness:
  "\<exists>db ev. append_invocation_unknown sample_codec plain_externals started_ledger sample_unknown = Ok (db, ev) \<and>
     invocation_state_in sample_codec plain_externals db (uuid_str plain_externals 7) = Ok (Some invocation_state.Unknown)"
proof -
  let ?in = "[nu_state sample_unknown]"
  have v: "validate_invocation_unknown sample_codec (nu_state sample_unknown) = Ok 7"
    by (simp add: validate_invocation_unknown_def sample_unknown_def unknown_marker_def sample_simps)
  have "append_invocation_events_checked sample_codec plain_externals started_ledger ?in 7 Started invocation_state.Unknown =
      Ok (push_rows started_ledger (assign started_ledger ?in), assign started_ledger ?in)"
    by (rule started_checked) (simp_all add: tool_result_call_id_def sample_unknown_def started_ids sample_simps)
  then obtain db ev where ok: "append_invocation_unknown sample_codec plain_externals started_ledger sample_unknown = Ok (db, ev)"
    using v by (simp add: append_invocation_unknown_def Let_def)
  from unknown_marker_only_from_started [OF sample_codec_ok started_ledger_wf ok] v ok show ?thesis by auto
qed

end
