(* ===== verification/Ledger_Port.thy ===== *)
theory Ledger_Port
  imports Ledger_Outcomes Core_Projection
begin

text \<open>
  The ledger behind the \<open>EventStore\<close> port of \<open>yeux-core/src/ports.rs\<close>: the conversions
  between protocol envelopes and ledger rows, the port's two operations, the core projection
  rebuilt from the ledger, and the thread projection that \<open>ledger.rs\<close> keeps for listings.

  The contract of the port is the locale \<open>event_store\<close>; it is interpreted on the ledger.
  A client of the contract gets back exactly the envelopes it stored.
\<close>

section \<open>Conversions\<close>

definition ledger_event_of :: "codec \<Rightarrow> externals \<Rightarrow> event_envelope \<Rightarrow> (ledger_error, ledger_event) rust_result" where
  "ledger_event_of C X env =
     (let serialized = cd_event_value C (en_event env) in
      if \<not> json_is_object serialized then Err (InvalidEnvelope ''serialized Event must be an object'')
      else
        rbind (ok_or (InvalidEnvelope ''Event is missing kind'')
           (Option.bind (json_get serialized ''kind'') json_as_str)) (\<lambda>kind.
        Ok \<lparr>le_schema_version = en_schema_version env, le_event_id = uuid_str X (en_event_id env),
            le_thread_id = uuid_str X (en_thread_id env), le_turn_id = map_option (uuid_str X) (en_turn_id env),
            le_agent_id = en_agent_id env, le_seq = en_seq env, le_time = en_time env,
            le_causation_id = en_causation_id env, le_kind = kind,
            le_payload = (case json_get serialized ''payload'' of None \<Rightarrow> JNull | Some p \<Rightarrow> p)\<rparr>))"

definition parse_uuid :: "codec \<Rightarrow> string \<Rightarrow> string \<Rightarrow> (ledger_error, uuid) rust_result" where
  "parse_uuid C field value =
     map_err (\<lambda>error. InvalidEnvelope (''invalid '' @ field @ '': '' @ error)) (cd_parse_uuid C value)"

definition schema_message :: "protocol_version \<Rightarrow> string" where
  "schema_message v =
     unsupported_schema v @ ''; runtime supports '' @ dec_digits (major PROTOCOL_VERSION) @ ''.'' @
     dec_digits (minor PROTOCOL_VERSION)"

definition envelope_of :: "codec \<Rightarrow> ledger_event \<Rightarrow> (ledger_error, event_envelope) rust_result" where
  "envelope_of C ev =
     (if \<not> accepts PROTOCOL_VERSION (le_schema_version ev)
      then Err (InvalidEnvelope (schema_message (le_schema_version ev)))
      else
        rbind (map_err Json (cd_event C (le_kind ev) (le_payload ev))) (\<lambda>protocol_event.
        rbind (parse_uuid C ''event_id'' (le_event_id ev)) (\<lambda>event_id.
        rbind (parse_uuid C ''thread_id'' (le_thread_id ev)) (\<lambda>thread_id.
        rbind (case le_turn_id ev of
                 None \<Rightarrow> Ok None
               | Some t \<Rightarrow> rbind (parse_uuid C ''turn_id'' t) (\<lambda>u. Ok (Some u))) (\<lambda>turn_id.
        Ok \<lparr>en_schema_version = le_schema_version ev, en_event_id = event_id, en_thread_id = thread_id,
            en_turn_id = turn_id, en_agent_id = le_agent_id ev, en_seq = le_seq ev, en_time = le_time ev,
            en_causation_id = le_causation_id ev, en_event = protocol_event\<rparr>)))))"

section \<open>The port\<close>

record port_error =
  po_code :: string
  po_message :: string
  po_retryable :: bool

text \<open>
  The message is the \<open>Display\<close> text of the error. Only a busy or locked database is
  retryable; the model has no such failure.
\<close>

definition found_debug :: "invocation_state option \<Rightarrow> string" where
  "found_debug found = (case found of None \<Rightarrow> ''None'' | Some s \<Rightarrow> ''Some('' @ state_debug s @ '')'')"

fun ledger_message :: "ledger_error \<Rightarrow> string" where
  "ledger_message (Database e) = ''database error: '' @ e"
| "ledger_message (Json e) = ''serialized payload is invalid: '' @ e"
| "ledger_message (EventIdConflict i) = ''event id '' @ i @ '' was reused with different contents''"
| "ledger_message (CommandIdConflict i) =
     ''command id '' @ i @ '' was reused for different method or parameters''"
| "ledger_message EmptyEventBatch = ''an event-producing command must append at least one event''"
| "ledger_message (InvalidInvocationOutcome e) = ''invalid invocation outcome event batch: '' @ e"
| "ledger_message (InvocationStateConflict i expected found) =
     ''invocation '' @ i @ '' expected state '' @ state_debug expected @ '', found '' @ found_debug found"
| "ledger_message (SequenceOverflow scope) = ''event sequence exhausted for '' @ scope"
| "ledger_message (ledger_error.SequenceGap t expected found) =
     ''event sequence for thread '' @ t @ '' is corrupt: expected '' @ dec_digits expected @
     '', found '' @ dec_digits found"
| "ledger_message (InvalidEnvelope e) = ''invalid protocol envelope: '' @ e"
| "ledger_message (Panic e) = e"

definition ledger_port_error :: "ledger_error \<Rightarrow> port_error" where
  "ledger_port_error e = \<lparr>po_code = ''event_store'', po_message = ledger_message e, po_retryable = False\<rparr>"

definition port_append :: "codec \<Rightarrow> externals \<Rightarrow> ledger \<Rightarrow> event_envelope \<Rightarrow> (port_error, ledger) rust_result" where
  "port_append C X db env =
     rbind (map_err ledger_port_error (ledger_event_of C X env)) (\<lambda>ev.
       map_err ledger_port_error (import_with_duplicate_policy (cd_stored C) db ev False))"

definition port_load_thread ::
  "codec \<Rightarrow> externals \<Rightarrow> ledger \<Rightarrow> thread_id \<Rightarrow> nat \<Rightarrow> (port_error, event_envelope list) rust_result" where
  "port_load_thread C X db thread_id after_seq =
     rbind (map_err ledger_port_error (replay_thread (cd_stored C) db (uuid_str X thread_id) after_seq)) (\<lambda>evs.
       collect_results (\<lambda>ev. map_err ledger_port_error (envelope_of C ev)) evs)"

text \<open>Storing a list of envelopes one after the other.\<close>

fun port_append_all :: "codec \<Rightarrow> externals \<Rightarrow> ledger \<Rightarrow> event_envelope list \<Rightarrow> (port_error, ledger) rust_result" where
  "port_append_all C X db [] = Ok db"
| "port_append_all C X db (env # envs) = rbind (port_append C X db env) (\<lambda>db'. port_append_all C X db' envs)"

section \<open>The core projection of a ledger\<close>

datatype core_projection_error = Ledger ledger_error | Replay replay_error

definition project_core :: "codec \<Rightarrow> externals \<Rightarrow> ledger \<Rightarrow> (core_projection_error, projection) rust_result" where
  "project_core C X db =
     rbind (map_err Ledger (collect_results (envelope_of C) (all_events (cd_stored C) db))) (\<lambda>events.
       map_err Replay (replay X events))"

section \<open>The thread projection\<close>

record projection_turn =
  pt_turn_id :: string
  pt_status :: string
  pt_started_seq :: nat
  pt_finished_seq :: "nat option"

record projection_item =
  pti_seq :: nat
  pti_turn_id :: "string option"
  pti_kind :: string
  pti_payload :: json

record projection_thread =
  ptd_thread_id :: string
  ptd_last_seq :: nat
  ptd_archived :: bool
  ptd_active_turn_id :: "string option"
  ptd_turns :: "(string, projection_turn) btree_map"
  ptd_items :: "projection_item list"

definition projection_thread_new :: "string \<Rightarrow> projection_thread" where
  "projection_thread_new t =
     \<lparr>ptd_thread_id = t, ptd_last_seq = 0, ptd_archived = False, ptd_active_turn_id = None,
      ptd_turns = bt_empty, ptd_items = []\<rparr>"

definition payload_id :: "json \<Rightarrow> string option" where
  "payload_id payload = Option.bind (json_get payload ''turn_id'') json_as_str"

definition turn_of_event :: "ledger_event \<Rightarrow> string option" where
  "turn_of_event ev = (case le_turn_id ev of Some t \<Rightarrow> Some t | None \<Rightarrow> payload_id (le_payload ev))"

definition status_of_event :: "ledger_event \<Rightarrow> string option" where
  "status_of_event ev = Option.bind (json_get (le_payload ev) ''to'') json_as_str"

definition terminal_status :: "string \<Rightarrow> bool" where
  "terminal_status s \<longleftrightarrow> s = ''completed'' \<or> s = ''failed'' \<or> s = ''cancelled''"

definition apply_status :: "ledger_event \<Rightarrow> projection_turn \<Rightarrow> projection_turn" where
  "apply_status ev turn =
     (let status = (case status_of_event ev of None \<Rightarrow> ''unknown'' | Some s \<Rightarrow> s) in
      turn\<lparr>pt_status := status,
           pt_finished_seq := (if terminal_status status then Some (le_seq ev) else pt_finished_seq turn)\<rparr>)"

definition apply_turn_change :: "projection_thread \<Rightarrow> ledger_event \<Rightarrow> string \<Rightarrow> projection_thread" where
  "apply_turn_change p ev turn_id =
     (let p' = (case bt_get (ptd_turns p) turn_id of
                  None \<Rightarrow> p
                | Some turn \<Rightarrow> p\<lparr>ptd_turns := bt_insert (ptd_turns p) turn_id (apply_status ev turn)\<rparr>);
          terminal = (case status_of_event ev of None \<Rightarrow> False | Some s \<Rightarrow> terminal_status s) in
      if terminal \<and> ptd_active_turn_id p' = Some turn_id then p'\<lparr>ptd_active_turn_id := None\<rparr> else p')"

definition apply_thread_event :: "projection_thread \<Rightarrow> ledger_event \<Rightarrow> projection_thread" where
  "apply_thread_event p0 ev =
     (let p = p0\<lparr>ptd_last_seq := le_seq ev\<rparr> in
      if le_kind ev = ''thread/archived'' then p\<lparr>ptd_archived := True\<rparr>
      else if le_kind ev = ''thread/resumed'' then p\<lparr>ptd_archived := False\<rparr>
      else if le_kind ev = ''turn/started'' then
        (case turn_of_event ev of
           None \<Rightarrow> p
         | Some t \<Rightarrow> p\<lparr>ptd_active_turn_id := Some t,
                      ptd_turns := bt_insert (ptd_turns p) t
                        \<lparr>pt_turn_id = t, pt_status = ''active'', pt_started_seq = le_seq ev,
                         pt_finished_seq = None\<rparr>\<rparr>)
      else if le_kind ev = ''turn/state_changed'' then
        (case turn_of_event ev of None \<Rightarrow> p | Some t \<Rightarrow> apply_turn_change p ev t)
      else p\<lparr>ptd_items := ptd_items p @
              [\<lparr>pti_seq = le_seq ev, pti_turn_id = le_turn_id ev, pti_kind = le_kind ev,
                pti_payload = le_payload ev\<rparr>]\<rparr>)"

definition project_thread :: "(json \<Rightarrow> json) \<Rightarrow> ledger \<Rightarrow> string \<Rightarrow> (ledger_error, projection_thread) rust_result" where
  "project_thread stored db t =
     rbind (replay_thread stored db t 0) (\<lambda>evs. Ok (foldl apply_thread_event (projection_thread_new t) evs))"

type_synonym thread_projections = "(string, projection_thread) btree_map"

definition apply_all_event :: "thread_projections \<Rightarrow> ledger_event \<Rightarrow> thread_projections" where
  "apply_all_event m ev =
     bt_insert m (le_thread_id ev)
       (apply_thread_event
          (case bt_get m (le_thread_id ev) of
             None \<Rightarrow> projection_thread_new (le_thread_id ev) | Some p \<Rightarrow> p) ev)"

definition project_all :: "(json \<Rightarrow> json) \<Rightarrow> ledger \<Rightarrow> thread_projections" where
  "project_all stored db = foldl apply_all_event bt_empty (all_events stored db)"

section \<open>Hypotheses on the codec\<close>

text \<open>
  Documented behaviour of the third-party code: the parser of UUIDs reads back the text of a
  UUID, and the value of an event is an object that carries the event's tag and a payload from
  which the event is decoded. It is asked for the events of a set \<open>E\<close> only: those that a
  client stores.
\<close>

definition port_codec_ok :: "codec \<Rightarrow> externals \<Rightarrow> event set \<Rightarrow> bool" where
  "port_codec_ok C X E \<longleftrightarrow>
     codec_ok C \<and> (\<forall>u. cd_parse_uuid C (uuid_str X u) = Ok u) \<and>
     (\<forall>ev \<in> E. json_is_object (cd_event_value C ev) \<and>
        json_get (cd_event_value C ev) ''kind'' = Some (JString (event_kind ev)) \<and>
        (\<exists>p. json_get (cd_event_value C ev) ''payload'' = Some p \<and> cd_event C (event_kind ev) p = Ok ev))"

lemma uuid_str_inj: "port_codec_ok C X E \<Longrightarrow> uuid_str X u = uuid_str X v \<longleftrightarrow> u = v"
  unfolding port_codec_ok_def by (metis sum.inject(2))

text \<open>An envelope and its row.\<close>

definition storable :: "event set \<Rightarrow> event_envelope \<Rightarrow> bool" where
  "storable E env \<longleftrightarrow> accepts PROTOCOL_VERSION (en_schema_version env) \<and> en_event env \<in> E"

definition row_of :: "codec \<Rightarrow> externals \<Rightarrow> event set \<Rightarrow> event_envelope \<Rightarrow> ledger_event \<Rightarrow> bool" where
  "row_of C X E env row \<longleftrightarrow>
     ledger_event_of C X env = Ok row \<and> storable E env"

lemma row_of_sel:
  "row_of C X E env row \<Longrightarrow> le_event_id row = uuid_str X (en_event_id env) \<and>
     le_thread_id row = uuid_str X (en_thread_id env) \<and> le_seq row = en_seq env"
  by (auto simp: row_of_def ledger_event_of_def Let_def rbind_eq_Inr split: if_splits)

lemma envelope_of_row:
  assumes "port_codec_ok C X E" and "row_of C X E env row"
  shows "envelope_of C row = Ok env"
proof -
  obtain p where v: "json_is_object (cd_event_value C (en_event env))"
      "json_get (cd_event_value C (en_event env)) ''kind'' = Some (JString (event_kind (en_event env)))"
      "json_get (cd_event_value C (en_event env)) ''payload'' = Some p"
      "cd_event C (event_kind (en_event env)) p = Ok (en_event env)"
    using assms unfolding port_codec_ok_def row_of_def storable_def by blast
  have parse: "cd_parse_uuid C (uuid_str X u) = Ok u" for u
    using assms(1) by (simp add: port_codec_ok_def)
  have "accepts PROTOCOL_VERSION (en_schema_version env)" using assms(2) by (simp add: row_of_def storable_def)
  then show ?thesis
    using assms(2) v parse
    by (cases "en_turn_id env")
      (auto simp: row_of_def ledger_event_of_def envelope_of_def parse_uuid_def Let_def json_as_str_def ok_or_def)
qed

lemma ledger_event_of_total:
  assumes "port_codec_ok C X E" and "en_event env \<in> E"
  shows "\<exists>row. ledger_event_of C X env = Ok row"
proof -
  have "json_is_object (cd_event_value C (en_event env))"
      "json_get (cd_event_value C (en_event env)) ''kind'' = Some (JString (event_kind (en_event env)))"
    using assms unfolding port_codec_ok_def by auto
  then show ?thesis by (simp add: ledger_event_of_def Let_def json_as_str_def ok_or_def)
qed

text \<open>The ledger holds the rows of these envelopes.\<close>

definition holds_envelopes :: "codec \<Rightarrow> externals \<Rightarrow> event set \<Rightarrow> ledger \<Rightarrow> event_envelope list \<Rightarrow> bool" where
  "holds_envelopes C X E db es \<longleftrightarrow>
     port_codec_ok C X E \<and> ledger_wf db \<and> list_all2 (row_of C X E) es (history db)"

lemma collect_rows:
  assumes "port_codec_ok C X E" and "list_all2 (row_of C X E) es rows"
  shows "collect_results (envelope_of C) rows = Ok es"
  unfolding collect_results_Inr using assms envelope_of_row by (auto elim: list_all2_mono intro: list_all2_mono simp: list_all2_conv_all_nth)

lemma rows_of_thread:
  assumes "port_codec_ok C X E" and "list_all2 (row_of C X E) es rows"
  shows "list_all2 (row_of C X E) (events_of_thread t es) (of_thread (uuid_str X t) rows)"
  using assms(2)
  by (induction rule: list_all2_induct)
    (auto simp: events_of_thread_def of_thread_def row_of_sel uuid_str_inj [OF assms(1)])

lemma port_load:
  assumes "holds_envelopes C X E db es"
  shows "port_load_thread C X db t 0 = Ok (events_of_thread t es)"
proof -
  have C: "port_codec_ok C X E" and wf: "ledger_wf db" and rows: "list_all2 (row_of C X E) es (history db)"
    using assms by (auto simp: holds_envelopes_def)
  have stored: "cd_stored C = (\<lambda>v. v)" using C by (simp add: port_codec_ok_def codec_okD(1))
  have "collect_results (envelope_of C) (of_thread (uuid_str X t) (history db)) = Ok (events_of_thread t es)"
    by (rule collect_rows [OF C rows_of_thread [OF C rows]])
  then have "collect_results (\<lambda>ev. map_err ledger_port_error (envelope_of C ev)) (of_thread (uuid_str X t) (history db)) =
      Ok (events_of_thread t es)"
    by (simp add: collect_results_Inr)
  then show ?thesis by (simp add: port_load_thread_def stored replay_thread_wf [OF wf])
qed

lemma port_append_holds:
  assumes h: "holds_envelopes C X E db es" and v: "storable E env"
    and ok: "port_append C X db env = Ok db'"
  shows "holds_envelopes C X E db' (es @ [env]) \<and> en_event_id env \<notin> en_event_id ` set es \<and>
    en_seq env = Suc (length (events_of_thread (en_thread_id env) es))"
proof -
  have C: "port_codec_ok C X E" and wf: "ledger_wf db" and rows: "list_all2 (row_of C X E) es (history db)"
    using h by (auto simp: holds_envelopes_def)
  obtain row where row: "ledger_event_of C X env = Ok row"
    and im: "import_with_duplicate_policy (cd_stored C) db row False = Ok db'"
    using ok by (auto simp: port_append_def rbind_eq_Inr)
  have r: "row_of C X E env row" using row v by (simp add: row_of_def)
  from import_Ok [OF wf im] have new: "le_event_id row \<notin> stored_ids db" "le_seq row = next_seq db (le_thread_id row)"
      "db' = push_row db row" "ledger_wf db'" by auto
  have "map le_event_id (history db) = map (uuid_str X \<circ> en_event_id) es"
    using rows by (induction rule: list_all2_induct) (auto simp: row_of_sel)
  then have "stored_ids db = uuid_str X ` en_event_id ` set es"
    unfolding stored_ids_def by (metis image_comp set_map)
  moreover have "length (events_of_thread (en_thread_id env) es) = length (of_thread (le_thread_id row) (history db))"
    using list_all2_lengthD [OF rows_of_thread [OF C rows, of "en_thread_id env"]] row_of_sel [OF r] by simp
  ultimately show ?thesis
    using new row_of_sel [OF r] rows r C by (auto simp: holds_envelopes_def next_seq_def list_all2_appendI)
qed

section \<open>The contract of the port\<close>

text \<open>
  What a client of \<open>EventStore\<close> relies on: storing an envelope keeps the store sound, adds
  it at the end of its thread and nowhere else, and refuses an identifier or a sequence number
  that does not fit.
\<close>

locale event_store =
  fixes store :: "'db \<Rightarrow> event_envelope \<Rightarrow> ('e, 'db) rust_result"
    and load :: "'db \<Rightarrow> thread_id \<Rightarrow> nat \<Rightarrow> ('e, event_envelope list) rust_result"
    and sound :: "'db \<Rightarrow> bool"
    and valid :: "event_envelope \<Rightarrow> bool"
  assumes store_sound: "sound db \<Longrightarrow> valid env \<Longrightarrow> store db env = Ok db' \<Longrightarrow> sound db'"
    and load_total: "sound db \<Longrightarrow> \<exists>es. load db t 0 = Ok es"
    and load_store: "sound db \<Longrightarrow> valid env \<Longrightarrow> store db env = Ok db' \<Longrightarrow> load db t 0 = Ok es \<Longrightarrow>
      load db' t 0 = Ok (if en_thread_id env = t then es @ [env] else es)"
    and store_fits: "sound db \<Longrightarrow> valid env \<Longrightarrow> store db env = Ok db' \<Longrightarrow> load db (en_thread_id env) 0 = Ok es \<Longrightarrow>
      en_seq env = Suc (length es) \<and> en_event_id env \<notin> en_event_id ` set es"
begin

fun store_all :: "'db \<Rightarrow> event_envelope list \<Rightarrow> ('e, 'db) rust_result" where
  "store_all db [] = Ok db"
| "store_all db (env # envs) = rbind (store db env) (\<lambda>db'. store_all db' envs)"

lemma store_all_sound:
  "sound db \<Longrightarrow> \<forall>env \<in> set envs. valid env \<Longrightarrow> store_all db envs = Ok db' \<Longrightarrow> sound db'"
  by (induction envs arbitrary: db) (auto simp: rbind_eq_Inr dest: store_sound)

lemma store_all_load:
  "sound db \<Longrightarrow> \<forall>env \<in> set envs. valid env \<Longrightarrow> store_all db envs = Ok db' \<Longrightarrow> load db t 0 = Ok es \<Longrightarrow>
     load db' t 0 = Ok (es @ filter (\<lambda>env. en_thread_id env = t) envs)"
proof (induction envs arbitrary: db es)
  case (Cons env envs)
  then obtain db1 where db1: "store db env = Ok db1" "store_all db1 envs = Ok db'"
    by (auto simp: rbind_eq_Inr)
  have s: "sound db1" using store_sound [OF Cons.prems(1) _ db1(1)] Cons.prems(2) by simp
  have l: "load db1 t 0 = Ok (if en_thread_id env = t then es @ [env] else es)"
    using load_store [OF Cons.prems(1) _ db1(1) Cons.prems(4)] Cons.prems(2) by simp
  show ?case using Cons.IH [OF s _ db1(2) l] Cons.prems(2) by simp
qed simp

end

interpretation ledger_store: event_store "port_append C X" "port_load_thread C X"
  "\<lambda>db. \<exists>es. holds_envelopes C X E db es" "storable E" for C X E
proof
  fix db env db' t es
  assume sound: "\<exists>es. holds_envelopes C X E db es"
  then obtain hs where hs: "holds_envelopes C X E db hs" by blast
  show "\<exists>es. port_load_thread C X db t 0 = Ok es" using port_load [OF hs] by blast
  assume ok: "storable E env" "port_append C X db env = Ok db'"
  note new = port_append_holds [OF hs ok]
  show "\<exists>es. holds_envelopes C X E db' es" using new by blast
  { assume "port_load_thread C X db t 0 = Ok es"
    then have "es = events_of_thread t hs" using port_load [OF hs] by simp
    then show "port_load_thread C X db' t 0 = Ok (if en_thread_id env = t then es @ [env] else es)"
      using port_load [OF conjunct1 [OF new]] by (simp add: events_of_thread_def) }
  { assume "port_load_thread C X db (en_thread_id env) 0 = Ok es"
    then have "es = events_of_thread (en_thread_id env) hs" using port_load [OF hs] by simp
    then show "en_seq env = Suc (length es) \<and> en_event_id env \<notin> en_event_id ` set es"
      using new by (auto simp: events_of_thread_def) }
qed

lemma port_append_all_eq: "port_append_all C X db es = ledger_store.store_all C X db es"
  by (induction es arbitrary: db) simp_all

lemma store_all_holds:
  "holds_envelopes C X E db hs \<Longrightarrow> \<forall>env \<in> set es. storable E env \<Longrightarrow> ledger_store.store_all C X db es = Ok db' \<Longrightarrow>
     holds_envelopes C X E db' (hs @ es)"
proof (induction es arbitrary: db hs)
  case (Cons env es)
  then obtain db1 where db1: "port_append C X db env = Ok db1" "ledger_store.store_all C X db1 es = Ok db'"
    by (auto simp: rbind_eq_Inr)
  have "holds_envelopes C X E db1 (hs @ [env])"
    using port_append_holds [OF Cons.prems(1) _ db1(1)] Cons.prems(2) by simp
  from Cons.IH [OF this _ db1(2)] Cons.prems(2) show ?case by simp
qed simp

lemma holds_nothing: "port_codec_ok C X E \<Longrightarrow> holds_envelopes C X E initialize_schema []"
  by (simp add: holds_envelopes_def)

lemma project_core_eq:
  assumes "holds_envelopes C X E db es"
  shows "project_core C X db = map_err Replay (replay X es)"
proof -
  have "port_codec_ok C X E" "ledger_wf db" "list_all2 (row_of C X E) es (history db)"
    using assms by (auto simp: holds_envelopes_def)
  then show ?thesis
    using collect_rows [of C X E es "history db"]
    by (simp add: project_core_def all_events_wf port_codec_ok_def codec_okD(1))
qed

text \<open>The envelopes of a ledger form a complete history.\<close>

lemma holds_complete:
  assumes "holds_envelopes C X E db es"
  shows "distinct (map en_event_id es) \<and> (\<forall>e \<in> set es. accepts PROTOCOL_VERSION (en_schema_version e)) \<and>
    (\<forall>t. map en_seq (events_of_thread t es) = [1..<Suc (length (events_of_thread t es))]) \<and> length es \<le> i64_max"
proof -
  have C: "port_codec_ok C X E" and wf: "ledger_wf db" and rows: "list_all2 (row_of C X E) es (history db)"
    using assms by (auto simp: holds_envelopes_def)
  have "map le_event_id (history db) = map (uuid_str X) (map en_event_id es)"
    using rows by (induction rule: list_all2_induct) (auto simp: row_of_sel)
  then have "distinct (map (uuid_str X) (map en_event_id es))" using wf by (simp add: ledger_wf_def)
  then have d: "distinct (map en_event_id es)" by (rule distinct_map [THEN iffD1, THEN conjunct1])
  have "map le_seq rs = map en_seq xs" if "list_all2 (row_of C X E) xs rs" for xs rs
    using that by (induction rule: list_all2_induct) (auto simp: row_of_sel)
  then have "map en_seq (events_of_thread t es) = map le_seq (of_thread (uuid_str X t) (history db))" for t
    using rows_of_thread [OF C rows] by metis
  moreover have "length (events_of_thread t es) = length (of_thread (uuid_str X t) (history db))" for t
    by (rule list_all2_lengthD [OF rows_of_thread [OF C rows]])
  ultimately have "map en_seq (events_of_thread t es) = [1..<Suc (length (events_of_thread t es))]" for t
    using wf unfolding ledger_wf_def by metis
  moreover have "\<forall>e \<in> set es. accepts PROTOCOL_VERSION (en_schema_version e)"
    using rows by (auto simp: list_all2_conv_all_nth in_set_conv_nth row_of_def storable_def)
  moreover have "length es \<le> i64_max"
    using list_all2_lengthD [OF rows] wf by (simp add: ledger_wf_def)
  ultimately show ?thesis using d by blast
qed

text \<open>Conversely, an envelope that fits is stored.\<close>

lemma port_append_fits:
  assumes h: "holds_envelopes C X E db es" and v: "storable E env"
    and "en_event_id env \<notin> en_event_id ` set es"
    and "en_seq env = Suc (length (events_of_thread (en_thread_id env) es))" and "length es < i64_max"
  shows "\<exists>db'. port_append C X db env = Ok db'"
proof -
  have C: "port_codec_ok C X E" and wf: "ledger_wf db" and rows: "list_all2 (row_of C X E) es (history db)"
    using h by (auto simp: holds_envelopes_def)
  obtain row where row: "ledger_event_of C X env = Ok row"
    using ledger_event_of_total [OF C] v by (auto simp: storable_def)
  then have r: "row_of C X E env row" using v by (simp add: row_of_def)
  have "map le_event_id (history db) = map (uuid_str X \<circ> en_event_id) es"
    using rows by (induction rule: list_all2_induct) (auto simp: row_of_sel)
  then have "stored_ids db = uuid_str X ` en_event_id ` set es"
    unfolding stored_ids_def by (metis image_comp set_map)
  then have "le_event_id row \<notin> stored_ids db"
    using assms(3) row_of_sel [OF r] uuid_str_inj [OF C] by (simp add: inj_image_mem_iff inj_def)
  moreover have "le_seq row = next_seq db (le_thread_id row)"
    using list_all2_lengthD [OF rows_of_thread [OF C rows, of "en_thread_id env"]] row_of_sel [OF r] assms(4)
    by (simp add: next_seq_def)
  moreover have "length (lg_events db) < i64_max"
    using assms(5) list_all2_lengthD [OF rows] by simp
  ultimately show ?thesis
    using import_fresh [OF wf] row by (simp add: port_append_def)
qed

definition complete_history :: "event_envelope list \<Rightarrow> bool" where
  "complete_history es \<longleftrightarrow>
     distinct (map en_event_id es) \<and> length es \<le> i64_max \<and>
     (\<forall>t. map en_seq (events_of_thread t es) = [1..<Suc (length (events_of_thread t es))])"

lemma complete_history_snoc:
  "complete_history (es @ [e]) \<longleftrightarrow>
     complete_history es \<and> en_event_id e \<notin> en_event_id ` set es \<and> length es < i64_max \<and>
     en_seq e = Suc (length (events_of_thread (en_thread_id e) es))"
proof -
  have "(\<forall>t. map en_seq (events_of_thread t (es @ [e])) = [1..<Suc (length (events_of_thread t (es @ [e])))]) \<longleftrightarrow>
      (\<forall>t. map en_seq (events_of_thread t es) = [1..<Suc (length (events_of_thread t es))]) \<and>
      en_seq e = Suc (length (events_of_thread (en_thread_id e) es))" (is "?l \<longleftrightarrow> ?r \<and> ?s")
  proof
    assume l: ?l
    have "map en_seq (events_of_thread t es) = [1..<Suc (length (events_of_thread t es))]" for t
      using spec [OF l, of t] by (cases "en_thread_id e = t") (auto simp: events_of_thread_def)
    moreover have ?s using spec [OF l, of "en_thread_id e"] by (simp add: events_of_thread_def)
    ultimately show "?r \<and> ?s" by blast
  qed (auto simp: events_of_thread_def)
  then show ?thesis by (auto simp: complete_history_def)
qed

lemma port_append_all_snoc:
  "port_append_all C X db (es @ [e]) = rbind (port_append_all C X db es) (\<lambda>db'. port_append C X db' e)"
proof (induction es arbitrary: db)
  case Nil
  then show ?case by (cases "port_append C X db e") simp_all
next
  case (Cons a es)
  then show ?case by (cases "port_append C X db a") simp_all
qed

lemma port_append_all_complete:
  assumes C: "port_codec_ok C X E"
  shows "complete_history es \<Longrightarrow> \<forall>env \<in> set es. storable E env \<Longrightarrow> \<exists>db. port_append_all C X initialize_schema es = Ok db"
proof (induction es rule: rev_induct)
  case (snoc e es)
  then obtain db where db: "port_append_all C X initialize_schema es = Ok db"
    by (auto simp: complete_history_snoc)
  have "holds_envelopes C X E db es"
    using store_all_holds [OF holds_nothing [OF C]] snoc.prems(2) db by (simp add: port_append_all_eq)
  from port_append_fits [OF this, of e] snoc.prems have "\<exists>db'. port_append C X db e = Ok db'"
    by (simp add: complete_history_snoc)
  then show ?case by (auto simp: port_append_all_snoc db)
qed simp

section \<open>The thread projection\<close>

lemma apply_thread_event_last_seq [simp]: "ptd_last_seq (apply_thread_event p ev) = le_seq ev"
  by (auto simp: apply_thread_event_def apply_turn_change_def Let_def split: option.splits)

text \<open>The active turn is one of the turns, and it is not finished.\<close>

definition active_ok :: "projection_thread \<Rightarrow> bool" where
  "active_ok p \<longleftrightarrow>
     (\<forall>t. ptd_active_turn_id p = Some t \<longrightarrow>
        (\<exists>u. bt_get (ptd_turns p) t = Some u \<and> pt_finished_seq u = None))"

lemma active_ok_step: "active_ok p \<Longrightarrow> active_ok (apply_thread_event p ev)"
  by (auto simp: active_ok_def apply_thread_event_def apply_turn_change_def apply_status_def terminal_status_def
      Let_def split: option.splits if_splits)

lemma active_ok_foldl: "active_ok p \<Longrightarrow> active_ok (foldl apply_thread_event p evs)"
  by (induction evs arbitrary: p) (auto simp: active_ok_step)

lemma foldl_last_seq:
  "evs \<noteq> [] \<Longrightarrow> ptd_last_seq (foldl apply_thread_event p evs) = le_seq (last evs)"
  by (induction evs arbitrary: p rule: rev_induct) auto

lemma project_all_get:
  "bt_get (foldl apply_all_event m evs) t =
     (if of_thread t evs = [] then bt_get m t
      else Some (foldl apply_thread_event
        (case bt_get m t of None \<Rightarrow> projection_thread_new t | Some p \<Rightarrow> p) (of_thread t evs)))"
proof (induction evs arbitrary: m)
  case (Cons ev evs)
  show ?case
    unfolding foldl_Cons Cons.IH
    by (cases "le_thread_id ev = t") (auto simp: apply_all_event_def of_thread_def split: option.splits)
qed (simp add: of_thread_def)

lemma of_thread_rows: "of_thread t (map (row_to_event stored) es) = map (row_to_event stored) (of_thread t es)"
  by (simp add: of_thread_def filter_map comp_def)

section \<open>A concrete codec\<close>

text \<open>The events of a list, decoded by their position.\<close>

definition list_codec :: "event list \<Rightarrow> codec" where
  "list_codec evs =
     \<lparr>cd_stored = (\<lambda>v. v),
      cd_event = (\<lambda>k p. case p of
          JNumber (PosInt n) \<Rightarrow> if n < length evs \<and> event_kind (evs ! n) = k then Ok (evs ! n) else Err ''mismatch''
        | _ \<Rightarrow> Err ''mismatch''),
      cd_uuid = (\<lambda>_. Err ''unused''), cd_blocks = (\<lambda>_. Err ''unused''),
      cd_event_value = (\<lambda>ev. JObject [(''kind'', JString (event_kind ev)),
          (''payload'', JNumber (PosInt (length (takeWhile (\<lambda>e. e \<noteq> ev) evs))))]),
      cd_parse_uuid = (\<lambda>s. Ok (of_nat (length s)))\<rparr>"

lemma list_codec_ok: "port_codec_ok (list_codec evs) plain_externals (set evs)"
proof -
  have "codec_ok (list_codec evs)"
    by (auto simp: codec_ok_def list_codec_def split: json.splits jnumber.splits if_splits)
  moreover have "cd_parse_uuid (list_codec evs) (uuid_str plain_externals u) = Ok u" for u
    by (simp add: list_codec_def plain_externals_def)
  moreover have "cd_event (list_codec evs) (event_kind ev) (JNumber (PosInt (length (takeWhile (\<lambda>e. e \<noteq> ev) evs)))) = Ok ev"
    if "ev \<in> set evs" for ev
  proof -
    have "length (takeWhile (\<lambda>e. e \<noteq> ev) evs) < length evs \<and> evs ! length (takeWhile (\<lambda>e. e \<noteq> ev) evs) = ev"
      using that by (induction evs) auto
    then show ?thesis by (simp add: list_codec_def)
  qed
  ultimately show ?thesis
    by (simp add: port_codec_ok_def list_codec_def json_is_object_def json_get_def)
qed

section \<open>Properties\<close>


lemma sample_conversation_complete: "complete_history sample_conversation"
proof -
  have "map en_seq (events_of_thread t sample_conversation) = [1..<Suc (length (events_of_thread t sample_conversation))]" for t
    by (simp add: events_of_thread_def sample_conversation_def sample_envelope_def)
  then show ?thesis
    by (simp add: complete_history_def sample_conversation_def sample_envelope_def i64_max_def)
qed

lemma sample_conversation_storable: "\<forall>env \<in> set sample_conversation. storable (set (map en_event sample_conversation)) env"
  by (simp add: storable_def sample_conversation_def sample_envelope_def PROTOCOL_VERSION_def accepts_def)


text \<open>
  The event store accepts exactly the complete histories: a sequence of envelopes of a
  supported schema can be stored in a fresh ledger if and only if no event identifier occurs
  twice, the sequence numbers of every thread are \<open>1, 2, ...\<close> in order, and there are at
  most \<open>2^63 - 1\<close> of them.
\<close>

lemma event_store_accepts_exactly_complete_histories:
  assumes "port_codec_ok C X E" and "\<forall>env \<in> set es. storable E env"
  shows "(\<exists>db. port_append_all C X initialize_schema es = Ok db) \<longleftrightarrow> complete_history es"
proof
  assume "\<exists>db. port_append_all C X initialize_schema es = Ok db"
  then obtain db where "ledger_store.store_all C X initialize_schema es = Ok db" by (auto simp: port_append_all_eq)
  from store_all_holds [OF holds_nothing [OF assms(1)] assms(2) this]
  show "complete_history es" using holds_complete unfolding complete_history_def by fastforce
qed (use port_append_all_complete [OF assms(1)] assms(2) in blast)

lemma event_store_accepts_exactly_complete_histories_witness:
  "\<exists>db. port_append_all (list_codec (map en_event sample_conversation)) plain_externals initialize_schema
      sample_conversation = Ok db"
  using event_store_accepts_exactly_complete_histories [OF list_codec_ok sample_conversation_storable]
    sample_conversation_complete by blast

text \<open>
  One envelope of an unsupported schema makes its thread unreadable. The port stores an
  envelope without looking at its schema version, but refuses to load it: after such an
  \<open>append\<close> every \<open>load_thread\<close> of that thread fails, in this and in every later ledger.
\<close>

lemma unsupported_schema_blocks_thread:
  assumes wf: "ledger_wf db" and ok: "port_append C X db env = Ok db'"
    and bad: "\<not> accepts PROTOCOL_VERSION (en_schema_version env)"
    and later: "ledger_wf db''" "extends db' db''"
  shows "\<exists>e. port_load_thread C X db'' (en_thread_id env) 0 = Err e"
proof -
  obtain row where row: "ledger_event_of C X env = Ok row"
    and im: "import_with_duplicate_policy (cd_stored C) db row False = Ok db'"
    using ok by (auto simp: port_append_def rbind_eq_Inr)
  have sel: "le_thread_id row = uuid_str X (en_thread_id env)" "le_schema_version row = en_schema_version env"
    using row by (auto simp: ledger_event_of_def Let_def rbind_eq_Inr split: if_splits)
  have "row \<in> set (history db'')"
    using import_Ok [OF wf im] later(2) by (auto simp: extends_def)
  let ?rows = "map (row_to_event (cd_stored C)) (of_thread (uuid_str X (en_thread_id env)) (history db''))"
  let ?f = "\<lambda>ev. map_err ledger_port_error (envelope_of C ev)"
  have "row_to_event (cd_stored C) row \<in> set ?rows"
    using \<open>row \<in> set (history db'')\<close> sel(1) by (auto simp: of_thread_def)
  moreover have "\<not> is_ok (?f (row_to_event (cd_stored C) row))"
    using bad sel(2) by (simp add: envelope_of_def row_to_event_def)
  ultimately have "\<not> (\<exists>ys. list_all2 (\<lambda>x y. ?f x = Ok y) ?rows ys)"
    by (fastforce simp: list_all2_conv_all_nth in_set_conv_nth)
  then have "\<not> (\<exists>ys. collect_results ?f ?rows = Ok ys)" by (simp add: collect_results_Inr)
  then obtain e where "collect_results ?f ?rows = Err e" by (cases "collect_results ?f ?rows") auto
  then show ?thesis using later(1) by (simp add: port_load_thread_def replay_thread_wf)
qed

lemma unsupported_schema_blocks_thread_witness:
  "\<exists>db e. port_append (list_codec [ThreadArchived 2]) plain_externals initialize_schema
       ((sample_envelope 1 (ThreadArchived 2))\<lparr>en_schema_version := \<lparr>major = 3, minor = 0\<rparr>\<rparr>) = Ok db \<and>
     port_load_thread (list_codec [ThreadArchived 2]) plain_externals db 2 0 = Err e"
proof -
  let ?env = "(sample_envelope 1 (ThreadArchived 2))\<lparr>en_schema_version := \<lparr>major = 3, minor = 0\<rparr>\<rparr>"
  let ?C = "list_codec [ThreadArchived 2]"
  obtain row where row: "ledger_event_of ?C plain_externals ?env = Ok row"
    using ledger_event_of_total [OF list_codec_ok [of "[ThreadArchived 2]"], of ?env]
    by (auto simp: sample_envelope_def)
  then have "le_seq row = 1"
    by (auto simp: ledger_event_of_def Let_def rbind_eq_Inr sample_envelope_def split: if_splits)
  then have "import_with_duplicate_policy (cd_stored ?C) initialize_schema row False = Ok (push_row initialize_schema row)"
    using import_fresh [OF ledger_wf_empty, of row "cd_stored ?C" False]
    by (simp add: stored_ids_def next_seq_def of_thread_def i64_max_def)
  then have ok: "port_append ?C plain_externals initialize_schema ?env = Ok (push_row initialize_schema row)"
    and wf: "ledger_wf (push_row initialize_schema row)"
    using row import_Ok [OF ledger_wf_empty] by (auto simp: port_append_def)
  have "\<not> accepts PROTOCOL_VERSION (en_schema_version ?env)" by (simp add: accepts_def PROTOCOL_VERSION_def)
  from unsupported_schema_blocks_thread [OF ledger_wf_empty ok this wf extends_refl] ok show ?thesis
    by (auto simp: sample_envelope_def)
qed

text \<open>
  The listing agrees with the thread view. On a well-formed ledger the projection of all
  threads contains, for every thread with events, exactly the projection of that thread; its
  last sequence number is the number of the thread's events, and the turn it shows as active
  is one of its turns and not finished.
\<close>

lemma thread_listing_agrees_with_thread_view:
  assumes "ledger_wf db" and "of_thread t (history db) \<noteq> []"
  shows "\<exists>p. project_thread stored db t = Ok p \<and> bt_get (project_all stored db) t = Some p \<and>
    ptd_last_seq p = length (of_thread t (history db)) \<and>
    (\<forall>u. ptd_active_turn_id p = Some u \<longrightarrow>
       (\<exists>turn. bt_get (ptd_turns p) u = Some turn \<and> pt_finished_seq turn = None))"
proof -
  let ?es = "of_thread t (history db)"
  let ?p = "foldl apply_thread_event (projection_thread_new t) (map (row_to_event stored) ?es)"
  have "project_thread stored db t = Ok ?p"
    by (simp add: project_thread_def replay_thread_wf [OF assms(1)])
  moreover have "bt_get (project_all stored db) t = Some ?p"
    using assms(2) by (simp add: project_all_def all_events_wf [OF assms(1)] project_all_get of_thread_rows)
  moreover have "ptd_last_seq ?p = length ?es"
  proof -
    have "map le_seq ?es = [1..<Suc (length ?es)]" using assms(1) by (simp add: ledger_wf_def)
    then have "last (map le_seq ?es) = length ?es" using assms(2) by (cases ?es) simp_all
    then show ?thesis using assms(2) by (simp add: foldl_last_seq last_map)
  qed
  moreover have "active_ok ?p"
    by (rule active_ok_foldl) (simp add: active_ok_def projection_thread_new_def)
  ultimately show ?thesis unfolding active_ok_def by blast
qed

lemma thread_listing_agrees_with_thread_view_witness:
  "\<exists>p. project_thread (\<lambda>v. v) sample_ledger ''t'' = Ok p \<and>
     bt_get (project_all (\<lambda>v. v) sample_ledger) ''t'' = Some p \<and> ptd_last_seq p = 2"
proof -
  have "length (of_thread ''t'' (history sample_ledger)) = 2"
    by (simp add: sample_ledger_def Let_def of_thread_def sample_new_event_def)
  with thread_listing_agrees_with_thread_view [OF sample_ledger_wf, of "''t''" "\<lambda>v. v"]
  show ?thesis by fastforce
qed

end
