(* ===== verification/Tool_Call_Assembly.thy ===== *)
theory Tool_Call_Assembly
  imports Protocol_Types
begin

text \<open>
  Assembly of fragmented tool-call deltas (\<open>yeuxd/src/tool_calls.rs\<close>): the limits, the
  pending calls, \<open>push\<close> and \<open>finish\<close>. \<open>push\<close> mutates through \<open>&mut self\<close> before it
  may fail, so the model returns the assembler after the call with the result.

  The theorems bound the resources, also after a rejected delta, and show that the assembled
  calls depend only on the concatenation of the fragments and on the order in which the calls
  first appear. The JSON parser (\<open>serde_json::from_str\<close>) is the parameter \<open>parse\<close>;
  \<open>Panicked\<close> stands for a failing \<open>expect\<close>.
\<close>

section \<open>The assembler\<close>

record tool_call_limits =
  tl_max_calls :: nat
  tl_max_argument_bytes_per_call :: nat
  tl_max_argument_bytes_per_round :: nat

definition default_limits :: tool_call_limits where
  "default_limits =
     \<lparr>tl_max_calls = 32, tl_max_argument_bytes_per_call = 256 * 1024,
      tl_max_argument_bytes_per_round = 1024 * 1024\<rparr>"

record assembled_tool_call =
  at_call_id :: string
  at_name :: string
  at_arguments :: json

datatype assembly_error =
    MissingCallId
  | TooManyCalls nat
  | NameChanged string string string
  | MissingName string
  | CallArgumentsTooLarge string nat
  | RoundArgumentsTooLarge nat
  | InvalidJson string string
  | ArgumentsNotObject string
  | Panicked string

record pending_tool_call =
  pc_order :: nat
  pc_name :: string
  pc_arguments :: string

record tool_call_assembler =
  ta_limits :: tool_call_limits
  ta_calls :: "(string, pending_tool_call) btree_map"
  ta_next_order :: nat
  ta_total_argument_bytes :: nat

definition assembler_new :: "tool_call_limits \<Rightarrow> tool_call_assembler" where
  "assembler_new limits =
     \<lparr>ta_limits = limits, ta_calls = bt_empty, ta_next_order = 0, ta_total_argument_bytes = 0\<rparr>"

type_synonym push_result = "tool_call_assembler \<times> (assembly_error, unit) rust_result"

text \<open>The call is entered when its first delta arrives.\<close>

definition enter_call :: "tool_call_assembler \<Rightarrow> string \<Rightarrow> string \<Rightarrow> (assembly_error, tool_call_assembler) rust_result" where
  "enter_call a call name =
     (if bt_contains (ta_calls a) call then Ok a
      else if length (ta_calls a) \<ge> tl_max_calls (ta_limits a)
      then Err (TooManyCalls (tl_max_calls (ta_limits a)))
      else Ok (a\<lparr>ta_next_order := ta_next_order a + 1,
                 ta_calls := bt_insert (ta_calls a) call
                   \<lparr>pc_order = ta_next_order a, pc_name = name, pc_arguments = []\<rparr>\<rparr>))"

definition set_pending :: "tool_call_assembler \<Rightarrow> string \<Rightarrow> pending_tool_call \<Rightarrow> tool_call_assembler" where
  "set_pending a call p = a\<lparr>ta_calls := bt_insert (ta_calls a) call p\<rparr>"

definition named :: "pending_tool_call \<Rightarrow> string \<Rightarrow> pending_tool_call" where
  "named p name = (if name \<noteq> [] \<and> pc_name p = [] then p\<lparr>pc_name := name\<rparr> else p)"

definition append_delta :: "tool_call_assembler \<Rightarrow> string \<Rightarrow> pending_tool_call \<Rightarrow> string \<Rightarrow> push_result" where
  "append_delta a call p delta =
     (let delta_bytes = length delta in
      if saturating_add (length (pc_arguments p)) delta_bytes > tl_max_argument_bytes_per_call (ta_limits a)
      then (a, Err (CallArgumentsTooLarge call (tl_max_argument_bytes_per_call (ta_limits a))))
      else if saturating_add (ta_total_argument_bytes a) delta_bytes > tl_max_argument_bytes_per_round (ta_limits a)
      then (a, Err (RoundArgumentsTooLarge (tl_max_argument_bytes_per_round (ta_limits a))))
      else ((set_pending a call (p\<lparr>pc_arguments := pc_arguments p @ delta\<rparr>))
              \<lparr>ta_total_argument_bytes := ta_total_argument_bytes a + delta_bytes\<rparr>, Ok ()))"

definition push_delta :: "tool_call_assembler \<Rightarrow> string \<Rightarrow> string \<Rightarrow> string \<Rightarrow> push_result" where
  "push_delta a call name delta =
     (if call = [] then (a, Err MissingCallId)
      else case enter_call a call name of
        Inl e \<Rightarrow> (a, Err e)
      | Inr a1 \<Rightarrow>
          (case bt_get (ta_calls a1) call of
             None \<Rightarrow> (a1, Err (Panicked ''inserted above''))
           | Some p \<Rightarrow>
               if name \<noteq> [] \<and> pc_name p \<noteq> [] \<and> pc_name p \<noteq> name
               then (a1, Err (NameChanged call (pc_name p) name))
               else append_delta (set_pending a1 call (named p name)) call (named p name) delta))"

fun push :: "tool_call_assembler \<Rightarrow> model_event \<Rightarrow> push_result" where
  "push a (ToolCallDelta call name delta) = push_delta a call name delta"
| "push a _ = (a, Ok ())"

definition assembler_is_empty :: "tool_call_assembler \<Rightarrow> bool" where
  "assembler_is_empty a \<longleftrightarrow> ta_calls a = []"

type_synonym json_parser = "string \<Rightarrow> (string, json) rust_result"

definition finish_call ::
  "json_parser \<Rightarrow> string \<times> pending_tool_call \<Rightarrow> (assembly_error, assembled_tool_call) rust_result" where
  "finish_call parse e =
     (let call = fst e; p = snd e in
      if pc_name p = [] then Err (MissingName call)
      else
        rbind (if is_blank (pc_arguments p) then Ok (JObject [])
               else map_err (InvalidJson call) (parse (pc_arguments p))) (\<lambda>arguments.
        if \<not> json_is_object arguments then Err (ArgumentsNotObject call)
        else Ok \<lparr>at_call_id = call, at_name = pc_name p, at_arguments = arguments\<rparr>))"

definition finish :: "json_parser \<Rightarrow> tool_call_assembler \<Rightarrow> (assembly_error, assembled_tool_call list) rust_result" where
  "finish parse a = collect_results (finish_call parse) (sort_key (\<lambda>e. pc_order (snd e)) (ta_calls a))"

text \<open>A model round: the deltas are pushed until one is rejected.\<close>

fun push_all :: "tool_call_assembler \<Rightarrow> model_event list \<Rightarrow> push_result" where
  "push_all a [] = (a, Ok ())"
| "push_all a (ev # evs) =
     (case push a ev of (a', Inl e) \<Rightarrow> (a', Err e) | (a', Inr _) \<Rightarrow> push_all a' evs)"

section \<open>Resource bounds\<close>

definition argument_bytes :: "(string, pending_tool_call) btree_map \<Rightarrow> nat" where
  "argument_bytes m = (\<Sum>e\<leftarrow>m. length (pc_arguments (snd e)))"

definition within_limits :: "tool_call_assembler \<Rightarrow> bool" where
  "within_limits a \<longleftrightarrow>
     bt_wf (ta_calls a) \<and> length (ta_calls a) \<le> tl_max_calls (ta_limits a) \<and>
     (\<forall>c p. bt_get (ta_calls a) c = Some p \<longrightarrow>
        length (pc_arguments p) \<le> tl_max_argument_bytes_per_call (ta_limits a)) \<and>
     ta_total_argument_bytes a = argument_bytes (ta_calls a) \<and>
     ta_total_argument_bytes a \<le> tl_max_argument_bytes_per_round (ta_limits a)"

text \<open>Limits below \<open>usize::MAX\<close>, for which the saturating sum is exact.\<close>

definition limits_ok :: "tool_call_limits \<Rightarrow> bool" where
  "limits_ok l \<longleftrightarrow>
     tl_max_argument_bytes_per_call l < u64_max \<and> tl_max_argument_bytes_per_round l < u64_max"

lemma argument_bytes_insert:
  assumes "bt_wf m"
  shows "argument_bytes (bt_insert m k v) + (case bt_get m k of None \<Rightarrow> 0 | Some p \<Rightarrow> length (pc_arguments p)) =
    argument_bytes m + length (pc_arguments v)"
  using assms
proof (induction m)
  case Nil
  then show ?case by (simp add: argument_bytes_def)
next
  case (Cons e m)
  have wf: "bt_wf m" using Cons.prems by (simp add: bt_wf_def)
  have "bt_get m k = None" if "k < fst e"
  proof -
    have "k \<notin> fst ` set m" using that Cons.prems by (auto simp: bt_wf_def dest: order.strict_trans)
    then show ?thesis by (simp add: bt_get_def map_of_eq_None_iff)
  qed
  then show ?case using Cons.IH [OF wf]
    by (cases e) (auto simp: argument_bytes_def bt_get_def split: option.splits)
qed

lemma enter_call_Ok:
  assumes "within_limits a" and "enter_call a call name = Ok a1"
  shows "within_limits a1 \<and> ta_limits a1 = ta_limits a \<and> (\<exists>p. bt_get (ta_calls a1) call = Some p)"
proof (cases "bt_contains (ta_calls a) call")
  case True
  then show ?thesis using assms by (auto simp: enter_call_def bt_contains_def)
next
  case False
  let ?p = "\<lparr>pc_order = ta_next_order a, pc_name = name, pc_arguments = []\<rparr>"
  have wf: "bt_wf (ta_calls a)" using assms(1) by (simp add: within_limits_def)
  have a1: "a1 = a\<lparr>ta_next_order := ta_next_order a + 1, ta_calls := bt_insert (ta_calls a) call ?p\<rparr>"
    and few: "length (ta_calls a) < tl_max_calls (ta_limits a)"
    using assms(2) False by (auto simp: enter_call_def split: if_splits)
  have "argument_bytes (bt_insert (ta_calls a) call ?p) = argument_bytes (ta_calls a)"
    using argument_bytes_insert [OF wf, of call ?p] False by (simp add: bt_contains_def)
  then show ?thesis
    using assms(1) few length_bt_insert_new [OF wf False] by (auto simp: a1 within_limits_def)
qed

lemma set_pending_within:
  assumes "within_limits a" and "bt_get (ta_calls a) call = Some p" and "pc_arguments q = pc_arguments p"
  shows "within_limits (set_pending a call q)"
proof -
  have wf: "bt_wf (ta_calls a)" using assms(1) by (simp add: within_limits_def)
  have "length (bt_insert (ta_calls a) call q) = length (ta_calls a)"
    using length_bt_insert_old [OF wf] assms(2) by (simp add: bt_contains_def)
  moreover have "argument_bytes (bt_insert (ta_calls a) call q) = argument_bytes (ta_calls a)"
    using argument_bytes_insert [OF wf, of call q] assms(2,3) by simp
  ultimately show ?thesis using assms by (auto simp: set_pending_def within_limits_def)
qed

lemma append_delta_within:
  assumes "within_limits a" and "limits_ok (ta_limits a)" and "bt_get (ta_calls a) call = Some p"
    and "append_delta a call p delta = (a', r)"
  shows "within_limits a' \<and> ta_limits a' = ta_limits a"
proof (cases r)
  case (Inl e)
  then show ?thesis using assms by (auto simp: append_delta_def Let_def split: if_splits)
next
  case (Inr u)
  let ?q = "p\<lparr>pc_arguments := pc_arguments p @ delta\<rparr>"
  have wf: "bt_wf (ta_calls a)" using assms(1) by (simp add: within_limits_def)
  have a': "a' = (set_pending a call ?q)\<lparr>ta_total_argument_bytes := ta_total_argument_bytes a + length delta\<rparr>"
    and call: "length (pc_arguments p) + length delta \<le> tl_max_argument_bytes_per_call (ta_limits a)"
    and round: "ta_total_argument_bytes a + length delta \<le> tl_max_argument_bytes_per_round (ta_limits a)"
    using assms(2,4) Inr
    by (auto simp: append_delta_def Let_def limits_ok_def not_less [symmetric] saturating_add_gt split: if_splits)
  have "argument_bytes (bt_insert (ta_calls a) call ?q) = argument_bytes (ta_calls a) + length delta"
    using argument_bytes_insert [OF wf, of call ?q] assms(3) by simp
  moreover have "length (bt_insert (ta_calls a) call ?q) = length (ta_calls a)"
    using length_bt_insert_old [OF wf] assms(3) by (simp add: bt_contains_def)
  ultimately show ?thesis
    using assms(1,3) call round by (auto simp: a' set_pending_def within_limits_def)
qed

lemma push_delta_within:
  assumes "within_limits a" and "limits_ok (ta_limits a)" and "push_delta a call name delta = (a', r)"
  shows "within_limits a' \<and> ta_limits a' = ta_limits a"
proof (cases "enter_call a call name")
  case (Inl e)
  then show ?thesis using assms by (auto simp: push_delta_def split: if_splits)
next
  case (Inr a1)
  from enter_call_Ok [OF assms(1) Inr] obtain p where a1: "within_limits a1" "ta_limits a1 = ta_limits a"
      "bt_get (ta_calls a1) call = Some p" by blast
  let ?a2 = "set_pending a1 call (named p name)"
  have a2: "within_limits ?a2" "limits_ok (ta_limits ?a2)" "bt_get (ta_calls ?a2) call = Some (named p name)"
    using set_pending_within [OF a1(1,3)] a1(2) assms(2) by (auto simp: named_def set_pending_def)
  have "ta_limits ?a2 = ta_limits a" using a1(2) by (simp add: set_pending_def)
  with append_delta_within [OF a2, of delta a' r] assms a1 Inr show ?thesis
    by (auto simp: push_delta_def split: if_splits)
qed

lemma push_within:
  "within_limits a \<Longrightarrow> limits_ok (ta_limits a) \<Longrightarrow> push a ev = (a', r) \<Longrightarrow> within_limits a' \<and> ta_limits a' = ta_limits a"
  by (cases ev) (auto dest: push_delta_within)

lemma push_all_within:
  "within_limits a \<Longrightarrow> limits_ok (ta_limits a) \<Longrightarrow> push_all a evs = (a', r) \<Longrightarrow>
     within_limits a' \<and> ta_limits a' = ta_limits a"
proof (induction evs arbitrary: a)
  case (Cons ev evs)
  obtain a1 r1 where p: "push a ev = (a1, r1)" by fastforce
  with push_within [OF Cons.prems(1,2) p] Cons show ?case by (cases r1) auto
qed auto

section \<open>What is assembled\<close>

text \<open>The deltas of a round: call, name, fragment.\<close>

fun delta_of :: "model_event \<Rightarrow> (string \<times> string \<times> string) list" where
  "delta_of (ToolCallDelta call name delta) = [(call, name, delta)]"
| "delta_of _ = []"

definition deltas :: "model_event list \<Rightarrow> (string \<times> string \<times> string) list" where
  "deltas evs = concat (map delta_of evs)"

text \<open>The calls in the order of their first delta.\<close>

definition note_call :: "string list \<Rightarrow> string \<Rightarrow> string list" where
  "note_call seen c = (if c \<in> set seen then seen else seen @ [c])"

definition first_seen :: "(string \<times> string \<times> string) list \<Rightarrow> string list" where
  "first_seen ds = foldl note_call [] (map fst ds)"

definition fragments :: "string \<Rightarrow> (string \<times> string \<times> string) list \<Rightarrow> string" where
  "fragments c ds = concat (map (\<lambda>d. snd (snd d)) (filter (\<lambda>d. fst d = c) ds))"

text \<open>The first name of a call that is not empty.\<close>

definition first_name :: "string \<Rightarrow> (string \<times> string \<times> string) list \<Rightarrow> string" where
  "first_name c ds =
     (case find (\<lambda>d. fst d = c \<and> fst (snd d) \<noteq> []) ds of None \<Rightarrow> [] | Some d \<Rightarrow> fst (snd d))"

lemma first_seen_snoc: "first_seen (ds @ [d]) = note_call (first_seen ds) (fst d)"
  by (simp add: first_seen_def)

lemma first_name_snoc:
  "first_name c (ds @ [d]) =
     (if first_name c ds \<noteq> [] then first_name c ds else if fst d = c then fst (snd d) else [])"
proof -
  have f: "find P (xs @ ys) = (case find P xs of None \<Rightarrow> find P ys | Some x \<Rightarrow> Some x)" for P and xs ys :: "'a list"
    by (induction xs) auto
  have "find (\<lambda>d. fst d = c \<and> fst (snd d) \<noteq> []) ds = Some e \<Longrightarrow> fst (snd e) \<noteq> []" for e
    by (auto simp: find_Some_iff)
  then show ?thesis by (auto simp: first_name_def f split: option.splits)
qed

definition assembled_from :: "(string \<times> string \<times> string) list \<Rightarrow> tool_call_assembler \<Rightarrow> bool" where
  "assembled_from ds a \<longleftrightarrow>
     bt_wf (ta_calls a) \<and> distinct (first_seen ds) \<and> ta_next_order a = length (first_seen ds) \<and>
     (\<forall>c. bt_contains (ta_calls a) c \<longleftrightarrow> c \<in> set (first_seen ds)) \<and>
     (\<forall>c p. bt_get (ta_calls a) c = Some p \<longrightarrow>
        pc_order p < length (first_seen ds) \<and> first_seen ds ! pc_order p = c \<and>
        pc_arguments p = fragments c ds \<and> pc_name p = first_name c ds)"

lemma push_delta_Ok:
  assumes "push_delta a call name delta = (a', Ok ())"
  shows "\<exists>p. enter_call a call name = Ok (a\<lparr>ta_next_order := (if bt_contains (ta_calls a) call then ta_next_order a else ta_next_order a + 1),
        ta_calls := (if bt_contains (ta_calls a) call then ta_calls a
          else bt_insert (ta_calls a) call \<lparr>pc_order = ta_next_order a, pc_name = name, pc_arguments = []\<rparr>)\<rparr>) \<and>
     p = (case bt_get (ta_calls a) call of Some q \<Rightarrow> q
          | None \<Rightarrow> \<lparr>pc_order = ta_next_order a, pc_name = name, pc_arguments = []\<rparr>) \<and>
     (name = [] \<or> pc_name p = [] \<or> pc_name p = name) \<and>
     ta_next_order a' = (if bt_contains (ta_calls a) call then ta_next_order a else ta_next_order a + 1) \<and>
     (\<forall>c. bt_get (ta_calls a') c = (if c = call
        then Some ((named p name)\<lparr>pc_arguments := pc_arguments p @ delta\<rparr>) else bt_get (ta_calls a) c)) \<and>
     (bt_wf (ta_calls a) \<longrightarrow> bt_wf (ta_calls a'))"
proof -
  obtain a1 where a1: "enter_call a call name = Ok a1"
    using assms by (auto simp: push_delta_def split: if_splits sum.splits)
  have eq: "a1 = a\<lparr>ta_next_order := (if bt_contains (ta_calls a) call then ta_next_order a else ta_next_order a + 1),
        ta_calls := (if bt_contains (ta_calls a) call then ta_calls a
          else bt_insert (ta_calls a) call \<lparr>pc_order = ta_next_order a, pc_name = name, pc_arguments = []\<rparr>)\<rparr>"
    using a1 by (auto simp: enter_call_def split: if_splits)
  define p where "p = (case bt_get (ta_calls a) call of Some q \<Rightarrow> q
          | None \<Rightarrow> \<lparr>pc_order = ta_next_order a, pc_name = name, pc_arguments = []\<rparr>)"
  have get: "bt_get (ta_calls a1) call = Some p"
    by (auto simp: eq p_def bt_contains_def split: option.splits)
  have nm: "name = [] \<or> pc_name p = [] \<or> pc_name p = name"
    and ap: "append_delta (set_pending a1 call (named p name)) call (named p name) delta = (a', Ok ())"
    using assms a1 get by (auto simp: push_delta_def split: if_splits)
  have args: "pc_arguments (named p name) = pc_arguments p" by (simp add: named_def)
  have a': "a' = (set_pending (set_pending a1 call (named p name)) call ((named p name)\<lparr>pc_arguments := pc_arguments p @ delta\<rparr>))
      \<lparr>ta_total_argument_bytes := ta_total_argument_bytes a1 + length delta\<rparr>"
    using ap args by (auto simp: append_delta_def set_pending_def Let_def split: if_splits)
  show ?thesis
    using a1 nm unfolding p_def [symmetric]
    by (auto simp: a' eq set_pending_def bt_contains_def split: option.splits)
qed

lemma set_first_seen: "set (first_seen ds) = fst ` set ds"
  by (induction ds rule: rev_induct) (auto simp: first_seen_def note_call_def)

lemma unseen_call:
  assumes "c \<notin> set (first_seen ds)"
  shows "fragments c ds = []" and "first_name c ds = []"
proof -
  have none: "\<forall>d \<in> set ds. fst d \<noteq> c" using assms unfolding set_first_seen by (metis imageI)
  then show "fragments c ds = []" by (simp add: fragments_def filter_empty_conv)
  from none have "find (\<lambda>d. fst d = c \<and> fst (snd d) \<noteq> []) ds = None" by (auto simp: find_None_iff)
  then show "first_name c ds = []" by (simp add: first_name_def)
qed

lemma fragments_snoc: "fragments c (ds @ [d]) = fragments c ds @ (if fst d = c then snd (snd d) else [])"
  by (simp add: fragments_def)

lemma assembled_step:
  assumes inv: "assembled_from ds a" and ok: "push_delta a call name delta = (a', Ok ())"
  shows "assembled_from (ds @ [(call, name, delta)]) a'"
proof -
  let ?ds = "ds @ [(call, name, delta)]" and ?seen = "first_seen ds"
  obtain p where p: "p = (case bt_get (ta_calls a) call of Some q \<Rightarrow> q
          | None \<Rightarrow> \<lparr>pc_order = ta_next_order a, pc_name = name, pc_arguments = []\<rparr>)"
    and nm: "name = [] \<or> pc_name p = [] \<or> pc_name p = name"
    and ord: "ta_next_order a' = (if bt_contains (ta_calls a) call then ta_next_order a else ta_next_order a + 1)"
    and get: "\<forall>c. bt_get (ta_calls a') c = (if c = call
        then Some ((named p name)\<lparr>pc_arguments := pc_arguments p @ delta\<rparr>) else bt_get (ta_calls a) c)"
    and wf: "bt_wf (ta_calls a) \<longrightarrow> bt_wf (ta_calls a')"
    using push_delta_Ok [OF ok] by blast
  have known: "bt_contains (ta_calls a) call \<longleftrightarrow> call \<in> set ?seen" using inv by (simp add: assembled_from_def)
  have seen: "first_seen ?ds = note_call ?seen call" by (simp add: first_seen_snoc)
  have sub: "i < length ?seen \<Longrightarrow> first_seen ?ds ! i = ?seen ! i \<and> i < length (first_seen ?ds)" for i
    by (simp add: seen note_call_def nth_append)
  have new: "pc_order p < length (first_seen ?ds) \<and> first_seen ?ds ! pc_order p = call \<and>
      pc_arguments p = fragments call ds \<and> pc_name (named p name) = first_name call ?ds"
  proof (cases "bt_get (ta_calls a) call")
    case None
    then have un: "call \<notin> set ?seen" using known by (simp add: bt_contains_def)
    then show ?thesis
      using None p inv unseen_call [OF un]
      by (auto simp: seen note_call_def nth_append assembled_from_def first_name_snoc named_def)
  next
    case (Some q)
    then have q: "p = q" "pc_order q < length ?seen" "?seen ! pc_order q = call"
        "pc_arguments q = fragments call ds" "pc_name q = first_name call ds"
      using p inv by (auto simp: assembled_from_def)
    then show ?thesis using sub [OF q(2)] by (auto simp: first_name_snoc named_def)
  qed
  have other: "pc_order q < length (first_seen ?ds) \<and> first_seen ?ds ! pc_order q = c \<and>
      pc_arguments q = fragments c ?ds \<and> pc_name q = first_name c ?ds"
    if "c \<noteq> call" "bt_get (ta_calls a) c = Some q" for c q
  proof -
    have q: "pc_order q < length ?seen" "?seen ! pc_order q = c" "pc_arguments q = fragments c ds" "pc_name q = first_name c ds"
      using inv that(2) by (auto simp: assembled_from_def)
    then show ?thesis using sub [OF q(1)] that(1) by (auto simp: fragments_snoc first_name_snoc)
  qed
  have order: "pc_order (named p name) = pc_order p" by (simp add: named_def)
  have "\<forall>c. bt_contains (ta_calls a') c \<longleftrightarrow> c \<in> set (first_seen ?ds)"
    using inv get by (auto simp: bt_contains_def assembled_from_def seen note_call_def)
  moreover have "distinct (first_seen ?ds)" "ta_next_order a' = length (first_seen ?ds)"
    using inv ord known by (auto simp: seen note_call_def assembled_from_def)
  moreover have "\<forall>c q. bt_get (ta_calls a') c = Some q \<longrightarrow> pc_order q < length (first_seen ?ds) \<and>
      first_seen ?ds ! pc_order q = c \<and> pc_arguments q = fragments c ?ds \<and> pc_name q = first_name c ?ds"
    using get new other order by (auto simp: fragments_snoc)
  ultimately show ?thesis using inv wf by (simp add: assembled_from_def)
qed

lemma deltas_simps [simp]: "deltas [] = []" "deltas (ev # evs) = delta_of ev @ deltas evs"
  by (simp_all add: deltas_def)

lemma push_all_assembled:
  "assembled_from ds a \<Longrightarrow> push_all a evs = (a', Ok ()) \<Longrightarrow> assembled_from (ds @ deltas evs) a'"
proof (induction evs arbitrary: ds a)
  case (Cons ev evs)
  obtain a1 where p: "push a ev = (a1, Ok ())" and rest: "push_all a1 evs = (a', Ok ())"
    using Cons.prems(2) by (auto split: prod.splits sum.splits)
  have "assembled_from (ds @ delta_of ev) a1"
    using p Cons.prems(1) assembled_step by (cases ev) auto
  from Cons.IH [OF this rest] show ?case by simp
qed simp

text \<open>\<open>finish\<close> lists the calls in the order of their first delta.\<close>

lemma sorted_calls:
  assumes "assembled_from ds a"
  shows "sort_key (\<lambda>e. pc_order (snd e)) (ta_calls a) =
    map (\<lambda>c. (c, the (bt_get (ta_calls a) c))) (first_seen ds)"
proof -
  let ?f = "\<lambda>e :: string \<times> pending_tool_call. pc_order (snd e)"
  let ?m = "ta_calls a" and ?seen = "first_seen ds"
  let ?l = "map (\<lambda>c. (c, the (bt_get ?m c))) ?seen"
  have wf: "bt_wf ?m" and d: "distinct ?seen" using assms by (auto simp: assembled_from_def)
  have order: "pc_order p < length ?seen \<and> ?seen ! pc_order p = c" if "(c, p) \<in> set ?m" for c p
    using assms that bt_mem_get [OF wf] by (auto simp: assembled_from_def)
  have some: "\<exists>p. bt_get ?m c = Some p" if "c \<in> set ?seen" for c
    using assms that by (auto simp: assembled_from_def bt_contains_def)
  have set: "set ?l = set ?m"
  proof -
    have "(c, p) \<in> set ?m \<longleftrightarrow> c \<in> set ?seen \<and> p = the (bt_get ?m c)" for c p
      using bt_mem_get [OF wf] some assms by (auto simp: assembled_from_def bt_contains_def)
    then show ?thesis by auto
  qed
  have inj: "inj_on ?f (set ?m)"
  proof (rule inj_onI)
    fix x y assume "x \<in> set ?m" "y \<in> set ?m" "?f x = ?f y"
    then have "fst x = fst y" using order by (metis prod.collapse)
    then show "x = y" using \<open>x \<in> set ?m\<close> \<open>y \<in> set ?m\<close> bt_mem_get [OF wf] by (metis option.inject prod.collapse)
  qed
  have keys: "map ?f ?l = [0..<length ?seen]"
  proof (rule nth_equalityI)
    fix i assume "i < length (map ?f ?l)"
    then have i: "i < length ?seen" by simp
    then have "(?seen ! i, the (bt_get ?m (?seen ! i))) \<in> set ?m" using set by (metis (no_types, lifting) length_map nth_map nth_mem)
    from order [OF this] i d have "pc_order (the (bt_get ?m (?seen ! i))) = i" using nth_eq_iff_index_eq [OF d] by metis
    with i show "map ?f ?l ! i = [0..<length ?seen] ! i" by simp
  qed simp
  have "distinct (map ?f (sort_key ?f ?m))"
    using inj bt_wf_distinct [OF wf] by (simp add: distinct_map)
  moreover have "set (map ?f (sort_key ?f ?m)) = set (map ?f ?l)" using set by (simp only: set_map set_sort)
  moreover have "sorted (map ?f (sort_key ?f ?m))" by (rule sorted_sort_key)
  ultimately have "map ?f (sort_key ?f ?m) = [0..<length ?seen]"
    unfolding keys by (intro sorted_distinct_set_unique) simp_all
  then have "map ?f (sort_key ?f ?m) = map ?f ?l" using keys by simp
  moreover have "inj_on ?f (set (sort_key ?f ?m) \<union> set ?l)" using inj unfolding set by simp
  ultimately show ?thesis by (rule map_inj_on)
qed


lemma new_assembled: "assembled_from [] (assembler_new l)"
  by (simp add: assembled_from_def assembler_new_def first_seen_def bt_contains_def bt_empty_def bt_get_def bt_wf_def)

lemma new_within: "within_limits (assembler_new l)"
  by (simp add: within_limits_def assembler_new_def argument_bytes_def bt_empty_def bt_get_def bt_wf_def)

lemma collect_results_map: "collect_results f (map g xs) = collect_results (f \<circ> g) xs"
  by (induction xs) auto

lemma collect_results_cong:
  "(\<And>x. x \<in> set xs \<Longrightarrow> f x = g x) \<Longrightarrow> collect_results f xs = collect_results g xs"
  by (induction xs) auto

lemma finish_call_order:
  "finish_call parse (c, p) = finish_call parse (c, \<lparr>pc_order = k, pc_name = pc_name p, pc_arguments = pc_arguments p\<rparr>)"
  unfolding finish_call_def fst_conv snd_conv Let_def pending_tool_call.simps by (rule refl)

section \<open>Which rounds are accepted\<close>

definition round_bytes :: "(string \<times> string \<times> string) list \<Rightarrow> nat" where
  "round_bytes ds = (\<Sum>d\<leftarrow>ds. length (snd (snd d)))"

text \<open>A round that obeys the protocol and the limits, stated without the assembler.\<close>

definition acceptable :: "tool_call_limits \<Rightarrow> (string \<times> string \<times> string) list \<Rightarrow> bool" where
  "acceptable l ds \<longleftrightarrow>
     (\<forall>d \<in> set ds. fst d \<noteq> []) \<and>
     length (first_seen ds) \<le> tl_max_calls l \<and>
     (\<forall>d \<in> set ds. fst (snd d) = [] \<or> fst (snd d) = first_name (fst d) ds) \<and>
     (\<forall>c. length (fragments c ds) \<le> tl_max_argument_bytes_per_call l) \<and>
     round_bytes ds \<le> tl_max_argument_bytes_per_round l"

text \<open>What one more delta adds to the condition.\<close>

definition acceptable_step :: "tool_call_limits \<Rightarrow> (string \<times> string \<times> string) list \<Rightarrow> string \<times> string \<times> string \<Rightarrow> bool" where
  "acceptable_step l ds d \<longleftrightarrow>
     fst d \<noteq> [] \<and>
     (fst d \<in> set (first_seen ds) \<or> length (first_seen ds) < tl_max_calls l) \<and>
     (fst (snd d) = [] \<or> first_name (fst d) ds = [] \<or> first_name (fst d) ds = fst (snd d)) \<and>
     length (fragments (fst d) ds) + length (snd (snd d)) \<le> tl_max_argument_bytes_per_call l \<and>
     round_bytes ds + length (snd (snd d)) \<le> tl_max_argument_bytes_per_round l"

lemma named_delta:
  assumes "d \<in> set ds" and "fst (snd d) \<noteq> []" shows "first_name (fst d) ds \<noteq> []"
proof (cases "find (\<lambda>e. fst e = fst d \<and> fst (snd e) \<noteq> []) ds")
  case None
  then show ?thesis using assms by (metis (mono_tags, lifting) find_None_iff)
next
  case (Some e)
  then have "fst (snd e) \<noteq> []" by (auto simp: find_Some_iff)
  with Some show ?thesis by (simp add: first_name_def)
qed

lemma acceptable_snoc: "acceptable l (ds @ [d]) \<longleftrightarrow> acceptable l ds \<and> acceptable_step l ds d"
proof -
  have calls: "length (first_seen (ds @ [d])) \<le> tl_max_calls l \<longleftrightarrow>
      length (first_seen ds) \<le> tl_max_calls l \<and> (fst d \<in> set (first_seen ds) \<or> length (first_seen ds) < tl_max_calls l)"
    by (auto simp: first_seen_snoc note_call_def)
  have names: "(\<forall>e \<in> set (ds @ [d]). fst (snd e) = [] \<or> fst (snd e) = first_name (fst e) (ds @ [d])) \<longleftrightarrow>
      (\<forall>e \<in> set ds. fst (snd e) = [] \<or> fst (snd e) = first_name (fst e) ds) \<and>
      (fst (snd d) = [] \<or> first_name (fst d) ds = [] \<or> first_name (fst d) ds = fst (snd d))"
    using named_delta [of _ ds] by (auto simp: first_name_snoc)
  have sizes: "(\<forall>c. length (fragments c (ds @ [d])) \<le> n) \<longleftrightarrow>
      (\<forall>c. length (fragments c ds) \<le> n) \<and> length (fragments (fst d) ds) + length (snd (snd d)) \<le> n" for n
    by (auto simp: fragments_snoc dest: add_leD1)
  show ?thesis
    unfolding acceptable_def acceptable_step_def calls names sizes by (auto simp: round_bytes_def)
qed

lemma assembled_length:
  assumes "assembled_from ds a" shows "length (ta_calls a) = length (first_seen ds)"
  using sorted_calls [OF assms] by (metis length_map length_sort)

lemma push_delta_total:
  assumes "push_delta a call name delta = (a', Ok ())"
  shows "ta_total_argument_bytes a' = ta_total_argument_bytes a + length delta \<and> ta_limits a' = ta_limits a"
  using assms
  by (auto simp: push_delta_def enter_call_def append_delta_def set_pending_def Let_def
      split: if_splits sum.splits option.splits)

lemma named_length [simp]: "pc_arguments (named p name) = pc_arguments p"
  by (simp add: named_def)

lemma append_delta_accepts:
  assumes "limits_ok (ta_limits a)"
  shows "snd (append_delta a call p delta) = Ok () \<longleftrightarrow>
    length (pc_arguments p) + length delta \<le> tl_max_argument_bytes_per_call (ta_limits a) \<and>
    ta_total_argument_bytes a + length delta \<le> tl_max_argument_bytes_per_round (ta_limits a)"
  using assms
  by (auto simp: append_delta_def Let_def limits_ok_def saturating_add_gt not_less [symmetric])

lemma push_delta_accepts:
  assumes inv: "assembled_from ds a" and lim: "limits_ok (ta_limits a)"
    and total: "ta_total_argument_bytes a = round_bytes ds"
  shows "snd (push_delta a call name delta) = Ok () \<longleftrightarrow> acceptable_step (ta_limits a) ds (call, name, delta)"
proof (cases "bt_get (ta_calls a) call")
  case None
  then have un: "call \<notin> set (first_seen ds)" using inv by (metis assembled_from_def bt_contains_def)
  let ?p = "\<lparr>pc_order = ta_next_order a, pc_name = name, pc_arguments = []\<rparr>"
  let ?a1 = "a\<lparr>ta_next_order := ta_next_order a + 1, ta_calls := bt_insert (ta_calls a) call ?p\<rparr>"
  have enter: "enter_call a call name = (if length (first_seen ds) \<ge> tl_max_calls (ta_limits a)
      then Err (TooManyCalls (tl_max_calls (ta_limits a))) else Ok ?a1)"
    using None assembled_length [OF inv] by (simp add: enter_call_def bt_contains_def)
  have "snd (append_delta (set_pending ?a1 call (named ?p name)) call (named ?p name) delta) = Ok () \<longleftrightarrow>
      length delta \<le> tl_max_argument_bytes_per_call (ta_limits a) \<and>
      round_bytes ds + length delta \<le> tl_max_argument_bytes_per_round (ta_limits a)"
    using lim total by (subst append_delta_accepts) (simp_all add: set_pending_def)
  then show ?thesis
    using un unseen_call [OF un] by (auto simp: push_delta_def enter acceptable_step_def)
next
  case (Some p)
  then have p: "call \<in> set (first_seen ds)" "pc_arguments p = fragments call ds" "pc_name p = first_name call ds"
    using inv by (auto simp: assembled_from_def bt_contains_def)
  have enter: "enter_call a call name = Ok a" using Some by (simp add: enter_call_def bt_contains_def)
  have "snd (append_delta (set_pending a call (named p name)) call (named p name) delta) = Ok () \<longleftrightarrow>
      length (fragments call ds) + length delta \<le> tl_max_argument_bytes_per_call (ta_limits a) \<and>
      round_bytes ds + length delta \<le> tl_max_argument_bytes_per_round (ta_limits a)"
    using lim total p by (subst append_delta_accepts) (simp_all add: set_pending_def)
  then show ?thesis using p Some by (auto simp: push_delta_def enter acceptable_step_def)
qed

lemma acceptable_prefix: "acceptable l (ds @ es) \<Longrightarrow> acceptable l ds"
  by (induction es rule: rev_induct) (simp_all add: acceptable_snoc flip: append_assoc)

lemma push_all_accepts:
  assumes "assembled_from ds a" and "limits_ok (ta_limits a)" and "ta_total_argument_bytes a = round_bytes ds"
    and "acceptable (ta_limits a) ds"
  shows "snd (push_all a evs) = Ok () \<longleftrightarrow> acceptable (ta_limits a) (ds @ deltas evs)"
  using assms
proof (induction evs arbitrary: ds a)
  case (Cons ev evs)
  show ?case
  proof (cases ev)
    case (ToolCallDelta call name delta)
    let ?d = "(call, name, delta)"
    obtain a1 r where p: "push_delta a call name delta = (a1, r)" by fastforce
    note acc = push_delta_accepts [OF Cons.prems(1-3), of call name delta]
    show ?thesis
    proof (cases r)
      case (Inl e)
      then have "\<not> acceptable (ta_limits a) (ds @ [?d])" using acc p by (simp add: acceptable_snoc)
      then have "\<not> acceptable (ta_limits a) ((ds @ [?d]) @ deltas evs)" using acceptable_prefix by blast
      then show ?thesis using Inl p ToolCallDelta by simp
    next
      case (Inr u)
      then have ok: "push_delta a call name delta = (a1, Ok ())" using p by simp
      note lim = push_delta_total [OF ok]
      have "acceptable (ta_limits a) (ds @ [?d])" using acc Inr p Cons.prems(4) by (simp add: acceptable_snoc)
      then have "snd (push_all a1 evs) = Ok () \<longleftrightarrow> acceptable (ta_limits a1) ((ds @ [?d]) @ deltas evs)"
        using lim Cons.prems(2,3) assembled_step [OF Cons.prems(1) ok]
        by (intro Cons.IH) (simp_all add: round_bytes_def)
      then show ?thesis using Inr p ToolCallDelta lim by simp
    qed
  qed (use Cons in simp_all)
qed simp

section \<open>Properties\<close>

text \<open>
  Whatever events arrive, and also after a delta has been rejected, the assembler holds at
  most the allowed number of calls, each within the per-call limit; its byte counter is exactly
  the number of buffered argument bytes and stays within the limit of the round.
\<close>

lemma assembler_stays_within_limits:
  assumes "limits_ok l" and "push_all (assembler_new l) evs = (a, r)"
  shows "ta_limits a = l \<and> within_limits a"
  using push_all_within [OF new_within _ assms(2)] assms(1) by (auto simp: assembler_new_def)

text \<open>
  C33: A round is accepted exactly when it obeys the protocol and the limits: every delta names
  its call, no more than the allowed number of calls appear, the non-empty names of a call
  agree, and the concatenated arguments of each call and of the whole round fit.
\<close>

theorem round_accepted_iff_acceptable:
  assumes "limits_ok l"
  shows "snd (push_all (assembler_new l) evs) = Ok () \<longleftrightarrow> acceptable l (deltas evs)"
proof -
  have "acceptable l []" by (simp add: acceptable_def first_seen_def fragments_def round_bytes_def)
  then show ?thesis
    using push_all_accepts [OF new_assembled, of l evs] assms
    by (simp add: assembler_new_def round_bytes_def)
qed

text \<open>
  The calls of an accepted round are decoded in the order in which they first appeared, each
  from its first non-empty name and the concatenation of its fragments: neither the way the
  provider cuts the arguments nor the interleaving of calls matters.
\<close>

lemma calls_assembled_from_concatenated_fragments:
  assumes "push_all (assembler_new l) evs = (a, Ok ())"
  shows "finish parse a =
    collect_results (\<lambda>c. finish_call parse
      (c, \<lparr>pc_order = k, pc_name = first_name c (deltas evs), pc_arguments = fragments c (deltas evs)\<rparr>))
      (first_seen (deltas evs))"
proof -
  have inv: "assembled_from (deltas evs) a" using push_all_assembled [OF new_assembled assms] by simp
  have get: "pc_name p = first_name c (deltas evs) \<and> pc_arguments p = fragments c (deltas evs)"
    if "bt_get (ta_calls a) c = Some p" for c p using inv that by (auto simp: assembled_from_def)
  have some: "\<exists>p. bt_get (ta_calls a) c = Some p" if "c \<in> set (first_seen (deltas evs))" for c
    using inv that by (auto simp: assembled_from_def bt_contains_def)
  show ?thesis
    unfolding finish_def sorted_calls [OF inv] collect_results_map
  proof (rule collect_results_cong)
    fix c assume "c \<in> set (first_seen (deltas evs))"
    then obtain p where "bt_get (ta_calls a) c = Some p" using some by blast
    then show "(finish_call parse \<circ> (\<lambda>c. (c, the (bt_get (ta_calls a) c)))) c = finish_call parse
        (c, \<lparr>pc_order = k, pc_name = first_name c (deltas evs), pc_arguments = fragments c (deltas evs)\<rparr>)"
      using get [of c p] finish_call_order [of parse c p k] by simp
  qed
qed

section \<open>Witnesses\<close>

text \<open>Two interleaved calls, the first of them in two fragments.\<close>

definition sample_round :: "model_event list" where
  "sample_round =
     [ToolCallDelta ''b'' ''workspace.search'' ''[1'', ToolCallDelta ''a'' ''workspace.list'' [],
      ToolCallDelta ''b'' [] '']'']"

lemma sample_round_deltas:
  "deltas sample_round = [(''b'', ''workspace.search'', ''[1''), (''a'', ''workspace.list'', []), (''b'', [], '']'')]"
  by (simp add: sample_round_def)

definition one_call_limits :: tool_call_limits where
  "one_call_limits = \<lparr>tl_max_calls = 1, tl_max_argument_bytes_per_call = 9, tl_max_argument_bytes_per_round = 9\<rparr>"

lemmas round_eval =
  sample_round_def assembler_new_def push_delta_def enter_call_def set_pending_def named_def append_delta_def
  default_limits_def one_call_limits_def limits_ok_def saturating_add_def u64_max_def Let_def
  bt_empty_def bt_contains_def bt_get_def

lemma sample_limits_ok: "limits_ok default_limits" "limits_ok one_call_limits"
  by (simp_all add: round_eval)

lemma sample_round_accepted: "snd (push_all (assembler_new default_limits) sample_round) = Ok ()"
  by (simp add: round_eval)

lemma assembler_stays_within_limits_witness:
  "within_limits (fst (push_all (assembler_new default_limits) sample_round))"
  using assembler_stays_within_limits [OF sample_limits_ok(1) prod.collapse [symmetric]] by blast

theorem round_accepted_iff_acceptable_witness:
  "acceptable default_limits (deltas sample_round) \<and> \<not> acceptable one_call_limits (deltas sample_round)"
proof -
  have "snd (push_all (assembler_new one_call_limits) sample_round) \<noteq> Ok ()" by (simp add: round_eval)
  then show ?thesis using round_accepted_iff_acceptable sample_limits_ok sample_round_accepted by blast
qed

lemma calls_assembled_from_concatenated_fragments_witness:
  "finish (\<lambda>text. Ok (JObject [(text, JNull)])) (fst (push_all (assembler_new default_limits) sample_round)) =
     Ok [\<lparr>at_call_id = ''b'', at_name = ''workspace.search'', at_arguments = JObject [(''[1]'', JNull)]\<rparr>,
         \<lparr>at_call_id = ''a'', at_name = ''workspace.list'', at_arguments = JObject []\<rparr>]"
proof -
  obtain a where a: "push_all (assembler_new default_limits) sample_round = (a, Ok ())"
    using sample_round_accepted by (metis prod.collapse)
  show ?thesis
    unfolding a fst_conv
      calls_assembled_from_concatenated_fragments [OF a, of "\<lambda>text. Ok (JObject [(text, JNull)])" 0] sample_round_deltas
    by code_simp
qed

end
