(* ===== verification/Literal_Search.thy ===== *)
theory Literal_Search
  imports Tool_Registry "HOL-Library.Sublist"
begin

text \<open>
  The literal search of the workspace tools (\<open>yeux-runtime/src/workspace_tools.rs\<close>): the
  resource limits, the cooperative controls of a search with its operation budgets, and the
  Knuth-Morris-Pratt matcher.

  What a search observes of its surroundings is a parameter: the answers of the cancellation
  port and of the clock to the successive samples, and the operations that other searches
  charge to the shared budget between two charges of this one. A compare-and-exchange loop on
  the shared counter is one atomic step. A loop that the source bounds only by the data it
  builds is a partial function whose value \<open>None\<close> means that it does not end, and an index out
  of range is the value \<open>Panicked\<close>; the theorems show that neither occurs.
\<close>

section \<open>Limits\<close>

record workspace_tool_limits =
  wl_max_files :: nat
  wl_max_depth :: nat
  wl_max_file_bytes :: nat
  wl_max_scan_bytes :: nat
  wl_max_matches :: nat
  wl_max_output_bytes :: nat

definition WORKSPACE_TOOL_HARD_LIMITS :: workspace_tool_limits where
  "WORKSPACE_TOOL_HARD_LIMITS =
     \<lparr>wl_max_files = 10000, wl_max_depth = 32, wl_max_file_bytes = 1024 * 1024,
      wl_max_scan_bytes = 32 * 1024 * 1024, wl_max_matches = 1000, wl_max_output_bytes = 8 * 1024 * 1024\<rparr>"

definition MAX_QUERY_BYTES :: nat where "MAX_QUERY_BYTES = 4 * 1024"
definition SEARCH_CONTROL_CHECK_INTERVAL :: nat where "SEARCH_CONTROL_CHECK_INTERVAL = 1024"
definition SEARCH_OPERATION_MULTIPLIER :: nat where "SEARCH_OPERATION_MULTIPLIER = 4"

definition saturating_mul :: "nat \<Rightarrow> nat \<Rightarrow> nat" where
  "saturating_mul a b = min (a * b) u64_max"

definition WORKSPACE_SEARCH_HARD_OPERATION_LIMIT :: nat where
  "WORKSPACE_SEARCH_HARD_OPERATION_LIMIT =
     saturating_add (saturating_mul (wl_max_scan_bytes WORKSPACE_TOOL_HARD_LIMITS) SEARCH_OPERATION_MULTIPLIER)
       (saturating_mul MAX_QUERY_BYTES 2)"

definition validate_limit :: "string \<Rightarrow> nat \<Rightarrow> nat \<Rightarrow> (workspace_tool_error, unit) rust_result" where
  "validate_limit field v hard_max = (if v = 0 \<or> v > hard_max then Err (InvalidLimits field v hard_max) else Ok ())"

definition limits_try_new ::
  "nat \<Rightarrow> nat \<Rightarrow> nat \<Rightarrow> nat \<Rightarrow> nat \<Rightarrow> nat \<Rightarrow> (workspace_tool_error, workspace_tool_limits) rust_result" where
  "limits_try_new max_files max_depth max_file_bytes max_scan_bytes max_matches max_output_bytes =
     rbind (validate_limit ''max_files'' max_files (wl_max_files WORKSPACE_TOOL_HARD_LIMITS)) (\<lambda>_.
     rbind (validate_limit ''max_depth'' max_depth (wl_max_depth WORKSPACE_TOOL_HARD_LIMITS)) (\<lambda>_.
     rbind (validate_limit ''max_file_bytes'' max_file_bytes (wl_max_file_bytes WORKSPACE_TOOL_HARD_LIMITS)) (\<lambda>_.
     rbind (validate_limit ''max_scan_bytes'' max_scan_bytes (wl_max_scan_bytes WORKSPACE_TOOL_HARD_LIMITS)) (\<lambda>_.
     rbind (validate_limit ''max_matches'' max_matches (wl_max_matches WORKSPACE_TOOL_HARD_LIMITS)) (\<lambda>_.
     rbind (validate_limit ''max_output_bytes'' max_output_bytes (wl_max_output_bytes WORKSPACE_TOOL_HARD_LIMITS)) (\<lambda>_.
     Ok \<lparr>wl_max_files = max_files, wl_max_depth = max_depth, wl_max_file_bytes = max_file_bytes,
         wl_max_scan_bytes = max_scan_bytes, wl_max_matches = max_matches, wl_max_output_bytes = max_output_bytes\<rparr>))))))"

section \<open>Controls\<close>

text \<open>
  \<open>SearchOperationBudget\<close> is its limit; the counter is in the state below.
\<close>

definition search_budget_new :: "nat \<Rightarrow> nat" where
  "search_budget_new limit = min limit WORKSPACE_SEARCH_HARD_OPERATION_LIMIT"

record search_control =
  wc_cancellation :: "(nat \<Rightarrow> bool) option"
  wc_deadline :: "instant option"
  wc_max_operations :: "nat option"
  wc_shared_operation_budget :: "nat option"

definition control_new :: search_control where
  "control_new = \<lparr>wc_cancellation = None, wc_deadline = None, wc_max_operations = None, wc_shared_operation_budget = None\<rparr>"

definition with_cancellation :: "search_control \<Rightarrow> (nat \<Rightarrow> bool) \<Rightarrow> search_control" where
  "with_cancellation c f = c\<lparr>wc_cancellation := Some f\<rparr>"

definition with_deadline :: "search_control \<Rightarrow> instant \<Rightarrow> search_control" where
  "with_deadline c t = c\<lparr>wc_deadline := Some t\<rparr>"

definition with_operation_budget :: "search_control \<Rightarrow> nat \<Rightarrow> search_control" where
  "with_operation_budget c n = c\<lparr>wc_max_operations := Some n\<rparr>"

definition with_shared_operation_budget :: "search_control \<Rightarrow> nat \<Rightarrow> search_control" where
  "with_shared_operation_budget c limit = c\<lparr>wc_shared_operation_budget := Some limit\<rparr>"

text \<open>
  The surroundings: the clock at the \<open>n\<close>th sample and the operations of other searches before
  the \<open>n\<close>th charge.
\<close>

record search_world =
  wd_clock :: "nat \<Rightarrow> instant"
  wd_others :: "nat \<Rightarrow> nat"

text \<open>
  \<open>SearchProgress\<close>, together with the value of the shared counter and the numbers of samples
  and charges made so far.
\<close>

record search_progress =
  sp_operation_limit :: nat
  sp_operations :: nat
  sp_next_check :: nat
  sp_shared :: nat
  sp_samples :: nat
  sp_charges :: nat

definition progress_new :: "nat \<Rightarrow> search_progress \<Rightarrow> search_progress" where
  "progress_new operation_limit s = s\<lparr>sp_operation_limit := operation_limit, sp_operations := 0, sp_next_check := 0\<rparr>"

type_synonym progress_result = "search_progress \<times> (workspace_tool_error, unit) rust_result"

definition check_now :: "search_world \<Rightarrow> search_control \<Rightarrow> search_progress \<Rightarrow> progress_result" where
  "check_now W c s =
     (let n = sp_samples s; s' = s\<lparr>sp_samples := n + 1\<rparr> in
      if (case wc_cancellation c of Some is_cancelled \<Rightarrow> is_cancelled n | None \<Rightarrow> False) then (s', Err SearchCancelled)
      else if (case wc_deadline c of Some deadline \<Rightarrow> deadline \<le> wd_clock W n | None \<Rightarrow> False)
      then (s', Err SearchDeadlineExceeded)
      else (s', Ok ()))"

definition check :: "search_world \<Rightarrow> search_control \<Rightarrow> search_progress \<Rightarrow> progress_result" where
  "check W c s =
     (case check_now W c s of
        (s', Inl e) \<Rightarrow> (s', Err e)
      | (s', Inr _) \<Rightarrow>
          (s', if sp_operations s > sp_operation_limit s then Err (SearchBudgetExceeded (sp_operation_limit s)) else Ok ()))"

definition try_consume :: "search_world \<Rightarrow> nat \<Rightarrow> search_progress \<Rightarrow> search_progress \<times> bool" where
  "try_consume W limit s =
     (let current = sp_shared s + wd_others W (sp_charges s);
          s' = s\<lparr>sp_charges := sp_charges s + 1\<rparr> in
      if current \<ge> limit then (s'\<lparr>sp_shared := current\<rparr>, False) else (s'\<lparr>sp_shared := current + 1\<rparr>, True))"

definition consume_shared_operation :: "search_world \<Rightarrow> search_control \<Rightarrow> search_progress \<Rightarrow> progress_result" where
  "consume_shared_operation W c s =
     (case wc_shared_operation_budget c of
        None \<Rightarrow> (s, Ok ())
      | Some limit \<Rightarrow>
          (case try_consume W limit s of
             (s1, True) \<Rightarrow> (s1, Ok ())
           | (s1, False) \<Rightarrow>
               (case check_now W c s1 of
                  (s2, Inl e) \<Rightarrow> (s2, Err e)
                | (s2, Inr _) \<Rightarrow> (s2, Err (SearchBudgetExceeded limit)))))"

definition sample_if_due :: "search_world \<Rightarrow> search_control \<Rightarrow> search_progress \<Rightarrow> progress_result" where
  "sample_if_due W c s =
     (if sp_operations s \<ge> sp_next_check s
      then (case check W c s of
              (s', Inl e) \<Rightarrow> (s', Err e)
            | (s', Inr _) \<Rightarrow>
                (s'\<lparr>sp_next_check := min (saturating_add (sp_operations s) SEARCH_CONTROL_CHECK_INTERVAL)
                      (saturating_add (sp_operation_limit s) 1)\<rparr>, Ok ()))
      else (s, Ok ()))"

definition step :: "search_world \<Rightarrow> search_control \<Rightarrow> search_progress \<Rightarrow> progress_result" where
  "step W c s =
     (let s1 = s\<lparr>sp_operations := saturating_add (sp_operations s) 1\<rparr> in
      if sp_operations s1 > sp_operation_limit s1
      then (case check_now W c s1 of
              (s2, Inl e) \<Rightarrow> (s2, Err e)
            | (s2, Inr _) \<Rightarrow> (s2, Err (SearchBudgetExceeded (sp_operation_limit s1))))
      else (case consume_shared_operation W c s1 of
              (s2, Inl e) \<Rightarrow> (s2, Err e)
            | (s2, Inr _) \<Rightarrow> sample_if_due W c s2))"

definition derived_search_operation_limit :: "workspace_tool_limits \<Rightarrow> nat \<Rightarrow> nat option \<Rightarrow> nat" where
  "derived_search_operation_limit limits query_bytes requested =
     (let derived = max (saturating_add (saturating_mul (wl_max_scan_bytes limits) SEARCH_OPERATION_MULTIPLIER)
                           (saturating_mul query_bytes 2)) 1
      in case requested of None \<Rightarrow> derived | Some r \<Rightarrow> min r derived)"

section \<open>The matcher\<close>

datatype search_stop = Stop workspace_tool_error | Panicked

type_synonym 'a search_result = "search_progress \<times> (search_stop, 'a) rust_result"

text \<open>The loop of \<open>LiteralMatcher::new\<close>.\<close>

partial_function (option) prefix_loop ::
  "search_world \<Rightarrow> search_control \<Rightarrow> string \<Rightarrow> nat list \<Rightarrow> nat \<Rightarrow> nat \<Rightarrow> search_progress \<Rightarrow> (nat list) search_result option" where
  "prefix_loop W c needle table index matched s =
     (if index < length needle
      then (case step W c s of
              (s1, Inl e) \<Rightarrow> Some (s1, Err (Stop e))
            | (s1, Inr _) \<Rightarrow>
                if length needle \<le> matched then Some (s1, Err Panicked)
                else if needle ! index = needle ! matched
                then prefix_loop W c needle (table[index := matched + 1]) (index + 1) (matched + 1) s1
                else if matched > 0
                then (if length table \<le> matched - 1 then Some (s1, Err Panicked)
                      else prefix_loop W c needle table index (table ! (matched - 1)) s1)
                else prefix_loop W c needle table (index + 1) matched s1)
      else Some (s, Ok table))"

record literal_matcher =
  lm_needle :: string
  lm_prefix :: "nat list"

definition matcher_new ::
  "search_world \<Rightarrow> search_control \<Rightarrow> string \<Rightarrow> search_progress \<Rightarrow> literal_matcher search_result option" where
  "matcher_new W c needle s =
     map_option (\<lambda>(s', r). (s', rbind r (\<lambda>table. Ok \<lparr>lm_needle = needle, lm_prefix = table\<rparr>)))
       (prefix_loop W c needle (replicate (length needle) 0) 1 0 s)"

text \<open>The inner loop of \<open>collect\<close>: fall back while the byte does not continue the match.\<close>

partial_function (option) fall_back ::
  "search_world \<Rightarrow> search_control \<Rightarrow> literal_matcher \<Rightarrow> char \<Rightarrow> nat \<Rightarrow> search_progress \<Rightarrow> nat search_result option" where
  "fall_back W c lm b matched s =
     (if matched > 0 \<and> length (lm_needle lm) \<le> matched then Some (s, Err Panicked)
      else if matched > 0 \<and> b \<noteq> lm_needle lm ! matched
      then (case step W c s of
              (s1, Inl e) \<Rightarrow> Some (s1, Err (Stop e))
            | (s1, Inr _) \<Rightarrow>
                if length (lm_prefix lm) \<le> matched - 1 then Some (s1, Err Panicked)
                else fall_back W c lm b (lm_prefix lm ! (matched - 1)) s1)
      else Some (s, Ok matched))"

record position_cursor =
  pc_position :: nat
  pc_line :: nat
  pc_line_start :: nat

function advance ::
  "search_world \<Rightarrow> search_control \<Rightarrow> string \<Rightarrow> nat \<Rightarrow> position_cursor \<Rightarrow> search_progress \<Rightarrow> position_cursor search_result" where
  "advance W c haystack match_offset p s =
     (if pc_position p < match_offset
      then (case step W c s of
              (s1, Inl e) \<Rightarrow> (s1, Err (Stop e))
            | (s1, Inr _) \<Rightarrow>
                if length haystack \<le> pc_position p then (s1, Err Panicked)
                else advance W c haystack match_offset
                  (if haystack ! pc_position p = CHR 0x0A
                   then \<lparr>pc_position = pc_position p + 1, pc_line = saturating_add (pc_line p) 1,
                         pc_line_start = pc_position p + 1\<rparr>
                   else p\<lparr>pc_position := pc_position p + 1\<rparr>) s1)
      else (s, Ok p))"
  by auto
termination by (relation "measure (\<lambda>(W, c, haystack, match_offset, p, s). match_offset - pc_position p)") auto

definition match_value :: "string \<Rightarrow> nat \<Rightarrow> nat \<Rightarrow> nat \<Rightarrow> json" where
  "match_value path byte_offset line column = JObject
     [(''byte_offset'', JNumber (PosInt byte_offset)), (''column'', JNumber (PosInt column)),
      (''line'', JNumber (PosInt line)), (''path'', JString path)]"

text \<open>One complete match: the controls come before the limit of matches.\<close>

definition report_match ::
  "search_world \<Rightarrow> search_control \<Rightarrow> string \<Rightarrow> string \<Rightarrow> nat \<Rightarrow> nat \<Rightarrow> json list \<Rightarrow> position_cursor \<Rightarrow> search_progress \<Rightarrow>
   (json list \<times> position_cursor) search_result" where
  "report_match W c haystack path limit match_offset output p s =
     (case check W c s of
        (s1, Inl e) \<Rightarrow> (s1, Err (Stop e))
      | (s1, Inr _) \<Rightarrow>
          if length output \<ge> limit then (s1, Err (Stop (MatchLimit limit)))
          else (case advance W c haystack match_offset p s1 of
                  (s2, Inl e) \<Rightarrow> (s2, Err e)
                | (s2, Inr p') \<Rightarrow>
                    (s2, Ok (output @ [match_value path match_offset (pc_line p') (match_offset - pc_line_start p' + 1)], p'))))"

fun collect_loop ::
  "search_world \<Rightarrow> search_control \<Rightarrow> literal_matcher \<Rightarrow> string \<Rightarrow> string \<Rightarrow> nat \<Rightarrow> nat \<Rightarrow> string \<Rightarrow> nat \<Rightarrow> json list \<Rightarrow>
   position_cursor \<Rightarrow> search_progress \<Rightarrow> (json list) search_result option" where
  "collect_loop W c lm haystack path limit offset [] matched output p s = Some (s, Ok output)"
| "collect_loop W c lm haystack path limit offset (b # rest) matched output p s =
     (case step W c s of
        (s1, Inl e) \<Rightarrow> Some (s1, Err (Stop e))
      | (s1, Inr _) \<Rightarrow>
          (case fall_back W c lm b matched s1 of
             None \<Rightarrow> None
           | Some (s2, Inl e) \<Rightarrow> Some (s2, Err e)
           | Some (s2, Inr m) \<Rightarrow>
               if length (lm_needle lm) \<le> m then Some (s2, Err Panicked)
               else if b \<noteq> lm_needle lm ! m
               then collect_loop W c lm haystack path limit (offset + 1) rest m output p s2
               else if m + 1 < length (lm_needle lm)
               then collect_loop W c lm haystack path limit (offset + 1) rest (m + 1) output p s2
               else (case report_match W c haystack path limit (offset + 1 - length (lm_needle lm)) output p s2 of
                       (s3, Inl e) \<Rightarrow> Some (s3, Err e)
                     | (s3, Inr (output', p')) \<Rightarrow>
                         if length (lm_prefix lm) \<le> m then Some (s3, Err Panicked)
                         else collect_loop W c lm haystack path limit (offset + 1) rest (lm_prefix lm ! m) output' p' s3)))"

definition collect ::
  "search_world \<Rightarrow> search_control \<Rightarrow> literal_matcher \<Rightarrow> string \<Rightarrow> string \<Rightarrow> json list \<Rightarrow> nat \<Rightarrow> search_progress \<Rightarrow>
   (json list) search_result option" where
  "collect W c lm haystack path output limit s =
     (if lm_needle lm = [] then Some (s, Ok output)
      else if length haystack < length (lm_needle lm)
      then (case check W c s of
              (s1, Inl e) \<Rightarrow> Some (s1, Err (Stop e))
            | (s1, Inr _) \<Rightarrow> Some (s1, Ok output))
      else collect_loop W c lm haystack path limit 0 haystack 0 output
             \<lparr>pc_position = 0, pc_line = 1, pc_line_start = 0\<rparr> s)"

section \<open>Borders\<close>

text \<open>\<open>fits p k t\<close>: the first \<open>k\<close> elements of the pattern end the text.\<close>

definition fits :: "'a list \<Rightarrow> nat \<Rightarrow> 'a list \<Rightarrow> bool" where
  "fits p k t \<longleftrightarrow> k \<le> length p \<and> suffix (take k p) t"

lemma fits_0 [simp]: "fits p 0 t"
  by (simp add: fits_def)

lemma fits_length: "fits p k t \<Longrightarrow> k \<le> length t"
  by (auto simp: fits_def dest: suffix_length_le)

lemma fits_snoc: "fits p (Suc k) (t @ [b]) \<longleftrightarrow> k < length p \<and> p ! k = b \<and> fits p k t"
  by (auto simp: fits_def take_Suc_conv_app_nth Suc_le_eq)

lemma fits_shorter: "fits p k t \<Longrightarrow> fits p j t \<Longrightarrow> j \<le> k \<Longrightarrow> fits p j (take k p)"
  using suffix_length_suffix [of "take j p" t "take k p"] by (simp add: fits_def)

lemma fits_trans: "fits p j (take k p) \<Longrightarrow> fits p k t \<Longrightarrow> fits p j t"
  unfolding fits_def using suffix_order.trans by blast

text \<open>The failure table: the longest proper border of every prefix of the pattern.\<close>

definition table_ok :: "'a list \<Rightarrow> nat list \<Rightarrow> nat \<Rightarrow> bool" where
  "table_ok p table n \<longleftrightarrow> length table = length p \<and>
     (\<forall>i < n. table ! i \<le> i \<and> fits p (table ! i) (take (Suc i) p) \<and>
        (\<forall>k \<le> i. fits p k (take (Suc i) p) \<longrightarrow> k \<le> table ! i))"

lemma table_okD:
  assumes "table_ok p table n" "0 < m" "m \<le> n"
  shows "table ! (m - 1) < m" "fits p (table ! (m - 1)) (take m p)"
    "\<And>k. k < m \<Longrightarrow> fits p k (take m p) \<Longrightarrow> k \<le> table ! (m - 1)"
proof -
  obtain j where m: "m = Suc j" "j < n" using assms(2,3) by (cases m) auto
  with assms(1) have "table ! j \<le> j \<and> fits p (table ! j) (take (Suc j) p) \<and> (\<forall>k \<le> j. fits p k (take (Suc j) p) \<longrightarrow> k \<le> table ! j)"
    by (simp add: table_ok_def)
  then show "table ! (m - 1) < m" "fits p (table ! (m - 1)) (take m p)"
    "\<And>k. k < m \<Longrightarrow> fits p k (take m p) \<Longrightarrow> k \<le> table ! (m - 1)" using m by auto
qed

definition build_inv :: "'a list \<Rightarrow> nat list \<Rightarrow> nat \<Rightarrow> nat \<Rightarrow> bool" where
  "build_inv p table i m \<longleftrightarrow> table_ok p table i \<and> m < i \<and> fits p m (take i p) \<and>
     (\<forall>j. i \<le> j \<longrightarrow> j < length p \<longrightarrow> table ! j = 0) \<and>
     (i < length p \<longrightarrow> (\<forall>k < i. m < k \<longrightarrow> fits p k (take i p) \<longrightarrow> p ! k \<noteq> p ! i))"

lemma take_snoc: "i < length p \<Longrightarrow> take (Suc i) p = take i p @ [p ! i]"
  by (simp add: take_Suc_conv_app_nth)

lemma build_start: "p \<noteq> [] \<Longrightarrow> build_inv p (replicate (length p) 0) 1 0"
  by (auto simp: build_inv_def table_ok_def)

text \<open>The next entry of the table, from the longest candidate that can be extended.\<close>

lemma build_next:
  assumes inv: "build_inv p table i m" and i: "i < length p"
    and new: "n \<le> i" "fits p n (take (Suc i) p)" "\<And>k. k \<le> i \<Longrightarrow> fits p k (take (Suc i) p) \<Longrightarrow> k \<le> n"
  shows "build_inv p (table[i := n]) (Suc i) n"
proof -
  have len: "length table = length p" using inv by (simp add: build_inv_def table_ok_def)
  have "table_ok p (table[i := n]) (Suc i)"
    using inv i new len by (auto simp: build_inv_def table_ok_def nth_list_update less_Suc_eq)
  then show ?thesis
    using inv i new len by (fastforce simp: build_inv_def nth_list_update less_Suc_eq_le)
qed

lemma build_match:
  assumes "build_inv p table i m" "i < length p" "p ! i = p ! m"
  shows "build_inv p (table[i := Suc m]) (Suc i) (Suc m)"
proof (rule build_next [OF assms(1,2)])
  show "Suc m \<le> i" using assms by (auto simp: build_inv_def)
  show "fits p (Suc m) (take (Suc i) p)" using assms by (auto simp: build_inv_def take_snoc fits_snoc)
  show "k \<le> Suc m" if "k \<le> i" "fits p k (take (Suc i) p)" for k
  proof (cases k)
    case (Suc j)
    with that assms have "fits p j (take i p)" "p ! j = p ! i" "j < i" by (auto simp: take_snoc fits_snoc)
    then have "\<not> m < j" using assms by (auto simp: build_inv_def)
    then show ?thesis using Suc by simp
  qed simp
qed

lemma build_skip:
  assumes "build_inv p table i 0" "i < length p" "p ! i \<noteq> p ! 0"
  shows "build_inv p table (Suc i) 0"
proof -
  have "table[i := 0] = table"
    using assms by (metis build_inv_def le_refl list_update_id)
  moreover have "build_inv p (table[i := 0]) (Suc i) 0"
  proof (rule build_next [OF assms(1,2)])
    show "k \<le> 0" if "k \<le> i" "fits p k (take (Suc i) p)" for k
    proof (cases k)
      case (Suc j)
      with that assms have "fits p j (take i p)" "p ! j = p ! i" "j < i" by (auto simp: take_snoc fits_snoc)
      then show ?thesis using assms by (cases j) (auto simp: build_inv_def)
    qed simp
  qed auto
  ultimately show ?thesis by simp
qed

lemma build_fall:
  assumes "build_inv p table i m" "i < length p" "p ! i \<noteq> p ! m" "0 < m"
  shows "build_inv p table i (table ! (m - 1)) \<and> table ! (m - 1) < m"
proof -
  have m: "m < i" "fits p m (take i p)" "table_ok p table i" using assms(1) by (auto simp: build_inv_def)
  note t = table_okD [OF m(3) assms(4) less_imp_le [OF m(1)]]
  have "p ! k \<noteq> p ! i" if "k < i" "table ! (m - 1) < k" "fits p k (take i p)" for k
  proof (cases "m \<le> k")
    case True
    then show ?thesis using that assms by (cases "k = m") (auto simp: build_inv_def)
  next
    case False
    then show ?thesis using t(3) [of k] fits_shorter [OF m(2) that(3)] that(2) by simp
  qed
  then show ?thesis
    using assms m t fits_trans [OF t(2) m(2)] by (auto simp: build_inv_def)
qed

text \<open>The state of the search: the longest proper prefix of the pattern that ends the text read so far.\<close>

definition search_inv :: "'a list \<Rightarrow> 'a list \<Rightarrow> nat \<Rightarrow> bool" where
  "search_inv p t m \<longleftrightarrow> m < length p \<and> fits p m t \<and> (\<forall>k < length p. fits p k t \<longrightarrow> k \<le> m)"

definition fall_inv :: "'a list \<Rightarrow> 'a list \<Rightarrow> 'a \<Rightarrow> nat \<Rightarrow> bool" where
  "fall_inv p t b m \<longleftrightarrow> m < length p \<and> fits p m t \<and> (\<forall>k < length p. m < k \<longrightarrow> fits p k t \<longrightarrow> p ! k \<noteq> b)"

lemma search_fall: "search_inv p t m \<Longrightarrow> fall_inv p t b m"
  by (auto simp: search_inv_def fall_inv_def)

lemma fall_step:
  assumes "fall_inv p t b m" "0 < m" "b \<noteq> p ! m" "table_ok p table (length p)"
  shows "fall_inv p t b (table ! (m - 1)) \<and> table ! (m - 1) < m"
proof -
  have m: "m < length p" "fits p m t" using assms(1) by (auto simp: fall_inv_def)
  note t = table_okD [OF assms(4,2) less_imp_le [OF m(1)]]
  have "p ! k \<noteq> b" if "k < length p" "table ! (m - 1) < k" "fits p k t" for k
  proof (cases "m \<le> k")
    case True
    then show ?thesis using that assms by (cases "k = m") (auto simp: fall_inv_def)
  next
    case False
    then show ?thesis using t(3) [of k] fits_shorter [OF m(2) that(3)] that(2) by simp
  qed
  then show ?thesis using m t fits_trans [OF t(2) m(2)] by (auto simp: fall_inv_def)
qed

lemma search_miss:
  assumes "fall_inv p t b 0" "b \<noteq> p ! 0"
  shows "search_inv p (t @ [b]) 0 \<and> \<not> fits p (length p) (t @ [b])"
proof -
  have no: "\<not> fits p (Suc k) (t @ [b])" for k
    using assms by (cases k) (auto simp: fits_snoc fall_inv_def)
  have "k = 0" if "fits p k (t @ [b])" for k using that no by (cases k) auto
  then show ?thesis using assms no [of "length p - 1"] by (auto simp: search_inv_def fall_inv_def)
qed

lemma search_hit:
  assumes "fall_inv p t b m" "b = p ! m" "Suc m < length p"
  shows "search_inv p (t @ [b]) (Suc m) \<and> \<not> fits p (length p) (t @ [b])"
proof -
  have le: "k \<le> Suc m" if "fits p k (t @ [b])" for k
  proof (cases k)
    case (Suc j)
    with that have j: "j < length p" "p ! j = b" "fits p j t" by (auto simp: fits_snoc)
    then have "\<not> m < j" using assms by (auto simp: fall_inv_def)
    then show ?thesis using Suc by simp
  qed simp
  have "fits p (Suc m) (t @ [b])" using assms by (auto simp: fits_snoc fall_inv_def)
  moreover have "\<not> fits p (length p) (t @ [b])" using le [of "length p"] assms(3) by auto
  ultimately show ?thesis using le assms(3) by (simp add: search_inv_def)
qed

lemma search_full:
  assumes "fall_inv p t b m" "b = p ! m" "Suc m = length p" "table_ok p table (length p)"
  shows "search_inv p (t @ [b]) (table ! m) \<and> fits p (length p) (t @ [b]) \<and> table ! m \<le> m"
proof -
  have full: "fits p (length p) (t @ [b])" using assms fits_snoc [of p m t b] by (auto simp: fall_inv_def)
  have pos: "0 < length p" and m: "length p - 1 = m" using assms(3) by auto
  note t = table_okD [OF assms(4) pos order_refl, unfolded m]
  have "k \<le> table ! m" if "k < length p" "fits p k (t @ [b])" for k
    using t(3) [OF that(1)] fits_shorter [OF full that(2)] that(1) by simp
  then show ?thesis
    using t(1,2) full fits_trans [OF t(2) full] assms(3) by (simp add: search_inv_def)
qed

section \<open>Operations of a search\<close>

definition quiet :: "search_control \<Rightarrow> bool" where
  "quiet c \<longleftrightarrow> wc_cancellation c = None \<and> wc_deadline c = None \<and> wc_shared_operation_budget c = None"

definition in_budget :: "search_progress \<Rightarrow> bool" where
  "in_budget s \<longleftrightarrow> sp_operations s \<le> sp_operation_limit s"

lemma check_now_progress:
  "check_now W c s = (s', r) \<Longrightarrow> s' = s\<lparr>sp_samples := sp_samples s + 1\<rparr> \<and> (quiet c \<longrightarrow> r = Ok ())"
  by (auto simp: check_now_def Let_def quiet_def split: if_splits)

lemma check_progress:
  assumes "check W c s = (s', r)"
  shows "sp_operation_limit s' = sp_operation_limit s \<and> sp_operations s' = sp_operations s \<and>
    (quiet c \<longrightarrow> in_budget s \<longrightarrow> r = Ok ())"
proof -
  obtain s1 r1 where "check_now W c s = (s1, r1)" by (cases "check_now W c s")
  with assms check_now_progress [OF this] show ?thesis
    by (auto simp: check_def in_budget_def split: sum.splits if_splits)
qed

lemma consume_progress:
  assumes "consume_shared_operation W c s = (s', r)"
  shows "sp_operation_limit s' = sp_operation_limit s \<and> sp_operations s' = sp_operations s \<and> (quiet c \<longrightarrow> r = Ok ())"
proof (cases "wc_shared_operation_budget c")
  case None
  then show ?thesis using assms by (auto simp: consume_shared_operation_def)
next
  case (Some limit)
  obtain s1 b where tc: "try_consume W limit s = (s1, b)" by (cases "try_consume W limit s")
  then have "sp_operation_limit s1 = sp_operation_limit s \<and> sp_operations s1 = sp_operations s"
    by (auto simp: try_consume_def Let_def split: if_splits)
  moreover obtain s2 r2 where "check_now W c s1 = (s2, r2)" by (cases "check_now W c s1")
  ultimately show ?thesis
    using assms Some tc check_now_progress [of W c s1 s2 r2]
    by (auto simp: consume_shared_operation_def quiet_def split: sum.splits bool.splits)
qed

lemma step_progress:
  assumes "step W c s = (s', r)"
  shows "sp_operation_limit s' = sp_operation_limit s \<and> sp_operations s' \<le> sp_operations s + 1 \<and>
    (r = Ok () \<longrightarrow> in_budget s') \<and> (quiet c \<longrightarrow> r = Ok () \<or> sp_operation_limit s \<le> sp_operations s)"
proof -
  let ?s = "s\<lparr>sp_operations := saturating_add (sp_operations s) 1\<rparr>"
  have le: "sp_operations ?s \<le> sp_operations s + 1" using saturating_add_le [of _ 1] by simp
  show ?thesis
  proof (cases "sp_operation_limit s < sp_operations ?s")
    case True
    obtain s2 r2 where "check_now W c ?s = (s2, r2)" by (cases "check_now W c ?s")
    with True assms le check_now_progress [OF this] show ?thesis
      by (auto simp: step_def Let_def split: sum.splits)
  next
    case False
    obtain s2 r2 where con: "consume_shared_operation W c ?s = (s2, r2)" by (cases "consume_shared_operation W c ?s")
    note c2 = consume_progress [OF con]
    obtain s3 r3 where chk: "check W c s2 = (s3, r3)" by (cases "check W c s2")
    note c3 = check_progress [OF chk]
    show ?thesis
      using assms False le con c2 chk c3
      by (auto simp: step_def sample_if_due_def Let_def in_budget_def split: sum.splits if_splits)
  qed
qed

text \<open>
  What a part of the search does from the state \<open>s\<close>: it never panics, it uses at most \<open>n\<close>
  operations, and without interference it fails only for \<open>F\<close> or beyond the operation limit.
\<close>

definition search_ok ::
  "search_control \<Rightarrow> search_progress \<Rightarrow> nat \<Rightarrow> (workspace_tool_error \<Rightarrow> bool) \<Rightarrow> ('a \<Rightarrow> nat \<Rightarrow> bool) \<Rightarrow> 'a search_result \<Rightarrow> bool" where
  "search_ok c s n F Q res \<longleftrightarrow>
     sp_operation_limit (fst res) = sp_operation_limit s \<and>
     (case snd res of
        Inr x \<Rightarrow> in_budget (fst res) \<and> (\<exists>k \<le> n. sp_operations (fst res) \<le> sp_operations s + k \<and> Q x k)
      | Inl Panicked \<Rightarrow> False
      | Inl (Stop e) \<Rightarrow> quiet c \<longrightarrow> F e \<or> sp_operation_limit s < sp_operations s + n)"

lemma search_okI: "in_budget s \<Longrightarrow> Q x 0 \<Longrightarrow> search_ok c s n F Q (s, Ok x)"
  by (auto simp: search_ok_def)

lemma search_ok_after:
  assumes "search_ok c s1 m F Q res" and "sp_operation_limit s1 = sp_operation_limit s" and "sp_operations s1 \<le> sp_operations s + k"
    and "k + m \<le> n" and "\<And>x j. Q x j \<Longrightarrow> j \<le> m \<Longrightarrow> Q' x (k + j)" and "\<And>e. F e \<Longrightarrow> F' e"
  shows "search_ok c s n F' Q' res"
proof (cases "snd res")
  case (Inr x)
  then obtain j where "in_budget (fst res)" "j \<le> m" "sp_operations (fst res) \<le> sp_operations s1 + j" "Q x j"
    using assms(1) by (auto simp: search_ok_def)
  then show ?thesis using assms Inr by (auto simp: search_ok_def intro!: exI [of _ "k + j"])
next
  case (Inl e)
  then show ?thesis using assms by (cases e) (auto simp: search_ok_def)
qed

lemma search_ok_failed:
  assumes "step W c s = (s1, Err e)" and "0 < n"
  shows "search_ok c s n F Q (s1, Err (Stop e))"
  using step_progress [OF assms(1)] assms(2) by (auto simp: search_ok_def)

lemma search_ok_step:
  assumes "step W c s = (s1, Ok u)" and "in_budget s1 \<Longrightarrow> search_ok c s1 m F Q res" and "m < n"
    and "\<And>x j. Q x j \<Longrightarrow> j \<le> m \<Longrightarrow> Q' x (Suc j)"
  shows "search_ok c s n F Q' res"
  using step_progress [OF assms(1)] assms(2-4)
  by (intro search_ok_after [of c s1 m F Q res s 1 n Q' F]) auto

lemma prefix_loop_ok:
  assumes "build_inv needle table index matched" and "index \<le> length needle" and "in_budget s"
  shows "\<exists>res. prefix_loop W c needle table index matched s = Some res \<and>
    search_ok c s (2 * (length needle - index) + matched) F (\<lambda>table' k. table_ok needle table' (length needle)) res"
  using assms
proof (induction "2 * (length needle - index) + matched" arbitrary: table index matched s rule: less_induct)
  case less
  let ?n = "2 * (length needle - index) + matched"
  show ?case
  proof (cases "index < length needle")
    case False
    then have "table_ok needle table (length needle)" using less.prems by (simp add: build_inv_def)
    then show ?thesis using False less.prems(3) by (subst prefix_loop.simps) (simp add: search_okI)
  next
    case True
    then have range: "matched < length needle" "matched < index" "length table = length needle" "matched - 1 < length table"
      using less.prems(1) by (auto simp: build_inv_def table_ok_def)
    obtain s1 r where st: "step W c s = (s1, r)" by (cases "step W c s")
    show ?thesis
    proof (cases r)
      case (Inl e)
      with True st show ?thesis by (subst prefix_loop.simps) (simp add: search_ok_failed)
    next
      case (Inr u)
      then have st: "step W c s = (s1, Ok u)" and b: "in_budget s1" using st step_progress [OF st] by auto
      let ?next = "\<lambda>t i m. prefix_loop W c needle t i m s1"
      have go: "\<exists>res. ?next t i m = Some res \<and> search_ok c s ?n F (\<lambda>table' k. table_ok needle table' (length needle)) res"
        if "build_inv needle t i m" "i \<le> length needle" "2 * (length needle - i) + m < ?n" for t i m
      proof -
        from less.hyps [OF that(3,1,2) b] obtain res where res: "?next t i m = Some res"
            "search_ok c s1 (2 * (length needle - i) + m) F (\<lambda>table' k. table_ok needle table' (length needle)) res" by blast
        have "search_ok c s ?n F (\<lambda>table' k. table_ok needle table' (length needle)) res"
          by (rule search_ok_step [OF st res(2) that(3)])
        with res(1) show ?thesis by blast
      qed
      consider (hit) "needle ! index = needle ! matched" | (fall) "needle ! index \<noteq> needle ! matched" "0 < matched"
        | (skip) "needle ! index \<noteq> needle ! matched" "matched = 0" by blast
      then show ?thesis
      proof cases
        case hit
        then have "prefix_loop W c needle table index matched s = ?next (table[index := matched + 1]) (index + 1) (matched + 1)"
          using True st range by (subst prefix_loop.simps) simp
        then show ?thesis using go [OF build_match [OF less.prems(1) True hit]] True by simp
      next
        case fall
        then have "prefix_loop W c needle table index matched s = ?next table index (table ! (matched - 1))"
          using True st range by (subst prefix_loop.simps) simp
        then show ?thesis using go [of table index "table ! (matched - 1)"] build_fall [OF less.prems(1) True fall] True by simp
      next
        case skip
        then have "prefix_loop W c needle table index matched s = ?next table (index + 1) matched"
          using True st range by (subst prefix_loop.simps) simp
        then show ?thesis using go [of table "Suc index" 0] build_skip [of needle table index] less.prems(1) True skip by simp
      qed
    qed
  qed
qed

lemma fall_back_ok:
  assumes "fall_inv (lm_needle lm) t b matched" and "table_ok (lm_needle lm) (lm_prefix lm) (length (lm_needle lm))" and "in_budget s"
  shows "\<exists>res. fall_back W c lm b matched s = Some res \<and>
    search_ok c s matched F (\<lambda>m k. k + m \<le> matched \<and> fall_inv (lm_needle lm) t b m \<and> (m = 0 \<or> b = lm_needle lm ! m)) res"
  using assms
proof (induction matched arbitrary: s rule: less_induct)
  case (less matched)
  have range: "matched < length (lm_needle lm)" "length (lm_prefix lm) = length (lm_needle lm)"
    using less.prems by (auto simp: fall_inv_def table_ok_def)
  show ?case
  proof (cases "0 < matched \<and> b \<noteq> lm_needle lm ! matched")
    case False
    then show ?thesis using less.prems range by (subst fall_back.simps) (auto intro!: search_okI)
  next
    case True
    obtain s1 r where st: "step W c s = (s1, r)" by (cases "step W c s")
    show ?thesis
    proof (cases r)
      case (Inl e)
      with True st range show ?thesis by (subst fall_back.simps) (simp add: search_ok_failed)
    next
      case (Inr u)
      then have st: "step W c s = (s1, Ok u)" and b: "in_budget s1" using st step_progress [OF st] by auto
      let ?m = "lm_prefix lm ! (matched - 1)"
      have m: "fall_inv (lm_needle lm) t b ?m" "?m < matched" using fall_step [OF less.prems(1) _ _ less.prems(2)] True by auto
      from less.IH [OF m(2,1) less.prems(2) b] obtain res where "fall_back W c lm b ?m s1 = Some res"
          "search_ok c s1 ?m F (\<lambda>m k. k + m \<le> ?m \<and> fall_inv (lm_needle lm) t b m \<and> (m = 0 \<or> b = lm_needle lm ! m)) res" by blast
      moreover have "fall_back W c lm b matched s = fall_back W c lm b ?m s1"
        using True st range by (subst fall_back.simps) auto
      ultimately show ?thesis using search_ok_step [OF st _ m(2)] m(2) by fastforce
    qed
  qed
qed

section \<open>Positions and occurrences\<close>

definition newlines :: "string \<Rightarrow> nat" where
  "newlines t = length (filter ((=) (CHR 0x0A)) t)"

definition column_before :: "string \<Rightarrow> nat" where
  "column_before t = length (takeWhile (\<lambda>c. c \<noteq> CHR 0x0A) (rev t))"

definition match_at :: "string \<Rightarrow> string \<Rightarrow> nat \<Rightarrow> json" where
  "match_at path h i = match_value path i (saturating_add 1 (newlines (take i h))) (column_before (take i h) + 1)"

definition cursor_ok :: "string \<Rightarrow> position_cursor \<Rightarrow> bool" where
  "cursor_ok h p \<longleftrightarrow> pc_position p \<le> length h \<and> pc_line p = saturating_add 1 (newlines (take (pc_position p) h)) \<and>
     pc_line_start p + column_before (take (pc_position p) h) = pc_position p"

lemma saturating_add_Suc: "saturating_add (saturating_add a b) 1 = saturating_add a (Suc b)"
  by (simp add: saturating_add_def)

lemma cursor_advance:
  assumes "cursor_ok h p" and "pc_position p < length h"
  shows "cursor_ok h
    (if h ! pc_position p = CHR 0x0A
     then \<lparr>pc_position = pc_position p + 1, pc_line = saturating_add (pc_line p) 1, pc_line_start = pc_position p + 1\<rparr>
     else p\<lparr>pc_position := pc_position p + 1\<rparr>)"
  using assms
  by (auto simp: cursor_ok_def take_snoc newlines_def column_before_def saturating_add_Suc [unfolded One_nat_def] Suc_le_eq)

lemma advance_ok:
  assumes "cursor_ok h p" and "pc_position p \<le> off" and "off \<le> length h" and "in_budget s"
  shows "search_ok c s (off - pc_position p) F (\<lambda>p' k. cursor_ok h p' \<and> pc_position p' = off) (advance W c h off p s)"
  using assms
proof (induction "off - pc_position p" arbitrary: p s)
  case 0
  then show ?case by (subst advance.simps) (auto intro: search_okI)
next
  case (Suc d)
  then have lt: "pc_position p < off" "pc_position p < length h" by auto
  let ?p = "if h ! pc_position p = CHR 0x0A
     then \<lparr>pc_position = pc_position p + 1, pc_line = saturating_add (pc_line p) 1, pc_line_start = pc_position p + 1\<rparr>
     else p\<lparr>pc_position := pc_position p + 1\<rparr>"
  have pos: "pc_position ?p = Suc (pc_position p)" by simp
  obtain s1 r where st: "step W c s = (s1, r)" by (cases "step W c s")
  show ?case
  proof (cases r)
    case (Inl e)
    then show ?thesis using lt st by (subst advance.simps) (simp add: search_ok_failed)
  next
    case (Inr u)
    then have st: "step W c s = (s1, Ok u)" and b: "in_budget s1" using st step_progress [OF st] by auto
    have rest: "search_ok c s1 (off - pc_position ?p) F (\<lambda>p' k. cursor_ok h p' \<and> pc_position p' = off) (advance W c h off ?p s1)"
      using Suc.hyps(2) cursor_advance [OF Suc.prems(1) lt(2)] lt Suc.prems(3) b by (intro Suc.hyps(1)) (simp_all add: pos)
    have "advance W c h off p s = advance W c h off ?p s1" using lt st by (subst advance.simps) simp
    moreover have "search_ok c s (off - pc_position p) F (\<lambda>p' k. cursor_ok h p' \<and> pc_position p' = off) (advance W c h off ?p s1)"
      by (rule search_ok_step [OF st rest]) (use lt pos in simp_all)
    ultimately show ?thesis by simp
  qed
qed

lemma report_match_ok:
  assumes "cursor_ok h p" and "pc_position p \<le> off" and "off \<le> length h" and "in_budget s"
  shows "search_ok c s (off - pc_position p) (\<lambda>e. e = MatchLimit limit \<and> limit \<le> length output)
    (\<lambda>(output', p') k. length output < limit \<and> output' = output @ [match_at path h off] \<and> cursor_ok h p' \<and> pc_position p' = off)
    (report_match W c h path limit off output p s)"
proof -
  obtain s1 r where ch: "check W c s = (s1, r)" by (cases "check W c s")
  note pr = check_progress [OF ch]
  show ?thesis
  proof (cases "r = Ok () \<and> length output < limit")
    case False
    then show ?thesis using ch pr assms(4) by (cases r) (auto simp: report_match_def search_ok_def)
  next
    case True
    have b: "in_budget s1" using pr assms(4) by (simp add: in_budget_def)
    obtain s2 r2 where adv: "advance W c h off p s1 = (s2, r2)" by (cases "advance W c h off p s1")
    have ok: "search_ok c s1 (off - pc_position p) (\<lambda>e. e = MatchLimit limit \<and> limit \<le> length output)
        (\<lambda>p' k. cursor_ok h p' \<and> pc_position p' = off) (s2, r2)"
      using advance_ok [OF assms(1-3) b] adv by metis
    have rep: "report_match W c h path limit off output p s =
        (s2, rbind r2 (\<lambda>p'. Ok (output @ [match_value path off (pc_line p') (off - pc_line_start p' + 1)], p')))"
      using ch True adv by (auto simp: report_match_def split: sum.splits)
    have val: "match_value path off (pc_line p') (off - pc_line_start p' + 1) = match_at path h off"
      if "cursor_ok h p'" "pc_position p' = off" for p'
    proof -
      have "pc_line_start p' + column_before (take off h) = off" using that by (auto simp: cursor_ok_def)
      then have "off - pc_line_start p' = column_before (take off h)" by linarith
      then show ?thesis using that by (simp add: match_at_def cursor_ok_def)
    qed
    show ?thesis
      unfolding rep using ok pr True val
      by (cases r2) (auto simp: search_ok_def in_budget_def split: search_stop.splits)
  qed
qed

text \<open>The matches that end after the given offset.\<close>

definition matches_after :: "string \<Rightarrow> string \<Rightarrow> string \<Rightarrow> nat \<Rightarrow> json list" where
  "matches_after path needle h offset =
     map (\<lambda>e. match_at path h (e - length needle))
       (filter (\<lambda>e. fits needle (length needle) (take e h)) [Suc offset..<Suc (length h)])"

lemma matches_after_end [simp]: "matches_after path needle h (length h) = []"
  by (simp add: matches_after_def)

lemma matches_after_step:
  assumes "offset < length h"
  shows "matches_after path needle h offset =
    (if fits needle (length needle) (take (Suc offset) h) then [match_at path h (Suc offset - length needle)] else []) @
    matches_after path needle h (Suc offset)"
proof -
  have "[Suc offset..<Suc (length h)] = Suc offset # [Suc (Suc offset)..<Suc (length h)]"
    using assms by (intro upt_conv_Cons) simp
  then show ?thesis unfolding matches_after_def by simp
qed

lemma search_ok_Ok:
  assumes "search_ok c s n F Q (s1, Ok x)"
  shows "in_budget s1" "sp_operation_limit s1 = sp_operation_limit s"
    "\<exists>k \<le> n. sp_operations s1 \<le> sp_operations s + k \<and> Q x k"
  using assms by (auto simp: search_ok_def)

lemma search_ok_Err:
  assumes "search_ok c s1 m F Q (s2, Err e)" and "sp_operation_limit s1 = sp_operation_limit s"
    and "sp_operations s1 \<le> sp_operations s + k" and "k + m \<le> n" and "\<And>e. F e \<Longrightarrow> F' e"
  shows "search_ok c s n F' Q' (s2, Err e)"
  using assms by (auto simp: search_ok_def split: search_stop.splits)

definition collects :: "string \<Rightarrow> string \<Rightarrow> string \<Rightarrow> nat \<Rightarrow> nat \<Rightarrow> json list \<Rightarrow> json list \<Rightarrow> nat \<Rightarrow> bool" where
  "collects path needle h limit offset output out k \<longleftrightarrow>
     out = output @ matches_after path needle h offset \<and> (matches_after path needle h offset = [] \<or> length out \<le> limit)"

definition too_many :: "string \<Rightarrow> string \<Rightarrow> string \<Rightarrow> nat \<Rightarrow> nat \<Rightarrow> json list \<Rightarrow> workspace_tool_error \<Rightarrow> bool" where
  "too_many path needle h limit offset output e \<longleftrightarrow>
     e = MatchLimit limit \<and> limit < length output + length (matches_after path needle h offset)"

lemma collect_loop_ok:
  assumes "search_inv (lm_needle lm) (take offset h) matched" and "rest = drop offset h" and "offset \<le> length h"
    and "table_ok (lm_needle lm) (lm_prefix lm) (length (lm_needle lm))"
    and "cursor_ok h p" and "pc_position p = 0 \<or> pc_position p + length (lm_needle lm) \<le> offset" and "in_budget s"
  shows "\<exists>res. collect_loop W c lm h path limit offset rest matched acc p s = Some res \<and>
    search_ok c s (2 * length rest + matched + (length h - pc_position p)) (too_many path (lm_needle lm) h limit offset acc)
      (collects path (lm_needle lm) h limit offset acc) res"
  using assms
proof (induction rest arbitrary: offset matched acc p s)
  case Nil
  then have "offset = length h" by simp
  then show ?case using Nil by (auto intro!: search_okI simp: collects_def)
next
  case (Cons b rest)
  let ?p = "lm_needle lm" and ?n = "2 * length (b # rest) + matched + (length h - pc_position p)"
  let ?F = "too_many path ?p h limit offset acc" and ?Q = "collects path ?p h limit offset acc"
  have off: "offset < length h" using Cons.prems(2,3) by (metis drop_all list.distinct(1) not_less)
  then have b: "h ! offset = b" "rest = drop (Suc offset) h" using Cons.prems(2) by (auto simp: Cons_nth_drop_Suc [symmetric])
  then have snoc: "take (Suc offset) h = take offset h @ [b]" using off by (simp add: take_snoc)
  have step_eq: "matches_after path ?p h offset = (if fits ?p (length ?p) (take offset h @ [b])
      then [match_at path h (Suc offset - length ?p)] else []) @ matches_after path ?p h (Suc offset)"
    using matches_after_step [OF off, of path ?p] unfolding snoc .
  obtain s1 r1 where st: "step W c s = (s1, r1)" by (cases "step W c s")
  note pr1 = step_progress [OF st]
  show ?case
  proof (cases r1)
    case (Inl e)
    then show ?thesis using st search_ok_failed [of W c s s1 e ?n] by auto
  next
    case (Inr u)
    then have b1: "in_budget s1" using pr1 by auto
    let ?Q2 = "\<lambda>m k. k + m \<le> matched \<and> fall_inv ?p (take offset h) b m \<and> (m = 0 \<or> b = ?p ! m)"
    from fall_back_ok [OF search_fall [OF Cons.prems(1)] Cons.prems(4) b1, of W c b ?F] obtain res
      where res: "fall_back W c lm b matched s1 = Some res" "search_ok c s1 matched ?F ?Q2 res" by blast
    obtain s2 r2 where "res = (s2, r2)" by (cases res)
    with res have fb: "fall_back W c lm b matched s1 = Some (s2, r2)" and ok2: "search_ok c s1 matched ?F ?Q2 (s2, r2)" by simp_all
    show ?thesis
    proof (cases r2)
      case (Inl e)
      then show ?thesis using st Inr fb search_ok_Err [OF ok2 [unfolded Inl], of s 1 ?n ?F] pr1 by auto
    next
      case r2: (Inr m)
      from search_ok_Ok [OF ok2 [unfolded r2]] obtain k where b2: "in_budget s2" "sp_operation_limit s2 = sp_operation_limit s1"
        and k: "sp_operations s2 \<le> sp_operations s1 + k" "k + m \<le> matched" and m: "fall_inv ?p (take offset h) b m" "m = 0 \<or> b = ?p ! m" by auto
      have lim: "sp_operation_limit s2 = sp_operation_limit s" "sp_operations s2 \<le> sp_operations s + (1 + k)" using b2 k pr1 by auto
      have range: "m < length ?p" "length (lm_prefix lm) = length ?p" using m Cons.prems(4) by (auto simp: fall_inv_def table_ok_def)
      let ?rec = "\<lambda>m acc p s. collect_loop W c lm h path limit (Suc offset) rest m acc p s"
      have go: "\<exists>res. ?rec m' acc p s2 = Some res \<and> search_ok c s ?n ?F ?Q res"
        if inv: "search_inv ?p (take offset h @ [b]) m'" and no: "\<not> fits ?p (length ?p) (take offset h @ [b])" and le: "m' \<le> Suc m" for m'
      proof -
        have same: "too_many path ?p h limit (Suc offset) acc = ?F" "collects path ?p h limit (Suc offset) acc = ?Q"
          using step_eq no by (auto simp: too_many_def collects_def fun_eq_iff)
        have pos: "pc_position p = 0 \<or> pc_position p + length ?p \<le> Suc offset" using Cons.prems(6) by auto
        from Cons.IH [OF inv [folded snoc] b(2) _ Cons.prems(4,5) pos b2(1), of acc] off same obtain res where res: "?rec m' acc p s2 = Some res"
            "search_ok c s2 (2 * length rest + m' + (length h - pc_position p)) ?F ?Q res" by auto
        have "search_ok c s ?n ?F ?Q res"
          by (rule search_ok_after [OF res(2) lim]) (use k le in \<open>auto simp: collects_def\<close>)
        with res(1) show ?thesis by blast
      qed
      consider (miss) "b \<noteq> ?p ! m" | (hit) "b = ?p ! m" "Suc m < length ?p" | (full) "b = ?p ! m" "Suc m = length ?p"
        using range(1) by linarith
      then show ?thesis
      proof cases
        case miss
        then have "m = 0" using m(2) by simp
        then show ?thesis using go [of m] search_miss [of ?p "take offset h" b] m(1) miss st Inr fb r2 range by simp
      next
        case hit
        then show ?thesis using go [of "Suc m"] search_hit [OF m(1) hit] st Inr fb r2 range by simp
      next
        case full
        note sf = search_full [OF m(1) full Cons.prems(4)]
        let ?off = "Suc offset - length ?p"
        have pos: "pc_position p \<le> ?off" "?off \<le> length h" "?off + length ?p = Suc offset"
          using Cons.prems(6) off fits_length [of ?p "length ?p" "take offset h @ [b]"] sf by (auto simp: min_def split: if_splits)
        obtain s3 r3 where rm: "report_match W c h path limit ?off acc p s2 = (s3, r3)"
          by (cases "report_match W c h path limit ?off acc p s2")
        note ok3 = report_match_ok [OF Cons.prems(5) pos(1,2) b2(1), of c limit acc path W, unfolded rm]
        have more: "matches_after path ?p h offset = match_at path h ?off # matches_after path ?p h (Suc offset)"
          using step_eq sf by simp
        show ?thesis
        proof (cases r3)
          case (Inl e)
          have "search_ok c s ?n ?F ?Q (s3, Err e)"
            by (rule search_ok_Err [OF ok3 [unfolded Inl] lim]) (use k pos off more in \<open>auto simp: too_many_def\<close>)
          then show ?thesis using st \<open>r1 = Inr u\<close> fb r2 range full rm Inl by simp
        next
          case r3: (Inr ap)
          obtain acc' p' where ap: "ap = (acc', p')" by (cases ap)
          from search_ok_Ok [OF ok3 [unfolded r3 ap]] obtain k3 where b3: "in_budget s3" "sp_operation_limit s3 = sp_operation_limit s2"
            and k3: "k3 \<le> ?off - pc_position p" "sp_operations s3 \<le> sp_operations s2 + k3" "length acc < limit"
            and acc': "acc' = acc @ [match_at path h ?off]" and p': "cursor_ok h p'" "pc_position p' = ?off" by auto
          have pos': "pc_position p' = 0 \<or> pc_position p' + length ?p \<le> Suc offset" using pos p' by simp
          from Cons.IH [OF _ b(2) _ Cons.prems(4) p'(1) pos' b3(1), of "lm_prefix lm ! m" acc'] sf off snoc obtain res
            where res: "?rec (lm_prefix lm ! m) acc' p' s3 = Some res"
              "search_ok c s3 (2 * length rest + lm_prefix lm ! m + (length h - pc_position p'))
                 (too_many path ?p h limit (Suc offset) acc') (collects path ?p h limit (Suc offset) acc') res" by auto
          have "search_ok c s ?n ?F ?Q res"
            by (rule search_ok_after [OF res(2), of s "1 + k + k3"])
              (use lim b3 k k3 sf pos p' acc' more in \<open>auto simp: too_many_def collects_def\<close>)
          then show ?thesis using st \<open>r1 = Inr u\<close> fb r2 range full rm r3 ap res(1) by simp
        qed
      qed
    qed
  qed
qed

text \<open>The reference: the offsets at which the needle occurs, overlapping ones included.\<close>

definition occurrences :: "string \<Rightarrow> string \<Rightarrow> nat list" where
  "occurrences needle h = filter (\<lambda>i. take (length needle) (drop i h) = needle) [0..<length h]"

lemma fits_occurs:
  assumes "needle \<noteq> []" "e \<le> length h"
  shows "fits needle (length needle) (take e h) \<longleftrightarrow> length needle \<le> e \<and> take (length needle) (drop (e - length needle) h) = needle"
proof (cases "length needle \<le> e")
  case True
  let ?d = "drop (e - length needle) (take e h)"
  have d: "?d = take (length needle) (drop (e - length needle) h)" using True by (simp add: drop_take)
  have "needle = ?d" if "suffix needle (take e h)"
  proof -
    have "length (take e h) = e" using assms by simp
    then have "take e h = take (e - length needle) (take e h) @ needle" using suffix_take [OF that] by simp
    then have "?d = drop (e - length needle) (take (e - length needle) (take e h) @ needle)" by (rule arg_cong)
    then show ?thesis using assms by simp
  qed
  moreover have "suffix ?d (take e h)" by (rule suffix_drop)
  ultimately show ?thesis using True d by (auto simp: fits_def)
next
  case False
  then show ?thesis using fits_length assms by fastforce
qed

lemma matches_are_occurrences:
  assumes "needle \<noteq> []"
  shows "matches_after path needle h 0 = map (match_at path h) (occurrences needle h)"
proof -
  let ?n = "length needle"
  let ?es = "filter (\<lambda>e. fits needle ?n (take e h)) [Suc 0..<Suc (length h)]" and ?is = "map (\<lambda>i. i + ?n) (occurrences needle h)"
  have "set ?es = set ?is"
  proof (intro equalityI subsetI)
    fix e assume "e \<in> set ?es"
    then have e: "e \<le> length h" "?n \<le> e" "take ?n (drop (e - ?n) h) = needle" using fits_occurs [OF assms, of e h] by auto
    moreover have "0 < ?n" using assms by simp
    ultimately have "e - ?n < length h" by linarith
    with e show "e \<in> set ?is" by (auto simp: occurrences_def image_iff intro!: bexI [of _ "e - ?n"])
  next
    fix e assume "e \<in> set ?is"
    then obtain i where i: "e = i + ?n" "i < length h" "take ?n (drop i h) = needle" by (auto simp: occurrences_def)
    have "min (length h - i) ?n = ?n" using i(3) by (metis length_drop length_take)
    then have "e \<le> length h" using i(1,2) by linarith
    moreover from this have "fits needle ?n (take e h)" using i fits_occurs [OF assms, of e h] by simp
    moreover have "Suc 0 \<le> e" using i(1) assms by (cases needle) auto
    ultimately show "e \<in> set ?es" by (simp only: set_filter set_upt) simp
  qed
  moreover have "sorted ?es" "distinct ?es" by (rule sorted_wrt_filter [OF sorted_upt], rule distinct_filter [OF distinct_upt])
  moreover have "sorted ?is" "distinct ?is"
    by (auto simp: occurrences_def sorted_map distinct_map inj_on_def intro: sorted_wrt_filter)
  ultimately have "?es = ?is" by (intro sorted_distinct_set_unique) auto
  then show ?thesis by (simp add: matches_after_def)
qed

lemma matcher_new_ok:
  assumes "needle \<noteq> []" and "in_budget s"
  shows "\<exists>res. matcher_new W c needle s = Some res \<and>
    search_ok c s (2 * length needle) F (\<lambda>lm k. lm_needle lm = needle \<and> table_ok needle (lm_prefix lm) (length needle)) res"
proof -
  have le: "1 \<le> length needle" using assms(1) by (cases needle) auto
  from prefix_loop_ok [OF build_start [OF assms(1)] le assms(2), of W c F] obtain s' r where
      run: "prefix_loop W c needle (replicate (length needle) 0) 1 0 s = Some (s', r)" and
      ok: "search_ok c s (2 * (length needle - 1) + 0) F (\<lambda>table' k. table_ok needle table' (length needle)) (s', r)" by auto
  let ?r = "rbind r (\<lambda>table. Ok \<lparr>lm_needle = needle, lm_prefix = table\<rparr>)"
  have "search_ok c s (2 * length needle) F (\<lambda>lm k. lm_needle lm = needle \<and> table_ok needle (lm_prefix lm) (length needle)) (s', ?r)"
    using ok by (cases r) (fastforce simp: search_ok_def split: search_stop.splits)+
  then show ?thesis using run by (simp add: matcher_new_def)
qed

lemma collect_ok:
  assumes "lm_needle lm \<noteq> []" and "table_ok (lm_needle lm) (lm_prefix lm) (length (lm_needle lm))" and "in_budget s"
  shows "\<exists>res. collect W c lm h path acc limit s = Some res \<and>
    search_ok c s (3 * length h) (\<lambda>e. e = MatchLimit limit \<and> limit < length acc + length (occurrences (lm_needle lm) h))
      (\<lambda>out k. out = acc @ map (match_at path h) (occurrences (lm_needle lm) h) \<and> (occurrences (lm_needle lm) h = [] \<or> length out \<le> limit)) res"
proof (cases "length h < length (lm_needle lm)")
  case True
  obtain s1 r where ch: "check W c s = (s1, r)" by (cases "check W c s")
  have "occurrences (lm_needle lm) h = []"
    using True by (auto simp: occurrences_def filter_empty_conv dest!: arg_cong [where f = length])
  then show ?thesis
    using check_progress [OF ch] True ch assms(1,3) by (cases r) (auto simp: collect_def search_ok_def in_budget_def)
next
  case False
  let ?p = "\<lparr>pc_position = 0, pc_line = 1, pc_line_start = 0\<rparr>"
  have "search_inv (lm_needle lm) (take 0 h) 0" using assms(1) by (auto simp: search_inv_def dest: fits_length)
  moreover have "cursor_ok h ?p" by (simp add: cursor_ok_def newlines_def column_before_def saturating_add_def u64_max_def)
  ultimately obtain res where "collect_loop W c lm h path limit 0 h 0 acc ?p s = Some res"
    and "search_ok c s (2 * length h + 0 + (length h - pc_position ?p)) (too_many path (lm_needle lm) h limit 0 acc)
      (collects path (lm_needle lm) h limit 0 acc) res"
    using collect_loop_ok [of lm 0 h 0 h ?p s W c path limit acc] assms by auto
  then show ?thesis
    using False assms(1) by (simp add: collect_def too_many_def [abs_def] collects_def [abs_def] matches_are_occurrences mult_2 algebra_simps)
qed


definition still_world :: search_world where
  "still_world = \<lparr>wd_clock = (\<lambda>_. 0), wd_others = (\<lambda>_. 0)\<rparr>"

definition fresh_progress :: "nat \<Rightarrow> search_progress" where
  "fresh_progress limit =
     \<lparr>sp_operation_limit = limit, sp_operations = 0, sp_next_check = 0, sp_shared = 0, sp_samples = 0, sp_charges = 0\<rparr>"

lemma quiet_new [simp]: "quiet control_new"
  by (simp add: quiet_def control_new_def)


end
