(* ===== verification/Workspace_Diff.thy ===== *)
theory Workspace_Diff
  imports Literal_Search
begin

text \<open>
  The evidence of a structured mutation (\<open>yeux-runtime/src/workspace_tools.rs\<close>): the summary
  of the change that the user approves, its unified diff, and the validation of the arguments.
  The theorems show that the summary describes the edit, that the hunk turns the old lines
  into the new ones, and which changes the diff does not show.
\<close>

section \<open>Bytes and lines\<close>

definition common_prefix_len :: "string \<Rightarrow> string \<Rightarrow> nat" where
  "common_prefix_len left right = length (takeWhile (\<lambda>(l, r). l = r) (zip left right))"

definition common_suffix_len :: "string \<Rightarrow> string \<Rightarrow> nat" where
  "common_suffix_len left right = length (takeWhile (\<lambda>(l, r). l = r) (zip (rev left) (rev right)))"

definition line_count :: "string \<Rightarrow> nat" where
  "line_count bytes =
     (if bytes = [] then 0
      else length (filter (\<lambda>b. b = CHR 0x0A) bytes) + (if last bytes \<noteq> CHR 0x0A then 1 else 0))"

text \<open>\<open>slice::split\<close> at line feeds: one more piece than separators.\<close>

fun split_newline :: "string \<Rightarrow> string list" where
  "split_newline [] = [[]]"
| "split_newline (b # bytes) =
     (if b = CHR 0x0A then [] # split_newline bytes
      else (case split_newline bytes of l # ls \<Rightarrow> (b # l) # ls | [] \<Rightarrow> [[b]]))"

definition split_unified_lines :: "string \<Rightarrow> string list" where
  "split_unified_lines bytes =
     (if bytes = [] then []
      else if last bytes = CHR 0x0A then butlast (split_newline bytes)
      else split_newline bytes)"

text \<open>
  \<open>String::from_utf8_lossy\<close>: every maximal invalid piece becomes the replacement character.
\<close>

definition replacement_character :: string where
  "replacement_character = [CHR 0xEF, CHR 0xBF, CHR 0xBD]"

fun utf8_lossy :: "string \<Rightarrow> string" where
  "utf8_lossy [] = []"
| "utf8_lossy (c # s) =
     (if byte c \<le> 127 then c # utf8_lossy s
      else if 194 \<le> byte c \<and> byte c \<le> 223
      then (case s of
              d # t \<Rightarrow> if continuation d then c # d # utf8_lossy t else replacement_character @ utf8_lossy s
            | [] \<Rightarrow> replacement_character)
      else if 224 \<le> byte c \<and> byte c \<le> 239
      then (case s of
              d # t \<Rightarrow>
                if \<not> utf8_second (byte c) d then replacement_character @ utf8_lossy s
                else (case t of
                        e # u \<Rightarrow> if continuation e then c # d # e # utf8_lossy u else replacement_character @ utf8_lossy t
                      | [] \<Rightarrow> replacement_character)
            | [] \<Rightarrow> replacement_character)
      else if 240 \<le> byte c \<and> byte c \<le> 244
      then (case s of
              d # t \<Rightarrow>
                if \<not> utf8_second (byte c) d then replacement_character @ utf8_lossy s
                else (case t of
                        e # u \<Rightarrow>
                          if \<not> continuation e then replacement_character @ utf8_lossy t
                          else (case u of
                                  f # v \<Rightarrow> if continuation f then c # d # e # f # utf8_lossy v
                                           else replacement_character @ utf8_lossy u
                                | [] \<Rightarrow> replacement_character)
                      | [] \<Rightarrow> replacement_character)
            | [] \<Rightarrow> replacement_character)
      else replacement_character @ utf8_lossy s)"

section \<open>The unified diff\<close>

definition UNIFIED_DIFF_CONTEXT :: nat where "UNIFIED_DIFF_CONTEXT = 3"

text \<open>The two loops that skip equal lines from the front and from the back.\<close>

fun skip_front :: "string list \<Rightarrow> string list \<Rightarrow> nat" where
  "skip_front (o1 # os) (n1 # ns) = (if o1 = n1 then Suc (skip_front os ns) else 0)"
| "skip_front _ _ = 0"

definition skip_back :: "string list \<Rightarrow> string list \<Rightarrow> nat \<Rightarrow> nat" where
  "skip_back old new k = skip_front (rev (drop k old)) (rev (drop k new))"

text \<open>The hunk: where it starts, how many lines it has on either side, and its marked lines.\<close>

record diff_hunk =
  dh_old_start :: nat
  dh_old_count :: nat
  dh_new_start :: nat
  dh_new_count :: nat
  dh_lines :: "(char \<times> string) list"

definition slice :: "'a list \<Rightarrow> nat \<Rightarrow> nat \<Rightarrow> 'a list" where
  "slice xs i j = take (j - i) (drop i xs)"

definition unified_hunk :: "string list \<Rightarrow> string list \<Rightarrow> diff_hunk" where
  "unified_hunk old new =
     (let front = skip_front old new;
          back = skip_back old new front;
          start_idx = front - min front UNIFIED_DIFF_CONTEXT;
          old_end_idx = length old - back + min back UNIFIED_DIFF_CONTEXT;
          new_end_idx = length new - back + min back UNIFIED_DIFF_CONTEXT;
          old_count = old_end_idx - start_idx;
          new_count = new_end_idx - start_idx
      in \<lparr>dh_old_start = (if old_count = 0 then 0 else start_idx + 1), dh_old_count = old_count,
          dh_new_start = (if new_count = 0 then 0 else start_idx + 1), dh_new_count = new_count,
          dh_lines =
            map (Pair CHR '' '') (slice old start_idx front) @
            map (Pair CHR ''-'') (slice old front (length old - back)) @
            map (Pair CHR ''+'') (slice new front (length new - back)) @
            map (Pair CHR '' '') (slice old (length old - back) old_end_idx)\<rparr>)"

definition hunk_text :: "diff_hunk \<Rightarrow> string" where
  "hunk_text h =
     ''@@ -'' @ dec_digits (dh_old_start h) @ '','' @ dec_digits (dh_old_count h) @
     '' +'' @ dec_digits (dh_new_start h) @ '','' @ dec_digits (dh_new_count h) @ '' @@'' @ [CHR 0x0A] @
     concat (map (\<lambda>(mark, line). mark # utf8_lossy line @ [CHR 0x0A]) (dh_lines h))"

definition diff_header :: "string \<Rightarrow> string" where
  "diff_header path = ''--- a/'' @ path @ [CHR 0x0A] @ ''+++ b/'' @ path @ [CHR 0x0A]"

definition unified_diff_for_path :: "string \<Rightarrow> string \<Rightarrow> string \<Rightarrow> string" where
  "unified_diff_for_path path previous replacement =
     (let old = split_unified_lines previous; new = split_unified_lines replacement in
      if old = new then diff_header path else diff_header path @ hunk_text (unified_hunk old new))"

section \<open>The summary\<close>

definition diff_for_path :: "string \<Rightarrow> string \<Rightarrow> string \<Rightarrow> workspace_diff_summary" where
  "diff_for_path path previous replacement =
     (let changed = (previous \<noteq> replacement);
          front = common_prefix_len previous replacement;
          back = (if changed then common_suffix_len (drop front previous) (drop front replacement) else 0)
      in \<lparr>ds_changed = changed, ds_previous_bytes = length previous, ds_replacement_bytes = length replacement,
          ds_byte_delta = int (length replacement) - int (length previous),
          ds_previous_lines = line_count previous, ds_replacement_lines = line_count replacement,
          ds_line_delta = int (line_count replacement) - int (line_count previous),
          ds_common_prefix_bytes = front, ds_common_suffix_bytes = back,
          ds_removed_bytes = length previous - (front + back),
          ds_inserted_bytes = length replacement - (front + back),
          ds_first_changed_line =
            (if changed then Some (length (filter (\<lambda>b. b = CHR 0x0A) (take front previous)) + 1) else None),
          ds_unified_diff = unified_diff_for_path path previous replacement\<rparr>)"

section \<open>Arguments\<close>

definition validate_base_revision :: "string \<Rightarrow> string \<Rightarrow> (workspace_tool_error, unit) rust_result" where
  "validate_base_revision tool_id revision =
     (if length revision = 64 \<and>
         list_all (\<lambda>c. (48 \<le> byte c \<and> byte c \<le> 57) \<or> (97 \<le> byte c \<and> byte c \<le> 102)) revision
      then Ok () else Err (InvalidBaseRevision tool_id))"

definition validate_replacement_size :: "string \<Rightarrow> workspace_tool_limits \<Rightarrow> (workspace_tool_error, unit) rust_result" where
  "validate_replacement_size replacement limits =
     (if length replacement > wl_max_file_bytes limits then Err (ReplacementBytesLimit (wl_max_file_bytes limits)) else Ok ())"

definition validate_patch_target_utf8 :: "string \<Rightarrow> string \<Rightarrow> (workspace_tool_error, unit) rust_result" where
  "validate_patch_target_utf8 path bytes =
     (if utf8_valid bytes then Ok () else Err (workspace_tool_error.Workspace (InvalidUtf8 path)))"

definition WORKSPACE_SEARCH_TOOL_ID :: string where "WORKSPACE_SEARCH_TOOL_ID = ''workspace.search''"

definition validate_query :: "string \<Rightarrow> (workspace_tool_error, unit) rust_result" where
  "validate_query query =
     (if query = [] then Err (InvalidArguments WORKSPACE_SEARCH_TOOL_ID ''query must not be empty'')
      else if length query > MAX_QUERY_BYTES then Err (QueryBytesLimit MAX_QUERY_BYTES)
      else Ok ())"

definition ensure_scan_budget :: "nat \<Rightarrow> nat \<Rightarrow> nat \<Rightarrow> (workspace_tool_error, unit) rust_result" where
  "ensure_scan_budget scanned additional limit =
     (if scanned + additional > u64_max \<or> scanned + additional > limit then Err (ScanBytesLimit limit) else Ok ())"

text \<open>\<open>tool_path\<close>: the normal components joined by slashes, if they are UTF-8.\<close>

definition push_component :: "string \<Rightarrow> component \<Rightarrow> string" where
  "push_component acc c = (case c of Normal v \<Rightarrow> (if acc = [] then v else acc @ ''/'' @ v) | _ \<Rightarrow> acc)"

definition tool_path :: "string \<Rightarrow> (workspace_tool_error, string) rust_result" where
  "tool_path path =
     (if list_all (\<lambda>c. case c of Normal v \<Rightarrow> utf8_valid v | _ \<Rightarrow> True) (components path)
      then Ok (foldl push_component [] (components path)) else Err (InvalidPathEncoding path))"

definition effect_path :: "string \<Rightarrow> (workspace_tool_error, string) rust_result" where
  "effect_path path = rbind (tool_path path) (\<lambda>p. Ok (if p = [] then ''.'' else p))"

section \<open>Common parts\<close>

lemma takeWhile_zip_take:
  "take (length (takeWhile (\<lambda>(l, r). l = r) (zip xs ys))) xs = take (length (takeWhile (\<lambda>(l, r). l = r) (zip xs ys))) ys"
  by (induction xs ys rule: list_induct2') auto

lemma takeWhile_zip_le: "length (takeWhile (\<lambda>(l, r). l = r) (zip xs ys)) \<le> min (length xs) (length ys)"
  by (rule order_trans [OF length_takeWhile_le]) simp

lemma takeWhile_zip_stop:
  "let k = length (takeWhile (\<lambda>(l, r). l = r) (zip xs ys)) in k < length xs \<longrightarrow> k < length ys \<longrightarrow> xs ! k \<noteq> ys ! k"
  by (induction xs ys rule: list_induct2') (auto simp: Let_def)

text \<open>Two lists as a common front, different middles and a common back.\<close>

definition split_ends :: "'a list \<Rightarrow> 'a list \<Rightarrow> nat \<Rightarrow> nat \<Rightarrow> 'a list \<Rightarrow> 'a list \<Rightarrow> 'a list \<Rightarrow> 'a list \<Rightarrow> bool" where
  "split_ends xs ys f b P R I S \<longleftrightarrow> xs = P @ R @ S \<and> ys = P @ I @ S \<and> length P = f \<and> length S = b \<and>
     (R = [] \<or> I = [] \<or> hd R \<noteq> hd I \<and> last R \<noteq> last I)"

lemma split_ends_exist:
  assumes f: "f = length (takeWhile (\<lambda>(l, r). l = r) (zip xs ys))"
    and b: "b = length (takeWhile (\<lambda>(l, r). l = r) (zip (rev (drop f xs)) (rev (drop f ys))))"
  shows "\<exists>P R I S. split_ends xs ys f b P R I S"
proof -
  let ?u = "drop f xs" and ?v = "drop f ys"
  have fle: "f \<le> length xs" "f \<le> length ys" using takeWhile_zip_le [of xs ys] f by auto
  have ble: "b \<le> length ?u" "b \<le> length ?v" using takeWhile_zip_le [of "rev ?u" "rev ?v"] b by auto
  have P: "take f xs = take f ys" unfolding f by (rule takeWhile_zip_take)
  have "take b (rev ?u) = take b (rev ?v)" unfolding b by (rule takeWhile_zip_take)
  then have S: "drop (length ?u - b) ?u = drop (length ?v - b) ?v" by (simp add: take_rev)
  let ?R = "take (length ?u - b) ?u" and ?I = "take (length ?v - b) ?v" and ?S = "drop (length ?u - b) ?u"
  have "hd ?R \<noteq> hd ?I" if "?R \<noteq> []" "?I \<noteq> []"
    using takeWhile_zip_stop [of xs ys] that fle unfolding f [symmetric] by (auto simp: hd_drop_conv_nth Let_def hd_take)
  moreover have "last ?R \<noteq> last ?I" if "?R \<noteq> []" "?I \<noteq> []"
  proof -
    have lt: "b < length ?u" "b < length ?v" using that by auto
    then have "rev ?u ! b \<noteq> rev ?v ! b" using takeWhile_zip_stop [of "rev ?u" "rev ?v"] unfolding b [symmetric] by (simp add: Let_def)
    moreover have "last (take (length w - b) w) = rev w ! b" if "b < length w" for w :: "'a list"
    proof -
      have "take (length w - b) w \<noteq> []" "length (take (length w - b) w) = length w - b" using that by auto
      then show ?thesis using that by (simp add: rev_nth last_conv_nth)
    qed
    ultimately show ?thesis using lt by metis
  qed
  moreover have "xs = take f xs @ ?R @ ?S" by (simp only: append_take_drop_id)
  moreover have "ys = take f xs @ ?I @ ?S" unfolding P S by (simp only: append_take_drop_id)
  moreover have "length (take f xs) = f" "length ?S = b" using fle ble by auto
  ultimately show ?thesis unfolding split_ends_def by blast
qed

lemma skip_front_takeWhile: "skip_front xs ys = length (takeWhile (\<lambda>(l, r). l = r) (zip xs ys))"
  by (induction xs ys rule: skip_front.induct) auto

lemma equal_ends:
  assumes "split_ends xs ys f b P R I S"
  shows "xs = ys \<longleftrightarrow> R = [] \<and> I = []"
  using assms by (auto simp: split_ends_def)

text \<open>
  The summary describes the edit. The replacement arises from the previous content by
  replacing one piece between a common prefix and a common suffix; the summary has the lengths
  of all four pieces, neither end can be extended, and it reports no change exactly when the
  contents are equal.
\<close>

lemma summary_describes_the_edit:
  "let d = diff_for_path path previous replacement in
   \<exists>P R I S. previous = P @ R @ S \<and> replacement = P @ I @ S \<and>
    ds_common_prefix_bytes d = length P \<and> ds_common_suffix_bytes d = length S \<and>
    ds_removed_bytes d = length R \<and> ds_inserted_bytes d = length I \<and>
    ds_byte_delta d = int (length I) - int (length R) \<and>
    (R \<noteq> [] \<and> I \<noteq> [] \<longrightarrow> hd R \<noteq> hd I \<and> last R \<noteq> last I) \<and>
    (ds_changed d \<longleftrightarrow> R \<noteq> [] \<or> I \<noteq> []) \<and>
    ds_first_changed_line d = (if R \<noteq> [] \<or> I \<noteq> [] then Some (newlines P + 1) else None)"
proof -
  define f where "f = common_prefix_len previous replacement"
  define b where "b = common_suffix_len (drop f previous) (drop f replacement)"
  from split_ends_exist [OF f_def [unfolded common_prefix_len_def] b_def [unfolded common_suffix_len_def]]
  obtain P R I S where e: "split_ends previous replacement f b P R I S" by blast
  note eq = equal_ends [OF e]
  have nl: "filter (\<lambda>x. x = CHR 0x0A) P = filter ((=) (CHR 0x0A)) P" by (rule filter_cong) auto
  show ?thesis
  proof (cases "previous = replacement")
    case True
    have "common_prefix_len replacement replacement = length replacement"
      by (simp add: common_prefix_len_def zip_same_conv_map takeWhile_eq_all_conv [THEN iffD2])
    then show ?thesis using True unfolding Let_def
      by (intro exI [of _ previous] exI [of _ "[]"]) (simp add: diff_for_path_def Let_def)
  next
    case False
    let ?d = "diff_for_path path previous replacement"
    have d: "ds_common_prefix_bytes ?d = f" "ds_common_suffix_bytes ?d = b" "ds_removed_bytes ?d = length previous - (f + b)"
        "ds_inserted_bytes ?d = length replacement - (f + b)" "ds_byte_delta ?d = int (length replacement) - int (length previous)" "ds_changed ?d"
        "ds_first_changed_line ?d = Some (length (filter (\<lambda>x. x = CHR 0x0A) (take f previous)) + 1)"
      using False by (simp_all add: diff_for_path_def Let_def f_def [symmetric] b_def [symmetric])
    have pr: "previous = P @ R @ S" "replacement = P @ I @ S" "length P = f" "length S = b"
        "R \<noteq> [] \<and> I \<noteq> [] \<longrightarrow> hd R \<noteq> hd I \<and> last R \<noteq> last I" using e by (auto simp: split_ends_def)
    have "take f previous = P" using pr by (metis append_eq_conv_conj)
    moreover have "length previous = f + length R + b" "length replacement = f + length I + b"
      using arg_cong [OF pr(1), of length] arg_cong [OF pr(2), of length] pr(3,4) by simp_all
    moreover have "R \<noteq> [] \<or> I \<noteq> []" using eq False by blast
    ultimately show ?thesis using d pr nl unfolding Let_def
      by (intro exI [of _ P] exI [of _ R] exI [of _ I] exI [of _ S]) (simp add: newlines_def)
  qed
qed

section \<open>The hunk\<close>

definition old_side :: "diff_hunk \<Rightarrow> string list" where
  "old_side h = map snd (filter (\<lambda>l. fst l \<noteq> CHR ''+'') (dh_lines h))"

definition new_side :: "diff_hunk \<Rightarrow> string list" where
  "new_side h = map snd (filter (\<lambda>l. fst l \<noteq> CHR ''-'') (dh_lines h))"

definition context_lines :: "diff_hunk \<Rightarrow> string list" where
  "context_lines h = map snd (filter (\<lambda>l. fst l = CHR '' '') (dh_lines h))"

lemma filter_marked: "filter (\<lambda>l. p (fst l)) (map (Pair m) ls) = (if p m then map (Pair m) ls else [])"
  by (induction ls) auto

text \<open>
  C30: The hunk turns the old lines into the new ones. For any two lists of lines, the lines of
  the hunk that are not additions stand in the old list and those that are not removals stand
  in the new list, between the same lines before and after; the counts and the start lines of
  the header are those of the two sides, and there are at most three lines of context on
  either side.
\<close>

theorem hunk_patches_old_into_new:
  "let h = unified_hunk old new in
   \<exists>before after. old = before @ old_side h @ after \<and> new = before @ new_side h @ after \<and>
    dh_old_count h = length (old_side h) \<and> dh_new_count h = length (new_side h) \<and>
    (old_side h \<noteq> [] \<longrightarrow> dh_old_start h = length before + 1) \<and> (new_side h \<noteq> [] \<longrightarrow> dh_new_start h = length before + 1) \<and>
    length (context_lines h) \<le> 2 * UNIFIED_DIFF_CONTEXT"
proof -
  define h where "h = unified_hunk old new"
  define f where "f = skip_front old new"
  define b where "b = skip_back old new f"
  from split_ends_exist [of f old new b] obtain P R I S where e: "split_ends old new f b P R I S"
    by (auto simp: f_def b_def skip_front_takeWhile skip_back_def)
  define p where "p = f - min f UNIFIED_DIFF_CONTEXT"
  define q where "q = min b UNIFIED_DIFF_CONTEXT"
  have len: "length P = f" "length S = b" "p \<le> length P" "q \<le> length S" "length P - p \<le> UNIFIED_DIFF_CONTEXT" "q \<le> UNIFIED_DIFF_CONTEXT"
    using e by (auto simp: split_ends_def p_def q_def)
  have on: "old = P @ R @ S" "new = P @ I @ S" using e by (auto simp: split_ends_def)
  have h: "dh_lines h = map (Pair CHR '' '') (drop p P) @ map (Pair CHR ''-'') R @ map (Pair CHR ''+'') I @ map (Pair CHR '' '') (take q S)"
      "dh_old_count h = length old - b + q - p" "dh_new_count h = length new - b + q - p"
      "dh_old_start h = (if length old - b + q - p = 0 then 0 else p + 1)" "dh_new_start h = (if length new - b + q - p = 0 then 0 else p + 1)"
    unfolding h_def unified_hunk_def Let_def f_def [symmetric] b_def [symmetric] p_def [symmetric] q_def [symmetric]
    using len on by (simp_all add: slice_def)
  have side: "old_side h = drop p P @ R @ take q S" "new_side h = drop p P @ I @ take q S" "context_lines h = drop p P @ take q S"
    unfolding old_side_def new_side_def context_lines_def h by (simp_all add: filter_marked comp_def)
  show ?thesis
    unfolding h_def [symmetric] Let_def
  proof (intro exI conjI)
    show "old = take p P @ old_side h @ drop q S" "new = take p P @ new_side h @ drop q S" unfolding side on by simp_all
    show count: "dh_old_count h = length (old_side h)" "dh_new_count h = length (new_side h)" using len by (simp_all add: h(2,3) side on)
    show "old_side h \<noteq> [] \<longrightarrow> dh_old_start h = length (take p P) + 1" "new_side h \<noteq> [] \<longrightarrow> dh_new_start h = length (take p P) + 1"
      using len count h(2-5) by auto
    show "length (context_lines h) \<le> 2 * UNIFIED_DIFF_CONTEXT" using len by (simp add: side)
  qed
qed

section \<open>Changes the diff does not show\<close>

lemma split_newline_ne [simp]: "split_newline s \<noteq> []"
  by (cases s) (auto split: list.split)

lemma split_newline_snoc: "split_newline (s @ [CHR 0x0A]) = split_newline s @ [[]]"
  by (induction s) (auto split: list.split)

fun join_newline :: "string list \<Rightarrow> string" where
  "join_newline [] = []"
| "join_newline [l] = l"
| "join_newline (l # ls) = l @ CHR 0x0A # join_newline ls"

lemma join_newline_Cons: "ls \<noteq> [] \<Longrightarrow> join_newline (l # ls) = l @ CHR 0x0A # join_newline ls"
  by (cases ls) auto

lemma join_split_newline: "join_newline (split_newline s) = s"
proof (induction s)
  case (Cons b s)
  show ?case
  proof (cases "b = CHR 0x0A")
    case True
    then show ?thesis using Cons by (simp add: join_newline_Cons)
  next
    case False
    then obtain l ls where "split_newline s = l # ls" using split_newline_ne by (metis neq_Nil_conv)
    then show ?thesis using False Cons by (cases ls) auto
  qed
qed simp

lemma split_newline_inj: "split_newline s = split_newline t \<Longrightarrow> s = t"
  by (metis join_split_newline)

definition ends_line :: "string \<Rightarrow> bool" where
  "ends_line s \<longleftrightarrow> s \<noteq> [] \<and> last s = CHR 0x0A"

lemma split_unified_ends: "ends_line s \<Longrightarrow> split_unified_lines s = split_newline (butlast s)"
proof -
  assume "ends_line s"
  then have "s = butlast s @ [CHR 0x0A]" by (metis append_butlast_last_id ends_line_def)
  then show ?thesis using \<open>ends_line s\<close> split_newline_snoc [of "butlast s"] by (simp add: split_unified_lines_def ends_line_def)
qed

lemma split_unified_not: "\<not> ends_line s \<Longrightarrow> s \<noteq> [] \<Longrightarrow> split_unified_lines s = split_newline s"
  by (simp add: split_unified_lines_def ends_line_def)

definition adds_final_newline :: "string \<Rightarrow> string \<Rightarrow> bool" where
  "adds_final_newline a b \<longleftrightarrow> a \<noteq> [] \<and> \<not> ends_line a \<and> b = a @ [CHR 0x0A]"

lemma same_lines:
  "split_unified_lines a = split_unified_lines b \<longleftrightarrow> a = b \<or> adds_final_newline a b \<or> adds_final_newline b a"
proof
  assume eq: "split_unified_lines a = split_unified_lines b"
  have empty: "split_unified_lines s = [] \<longleftrightarrow> s = []" for s
    by (metis split_newline_ne split_unified_ends split_unified_lines_def split_unified_not)
  have mixed: "adds_final_newline x y" if "split_unified_lines x = split_unified_lines y" "\<not> ends_line x" "ends_line y" "x \<noteq> []" for x y
  proof -
    have "x = butlast y" using that split_unified_ends split_unified_not split_newline_inj by metis
    then show ?thesis using that by (metis adds_final_newline_def append_butlast_last_id ends_line_def)
  qed
  show "a = b \<or> adds_final_newline a b \<or> adds_final_newline b a"
  proof (cases "a = [] \<or> b = []")
    case True
    then show ?thesis using eq empty by metis
  next
    case False
    consider "ends_line a" "ends_line b" | "\<not> ends_line a" "\<not> ends_line b" | "\<not> ends_line a" "ends_line b" | "ends_line a" "\<not> ends_line b"
      by blast
    then show ?thesis
    proof cases
      case 1
      then have "butlast a = butlast b" using eq split_unified_ends split_newline_inj by metis
      then show ?thesis using 1 by (metis append_butlast_last_id ends_line_def)
    next
      case 2
      then show ?thesis using eq False split_unified_not split_newline_inj by metis
    next
      case 3
      then show ?thesis using mixed eq False by blast
    next
      case 4
      then show ?thesis using mixed [of b a] eq False by metis
    qed
  qed
next
  have add: "split_unified_lines x = split_unified_lines y" if "adds_final_newline x y" for x y
    using that split_unified_ends [of y] split_unified_not [of x] by (auto simp: adds_final_newline_def ends_line_def)
  assume "a = b \<or> adds_final_newline a b \<or> adds_final_newline b a"
  then show "split_unified_lines a = split_unified_lines b" using add by metis
qed

text \<open>
  The diff hides exactly the final newline. The unified diff shown for approval has no
  hunk if and only if the contents are equal or differ only in the line feed at the end of the
  last line; in the second case the summary reports a change that the diff does not show.
\<close>

lemma diff_hides_only_the_final_newline:
  "(unified_diff_for_path path a b = diff_header path \<longleftrightarrow> a = b \<or> adds_final_newline a b \<or> adds_final_newline b a) \<and>
   (adds_final_newline a b \<longrightarrow> ds_changed (diff_for_path path a b) \<and> ds_unified_diff (diff_for_path path a b) = diff_header path)"
  using same_lines [of a b]
  by (auto simp: unified_diff_for_path_def Let_def hunk_text_def diff_for_path_def adds_final_newline_def)

section \<open>Witnesses\<close>

lemma summary_describes_the_edit_witness:
  "let d = diff_for_path ''f'' ''abXcd'' ''abYYcd'' in
   \<exists>P R I S. ''abXcd'' = P @ R @ S \<and> ''abYYcd'' = P @ I @ S \<and> ds_removed_bytes d = length R \<and> ds_inserted_bytes d = length I \<and> ds_byte_delta d = 1 \<and>
     (ds_changed d \<longleftrightarrow> R \<noteq> [] \<or> I \<noteq> [])"
proof -
  have "ds_byte_delta (diff_for_path ''f'' ''abXcd'' ''abYYcd'') = 1" by (simp add: diff_for_path_def Let_def)
  then show ?thesis using summary_describes_the_edit [of "''f''" "''abXcd''" "''abYYcd''"]
    unfolding Let_def by (elim exE conjE) (intro exI conjI, assumption+)
qed

theorem hunk_patches_old_into_new_witness:
  "let h = unified_hunk [''a'', ''b''] [''a'', ''c''] in
   \<exists>before after. [''a'', ''b''] = before @ old_side h @ after \<and> [''a'', ''c''] = before @ new_side h @ after \<and>
     dh_lines h = [(CHR '' '', ''a''), (CHR ''-'', ''b''), (CHR ''+'', ''c'')]"
proof -
  have "dh_lines (unified_hunk [''a'', ''b''] [''a'', ''c'']) = [(CHR '' '', ''a''), (CHR ''-'', ''b''), (CHR ''+'', ''c'')]"
    by (simp add: unified_hunk_def skip_back_def Let_def slice_def UNIFIED_DIFF_CONTEXT_def)
  then show ?thesis using hunk_patches_old_into_new [of "[''a'', ''b'']" "[''a'', ''c'']"]
    unfolding Let_def by (elim exE conjE) (intro exI conjI, assumption+)
qed

lemma diff_hides_only_the_final_newline_witness:
  "ds_changed (diff_for_path ''f'' ''a'' [CHR ''a'', CHR 0x0A]) \<and>
   ds_unified_diff (diff_for_path ''f'' ''a'' [CHR ''a'', CHR 0x0A]) = diff_header ''f''"
  using diff_hides_only_the_final_newline [of "''f''" "''a''" "[CHR ''a'', CHR 0x0A]"]
  by (simp add: adds_final_newline_def ends_line_def)

end
