(* ===== verification/Workspace_Files.thy ===== *)
theory Workspace_Files
  imports Workspace_Diff
begin

text \<open>
  Confinement of paths to the workspace and revision-checked replacement of files
  (\<open>yeux-runtime/src/workspace.rs\<close>, the Unix variant). The operating system is a parameter:
  the record \<open>os\<close> has the system calls that the source makes. A call takes the world to a new
  world, in which other processes may have acted, and returns a result; nothing is assumed of
  it. An operation of the workspace is a function from the world to a new world and a result.

  The theorems say what an operation guarantees whatever the system answers: a failing
  replacement has not published anything, unless it reports that durability is uncertain, and
  a successful one has validated exactly the object it replaces.
\<close>

section \<open>System calls\<close>

datatype io_kind = KindNotFound | KindLoop | KindNotADirectory | KindAlreadyExists | KindOther

record io_error =
  ie_kind :: io_kind
  ie_text :: string

record metadata =
  md_device :: nat
  md_inode :: nat
  md_len :: nat
  md_mode :: nat
  md_nlink :: nat
  md_mtime :: "int \<times> nat"
  md_ctime :: "int \<times> nat"
  md_is_file :: bool
  md_is_dir :: bool

type_synonym fd = nat
type_synonym ('w, 'e, 'a) act = "'w \<Rightarrow> 'w \<times> ('e, 'a) rust_result"

text \<open>
  The calls: \<open>canonicalize\<close>, \<open>is_dir\<close> and \<open>stat\<close> on a path; \<open>open\<close> of a directory without
  following links; \<open>openat\<close> of a directory or a file without following links, and of a new
  file with \<open>O_EXCL\<close>; \<open>fstat\<close>, \<open>read\<close> to the end or up to a bound, \<open>write\<close>, \<open>fchmod\<close>,
  \<open>fsync\<close>, \<open>dup\<close>; \<open>renameat\<close> and \<open>unlinkat\<close>. \<open>os_sequence\<close> is the counter of temporary
  names, \<open>os_hash\<close> the BLAKE3 digest in hexadecimal.
\<close>

record 'w os =
  os_canonicalize :: "string \<Rightarrow> ('w, io_error, string) act"
  os_is_dir :: "string \<Rightarrow> 'w \<Rightarrow> 'w \<times> bool"
  os_stat :: "string \<Rightarrow> ('w, io_error, metadata) act"
  os_open_directory :: "string \<Rightarrow> ('w, io_error, fd) act"
  os_openat_directory :: "fd \<Rightarrow> string \<Rightarrow> ('w, io_error, fd) act"
  os_openat_file :: "fd \<Rightarrow> string \<Rightarrow> ('w, io_error, fd) act"
  os_openat_new :: "fd \<Rightarrow> string \<Rightarrow> ('w, io_error, fd) act"
  os_fstat :: "fd \<Rightarrow> ('w, io_error, metadata) act"
  os_read_all :: "fd \<Rightarrow> ('w, io_error, string) act"
  os_read_at_most :: "fd \<Rightarrow> nat \<Rightarrow> ('w, io_error, string) act"
  os_write_all :: "fd \<Rightarrow> string \<Rightarrow> ('w, io_error, unit) act"
  os_set_permissions :: "fd \<Rightarrow> nat \<Rightarrow> ('w, io_error, unit) act"
  os_sync :: "fd \<Rightarrow> ('w, io_error, unit) act"
  os_dup :: "fd \<Rightarrow> ('w, io_error, fd) act"
  os_renameat :: "fd \<Rightarrow> string \<Rightarrow> fd \<Rightarrow> string \<Rightarrow> ('w, io_error, unit) act"
  os_unlinkat :: "fd \<Rightarrow> string \<Rightarrow> ('w, io_error, unit) act"
  os_sequence :: "'w \<Rightarrow> 'w \<times> nat"
  os_process_id :: nat
  os_hash :: "string \<Rightarrow> string"

section \<open>Sequencing\<close>

definition abind :: "('w, 'e, 'a) act \<Rightarrow> ('a \<Rightarrow> ('w, 'e, 'b) act) \<Rightarrow> ('w, 'e, 'b) act" where
  "abind m f w = (case m w of (w', Inl e) \<Rightarrow> (w', Err e) | (w', Inr x) \<Rightarrow> f x w')"

definition areturn :: "'a \<Rightarrow> ('w, 'e, 'a) act" where
  "areturn x w = (w, Ok x)"

definition afail :: "'e \<Rightarrow> ('w, 'e, 'a) act" where
  "afail e w = (w, Err e)"

definition aguard :: "bool \<Rightarrow> 'e \<Rightarrow> ('w, 'e, unit) act" where
  "aguard ok e = (if ok then areturn () else afail e)"

definition alift :: "('e, 'a) rust_result \<Rightarrow> ('w, 'e, 'a) act" where
  "alift r w = (w, r)"

definition amap_err :: "('e \<Rightarrow> 'f) \<Rightarrow> ('w, 'e, 'a) act \<Rightarrow> ('w, 'f, 'a) act" where
  "amap_err g m w = (case m w of (w', r) \<Rightarrow> (w', map_err g r))"

definition io :: "('w, io_error, 'a) act \<Rightarrow> ('w, workspace_error, 'a) act" where
  "io = amap_err (\<lambda>e. workspace_error.Io (ie_text e))"

text \<open>An error that is \<open>NotFound\<close> names the given path.\<close>

definition io_or_not_found :: "string \<Rightarrow> ('w, io_error, 'a) act \<Rightarrow> ('w, workspace_error, 'a) act" where
  "io_or_not_found path =
     amap_err (\<lambda>e. if ie_kind e = KindNotFound then NotFound path else workspace_error.Io (ie_text e))"

section \<open>Paths\<close>

definition path_join :: "string \<Rightarrow> string \<Rightarrow> string" where
  "path_join base path =
     (if path \<noteq> [] \<and> hd path = CHR ''/'' then path
      else if base = [] \<or> last base = CHR ''/'' then base @ path else base @ ''/'' @ path)"

definition normal_names :: "component list \<Rightarrow> string list" where
  "normal_names cs = List.map_filter (\<lambda>c. case c of Normal v \<Rightarrow> Some v | _ \<Rightarrow> None) cs"

definition path_of_names :: "string list \<Rightarrow> string" where
  "path_of_names names = foldl path_join [] names"

definition component_str :: "component \<Rightarrow> string" where
  "component_str c = (case c of RootDir \<Rightarrow> ''/'' | CurDir \<Rightarrow> ''.'' | ParentDir \<Rightarrow> ''..'' | Normal v \<Rightarrow> v)"

text \<open>\<open>strip_prefix\<close>: the components after the prefix, as a path.\<close>

definition strip_prefix :: "string \<Rightarrow> string \<Rightarrow> string option" where
  "strip_prefix base path =
     (if path_starts_with path base
      then Some (path_of_names (map component_str (drop (length (components base)) (components path)))) else None)"

definition validate_relative_allow_empty :: "string \<Rightarrow> (workspace_error, string) rust_result" where
  "validate_relative_allow_empty path =
     (if CHR 0x00 \<in> set path \<or> is_absolute path \<or> escapes path then Err (InvalidRelativePath path)
      else Ok (path_of_names (normal_names (components path))))"

definition validate_relative :: "string \<Rightarrow> (workspace_error, string) rust_result" where
  "validate_relative path =
     rbind (validate_relative_allow_empty path) (\<lambda>p. if p = [] then Err (InvalidRelativePath p) else Ok p)"

definition relative_parent :: "string \<Rightarrow> string" where
  "relative_parent path = path_of_names (map component_str (butlast (components path)))"

section \<open>Identities\<close>

record file_identity =
  fi_device :: "nat option"
  fi_inode :: "nat option"
  fi_byte_length :: nat
  fi_mode :: "nat option"
  fi_link_count :: "nat option"
  fi_modified :: "(int \<times> nat) option"
  fi_changed :: "(int \<times> nat) option"

definition file_identity_of :: "metadata \<Rightarrow> file_identity" where
  "file_identity_of m =
     \<lparr>fi_device = Some (md_device m), fi_inode = Some (md_inode m), fi_byte_length = md_len m, fi_mode = Some (md_mode m),
      fi_link_count = Some (md_nlink m), fi_modified = Some (md_mtime m), fi_changed = Some (md_ctime m)\<rparr>"

definition same_file_object :: "file_identity \<Rightarrow> file_identity \<Rightarrow> bool" where
  "same_file_object l r =
     (case (fi_device l, fi_inode l, fi_device r, fi_inode r) of
        (Some ld, Some li, Some rd, Some ri) \<Rightarrow> ld = rd \<and> li = ri \<and> fi_mode l = fi_mode r
      | _ \<Rightarrow> fi_byte_length l = fi_byte_length r)"

definition ensure_single_link :: "metadata \<Rightarrow> string \<Rightarrow> (workspace_error, unit) rust_result" where
  "ensure_single_link m path = (if md_nlink m > 1 then Err (MultipleHardLinks path) else Ok ())"

definition ensure_file_identity_unchanged :: "'w os \<Rightarrow> fd \<Rightarrow> metadata \<Rightarrow> string \<Rightarrow> ('w, workspace_error, unit) act" where
  "ensure_file_identity_unchanged os handle before relative =
     abind (io (os_fstat os handle)) (\<lambda>after.
     let b = file_identity_of before; a = file_identity_of after in
     if \<not> same_file_object b a \<or> fi_byte_length b \<noteq> fi_byte_length a \<or> fi_link_count b \<noteq> fi_link_count a \<or>
        fi_modified b \<noteq> fi_modified a \<or> fi_changed b \<noteq> fi_changed a
     then afail (FileChangedDuringRead relative)
     else alift (ensure_single_link after relative))"

definition revision_snapshot_from_parts :: "string \<Rightarrow> string \<Rightarrow> file_identity \<Rightarrow> file_revision_snapshot" where
  "revision_snapshot_from_parts relative revision identity =
     \<lparr>fr_relative_path = relative, fr_revision = revision, fr_byte_length = fi_byte_length identity,
      fr_device = fi_device identity, fr_inode = fi_inode identity\<rparr>"

definition digest_open_file :: "'w os \<Rightarrow> fd \<Rightarrow> ('w, workspace_error, string) act" where
  "digest_open_file os handle = abind (io (os_read_all os handle)) (\<lambda>bytes. areturn (os_hash os bytes))"

text \<open>Little-endian bytes of a \<open>u64\<close>.\<close>

definition le_bytes :: "nat \<Rightarrow> string" where
  "le_bytes n = map (\<lambda>i. char_of (n div 256 ^ i mod 256)) [0..<8]"

definition identity_of_metadata :: "'w os \<Rightarrow> string \<Rightarrow> metadata \<Rightarrow> (workspace_error, workspace_identity_snapshot) rust_result" where
  "identity_of_metadata os root m =
     (if \<not> md_is_dir m then Err (NotDirectory root)
      else Ok \<lparr>wis_canonical_root = root, wis_digest = os_hash os (root @ le_bytes (md_device m) @ le_bytes (md_inode m)),
               wis_device = Some (md_device m), wis_inode = Some (md_inode m)\<rparr>)"

definition snapshot_for_descriptor :: "'w os \<Rightarrow> string \<Rightarrow> fd \<Rightarrow> ('w, workspace_error, workspace_identity_snapshot) act" where
  "snapshot_for_descriptor os root handle = abind (io (os_fstat os handle)) (\<lambda>m. alift (identity_of_metadata os root m))"

definition snapshot_for_canonical_root :: "'w os \<Rightarrow> string \<Rightarrow> ('w, workspace_error, workspace_identity_snapshot) act" where
  "snapshot_for_canonical_root os root = abind (io (os_stat os root)) (\<lambda>m. alift (identity_of_metadata os root m))"

section \<open>The workspace\<close>

record workspace_handle =
  wk_root :: string
  wk_identity :: string
  wk_root_identity :: workspace_identity_snapshot
  wk_root_dir :: fd

definition workspace_open :: "'w os \<Rightarrow> string \<Rightarrow> ('w, workspace_error, workspace_handle) act" where
  "workspace_open os path =
     abind (io (os_canonicalize os path)) (\<lambda>root.
     abind (\<lambda>w. case os_is_dir os root w of (w', b) \<Rightarrow> (w', Ok b)) (\<lambda>is_dir.
     abind (aguard is_dir (NotDirectory root)) (\<lambda>_.
     abind (io_or_not_found root (os_open_directory os root)) (\<lambda>root_dir.
     abind (snapshot_for_descriptor os root root_dir) (\<lambda>descriptor_identity.
     abind (snapshot_for_canonical_root os root) (\<lambda>path_identity.
     abind (aguard (path_identity = descriptor_identity) (WorkspaceIdentityChanged descriptor_identity path_identity)) (\<lambda>_.
     areturn \<lparr>wk_root = root, wk_identity = wis_digest descriptor_identity, wk_root_identity = descriptor_identity,
              wk_root_dir = root_dir\<rparr>)))))))"

definition live_identity :: "'w os \<Rightarrow> workspace_handle \<Rightarrow> ('w, workspace_error, workspace_identity_snapshot) act" where
  "live_identity os wk =
     abind (io_or_not_found (wk_root wk) (os_canonicalize os (wk_root wk))) (\<lambda>canonical.
     abind (io_or_not_found (wk_root wk) (os_open_directory os canonical)) (\<lambda>descriptor.
     snapshot_for_descriptor os canonical descriptor))"

definition revalidate_identity :: "'w os \<Rightarrow> workspace_handle \<Rightarrow> ('w, workspace_error, workspace_identity_snapshot) act" where
  "revalidate_identity os wk =
     abind (live_identity os wk) (\<lambda>actual.
     if actual \<noteq> wk_root_identity wk then afail (WorkspaceIdentityChanged (wk_root_identity wk) actual)
     else areturn actual)"

definition revalidate_identity_against ::
  "'w os \<Rightarrow> workspace_handle \<Rightarrow> workspace_identity_snapshot \<Rightarrow> ('w, workspace_error, workspace_identity_snapshot) act" where
  "revalidate_identity_against os wk expected =
     abind (live_identity os wk) (\<lambda>actual.
     if actual \<noteq> expected then afail (WorkspaceIdentityChanged expected actual)
     else if actual \<noteq> wk_root_identity wk then afail (WorkspaceIdentityChanged (wk_root_identity wk) actual)
     else areturn actual)"

definition revalidate_identity_digest ::
  "'w os \<Rightarrow> workspace_handle \<Rightarrow> string \<Rightarrow> ('w, workspace_error, workspace_identity_snapshot) act" where
  "revalidate_identity_digest os wk expected_digest =
     abind (revalidate_identity os wk) (\<lambda>actual.
     if wis_digest actual \<noteq> expected_digest then afail (WorkspaceIdentityDigestMismatch expected_digest (wis_digest actual))
     else areturn actual)"

section \<open>Opening below the root\<close>

fun walk_directories :: "'w os \<Rightarrow> fd \<Rightarrow> string list \<Rightarrow> ('w, io_error, fd) act" where
  "walk_directories os current [] = areturn current"
| "walk_directories os current (name # names) =
     abind (os_openat_directory os current name) (\<lambda>next_fd. walk_directories os next_fd names)"

definition open_directory_relative_nofollow :: "'w os \<Rightarrow> fd \<Rightarrow> string \<Rightarrow> ('w, io_error, fd) act" where
  "open_directory_relative_nofollow os root relative =
     abind (os_dup os root) (\<lambda>current. walk_directories os current (map component_str (components relative)))"

record opened_relative =
  or_parent :: fd
  or_name :: string
  or_file :: fd
  or_metadata :: metadata

definition open_relative_nofollow :: "'w os \<Rightarrow> fd \<Rightarrow> string \<Rightarrow> ('w, io_error, opened_relative) act" where
  "open_relative_nofollow os root relative =
     (let names = map component_str (components relative) in
      if names = [] then afail \<lparr>ie_kind = KindOther, ie_text = ''workspace relative path must contain a file name''\<rparr>
      else
        abind (os_dup os root) (\<lambda>start.
        abind (walk_directories os start (butlast names)) (\<lambda>parent.
        abind (os_openat_file os parent (last names)) (\<lambda>handle.
        abind (os_fstat os handle) (\<lambda>m.
        areturn \<lparr>or_parent = parent, or_name = last names, or_file = handle, or_metadata = m\<rparr>)))))"

definition canonical_relative :: "workspace_handle \<Rightarrow> string \<Rightarrow> (workspace_error, string) rust_result" where
  "canonical_relative wk absolute =
     (case strip_prefix (wk_root wk) absolute of
        None \<Rightarrow> Err (OutsideWorkspace (wk_root wk) absolute)
      | Some relative \<Rightarrow> validate_relative relative)"

text \<open>A best-effort classification of the error of a component walk; it may canonicalise the path once.\<close>

definition map_secure_path_error :: "'w os \<Rightarrow> workspace_handle \<Rightarrow> string \<Rightarrow> io_error \<Rightarrow> 'w \<Rightarrow> 'w \<times> workspace_error" where
  "map_secure_path_error os wk relative e w =
     (if ie_kind e = KindNotFound then (w, NotFound relative)
      else if ie_kind e = KindLoop \<or> ie_kind e = KindNotADirectory
      then (case os_canonicalize os (path_join (wk_root wk) relative) w of
              (w', Inl _) \<Rightarrow> (w', ResolvedPathChanged relative relative)
            | (w', Inr canonical) \<Rightarrow>
                (w', if \<not> path_starts_with canonical (wk_root wk) then OutsideWorkspace (wk_root wk) canonical
                     else (case canonical_relative wk canonical of
                             Inr actual \<Rightarrow> ResolvedPathChanged relative actual
                           | Inl _ \<Rightarrow> ResolvedPathChanged relative relative)))
      else (w, workspace_error.Io (ie_text e)))"

definition secure :: "'w os \<Rightarrow> workspace_handle \<Rightarrow> string \<Rightarrow> ('w, io_error, 'a) act \<Rightarrow> ('w, workspace_error, 'a) act" where
  "secure os wk relative m w =
     (case m w of
        (w1, Inr x) \<Rightarrow> (w1, Ok x)
      | (w1, Inl e) \<Rightarrow> (case map_secure_path_error os wk relative e w1 of (w2, e') \<Rightarrow> (w2, Err e')))"

definition open_secure_regular :: "'w os \<Rightarrow> workspace_handle \<Rightarrow> string \<Rightarrow> ('w, workspace_error, opened_relative) act" where
  "open_secure_regular os wk relative =
     abind (revalidate_identity os wk) (\<lambda>_.
     abind (secure os wk relative (open_relative_nofollow os (wk_root_dir wk) relative)) (\<lambda>opened.
     abind (io (os_fstat os (or_file opened))) (\<lambda>m.
     abind (aguard (md_is_file m) (NotAFile relative)) (\<lambda>_.
     abind (alift (ensure_single_link m relative)) (\<lambda>_.
     abind (revalidate_identity os wk) (\<lambda>_.
     areturn (opened\<lparr>or_metadata := m\<rparr>)))))))"

definition open_secure_directory :: "'w os \<Rightarrow> workspace_handle \<Rightarrow> string \<Rightarrow> ('w, workspace_error, fd) act" where
  "open_secure_directory os wk relative =
     abind (revalidate_identity os wk) (\<lambda>_.
     abind (secure os wk relative (open_directory_relative_nofollow os (wk_root_dir wk) relative)) (\<lambda>directory.
     abind (io (os_fstat os directory)) (\<lambda>m.
     abind (aguard (md_is_dir m) (NotDirectory relative)) (\<lambda>_.
     abind (revalidate_identity os wk) (\<lambda>_.
     areturn directory)))))"

definition verify_parent_descriptor :: "'w os \<Rightarrow> workspace_handle \<Rightarrow> string \<Rightarrow> fd \<Rightarrow> ('w, workspace_error, unit) act" where
  "verify_parent_descriptor os wk relative expected_parent =
     (let parent_relative = relative_parent relative in
      abind (secure os wk parent_relative (open_directory_relative_nofollow os (wk_root_dir wk) parent_relative)) (\<lambda>live_parent.
      abind (io (os_fstat os expected_parent)) (\<lambda>em.
      abind (io (os_fstat os live_parent)) (\<lambda>am.
      let e = file_identity_of em; a = file_identity_of am in
      if \<not> same_file_object e a
      then afail (FileIdentityChanged relative (fi_device e) (fi_inode e) (fi_device a) (fi_inode a))
      else areturn ()))))"

definition open_regular_at :: "'w os \<Rightarrow> fd \<Rightarrow> string \<Rightarrow> string \<Rightarrow> ('w, workspace_error, fd \<times> metadata) act" where
  "open_regular_at os parent name display_path =
     abind (io (os_openat_file os parent name)) (\<lambda>handle.
     abind (io (os_fstat os handle)) (\<lambda>m.
     abind (aguard (md_is_file m) (NotAFile display_path)) (\<lambda>_.
     abind (alift (ensure_single_link m display_path)) (\<lambda>_.
     areturn (handle, m)))))"

definition ensure_contained :: "workspace_handle \<Rightarrow> string \<Rightarrow> (workspace_error, unit) rust_result" where
  "ensure_contained wk canonical =
     (if path_starts_with canonical (wk_root wk) then Ok () else Err (OutsideWorkspace (wk_root wk) canonical))"

definition resolve_existing :: "'w os \<Rightarrow> workspace_handle \<Rightarrow> string \<Rightarrow> ('w, workspace_error, string) act" where
  "resolve_existing os wk relative =
     abind (revalidate_identity os wk) (\<lambda>_.
     abind (io_or_not_found relative (os_canonicalize os (path_join (wk_root wk) relative))) (\<lambda>canonical.
     abind (revalidate_identity os wk) (\<lambda>_.
     abind (alift (ensure_contained wk canonical)) (\<lambda>_.
     areturn canonical))))"

definition resolve_expected :: "'w os \<Rightarrow> workspace_handle \<Rightarrow> string \<Rightarrow> ('w, workspace_error, string) act" where
  "resolve_expected os wk relative =
     abind (resolve_existing os wk relative) (\<lambda>canonical.
     abind (alift (canonical_relative wk canonical)) (\<lambda>actual.
     if components actual \<noteq> components relative then afail (ResolvedPathChanged relative actual)
     else abind (open_secure_regular os wk relative) (\<lambda>_. areturn canonical)))"

definition resolve_directory :: "'w os \<Rightarrow> workspace_handle \<Rightarrow> string \<Rightarrow> ('w, workspace_error, string) act" where
  "resolve_directory os wk path =
     abind (revalidate_identity os wk) (\<lambda>_.
     abind (alift (validate_relative_allow_empty path)) (\<lambda>relative.
     abind (if relative = [] then areturn (wk_root wk) else resolve_existing os wk relative) (\<lambda>directory.
     abind (\<lambda>w. case os_is_dir os directory w of (w', b) \<Rightarrow> (w', Ok b)) (\<lambda>is_dir.
     abind (aguard is_dir (NotDirectory relative)) (\<lambda>_.
     abind (if relative = [] then areturn () else abind (open_secure_directory os wk relative) (\<lambda>_. areturn ())) (\<lambda>_.
     abind (revalidate_identity os wk) (\<lambda>_.
     areturn directory)))))))"

section \<open>Reading\<close>

record revisioned_file =
  rf_relative_path :: string
  rf_revision :: string
  rf_bytes :: string

definition open_alias :: "'w os \<Rightarrow> workspace_handle \<Rightarrow> string \<Rightarrow> ('w, workspace_error, opened_relative) act" where
  "open_alias os wk relative =
     abind (resolve_existing os wk relative) (\<lambda>absolute.
     abind (alift (canonical_relative wk absolute)) (\<lambda>canonical.
     open_secure_regular os wk canonical))"

definition revisioned :: "'w os \<Rightarrow> string \<Rightarrow> string \<Rightarrow> revisioned_file" where
  "revisioned os relative bytes = \<lparr>rf_relative_path = relative, rf_revision = os_hash os bytes, rf_bytes = bytes\<rparr>"

definition workspace_read :: "'w os \<Rightarrow> workspace_handle \<Rightarrow> string \<Rightarrow> ('w, workspace_error, revisioned_file) act" where
  "workspace_read os wk path =
     abind (alift (validate_relative path)) (\<lambda>relative.
     abind (open_alias os wk relative) (\<lambda>opened.
     abind (io (os_read_all os (or_file opened))) (\<lambda>bytes.
     abind (ensure_file_identity_unchanged os (or_file opened) (or_metadata opened) relative) (\<lambda>_.
     abind (revalidate_identity os wk) (\<lambda>_.
     areturn (revisioned os relative bytes))))))"

text \<open>The bounded read: one byte more than the limit is requested, so that growth is noticed.\<close>

definition read_bounded ::
  "'w os \<Rightarrow> workspace_handle \<Rightarrow> string \<Rightarrow> opened_relative \<Rightarrow> nat \<Rightarrow> ('w, workspace_error, string) act" where
  "read_bounded os wk relative opened limit =
     abind (aguard (md_len (or_metadata opened) \<le> limit) (ReadLimitExceeded relative limit)) (\<lambda>_.
     abind (io (os_read_at_most os (or_file opened) (saturating_add limit 1))) (\<lambda>bytes.
     abind (aguard (length bytes \<le> limit) (ReadLimitExceeded relative limit)) (\<lambda>_.
     abind (ensure_file_identity_unchanged os (or_file opened) (or_metadata opened) relative) (\<lambda>_.
     abind (revalidate_identity os wk) (\<lambda>_.
     areturn bytes)))))"

definition read_limited :: "'w os \<Rightarrow> workspace_handle \<Rightarrow> string \<Rightarrow> nat \<Rightarrow> ('w, workspace_error, revisioned_file) act" where
  "read_limited os wk path limit =
     abind (alift (validate_relative path)) (\<lambda>relative.
     abind (open_alias os wk relative) (\<lambda>opened.
     abind (read_bounded os wk relative opened limit) (\<lambda>bytes.
     areturn (revisioned os relative bytes))))"

definition read_resolved_limited_with_snapshot ::
  "'w os \<Rightarrow> workspace_handle \<Rightarrow> string \<Rightarrow> nat \<Rightarrow> ('w, workspace_error, revisioned_file \<times> file_revision_snapshot) act" where
  "read_resolved_limited_with_snapshot os wk path limit =
     abind (alift (validate_relative path)) (\<lambda>relative.
     abind (resolve_expected os wk relative) (\<lambda>_.
     abind (open_secure_regular os wk relative) (\<lambda>opened.
     abind (read_bounded os wk relative opened limit) (\<lambda>bytes.
     areturn (revisioned os relative bytes,
       revision_snapshot_from_parts relative (os_hash os bytes) (file_identity_of (or_metadata opened)))))))"

definition read_resolved_limited :: "'w os \<Rightarrow> workspace_handle \<Rightarrow> string \<Rightarrow> nat \<Rightarrow> ('w, workspace_error, revisioned_file) act" where
  "read_resolved_limited os wk path limit =
     abind (read_resolved_limited_with_snapshot os wk path limit) (\<lambda>(rf, _). areturn rf)"

definition resolve_regular_file :: "'w os \<Rightarrow> workspace_handle \<Rightarrow> string \<Rightarrow> ('w, workspace_error, string \<times> nat) act" where
  "resolve_regular_file os wk path =
     abind (alift (validate_relative path)) (\<lambda>relative.
     abind (resolve_existing os wk relative) (\<lambda>absolute.
     abind (alift (canonical_relative wk absolute)) (\<lambda>canonical.
     abind (open_secure_regular os wk canonical) (\<lambda>opened.
     areturn (canonical, md_len (or_metadata opened))))))"

definition regular_file_size :: "'w os \<Rightarrow> workspace_handle \<Rightarrow> string \<Rightarrow> ('w, workspace_error, nat) act" where
  "regular_file_size os wk path = abind (resolve_regular_file os wk path) (\<lambda>(_, byte_length). areturn byte_length)"

definition read_text :: "'w os \<Rightarrow> workspace_handle \<Rightarrow> string \<Rightarrow> ('w, workspace_error, string \<times> string) act" where
  "read_text os wk path =
     abind (workspace_read os wk path) (\<lambda>rf.
     if utf8_valid (rf_bytes rf) then areturn (rf_bytes rf, rf_revision rf) else afail (InvalidUtf8 (rf_relative_path rf)))"

definition revision_snapshot_at :: "'w os \<Rightarrow> workspace_handle \<Rightarrow> string \<Rightarrow> ('w, workspace_error, file_revision_snapshot) act" where
  "revision_snapshot_at os wk relative =
     abind (revalidate_identity os wk) (\<lambda>_.
     abind (open_secure_regular os wk relative) (\<lambda>opened.
     abind (digest_open_file os (or_file opened)) (\<lambda>revision.
     abind (ensure_file_identity_unchanged os (or_file opened) (or_metadata opened) relative) (\<lambda>_.
     abind (revalidate_identity os wk) (\<lambda>_.
     areturn (revision_snapshot_from_parts relative revision (file_identity_of (or_metadata opened))))))))"

definition revision_snapshot :: "'w os \<Rightarrow> workspace_handle \<Rightarrow> string \<Rightarrow> ('w, workspace_error, file_revision_snapshot) act" where
  "revision_snapshot os wk path =
     abind (alift (validate_relative path)) (\<lambda>relative.
     abind (resolve_expected os wk relative) (\<lambda>_.
     revision_snapshot_at os wk relative))"

definition revalidate_revision ::
  "'w os \<Rightarrow> workspace_handle \<Rightarrow> file_revision_snapshot \<Rightarrow> ('w, workspace_error, file_revision_snapshot) act" where
  "revalidate_revision os wk expected =
     abind (alift (validate_relative (fr_relative_path expected))) (\<lambda>relative.
     abind (resolve_expected os wk relative) (\<lambda>_.
     abind (revision_snapshot_at os wk relative) (\<lambda>actual.
     if components (fr_relative_path actual) \<noteq> components (fr_relative_path expected) \<or>
        fr_byte_length actual \<noteq> fr_byte_length expected \<or> fr_device actual \<noteq> fr_device expected \<or>
        fr_inode actual \<noteq> fr_inode expected
     then afail (FileIdentityChanged relative (fr_device expected) (fr_inode expected) (fr_device actual) (fr_inode actual))
     else if fr_revision actual \<noteq> fr_revision expected
     then afail (RevisionChanged relative (fr_revision expected) (fr_revision actual))
     else areturn actual)))"

definition in_workspace :: "('w, workspace_error, 'a) act \<Rightarrow> ('w, apply_patch_error, 'a) act" where
  "in_workspace = amap_err apply_patch_error.Workspace"

definition revalidate_base_revision ::
  "'w os \<Rightarrow> workspace_handle \<Rightarrow> string \<Rightarrow> string \<Rightarrow> ('w, apply_patch_error, file_revision_snapshot) act" where
  "revalidate_base_revision os wk path expected_revision =
     abind (in_workspace (alift (validate_relative path))) (\<lambda>relative.
     abind (in_workspace (resolve_expected os wk relative)) (\<lambda>_.
     abind (in_workspace (revision_snapshot_at os wk relative)) (\<lambda>actual.
     if fr_revision actual \<noteq> expected_revision then afail (StaleRevision relative expected_revision (fr_revision actual))
     else areturn actual)))"

section \<open>Replacing a file\<close>

record apply_patch_result =
  pr_relative_path :: string
  pr_previous_revision :: string
  pr_revision :: string
  pr_bytes_written :: nat

record directory_temp_file =
  dt_parent :: fd
  dt_name :: string
  dt_file :: fd

definition temp_name :: "'w os \<Rightarrow> nat \<Rightarrow> string" where
  "temp_name os sequence = ''.yeux-tmp-'' @ dec_digits (os_process_id os) @ ''-'' @ dec_digits sequence"

fun create_temp :: "'w os \<Rightarrow> fd \<Rightarrow> nat \<Rightarrow> ('w, io_error, directory_temp_file) act" where
  "create_temp os parent 0 w =
     (w, Err \<lparr>ie_kind = KindAlreadyExists, ie_text = ''unable to allocate a unique workspace temporary name''\<rparr>)"
| "create_temp os parent (Suc n) w =
     (case os_sequence os w of
        (w1, sequence) \<Rightarrow>
          (case os_openat_new os parent (temp_name os sequence) w1 of
             (w2, Inr handle) \<Rightarrow> (w2, Ok \<lparr>dt_parent = parent, dt_name = temp_name os sequence, dt_file = handle\<rparr>)
           | (w2, Inl e) \<Rightarrow> if ie_kind e = KindAlreadyExists then create_temp os parent n w2 else (w2, Err e)))"

definition temp_create :: "'w os \<Rightarrow> fd \<Rightarrow> ('w, io_error, directory_temp_file) act" where
  "temp_create os parent = abind (os_dup os parent) (\<lambda>p. create_temp os p 64)"

text \<open>\<open>Drop\<close>: an unpublished temporary file is unlinked, whatever that returns.\<close>

definition dropping :: "'w os \<Rightarrow> directory_temp_file \<Rightarrow> ('w, 'e, 'a) act \<Rightarrow> ('w, 'e, 'a) act" where
  "dropping os temp m w =
     (case m w of
        (w1, Inr x) \<Rightarrow> (w1, Ok x)
      | (w1, Inl e) \<Rightarrow> (fst (os_unlinkat os (dt_parent temp) (dt_name temp) w1), Err e))"

definition patch_io :: "('w, io_error, 'a) act \<Rightarrow> ('w, apply_patch_error, 'a) act" where
  "patch_io = amap_err (\<lambda>e. apply_patch_error.Io (ie_text e))"

text \<open>The first validation of the target.\<close>

definition validate_target ::
  "'w os \<Rightarrow> workspace_handle \<Rightarrow> string \<Rightarrow> string \<Rightarrow> string \<Rightarrow> ('w, apply_patch_error, opened_relative) act" where
  "validate_target os wk result_relative operation_relative base_revision =
     abind (in_workspace (open_secure_regular os wk operation_relative)) (\<lambda>opened.
     abind (in_workspace (digest_open_file os (or_file opened))) (\<lambda>first_revision.
     abind (in_workspace (ensure_file_identity_unchanged os (or_file opened) (or_metadata opened) operation_relative)) (\<lambda>_.
     if first_revision \<noteq> base_revision then afail (StaleRevision result_relative base_revision first_revision)
     else areturn opened)))"

definition fill_temp :: "'w os \<Rightarrow> directory_temp_file \<Rightarrow> string \<Rightarrow> nat \<Rightarrow> ('w, apply_patch_error, unit) act" where
  "fill_temp os temp replacement mode =
     abind (patch_io (os_write_all os (dt_file temp) replacement)) (\<lambda>_.
     abind (patch_io (os_set_permissions os (dt_file temp) mode)) (\<lambda>_.
     patch_io (os_sync os (dt_file temp))))"

text \<open>The validation immediately before the publication.\<close>

definition revalidate_target ::
  "'w os \<Rightarrow> workspace_handle \<Rightarrow> string \<Rightarrow> string \<Rightarrow> string \<Rightarrow> opened_relative \<Rightarrow> ('w, apply_patch_error, unit) act" where
  "revalidate_target os wk result_relative operation_relative base_revision opened =
     abind (in_workspace (revalidate_identity os wk)) (\<lambda>_.
     abind (in_workspace (verify_parent_descriptor os wk operation_relative (or_parent opened))) (\<lambda>_.
     abind (in_workspace (open_regular_at os (or_parent opened) (or_name opened) operation_relative)) (\<lambda>(current, current_metadata).
     let o_id = file_identity_of (or_metadata opened); c_id = file_identity_of current_metadata in
     if \<not> same_file_object o_id c_id
     then afail (apply_patch_error.Workspace
            (FileIdentityChanged result_relative (fi_device o_id) (fi_inode o_id) (fi_device c_id) (fi_inode c_id)))
     else
       abind (in_workspace (digest_open_file os current)) (\<lambda>current_revision.
       abind (in_workspace (ensure_file_identity_unchanged os current current_metadata operation_relative)) (\<lambda>_.
       if current_revision \<noteq> base_revision then afail (StaleRevision result_relative base_revision current_revision)
       else abind (in_workspace (revalidate_identity os wk)) (\<lambda>_. areturn ()))))))"

definition publish_temp :: "'w os \<Rightarrow> directory_temp_file \<Rightarrow> string \<Rightarrow> ('w, apply_patch_error, unit) act" where
  "publish_temp os temp target = patch_io (os_renameat os (dt_parent temp) (dt_name temp) (dt_parent temp) target)"

definition apply_patch_dirfd ::
  "'w os \<Rightarrow> workspace_handle \<Rightarrow> string \<Rightarrow> string \<Rightarrow> string \<Rightarrow> string \<Rightarrow> ('w, apply_patch_error, apply_patch_result) act" where
  "apply_patch_dirfd os wk result_relative operation_relative base_revision replacement =
     abind (validate_target os wk result_relative operation_relative base_revision) (\<lambda>opened.
     abind (patch_io (temp_create os (or_parent opened))) (\<lambda>temp.
     abind (dropping os temp
       (abind (fill_temp os temp replacement (md_mode (or_metadata opened))) (\<lambda>_.
        abind (revalidate_target os wk result_relative operation_relative base_revision opened) (\<lambda>_.
        publish_temp os temp (or_name opened))))) (\<lambda>_.
     abind (amap_err (\<lambda>e. DurabilityUncertain result_relative (ie_text e)) (os_sync os (or_parent opened))) (\<lambda>_.
     areturn \<lparr>pr_relative_path = result_relative, pr_previous_revision = base_revision,
              pr_revision = os_hash os replacement, pr_bytes_written = length replacement\<rparr>))))"

definition apply_patch_inner ::
  "'w os \<Rightarrow> workspace_handle \<Rightarrow> string \<Rightarrow> string \<Rightarrow> string \<Rightarrow> bool \<Rightarrow> ('w, apply_patch_error, apply_patch_result) act" where
  "apply_patch_inner os wk relative base_revision replacement require_resolved_path =
     abind (in_workspace (revalidate_identity os wk)) (\<lambda>_.
     abind (in_workspace
       (if require_resolved_path then abind (resolve_expected os wk relative) (\<lambda>_. areturn relative)
        else abind (resolve_existing os wk relative) (\<lambda>absolute. alift (canonical_relative wk absolute)))) (\<lambda>operation_relative.
     apply_patch_dirfd os wk relative operation_relative base_revision replacement))"

definition apply_patch ::
  "'w os \<Rightarrow> workspace_handle \<Rightarrow> string \<Rightarrow> string \<Rightarrow> string \<Rightarrow> ('w, apply_patch_error, apply_patch_result) act" where
  "apply_patch os wk path base_revision replacement =
     abind (in_workspace (alift (validate_relative path))) (\<lambda>relative.
     apply_patch_inner os wk relative base_revision replacement False)"

definition apply_patch_resolved ::
  "'w os \<Rightarrow> workspace_handle \<Rightarrow> string \<Rightarrow> string \<Rightarrow> string \<Rightarrow> ('w, apply_patch_error, apply_patch_result) act" where
  "apply_patch_resolved os wk path base_revision replacement =
     abind (in_workspace (alift (validate_relative path))) (\<lambda>relative.
     apply_patch_inner os wk relative base_revision replacement True)"

section \<open>Relative paths are confined\<close>

definition valid_name :: "string \<Rightarrow> bool" where
  "valid_name v \<longleftrightarrow> v \<noteq> [] \<and> CHR ''/'' \<notin> set v \<and> v \<noteq> ''.'' \<and> v \<noteq> ''..''"

lemma split_slash_ne [simp]: "split_slash s \<noteq> []"
  by (cases s) (auto split: list.split)

lemma split_slash_append: "split_slash (a @ CHR ''/'' # b) = split_slash a @ split_slash b"
  by (induction a) (auto split: list.split)

lemma split_slash_none: "CHR ''/'' \<notin> set v \<Longrightarrow> split_slash v = [v]"
  by (induction v) auto

lemma split_slash_parts: "v \<in> set (split_slash s) \<Longrightarrow> CHR ''/'' \<notin> set v"
  by (induction s arbitrary: v) (auto split: list.splits if_splits)

lemma split_slash_chars: "v \<in> set (split_slash s) \<Longrightarrow> set v \<subseteq> set s"
  by (induction s arbitrary: v) (fastforce split: list.splits if_splits)+

lemma component_names: "Normal v \<in> set (components s) \<Longrightarrow> valid_name v"
proof -
  assume "Normal v \<in> set (components s)"
  then have "Normal v \<in> set (List.map_filter component_of (split_slash s))" by (auto simp: components_def Let_def split: if_splits)
  then show ?thesis
    using split_slash_parts [of v s] by (auto simp: map_filter_def component_of_def valid_name_def split: if_splits)
qed

lemma component_chars: "Normal v \<in> set (components s) \<Longrightarrow> set v \<subseteq> set s"
proof -
  assume "Normal v \<in> set (components s)"
  then have "Normal v \<in> set (List.map_filter component_of (split_slash s))" by (auto simp: components_def Let_def split: if_splits)
  then show ?thesis
    using split_slash_chars [of v s] by (auto simp: map_filter_def component_of_def split: if_splits)
qed

lemma path_of_names_snoc: "path_of_names (ns @ [n]) = path_join (path_of_names ns) n"
  by (simp add: path_of_names_def)

lemma path_of_names_chars: "set (path_of_names ns) \<subseteq> insert (CHR ''/'') (\<Union>(set ` set ns))"
  by (induction ns rule: rev_induct) (auto simp: path_of_names_def path_join_def)

lemma valid_last: "valid_name v \<Longrightarrow> last v \<noteq> CHR ''/'' \<and> hd v \<noteq> CHR ''/''"
  by (metis hd_in_set last_in_set valid_name_def)

lemma names_of_path:
  assumes "\<forall>v \<in> set ns. valid_name v"
  shows "split_slash (path_of_names ns) = (if ns = [] then [[]] else ns) \<and>
    (ns \<noteq> [] \<longrightarrow> path_of_names ns \<noteq> [] \<and> hd (path_of_names ns) \<noteq> CHR ''/'' \<and> last (path_of_names ns) \<noteq> CHR ''/'')"
  using assms
proof (induction ns rule: rev_induct)
  case Nil
  then show ?case by (simp add: path_of_names_def)
next
  case (snoc n ns)
  then have n: "valid_name n" "n \<noteq> []" "hd n \<noteq> CHR ''/''" "last n \<noteq> CHR ''/''" "split_slash n = [n]"
    using valid_last [of n] split_slash_none by (auto simp: valid_name_def)
  have IH: "split_slash (path_of_names ns) = (if ns = [] then [[]] else ns)"
      "ns \<noteq> [] \<Longrightarrow> path_of_names ns \<noteq> [] \<and> hd (path_of_names ns) \<noteq> CHR ''/'' \<and> last (path_of_names ns) \<noteq> CHR ''/''"
    using snoc by auto
  show ?case
  proof (cases "ns = []")
    case True
    then show ?thesis using n by (simp add: path_of_names_def path_join_def)
  next
    case False
    then have "path_of_names (ns @ [n]) = path_of_names ns @ CHR ''/'' # n"
      using n IH(2) by (simp add: path_of_names_snoc path_join_def)
    then show ?thesis using False n IH by (simp add: split_slash_append)
  qed
qed

lemma components_of_names:
  assumes "\<forall>v \<in> set ns. valid_name v"
  shows "components (path_of_names ns) = map Normal ns"
proof (cases "ns = []")
  case True
  then show ?thesis by (simp add: path_of_names_def components_def component_of_def map_filter_simps)
next
  case False
  have "List.map_filter component_of ns = map Normal ns"
    using assms by (induction ns) (auto simp: map_filter_simps component_of_def valid_name_def)
  moreover have "hd ns \<noteq> ''.''" using assms False by (cases ns) (auto simp: valid_name_def)
  ultimately show ?thesis using names_of_path [OF assms] False by (simp add: components_def Let_def)
qed

lemma normal_names_valid: "\<forall>v \<in> set (normal_names (components s)). valid_name v"
  using component_names by (fastforce simp: normal_names_def map_filter_def split: component.splits)

lemma normal_names_map [simp]: "normal_names (map Normal ns) = ns"
  by (induction ns) (auto simp: normal_names_def map_filter_simps)

text \<open>
  C28: An accepted relative path stays below the root. Validation fails exactly for paths with
  a NUL byte, absolute paths, paths with a parent component and paths without a name; an
  accepted path is a sequence of plain names (no separator, no dot or dot-dot), which are the
  plain names of the request in order, and validating it again returns it unchanged.
\<close>

theorem accepted_path_is_confined:
  "((\<exists>p. validate_relative path = Ok p) \<longleftrightarrow>
      CHR 0x00 \<notin> set path \<and> \<not> is_absolute path \<and> ParentDir \<notin> set (components path) \<and>
      RootDir \<notin> set (components path) \<and> normal_names (components path) \<noteq> []) \<and>
   (\<forall>p. validate_relative path = Ok p \<longrightarrow>
      components p = map Normal (normal_names (components path)) \<and>
      (\<forall>c \<in> set (components p). \<exists>v. c = Normal v \<and> v \<noteq> [] \<and> CHR ''/'' \<notin> set v \<and> v \<noteq> ''.'' \<and> v \<noteq> ''..'') \<and>
      validate_relative p = Ok p)"
proof -
  let ?ns = "normal_names (components path)" and ?p = "path_of_names (normal_names (components path))"
  note valid = normal_names_valid [of path]
  have comp: "components ?p = map Normal ?ns" by (rule components_of_names [OF valid])
  have empty: "?p = [] \<longleftrightarrow> ?ns = []" using names_of_path [OF valid] by (auto simp: path_of_names_def)
  have ok: "(\<exists>p. validate_relative path = Ok p) \<longleftrightarrow>
      CHR 0x00 \<notin> set path \<and> \<not> is_absolute path \<and> ParentDir \<notin> set (components path) \<and>
      RootDir \<notin> set (components path) \<and> ?ns \<noteq> []"
    using empty by (auto simp: validate_relative_def validate_relative_allow_empty_def rbind_def escapes_def list_ex_iff)
  have again: "components p = map Normal ?ns \<and>
      (\<forall>c \<in> set (components p). \<exists>v. c = Normal v \<and> v \<noteq> [] \<and> CHR ''/'' \<notin> set v \<and> v \<noteq> ''.'' \<and> v \<noteq> ''..'') \<and>
      validate_relative p = Ok p" if acc: "validate_relative path = Ok p" for p
  proof -
    have p: "p = ?p" "p \<noteq> []" and nul: "CHR 0x00 \<notin> set path"
      using acc by (auto simp: validate_relative_def validate_relative_allow_empty_def rbind_def split: if_splits)
    have "CHR 0x00 \<notin> set v" if "v \<in> set ?ns" for v
      using that component_chars [of v path] nul by (auto simp: normal_names_def map_filter_def split: component.splits)
    then have nul': "CHR 0x00 \<notin> set p" using path_of_names_chars [of ?ns] p(1) by auto
    have "?ns \<noteq> []" using p empty by simp
    then have "\<not> is_absolute p" using names_of_path [OF valid] p(1) by (simp add: is_absolute_def)
    moreover have "\<not> escapes p" by (auto simp: escapes_def list_ex_iff p(1) comp)
    ultimately have "validate_relative p = Ok p"
      using nul' p by (simp add: validate_relative_def validate_relative_allow_empty_def comp)
    moreover have "\<forall>c \<in> set (components p). \<exists>v. c = Normal v \<and> v \<noteq> [] \<and> CHR ''/'' \<notin> set v \<and> v \<noteq> ''.'' \<and> v \<noteq> ''..''"
      using valid by (auto simp: p(1) comp valid_name_def)
    ultimately show ?thesis using comp p(1) by simp
  qed
  show ?thesis using ok again by blast
qed

theorem accepted_path_is_confined_witness:
  "validate_relative ''./src//a.rs'' = Ok ''src/a.rs'' \<and> components ''src/a.rs'' = [Normal ''src'', Normal ''a.rs''] \<and>
   validate_relative ''src/a.rs'' = Ok ''src/a.rs'' \<and> \<not> (\<exists>p. validate_relative ''src/../../x'' = Ok p) \<and> ParentDir \<in> set (components ''src/../../x'')"
proof -
  have v: "validate_relative ''./src//a.rs'' = Ok ''src/a.rs''" "normal_names (components ''./src//a.rs'') = [''src'', ''a.rs'']"
    "ParentDir \<in> set (components ''src/../../x'')"
    by code_simp+
  show ?thesis using accepted_path_is_confined [of "''./src//a.rs''"] accepted_path_is_confined [of "''src/../../x''"] v by simp
qed

section \<open>What operations leave alone\<close>

named_theorems keeps_intros \<open>composition of operations that keep a property of the world\<close>

definition keeps :: "('w \<Rightarrow> bool) \<Rightarrow> ('w, 'e, 'a) act \<Rightarrow> bool" where
  "keeps I m \<longleftrightarrow> (\<forall>w. I w \<longrightarrow> I (fst (m w)))"

text \<open>
  A property of the world that no system call except a successful \<open>renameat\<close> can change, for
  instance what the names of the workspace refer to, as far as this process is concerned.
\<close>

definition only_rename_changes :: "'w os \<Rightarrow> ('w \<Rightarrow> bool) \<Rightarrow> bool" where
  "only_rename_changes os I \<longleftrightarrow>
     (\<forall>p. keeps I (os_canonicalize os p)) \<and> (\<forall>p w. I w \<longrightarrow> I (fst (os_is_dir os p w))) \<and> (\<forall>p. keeps I (os_stat os p)) \<and>
     (\<forall>p. keeps I (os_open_directory os p)) \<and> (\<forall>d n. keeps I (os_openat_directory os d n)) \<and>
     (\<forall>d n. keeps I (os_openat_file os d n)) \<and> (\<forall>d n. keeps I (os_openat_new os d n)) \<and> (\<forall>d. keeps I (os_fstat os d)) \<and>
     (\<forall>d. keeps I (os_read_all os d)) \<and> (\<forall>d n. keeps I (os_read_at_most os d n)) \<and> (\<forall>d b. keeps I (os_write_all os d b)) \<and>
     (\<forall>d m. keeps I (os_set_permissions os d m)) \<and> (\<forall>d. keeps I (os_sync os d)) \<and> (\<forall>d. keeps I (os_dup os d)) \<and>
     (\<forall>d n. keeps I (os_unlinkat os d n)) \<and> (\<forall>w. I w \<longrightarrow> I (fst (os_sequence os w))) \<and>
     (\<forall>d n d' n' w w' e. I w \<longrightarrow> os_renameat os d n d' n' w = (w', Err e) \<longrightarrow> I w')"

lemma keeps_abind [keeps_intros]: "keeps I m \<Longrightarrow> (\<And>x. keeps I (f x)) \<Longrightarrow> keeps I (abind m f)"
  unfolding keeps_def abind_def by (auto split: prod.splits sum.splits)

lemma keeps_basic [keeps_intros]:
  "keeps I (areturn x)" "keeps I (afail e)" "keeps I (alift r)" "keeps I (aguard b e')"
  by (auto simp: keeps_def areturn_def afail_def alift_def aguard_def)

lemma keeps_amap_err [keeps_intros]: "keeps I m \<Longrightarrow> keeps I (amap_err g m)"
  by (auto simp: keeps_def amap_err_def split: prod.splits)

lemma keeps_io [keeps_intros]: "keeps I m \<Longrightarrow> keeps I (io m)" "keeps I m \<Longrightarrow> keeps I (io_or_not_found p m)"
  "keeps I m' \<Longrightarrow> keeps I (patch_io m')" "keeps I m'' \<Longrightarrow> keeps I (in_workspace m'')"
  by (simp_all add: io_def io_or_not_found_def patch_io_def in_workspace_def keeps_amap_err)

lemma keeps_if [keeps_intros]: "(b \<Longrightarrow> keeps I m) \<Longrightarrow> (\<not> b \<Longrightarrow> keeps I m') \<Longrightarrow> keeps I (if b then m else m')"
  by simp

lemma keeps_prod [keeps_intros]: "(\<And>a b. keeps I (f a b)) \<Longrightarrow> keeps I (case x of (a, b) \<Rightarrow> f a b)"
  by (cases x) simp

lemma keeps_Let [keeps_intros]: "keeps I (f x) \<Longrightarrow> keeps I (Let x f)"
  by (simp add: Let_def)

lemma keepsD: "keeps I m \<Longrightarrow> I w \<Longrightarrow> m w = (w', r) \<Longrightarrow> I w'"
  by (metis fst_conv keeps_def)

lemma keeps_is_dir [keeps_intros]:
  assumes "only_rename_changes os I"
  shows "keeps I (\<lambda>w. case os_is_dir os p w of (w', b) \<Rightarrow> (w', Ok b))"
proof -
  have "I (fst (os_is_dir os p w))" if "I w" for w using that assms by (simp add: only_rename_changes_def)
  then show ?thesis by (simp add: keeps_def case_prod_unfold)
qed

lemma keeps_calls [keeps_intros]:
  assumes "only_rename_changes os I"
  shows "keeps I (os_canonicalize os p)" "keeps I (os_stat os p)" "keeps I (os_open_directory os p)" "keeps I (os_openat_directory os d n)"
  "keeps I (os_openat_file os d n)" "keeps I (os_openat_new os d n)" "keeps I (os_fstat os d)" "keeps I (os_read_all os d)"
  "keeps I (os_read_at_most os d k)" "keeps I (os_write_all os d b)" "keeps I (os_set_permissions os d k)" "keeps I (os_sync os d)"
  "keeps I (os_dup os d)" "keeps I (os_unlinkat os d n)"
  using assms by (simp_all add: only_rename_changes_def)

lemma keeps_walk [keeps_intros]: "only_rename_changes os I \<Longrightarrow> keeps I (walk_directories os d names)"
  by (induction names arbitrary: d) (auto intro!: keeps_intros)

lemma keeps_secure [keeps_intros]:
  assumes "only_rename_changes os I" and "keeps I m"
  shows "keeps I (secure os wk relative m)"
proof -
  have "I (fst (map_secure_path_error os wk relative e w))" if "I w" for e w
    using that keepsD [OF keeps_calls(1) [OF assms(1)] that] by (auto simp: map_secure_path_error_def split: prod.splits sum.splits)
  then show ?thesis
    unfolding keeps_def secure_def using keepsD [OF assms(2)] by (auto split: prod.splits sum.splits) (metis fst_conv)
qed

lemma keeps_identity [keeps_intros]:
  assumes "only_rename_changes os I"
  shows "keeps I (revalidate_identity os wk)" "keeps I (ensure_file_identity_unchanged os d m p)" "keeps I (digest_open_file os d)"
  unfolding revalidate_identity_def live_identity_def snapshot_for_descriptor_def ensure_file_identity_unchanged_def digest_open_file_def
  using assms by (intro keeps_intros; assumption)+

lemma keeps_opening [keeps_intros]:
  assumes "only_rename_changes os I"
  shows "keeps I (open_secure_regular os wk p)" "keeps I (open_secure_directory os wk p)" "keeps I (verify_parent_descriptor os wk p d)"
    "keeps I (open_regular_at os d n p)" "keeps I (resolve_existing os wk p)"
  unfolding open_secure_regular_def open_secure_directory_def verify_parent_descriptor_def open_regular_at_def resolve_existing_def
    open_relative_nofollow_def open_directory_relative_nofollow_def
  using assms by (intro keeps_intros; assumption)+

lemma keeps_resolving [keeps_intros]:
  assumes "only_rename_changes os I"
  shows "keeps I (resolve_expected os wk p)" "keeps I (resolve_directory os wk p)" "keeps I (open_alias os wk p)" "keeps I (resolve_regular_file os wk p)"
  unfolding resolve_expected_def resolve_directory_def open_alias_def resolve_regular_file_def
  using assms by (intro keeps_intros; assumption)+

lemma keeps_reading [keeps_intros]:
  assumes "only_rename_changes os I"
  shows "keeps I (read_bounded os wk p opened limit)" "keeps I (revision_snapshot_at os wk p)"
  unfolding read_bounded_def revision_snapshot_at_def
  using assms by (intro keeps_intros; assumption)+

lemma keeps_reads [keeps_intros]:
  assumes "only_rename_changes os I"
  shows "keeps I (read_limited os wk p limit)" "keeps I (read_resolved_limited_with_snapshot os wk p limit)"
    "keeps I (revision_snapshot os wk p)" "keeps I (regular_file_size os wk p)"
  unfolding read_limited_def read_resolved_limited_with_snapshot_def revision_snapshot_def regular_file_size_def
  using assms by (intro keeps_intros; assumption)+

lemma keeps_read_resolved [keeps_intros]: "only_rename_changes os I \<Longrightarrow> keeps I (read_resolved_limited os wk p limit)"
  unfolding read_resolved_limited_def by (intro keeps_intros; assumption)

lemma keeps_create: "only_rename_changes os I \<Longrightarrow> keeps I (create_temp os parent n)"
proof (induction n)
  case (Suc n)
  have "I (fst (create_temp os parent (Suc n) w))" if w: "I w" for w
  proof -
    obtain w1 k where seq: "os_sequence os w = (w1, k)" by (cases "os_sequence os w")
    obtain w2 r where opn: "os_openat_new os parent (temp_name os k) w1 = (w2, r)" by (cases "os_openat_new os parent (temp_name os k) w1")
    have "I (fst (os_sequence os w))" using Suc.prems w by (simp add: only_rename_changes_def)
    then have "I w1" using seq by simp
    then have "I w2" using keepsD [OF keeps_calls(6) [OF Suc.prems]] opn by blast
    then show ?thesis using seq opn Suc.IH [OF Suc.prems] by (auto simp: keeps_def split: sum.split)
  qed
  then show ?case by (simp add: keeps_def)
qed (simp add: keeps_def)

lemma keeps_targets [keeps_intros]:
  assumes "only_rename_changes os I"
  shows "keeps I (validate_target os wk r p b)" "keeps I (fill_temp os temp bytes mode)" "keeps I (revalidate_target os wk r p b opened)"
    "keeps I (temp_create os d)"
  unfolding validate_target_def fill_temp_def revalidate_target_def temp_create_def
  using assms by (intro keeps_intros keeps_create; assumption)+

section \<open>Failed and successful replacements\<close>

lemma abind_Err: "abind m f w = (w', Err e) \<longleftrightarrow> m w = (w', Err e) \<or> (\<exists>x w1. m w = (w1, Ok x) \<and> f x w1 = (w', Err e))"
  by (auto simp: abind_def split: prod.splits sum.splits)

lemma abind_Ok: "abind m f w = (w', Ok y) \<longleftrightarrow> (\<exists>x w1. m w = (w1, Ok x) \<and> f x w1 = (w', Ok y))"
  by (auto simp: abind_def split: prod.splits sum.splits)

lemma amap_err_simps:
  "amap_err g m w = (w', Ok y) \<longleftrightarrow> m w = (w', Ok y)"
  "amap_err g m w = (w', Err e) \<longleftrightarrow> (\<exists>e'. m w = (w', Err e') \<and> e = g e')"
  by (auto simp: amap_err_def map_err_def split: prod.splits sum.splits)

lemma basic_results:
  "areturn x w = (w', r) \<longleftrightarrow> w' = w \<and> r = Ok x" "afail e w = (w', r') \<longleftrightarrow> w' = w \<and> r' = Err e"
  "alift q w = (w', r'') \<longleftrightarrow> w' = w \<and> r'' = q"
  by (auto simp: areturn_def afail_def alift_def)

lemma dropping_results:
  "dropping os temp m w = (w', Ok y) \<longleftrightarrow> m w = (w', Ok y)"
  "dropping os temp m w = (w', Err e) \<longleftrightarrow>
     (\<exists>w1. m w = (w1, Err e) \<and> w' = fst (os_unlinkat os (dt_parent temp) (dt_name temp) w1))"
  by (auto simp: dropping_def split: prod.splits sum.splits)

lemmas act_results = abind_Err abind_Ok amap_err_simps basic_results dropping_results

lemma apply_patch_dirfd_failed:
  assumes os: "only_rename_changes os I" and I: "I w"
    and run: "apply_patch_dirfd os wk r p b replacement w = (w', Err e)" and e: "\<nexists>q t. e = DurabilityUncertain q t"
  shows "I w'"
proof -
  have failed: "I w2" if "I w1" "os_renameat os d n d' n' w1 = (w2, Err e2)" for d n d' n' w1 w2 e2
    using that os unfolding only_rename_changes_def by blast
  let ?body = "\<lambda>opened temp. abind (fill_temp os temp replacement (md_mode (or_metadata opened))) (\<lambda>_.
        abind (revalidate_target os wk r p b opened) (\<lambda>_. publish_temp os temp (or_name opened)))"
  have step: "I w2" if "I w1" "?body opened temp w1 = (w2, Err e2)" for opened temp w1 w2 e2
  proof -
    note fill = keepsD [OF keeps_targets(2) [OF os] that(1)]
    from that(2) consider (fill) "fill_temp os temp replacement (md_mode (or_metadata opened)) w1 = (w2, Err e2)"
      | (check) w3 where "fill_temp os temp replacement (md_mode (or_metadata opened)) w1 = (w3, Ok ())"
          "revalidate_target os wk r p b opened w3 = (w2, Err e2)"
      | (rename) w3 w4 where "fill_temp os temp replacement (md_mode (or_metadata opened)) w1 = (w3, Ok ())"
          "revalidate_target os wk r p b opened w3 = (w4, Ok ())" "publish_temp os temp (or_name opened) w4 = (w2, Err e2)"
      by (auto simp: abind_Err)
    then show ?thesis
    proof cases
      case fill
      then show ?thesis by (rule keepsD [OF keeps_targets(2) [OF os] that(1)])
    next
      case check
      then show ?thesis using fill [OF check(1)] keepsD [OF keeps_targets(3) [OF os]] by metis
    next
      case rename
      have "I w4" using fill [OF rename(1)] keepsD [OF keeps_targets(3) [OF os] _ rename(2)] by simp
      then show ?thesis using \<open>publish_temp os temp (or_name opened) w4 = (w2, Err e2)\<close> failed
        by (auto simp: publish_temp_def patch_io_def act_results)
    qed
  qed
  have unlink: "I (fst (os_unlinkat os d n w1))" if "I w1" for d n w1
    using that keeps_calls(14) [OF os] by (simp add: keeps_def)
  have temp: "keeps I (patch_io (temp_create os d))" for d by (intro keeps_intros os)
  from run consider (validate) "validate_target os wk r p b w = (w', Err e)"
    | (create) opened w1 where "validate_target os wk r p b w = (w1, Ok opened)" "patch_io (temp_create os (or_parent opened)) w1 = (w', Err e)"
    | (body) opened w1 tmp w2 w3 where "validate_target os wk r p b w = (w1, Ok opened)" "patch_io (temp_create os (or_parent opened)) w1 = (w2, Ok tmp)"
        "?body opened tmp w2 = (w3, Err e)" "w' = fst (os_unlinkat os (dt_parent tmp) (dt_name tmp) w3)"
    using e by (auto simp: apply_patch_dirfd_def act_results)
  then show ?thesis
  proof cases
    case validate
    then show ?thesis using keepsD [OF keeps_targets(1) [OF os] I] by blast
  next
    case create
    then show ?thesis using keepsD [OF keeps_targets(1) [OF os] I] keepsD [OF temp] by blast
  next
    case body
    then have "I w2" using keepsD [OF keeps_targets(1) [OF os] I] keepsD [OF temp] by blast
    then show ?thesis using step [OF _ body(3)] unlink body(4) by simp
  qed
qed

text \<open>
  C27: A failed replacement has published nothing. Whatever the operating system and other
  processes do, an edit that returns an error other than uncertain durability leaves every
  property of the world in place that only a successful rename can change; in particular the
  target still has its content. The temporary file is unlinked.
\<close>

theorem failed_replacement_publishes_nothing:
  assumes os: "only_rename_changes os I" and I: "I w"
    and run: "apply_patch os wk path b replacement w = (w', Err e) \<or> apply_patch_resolved os wk path b replacement w = (w', Err e)"
    and e: "\<nexists>q t. e = DurabilityUncertain q t"
  shows "I w'"
proof -
  note prefix = keepsD [OF keeps_io(4) [OF keeps_identity(1) [OF os]]]
  have res: "keeps I (in_workspace (if flag then abind (resolve_expected os wk p) (\<lambda>_. areturn p)
      else abind (resolve_existing os wk p) (\<lambda>absolute. alift (canonical_relative wk absolute))))" for flag p
    by (intro keeps_intros os)
  have inner: "I w'" if run: "apply_patch_inner os wk p b replacement flag w = (w', Err e)" for p flag
  proof -
    from run consider (identity) "in_workspace (revalidate_identity os wk) w = (w', Err e)"
      | (resolve) w1 x where "in_workspace (revalidate_identity os wk) w = (w1, Ok x)"
          "in_workspace (if flag then abind (resolve_expected os wk p) (\<lambda>_. areturn p)
            else abind (resolve_existing os wk p) (\<lambda>absolute. alift (canonical_relative wk absolute))) w1 = (w', Err e)"
      | (patch) w1 x w2 q where "in_workspace (revalidate_identity os wk) w = (w1, Ok x)"
          "in_workspace (if flag then abind (resolve_expected os wk p) (\<lambda>_. areturn p)
            else abind (resolve_existing os wk p) (\<lambda>absolute. alift (canonical_relative wk absolute))) w1 = (w2, Ok q)"
          "apply_patch_dirfd os wk p q b replacement w2 = (w', Err e)"
      unfolding apply_patch_inner_def abind_Err by blast
    then show ?thesis
    proof cases
      case identity
      then show ?thesis by (rule prefix [OF I])
    next
      case resolve
      show ?thesis by (rule keepsD [OF res prefix [OF I resolve(1)] resolve(2)])
    next
      case patch
      then show ?thesis
        using apply_patch_dirfd_failed [OF os _ patch(3) e] keepsD [OF res prefix [OF I patch(1)] patch(2)] by blast
    qed
  qed
  have "w' = w \<or> (\<exists>p flag. apply_patch_inner os wk p b replacement flag w = (w', Err e))"
    using run by (auto simp: apply_patch_def apply_patch_resolved_def in_workspace_def act_results)
  then show ?thesis using inner I by blast
qed

section \<open>Order of the system calls\<close>

text \<open>One system call, and the worlds that a sequence of calls can lead to.\<close>

inductive syscall :: "'w os \<Rightarrow> 'w \<Rightarrow> 'w \<Rightarrow> bool" for os where
  "os_canonicalize os p w = (w', r) \<Longrightarrow> syscall os w w'"
| "os_is_dir os p w = (w', b) \<Longrightarrow> syscall os w w'"
| "os_stat os p w = (w', r2) \<Longrightarrow> syscall os w w'"
| "os_open_directory os p w = (w', r3) \<Longrightarrow> syscall os w w'"
| "os_openat_directory os d n w = (w', r3) \<Longrightarrow> syscall os w w'"
| "os_openat_file os d n w = (w', r3) \<Longrightarrow> syscall os w w'"
| "os_openat_new os d n w = (w', r3) \<Longrightarrow> syscall os w w'"
| "os_fstat os d w = (w', r2) \<Longrightarrow> syscall os w w'"
| "os_read_all os d w = (w', r) \<Longrightarrow> syscall os w w'"
| "os_read_at_most os d k w = (w', r) \<Longrightarrow> syscall os w w'"
| "os_write_all os d bytes w = (w', r4) \<Longrightarrow> syscall os w w'"
| "os_set_permissions os d k w = (w', r4) \<Longrightarrow> syscall os w w'"
| "os_sync os d w = (w', r4) \<Longrightarrow> syscall os w w'"
| "os_dup os d w = (w', r3) \<Longrightarrow> syscall os w w'"
| "os_renameat os d n d' n' w = (w', r4) \<Longrightarrow> syscall os w w'"
| "os_unlinkat os d n w = (w', r4) \<Longrightarrow> syscall os w w'"
| "os_sequence os w = (w', k) \<Longrightarrow> syscall os w w'"

abbreviation reaches :: "'w os \<Rightarrow> 'w \<Rightarrow> 'w \<Rightarrow> bool" where
  "reaches os \<equiv> (syscall os)\<^sup>*\<^sup>*"

lemma reaches_call: "reaches os w w1 \<Longrightarrow> syscall os w1 w2 \<Longrightarrow> reaches os w w2"
  by (rule rtranclp.rtrancl_into_rtrancl)

lemma reaches_two: "syscall os w w1 \<Longrightarrow> syscall os w1 w2 \<Longrightarrow> reaches os w w2"
  by (rule reaches_call [OF reaches_call [OF rtranclp.rtrancl_refl]])

lemma reaches_closed: "only_rename_changes os (reaches os w)"
  unfolding only_rename_changes_def keeps_def
  by (intro conjI allI impI; erule reaches_call; (rule syscall.intros, (rule surjective_pairing | assumption)))

lemmas reaches_keeps = keepsD [where I = "reaches os w" and w = w for os w, OF _ rtranclp.rtrancl_refl]

lemma revalidate_identity_Ok: "revalidate_identity os wk w = (w', Ok x) \<Longrightarrow> x = wk_root_identity wk"
  by (auto simp: revalidate_identity_def act_results split: if_splits)

lemma digest_open_file_Ok:
  "digest_open_file os d w = (w', Ok h) \<Longrightarrow> \<exists>bytes. os_read_all os d w = (w', Ok bytes) \<and> h = os_hash os bytes"
  by (auto simp: digest_open_file_def io_def act_results)

lemma open_regular_at_Ok:
  assumes "open_regular_at os d n p w = (w', Ok (current, m))"
  shows "\<exists>w1. os_openat_file os d n w = (w1, Ok current) \<and> reaches os w1 w'"
proof -
  from assms obtain w1 where "os_openat_file os d n w = (w1, Ok current)" "os_fstat os current w1 = (w', Ok m)"
    by (auto simp: open_regular_at_def io_def aguard_def act_results split: if_splits)
  then show ?thesis by (blast intro: syscall.intros)
qed

lemma revalidate_target_Ok:
  assumes "revalidate_target os wk r p b opened w = (w', Ok u)"
  shows "\<exists>current bytes w1 w2 w3 w4 w5. reaches os w w1 \<and> os_openat_file os (or_parent opened) (or_name opened) w1 = (w2, Ok current) \<and>
    reaches os w2 w3 \<and> os_read_all os current w3 = (w4, Ok bytes) \<and> os_hash os bytes = b \<and>
    reaches os w4 w5 \<and> revalidate_identity os wk w5 = (w', Ok (wk_root_identity wk))"
proof -
  note kept = reaches_keeps [OF keeps_identity(1) [OF reaches_closed]] reaches_keeps [OF keeps_opening(3) [OF reaches_closed]]
    reaches_keeps [OF keeps_identity(2) [OF reaches_closed]]
  from assms obtain w0 x0 w1 w3 current m w4 rev w5 x where
      runs: "revalidate_identity os wk w = (w0, Ok x0)" "verify_parent_descriptor os wk p (or_parent opened) w0 = (w1, Ok ())"
      "open_regular_at os (or_parent opened) (or_name opened) p w1 = (w3, Ok (current, m))"
      "digest_open_file os current w3 = (w4, Ok rev)" "ensure_file_identity_unchanged os current m p w4 = (w5, Ok ())"
      "rev = b" "revalidate_identity os wk w5 = (w', Ok x)"
    by (auto simp: revalidate_target_def in_workspace_def act_results Let_def split: if_splits)
  have "reaches os w w1" using kept(1) [OF runs(1)] kept(2) [OF runs(2)] by simp
  moreover have "reaches os w4 w5" by (rule kept(3) [OF runs(5)])
  ultimately show ?thesis
    using open_regular_at_Ok [OF runs(3)] digest_open_file_Ok [OF runs(4)] revalidate_identity_Ok [OF runs(7)] runs(6,7) by blast
qed

lemma validate_target_Ok:
  assumes "validate_target os wk r p b w = (w', Ok opened)"
  shows "\<exists>root w0 w1 w2 w3. reaches os w w0 \<and> os_dup os (wk_root_dir wk) w0 = (w1, Ok root) \<and>
    walk_directories os root (butlast (map component_str (components p))) w1 = (w2, Ok (or_parent opened)) \<and>
    os_openat_file os (or_parent opened) (or_name opened) w2 = (w3, Ok (or_file opened)) \<and> reaches os w3 w' \<and>
    components p \<noteq> [] \<and> or_name opened = component_str (last (components p))"
proof -
  note closed = reaches_closed
  from assms obtain v1 v2 where reg: "open_secure_regular os wk p w = (v1, Ok opened)"
      and "digest_open_file os (or_file opened) v1 = (v2, Ok b)"
      and "ensure_file_identity_unchanged os (or_file opened) (or_metadata opened) p v2 = (w', Ok ())"
    by (auto simp: validate_target_def in_workspace_def act_results split: if_splits)
  then have after: "reaches os v1 w'"
    using reaches_keeps [OF keeps_identity(3) [OF closed]] reaches_keeps [OF keeps_identity(2) [OF closed]] by (meson rtranclp_trans)
  from reg obtain w0 x o1 m u1 u2 y where id: "revalidate_identity os wk w = (w0, Ok x)"
      and sec: "secure os wk p (open_relative_nofollow os (wk_root_dir wk) p) w0 = (u1, Ok o1)"
      and stat: "os_fstat os (or_file o1) u1 = (u2, Ok m)" and id2: "revalidate_identity os wk u2 = (v1, Ok y)"
      and o1: "opened = o1\<lparr>or_metadata := m\<rparr>"
    by (auto simp: open_secure_regular_def aguard_def io_def act_results split: if_splits)
  have "open_relative_nofollow os (wk_root_dir wk) p w0 = (u1, Ok o1)"
    using sec by (auto simp: secure_def split: prod.splits sum.splits)
  then obtain root w1 w2 w3 where walk: "os_dup os (wk_root_dir wk) w0 = (w1, Ok root)"
      "walk_directories os root (butlast (map component_str (components p))) w1 = (w2, Ok (or_parent o1))"
      "os_openat_file os (or_parent o1) (or_name o1) w2 = (w3, Ok (or_file o1))"
      "os_fstat os (or_file o1) w3 = (u1, Ok (or_metadata o1))" "components p \<noteq> []" "or_name o1 = component_str (last (components p))"
    by (auto simp: open_relative_nofollow_def act_results Let_def last_map split: if_splits)
  have "reaches os w3 u2" by (rule reaches_two [OF syscall.intros(8) [OF walk(4)] syscall.intros(8) [OF stat]])
  moreover have "reaches os u2 v1" "reaches os w w0"
    by (rule reaches_keeps [OF keeps_identity(1) [OF closed] id2], rule reaches_keeps [OF keeps_identity(1) [OF closed] id])
  ultimately have "reaches os w w0" "reaches os w3 w'" using after by auto
  then show ?thesis
    unfolding o1 using walk by (intro exI [of _ root] exI [of _ w0] exI [of _ w1] exI [of _ w2] exI [of _ w3]) simp
qed

lemma create_temp_Ok: "create_temp os parent n w = (w', Ok temp) \<Longrightarrow> dt_parent temp = parent"
  by (induction n arbitrary: w) (auto split: prod.splits sum.splits if_splits)

lemma temp_create_Ok: "temp_create os parent w = (w', Ok temp) \<Longrightarrow> \<exists>w1. os_dup os parent w = (w1, Ok (dt_parent temp))"
  by (auto simp: temp_create_def act_results dest: create_temp_Ok)

lemma early_errors:
  "in_workspace m w = (w', Err e) \<Longrightarrow> e \<noteq> DurabilityUncertain q t"
  "patch_io m' w = (w', Err e) \<Longrightarrow> e \<noteq> DurabilityUncertain q t"
  by (auto simp: in_workspace_def patch_io_def act_results)

text \<open>The errors before the publication are none of durability.\<close>

lemma target_errors:
  "validate_target os wk r p b w = (w', Err e) \<Longrightarrow> e \<noteq> DurabilityUncertain q t"
  "fill_temp os temp bytes mode w = (w', Err e) \<Longrightarrow> e \<noteq> DurabilityUncertain q t"
  "revalidate_target os wk r p b opened w = (w', Err e) \<Longrightarrow> e \<noteq> DurabilityUncertain q t"
  "publish_temp os temp name w = (w', Err e) \<Longrightarrow> e \<noteq> DurabilityUncertain q t"
  unfolding validate_target_def fill_temp_def revalidate_target_def publish_temp_def Let_def abind_Err
  by (auto dest: early_errors simp: abind_Err basic_results split: if_splits)

text \<open>A run that returns success or uncertain durability has gone through every step up to the rename.\<close>

lemma apply_patch_dirfd_published:
  assumes run: "apply_patch_dirfd os wk r p b replacement w = (w', res)"
    and pub: "(\<exists>x. res = Ok x) \<or> (\<exists>q t. res = Err (DurabilityUncertain q t))"
  obtains opened w1 temp w2 w3 w4 w5 u where "validate_target os wk r p b w = (w1, Ok opened)"
    "temp_create os (or_parent opened) w1 = (w2, Ok temp)"
    "fill_temp os temp replacement (md_mode (or_metadata opened)) w2 = (w3, Ok ())"
    "revalidate_target os wk r p b opened w3 = (w4, Ok ())"
    "os_renameat os (dt_parent temp) (dt_name temp) (dt_parent temp) (or_name opened) w4 = (w5, Ok ())"
    "os_sync os (or_parent opened) w5 = (w', u)"
    "(\<exists>x. res = Ok x) \<longrightarrow> u = Ok () \<and> res = Ok \<lparr>pr_relative_path = r, pr_previous_revision = b, pr_revision = os_hash os replacement,
               pr_bytes_written = length replacement\<rparr>"
proof (cases res)
  case (Inl e)
  then obtain q t where e: "res = Err (DurabilityUncertain q t)" using pub by auto
  show ?thesis
    using run that unfolding apply_patch_dirfd_def e act_results publish_temp_def patch_io_def
    by (auto dest: target_errors early_errors)
next
  case (Inr x)
  then show ?thesis
    using run that unfolding apply_patch_dirfd_def publish_temp_def patch_io_def by (auto simp: act_results)
qed

text \<open>
  C26: A published replacement was validated. When a prepared edit succeeds, or only its
  durability is uncertain, then these calls were made in this order: a component-wise walk from
  the workspace root opened the directory; the complete replacement was written to a temporary
  file in that directory; the target name in that directory was opened again and its content
  had the approved base revision; the root was seen unchanged, and in the very next call the
  temporary file was renamed to the target name. Success also means that the directory was
  synced, and the result names the previous and the new revision.
\<close>

theorem published_replacement_was_validated:
  assumes run: "apply_patch_resolved os wk path base replacement w = (w', r)"
    and pub: "(\<exists>res. r = Ok res) \<or> (\<exists>q t. r = Err (DurabilityUncertain q t))"
  shows "\<exists>relative root parent temp current bytes w1 w2 w3 w4 w5 w6 w7 w8 w9 w10 w11 w12 w13 w14.
    validate_relative path = Ok relative \<and>
    reaches os w w1 \<and> os_dup os (wk_root_dir wk) w1 = (w2, Ok root) \<and>
    walk_directories os root (butlast (map component_str (components relative))) w2 = (w3, Ok parent) \<and>
    reaches os w3 w4 \<and> temp_create os parent w4 = (w5, Ok temp) \<and> os_write_all os (dt_file temp) replacement w5 = (w6, Ok ()) \<and>
    reaches os w6 w7 \<and> os_openat_file os parent (component_str (last (components relative))) w7 = (w8, Ok current) \<and>
    reaches os w8 w9 \<and> os_read_all os current w9 = (w10, Ok bytes) \<and> os_hash os bytes = base \<and>
    reaches os w10 w11 \<and> revalidate_identity os wk w11 = (w12, Ok (wk_root_identity wk)) \<and>
    os_renameat os (dt_parent temp) (dt_name temp) (dt_parent temp) (component_str (last (components relative))) w12 = (w13, Ok ()) \<and>
    os_sync os parent w13 = (w', w14) \<and>
    ((\<exists>res. r = Ok res) \<longrightarrow> w14 = Ok () \<and>
       r = Ok \<lparr>pr_relative_path = relative, pr_previous_revision = base, pr_revision = os_hash os replacement,
               pr_bytes_written = length replacement\<rparr>)"
proof -
  obtain relative where rel: "validate_relative path = Ok relative" and inner: "apply_patch_inner os wk relative base replacement True w = (w', r)"
    using run pub by (cases "validate_relative path") (auto simp: apply_patch_resolved_def abind_def in_workspace_def amap_err_def alift_def map_err_def)
  obtain v1 v2 x y where ident: "revalidate_identity os wk w = (v1, Ok x)" and res: "resolve_expected os wk relative v1 = (v2, Ok y)"
      and dirfd: "apply_patch_dirfd os wk relative relative base replacement v2 = (w', r)"
    using inner pub by (cases r) (auto simp: apply_patch_inner_def in_workspace_def act_results)
  have "reaches os w v1" "reaches os v1 v2"
    by (rule reaches_keeps [OF keeps_identity(1) [OF reaches_closed] ident], rule reaches_keeps [OF keeps_resolving(1) [OF reaches_closed] res])
  then have start: "reaches os w v2" by simp
  from dirfd pub obtain opened w4 temp w5 w6' w12 w13 u where val: "validate_target os wk relative relative base v2 = (w4, Ok opened)"
    and temp: "temp_create os (or_parent opened) w4 = (w5, Ok temp)"
    and fill: "fill_temp os temp replacement (md_mode (or_metadata opened)) w5 = (w6', Ok ())"
    and again: "revalidate_target os wk relative relative base opened w6' = (w12, Ok ())"
    and pubs: "os_renameat os (dt_parent temp) (dt_name temp) (dt_parent temp) (or_name opened) w12 = (w13, Ok ())"
      "os_sync os (or_parent opened) w13 = (w', u)"
      "(\<exists>x. r = Ok x) \<longrightarrow> u = Ok () \<and> r = Ok \<lparr>pr_relative_path = relative, pr_previous_revision = base, pr_revision = os_hash os replacement,
               pr_bytes_written = length replacement\<rparr>"
    by (rule apply_patch_dirfd_published) blast
  obtain root w1 w2 w3 w3' where walk: "reaches os v2 w1" "os_dup os (wk_root_dir wk) w1 = (w2, Ok root)"
      "walk_directories os root (butlast (map component_str (components relative))) w2 = (w3, Ok (or_parent opened))"
      "os_openat_file os (or_parent opened) (or_name opened) w3 = (w3', Ok (or_file opened))" "reaches os w3' w4"
      and name: "or_name opened = component_str (last (components relative))"
    using validate_target_Ok [OF val] by blast
  have opened: "reaches os w3 w4" by (rule converse_rtranclp_into_rtranclp [OF syscall.intros(6) [OF walk(4)] walk(5)])
  obtain w6 v6 where wr: "os_write_all os (dt_file temp) replacement w5 = (w6, Ok ())"
      and perm: "os_set_permissions os (dt_file temp) (md_mode (or_metadata opened)) w6 = (v6, Ok ())" "os_sync os (dt_file temp) v6 = (w6', Ok ())"
    using fill by (auto simp: fill_temp_def patch_io_def act_results)
  have filled: "reaches os w6 w6'"
    by (rule reaches_two [OF syscall.intros(12) [OF perm(1)] syscall.intros(13) [OF perm(2)]])
  obtain current bytes w7 w8 w9 w10 w11 where check: "reaches os w6' w7" "os_openat_file os (or_parent opened) (or_name opened) w7 = (w8, Ok current)"
      "reaches os w8 w9" "os_read_all os current w9 = (w10, Ok bytes)" "os_hash os bytes = base"
      "reaches os w10 w11" "revalidate_identity os wk w11 = (w12, Ok (wk_root_identity wk))"
    using revalidate_target_Ok [OF again] by blast
  have "reaches os w w1" "reaches os w6 w7" using start walk(1) filled check(1) by auto
  note steps = this rel walk(2,3) opened temp wr check(2-) pubs
  show ?thesis
    by (rule exI [of _ relative], rule exI [of _ root], rule exI [of _ "or_parent opened"], rule exI [of _ temp], rule exI [of _ current],
        rule exI [of _ bytes], rule exI [of _ w1], rule exI [of _ w2], rule exI [of _ w3], rule exI [of _ w4],
        rule exI [of _ w5], rule exI [of _ w6], rule exI [of _ w7], rule exI [of _ w8], rule exI [of _ w9],
        rule exI [of _ w10], rule exI [of _ w11], rule exI [of _ w12], rule exI [of _ w13], rule exI [of _ u])
      (use steps name in simp)
qed

section \<open>A small system\<close>

text \<open>
  A system with one directory and one file in it: the world is the content of the file and of
  the temporary file. \<open>renames\<close> says whether renaming works.
\<close>

definition demo_metadata :: "bool \<Rightarrow> metadata" where
  "demo_metadata is_file = \<lparr>md_device = 1, md_inode = (if is_file then 9 else 8), md_len = 3, md_mode = 420, md_nlink = 1,
     md_mtime = (5, 0), md_ctime = (5, 0), md_is_file = is_file, md_is_dir = \<not> is_file\<rparr>"

definition demo_os :: "bool \<Rightarrow> (string \<times> string option) os" where
  "demo_os renames =
    \<lparr>os_canonicalize = (\<lambda>p w. (w, Ok p)), os_is_dir = (\<lambda>p w. (w, True)), os_stat = (\<lambda>p w. (w, Ok (demo_metadata False))),
     os_open_directory = (\<lambda>p w. (w, Ok 5)), os_openat_directory = (\<lambda>d n w. (w, Ok 2)), os_openat_file = (\<lambda>d n w. (w, Ok 3)),
     os_openat_new = (\<lambda>d n w. ((fst w, Some []), Ok 4)), os_fstat = (\<lambda>d w. (w, Ok (demo_metadata (d = 3)))),
     os_read_all = (\<lambda>d w. (w, Ok (fst w))), os_read_at_most = (\<lambda>d n w. (w, Ok (take n (fst w)))),
     os_write_all = (\<lambda>d bytes w. ((fst w, Some bytes), Ok ())), os_set_permissions = (\<lambda>d m w. (w, Ok ())),
     os_sync = (\<lambda>d w. (w, Ok ())), os_dup = (\<lambda>d w. (w, Ok d)),
     os_renameat = (\<lambda>d n d' n' w. if renames then ((the (snd w), None), Ok ()) else (w, Err \<lparr>ie_kind = KindOther, ie_text = ''disk''\<rparr>)),
     os_unlinkat = (\<lambda>d n w. ((fst w, None), Ok ())), os_sequence = (\<lambda>w. (w, 0)), os_process_id = 7, os_hash = id\<rparr>"

definition demo_workspace :: workspace_handle where
  "demo_workspace =
    (let identity = identity_of_metadata (demo_os True) ''/w'' (demo_metadata False) in
     \<lparr>wk_root = ''/w'', wk_identity = (case identity of Inr i \<Rightarrow> wis_digest i | Inl _ \<Rightarrow> []), wk_root_identity = projr identity, wk_root_dir = 5\<rparr>)"

lemma demo_calls [simp]:
  "os_canonicalize (demo_os ok) p w = (w, Ok p)" "os_stat (demo_os ok) p w = (w, Ok (demo_metadata False))"
  "os_open_directory (demo_os ok) p w = (w, Ok 5)" "os_openat_directory (demo_os ok) d n w = (w, Ok 2)"
  "os_openat_file (demo_os ok) d n w = (w, Ok 3)" "os_openat_new (demo_os ok) d n w = ((fst w, Some []), Ok 4)"
  "os_fstat (demo_os ok) d w = (w, Ok (demo_metadata (d = 3)))" "os_read_all (demo_os ok) d w = (w, Ok (fst w))"
  "os_write_all (demo_os ok) d bytes w = ((fst w, Some bytes), Ok ())" "os_set_permissions (demo_os ok) d m w = (w, Ok ())"
  "os_sync (demo_os ok) d w = (w, Ok ())" "os_dup (demo_os ok) d w = (w, Ok d)"
  "os_renameat (demo_os ok) d n d' n' w = (if ok then ((the (snd w), None), Ok ()) else (w, Err \<lparr>ie_kind = KindOther, ie_text = ''disk''\<rparr>))"
  "os_unlinkat (demo_os ok) d n w = ((fst w, None), Ok ())" "os_sequence (demo_os ok) w = (w, 0)" "os_hash (demo_os ok) bytes = bytes"
  by (simp_all add: demo_os_def)

lemma demo_metadata_fields [simp]:
  "md_is_file (demo_metadata b) = b" "md_is_dir (demo_metadata b) = (\<not> b)" "md_nlink (demo_metadata b) = 1"
  by (simp_all add: demo_metadata_def)

lemma demo_identity: "revalidate_identity (demo_os ok) demo_workspace w = (w, Ok (wk_root_identity demo_workspace))"
  by (simp add: revalidate_identity_def live_identity_def snapshot_for_descriptor_def identity_of_metadata_def demo_workspace_def
      io_def io_or_not_found_def abind_def amap_err_def alift_def areturn_def map_err_def)

lemma demo_paths:
  "components ''a'' = [Normal ''a'']" "components [] = []" "validate_relative ''a'' = Ok ''a''" "strip_prefix ''/w'' ''/w/a'' = Some ''a''"
  "path_starts_with ''/w/a'' ''/w''" "path_join ''/w'' ''a'' = ''/w/a''" "relative_parent ''a'' = []"
  by code_simp+

lemma demo_handle: "wk_root demo_workspace = ''/w''" "wk_root_dir demo_workspace = 5"
  by (simp_all add: demo_workspace_def Let_def)

lemmas act_defs = abind_def amap_err_def alift_def areturn_def afail_def aguard_def io_def io_or_not_found_def patch_io_def in_workspace_def
  map_err_def secure_def dropping_def Let_def

lemma demo_open: "open_secure_regular (demo_os ok) demo_workspace ''a'' w =
    (w, Ok \<lparr>or_parent = 5, or_name = ''a'', or_file = 3, or_metadata = demo_metadata True\<rparr>)"
  by (simp add: open_secure_regular_def open_relative_nofollow_def ensure_single_link_def demo_identity demo_paths demo_handle component_str_def act_defs)

lemma demo_resolve: "resolve_expected (demo_os ok) demo_workspace ''a'' w = (w, Ok ''/w/a'')"
  by (simp add: resolve_expected_def resolve_existing_def canonical_relative_def ensure_contained_def demo_identity demo_open demo_paths
      demo_handle act_defs)

lemma demo_unchanged: "ensure_file_identity_unchanged (demo_os ok) 3 (demo_metadata True) p w = (w, Ok ())"
  by (simp add: ensure_file_identity_unchanged_def same_file_object_def file_identity_of_def ensure_single_link_def act_defs)

lemma demo_validate: "validate_target (demo_os ok) demo_workspace r ''a'' (fst w) w =
    (w, Ok \<lparr>or_parent = 5, or_name = ''a'', or_file = 3, or_metadata = demo_metadata True\<rparr>)"
  by (simp add: validate_target_def digest_open_file_def demo_open demo_unchanged act_defs)

lemma demo_revalidate: "revalidate_target (demo_os ok) demo_workspace r ''a'' (fst w)
    \<lparr>or_parent = 5, or_name = ''a'', or_file = 3, or_metadata = demo_metadata True\<rparr> w = (w, Ok ())"
proof -
  have "verify_parent_descriptor (demo_os ok) demo_workspace ''a'' 5 w = (w, Ok ())"
    by (simp add: verify_parent_descriptor_def open_directory_relative_nofollow_def same_file_object_def file_identity_of_def demo_paths
        demo_handle act_defs)
  moreover have "open_regular_at (demo_os ok) 5 ''a'' ''a'' w = (w, Ok (3, demo_metadata True))"
    by (simp add: open_regular_at_def ensure_single_link_def act_defs)
  moreover have "digest_open_file (demo_os ok) 3 w = (w, Ok (fst w))"
    by (simp add: digest_open_file_def act_defs)
  ultimately show ?thesis
    by (simp add: revalidate_target_def demo_identity demo_unchanged same_file_object_def file_identity_of_def act_defs)
qed

lemma demo_run: "apply_patch_resolved (demo_os ok) demo_workspace ''a'' ''old'' ''new'' (''old'', None) =
   (if ok then ((''new'', None), Ok \<lparr>pr_relative_path = ''a'', pr_previous_revision = ''old'', pr_revision = ''new'', pr_bytes_written = 3\<rparr>)
    else ((''old'', None), Err (apply_patch_error.Io ''disk'')))"
proof -
  note val = demo_validate [of ok "''a''" "(''old'', t)" for t, simplified] and reval = demo_revalidate [of ok "''a''" "(''old'', t)" for t, simplified]
  have temp: "temp_create (demo_os ok) 5 w = ((fst w, Some []), Ok \<lparr>dt_parent = 5, dt_name = temp_name (demo_os ok) 0, dt_file = 4\<rparr>)" for w
    using create_temp.simps(2) [of "demo_os ok" 5 63 w] by (simp add: temp_create_def abind_def numeral_eq_Suc)
  show ?thesis
    by (simp add: apply_patch_resolved_def apply_patch_inner_def apply_patch_dirfd_def fill_temp_def publish_temp_def demo_paths demo_identity
        demo_resolve val reval temp act_defs)
qed

lemma demo_keeps: "only_rename_changes (demo_os False) (\<lambda>w. fst w = ''old'')"
  by (simp add: only_rename_changes_def keeps_def demo_os_def)

theorem failed_replacement_publishes_nothing_witness:
  "fst (fst (apply_patch_resolved (demo_os False) demo_workspace ''a'' ''old'' ''new'' (''old'', None))) = ''old''"
proof -
  note run = demo_run [of False, simplified]
  show ?thesis using failed_replacement_publishes_nothing [OF demo_keeps _ disjI2 [OF run]] run by simp
qed

theorem published_replacement_was_validated_witness:
  "\<exists>w' r relative. apply_patch_resolved (demo_os True) demo_workspace ''a'' ''old'' ''new'' (''old'', None) = (w', Ok r) \<and>
     validate_relative ''a'' = Ok relative \<and> pr_relative_path r = relative \<and> w' = (''new'', None)"
proof -
  note run = demo_run [of True, simplified]
  show ?thesis using published_replacement_was_validated [OF run] run by auto
qed

end
