(* ===== verification/Descriptor_Store.thy ===== *)
theory Descriptor_Store
  imports Protocol_Types
begin

text \<open>
  The registry of inert descriptors (\<open>yeux-runtime/src/descriptors.rs\<close>). The table of
  descriptors is the list of its rows, and the order a query asks for is written out. What the text of a JSON value (\<open>serde_json\<close>) and of an instant (\<open>chrono\<close>)
  reads back as are parameters. Failures of the disk or the lock are not modelled.
\<close>

datatype descriptor_kind = Skill | McpServer | Plugin | Provider | Command

fun kind_str :: "descriptor_kind \<Rightarrow> string" where
  "kind_str Skill = ''skill''"
| "kind_str McpServer = ''mcp_server''"
| "kind_str Plugin = ''plugin''"
| "kind_str Provider = ''provider''"
| "kind_str Command = ''command''"

record registered_descriptor =
  rd_id :: string
  rd_kind :: descriptor_kind
  rd_version :: string
  rd_source_digest :: string
  rd_enabled :: bool
  rd_descriptor :: json
  rd_updated_at :: instant

text \<open>A row of the table: the kind is stored as text.\<close>

record descriptor_row =
  dr_id :: string
  dr_kind :: string
  dr_version :: string
  dr_source_digest :: string
  dr_enabled :: bool
  dr_descriptor :: json
  dr_updated_at :: instant

datatype descriptor_error = UnknownKind string

record descriptor_store =
  dst_descriptors :: "descriptor_row list"
  dst_jobs :: "(string, json) btree_map"
  dst_agents :: "(string, json) btree_map"

definition descriptor_initialize :: descriptor_store where
  "descriptor_initialize = \<lparr>dst_descriptors = [], dst_jobs = bt_empty, dst_agents = bt_empty\<rparr>"

definition descriptor_row_of :: "registered_descriptor \<Rightarrow> descriptor_row" where
  "descriptor_row_of d =
     \<lparr>dr_id = rd_id d, dr_kind = kind_str (rd_kind d), dr_version = rd_version d, dr_source_digest = rd_source_digest d,
      dr_enabled = rd_enabled d, dr_descriptor = rd_descriptor d, dr_updated_at = rd_updated_at d\<rparr>"

definition same_key :: "descriptor_row \<Rightarrow> descriptor_row \<Rightarrow> bool" where
  "same_key a b \<longleftrightarrow> dr_id a = dr_id b \<and> dr_kind a = dr_kind b"

text \<open>\<open>INSERT ... ON CONFLICT(id, kind) DO UPDATE\<close>\<close>

definition put_descriptor :: "descriptor_store \<Rightarrow> registered_descriptor \<Rightarrow> descriptor_store" where
  "put_descriptor s d =
     (let row = descriptor_row_of d in
      s\<lparr>dst_descriptors :=
          (if \<exists>r \<in> set (dst_descriptors s). same_key r row
           then map (\<lambda>r. if same_key r row then row else r) (dst_descriptors s)
           else dst_descriptors s @ [row])\<rparr>)"

definition kind_of_str :: "string \<Rightarrow> descriptor_kind option" where
  "kind_of_str s = find (\<lambda>k. kind_str k = s) [Skill, McpServer, Plugin, Provider, Command]"

definition descriptor_from_row ::
  "(json \<Rightarrow> json) \<Rightarrow> (instant \<Rightarrow> instant) \<Rightarrow> descriptor_row \<Rightarrow> (descriptor_error, registered_descriptor) rust_result" where
  "descriptor_from_row stored time row =
     (case kind_of_str (dr_kind row) of
        None \<Rightarrow> Err (UnknownKind (dr_kind row))
      | Some kind \<Rightarrow>
          Ok \<lparr>rd_id = dr_id row, rd_kind = kind, rd_version = dr_version row, rd_source_digest = dr_source_digest row,
              rd_enabled = dr_enabled row, rd_descriptor = stored (dr_descriptor row), rd_updated_at = time (dr_updated_at row)\<rparr>)"

definition descriptor ::
  "(json \<Rightarrow> json) \<Rightarrow> (instant \<Rightarrow> instant) \<Rightarrow> descriptor_store \<Rightarrow> descriptor_kind \<Rightarrow> string \<Rightarrow>
   (descriptor_error, registered_descriptor option) rust_result" where
  "descriptor stored time s kind i =
     (case find (\<lambda>r. dr_id r = i \<and> dr_kind r = kind_str kind) (dst_descriptors s) of
        None \<Rightarrow> Ok None
      | Some row \<Rightarrow> rbind (descriptor_from_row stored time row) (\<lambda>d. Ok (Some d)))"

definition descriptors ::
  "(json \<Rightarrow> json) \<Rightarrow> (instant \<Rightarrow> instant) \<Rightarrow> descriptor_store \<Rightarrow> descriptor_kind \<Rightarrow>
   (descriptor_error, registered_descriptor list) rust_result" where
  "descriptors stored time s kind =
     collect_results (descriptor_from_row stored time)
       (sort_key dr_id (filter (\<lambda>r. dr_kind r = kind_str kind) (dst_descriptors s)))"

text \<open>\<open>put_record\<close>, \<open>get_record\<close> and \<open>list_records\<close> of the tables of jobs and agents.\<close>

definition put_record :: "(string, json) btree_map \<Rightarrow> string \<Rightarrow> json \<Rightarrow> (string, json) btree_map" where
  "put_record table i value = bt_insert table i value"

definition get_record :: "(json \<Rightarrow> (string, 'a) rust_result) \<Rightarrow> (string, json) btree_map \<Rightarrow> string \<Rightarrow> (string, 'a option) rust_result" where
  "get_record decode table i =
     (case bt_get table i of None \<Rightarrow> Ok None | Some v \<Rightarrow> rbind (decode v) (\<lambda>x. Ok (Some x)))"

definition list_records :: "(json \<Rightarrow> (string, 'a) rust_result) \<Rightarrow> (string, json) btree_map \<Rightarrow> (string, 'a list) rust_result" where
  "list_records decode table = collect_results decode (bt_values table)"

section \<open>Lookups after insertions\<close>

lemma kind_of_str [simp]: "kind_of_str (kind_str k) = Some k"
  by (cases k) (simp_all add: kind_of_str_def)

lemma kind_str_inj: "kind_str a = kind_str b \<longleftrightarrow> a = b"
  by (metis kind_of_str option.inject)

lemma same_key_row: "same_key r (descriptor_row_of d) \<longleftrightarrow> dr_id r = rd_id d \<and> dr_kind r = kind_str (rd_kind d)"
  by (simp add: same_key_def descriptor_row_of_def)

lemma find_append: "find P (xs @ ys) = (case find P xs of None \<Rightarrow> find P ys | Some x \<Rightarrow> Some x)"
  by (induction xs) auto

lemma find_replaced:
  "find (\<lambda>r. dr_id r = i \<and> dr_kind r = k) (map (\<lambda>r. if same_key r row then row else r) rows) =
     (if dr_id row = i \<and> dr_kind row = k then (if \<exists>r \<in> set rows. same_key r row then Some row else None)
      else find (\<lambda>r. dr_id r = i \<and> dr_kind r = k) rows)"
  by (induction rows) (auto simp: same_key_def)

text \<open>
  A registered descriptor is found under its kind and identifier, with the version registered
  last, and registering it does not change what is found under any other key.
\<close>

lemma descriptor_after_put:
  "descriptor stored time (put_descriptor s d) kind i =
     (if i = rd_id d \<and> kind = rd_kind d
      then Ok (Some (d\<lparr>rd_descriptor := stored (rd_descriptor d), rd_updated_at := time (rd_updated_at d)\<rparr>))
      else descriptor stored time s kind i)"
proof -
  let ?row = "descriptor_row_of d" and ?P = "\<lambda>r. dr_id r = i \<and> dr_kind r = kind_str kind"
  have key: "?P ?row \<longleftrightarrow> i = rd_id d \<and> kind = rd_kind d" by (auto simp: descriptor_row_of_def kind_str_inj)
  have "find ?P (dst_descriptors (put_descriptor s d)) = (if ?P ?row then Some ?row else find ?P (dst_descriptors s))"
  proof (cases "\<exists>r \<in> set (dst_descriptors s). same_key r ?row")
    case True
    then show ?thesis by (simp add: put_descriptor_def Let_def find_replaced)
  next
    case False
    then have "find ?P (dst_descriptors s) = None" if "?P ?row"
      using that by (auto simp: find_None_iff same_key_def)
    then show ?thesis using False by (auto simp: put_descriptor_def Let_def find_append split: option.splits)
  qed
  moreover have "descriptor_from_row stored time ?row =
      Ok (d\<lparr>rd_descriptor := stored (rd_descriptor d), rd_updated_at := time (rd_updated_at d)\<rparr>)"
    by (simp add: descriptor_from_row_def descriptor_row_of_def)
  ultimately show ?thesis using key by (simp add: descriptor_def)
qed

end
