(* ===== verification/Command_Types.thy ===== *)
theory Command_Types
  imports Ledger_Port Workspace_Files Sandbox Descriptor_Store
begin

text \<open>
  The methods of the JSON-RPC service with their parameters and results
  (\<open>yeux-protocol/src/api.rs\<close>, \<open>jsonrpc.rs\<close>), the faults of the daemon, and its state
  (\<open>yeuxd/src/server.rs\<close>). The JSON decoder of each parameter struct and the JSON value of a
  result are derived by \<open>serde\<close> and are parameters (\<open>decoders\<close>, \<open>encoders\<close>), and so are
  the identifier generator, the clock, the detected sandbox and the artifact store.
\<close>

section \<open>Method names and codes\<close>

abbreviation INITIALIZE :: string where "INITIALIZE \<equiv> ''initialize''"
abbreviation WORKSPACE_OPEN :: string where "WORKSPACE_OPEN \<equiv> ''workspace/open''"
abbreviation WORKSPACE_TRUST :: string where "WORKSPACE_TRUST \<equiv> ''workspace/trust''"
abbreviation WORKSPACE_STATUS :: string where "WORKSPACE_STATUS \<equiv> ''workspace/status''"
abbreviation THREAD_START :: string where "THREAD_START \<equiv> ''thread/start''"
abbreviation THREAD_RESUME :: string where "THREAD_RESUME \<equiv> ''thread/resume''"
abbreviation THREAD_FORK :: string where "THREAD_FORK \<equiv> ''thread/fork''"
abbreviation THREAD_READ :: string where "THREAD_READ \<equiv> ''thread/read''"
abbreviation THREAD_LIST :: string where "THREAD_LIST \<equiv> ''thread/list''"
abbreviation THREAD_ARCHIVE :: string where "THREAD_ARCHIVE \<equiv> ''thread/archive''"
abbreviation THREAD_COMPACT :: string where "THREAD_COMPACT \<equiv> ''thread/compact''"
abbreviation THREAD_SUBSCRIBE :: string where "THREAD_SUBSCRIBE \<equiv> ''thread/subscribe''"
abbreviation TURN_START :: string where "TURN_START \<equiv> ''turn/start''"
abbreviation TURN_STEER :: string where "TURN_STEER \<equiv> ''turn/steer''"
abbreviation TURN_INTERRUPT :: string where "TURN_INTERRUPT \<equiv> ''turn/interrupt''"
abbreviation INVOCATION_RECONCILE :: string where "INVOCATION_RECONCILE \<equiv> ''invocation/reconcile''"
abbreviation MODEL_LIST :: string where "MODEL_LIST \<equiv> ''model/list''"
abbreviation SKILL_LIST :: string where "SKILL_LIST \<equiv> ''skill/list''"
abbreviation MCP_STATUS :: string where "MCP_STATUS \<equiv> ''mcp/status''"
abbreviation PLUGIN_LIST :: string where "PLUGIN_LIST \<equiv> ''plugin/list''"
abbreviation JOB_CREATE :: string where "JOB_CREATE \<equiv> ''job/create''"
abbreviation JOB_LIST :: string where "JOB_LIST \<equiv> ''job/list''"
abbreviation JOB_PAUSE :: string where "JOB_PAUSE \<equiv> ''job/pause''"
abbreviation JOB_RESUME :: string where "JOB_RESUME \<equiv> ''job/resume''"
abbreviation JOB_RUN :: string where "JOB_RUN \<equiv> ''job/run''"

definition PARSE_ERROR :: int where "PARSE_ERROR = -32700"
definition INVALID_REQUEST :: int where "INVALID_REQUEST = -32600"
definition METHOD_NOT_FOUND :: int where "METHOD_NOT_FOUND = -32601"
definition INVALID_PARAMS :: int where "INVALID_PARAMS = -32602"
definition INTERNAL_ERROR :: int where "INTERNAL_ERROR = -32603"
definition INCOMPATIBLE_PROTOCOL :: int where "INCOMPATIBLE_PROTOCOL = -32001"
definition COMMAND_CONFLICT :: int where "COMMAND_CONFLICT = -32002"
definition NOT_INITIALIZED :: int where "NOT_INITIALIZED = -32000"
definition NOT_FOUND :: int where "NOT_FOUND = -32004"
definition INVALID_STATE :: int where "INVALID_STATE = -32005"
definition FEATURE_UNAVAILABLE :: int where "FEATURE_UNAVAILABLE = -32006"

definition MAX_PAGE_SIZE :: nat where "MAX_PAGE_SIZE = 1000"

record rpc_fault =
  rf_code :: int
  rf_message :: string
  rf_data :: "json option"

definition fault_new :: "int \<Rightarrow> string \<Rightarrow> rpc_fault" where
  "fault_new code message = \<lparr>rf_code = code, rf_message = message, rf_data = None\<rparr>"

definition with_data :: "rpc_fault \<Rightarrow> json \<Rightarrow> rpc_fault" where
  "with_data f data = f\<lparr>rf_data := Some data\<rparr>"

text \<open>What an internal fault reports: its \<open>Display\<close> text is the parameter \<open>ec_display\<close>.\<close>

datatype internal_cause =
    LedgerCause ledger_error
  | CoreCause core_projection_error
  | WorkspaceCause workspace_error
  | DescriptorCause descriptor_error
  | IdCause string
  | TextCause string

section \<open>Parameters\<close>

record client_info =
  ci_name :: string
  ci_version :: string

record initialize_params =
  ip_protocol_version :: protocol_version
  ip_client_info :: client_info

record workspace_trust_params =
  wt_workspace_id :: workspace_id
  wt_trust :: workspace_trust
  wt_identity_digest :: string

record thread_start_params =
  tsp_workspace_id :: workspace_id
  tsp_title :: "string option"
  tsp_agent_id :: "agent_id option"

record thread_resume_params =
  trp_thread_id :: thread_id
  trp_after_seq :: nat

record thread_fork_params =
  tfp_thread_id :: thread_id
  tfp_at_seq :: nat
  tfp_title :: "string option"

record thread_read_params =
  tdp_thread_id :: thread_id
  tdp_after_seq :: nat
  tdp_limit :: nat

record thread_list_params =
  tlp_workspace_id :: "workspace_id option"
  tlp_include_archived :: bool
  tlp_limit :: nat
  tlp_cursor :: "string option"

record turn_start_params =
  usp_thread_id :: thread_id
  usp_agent_id :: "agent_id option"
  usp_content :: "content_block list"
  usp_capability_override :: "capability_grant option"

record turn_steer_params =
  utp_thread_id :: thread_id
  utp_turn_id :: turn_id
  utp_message :: string

record turn_interrupt_params =
  uip_thread_id :: thread_id
  uip_turn_id :: turn_id
  uip_reason :: "string option"

record invocation_reconcile_params =
  irp_thread_id :: thread_id
  irp_invocation_id :: invocation_id
  irp_outcome :: reconciliation_outcome
  irp_evidence :: reconciliation_evidence

section \<open>Results\<close>

datatype reasoning_support = NoReasoning | Summary | Full

record provider_capabilities =
  pca_tool_calls :: bool
  pca_parallel_tool_calls :: bool
  pca_reasoning :: reasoning_support
  pca_vision :: bool
  pca_prompt_cache :: bool
  pca_max_context_tokens :: nat

record model_descriptor =
  mdl_provider :: string
  mdl_model :: string
  mdl_display_name :: string
  mdl_capabilities :: provider_capabilities

record skill_descriptor =
  skd_id :: string
  skd_name :: string
  skd_description :: string
  skd_source :: string
  skd_content_digest :: string
  skd_trusted :: bool

record mcp_server_status =
  mcs_id :: string
  mcs_transport :: string
  mcs_state :: string
  mcs_discovered_tool_count :: nat

record plugin_descriptor =
  pld_id :: string
  pld_version :: string
  pld_content_digest :: string
  pld_state :: string
  pld_capabilities :: "string list"

record server_capabilities =
  sca_unix_socket :: bool
  sca_jobs :: bool
  sca_subagents :: bool
  sca_plugins :: bool
  sca_write_tools :: bool
  sca_process_tools :: bool
  sca_write_tools_reason :: "string option"
  sca_process_tools_reason :: "string option"
  sca_sandbox :: "string option"

datatype command_result =
    InitializeResult protocol_version client_info server_capabilities capability_mode
  | WorkspaceResult workspace
  | WorkspaceStatusResult workspace "thread_id option"
  | ThreadResult thread
  | ThreadReadResult thread "event_envelope list" "nat option"
  | ThreadListResult "thread list" "string option"
  | ThreadSubscribeResult string nat
  | TurnResult turn
  | AcceptedResult bool
  | InvocationReconcileResult thread_id invocation_id invocation_state reconciliation_evidence
  | ModelListResult "model_descriptor list"
  | SkillListResult "skill_descriptor list"
  | McpStatusResult "mcp_server_status list"
  | PluginListResult "plugin_descriptor list"
  | JobResult job_spec job_state
  | JobListResult "(job_spec \<times> job_state) list"

section \<open>Serialisation\<close>

record decoders =
  de_initialize :: "json \<Rightarrow> (string, initialize_params) rust_result"
  de_workspace_open :: "json \<Rightarrow> (string, string) rust_result"
  de_workspace_trust :: "json \<Rightarrow> (string, workspace_trust_params) rust_result"
  de_workspace_status :: "json \<Rightarrow> (string, workspace_id) rust_result"
  de_thread_start :: "json \<Rightarrow> (string, thread_start_params) rust_result"
  de_thread_resume :: "json \<Rightarrow> (string, thread_resume_params) rust_result"
  de_thread_fork :: "json \<Rightarrow> (string, thread_fork_params) rust_result"
  de_thread_read :: "json \<Rightarrow> (string, thread_read_params) rust_result"
  de_thread_list :: "json \<Rightarrow> (string, thread_list_params) rust_result"
  de_thread_archive :: "json \<Rightarrow> (string, thread_id) rust_result"
  de_thread_subscribe :: "json \<Rightarrow> (string, thread_resume_params) rust_result"
  de_turn_start :: "json \<Rightarrow> (string, turn_start_params) rust_result"
  de_turn_steer :: "json \<Rightarrow> (string, turn_steer_params) rust_result"
  de_turn_interrupt :: "json \<Rightarrow> (string, turn_interrupt_params) rust_result"
  de_invocation_reconcile :: "json \<Rightarrow> (string, invocation_reconcile_params) rust_result"
  de_model_list :: "json \<Rightarrow> (string, string option) rust_result"
  de_empty :: "json \<Rightarrow> (string, unit) rust_result"
  de_job_create :: "json \<Rightarrow> (string, job_spec) rust_result"
  de_job_list :: "json \<Rightarrow> (string, workspace_id option) rust_result"
  de_job_id :: "json \<Rightarrow> (string, job_id) rust_result"
  de_model_descriptor :: "json \<Rightarrow> (string, model_descriptor) rust_result"

record encoders =
  ec_result :: "command_result \<Rightarrow> json"
  ec_blocks :: "content_block list \<Rightarrow> json"
  ec_grant :: "capability_grant option \<Rightarrow> json"
  ec_outcome :: "reconciliation_outcome \<Rightarrow> json"
  ec_evidence :: "reconciliation_evidence \<Rightarrow> json"
  ec_uuid :: "uuid \<Rightarrow> json"
  ec_display :: "internal_cause \<Rightarrow> string"

section \<open>The daemon\<close>

text \<open>What stays the same while the daemon runs.\<close>

record 'w service =
  sv_codec :: codec
  sv_externals :: externals
  sv_decoders :: decoders
  sv_encoders :: encoders
  sv_os :: "'w os"
  sv_ids :: "nat \<Rightarrow> (string, uuid) rust_result"
  sv_clock :: "nat \<Rightarrow> instant"
  sv_time_stored :: "instant \<Rightarrow> instant"
  sv_is_v7 :: "uuid \<Rightarrow> bool"
  sv_artifact_ok :: "string \<Rightarrow> bool"
  sv_sandbox :: sandbox_backend
  sv_sandbox_text :: "sandbox_error \<Rightarrow> string"
  sv_version :: string
  sv_host_ceiling :: capability_mode
  sv_executes_turns :: bool
  sv_configured_model :: "model_descriptor option"

text \<open>
  What changes: the ledger, the descriptors, the world of the file system, how many
  identifiers were drawn and how often the clock was read, the envelopes sent to the
  subscribers, and the cancellation flags of the running turns.
\<close>

record 'w daemon =
  dm_ledger :: ledger
  dm_descriptors :: descriptor_store
  dm_world :: 'w
  dm_ids :: nat
  dm_clock :: nat
  dm_sent :: "event_envelope list"
  dm_active :: "(turn_id, bool) btree_map"

type_synonym ('w, 'a) cmd = "('w daemon, rpc_fault, 'a) act"

record replay_window =
  rw_thread_id :: thread_id
  rw_after_seq :: nat
  rw_through_seq :: nat

record turn_run_spec =
  tr_thread_id :: thread_id
  tr_turn_id :: turn_id

record command_outcome =
  co_result :: json
  co_replay :: "replay_window option"
  co_subscription :: "(thread_id \<times> nat) option"
  co_turn_run :: "turn_run_spec option"

definition plain_outcome :: "json \<Rightarrow> command_outcome" where
  "plain_outcome result = \<lparr>co_result = result, co_replay = None, co_subscription = None, co_turn_run = None\<rparr>"

end
