(* ===== verification/Command_Service.thy ===== *)
theory Command_Service
  imports Command_Types
begin

text \<open>
  The command handlers of the daemon (\<open>yeuxd/src/commands.rs\<close>). A handler reads the core
  projection of the ledger, checks the command against it, and commits its events and the
  command receipt in one transaction. Handlers run under the command gate, one at a time.
\<close>

section \<open>Basic steps\<close>

definition internal :: "'w service \<Rightarrow> internal_cause \<Rightarrow> rpc_fault" where
  "internal S cause =
     with_data (fault_new INTERNAL_ERROR ''internal daemon error'')
       (JObject [(''detail'', JString (ec_display (sv_encoders S) cause))])"

definition not_found :: "'w service \<Rightarrow> string \<Rightarrow> uuid \<Rightarrow> rpc_fault" where
  "not_found S kind i = fault_new NOT_FOUND (kind @ '' not found: '' @ uuid_str (sv_externals S) i)"

text \<open>Reading the clock and drawing an identifier.\<close>

definition clock_now :: "'w service \<Rightarrow> ('w, instant) cmd" where
  "clock_now S d = (d\<lparr>dm_clock := Suc (dm_clock d)\<rparr>, Ok (sv_clock S (dm_clock d)))"

definition next_uuid :: "'w service \<Rightarrow> ('w, uuid) cmd" where
  "next_uuid S d = (d\<lparr>dm_ids := Suc (dm_ids d)\<rparr>, map_err (\<lambda>e. internal S (IdCause e)) (sv_ids S (dm_ids d)))"

text \<open>An operation on the file system, and a transaction on the ledger.\<close>

definition on_files :: "'w service \<Rightarrow> ('w, workspace_error, 'a) act \<Rightarrow> ('w, 'a) cmd" where
  "on_files S m d =
     (case m (dm_world d) of (w, r) \<Rightarrow> (d\<lparr>dm_world := w\<rparr>, map_err (\<lambda>e. internal S (WorkspaceCause e)) r))"

definition on_ledger :: "(ledger_error \<Rightarrow> rpc_fault) \<Rightarrow> (ledger \<Rightarrow> (ledger_error, ledger \<times> 'a) rust_result) \<Rightarrow> ('w, 'a) cmd" where
  "on_ledger fault t d =
     (case t (dm_ledger d) of Inl e \<Rightarrow> (d, Err (fault e)) | Inr (db, x) \<Rightarrow> (d\<lparr>dm_ledger := db\<rparr>, Ok x))"

definition read_projection :: "'w service \<Rightarrow> ('w, projection) cmd" where
  "read_projection S d =
     (d, map_err (\<lambda>e. internal S (CoreCause e)) (project_core (sv_codec S) (sv_externals S) (dm_ledger d)))"

definition encode :: "'w service \<Rightarrow> command_result \<Rightarrow> json" where
  "encode S r = ec_result (sv_encoders S) r"

definition decode :: "(json \<Rightarrow> (string, 'a) rust_result) \<Rightarrow> json \<Rightarrow> (rpc_fault, 'a) rust_result" where
  "decode f params =
     map_err (\<lambda>e. with_data (fault_new INVALID_PARAMS ''invalid method parameters'') (JObject [(''detail'', JString e)]))
       (f (if params = JNull then JObject [] else params))"

definition new_event ::
  "'w service \<Rightarrow> thread_id \<Rightarrow> turn_id option \<Rightarrow> agent_id \<Rightarrow> command_id \<Rightarrow> instant \<Rightarrow> event \<Rightarrow> ('w, new_ledger_event) cmd" where
  "new_event S thread turn agent command time event =
     (let serialized = cd_event_value (sv_codec S) event; X = sv_externals S in
      abind (alift (ok_or (internal S (TextCause ''event kind is missing''))
         (Option.bind (json_get serialized ''kind'') json_as_str))) (\<lambda>kind.
      abind (next_uuid S) (\<lambda>event_id.
      areturn
        \<lparr>nl_schema_version = PROTOCOL_VERSION, nl_event_id = uuid_str X event_id, nl_thread_id = uuid_str X thread,
         nl_turn_id = map_option (uuid_str X) turn, nl_agent_id = agent, nl_time = time,
         nl_causation_id = Some (uuid_str X command), nl_kind = kind,
         nl_payload = (case json_get serialized ''payload'' of None \<Rightarrow> JNull | Some p \<Rightarrow> p)\<rparr>)))"

text \<open>Publishing committed rows to the subscribers.\<close>

fun send_events :: "'w service \<Rightarrow> ledger_event list \<Rightarrow> ('w, unit) cmd" where
  "send_events S [] = areturn ()"
| "send_events S (row # rows) =
     abind (alift (map_err (\<lambda>e. internal S (LedgerCause e)) (envelope_of (sv_codec S) row))) (\<lambda>envelope.
     abind (\<lambda>d. (d\<lparr>dm_sent := dm_sent d @ [envelope]\<rparr>, Ok ())) (\<lambda>_.
     send_events S rows))"

definition receipt_of :: "'w service \<Rightarrow> command_id \<Rightarrow> string \<Rightarrow> string \<Rightarrow> json \<Rightarrow> instant \<Rightarrow> new_command_receipt" where
  "receipt_of S command method digest response time =
     \<lparr>nr_command_id = uuid_str (sv_externals S) command, nr_method = method, nr_params_digest = digest,
      nr_response = response, nr_created_at = time\<rparr>"

definition commit_events ::
  "'w service \<Rightarrow> command_id \<Rightarrow> string \<Rightarrow> string \<Rightarrow> json \<Rightarrow> new_ledger_event list \<Rightarrow> ('w, json) cmd" where
  "commit_events S command method digest response events =
     abind (clock_now S) (\<lambda>time.
     abind (on_ledger (\<lambda>e. internal S (LedgerCause e))
        (\<lambda>db. append_batch_with_receipt (cd_stored (sv_codec S)) db events (receipt_of S command method digest response time))) (\<lambda>committed.
     abind (send_events S (cb_events committed)) (\<lambda>_.
     areturn (cb_response committed))))"

definition projected_thread :: "'w service \<Rightarrow> thread_id \<Rightarrow> ('w, thread) cmd" where
  "projected_thread S t =
     abind (read_projection S) (\<lambda>p. alift (ok_or (not_found S ''thread'' t) (bt_get (pr_threads p) t)))"

definition fail_unless :: "bool \<Rightarrow> int \<Rightarrow> string \<Rightarrow> ('w, unit) cmd" where
  "fail_unless b code message = aguard b (fault_new code message)"

section \<open>Validation\<close>

definition MAX_TURN_CONTENT_BLOCKS :: nat where "MAX_TURN_CONTENT_BLOCKS = 128"
definition MAX_TURN_CONTENT_BYTES :: nat where "MAX_TURN_CONTENT_BYTES = 256 * 1024"
definition MAX_TURN_TEXT_BYTES :: nat where "MAX_TURN_TEXT_BYTES = 64 * 1024"
definition MAX_TURN_STEER_BYTES :: nat where "MAX_TURN_STEER_BYTES = 64 * 1024"
definition MAX_THREAD_TITLE_BYTES :: nat where "MAX_THREAD_TITLE_BYTES = 512"
definition MAX_RECONCILIATION_SUMMARY_BYTES :: nat where "MAX_RECONCILIATION_SUMMARY_BYTES = 4 * 1024"
definition MAX_RECONCILIATION_ARTIFACT_URI_BYTES :: nat where "MAX_RECONCILIATION_ARTIFACT_URI_BYTES = 2 * 1024"
definition OPERATOR_RECONCILIATION_SOURCE :: string where "OPERATOR_RECONCILIATION_SOURCE = ''operator_review''"

definition bytes_limit :: "nat \<Rightarrow> string" where
  "bytes_limit n = dec_digits n @ ''-byte limit''"

definition validate_optional_bounded_text :: "string option \<Rightarrow> string \<Rightarrow> nat \<Rightarrow> (rpc_fault, unit) rust_result" where
  "validate_optional_bounded_text value label limit =
     (if (case value of None \<Rightarrow> False | Some text \<Rightarrow> length text > limit)
      then Err (fault_new INVALID_PARAMS (label @ '' exceeds '' @ bytes_limit limit)) else Ok ())"

definition validate_page_limit :: "nat \<Rightarrow> (rpc_fault, unit) rust_result" where
  "validate_page_limit limit =
     (if limit = 0 \<or> limit > MAX_PAGE_SIZE
      then Err (fault_new INVALID_PARAMS (''limit must be between 1 and '' @ dec_digits MAX_PAGE_SIZE)) else Ok ())"

definition source_bytes :: "image_source \<Rightarrow> nat" where
  "source_bytes source = (case source of Url s \<Rightarrow> length s | Artifact s \<Rightarrow> length s | Base64 s \<Rightarrow> length s)"

definition block_size :: "content_block \<Rightarrow> (string \<times> nat) option" where
  "block_size block =
     (case block of
        Text text \<Rightarrow> Some (''text'', length text)
      | Image media_type source \<Rightarrow> Some (''image'', saturating_add (length media_type) (source_bytes source))
      | _ \<Rightarrow> None)"

fun validate_blocks :: "nat \<Rightarrow> content_block list \<Rightarrow> (rpc_fault, unit) rust_result" where
  "validate_blocks so_far [] = Ok ()"
| "validate_blocks so_far (block # blocks) =
     (case block_size block of
        None \<Rightarrow> Err (fault_new INVALID_PARAMS ''turn content may contain only text or image blocks'')
      | Some (kind, bytes) \<Rightarrow>
          if bytes > MAX_TURN_TEXT_BYTES
          then Err (fault_new INVALID_PARAMS (kind @ '' block exceeds '' @ bytes_limit MAX_TURN_TEXT_BYTES))
          else if saturating_add so_far bytes > MAX_TURN_CONTENT_BYTES
          then Err (fault_new INVALID_PARAMS (''turn content exceeds '' @ bytes_limit MAX_TURN_CONTENT_BYTES))
          else validate_blocks (saturating_add so_far bytes) blocks)"

definition validate_turn_content :: "content_block list \<Rightarrow> (rpc_fault, unit) rust_result" where
  "validate_turn_content content =
     (if content = [] then Err (fault_new INVALID_PARAMS ''turn content must contain at least one block'')
      else if length content > MAX_TURN_CONTENT_BLOCKS
      then Err (fault_new INVALID_PARAMS (''turn content exceeds '' @ dec_digits MAX_TURN_CONTENT_BLOCKS @ ''-block limit''))
      else validate_blocks 0 content)"

definition ARTIFACT_SCHEME :: string where "ARTIFACT_SCHEME = ''artifact://''"

definition validate_artifact_uri :: "string option \<Rightarrow> (rpc_fault, unit) rust_result" where
  "validate_artifact_uri artifact =
     (case artifact of
        None \<Rightarrow> Ok ()
      | Some uri \<Rightarrow>
          if length uri > MAX_RECONCILIATION_ARTIFACT_URI_BYTES
          then Err (fault_new INVALID_PARAMS (''reconciliation artifact URI exceeds '' @ bytes_limit MAX_RECONCILIATION_ARTIFACT_URI_BYTES))
          else if take (length ARTIFACT_SCHEME) uri \<noteq> ARTIFACT_SCHEME
          then Err (fault_new INVALID_PARAMS ''reconciliation artifact URI must use the artifact:// scheme'')
          else Ok ())"

definition validate_reconciliation_evidence :: "reconciliation_evidence \<Rightarrow> (rpc_fault, unit) rust_result" where
  "validate_reconciliation_evidence evidence =
     (if re_source evidence \<noteq> OPERATOR_RECONCILIATION_SOURCE
      then Err (fault_new INVALID_PARAMS (''reconciliation evidence source must be '' @ OPERATOR_RECONCILIATION_SOURCE))
      else if is_blank (re_summary evidence)
      then Err (fault_new INVALID_PARAMS ''reconciliation evidence summary must not be empty'')
      else if length (re_summary evidence) > MAX_RECONCILIATION_SUMMARY_BYTES
      then Err (fault_new INVALID_PARAMS (''reconciliation evidence summary exceeds '' @ bytes_limit MAX_RECONCILIATION_SUMMARY_BYTES))
      else if CHR 0x00 \<in> set (re_summary evidence) \<or> CHR 0x7F \<in> set (re_summary evidence)
      then Err (fault_new INVALID_PARAMS ''reconciliation evidence summary contains a forbidden control character'')
      else validate_artifact_uri (re_artifact_uri evidence))"

definition capability_reason :: "bool \<Rightarrow> bool \<Rightarrow> capability_mode \<Rightarrow> string option \<Rightarrow> string \<Rightarrow> string option" where
  "capability_reason ready provider_tools_ready ceiling sandbox_error capability =
     (if ready then None
      else if \<not> provider_tools_ready then Some ''configured provider does not advertise tool calls''
      else if ceiling = Observe then Some ''daemon host ceiling is observe''
      else case sandbox_error of
        Some error \<Rightarrow> Some (capability @ '' sandbox unavailable: '' @ error)
      | None \<Rightarrow> Some (capability @ '' is unavailable''))"

section \<open>Workspaces\<close>

definition result_error :: "('e, 'a) rust_result \<Rightarrow> 'e option" where
  "result_error r = (case r of Inl e \<Rightarrow> Some e | Inr _ \<Rightarrow> None)"

definition initialize_cmd :: "'w service \<Rightarrow> initialize_params \<Rightarrow> ('w, json) cmd" where
  "initialize_cmd S params =
     (if \<not> accepts PROTOCOL_VERSION (ip_protocol_version params)
      then afail (fault_new INCOMPATIBLE_PROTOCOL
        (''protocol '' @ dec_digits (major (ip_protocol_version params)) @ ''.'' @ dec_digits (minor (ip_protocol_version params)) @
         '' is incompatible with server '' @ dec_digits (major PROTOCOL_VERSION) @ ''.'' @ dec_digits (minor PROTOCOL_VERSION)))
      else
        let write_error = result_error (ensure (sv_sandbox S) (default_requirement\<lparr>sr_process_isolation := False, sr_allow_workspace_write := True\<rparr>));
            process_error = result_error (ensure (sv_sandbox S) default_requirement);
            provider_tools = (case sv_configured_model S of None \<Rightarrow> False | Some m \<Rightarrow> pca_tool_calls (mdl_capabilities m));
            write_ready = (write_error = None \<and> provider_tools \<and> sv_host_ceiling S \<noteq> Observe);
            process_ready = (process_error = None \<and> provider_tools \<and> sv_host_ceiling S \<noteq> Observe) in
        areturn (encode S (InitializeResult PROTOCOL_VERSION \<lparr>ci_name = ''yeuxd'', ci_version = sv_version S\<rparr>
          \<lparr>sca_unix_socket = True, sca_jobs = False, sca_subagents = False, sca_plugins = False,
           sca_write_tools = write_ready, sca_process_tools = process_ready,
           sca_write_tools_reason = capability_reason write_ready provider_tools (sv_host_ceiling S)
             (map_option (sv_sandbox_text S) write_error) ''filesystem mutation'',
           sca_process_tools_reason = capability_reason process_ready provider_tools (sv_host_ceiling S)
             (map_option (sv_sandbox_text S) process_error) ''process execution'',
           sca_sandbox = Some (backend_name (sv_sandbox S))\<rparr> (sv_host_ceiling S))))"

text \<open>The identity of a workspace; a failing lookup of the Git directory counts as none.\<close>

definition workspace_identity_of :: "'w os \<Rightarrow> workspace_identity_snapshot \<Rightarrow> 'w \<Rightarrow> 'w \<times> workspace_identity" where
  "workspace_identity_of os snapshot w =
     (let root = wis_canonical_root snapshot;
          identity = (\<lambda>git. \<lparr>wi_canonical_root = utf8_lossy root, wi_digest = wis_digest snapshot, wi_device = wis_device snapshot,
                             wi_inode = wis_inode snapshot, wi_git_common_dir = git\<rparr>) in
      case os_canonicalize os (path_join root ''.git'') w of
        (w1, Inl _) \<Rightarrow> (w1, identity None)
      | (w1, Inr path) \<Rightarrow>
          (case os_is_dir os path w1 of (w2, b) \<Rightarrow> (w2, identity (if b then Some (utf8_lossy path) else None))))"

definition workspace_open_cmd :: "'w service \<Rightarrow> command_id \<Rightarrow> string \<Rightarrow> string \<Rightarrow> ('w, json) cmd" where
  "workspace_open_cmd S command digest path =
     abind (on_files S (workspace_open (sv_os S) path)) (\<lambda>runtime.
     let root = utf8_lossy (wk_root runtime) in
     abind (read_projection S) (\<lambda>p.
     case find (\<lambda>w. ws_root w = root \<and> wi_digest (ws_identity w) = wk_identity runtime) (bt_values (pr_workspaces p)) of
       Some w \<Rightarrow> areturn (encode S (WorkspaceResult w))
     | None \<Rightarrow>
         abind (next_uuid S) (\<lambda>workspace_id.
         abind (clock_now S) (\<lambda>now.
         abind (on_files S (\<lambda>w. case workspace_identity_of (sv_os S) (wk_root_identity runtime) w of (w', i) \<Rightarrow> (w', Ok i))) (\<lambda>identity.
         let w = \<lparr>ws_id = workspace_id, ws_root = root, ws_identity = identity, ws_trust = Untrusted, ws_opened_at = now\<rparr> in
         abind (new_event S workspace_id None ''root'' command now (WorkspaceOpened w)) (\<lambda>event.
         commit_events S command WORKSPACE_OPEN digest (encode S (WorkspaceResult w)) [event]))))))"

definition workspace_trust_cmd :: "'w service \<Rightarrow> command_id \<Rightarrow> string \<Rightarrow> workspace_trust_params \<Rightarrow> ('w, json) cmd" where
  "workspace_trust_cmd S command digest params =
     abind (read_projection S) (\<lambda>p.
     abind (alift (ok_or (not_found S ''workspace'' (wt_workspace_id params)) (bt_get (pr_workspaces p) (wt_workspace_id params)))) (\<lambda>w.
     abind (on_files S (workspace_open (sv_os S) (ws_root w))) (\<lambda>runtime.
     abind (fail_unless (wt_identity_digest params = wi_digest (ws_identity w) \<and> wk_identity runtime = wi_digest (ws_identity w))
        COMMAND_CONFLICT ''workspace identity changed; reopen it before changing trust'') (\<lambda>_.
     if ws_trust w = wt_trust params then areturn (encode S (WorkspaceResult w))
     else
       abind (clock_now S) (\<lambda>now.
       abind (new_event S (wt_workspace_id params) None ''root'' command now
          (WorkspaceTrustChanged (wt_workspace_id params) (wt_trust params))) (\<lambda>event.
       commit_events S command WORKSPACE_TRUST digest (encode S (WorkspaceResult (w\<lparr>ws_trust := wt_trust params\<rparr>))) [event]))))))"

definition workspace_status_cmd :: "'w service \<Rightarrow> workspace_id \<Rightarrow> ('w, json) cmd" where
  "workspace_status_cmd S i =
     abind (read_projection S) (\<lambda>p.
     abind (alift (ok_or (not_found S ''workspace'' i) (bt_get (pr_workspaces p) i))) (\<lambda>w.
     areturn (encode S (WorkspaceStatusResult w
       (map_option th_id (find (\<lambda>t. th_workspace_id t = i \<and> th_status t = thread_status.Active) (bt_values (pr_threads p))))))))"

section \<open>Threads\<close>

definition thread_of :: "thread_id \<Rightarrow> workspace_id \<Rightarrow> (thread_id \<times> nat) option \<Rightarrow> string option \<Rightarrow> instant \<Rightarrow> thread" where
  "thread_of t w parent title now =
     \<lparr>th_id = t, th_workspace_id = w, th_parent_thread_id = map_option fst parent, th_parent_seq = map_option snd parent,
      th_title = title, th_status = Idle, th_created_at = now, th_updated_at = now, th_last_seq = 0\<rparr>"

definition thread_start :: "'w service \<Rightarrow> command_id \<Rightarrow> string \<Rightarrow> thread_start_params \<Rightarrow> ('w, json) cmd" where
  "thread_start S command digest params =
     abind (alift (validate_optional_bounded_text (tsp_title params) ''thread title'' MAX_THREAD_TITLE_BYTES)) (\<lambda>_.
     abind (read_projection S) (\<lambda>p.
     if \<not> bt_contains (pr_workspaces p) (tsp_workspace_id params) then afail (not_found S ''workspace'' (tsp_workspace_id params))
     else
       abind (clock_now S) (\<lambda>now.
       abind (next_uuid S) (\<lambda>thread_id.
       let thread = thread_of thread_id (tsp_workspace_id params) None (tsp_title params) now in
       abind (new_event S thread_id None (case tsp_agent_id params of None \<Rightarrow> ''root'' | Some a \<Rightarrow> a) command now (ThreadStarted thread)) (\<lambda>event.
       commit_events S command THREAD_START digest (encode S (ThreadResult (thread\<lparr>th_last_seq := 1\<rparr>))) [event])))))"

definition unresolved :: "projection \<Rightarrow> thread_id \<Rightarrow> invocation_id list" where
  "unresolved p t =
     map pv_invocation_id (filter (\<lambda>v. pv_thread_id v = t \<and> pv_state v = invocation_state.Unknown) (bt_values (pr_invocations p)))"

definition unresolved_fault :: "'w service \<Rightarrow> string \<Rightarrow> invocation_id list \<Rightarrow> rpc_fault" where
  "unresolved_fault S message ids =
     with_data (fault_new INVALID_STATE message)
       (JObject [(''action'', JString INVOCATION_RECONCILE),
                 (''invocationIds'', JArray (map (\<lambda>i. JString (uuid_str (sv_externals S) i)) ids)),
                 (''recoverable'', JBool True)])"

definition thread_fork :: "'w service \<Rightarrow> command_id \<Rightarrow> string \<Rightarrow> thread_fork_params \<Rightarrow> ('w, json) cmd" where
  "thread_fork S command digest params =
     abind (alift (validate_optional_bounded_text (tfp_title params) ''thread title'' MAX_THREAD_TITLE_BYTES)) (\<lambda>_.
     abind (read_projection S) (\<lambda>p.
     abind (alift (ok_or (not_found S ''thread'' (tfp_thread_id params)) (bt_get (pr_threads p) (tfp_thread_id params)))) (\<lambda>parent.
     abind (fail_unless (tfp_at_seq params \<le> th_last_seq parent) INVALID_PARAMS ''atSeq is beyond the parent thread'') (\<lambda>_.
     if unresolved p (th_id parent) \<noteq> []
     then afail (unresolved_fault S ''reconcile unknown invocation outcomes before forking a thread'' (unresolved p (th_id parent)))
     else
       abind (clock_now S) (\<lambda>now.
       abind (next_uuid S) (\<lambda>child_id.
       let child = thread_of child_id (th_workspace_id parent) (Some (th_id parent, tfp_at_seq params)) (tfp_title params) now in
       abind (new_event S child_id None ''root'' command now (ThreadForked child)) (\<lambda>event.
       commit_events S command THREAD_FORK digest (encode S (ThreadResult (child\<lparr>th_last_seq := 1\<rparr>))) [event])))))))"

definition events_page_after :: "'w service \<Rightarrow> thread_id \<Rightarrow> nat \<Rightarrow> nat \<Rightarrow> ('w, event_envelope list) cmd" where
  "events_page_after S t after_seq limit d =
     (d, map_err (\<lambda>e. internal S (LedgerCause e))
        (rbind (replay_page (cd_stored (sv_codec S)) (dm_ledger d) (uuid_str (sv_externals S) t) after_seq limit)
           (collect_results (envelope_of (sv_codec S)))))"

definition read_thread :: "'w service \<Rightarrow> thread_id \<Rightarrow> nat \<Rightarrow> nat \<Rightarrow> ('w, command_result) cmd" where
  "read_thread S t after_seq limit =
     abind (projected_thread S t) (\<lambda>thread.
     abind (fail_unless (after_seq \<le> th_last_seq thread) INVALID_PARAMS ''afterSeq is beyond the end of the thread'') (\<lambda>_.
     abind (events_page_after S t after_seq (saturating_add limit 1)) (\<lambda>events.
     areturn (ThreadReadResult thread (take limit events)
       (if length events > limit then Some (en_seq (events ! (limit - 1))) else None)))))"

definition thread_resume :: "'w service \<Rightarrow> thread_resume_params \<Rightarrow> ('w, json) cmd" where
  "thread_resume S params =
     abind (read_thread S (trp_thread_id params) (trp_after_seq params) MAX_PAGE_SIZE) (\<lambda>r. areturn (encode S r))"

definition thread_read :: "'w service \<Rightarrow> thread_read_params \<Rightarrow> ('w, json) cmd" where
  "thread_read S params =
     abind (alift (validate_page_limit (tdp_limit params))) (\<lambda>_.
     abind (read_thread S (tdp_thread_id params) (tdp_after_seq params) (tdp_limit params)) (\<lambda>r. areturn (encode S r)))"

text \<open>\<open>str::parse::<usize>\<close>: an optional plus sign and digits, at most \<open>u64::MAX\<close>.\<close>

fun digits_value :: "nat \<Rightarrow> string \<Rightarrow> nat option" where
  "digits_value n [] = Some n"
| "digits_value n (c # cs) =
     (let v = of_char c in
      if 48 \<le> v \<and> v \<le> (57 :: nat) \<and> 10 * n + (v - 48) \<le> u64_max then digits_value (10 * n + (v - 48)) cs else None)"

definition parse_usize :: "string \<Rightarrow> nat option" where
  "parse_usize s =
     (let body = (case s of [] \<Rightarrow> [] | c # cs \<Rightarrow> if c = CHR ''+'' then cs else s) in
      if body = [] then None else digits_value 0 body)"

definition listed :: "thread_list_params \<Rightarrow> projection \<Rightarrow> thread list" where
  "listed params p =
     sort_key (\<lambda>t. - th_updated_at t) (sort_key th_id
       (filter (\<lambda>t. (case tlp_workspace_id params of None \<Rightarrow> True | Some w \<Rightarrow> th_workspace_id t = w) \<and>
          (tlp_include_archived params \<or> th_status t \<noteq> Archived)) (bt_values (pr_threads p))))"

definition thread_list :: "'w service \<Rightarrow> thread_list_params \<Rightarrow> ('w, json) cmd" where
  "thread_list S params =
     abind (alift (validate_page_limit (tlp_limit params))) (\<lambda>_.
     abind (alift (ok_or (fault_new INVALID_PARAMS ''invalid cursor'')
        (parse_usize (case tlp_cursor params of None \<Rightarrow> ''0'' | Some c \<Rightarrow> c)))) (\<lambda>offset.
     abind (read_projection S) (\<lambda>p.
     let threads = listed params p; has_more = (saturating_add offset (tlp_limit params) < length threads) in
     areturn (encode S (ThreadListResult (take (tlp_limit params) (drop offset threads))
       (if has_more then Some (dec_digits (offset + tlp_limit params)) else None))))))"

definition thread_archive :: "'w service \<Rightarrow> command_id \<Rightarrow> string \<Rightarrow> thread_id \<Rightarrow> ('w, json) cmd" where
  "thread_archive S command digest t =
     abind (read_projection S) (\<lambda>p.
     abind (alift (ok_or (not_found S ''thread'' t) (bt_get (pr_threads p) t))) (\<lambda>thread.
     abind (fail_unless (active_turn p t = None) INVALID_STATE ''interrupt the active turn before archiving the thread'') (\<lambda>_.
     if th_status thread = Archived then areturn (encode S (ThreadResult thread))
     else
       abind (clock_now S) (\<lambda>now.
       abind (new_event S t None ''root'' command now (ThreadArchived t)) (\<lambda>event.
       commit_events S command THREAD_ARCHIVE digest
         (encode S (ThreadResult (thread\<lparr>th_status := Archived, th_updated_at := now, th_last_seq := th_last_seq thread + 1\<rparr>))) [event])))))"

definition thread_subscribe :: "'w service \<Rightarrow> thread_resume_params \<Rightarrow> ('w, command_outcome) cmd" where
  "thread_subscribe S params =
     abind (projected_thread S (trp_thread_id params)) (\<lambda>thread.
     abind (fail_unless (trp_after_seq params \<le> th_last_seq thread) INVALID_PARAMS ''afterSeq is beyond the end of the thread'') (\<lambda>_.
     abind (next_uuid S) (\<lambda>subscription.
     areturn
       \<lparr>co_result = encode S (ThreadSubscribeResult (uuid_str (sv_externals S) subscription) (th_last_seq thread)),
        co_replay = Some \<lparr>rw_thread_id = trp_thread_id params, rw_after_seq = trp_after_seq params, rw_through_seq = th_last_seq thread\<rparr>,
        co_subscription = Some (trp_thread_id params, th_last_seq thread), co_turn_run = None\<rparr>)))"

section \<open>Turns\<close>

definition turn_of :: "turn_id \<Rightarrow> thread_id \<Rightarrow> agent_id \<Rightarrow> instant \<Rightarrow> turn" where
  "turn_of u t agent now =
     \<lparr>tu_id = u, tu_thread_id = t, tu_agent_id = agent, tu_state = Accepted, tu_started_at = now, tu_ended_at = None, tu_failure = None\<rparr>"

definition user_message :: "'w service \<Rightarrow> item_id \<Rightarrow> turn \<Rightarrow> turn_start_params \<Rightarrow> item" where
  "user_message S i turn params =
     \<lparr>it_id = i, it_thread_id = tu_thread_id turn, it_turn_id = tu_id turn, it_agent_id = tu_agent_id turn, it_kind = UserMessage,
      it_content = JObject [(''capability_override'', ec_grant (sv_encoders S) (usp_capability_override params)),
                            (''content'', ec_blocks (sv_encoders S) (usp_content params))],
      it_created_at = tu_started_at turn\<rparr>"

definition turn_start :: "'w service \<Rightarrow> command_id \<Rightarrow> string \<Rightarrow> turn_start_params \<Rightarrow> ('w, json \<times> turn_run_spec) cmd" where
  "turn_start S command digest params =
     abind (alift (validate_turn_content (usp_content params))) (\<lambda>_.
     abind (fail_unless (case usp_capability_override params of None \<Rightarrow> True | Some g \<Rightarrow> \<not> cg_mode g > sv_host_ceiling S)
        INVALID_PARAMS ''capability override exceeds the daemon host ceiling'') (\<lambda>_.
     abind (read_projection S) (\<lambda>p.
     abind (alift (ok_or (not_found S ''thread'' (usp_thread_id params)) (bt_get (pr_threads p) (usp_thread_id params)))) (\<lambda>thread.
     abind (fail_unless (th_status thread \<noteq> Archived) INVALID_STATE ''thread is archived'') (\<lambda>_.
     abind (case active_turn p (usp_thread_id params) of
              None \<Rightarrow> areturn ()
            | Some active \<Rightarrow> afail (fault_new INVALID_STATE (''thread already has active turn '' @ uuid_str (sv_externals S) (tu_id active)))) (\<lambda>_.
     if unresolved p (usp_thread_id params) \<noteq> []
     then afail (unresolved_fault S ''thread has invocation outcomes requiring reconciliation'' (unresolved p (usp_thread_id params)))
     else
       abind (clock_now S) (\<lambda>now.
       let agent = (case usp_agent_id params of None \<Rightarrow> ''root'' | Some a \<Rightarrow> a) in
       abind (next_uuid S) (\<lambda>turn_id.
       let turn = turn_of turn_id (usp_thread_id params) agent now in
       abind (new_event S (usp_thread_id params) (Some turn_id) agent command now (TurnStarted turn)) (\<lambda>started.
       abind (next_uuid S) (\<lambda>item_id.
       abind (new_event S (usp_thread_id params) (Some turn_id) agent command now (ItemAdded (user_message S item_id turn params))) (\<lambda>added.
       abind (commit_events S command TURN_START digest (encode S (TurnResult turn)) [started, added]) (\<lambda>result.
       areturn (result, \<lparr>tr_thread_id = usp_thread_id params, tr_turn_id = turn_id\<rparr>)))))))))))))"

definition turn_steer :: "'w service \<Rightarrow> command_id \<Rightarrow> string \<Rightarrow> turn_steer_params \<Rightarrow> ('w, json) cmd" where
  "turn_steer S command digest params =
     abind (fail_unless (length (utp_message params) \<le> MAX_TURN_STEER_BYTES) INVALID_PARAMS
        (''steer message exceeds '' @ bytes_limit MAX_TURN_STEER_BYTES)) (\<lambda>_.
     abind (read_projection S) (\<lambda>p.
     abind (alift (ok_or (not_found S ''turn'' (utp_turn_id params)) (bt_get (pr_turns p) (utp_turn_id params)))) (\<lambda>turn.
     abind (fail_unless (tu_thread_id turn = utp_thread_id params \<and> \<not> turn_is_terminal (tu_state turn)) INVALID_STATE
        ''turn is not active on this thread'') (\<lambda>_.
     abind (clock_now S) (\<lambda>now.
     abind (new_event S (utp_thread_id params) (Some (utp_turn_id params)) (tu_agent_id turn) command now
        (TurnSteered (utp_turn_id params) (utp_message params))) (\<lambda>event.
     commit_events S command TURN_STEER digest (encode S (AcceptedResult True)) [event]))))))"

text \<open>Setting the flag of a running turn.\<close>

definition request_turn_cancel :: "turn_id \<Rightarrow> ('w, unit) cmd" where
  "request_turn_cancel t d =
     (d\<lparr>dm_active := (case bt_get (dm_active d) t of None \<Rightarrow> dm_active d | Some _ \<Rightarrow> bt_insert (dm_active d) t True)\<rparr>, Ok ())"

definition interrupt_events ::
  "'w service \<Rightarrow> command_id \<Rightarrow> turn_interrupt_params \<Rightarrow> turn \<Rightarrow> instant \<Rightarrow> ('w, new_ledger_event list) cmd" where
  "interrupt_events S command params turn now =
     (let change = (\<lambda>frm to. new_event S (uip_thread_id params) (Some (uip_turn_id params)) (tu_agent_id turn) command now
            (TurnStateChanged (uip_turn_id params) frm to (uip_reason params))) in
      abind (if tu_state turn = Cancelling then areturn []
             else abind (change (tu_state turn) Cancelling) (\<lambda>e. areturn [e])) (\<lambda>first.
      abind (if sv_executes_turns S then areturn []
             else abind (change Cancelling turn_state.Cancelled) (\<lambda>e. areturn [e])) (\<lambda>second.
      areturn (first @ second))))"

definition turn_interrupt :: "'w service \<Rightarrow> command_id \<Rightarrow> string \<Rightarrow> turn_interrupt_params \<Rightarrow> ('w, json) cmd" where
  "turn_interrupt S command digest params =
     abind (read_projection S) (\<lambda>p.
     abind (alift (ok_or (not_found S ''turn'' (uip_turn_id params)) (bt_get (pr_turns p) (uip_turn_id params)))) (\<lambda>turn.
     abind (fail_unless (tu_thread_id turn = uip_thread_id params) INVALID_STATE ''turn belongs to another thread'') (\<lambda>_.
     if turn_is_terminal (tu_state turn) then areturn (encode S (AcceptedResult False))
     else
       abind (clock_now S) (\<lambda>now.
       abind (interrupt_events S command params turn now) (\<lambda>events.
       let response = encode S (AcceptedResult True) in
       if events = []
       then
         abind (clock_now S) (\<lambda>time.
         abind (on_ledger (\<lambda>e. internal S (LedgerCause e))
            (\<lambda>db. record_command_receipt (cd_stored (sv_codec S)) db (receipt_of S command TURN_INTERRUPT digest response time))) (\<lambda>receipt.
         abind (request_turn_cancel (uip_turn_id params)) (\<lambda>_.
         areturn (cr_response receipt))))
       else
         abind (commit_events S command TURN_INTERRUPT digest response events) (\<lambda>result.
         abind (request_turn_cancel (uip_turn_id params)) (\<lambda>_.
         areturn result)))))))"

section \<open>Reconciliation\<close>

definition reconciliation_item ::
  "'w service \<Rightarrow> item_id \<Rightarrow> projected_invocation \<Rightarrow> invocation_reconcile_params \<Rightarrow> instant \<Rightarrow> item" where
  "reconciliation_item S i v params now =
     (let content = JObject [(''evidence'', ec_evidence (sv_encoders S) (irp_evidence params)), (''execution_retried'', JBool False),
                             (''outcome'', ec_outcome (sv_encoders S) (irp_outcome params)), (''reconciled'', JBool True)] in
      \<lparr>it_id = i, it_thread_id = pv_thread_id v, it_turn_id = pv_turn_id v, it_agent_id = pv_agent_id v, it_kind = ToolResult,
       it_content = JObject [(''content'', ec_blocks (sv_encoders S)
            [ToolResultBlock (pv_call_id v) content (irp_outcome params = reconciliation_outcome.Failed)]),
          (''invocation_id'', ec_uuid (sv_encoders S) (pv_invocation_id v))],
       it_created_at = now\<rparr>)"

definition reconcile_fault :: "'w service \<Rightarrow> ledger_error \<Rightarrow> rpc_fault" where
  "reconcile_fault S e =
     (case e of
        InvocationStateConflict _ _ _ \<Rightarrow> fault_new INVALID_STATE ''invocation changed before reconciliation could be committed''
      | InvalidInvocationOutcome message \<Rightarrow> fault_new INVALID_PARAMS message
      | _ \<Rightarrow> internal S (LedgerCause e))"

definition invocation_reconcile :: "'w service \<Rightarrow> command_id \<Rightarrow> string \<Rightarrow> invocation_reconcile_params \<Rightarrow> ('w, json) cmd" where
  "invocation_reconcile S command digest params =
     abind (alift (validate_reconciliation_evidence (irp_evidence params))) (\<lambda>_.
     abind (aguard (case re_artifact_uri (irp_evidence params) of None \<Rightarrow> True | Some uri \<Rightarrow> sv_artifact_ok S uri)
        (with_data (fault_new INVALID_PARAMS ''reconciliation artifact is unavailable or corrupt'')
           (JObject [(''code'', JString ''artifact_invalid'')]))) (\<lambda>_.
     abind (read_projection S) (\<lambda>p.
     abind (alift (ok_or (not_found S ''invocation'' (irp_invocation_id params)) (bt_get (pr_invocations p) (irp_invocation_id params)))) (\<lambda>v.
     abind (fail_unless (pv_thread_id v = irp_thread_id params) INVALID_PARAMS ''invocation does not belong to thread'') (\<lambda>_.
     abind (fail_unless (pv_state v = invocation_state.Unknown) INVALID_STATE
        (''invocation is '' @ state_debug (pv_state v) @ ''; only unknown invocations can be reconciled'')) (\<lambda>_.
     abind (alift (ok_or (not_found S ''turn'' (pv_turn_id v)) (bt_get (pr_turns p) (pv_turn_id v)))) (\<lambda>turn.
     abind (fail_unless (turn_is_terminal (tu_state turn)) INVALID_STATE ''parent turn must settle before reconciling its invocation'') (\<lambda>_.
     abind (clock_now S) (\<lambda>now.
     abind (next_uuid S) (\<lambda>item_id.
     abind (new_event S (pv_thread_id v) (Some (pv_turn_id v)) (pv_agent_id v) command now
        (ItemAdded (reconciliation_item S item_id v params now))) (\<lambda>tool_result.
     abind (new_event S (pv_thread_id v) (Some (pv_turn_id v)) (pv_agent_id v) command now
        (InvocationReconciled (pv_invocation_id v) (irp_outcome params) (irp_evidence params))) (\<lambda>terminal.
     let response = encode S (InvocationReconcileResult (pv_thread_id v) (pv_invocation_id v)
            (outcome_state (irp_outcome params)) (irp_evidence params)) in
     abind (on_ledger (reconcile_fault S)
        (\<lambda>db. append_invocation_reconciliation_with_receipt (sv_codec S) (sv_externals S) db
           \<lparr>no_tool_result = tool_result, no_terminal_state = terminal\<rparr>
           (receipt_of S command INVOCATION_RECONCILE digest response now))) (\<lambda>committed.
     abind (send_events S (cb_events committed)) (\<lambda>_.
     areturn (cb_response committed)))))))))))))))"

section \<open>Descriptors\<close>

definition read_descriptors :: "'w service \<Rightarrow> descriptor_kind \<Rightarrow> ('w, registered_descriptor list) cmd" where
  "read_descriptors S kind d =
     (d, map_err (\<lambda>e. internal S (DescriptorCause e)) (descriptors (cd_stored (sv_codec S)) (sv_time_stored S) (dm_descriptors d) kind))"

definition string_field :: "registered_descriptor \<Rightarrow> string \<Rightarrow> string option" where
  "string_field d field = Option.bind (json_get (rd_descriptor d) field) json_as_str"

definition or_default :: "'a \<Rightarrow> 'a option \<Rightarrow> 'a" where
  "or_default x v = (case v of None \<Rightarrow> x | Some y \<Rightarrow> y)"

definition model_list :: "'w service \<Rightarrow> string option \<Rightarrow> ('w, json) cmd" where
  "model_list S provider =
     abind (read_descriptors S Provider) (\<lambda>ds.
     let wanted = (\<lambda>m. case provider of None \<Rightarrow> True | Some q \<Rightarrow> mdl_provider m = q);
         stored = filter wanted (List.map_filter (\<lambda>d. case de_model_descriptor (sv_decoders S) (rd_descriptor d) of
                                          Inl _ \<Rightarrow> None | Inr m \<Rightarrow> Some m) ds);
         models = (case sv_configured_model S of
                     None \<Rightarrow> stored
                   | Some configured \<Rightarrow>
                       if wanted configured \<and>
                          \<not> list_ex (\<lambda>m. mdl_provider m = mdl_provider configured \<and> mdl_model m = mdl_model configured) stored
                       then stored @ [configured] else stored) in
     areturn (encode S (ModelListResult (sort_key mdl_provider (sort_key mdl_model models)))))"

definition skill_list :: "'w service \<Rightarrow> ('w, json) cmd" where
  "skill_list S =
     abind (read_descriptors S Skill) (\<lambda>ds.
     areturn (encode S (SkillListResult (map (\<lambda>d.
       \<lparr>skd_id = rd_id d, skd_name = or_default (rd_id d) (string_field d ''name''),
        skd_description = or_default [] (string_field d ''description''), skd_source = or_default [] (string_field d ''source''),
        skd_content_digest = rd_source_digest d, skd_trusted = rd_enabled d\<rparr>) ds))))"

definition json_as_u64 :: "json \<Rightarrow> nat option" where
  "json_as_u64 v = (case v of JNumber (PosInt n) \<Rightarrow> Some n | _ \<Rightarrow> None)"

definition mcp_status :: "'w service \<Rightarrow> ('w, json) cmd" where
  "mcp_status S =
     abind (read_descriptors S McpServer) (\<lambda>ds.
     areturn (encode S (McpStatusResult (map (\<lambda>d.
       \<lparr>mcs_id = rd_id d, mcs_transport = or_default ''unknown'' (string_field d ''transport''),
        mcs_state = (if rd_enabled d then ''idle'' else ''disabled''),
        mcs_discovered_tool_count =
          or_default 0 (Option.bind (json_get (rd_descriptor d) ''discoveredToolCount'') json_as_u64) mod 2 ^ 32\<rparr>) ds))))"

definition json_strings :: "json \<Rightarrow> string list" where
  "json_strings v = (case v of JArray xs \<Rightarrow> List.map_filter json_as_str xs | _ \<Rightarrow> [])"

definition plugin_list :: "'w service \<Rightarrow> ('w, json) cmd" where
  "plugin_list S =
     abind (read_descriptors S Plugin) (\<lambda>ds.
     areturn (encode S (PluginListResult (map (\<lambda>d.
       \<lparr>pld_id = rd_id d, pld_version = rd_version d, pld_content_digest = rd_source_digest d,
        pld_state = (if rd_enabled d then ''available'' else ''disabled''),
        pld_capabilities = (case json_get (rd_descriptor d) ''capabilities'' of None \<Rightarrow> [] | Some v \<Rightarrow> json_strings v)\<rparr>) ds))))"

section \<open>Jobs\<close>

definition job_create :: "'w service \<Rightarrow> command_id \<Rightarrow> string \<Rightarrow> job_spec \<Rightarrow> ('w, json) cmd" where
  "job_create S command digest job =
     abind (fail_unless (sv_is_v7 S (js_id job)) INVALID_PARAMS ''job id must be UUIDv7'') (\<lambda>_.
     abind (read_projection S) (\<lambda>p.
     abind (alift (ok_or (not_found S ''workspace'' (js_workspace_id job)) (bt_get (pr_workspaces p) (js_workspace_id job)))) (\<lambda>w.
     abind (fail_unless (\<not> bt_contains (pr_jobs p) (js_id job)) COMMAND_CONFLICT ''job already exists'') (\<lambda>_.
     abind (fail_unless (\<not> (cg_mode (js_grant job) > sv_host_ceiling S \<or> ws_trust w = Untrusted \<and> cg_mode (js_grant job) > Observe))
        INVALID_STATE ''job grant exceeds the host ceiling or project trust'') (\<lambda>_.
     abind (clock_now S) (\<lambda>now.
     abind (new_event S (js_workspace_id job) None ''scheduler'' command now (JobCreated job)) (\<lambda>event.
     commit_events S command JOB_CREATE digest (encode S (JobResult job job_state.Active)) [event])))))))"

definition job_list :: "'w service \<Rightarrow> workspace_id option \<Rightarrow> ('w, json) cmd" where
  "job_list S workspace =
     abind (read_projection S) (\<lambda>p.
     areturn (encode S (JobListResult (sort_key (\<lambda>(job, _). js_id job)
       (map (\<lambda>j. (pj_spec j, pj_state j))
         (filter (\<lambda>j. case workspace of None \<Rightarrow> True | Some w \<Rightarrow> js_workspace_id (pj_spec j) = w) (bt_values (pr_jobs p))))))))"

definition job_transition :: "'w service \<Rightarrow> command_id \<Rightarrow> string \<Rightarrow> job_id \<Rightarrow> job_state \<Rightarrow> ('w, json) cmd" where
  "job_transition S command digest job_id to =
     abind (read_projection S) (\<lambda>p.
     abind (alift (ok_or (not_found S ''job'' job_id) (bt_get (pr_jobs p) job_id))) (\<lambda>job.
     abind (fail_unless (pj_state job = job_state.Active \<and> to = Paused \<or> pj_state job = Paused \<and> to = job_state.Active)
        INVALID_STATE ''invalid job state transition'') (\<lambda>_.
     abind (clock_now S) (\<lambda>now.
     abind (new_event S (js_workspace_id (pj_spec job)) None ''scheduler'' command now (JobStateChanged job_id (pj_state job) to)) (\<lambda>event.
     commit_events S command (if to = Paused then JOB_PAUSE else JOB_RESUME) digest (encode S (JobResult (pj_spec job) to)) [event])))))"

section \<open>Dispatch\<close>

definition plain :: "('w, json) cmd \<Rightarrow> ('w, command_outcome) cmd" where
  "plain m = abind m (\<lambda>result. areturn (plain_outcome result))"

definition with_params :: "(json \<Rightarrow> (string, 'p) rust_result) \<Rightarrow> json \<Rightarrow> ('p \<Rightarrow> ('w, 'a) cmd) \<Rightarrow> ('w, 'a) cmd" where
  "with_params f params m = abind (alift (decode f params)) m"

definition dispatch :: "'w service \<Rightarrow> string \<Rightarrow> command_id \<Rightarrow> json \<Rightarrow> string \<Rightarrow> ('w, command_outcome) cmd" where
  "dispatch S method command params digest =
     (let D = sv_decoders S in
      if method = INITIALIZE then plain (with_params (de_initialize D) params (initialize_cmd S))
      else if method = WORKSPACE_OPEN then plain (with_params (de_workspace_open D) params (workspace_open_cmd S command digest))
      else if method = WORKSPACE_TRUST then plain (with_params (de_workspace_trust D) params (workspace_trust_cmd S command digest))
      else if method = WORKSPACE_STATUS then plain (with_params (de_workspace_status D) params (workspace_status_cmd S))
      else if method = THREAD_START then plain (with_params (de_thread_start D) params (thread_start S command digest))
      else if method = THREAD_RESUME then plain (with_params (de_thread_resume D) params (thread_resume S))
      else if method = THREAD_FORK then plain (with_params (de_thread_fork D) params (thread_fork S command digest))
      else if method = THREAD_READ then plain (with_params (de_thread_read D) params (thread_read S))
      else if method = THREAD_LIST then plain (with_params (de_thread_list D) params (thread_list S))
      else if method = THREAD_ARCHIVE then plain (with_params (de_thread_archive D) params (thread_archive S command digest))
      else if method = THREAD_COMPACT
      then afail (fault_new FEATURE_UNAVAILABLE ''thread/compact requires the M3 checkpoint summarizer'')
      else if method = THREAD_SUBSCRIBE then with_params (de_thread_subscribe D) params (thread_subscribe S)
      else if method = TURN_START
      then with_params (de_turn_start D) params (\<lambda>q. abind (turn_start S command digest q) (\<lambda>(result, run).
             areturn ((plain_outcome result)\<lparr>co_turn_run := Some run\<rparr>)))
      else if method = TURN_STEER then plain (with_params (de_turn_steer D) params (turn_steer S command digest))
      else if method = TURN_INTERRUPT then plain (with_params (de_turn_interrupt D) params (turn_interrupt S command digest))
      else if method = INVOCATION_RECONCILE
      then plain (with_params (de_invocation_reconcile D) params (invocation_reconcile S command digest))
      else if method = MODEL_LIST then plain (with_params (de_model_list D) params (model_list S))
      else if method = SKILL_LIST then plain (with_params (de_empty D) params (\<lambda>_. skill_list S))
      else if method = MCP_STATUS then plain (with_params (de_empty D) params (\<lambda>_. mcp_status S))
      else if method = PLUGIN_LIST then plain (with_params (de_empty D) params (\<lambda>_. plugin_list S))
      else if method = JOB_CREATE then plain (with_params (de_job_create D) params (job_create S command digest))
      else if method = JOB_LIST then plain (with_params (de_job_list D) params (job_list S))
      else if method = JOB_PAUSE then plain (with_params (de_job_id D) params (\<lambda>j. job_transition S command digest j Paused))
      else if method = JOB_RESUME then plain (with_params (de_job_id D) params (\<lambda>j. job_transition S command digest j job_state.Active))
      else if method = JOB_RUN then afail (fault_new FEATURE_UNAVAILABLE ''job/run requires the M4 scheduler'')
      else afail (fault_new METHOD_NOT_FOUND (''unknown method: '' @ method)))"

end
