(* ===== verification/Daemon_Server.thy ===== *)
theory Daemon_Server
  imports Command_Service Canonical_Digest
begin

text \<open>
  The JSON-RPC server (\<open>yeuxd/src/server.rs\<close>): line framing, the handling of one line, the
  handlers of a connection (a line, a published event, an approval request), the paginated
  replay of a subscription, and the recovery of interrupted work when the daemon starts.

  A connection is a state machine: its three handlers are the branches of the \<open>select\<close> in
  \<open>serve_connection\<close>. The bytes of a socket arrive as a list of non-empty chunks; an empty
  list is the end of the stream. The JSON reader and the \<open>serde\<close> decoders are parameters
  (\<open>wire\<close>). A failing socket write, which ends the connection, is not modelled.
\<close>

section \<open>Wire format\<close>

datatype rpc_id = StringId string | NumberId int

record command_envelope =
  ce_jsonrpc :: string
  ce_id :: rpc_id
  ce_command_id :: command_id
  ce_method :: string
  ce_params :: json

record approval_request_result =
  ar_approved :: bool
  ar_approval :: "approval_binding option"

record wire =
  wr_parse :: "string \<Rightarrow> (string, json) rust_result"
  wr_command :: "json \<Rightarrow> (string, command_envelope) rust_result"
  wr_rpc_id :: "json \<Rightarrow> (string, rpc_id) rust_result"
  wr_approval :: "json \<Rightarrow> (string, approval_request_result) rust_result"
  wr_utf8_error :: "string \<Rightarrow> string"
  wr_envelope :: "event_envelope \<Rightarrow> json"

definition JSONRPC_VERSION :: string where "JSONRPC_VERSION = ''2.0''"
definition REPLAY_PAGE_SIZE :: nat where "REPLAY_PAGE_SIZE = 256"

definition json_int :: "int \<Rightarrow> json" where
  "json_int i = JNumber (if i < 0 then NegInt i else PosInt (nat i))"

fun rpc_id_value :: "rpc_id \<Rightarrow> json" where
  "rpc_id_value (StringId s) = JString s"
| "rpc_id_value (NumberId n) = json_int n"

definition rpc_error_value :: "rpc_fault \<Rightarrow> json" where
  "rpc_error_value f =
     JObject ([(''code'', json_int (rf_code f))] @ (case rf_data f of None \<Rightarrow> [] | Some d \<Rightarrow> [(''data'', d)]) @
              [(''message'', JString (rf_message f))])"

definition success :: "rpc_id \<Rightarrow> json \<Rightarrow> json" where
  "success i r = JObject [(''id'', rpc_id_value i), (''jsonrpc'', JString JSONRPC_VERSION), (''result'', r)]"

definition failure :: "rpc_id \<Rightarrow> rpc_fault \<Rightarrow> json" where
  "failure i f = JObject [(''error'', rpc_error_value f), (''id'', rpc_id_value i), (''jsonrpc'', JString JSONRPC_VERSION)]"

definition raw_error :: "json option \<Rightarrow> int \<Rightarrow> string \<Rightarrow> json option \<Rightarrow> json" where
  "raw_error i code message data =
     JObject [(''error'', rpc_error_value \<lparr>rf_code = code, rf_message = message, rf_data = data\<rparr>),
              (''id'', case i of None \<Rightarrow> JNull | Some v \<Rightarrow> v), (''jsonrpc'', JString JSONRPC_VERSION)]"

definition detail :: "string \<Rightarrow> json" where
  "detail e = JObject [(''detail'', JString e)]"

section \<open>Framing\<close>

datatype frame = Line string | Eof

definition newline_at :: "string \<Rightarrow> nat option" where
  "newline_at s = (if CHR 0x0A \<in> set s then Some (length (takeWhile (\<lambda>c. c \<noteq> CHR 0x0A) s)) else None)"

definition consume :: "nat \<Rightarrow> string list \<Rightarrow> string list" where
  "consume n chunks = (case chunks of [] \<Rightarrow> [] | c # cs \<Rightarrow> if drop n c = [] then cs else drop n c # cs)"

text \<open>The rest of the stream, the bytes still buffered, and the frame; no frame when the line is too large.\<close>

fun read_frame :: "nat \<Rightarrow> string list \<Rightarrow> string \<Rightarrow> string list \<times> string \<times> frame option" where
  "read_frame max_line_bytes [] buffered = (if buffered = [] then ([], [], Some Eof) else ([], [], Some (Line buffered)))"
| "read_frame max_line_bytes (available # chunks) buffered =
     (case newline_at available of
        Some newline \<Rightarrow>
          if saturating_add (length buffered) newline > max_line_bytes then (available # chunks, buffered, None)
          else (consume (newline + 1) (available # chunks), [], Some (Line (buffered @ take newline available)))
      | None \<Rightarrow>
          if saturating_add (length buffered) (length available) > max_line_bytes then (available # chunks, buffered, None)
          else read_frame max_line_bytes chunks (buffered @ available))"

section \<open>Approval responses\<close>

text \<open>
  A pending request is known by the identifier sent to the client; the number stands for the
  one-shot channel that the runner waits on. An answer is the channel with what was sent on it.
\<close>

type_synonym pending = "(rpc_id \<times> nat) list"
type_synonym answers = "(nat \<times> approval_request_result) list"

definition denied :: approval_request_result where
  "denied = \<lparr>ar_approved = False, ar_approval = None\<rparr>"

definition deny_pending_approvals :: "pending \<Rightarrow> pending \<times> answers" where
  "deny_pending_approvals pending = ([], map (\<lambda>(_, channel). (channel, denied)) pending)"

definition consume_approval_response :: "wire \<Rightarrow> string \<Rightarrow> pending \<Rightarrow> bool \<times> pending \<times> answers" where
  "consume_approval_response W input pending =
     (case wr_parse W input of
        Inl _ \<Rightarrow> (False, pending, [])
      | Inr value \<Rightarrow>
          if json_get value ''method'' \<noteq> None \<or> json_get value ''command_id'' \<noteq> None then (False, pending, [])
          else if Option.bind (json_get value ''jsonrpc'') json_as_str \<noteq> Some JSONRPC_VERSION
          then (True, deny_pending_approvals pending)
          else case json_get value ''id'' of
            None \<Rightarrow> (True, deny_pending_approvals pending)
          | Some id_value \<Rightarrow>
              (case wr_rpc_id W id_value of
                 Inl _ \<Rightarrow> (True, deny_pending_approvals pending)
               | Inr i \<Rightarrow>
                   (case map_of pending i of
                      None \<Rightarrow> (True, deny_pending_approvals pending)
                    | Some channel \<Rightarrow>
                        (True, filter (\<lambda>(j, _). j \<noteq> i) pending,
                         [(channel, case json_get value ''result'' of
                                      None \<Rightarrow> denied
                                    | Some v \<Rightarrow> (case wr_approval W v of Inl _ \<Rightarrow> denied | Inr r \<Rightarrow> r))]))))"

section \<open>One line\<close>

record connection_state =
  cs_initialized :: bool
  cs_subscriptions :: "(thread_id, nat) btree_map"

definition default_connection :: connection_state where
  "default_connection = \<lparr>cs_initialized = False, cs_subscriptions = bt_empty\<rparr>"

text \<open>
  \<open>handle_line\<close> below the envelope checks: under the command gate, the receipt of an earlier
  command with this identifier decides whether the command runs at all.
\<close>

definition repeated_command ::
  "'w service \<Rightarrow> command_envelope \<Rightarrow> string \<Rightarrow> command_receipt \<Rightarrow> ('w, command_outcome) cmd" where
  "repeated_command S command digest receipt =
     abind (fail_unless (cr_method receipt = ce_method command \<and> cr_params_digest receipt = digest)
        COMMAND_CONFLICT ''command_id was already used with different input'') (\<lambda>_.
     if ce_method command = THREAD_SUBSCRIBE
     then dispatch S (ce_method command) (ce_command_id command) (ce_params command) digest
     else areturn (plain_outcome (cr_response receipt)))"

definition fresh_command :: "'w service \<Rightarrow> command_envelope \<Rightarrow> string \<Rightarrow> ('w, command_outcome) cmd" where
  "fresh_command S command digest =
     abind (dispatch S (ce_method command) (ce_command_id command) (ce_params command) digest) (\<lambda>outcome.
     if ce_method command = INITIALIZE then areturn outcome
     else
       abind (clock_now S) (\<lambda>time.
       abind (on_ledger (\<lambda>e. internal S (LedgerCause e))
          (\<lambda>db. record_command_receipt (cd_stored (sv_codec S)) db
             (receipt_of S (ce_command_id command) (ce_method command) digest (co_result outcome) time))) (\<lambda>_.
       areturn outcome)))"

definition run_command :: "'w service \<Rightarrow> command_envelope \<Rightarrow> ('w, command_outcome) cmd" where
  "run_command S command d =
     (let digest = digest_value (sv_externals S) (ce_params command);
          durable = (if ce_method command = INITIALIZE then None
                     else command_receipt_of (cd_stored (sv_codec S)) (dm_ledger d)
                            (uuid_str (sv_externals S) (ce_command_id command))) in
      case durable of
        Some receipt \<Rightarrow> repeated_command S command digest receipt d
      | None \<Rightarrow> fresh_command S command digest d)"

definition check_command :: "'w service \<Rightarrow> connection_state \<Rightarrow> command_envelope \<Rightarrow> (rpc_fault, unit) rust_result" where
  "check_command S state command =
     (if ce_jsonrpc command \<noteq> JSONRPC_VERSION then Err (fault_new INVALID_REQUEST ''jsonrpc must be 2.0'')
      else if \<not> sv_is_v7 S (ce_command_id command) then Err (fault_new INVALID_REQUEST ''command_id must be UUIDv7'')
      else if \<not> cs_initialized state \<and> ce_method command \<noteq> INITIALIZE
      then Err (fault_new NOT_INITIALIZED ''initialize must be the first command'')
      else Ok ())"

definition handle_line ::
  "'w service \<Rightarrow> wire \<Rightarrow> string \<Rightarrow> connection_state \<Rightarrow> 'w daemon \<Rightarrow>
   'w daemon \<times> connection_state \<times> json \<times> command_outcome option" where
  "handle_line S W input state d =
     (case wr_parse W input of
        Inl e \<Rightarrow> (d, state, raw_error None PARSE_ERROR ''invalid JSON'' (Some (detail e)), None)
      | Inr value \<Rightarrow>
          (case wr_command W value of
             Inl e \<Rightarrow> (d, state, raw_error (json_get value ''id'') INVALID_REQUEST ''invalid command envelope'' (Some (detail e)), None)
           | Inr command \<Rightarrow>
               (case check_command S state command of
                  Inl f \<Rightarrow> (d, state, failure (ce_id command) f, None)
                | Inr _ \<Rightarrow>
                    (case run_command S command d of
                       (d', Inl f) \<Rightarrow> (d', state, failure (ce_id command) f, None)
                     | (d', Inr outcome) \<Rightarrow>
                         (d', if ce_method command = INITIALIZE then state\<lparr>cs_initialized := True\<rparr> else state,
                          success (ce_id command) (co_result outcome), Some outcome)))))"

section \<open>Replay of a subscription\<close>

datatype daemon_error =
    LedgerError ledger_error
  | ReplayFailed replay_error
  | IdError string
  | Io string
  | PanicError string

definition event_notification :: "wire \<Rightarrow> event_envelope \<Rightarrow> json" where
  "event_notification W env =
     JObject [(''jsonrpc'', JString JSONRPC_VERSION), (''method'', JString ''event''), (''params'', wr_envelope W env)]"

text \<open>
  Pages of at most \<open>REPLAY_PAGE_SIZE\<close> rows until the advertised sequence number; the result
  is what was written. The fuel bounds the number of pages.
\<close>

fun write_replay_loop ::
  "'w service \<Rightarrow> ledger \<Rightarrow> thread_id \<Rightarrow> nat \<Rightarrow> nat \<Rightarrow> nat \<Rightarrow> event_envelope list \<Rightarrow> (daemon_error, event_envelope list) rust_result option" where
  "write_replay_loop S db t through 0 after_seq written = (if after_seq < through then None else Some (Ok written))"
| "write_replay_loop S db t through (Suc fuel) after_seq written =
     (if \<not> after_seq < through then Some (Ok written)
      else
        let remaining = min (through - after_seq) REPLAY_PAGE_SIZE in
        case rbind (replay_page (cd_stored (sv_codec S)) db (uuid_str (sv_externals S) t) after_seq remaining)
               (collect_results (envelope_of (sv_codec S))) of
          Inl e \<Rightarrow> Some (Err (LedgerError e))
        | Inr [] \<Rightarrow> Some (Err (Io ''event replay ended before its advertised sequence''))
        | Inr page \<Rightarrow> write_replay_loop S db t through fuel (en_seq (last page)) (written @ page))"

definition write_replay :: "'w service \<Rightarrow> ledger \<Rightarrow> replay_window \<Rightarrow> (daemon_error, event_envelope list) rust_result option" where
  "write_replay S db window =
     write_replay_loop S db (rw_thread_id window) (rw_through_seq window)
       (rw_through_seq window - rw_after_seq window) (rw_after_seq window) []"

section \<open>The connection\<close>

text \<open>What is written to the socket: a JSON value, or the notification of an event.\<close>

datatype message = JsonMessage json | EventMessage event_envelope

fun message_value :: "wire \<Rightarrow> message \<Rightarrow> json" where
  "message_value W (JsonMessage v) = v"
| "message_value W (EventMessage env) = event_notification W env"

record connection =
  cn_state :: connection_state
  cn_pending :: pending
  cn_approval_ids :: nat
  cn_open :: bool
  cn_written :: "message list"
  cn_answers :: answers

definition default_serving :: connection where
  "default_serving =
     \<lparr>cn_state = default_connection, cn_pending = [], cn_approval_ids = 0, cn_open = True, cn_written = [], cn_answers = []\<rparr>"

definition write_json :: "json \<Rightarrow> connection \<Rightarrow> connection" where
  "write_json v c = c\<lparr>cn_written := cn_written c @ [JsonMessage v]\<rparr>"

definition write_event :: "event_envelope \<Rightarrow> connection \<Rightarrow> connection" where
  "write_event env c = c\<lparr>cn_written := cn_written c @ [EventMessage env]\<rparr>"

text \<open>Closing a connection drops its pending channels, which the waiting runners read as a denial.\<close>

definition close_connection :: "connection \<Rightarrow> connection" where
  "close_connection c =
     c\<lparr>cn_open := False, cn_pending := [],
       cn_answers := cn_answers c @ snd (deny_pending_approvals (cn_pending c))\<rparr>"

definition launch_turn :: "turn_run_spec \<Rightarrow> 'w daemon \<Rightarrow> 'w daemon" where
  "launch_turn spec d = d\<lparr>dm_active := bt_insert (dm_active d) (tr_turn_id spec) False\<rparr>"

definition strip_cr :: "string \<Rightarrow> string" where
  "strip_cr line = (if line \<noteq> [] \<and> last line = CHR 0x0D then butlast line else line)"

definition handle_command :: "'w service \<Rightarrow> wire \<Rightarrow> string \<Rightarrow> 'w daemon \<times> connection \<Rightarrow> 'w daemon \<times> connection" where
  "handle_command S W input dc =
     (case dc of (d, c) \<Rightarrow>
      case handle_line S W input (cn_state c) d of (d1, state, response, outcome) \<Rightarrow>
      let d2 = (case Option.bind outcome co_turn_run of
                  Some spec \<Rightarrow> if sv_executes_turns S then launch_turn spec d1 else d1
                | None \<Rightarrow> d1);
          c1 = write_json response (c\<lparr>cn_state := state\<rparr>) in
      case outcome of
        None \<Rightarrow> (d2, c1)
      | Some out \<Rightarrow>
          let c2 = (case co_subscription out of
                      None \<Rightarrow> c1
                    | Some (t, through) \<Rightarrow> c1\<lparr>cn_state := state\<lparr>cs_subscriptions := bt_insert (cs_subscriptions state) t through\<rparr>\<rparr>) in
          (case co_replay out of
             None \<Rightarrow> (d2, c2)
           | Some window \<Rightarrow>
               (case write_replay S (dm_ledger d2) window of
                  Some (Inr events) \<Rightarrow> (d2, c2\<lparr>cn_written := cn_written c2 @ map EventMessage events\<rparr>)
                | _ \<Rightarrow> (d2, close_connection c2))))"

definition handle_frame :: "'w service \<Rightarrow> wire \<Rightarrow> nat \<Rightarrow> frame option \<Rightarrow> 'w daemon \<times> connection \<Rightarrow> 'w daemon \<times> connection" where
  "handle_frame S W max_line_bytes frame dc =
     (case dc of (d, c) \<Rightarrow>
      case frame of
        None \<Rightarrow> (d, close_connection (write_json (raw_error None INVALID_REQUEST ''JSON-RPC line is too large'' None) c))
      | Some Eof \<Rightarrow> (d, close_connection c)
      | Some (Line raw) \<Rightarrow>
          let line = strip_cr raw in
          if \<not> utf8_valid line
          then (d, write_json (raw_error None PARSE_ERROR ''JSON-RPC input is not UTF-8'' (Some (detail (wr_utf8_error W line)))) c)
          else if length line > max_line_bytes
          then (d, close_connection (write_json (raw_error None INVALID_REQUEST ''JSON-RPC line is too large'' None) c))
          else if is_blank line then (d, c)
          else case consume_approval_response W line (cn_pending c) of
            (True, pending, answers) \<Rightarrow> (d, c\<lparr>cn_pending := pending, cn_answers := cn_answers c @ answers\<rparr>)
          | (False, _, _) \<Rightarrow> handle_command S W line (d, c))"

definition gap_diagnostic :: "'w service \<Rightarrow> thread_id \<Rightarrow> nat \<Rightarrow> nat \<Rightarrow> json" where
  "gap_diagnostic S t expected actual =
     JObject [(''jsonrpc'', JString JSONRPC_VERSION), (''method'', JString ''runtime/diagnostic''),
              (''params'', JObject [(''actual_seq'', JNumber (PosInt actual)), (''code'', JString ''event_sequence_gap''),
                 (''expected_seq'', JNumber (PosInt expected)),
                 (''message'', JString ''reconnect with thread/subscribe and afterSeq''), (''recoverable'', JBool True),
                 (''thread_id'', ec_uuid (sv_encoders S) t)])]"

text \<open>A published event reaches the connection, or the news that it fell behind (\<open>None\<close>).\<close>

definition handle_event :: "'w service \<Rightarrow> event_envelope option \<Rightarrow> connection \<Rightarrow> connection" where
  "handle_event S received c =
     (case received of
        None \<Rightarrow>
          close_connection (write_json
            (JObject [(''jsonrpc'', JString JSONRPC_VERSION), (''method'', JString ''runtime/diagnostic''),
                      (''params'', JObject [(''code'', JString ''event_backpressure''),
                         (''message'', JString ''client fell behind; reconnect from its last seq''), (''recoverable'', JBool True)])]) c)
      | Some env \<Rightarrow>
          (case bt_get (cs_subscriptions (cn_state c)) (en_thread_id env) of
             None \<Rightarrow> c
           | Some seen \<Rightarrow>
               if en_seq env \<le> seen then c
               else if en_seq env \<noteq> seen + 1
               then close_connection (write_json (gap_diagnostic S (en_thread_id env) (seen + 1) (en_seq env)) c)
               else
                 (write_event env c)
                   \<lparr>cn_state := (cn_state c)\<lparr>cs_subscriptions := bt_insert (cs_subscriptions (cn_state c)) (en_thread_id env) (en_seq env)\<rparr>\<rparr>))"

text \<open>A runner asks the client for an approval on the channel \<open>channel\<close>.\<close>

definition handle_approval_request :: "json \<Rightarrow> nat \<Rightarrow> connection \<Rightarrow> connection" where
  "handle_approval_request params channel c =
     (let ids = wrapping_add (cn_approval_ids c) 1; i = StringId (''approval-'' @ dec_digits ids);
          dropped = filter (\<lambda>(j, _). j = i) (cn_pending c) in
      write_json
        (JObject [(''id'', rpc_id_value i), (''jsonrpc'', JString JSONRPC_VERSION), (''method'', JString ''approval/request''), (''params'', params)])
        (c\<lparr>cn_approval_ids := ids, cn_pending := filter (\<lambda>(j, _). j \<noteq> i) (cn_pending c) @ [(i, channel)],
           cn_answers := cn_answers c @ snd (deny_pending_approvals dropped)\<rparr>))"

text \<open>
  The server: the daemon with its connections. The handlers of the connections interleave;
  a command runs alone, under the command gate.
\<close>

inductive server_step ::
  "'w service \<Rightarrow> wire \<Rightarrow> nat \<Rightarrow> 'w daemon \<times> (nat \<Rightarrow> connection) \<Rightarrow> 'w daemon \<times> (nat \<Rightarrow> connection) \<Rightarrow> bool"
  for S W max_line_bytes where
  frame: "cn_open (cs i) \<Longrightarrow> handle_frame S W max_line_bytes f (d, cs i) = (d', c) \<Longrightarrow>
    server_step S W max_line_bytes (d, cs) (d', cs(i := c))"
| event: "cn_open (cs i) \<Longrightarrow> received = None \<or> (\<exists>env \<in> set (dm_sent d). received = Some env) \<Longrightarrow>
    server_step S W max_line_bytes (d, cs) (d, cs(i := handle_event S received (cs i)))"
| approval: "cn_open (cs i) \<Longrightarrow>
    server_step S W max_line_bytes (d, cs) (d, cs(i := handle_approval_request params channel (cs i)))"
| accept: "\<not> cn_open (cs i) \<Longrightarrow> server_step S W max_line_bytes (d, cs) (d, cs(i := default_serving))"

inductive_cases server_stepE: "server_step S W max_line_bytes (d, cs) (d', cs')"

section \<open>Recovery\<close>

type_synonym ('w, 'a) recovery = "('w daemon, daemon_error, 'a) act"

definition recovery_uuid :: "'w service \<Rightarrow> ('w, uuid) recovery" where
  "recovery_uuid S d = (d\<lparr>dm_ids := Suc (dm_ids d)\<rparr>, map_err IdError (sv_ids S (dm_ids d)))"

definition recovery_now :: "'w service \<Rightarrow> ('w, instant) recovery" where
  "recovery_now S d = (d\<lparr>dm_clock := Suc (dm_clock d)\<rparr>, Ok (sv_clock S (dm_clock d)))"

definition recovery_ledger :: "(ledger \<Rightarrow> (ledger_error, ledger \<times> 'a) rust_result) \<Rightarrow> ('w, 'a) recovery" where
  "recovery_ledger t d =
     (case t (dm_ledger d) of Inl e \<Rightarrow> (d, Err (LedgerError e)) | Inr (db, x) \<Rightarrow> (d\<lparr>dm_ledger := db\<rparr>, Ok x))"

definition new_recovery_event ::
  "'w service \<Rightarrow> thread_id \<Rightarrow> turn_id option \<Rightarrow> agent_id \<Rightarrow> instant \<Rightarrow> string \<Rightarrow> event \<Rightarrow> ('w, new_ledger_event) recovery" where
  "new_recovery_event S thread turn agent time causation event =
     (let serialized = cd_event_value (sv_codec S) event; X = sv_externals S in
      abind (alift (ok_or (PanicError ''serialized protocol Event always has a kind'')
         (Option.bind (json_get serialized ''kind'') json_as_str))) (\<lambda>kind.
      abind (recovery_uuid S) (\<lambda>event_id.
      areturn
        \<lparr>nl_schema_version = PROTOCOL_VERSION, nl_event_id = uuid_str X event_id, nl_thread_id = uuid_str X thread,
         nl_turn_id = map_option (uuid_str X) turn, nl_agent_id = agent, nl_time = time,
         nl_causation_id = Some causation, nl_kind = kind,
         nl_payload = (case json_get serialized ''payload'' of None \<Rightarrow> JNull | Some p \<Rightarrow> p)\<rparr>)))"

type_synonym proposal_scopes = "(invocation_id, thread_id \<times> turn_id \<times> agent_id) btree_map"

definition scope_step ::
  "'w service \<Rightarrow> proposal_scopes \<Rightarrow> event_envelope \<Rightarrow> (daemon_error, proposal_scopes) rust_result" where
  "scope_step S m env =
     (case en_event env of
        InvocationProposed i _ _ _ _ _ _ _ \<Rightarrow>
          (case en_turn_id env of
             None \<Rightarrow> Err (ReplayFailed (MissingEntity ''invocation proposal turn'' (uuid_str (sv_externals S) i)))
           | Some turn \<Rightarrow> Ok (bt_insert m i (en_thread_id env, turn, en_agent_id env)))
      | _ \<Rightarrow> Ok m)"

fun invocation_envelopes ::
  "'w service \<Rightarrow> proposal_scopes \<Rightarrow> ledger_event list \<Rightarrow> (daemon_error, proposal_scopes) rust_result" where
  "invocation_envelopes S m [] = Ok m"
| "invocation_envelopes S m (row # rows) =
     rbind (map_err LedgerError (envelope_of (sv_codec S) row)) (\<lambda>env.
     rbind (scope_step S m env) (\<lambda>m'. invocation_envelopes S m' rows))"

definition BEFORE_BOUNDARY :: string where
  "BEFORE_BOUNDARY = ''daemon restarted before the invocation crossed the execution boundary''"

definition AFTER_BOUNDARY :: string where
  "AFTER_BOUNDARY = ''daemon restarted after the invocation crossed the execution boundary; outcome requires reconciliation''"

definition interrupted_item :: "'w service \<Rightarrow> item_id \<Rightarrow> thread_id \<Rightarrow> turn_id \<Rightarrow> agent_id \<Rightarrow> projected_invocation \<Rightarrow> instant \<Rightarrow> item" where
  "interrupted_item S i thread turn agent v now =
     \<lparr>it_id = i, it_thread_id = thread, it_turn_id = turn, it_agent_id = agent, it_kind = ToolResult,
      it_content = JObject
        [(''content'', ec_blocks (sv_encoders S)
            [ToolResultBlock (pv_call_id v)
               (JObject [(''code'', JString ''tool_interrupted_by_restart''), (''message'', JString BEFORE_BOUNDARY)]) True]),
         (''invocation_id'', ec_uuid (sv_encoders S) (pv_invocation_id v))],
      it_created_at = now\<rparr>"

definition recovered_state :: "invocation_state \<Rightarrow> invocation_state option" where
  "recovered_state s =
     (case s of
        Proposed \<Rightarrow> Some invocation_state.Failed
      | Approved \<Rightarrow> Some invocation_state.Failed
      | Prepared \<Rightarrow> Some invocation_state.Failed
      | Started \<Rightarrow> Some invocation_state.Unknown
      | _ \<Rightarrow> None)"

definition recover_invocation ::
  "'w service \<Rightarrow> proposal_scopes \<Rightarrow> instant \<Rightarrow> projected_invocation \<Rightarrow> ('w, unit) recovery" where
  "recover_invocation S scopes now v =
     (case recovered_state (pv_state v) of
        None \<Rightarrow> areturn ()
      | Some to \<Rightarrow>
          abind (alift (ok_or (ReplayFailed (MissingEntity ''invocation proposal envelope''
             (uuid_str (sv_externals S) (pv_invocation_id v)))) (bt_get scopes (pv_invocation_id v)))) (\<lambda>(thread, turn, agent).
          let causation = ''daemon-restart:'' @ uuid_str (sv_externals S) (pv_invocation_id v) in
          abind (new_recovery_event S thread (Some turn) agent now causation
            (InvocationStateChanged (pv_invocation_id v) (pv_state v) to
               (Some (if to = invocation_state.Unknown then AFTER_BOUNDARY else BEFORE_BOUNDARY)))) (\<lambda>state_event.
          if to = invocation_state.Unknown
          then
            abind (recovery_ledger (\<lambda>db. append_invocation_unknown (sv_codec S) (sv_externals S) db \<lparr>nu_state = state_event\<rparr>)) (\<lambda>_.
            areturn ())
          else
            abind (recovery_uuid S) (\<lambda>item_id.
            abind (new_recovery_event S thread (Some turn) agent now causation
               (ItemAdded (interrupted_item S item_id thread turn agent v now))) (\<lambda>tool_result.
            abind (recovery_ledger (\<lambda>db. append_invocation_outcome (sv_codec S) (sv_externals S) db
               \<lparr>no_tool_result = tool_result, no_terminal_state = state_event\<rparr>)) (\<lambda>_.
            areturn ()))))))"

fun recover_invocations ::
  "'w service \<Rightarrow> proposal_scopes \<Rightarrow> instant \<Rightarrow> projected_invocation list \<Rightarrow> ('w, unit) recovery" where
  "recover_invocations S scopes now [] = areturn ()"
| "recover_invocations S scopes now (v # vs) =
     abind (recover_invocation S scopes now v) (\<lambda>_. recover_invocations S scopes now vs)"

definition recover_turn :: "'w service \<Rightarrow> instant \<Rightarrow> turn \<Rightarrow> ('w, new_ledger_event list) recovery" where
  "recover_turn S now turn =
     (let causation = ''daemon-restart:'' @ uuid_str (sv_externals S) (tu_id turn) in
      abind (new_recovery_event S (tu_thread_id turn) (Some (tu_id turn)) (tu_agent_id turn) now causation
        (RuntimeDiagnostic ''turn_interrupted_by_restart''
           ''daemon restarted before the turn reached a terminal state; external work was not replayed'' False)) (\<lambda>diagnostic.
      abind (new_recovery_event S (tu_thread_id turn) (Some (tu_id turn)) (tu_agent_id turn) now causation
        (TurnStateChanged (tu_id turn) (tu_state turn) turn_state.Failed
           (Some ''daemon restarted before the turn completed''))) (\<lambda>changed.
      areturn [diagnostic, changed])))"

fun recover_turns :: "'w service \<Rightarrow> instant \<Rightarrow> turn list \<Rightarrow> ('w, new_ledger_event list) recovery" where
  "recover_turns S now [] = areturn []"
| "recover_turns S now (turn # turns) =
     abind (recover_turn S now turn) (\<lambda>events.
     abind (recover_turns S now turns) (\<lambda>more. areturn (events @ more)))"

definition startup_projection :: "'w service \<Rightarrow> ('w, projection) recovery" where
  "startup_projection S d =
     (d, map_err (\<lambda>e. case e of Ledger l \<Rightarrow> LedgerError l | Replay r \<Rightarrow> ReplayFailed r)
           (project_core (sv_codec S) (sv_externals S) (dm_ledger d)))"

definition recover_interrupted_turns :: "'w service \<Rightarrow> ('w, unit) recovery" where
  "recover_interrupted_turns S =
     abind (startup_projection S) (\<lambda>p.
     abind (\<lambda>d. (d, invocation_envelopes S bt_empty (all_events (cd_stored (sv_codec S)) (dm_ledger d)))) (\<lambda>scopes.
     abind (recovery_now S) (\<lambda>now.
     abind (recover_invocations S scopes now (filter (\<lambda>v. \<not> inv_is_terminal (pv_state v)) (bt_values (pr_invocations p)))) (\<lambda>_.
     abind (recover_turns S now (filter (\<lambda>u. \<not> turn_is_terminal (tu_state u)) (bt_values (pr_turns p)))) (\<lambda>recovery.
     if recovery = [] then areturn ()
     else
       abind (recovery_ledger (\<lambda>db. append_batch (cd_stored (sv_codec S)) db recovery)) (\<lambda>_.
       areturn ()))))))"

end
