(* ===== verification/Event_Codec.thy ===== *)
theory Event_Codec
  imports Ledger_Port "HOL-Library.Countable"
begin

text \<open>
  A codec for every event. The hypotheses on \<open>serde\<close> that the theorems about the daemon use
  ask for a value from which each event is decoded again; the data of an event is countable,
  so such a codec exists: the payload is the number of the event.
\<close>

section \<open>Countable data\<close>

instance jnumber :: countable
  by countable_datatype

instance json :: countable
  by countable_datatype

instance capability_mode :: countable
  by countable_datatype

instance idempotency :: countable
  by countable_datatype

instance reversibility :: countable
  by countable_datatype

instance invocation_state :: countable
  by countable_datatype

instance reconciliation_outcome :: countable
  by countable_datatype

instance workspace_trust :: countable
  by countable_datatype

instance thread_status :: countable
  by countable_datatype

instance turn_state :: countable
  by countable_datatype

instance item_kind :: countable
  by countable_datatype

instance job_schedule :: countable
  by countable_datatype

instance job_state :: countable
  by countable_datatype

instance workspace_isolation :: countable
  by countable_datatype

instance agent_result_state :: countable
  by countable_datatype

instance image_source :: countable
  by countable_datatype

instance content_block :: countable
  by countable_datatype

instance stop_reason :: countable
  by countable_datatype

instance path_scope_ext :: (countable) countable
  by (rule countable_classI [of "\<lambda>r. to_nat (ps_path r, ps_recursive r, ps_resolved r, path_scope.more r)"]) (auto intro: path_scope.equality)

instance process_effect_ext :: (countable) countable
  by (rule countable_classI [of "\<lambda>r. to_nat (pe_executable r, pe_argument_digest r, pe_may_spawn_children r, process_effect.more r)"]) (auto intro: process_effect.equality)

instance network_effect_ext :: (countable) countable
  by (rule countable_classI [of "\<lambda>r. to_nat (ne_scheme r, ne_host r, ne_port r, network_effect.more r)"]) (auto intro: network_effect.equality)

instance external_effect_ext :: (countable) countable
  by (rule countable_classI [of "\<lambda>r. to_nat (ee_system r, ee_operation r, ee_resource r, external_effect.more r)"]) (auto intro: external_effect.equality)

instance secret_handle_ext :: (countable) countable
  by (rule countable_classI [of "\<lambda>r. to_nat (sh_name r, secret_handle.more r)"]) (auto intro: secret_handle.equality)

instance effect_set_ext :: (countable) countable
  by (rule countable_classI [of "\<lambda>r. to_nat (es_filesystem_read r, es_filesystem_write r, es_filesystem_delete r, es_processes r, es_network r, es_secrets r, es_external_writes r, es_idempotency r, es_reversibility r, effect_set.more r)"]) (auto intro: effect_set.equality)

instance reconciliation_evidence_ext :: (countable) countable
  by (rule countable_classI [of "\<lambda>r. to_nat (re_source r, re_summary r, re_artifact_uri r, reconciliation_evidence.more r)"]) (auto intro: reconciliation_evidence.equality)

instance workspace_identity_ext :: (countable) countable
  by (rule countable_classI [of "\<lambda>r. to_nat (wi_canonical_root r, wi_digest r, wi_device r, wi_inode r, wi_git_common_dir r, workspace_identity.more r)"]) (auto intro: workspace_identity.equality)

instance workspace_ext :: (countable) countable
  by (rule countable_classI [of "\<lambda>r. to_nat (ws_id r, ws_root r, ws_identity r, ws_trust r, ws_opened_at r, workspace.more r)"]) (auto intro: workspace.equality)

instance thread_ext :: (countable) countable
  by (rule countable_classI [of "\<lambda>r. to_nat (th_id r, th_workspace_id r, th_parent_thread_id r, th_parent_seq r, th_title r, th_status r, th_created_at r, th_updated_at r, th_last_seq r, thread.more r)"]) (auto intro: thread.equality)

instance turn_ext :: (countable) countable
  by (rule countable_classI [of "\<lambda>r. to_nat (tu_id r, tu_thread_id r, tu_agent_id r, tu_state r, tu_started_at r, tu_ended_at r, tu_failure r, turn.more r)"]) (auto intro: turn.equality)

instance item_ext :: (countable) countable
  by (rule countable_classI [of "\<lambda>r. to_nat (it_id r, it_thread_id r, it_turn_id r, it_agent_id r, it_kind r, it_content r, it_created_at r, item.more r)"]) (auto intro: item.equality)

instance run_budget_ext :: (countable) countable
  by (rule countable_classI [of "\<lambda>r. to_nat (rb_max_tokens r, rb_max_cost_micros r, rb_max_duration_seconds r, run_budget.more r)"]) (auto intro: run_budget.equality)

instance capability_grant_ext :: (countable) countable
  by (rule countable_classI [of "\<lambda>r. to_nat (cg_mode r, cg_filesystem_read r, cg_filesystem_write r, cg_filesystem_delete r, cg_process r, cg_network r, cg_secrets r, cg_external_write r, cg_expires_at r, capability_grant.more r)"]) (auto intro: capability_grant.equality)

instance job_spec_ext :: (countable) countable
  by (rule countable_classI [of "\<lambda>r. to_nat (js_id r, js_name r, js_workspace_id r, js_prompt r, js_provider r, js_model r, js_tool_ids r, js_grant r, js_budget r, js_schedule r, js_allow_reentry r, js_metadata r, job_spec.more r)"]) (auto intro: job_spec.equality)

instance agent_spawn_spec_ext :: (countable) countable
  by (rule countable_classI [of "\<lambda>r. to_nat (as_run_id r, as_parent_thread_id r, as_parent_agent_id r, as_child_agent_id r, as_workspace_id r, as_task r, as_grant r, as_budget r, as_isolation r, as_depth r, agent_spawn_spec.more r)"]) (auto intro: agent_spawn_spec.equality)

instance agent_result_ext :: (countable) countable
  by (rule countable_classI [of "\<lambda>r. to_nat (ar_run_id r, ar_child_thread_id r, ar_state r, ar_summary r, ar_worktree_path r, ar_diff_artifact_uri r, ar_metadata r, agent_result.more r)"]) (auto intro: agent_result.equality)

instance money_ext :: (countable) countable
  by (rule countable_classI [of "\<lambda>r. to_nat (mo_currency r, mo_micros r, money.more r)"]) (auto intro: money.equality)

instance usage_ext :: (countable) countable
  by (rule countable_classI [of "\<lambda>r. to_nat (us_input_tokens r, us_output_tokens r, us_cached_tokens r, us_cost r, usage.more r)"]) (auto intro: usage.equality)

instance model_event :: countable
  by countable_datatype

instance event :: countable
  by countable_datatype

section \<open>The codec\<close>

definition total_codec :: codec where
  "total_codec =
     \<lparr>cd_stored = (\<lambda>v. v),
      cd_event = (\<lambda>k p. case p of
          JNumber (PosInt n) \<Rightarrow> if event_kind (from_nat n) = k then Ok (from_nat n) else Err ''mismatch''
        | _ \<Rightarrow> Err ''mismatch''),
      cd_uuid = (\<lambda>v. case v of JNumber (PosInt n) \<Rightarrow> Ok (of_nat n) | _ \<Rightarrow> Err ''mismatch''),
      cd_blocks = (\<lambda>v. case v of JNumber (PosInt n) \<Rightarrow> Ok (from_nat n) | _ \<Rightarrow> Err ''mismatch''),
      cd_event_value = (\<lambda>ev. JObject [(''kind'', JString (event_kind ev)), (''payload'', JNumber (PosInt (to_nat ev)))]),
      cd_parse_uuid = (\<lambda>s. Ok (of_nat (length s)))\<rparr>"

lemma total_codec_ok: "port_codec_ok total_codec plain_externals UNIV"
  by (auto simp: port_codec_ok_def codec_ok_def total_codec_def plain_externals_def json_is_object_def json_get_def
      split: json.splits jnumber.splits if_splits)

end
