(* ===== verification/Demo_Service.thy ===== *)
theory Demo_Service
  imports Daemon_Server Event_Codec
begin

text \<open>
  A concrete service, at which the theorems about the daemon are applied: the total codec,
  the file system of \<open>Workspace_Files\<close>, a generator that counts from 10, and decoders that
  return fixed parameters.
\<close>

definition demo_decoders :: decoders where
  "demo_decoders =
     \<lparr>de_initialize = (\<lambda>_. Ok \<lparr>ip_protocol_version = PROTOCOL_VERSION, ip_client_info = \<lparr>ci_name = ''demo'', ci_version = ''1''\<rparr>\<rparr>),
      de_workspace_open = (\<lambda>_. Ok ''/w''), de_workspace_trust = (\<lambda>_. Err ''unused''), de_workspace_status = (\<lambda>_. Ok 5),
      de_thread_start = (\<lambda>_. Ok \<lparr>tsp_workspace_id = 5, tsp_title = None, tsp_agent_id = None\<rparr>),
      de_thread_resume = (\<lambda>_. Ok \<lparr>trp_thread_id = 2, trp_after_seq = 0\<rparr>),
      de_thread_fork = (\<lambda>_. Ok \<lparr>tfp_thread_id = 2, tfp_at_seq = 1, tfp_title = None\<rparr>),
      de_thread_read = (\<lambda>_. Ok \<lparr>tdp_thread_id = 2, tdp_after_seq = 0, tdp_limit = 1\<rparr>),
      de_thread_list = (\<lambda>_. Ok \<lparr>tlp_workspace_id = None, tlp_include_archived = True, tlp_limit = 1, tlp_cursor = None\<rparr>),
      de_thread_archive = (\<lambda>_. Ok 2), de_thread_subscribe = (\<lambda>_. Ok \<lparr>trp_thread_id = 2, trp_after_seq = 0\<rparr>),
      de_turn_start = (\<lambda>_. Ok \<lparr>usp_thread_id = 2, usp_agent_id = None, usp_content = [Text ''hello''], usp_capability_override = None\<rparr>),
      de_turn_steer = (\<lambda>_. Err ''unused''), de_turn_interrupt = (\<lambda>_. Err ''unused''),
      de_invocation_reconcile = (\<lambda>_. Err ''unused''), de_model_list = (\<lambda>_. Ok None), de_empty = (\<lambda>_. Ok ()),
      de_job_create = (\<lambda>_. Err ''unused''), de_job_list = (\<lambda>_. Ok None), de_job_id = (\<lambda>_. Ok 9),
      de_model_descriptor = (\<lambda>_. Err ''unused'')\<rparr>"

definition demo_encoders :: encoders where
  "demo_encoders =
     \<lparr>ec_result = (\<lambda>_. JNull), ec_blocks = (\<lambda>bs. JNumber (PosInt (to_nat bs))), ec_grant = (\<lambda>_. JNull),
      ec_outcome = (\<lambda>_. JNull), ec_evidence = (\<lambda>_. JNull), ec_uuid = (\<lambda>u. JNumber (PosInt (unat u))), ec_display = (\<lambda>_. [])\<rparr>"

definition demo_ids :: "nat \<Rightarrow> (string, uuid) rust_result" where
  "demo_ids k = (if k + 10 < 2 ^ 128 then Ok (of_nat (k + 10)) else Err ''exhausted'')"

definition demo_service :: "(string \<times> string option) service" where
  "demo_service =
     \<lparr>sv_codec = total_codec, sv_externals = plain_externals, sv_decoders = demo_decoders, sv_encoders = demo_encoders,
      sv_os = demo_os True, sv_ids = demo_ids, sv_clock = int, sv_time_stored = (\<lambda>t. t), sv_is_v7 = (\<lambda>_. True),
      sv_artifact_ok = (\<lambda>_. True), sv_sandbox = sandbox_backend.Unavailable ''none'', sv_sandbox_text = (\<lambda>_. []), sv_version = ''1'',
      sv_host_ceiling = Operate, sv_executes_turns = True, sv_configured_model = None\<rparr>"

definition demo_daemon :: "ledger \<Rightarrow> (string \<times> string option) daemon" where
  "demo_daemon db =
     \<lparr>dm_ledger = db, dm_descriptors = descriptor_initialize, dm_world = ([], None), dm_ids = 0, dm_clock = 0, dm_sent = [], dm_active = bt_empty\<rparr>"

definition demo_command :: "string \<Rightarrow> json \<Rightarrow> command_envelope" where
  "demo_command method params =
     \<lparr>ce_jsonrpc = JSONRPC_VERSION, ce_id = NumberId 1, ce_command_id = 3, ce_method = method, ce_params = params\<rparr>"

text \<open>The line is the name of the method.\<close>

definition demo_wire :: wire where
  "demo_wire =
     \<lparr>wr_parse = (\<lambda>s. Ok (JObject [(''method'', JString s)])),
      wr_command = (\<lambda>v. case Option.bind (json_get v ''method'') json_as_str of None \<Rightarrow> Err ''none'' | Some m \<Rightarrow> Ok (demo_command m JNull)),
      wr_rpc_id = (\<lambda>v. case v of JString s \<Rightarrow> Ok (StringId s) | _ \<Rightarrow> Err ''none''), wr_approval = (\<lambda>_. Ok denied),
      wr_utf8_error = (\<lambda>_. []), wr_envelope = (\<lambda>_. JNull)\<rparr>"

lemma demo_service_sel [simp]:
  "sv_codec demo_service = total_codec" "sv_externals demo_service = plain_externals" "sv_decoders demo_service = demo_decoders"
  "sv_encoders demo_service = demo_encoders" "sv_os demo_service = demo_os True" "sv_ids demo_service = demo_ids"
  "sv_clock demo_service = int" "sv_is_v7 demo_service = (\<lambda>_. True)" "sv_host_ceiling demo_service = Operate"
  "sv_configured_model demo_service = None" "sv_time_stored demo_service = (\<lambda>t. t)" "sv_executes_turns demo_service"
  by (simp_all add: demo_service_def)

lemma demo_daemon_sel [simp]:
  "dm_ledger (demo_daemon db) = db" "dm_ids (demo_daemon db) = 0" "dm_clock (demo_daemon db) = 0"
  "dm_world (demo_daemon db) = ([], None)" "dm_descriptors (demo_daemon db) = descriptor_initialize"
  by (simp_all add: demo_daemon_def)

lemma demo_codec_ok [simp]: "codec_ok total_codec"
  using total_codec_ok by (simp add: port_codec_ok_def)

lemma unat_of_nat_small: "n < 2 ^ 128 \<Longrightarrow> unat (of_nat n :: 128 word) = n"
  by (simp add: unsigned_of_nat take_bit_nat_eq_self)

lemma demo_ids_inj: "demo_ids j = Ok u \<Longrightarrow> demo_ids k = Ok u \<Longrightarrow> j = k"
proof -
  assume "demo_ids j = Ok u" "demo_ids k = Ok u"
  then have "j + 10 < 2 ^ 128" "k + 10 < 2 ^ 128" "(of_nat (j + 10) :: 128 word) = of_nat (k + 10)"
    by (auto simp: demo_ids_def split: if_splits)
  then have "unat (of_nat (j + 10) :: 128 word) = unat (of_nat (k + 10) :: 128 word)" by simp
  then show "j = k" using \<open>j + 10 < 2 ^ 128\<close> \<open>k + 10 < 2 ^ 128\<close> by (simp add: unat_of_nat_small del: of_nat_add)
qed

lemma demo_ids_large: "demo_ids k = Ok u \<Longrightarrow> 10 \<le> unat u"
  by (auto simp: demo_ids_def unat_of_nat_small simp del: of_nat_add split: if_splits)

lemma demo_holds_conversation: "\<exists>db. holds_envelopes total_codec plain_externals UNIV db sample_conversation"
proof -
  have st: "\<forall>env \<in> set sample_conversation. storable UNIV env"
    by (simp add: storable_def sample_conversation_def sample_envelope_def PROTOCOL_VERSION_def accepts_def)
  obtain db where "port_append_all total_codec plain_externals initialize_schema sample_conversation = Ok db"
    using port_append_all_complete [OF total_codec_ok sample_conversation_complete st] by blast
  then show ?thesis
    using store_all_holds [OF holds_nothing [OF total_codec_ok] st] by (auto simp: port_append_all_eq)
qed

end
