(* ===== verification/Daemon_Connection.thy ===== *)
theory Daemon_Connection
  imports Demo_Service "HOL-Library.Multiset"
begin

text \<open>
  What a client of a connection can rely on: its lines are framed the same way however the
  bytes arrive, a subscription delivers every event once and in order, and an approval is
  granted only by the response to its own request.
\<close>

section \<open>Framing\<close>

text \<open>All lines of a stream: \<open>read_frame\<close> until the end of the stream or an oversized line.\<close>

function (sequential) read_lines :: "nat \<Rightarrow> string list \<Rightarrow> string \<Rightarrow> string list \<times> bool" where
  "read_lines m chunks buffered =
     (case read_frame m chunks buffered of
        (chunks', buffered', Some (Line l)) \<Rightarrow> (case read_lines m chunks' buffered' of (ls, ok) \<Rightarrow> (l # ls, ok))
      | (chunks', buffered', Some Eof) \<Rightarrow> ([], True)
      | (chunks', buffered', None) \<Rightarrow> ([], False))"
  by pat_completeness auto

lemma newline_at_Some:
  "newline_at s = Some n \<longleftrightarrow> CHR 0x0A \<in> set s \<and> n = length (takeWhile (\<lambda>c. c \<noteq> CHR 0x0A) s)"
  by (auto simp: newline_at_def)

lemma newline_at_bound: "newline_at s = Some n \<Longrightarrow> n < length s"
  unfolding newline_at_Some by (induction s arbitrary: n) (auto split: if_splits)

lemma sum_consume: "newline_at c = Some n \<Longrightarrow> sum_list (map length (consume (Suc n) (c # cs))) < sum_list (map length (c # cs))"
  using newline_at_bound [of c n] by (auto simp: consume_def)

lemma read_frame_shrinks:
  "read_frame m chunks buffered = (chunks', buffered', Some (Line l)) \<Longrightarrow>
     sum_list (map length chunks') + length buffered' < sum_list (map length chunks) + length buffered"
proof (induction m chunks buffered rule: read_frame.induct)
  case (2 m c cs buffered)
  show ?case
  proof (cases "newline_at c")
    case None
    then show ?thesis using 2 by (auto split: if_splits)
  next
    case (Some n)
    then show ?thesis using 2 sum_consume [OF Some, of cs] by (auto split: if_splits)
  qed
qed (auto split: if_splits)

termination read_lines
  by (relation "measure (\<lambda>(m, chunks, buffered). sum_list (map length chunks) + length buffered)")
    (auto dest: read_frame_shrinks [OF sym])

text \<open>The reference: the lines of the whole stream, up to the first one that is too long.\<close>

function framed :: "nat \<Rightarrow> string \<Rightarrow> string list \<times> bool" where
  "framed m s =
     (if s = [] then ([], True)
      else
        let l = takeWhile (\<lambda>c. c \<noteq> CHR 0x0A) s in
        if length l > m then ([], False)
        else case dropWhile (\<lambda>c. c \<noteq> CHR 0x0A) s of
          [] \<Rightarrow> ([l], True)
        | _ # r \<Rightarrow> (case framed m r of (ls, ok) \<Rightarrow> (l # ls, ok)))"
  by pat_completeness auto

termination framed
proof (relation "measure (\<lambda>(m, s). length s)")
  fix m :: nat and s :: string and l :: string and c r
  assume "dropWhile (\<lambda>c. c \<noteq> CHR 0x0A) s = c # r"
  then have "length (c # r) \<le> length s" by (metis length_dropWhile_le)
  then show "((m, r), (m, s)) \<in> measure (\<lambda>(m, s). length s)" by simp
qed simp

declare read_lines.simps [simp del] framed.simps [simp del]

lemma saturating_exceeds: "m < u64_max \<Longrightarrow> saturating_add a b > m \<longleftrightarrow> a + b > m"
  by (auto simp: saturating_add_def)

lemma concat_consume: "concat (consume n (c # cs)) = drop n c @ concat cs"
  by (simp add: consume_def)

text \<open>One frame of the stream is the first line of what is buffered and still to come.\<close>

lemma read_frame_line:
  assumes "m < u64_max" and "[] \<notin> set chunks" and "CHR 0x0A \<notin> set buffered" and "length buffered \<le> m"
  shows "read_frame m chunks buffered = (chunks', buffered', r) \<Longrightarrow>
    (let s = buffered @ concat chunks; l = takeWhile (\<lambda>c. c \<noteq> CHR 0x0A) s in
     if s = [] then r = Some Eof
     else if length l > m then r = None
     else r = Some (Line l) \<and> buffered' = [] \<and> [] \<notin> set chunks' \<and>
       concat chunks' = tl (dropWhile (\<lambda>c. c \<noteq> CHR 0x0A) s))"
  using assms
proof (induction m chunks buffered rule: read_frame.induct)
  case (1 m buffered)
  then have l: "takeWhile (\<lambda>c. c \<noteq> CHR 0x0A) buffered = buffered" "dropWhile (\<lambda>c. c \<noteq> CHR 0x0A) buffered = []"
    by (auto simp: takeWhile_eq_all_conv dropWhile_eq_Nil_conv)
  show ?case
  proof (cases "buffered = []")
    case True
    then show ?thesis using 1(1) by simp
  next
    case False
    then have "chunks' = [] \<and> buffered' = [] \<and> r = Some (Line buffered)" using 1(1) by simp
    then show ?thesis using False 1(5) by (simp add: Let_def l)
  qed
next
  case (2 m c cs buffered)
  note IH = 2(1) and run = 2(2) and hyp = 2(3-6)
  have clean: "\<forall>x \<in> set buffered. x \<noteq> CHR 0x0A" using hyp(3) by auto
  show ?case
  proof (cases "newline_at c")
    case (Some n)
    let ?l = "takeWhile (\<lambda>x. x \<noteq> CHR 0x0A) c"
    have n: "n = length ?l" "CHR 0x0A \<in> set c" using Some by (auto simp: newline_at_Some)
    have l: "takeWhile (\<lambda>x. x \<noteq> CHR 0x0A) (buffered @ c @ concat cs) = buffered @ ?l"
      using clean n(2) by (simp add: takeWhile_append2 takeWhile_append1)
    have r: "dropWhile (\<lambda>x. x \<noteq> CHR 0x0A) (buffered @ c @ concat cs) = dropWhile (\<lambda>x. x \<noteq> CHR 0x0A) c @ concat cs"
      using clean n(2) by (simp add: dropWhile_append2 dropWhile_append1)
    have drop: "drop (Suc n) c = tl (dropWhile (\<lambda>x. x \<noteq> CHR 0x0A) c)" "dropWhile (\<lambda>x. x \<noteq> CHR 0x0A) c \<noteq> []"
      using n newline_at_bound [OF Some] by (auto simp: dropWhile_eq_drop drop_Suc tl_drop)
    have chunks: "[] \<notin> set (consume (Suc n) (c # cs))" using hyp(2) by (auto simp: consume_def)
    have "take n c = ?l" using n(1) by (metis takeWhile_eq_take)
    then show ?thesis
      using run hyp(1) Some l r drop chunks n(1) by (auto simp: Let_def saturating_exceeds concat_consume split: if_splits)
  next
    case None
    then have c: "CHR 0x0A \<notin> set c" by (simp add: newline_at_def split: if_splits)
    show ?thesis
    proof (cases "length buffered + length c > m")
      case True
      have "takeWhile (\<lambda>x. x \<noteq> CHR 0x0A) ((buffered @ c) @ concat cs) = (buffered @ c) @ takeWhile (\<lambda>x. x \<noteq> CHR 0x0A) (concat cs)"
        by (rule takeWhile_append2) (use clean c in auto)
      then show ?thesis using run hyp(1,2) None True by (auto simp: Let_def saturating_exceeds)
    next
      case False
      then have "read_frame m cs (buffered @ c) = (chunks', buffered', r)"
        using run hyp(1) None by (simp add: saturating_exceeds)
      from IH [OF None _ this] show ?thesis using False hyp c by (simp add: saturating_exceeds)
    qed
  qed
qed

lemma read_lines_framed:
  assumes "m < u64_max" and "[] \<notin> set chunks" and "CHR 0x0A \<notin> set buffered" and "length buffered \<le> m"
  shows "read_lines m chunks buffered = framed m (buffered @ concat chunks)"
  using assms
proof (induction m chunks buffered rule: read_lines.induct)
  case (1 m chunks buffered)
  define s where "s = buffered @ concat chunks"
  obtain chunks' buffered' r where run: "read_frame m chunks buffered = (chunks', buffered', r)" by (metis prod_cases3)
  note first = read_frame_line [OF 1(2-5) run, unfolded Let_def, folded s_def]
  have "read_lines m chunks buffered = framed m s"
  proof (cases "s = [] \<or> length (takeWhile (\<lambda>c. c \<noteq> CHR 0x0A) s) > m")
    case True
    then show ?thesis
      using first by (subst read_lines.simps, subst framed.simps) (auto simp: run Let_def split: if_splits)
  next
    case False
    then have r: "r = Some (Line (takeWhile (\<lambda>c. c \<noteq> CHR 0x0A) s))" "buffered' = []" "[] \<notin> set chunks'"
        "concat chunks' = tl (dropWhile (\<lambda>c. c \<noteq> CHR 0x0A) s)"
      using first by auto
    have IH: "read_lines m chunks' [] = framed m (tl (dropWhile (\<lambda>c. c \<noteq> CHR 0x0A) s))"
      using 1(1) [OF run [symmetric] refl r(1)] 1(2) r(2-4) by simp
    obtain ls ok where rest: "framed m (tl (dropWhile (\<lambda>c. c \<noteq> CHR 0x0A) s)) = (ls, ok)" by fastforce
    then have l: "read_lines m chunks buffered = (takeWhile (\<lambda>c. c \<noteq> CHR 0x0A) s # ls, ok)"
      using IH by (subst read_lines.simps) (simp add: run r(1,2))
    show ?thesis
    proof (cases "dropWhile (\<lambda>c. c \<noteq> CHR 0x0A) s")
      case Nil
      have "framed m [] = ([], True)" by (subst framed.simps) simp
      then have "ls = []" "ok" using rest Nil by auto
      then show ?thesis unfolding l using False by (subst framed.simps) (simp add: Let_def Nil)
    next
      case (Cons c r)
      then show ?thesis unfolding l using False rest by (subst framed.simps) (simp add: Let_def)
    qed
  qed
  then show ?case by (simp add: s_def)
qed

section \<open>Replay of a subscription\<close>

lemma page_of_thread:
  assumes h: "holds_envelopes (sv_codec S) (sv_externals S) UNIV db es" and "k \<le> i64_max" and "n \<le> i64_max"
  shows "rbind (replay_page (cd_stored (sv_codec S)) db (uuid_str (sv_externals S) t) k n) (collect_results (envelope_of (sv_codec S))) =
    Ok (take n (drop k (events_of_thread t es)))"
proof -
  have C: "port_codec_ok (sv_codec S) (sv_externals S) UNIV" and wf: "ledger_wf db"
    and rows: "list_all2 (row_of (sv_codec S) (sv_externals S) UNIV) es (history db)"
    using h by (auto simp: holds_envelopes_def)
  have "cd_stored (sv_codec S) = (\<lambda>v. v)" using C by (simp add: port_codec_ok_def codec_okD(1))
  moreover have "list_all2 (row_of (sv_codec S) (sv_externals S) UNIV) (take n (drop k (events_of_thread t es)))
      (take n (drop k (of_thread (uuid_str (sv_externals S) t) (history db))))"
    using rows_of_thread [OF C rows] by (simp add: list_all2_takeI list_all2_dropI)
  ultimately show ?thesis
    using collect_rows [OF C] by (simp add: replay_page_wf [OF wf assms(2,3)] row_to_event_id)
qed

lemma thread_seq:
  assumes "holds_envelopes (sv_codec S) (sv_externals S) UNIV db es" and "i < length (events_of_thread t es)"
  shows "en_seq (events_of_thread t es ! i) = Suc i"
proof -
  have "map en_seq (events_of_thread t es) = [1..<Suc (length (events_of_thread t es))]"
    using holds_complete [OF assms(1)] by blast
  then have "map en_seq (events_of_thread t es) ! i = [1..<Suc (length (events_of_thread t es))] ! i" by simp
  then show ?thesis using assms(2) by (simp del: upt_Suc)
qed

lemma write_replay_loop_ok:
  assumes h: "holds_envelopes (sv_codec S) (sv_externals S) UNIV db es" and "through \<le> length (events_of_thread t es)"
  shows "k \<le> through \<Longrightarrow> through - k \<le> fuel \<Longrightarrow>
    write_replay_loop S db t through fuel k written = Some (Ok (written @ drop k (take through (events_of_thread t es))))"
proof (induction fuel arbitrary: k written)
  case (Suc fuel)
  let ?evs = "events_of_thread t es"
  define n where "n = min (through - k) REPLAY_PAGE_SIZE"
  show ?case
  proof (cases "k < through")
    case True
    have n: "0 < n" "k + n \<le> through" "k + n \<le> length ?evs"
      using True assms(2) by (auto simp: n_def REPLAY_PAGE_SIZE_def)
    have i64: "length ?evs \<le> i64_max"
      using holds_complete [OF h] le_trans [OF length_filter_le [of "\<lambda>e. en_thread_id e = t" es]] by (simp add: events_of_thread_def)
    then have page: "rbind (replay_page (cd_stored (sv_codec S)) db (uuid_str (sv_externals S) t) k n)
        (collect_results (envelope_of (sv_codec S))) = Ok (take n (drop k ?evs))"
      using n by (intro page_of_thread [OF h]) auto
    obtain e page' where cons: "take n (drop k ?evs) = e # page'" using n by (cases "take n (drop k ?evs)") auto
    have "last (take n (drop k ?evs)) = take n (drop k ?evs) ! (n - 1)" using n by (subst last_conv_nth) auto
    also have "\<dots> = ?evs ! (k + n - 1)" using n by simp
    finally have last: "en_seq (last (take n (drop k ?evs))) = k + n"
      using thread_seq [OF h, of "k + n - 1"] n by simp
    have "drop k (take through ?evs) = take n (drop k ?evs) @ drop (k + n) (take through ?evs)"
      using n(2) append_take_drop_id [of n "drop k (take through ?evs)"] by (simp add: drop_take add.commute min.absorb1 le_diff_conv2)
    moreover have "write_replay_loop S db t through fuel (k + n) (written @ take n (drop k ?evs)) =
        Some (Ok ((written @ take n (drop k ?evs)) @ drop (k + n) (take through ?evs)))"
      using Suc.prems n by (intro Suc.IH) auto
    ultimately show ?thesis
      using True page cons last unfolding n_def [symmetric] by (simp add: Let_def n_def [symmetric])
  qed (use Suc.prems in simp)
qed simp

section \<open>Forwarding events\<close>

text \<open>The sequence numbers of a thread's events as they were written.\<close>

fun written_seqs :: "thread_id \<Rightarrow> message list \<Rightarrow> nat list" where
  "written_seqs t [] = []"
| "written_seqs t (JsonMessage v # ms) = written_seqs t ms"
| "written_seqs t (EventMessage env # ms) = (if en_thread_id env = t then [en_seq env] else []) @ written_seqs t ms"

lemma written_seqs_append [simp]: "written_seqs t (xs @ ys) = written_seqs t xs @ written_seqs t ys"
  by (induction xs rule: written_seqs.induct) auto

definition subscribed :: "connection \<Rightarrow> thread_id \<Rightarrow> nat option" where
  "subscribed c t = bt_get (cs_subscriptions (cn_state c)) t"

definition receive :: "'w service \<Rightarrow> connection \<Rightarrow> event_envelope option \<Rightarrow> connection" where
  "receive S c received = (if cn_open c then handle_event S received c else c)"

lemma close_sel [simp]:
  "cn_state (close_connection c) = cn_state c" "cn_written (close_connection c) = cn_written c" "\<not> cn_open (close_connection c)"
  "cn_state (write_json v c) = cn_state c" "cn_written (write_json v c) = cn_written c @ [JsonMessage v]"
  "cn_open (write_json v c) = cn_open c"
  by (simp_all add: close_connection_def write_json_def)

text \<open>
  One received event moves the subscription of its thread by at most one, and writes the event
  exactly when it does.
\<close>

lemma receive_step:
  assumes "subscribed c t = Some k"
  shows "\<exists>k'. subscribed (receive S c r) t = Some k' \<and> k \<le> k' \<and>
    written_seqs t (cn_written (receive S c r)) = written_seqs t (cn_written c) @ [Suc k..<Suc k'] \<and>
    (cn_open (receive S c r) \<longrightarrow> (\<forall>env. r = Some env \<longrightarrow> en_thread_id env = t \<longrightarrow> en_seq env \<le> k'))"
proof (cases "cn_open c")
  case False
  then show ?thesis using assms by (simp add: receive_def)
next
  case True
  then show ?thesis
    using assms
    by (intro exI [of _ "if \<exists>env. r = Some env \<and> en_thread_id env = t \<and> en_seq env = Suc k then Suc k else k"])
      (auto simp: receive_def handle_event_def subscribed_def write_event_def split: option.splits)
qed

lemma receive_all:
  assumes "subscribed c t = Some k"
  shows "\<exists>k'. subscribed (foldl (receive S) c rs) t = Some k' \<and> k \<le> k' \<and>
    written_seqs t (cn_written (foldl (receive S) c rs)) = written_seqs t (cn_written c) @ [Suc k..<Suc k'] \<and>
    (cn_open (foldl (receive S) c rs) \<longrightarrow> (\<forall>env. Some env \<in> set rs \<longrightarrow> en_thread_id env = t \<longrightarrow> en_seq env \<le> k'))"
proof (induction rs rule: rev_induct)
  case Nil
  then show ?case using assms by simp
next
  case (snoc r rs)
  let ?c = "foldl (receive S) c rs"
  obtain k1 where k1: "subscribed ?c t = Some k1" "k \<le> k1"
      "written_seqs t (cn_written ?c) = written_seqs t (cn_written c) @ [Suc k..<Suc k1]"
      "cn_open ?c \<longrightarrow> (\<forall>env. Some env \<in> set rs \<longrightarrow> en_thread_id env = t \<longrightarrow> en_seq env \<le> k1)"
    using snoc.IH by blast
  obtain k2 where k2: "subscribed (receive S ?c r) t = Some k2" "k1 \<le> k2"
      "written_seqs t (cn_written (receive S ?c r)) = written_seqs t (cn_written ?c) @ [Suc k1..<Suc k2]"
      "cn_open (receive S ?c r) \<longrightarrow> (\<forall>env. r = Some env \<longrightarrow> en_thread_id env = t \<longrightarrow> en_seq env \<le> k2)"
    using receive_step [OF k1(1)] by blast
  have open_before: "cn_open (receive S ?c r) \<Longrightarrow> cn_open ?c" by (simp add: receive_def split: if_splits)
  have "[Suc k..<Suc k1] @ [Suc k1..<Suc k2] = [Suc k..<Suc k2]"
    using k1(2) k2(2) by (metis Suc_le_mono upt_add_eq_append le_add_diff_inverse)
  with k1 k2 open_before show ?case by (intro exI [of _ k2]) (force simp del: upt_Suc)
qed

section \<open>Approval responses\<close>

lemma deny_all [simp]: "deny_pending_approvals pending = ([], map (\<lambda>(_, channel). (channel, denied)) pending)"
  by (simp add: deny_pending_approvals_def)

lemma mset_removed:
  "distinct (map fst xs) \<Longrightarrow> map_of xs i = Some c \<Longrightarrow>
     mset (map snd xs) = add_mset c (mset (map snd (filter (\<lambda>(j, _). j \<noteq> i) xs)))"
proof (induction xs)
  case (Cons x xs)
  show ?case
  proof (cases "fst x = i")
    case True
    then have "filter (\<lambda>(j, _). j \<noteq> i) xs = xs" using Cons.prems(1) by (intro filter_True) (auto simp: image_iff split_beta)
    then show ?thesis using True Cons.prems(2) by (cases x) auto
  next
    case False
    then show ?thesis using Cons by (cases x) auto
  qed
qed simp

text \<open>The response to a pending request.\<close>

definition responds :: "wire \<Rightarrow> string \<Rightarrow> rpc_id \<Rightarrow> approval_request_result \<Rightarrow> bool" where
  "responds W input i r \<longleftrightarrow>
     (\<exists>value v w. wr_parse W input = Ok value \<and> json_get value ''method'' = None \<and> json_get value ''command_id'' = None \<and>
        json_get value ''jsonrpc'' = Some (JString JSONRPC_VERSION) \<and> json_get value ''id'' = Some v \<and> wr_rpc_id W v = Ok i \<and>
        json_get value ''result'' = Some w \<and> wr_approval W w = Ok r)"

lemma json_as_str_Some: "json_as_str v = Some s \<longleftrightarrow> v = JString s"
  by (cases v) (auto simp: json_as_str_def)

section \<open>Properties\<close>

text \<open>
  C11: The lines a client sends do not depend on how the bytes arrive. For a stream of non-empty
  chunks, also when reading was interrupted with part of a line buffered, the frames are the
  lines of the concatenated bytes, up to the first line longer than the limit, which ends
  the connection.
\<close>

theorem framing_ignores_chunk_boundaries:
  assumes "m < u64_max" and "[] \<notin> set chunks" and "CHR 0x0A \<notin> set buffered" and "length buffered \<le> m"
  shows "read_lines m chunks buffered = framed m (buffered @ concat chunks)"
  by (rule read_lines_framed [OF assms])

theorem framing_ignores_chunk_boundaries_witness:
  "read_lines 4 [''ab'', ''c'' @ [CHR 0x0A, CHR ''d''], [CHR 0x0A]] [] = framed 4 (''abc'' @ [CHR 0x0A, CHR ''d'', CHR 0x0A]) \<and>
   framed 4 (''abc'' @ [CHR 0x0A, CHR ''d'', CHR 0x0A]) = ([''abc'', ''d''], True)"
  using framing_ignores_chunk_boundaries [of 4 "[''ab'', ''c'' @ [CHR 0x0A, CHR ''d''], [CHR 0x0A]]" "[]"]
  by (simp add: u64_max_def framed.simps Let_def)

text \<open>
  C9: A subscription replays exactly the events it advertises. On a ledger that holds a history,
  replaying the window of a subscription writes the events of the thread after the client's
  sequence number up to the advertised one, in order and complete, page by page; the number
  of pages is bounded by the number of events.
\<close>

theorem subscription_replays_its_window:
  assumes "holds_envelopes (sv_codec S) (sv_externals S) UNIV db es" and "after_seq \<le> through"
    and "through \<le> length (events_of_thread t es)"
  shows "write_replay S db \<lparr>rw_thread_id = t, rw_after_seq = after_seq, rw_through_seq = through\<rparr> =
    Some (Ok (drop after_seq (take through (events_of_thread t es))))"
  using write_replay_loop_ok [OF assms(1,3,2)] by (simp add: write_replay_def)

theorem subscription_replays_its_window_witness:
  "\<exists>db. holds_envelopes total_codec plain_externals UNIV db sample_conversation \<and>
     write_replay demo_service db \<lparr>rw_thread_id = 2, rw_after_seq = 1, rw_through_seq = 3\<rparr> =
       Some (Ok [sample_envelope 2 (ThreadStarted sample_thread), sample_envelope 3 (TurnStarted (sample_turn Accepted))])"
proof -
  obtain db where h: "holds_envelopes total_codec plain_externals UNIV db sample_conversation"
    using demo_holds_conversation by blast
  have "write_replay demo_service db \<lparr>rw_thread_id = 2, rw_after_seq = 1, rw_through_seq = 3\<rparr> =
      Some (Ok (drop 1 (take 3 (events_of_thread 2 sample_conversation))))"
    by (rule subscription_replays_its_window [of _ _ sample_conversation])
      (use h in simp, simp_all add: events_of_thread_def sample_conversation_def sample_envelope_def)
  moreover have "drop 1 (take 3 (events_of_thread 2 sample_conversation)) =
      [sample_envelope 2 (ThreadStarted sample_thread), sample_envelope 3 (TurnStarted (sample_turn Accepted))]"
    by (simp add: events_of_thread_def sample_conversation_def sample_envelope_def numeral_eq_Suc)
  ultimately show ?thesis using h by auto
qed

text \<open>
  C8: A subscriber sees every event once and in order, or is disconnected. Whatever published
  events reach the connection, with repetitions and losses, the sequence numbers written for a
  subscribed thread continue one by one from the last one the client had; and as long as the
  connection is open, no event that reached it was skipped.
\<close>

theorem subscriber_sees_events_once_and_in_order:
  assumes "subscribed c t = Some k"
  shows "\<exists>k'. subscribed (foldl (receive S) c rs) t = Some k' \<and>
    written_seqs t (cn_written (foldl (receive S) c rs)) = written_seqs t (cn_written c) @ [Suc k..<Suc k'] \<and>
    (cn_open (foldl (receive S) c rs) \<longrightarrow> (\<forall>env. Some env \<in> set rs \<longrightarrow> en_thread_id env = t \<longrightarrow> en_seq env \<le> k'))"
  using receive_all [OF assms] by blast

theorem subscriber_sees_events_once_and_in_order_witness:
  "let c = default_serving\<lparr>cn_state := default_connection\<lparr>cs_subscriptions := bt_insert bt_empty 2 1\<rparr>\<rparr>;
       rs = map Some (sample_conversation @ sample_conversation) in
   subscribed c 2 = Some 1 \<and>
   (\<exists>k'. subscribed (foldl (receive demo_service) c rs) 2 = Some k' \<and>
     written_seqs 2 (cn_written (foldl (receive demo_service) c rs)) = [2..<Suc k'])"
  using subscriber_sees_events_once_and_in_order
    [of "default_serving\<lparr>cn_state := default_connection\<lparr>cs_subscriptions := bt_insert bt_empty 2 1\<rparr>\<rparr>" 2 1 demo_service
      "map Some (sample_conversation @ sample_conversation)"]
  by (auto simp: Let_def subscribed_def default_serving_def numeral_2_eq_2 simp del: upt_Suc)

text \<open>
  C10: Approvals fail closed. A line either leaves the pending requests alone or is consumed as a
  response; then every request that was pending is still pending or was answered exactly once,
  and an answer that approves was decoded from the result of a well-formed response that
  carries the identifier of that request. Any other response denies what it touches.
\<close>

theorem approvals_fail_closed:
  assumes "distinct (map fst pending)" and "consume_approval_response W input pending = (consumed, pending', answers)"
  shows "mset (map snd pending) = mset (map snd pending') + mset (map fst answers) \<and>
    (\<not> consumed \<longrightarrow> pending' = pending \<and> answers = []) \<and>
    (\<forall>(channel, r) \<in> set answers. ar_approved r \<longrightarrow> (\<exists>i. map_of pending i = Some channel \<and> responds W input i r))"
proof -
  have "mset (map snd pending) = mset (map snd pending') + mset (map fst answers)"
    using assms mset_removed [OF assms(1)]
    by (auto simp: consume_approval_response_def comp_def case_prod_beta image_mset.compositionality
        split: sum.splits option.splits if_splits)
  moreover have "\<not> consumed \<longrightarrow> pending' = pending \<and> answers = []"
    using assms(2) by (auto simp: consume_approval_response_def split: sum.splits option.splits if_splits)
  moreover have "\<exists>i. map_of pending i = Some channel \<and> responds W input i r" if "(channel, r) \<in> set answers" "ar_approved r" for channel r
    using assms(2) that
    by (auto simp: consume_approval_response_def denied_def responds_def json_as_str_Some bind_eq_Some_conv
        split: sum.splits option.splits if_splits)
  ultimately show ?thesis by auto
qed

theorem approvals_fail_closed_witness:
  "let W = demo_wire\<lparr>wr_parse := (\<lambda>_. Ok (JObject [(''id'', JString ''approval-1''), (''jsonrpc'', JString ''2.0''), (''result'', JNull)])),
         wr_approval := (\<lambda>_. Ok \<lparr>ar_approved = True, ar_approval = None\<rparr>)\<rparr>;
       pending = [(StringId ''approval-1'', 7), (StringId ''approval-2'', 8)];
       answers = [(7, \<lparr>ar_approved = True, ar_approval = None\<rparr>)] in
   consume_approval_response W ''x'' pending = (True, [(StringId ''approval-2'', 8)], answers) \<and>
   (\<exists>i. map_of pending i = Some 7 \<and> responds W ''x'' i \<lparr>ar_approved = True, ar_approval = None\<rparr>)"
proof -
  let ?W = "demo_wire\<lparr>wr_parse := (\<lambda>_. Ok (JObject [(''id'', JString ''approval-1''), (''jsonrpc'', JString ''2.0''), (''result'', JNull)])),
         wr_approval := (\<lambda>_. Ok \<lparr>ar_approved = True, ar_approval = None\<rparr>)\<rparr>"
  have run: "consume_approval_response ?W ''x'' [(StringId ''approval-1'', 7), (StringId ''approval-2'', 8)] =
      (True, [(StringId ''approval-2'', 8)], [(7, \<lparr>ar_approved = True, ar_approval = None\<rparr>)])"
    by (simp add: consume_approval_response_def demo_wire_def json_get_def json_as_str_def JSONRPC_VERSION_def)
  from approvals_fail_closed [OF _ this] run show ?thesis by (simp add: Let_def)
qed

end
