(* ===== verification/Command_Calculus.thy ===== *)
theory Command_Calculus
  imports Demo_Service
begin

text \<open>
  What a command does to the ledger. A handler is executed symbolically: \<open>at_history\<close> says
  what the ledger holds and which identifiers were drawn since, the rules of \<open>run_rules\<close>
  step over the operations of a handler, and the lemma for a committed batch replays the new
  events on the projection that the handler has read.
\<close>

named_theorems run_rules \<open>symbolic execution of handlers\<close>

section \<open>Identifiers of a history\<close>

text \<open>The identifiers that an envelope introduces.\<close>

fun created :: "event \<Rightarrow> uuid set" where
  "created (WorkspaceOpened w) = {ws_id w}"
| "created (ThreadStarted t) = {th_id t}"
| "created (ThreadForked t) = {th_id t}"
| "created (TurnStarted t) = {tu_id t}"
| "created (ItemAdded i) = {it_id i}"
| "created (JobCreated job) = {js_workspace_id job}"
| "created (InvocationProposed i _ _ _ _ _ _ _) = {i}"
| "created _ = {}"

definition mentions :: "event_envelope \<Rightarrow> uuid set" where
  "mentions env = {en_event_id env, en_thread_id env} \<union> created (en_event env)"

definition used :: "event_envelope list \<Rightarrow> uuid set" where
  "used es = (\<Union>env \<in> set es. mentions env)"

lemma used_simps [simp]: "used [] = {}" "used (es @ fs) = used es \<union> used fs" "used (e # es) = mentions e \<union> used es"
  by (auto simp: used_def)

text \<open>
  Every entity of a replayed projection is used, and so are the thread of every turn and
  invocation and the workspace of every job.
\<close>

definition entities :: "projection \<Rightarrow> uuid set" where
  "entities p =
     {k. bt_get (pr_workspaces p) k \<noteq> None \<or> bt_get (pr_threads p) k \<noteq> None \<or>
         bt_get (pr_turns p) k \<noteq> None \<or> bt_get (pr_items p) k \<noteq> None \<or> bt_get (pr_invocations p) k \<noteq> None \<or>
         (\<exists>i u. bt_get (pr_turns p) i = Some u \<and> tu_thread_id u = k) \<or>
         (\<exists>i v. bt_get (pr_invocations p) i = Some v \<and> pv_thread_id v = k) \<or>
         (\<exists>i j. bt_get (pr_jobs p) i = Some j \<and> js_workspace_id (pj_spec j) = k)}"

lemma entities_default: "entities projection_default = {}"
  by (simp add: entities_def projection_default_def bt_empty_def bt_get_def)

lemma entities_record [simp]: "entities (record_event q env) = entities q"
  by (auto simp: entities_def record_event_def)

lemma entities_step_keys:
  assumes "apply_event X p env ev = (q, Ok ())"
  shows "bt_get (pr_workspaces q) k \<noteq> None \<Longrightarrow> bt_get (pr_workspaces p) k \<noteq> None \<or> k \<in> created ev"
    and "bt_get (pr_threads q) k \<noteq> None \<Longrightarrow> bt_get (pr_threads p) k \<noteq> None \<or> k \<in> created ev"
    and "bt_get (pr_turns q) k \<noteq> None \<Longrightarrow> bt_get (pr_turns p) k \<noteq> None \<or> k \<in> created ev"
    and "bt_get (pr_items q) k \<noteq> None \<Longrightarrow> bt_get (pr_items p) k \<noteq> None \<or> k \<in> created ev"
    and "bt_get (pr_invocations q) k \<noteq> None \<Longrightarrow> bt_get (pr_invocations p) k \<noteq> None \<or> k \<in> created ev"
  using assms by (cases ev; auto simp: handler_defs Let_def split: if_splits option.splits)+

lemma entities_step_threads:
  assumes "apply_event X p env ev = (q, Ok ())"
  shows "bt_get (pr_turns q) i = Some u \<Longrightarrow> tu_thread_id u = en_thread_id env \<or> (\<exists>u'. bt_get (pr_turns p) i = Some u' \<and> tu_thread_id u' = tu_thread_id u)"
    and "bt_get (pr_invocations q) i = Some v \<Longrightarrow>
      pv_thread_id v = en_thread_id env \<or> (\<exists>v'. bt_get (pr_invocations p) i = Some v' \<and> pv_thread_id v' = pv_thread_id v)"
    and "bt_get (pr_jobs q) i = Some j \<Longrightarrow>
      js_workspace_id (pj_spec j) \<in> created ev \<or> (\<exists>j'. bt_get (pr_jobs p) i = Some j' \<and> js_workspace_id (pj_spec j') = js_workspace_id (pj_spec j))"
  using assms by (cases ev; auto simp: handler_defs Let_def changed_turn_def split: if_splits option.splits)+

lemma entities_step:
  assumes "apply_event X p env ev = (q, Ok ())"
  shows "entities q \<subseteq> entities p \<union> {en_thread_id env} \<union> created ev"
proof
  fix k assume "k \<in> entities q"
  then consider "bt_get (pr_workspaces q) k \<noteq> None" | "bt_get (pr_threads q) k \<noteq> None" | "bt_get (pr_turns q) k \<noteq> None"
    | "bt_get (pr_items q) k \<noteq> None" | "bt_get (pr_invocations q) k \<noteq> None" | i u where "bt_get (pr_turns q) i = Some u" "tu_thread_id u = k"
    | i v where "bt_get (pr_invocations q) i = Some v" "pv_thread_id v = k"
    | i j where "bt_get (pr_jobs q) i = Some j" "js_workspace_id (pj_spec j) = k"
    unfolding entities_def by blast
  then show "k \<in> entities p \<union> {en_thread_id env} \<union> created ev"
    using entities_step_keys [OF assms, of k] entities_step_threads [OF assms] unfolding entities_def by cases (blast, blast, blast, blast, blast, fastforce+)
qed

lemma entities_used: "replay X es = Ok p \<Longrightarrow> entities p \<subseteq> used es"
proof (induction es arbitrary: p rule: rev_induct)
  case Nil
  then show ?case by (simp add: replay_def entities_default)
next
  case (snoc env es)
  then obtain q where q: "replay X es = Ok q" "apply_step X q env = Ok p"
    by (auto simp: replay_def replays.run_snoc rbind_eq_Inr)
  then obtain q' where "apply_event X q env (en_event env) = (q', Ok ())" "p = record_event q' env"
    by (auto simp: apply_step_Ok)
  then show ?case using entities_step [of X q env] snoc.IH [OF q(1)] by (auto simp: mentions_def)
qed

section \<open>New rows\<close>

text \<open>An envelope before its sequence number is known, and the input built from it.\<close>

definition draft :: "uuid \<Rightarrow> thread_id \<Rightarrow> turn_id option \<Rightarrow> agent_id \<Rightarrow> instant \<Rightarrow> string \<Rightarrow> event \<Rightarrow> event_envelope" where
  "draft u t turn agent time causation ev =
     \<lparr>en_schema_version = PROTOCOL_VERSION, en_event_id = u, en_thread_id = t, en_turn_id = turn, en_agent_id = agent,
      en_seq = 0, en_time = time, en_causation_id = Some causation, en_event = ev\<rparr>"

lemma draft_sel [simp]:
  "en_schema_version (draft u t turn agent time c ev) = PROTOCOL_VERSION" "en_event_id (draft u t turn agent time c ev) = u"
  "en_thread_id (draft u t turn agent time c ev) = t" "en_turn_id (draft u t turn agent time c ev) = turn"
  "en_agent_id (draft u t turn agent time c ev) = agent" "en_time (draft u t turn agent time c ev) = time"
  "en_event (draft u t turn agent time c ev) = ev"
  by (simp_all add: draft_def)

definition input_of :: "codec \<Rightarrow> externals \<Rightarrow> event_envelope \<Rightarrow> new_ledger_event" where
  "input_of C X env =
     (let serialized = cd_event_value C (en_event env) in
      \<lparr>nl_schema_version = en_schema_version env, nl_event_id = uuid_str X (en_event_id env),
       nl_thread_id = uuid_str X (en_thread_id env), nl_turn_id = map_option (uuid_str X) (en_turn_id env),
       nl_agent_id = en_agent_id env, nl_time = en_time env, nl_causation_id = en_causation_id env,
       nl_kind = event_kind (en_event env),
       nl_payload = (case json_get serialized ''payload'' of None \<Rightarrow> JNull | Some p \<Rightarrow> p)\<rparr>)"

text \<open>The sequence numbers that the drafts get after a history.\<close>

fun number :: "event_envelope list \<Rightarrow> event_envelope list \<Rightarrow> event_envelope list" where
  "number es [] = []"
| "number es (d # ds) =
     (let env = d\<lparr>en_seq := Suc (length (events_of_thread (en_thread_id d) es))\<rparr> in env # number (es @ [env]) ds)"

lemma input_row:
  assumes C: "port_codec_ok C X UNIV" and "accepts PROTOCOL_VERSION (en_schema_version env)"
  shows "row_of C X UNIV (env\<lparr>en_seq := n\<rparr>) (sequenced (input_of C X env) n)"
proof -
  have "json_is_object (cd_event_value C (en_event env))"
      "json_get (cd_event_value C (en_event env)) ''kind'' = Some (JString (event_kind (en_event env)))"
    using C unfolding port_codec_ok_def by auto
  then show ?thesis
    using assms(2) by (simp add: row_of_def storable_def ledger_event_of_def Let_def json_as_str_def ok_or_def sequenced_def input_of_def)
qed

lemma assign_rows:
  assumes C: "port_codec_ok C X UNIV" and "\<forall>d \<in> set ds. accepts PROTOCOL_VERSION (en_schema_version d)"
    and "list_all2 (row_of C X UNIV) es (history db)"
  shows "list_all2 (row_of C X UNIV) (number es ds) (assign db (map (input_of C X) ds))"
  using assms(2,3)
proof (induction ds arbitrary: es db)
  case (Cons d ds)
  let ?n = "Suc (length (events_of_thread (en_thread_id d) es))"
  have n: "next_seq db (nl_thread_id (input_of C X d)) = ?n"
    using list_all2_lengthD [OF rows_of_thread [OF C Cons.prems(2), of "en_thread_id d"]]
    by (simp add: next_seq_def input_of_def Let_def)
  have row: "row_of C X UNIV (d\<lparr>en_seq := ?n\<rparr>) (sequenced (input_of C X d) ?n)"
    using input_row [OF C] Cons.prems(1) by simp
  then have "list_all2 (row_of C X UNIV) (es @ [d\<lparr>en_seq := ?n\<rparr>]) (history (push_row db (sequenced (input_of C X d) ?n)))"
    using Cons.prems(2) by (simp add: list_all2_appendI)
  from Cons.IH [OF _ this] Cons.prems(1) row n show ?case by (simp add: Let_def)
qed simp

lemma used_number [simp]: "used (number es ds) = used ds"
  by (induction ds arbitrary: es) (auto simp: Let_def mentions_def)

text \<open>
  The drafts apply one after the other, each to the projection of what precedes it; the
  sequence number it will get matters to no check.
\<close>

fun applies :: "externals \<Rightarrow> event_envelope list \<Rightarrow> projection \<Rightarrow> event_envelope list \<Rightarrow> projection option" where
  "applies X es p [] = Some p"
| "applies X es p (d # ds) =
     (let env = d\<lparr>en_seq := Suc (length (events_of_thread (en_thread_id d) es))\<rparr> in
      case apply_event X p env (en_event env) of
        (q, Inr _) \<Rightarrow> applies X (es @ [env]) (record_event q env) ds
      | (q, Inl _) \<Rightarrow> None)"

lemma envelope_fits:
  assumes "distinct (map en_event_id (es @ [env]))" and "accepts PROTOCOL_VERSION (en_schema_version env)"
    and "en_seq env = Suc (length (events_of_thread (en_thread_id env) es))"
    and "length es < u64_max" and "replay X es = Ok p"
  shows "check_envelope p env = Ok ()"
proof -
  have c: "contiguous es p" using replay_contiguous [OF assms(5)] assms(4) by simp
  have "length (events_of_thread (en_thread_id env) es) < u64_max"
    using assms(4) le_less_trans [OF length_filter_le [of "\<lambda>x. en_thread_id x = en_thread_id env" es]]
    by (simp add: events_of_thread_def)
  then show ?thesis
    using c assms(1-3) by (auto simp: check_envelope_Ok contiguous_def wrapping_add_small)
qed

lemma applies_replay:
  assumes "replay X es = Ok p" and "applies X es p ds = Some p'"
    and "distinct (map en_event_id (es @ number es ds))"
    and "\<forall>d \<in> set ds. accepts PROTOCOL_VERSION (en_schema_version d)" and "length es + length ds < u64_max"
  shows "replay X (es @ number es ds) = Ok p'"
  using assms
proof (induction ds arbitrary: es p)
  case (Cons d ds)
  let ?env = "d\<lparr>en_seq := Suc (length (events_of_thread (en_thread_id d) es))\<rparr>"
  obtain q where q: "apply_event X p ?env (en_event ?env) = (q, Ok ())" "applies X (es @ [?env]) (record_event q ?env) ds = Some p'"
    using Cons.prems(2) by (auto simp: Let_def split: prod.splits sum.splits)
  have "check_envelope p ?env = Ok ()"
    using Cons.prems by (intro envelope_fits [of es]) (auto simp: Let_def)
  then have "replay X (es @ [?env]) = Ok (record_event q ?env)"
    using q(1) Cons.prems(1) unfolding replay_def replays.run_snoc by (auto simp: apply_step_Ok)
  from Cons.IH [OF this q(2)] Cons.prems show ?case by (simp add: Let_def)
qed simp

section \<open>Symbolic execution\<close>

text \<open>The generator never returns an identifier twice (UUIDv7 is documented to be unique).\<close>

definition ids_distinct :: "'w service \<Rightarrow> bool" where
  "ids_distinct S \<longleftrightarrow> (\<forall>j k u. sv_ids S j = Ok u \<longrightarrow> sv_ids S k = Ok u \<longrightarrow> j = k)"

text \<open>
  The ledger holds the history \<open>es\<close>, whose projection is \<open>p\<close>; the identifiers \<open>us\<close> were
  drawn and not yet stored, and none that is still to be drawn has been seen. \<open>R\<close> is what
  else is known of the ledger until something is stored.
\<close>

text \<open>
  What a task may append: the history extends a base by events of an allowed kind, which use
  no identifier that is reserved for another task.
\<close>

datatype growth =
  Growth (gr_base: "event_envelope list") (gr_reserved: "uuid set") (gr_allows: "turn_id option \<Rightarrow> event \<Rightarrow> bool")

definition grown :: "growth \<Rightarrow> event_envelope list \<Rightarrow> bool" where
  "grown G es \<longleftrightarrow> (\<exists>ds. es = gr_base G @ ds \<and> (\<forall>e \<in> set ds. gr_allows G (en_turn_id e) (en_event e)))"

lemma grown_refl [simp]: "grown (Growth es V A) es"
  by (simp add: grown_def)

lemma grown_any [simp]: "grown (Growth [] V (\<lambda>_ _. True)) es"
  by (simp add: grown_def)

lemma allows_number:
  "\<forall>e \<in> set ds. gr_allows G (en_turn_id e) (en_event e) \<Longrightarrow> \<forall>e \<in> set (number es ds). gr_allows G (en_turn_id e) (en_event e)"
  by (induction ds arbitrary: es) (auto simp: Let_def)

lemma grown_number:
  assumes "grown G es" and "\<forall>e \<in> set ds. gr_allows G (en_turn_id e) (en_event e)"
  shows "grown G (es @ number es ds)"
proof -
  obtain bs where "es = gr_base G @ bs" "\<forall>e \<in> set bs. gr_allows G (en_turn_id e) (en_event e)"
    using assms(1) by (auto simp: grown_def)
  with allows_number [OF assms(2), of es] show ?thesis
    unfolding grown_def by (intro exI [of _ "bs @ number es ds"]) auto
qed

definition at_history ::
  "'w service \<Rightarrow> growth \<Rightarrow> (ledger \<Rightarrow> bool) \<Rightarrow> event_envelope list \<Rightarrow> projection \<Rightarrow> uuid list \<Rightarrow> 'w daemon \<Rightarrow> bool" where
  "at_history S G R es p us d \<longleftrightarrow>
     R (dm_ledger d) \<and> grown G es \<and> holds_envelopes (sv_codec S) (sv_externals S) UNIV (dm_ledger d) es \<and> replay (sv_externals S) es = Ok p \<and>
     ids_distinct S \<and> distinct us \<and> set us \<inter> used es = {} \<and> gr_reserved G \<inter> (used es \<union> set us) = {} \<and>
     (\<forall>k u. dm_ids d \<le> k \<longrightarrow> sv_ids S k = Ok u \<longrightarrow> u \<notin> used es \<union> set us \<union> gr_reserved G)"

definition grown_ok :: "'w service \<Rightarrow> growth \<Rightarrow> 'w daemon \<Rightarrow> bool" where
  "grown_ok S G d \<longleftrightarrow> (\<exists>es p. at_history S G (\<lambda>_. True) es p [] d)"

lemma at_history_any: "at_history S G R es p us d \<Longrightarrow> at_history S G (\<lambda>_. True) es p us d"
  by (simp add: at_history_def)

lemma at_history_fewer: "at_history S G R es p us d \<Longrightarrow> at_history S G R es p [] d"
  by (auto simp: at_history_def)

lemma at_history_ok: "at_history S G R es p us d \<Longrightarrow> grown_ok S G d"
  unfolding grown_ok_def using at_history_fewer at_history_any by blast

text \<open>The ledger is sound, however it came about.\<close>

definition daemon_ok :: "'w service \<Rightarrow> 'w daemon \<Rightarrow> bool" where
  "daemon_ok S d \<longleftrightarrow> (\<exists>es p. at_history S (Growth [] {} (\<lambda>_ _. True)) (\<lambda>_. True) es p [] d)"

lemma at_history_grown:
  "at_history S G R es p us d \<Longrightarrow> grown G' es \<Longrightarrow> gr_reserved G' \<subseteq> gr_reserved G \<Longrightarrow> at_history S G' R es p us d"
  by (auto simp: at_history_def)

lemma grown_ok_sound: "grown_ok S G d \<Longrightarrow> daemon_ok S d"
  unfolding grown_ok_def daemon_ok_def using at_history_grown [of S G _ _ _ _ d "Growth [] {} (\<lambda>_ _. True)"] by fastforce

lemma daemon_ok_grown: "daemon_ok S d \<Longrightarrow> \<exists>B. grown_ok S (Growth (fst B) (snd B) A) d"
  unfolding grown_ok_def daemon_ok_def using at_history_grown [OF _ grown_refl] by (metis bot.extremum fst_conv growth.sel(2) snd_conv)

lemma daemon_ok_projects:
  assumes "daemon_ok S d"
  shows "\<exists>p. project_core (sv_codec S) (sv_externals S) (dm_ledger d) = Ok p \<and> proj_ok (sv_externals S) p"
proof -
  obtain es p where "holds_envelopes (sv_codec S) (sv_externals S) UNIV (dm_ledger d) es" "replay (sv_externals S) es = Ok p"
    using assms by (auto simp: daemon_ok_def at_history_def)
  then show ?thesis using project_core_eq [of "sv_codec S" "sv_externals S" UNIV "dm_ledger d" es] replay_proj_ok by auto
qed

lemma at_history_cong:
  "dm_ledger d' = dm_ledger d \<Longrightarrow> dm_ids d' = dm_ids d \<Longrightarrow> at_history S G R es p us d' = at_history S G R es p us d"
  by (simp add: at_history_def)

lemma at_history_other [simp]:
  "at_history S G R es p us (d\<lparr>dm_sent := x\<rparr>) = at_history S G R es p us d"
  "at_history S G R es p us (d\<lparr>dm_clock := c\<rparr>) = at_history S G R es p us d"
  "at_history S G R es p us (d\<lparr>dm_world := w\<rparr>) = at_history S G R es p us d"
  "at_history S G R es p us (d\<lparr>dm_active := a\<rparr>) = at_history S G R es p us d"
  by (simp_all add: at_history_def)

text \<open>From a state in \<open>P\<close> an operation ends in \<open>Q\<close>, or fails and leaves the daemon sound.\<close>

definition valid_run ::
  "'w service \<Rightarrow> growth \<Rightarrow> ('w daemon \<Rightarrow> bool) \<Rightarrow> ('w daemon, 'e, 'a) act \<Rightarrow> ('a \<Rightarrow> 'w daemon \<Rightarrow> bool) \<Rightarrow> bool" where
  "valid_run S G P m Q \<longleftrightarrow>
     (\<forall>d d' r. P d \<longrightarrow> m d = (d', r) \<longrightarrow> (case r of Inl _ \<Rightarrow> grown_ok S G d' | Inr x \<Rightarrow> Q x d'))"

lemma valid_runI:
  "(\<And>d d' e. P d \<Longrightarrow> m d = (d', Err e) \<Longrightarrow> grown_ok S G d') \<Longrightarrow> (\<And>d d' x. P d \<Longrightarrow> m d = (d', Ok x) \<Longrightarrow> Q x d') \<Longrightarrow>
   valid_run S G P m Q"
  by (auto simp: valid_run_def split: prod.splits sum.splits)

lemma valid_runD:
  assumes "valid_run S G P m Q" and "P d" and "m d = (d', r)"
  shows "case r of Inl _ \<Rightarrow> grown_ok S G d' | Inr x \<Rightarrow> Q x d'"
  using assms by (auto simp: valid_run_def split: prod.splits sum.splits)

lemma run_bind:
  assumes "valid_run S G P m R" and "\<And>x. valid_run S G (R x) (f x) Q"
  shows "valid_run S G P (abind m f) Q"
  unfolding valid_run_def
proof (intro allI impI)
  fix d d' r assume d: "P d" and run: "abind m f d = (d', r)"
  obtain d1 r1 where m: "m d = (d1, r1)" by fastforce
  show "case r of Inl _ \<Rightarrow> grown_ok S G d' | Inr x \<Rightarrow> Q x d'"
  proof (cases r1)
    case (Inl e)
    then show ?thesis using valid_runD [OF assms(1) d m] run m by (auto simp: abind_def)
  next
    case (Inr x)
    then have "R x d1" and "f x d1 = (d', r)" using valid_runD [OF assms(1) d m] run m by (auto simp: abind_def)
    then show ?thesis by (rule valid_runD [OF assms(2)])
  qed
qed

lemma run_post: "valid_run S G P m Q \<Longrightarrow> (\<And>x d. Q x d \<Longrightarrow> R x d) \<Longrightarrow> valid_run S G P m R"
  by (force simp: valid_run_def split: sum.splits)

lemma run_pre: "valid_run S G P m Q \<Longrightarrow> (\<And>d. R d \<Longrightarrow> P d) \<Longrightarrow> valid_run S G R m Q"
  by (auto simp: valid_run_def)

lemma run_return [run_rules]:
  "(\<And>d. P d \<Longrightarrow> Q x d) \<Longrightarrow> valid_run S G P (areturn x) Q"
  by (auto simp: valid_run_def areturn_def)

lemma run_fail [run_rules]:
  "valid_run S G (at_history S G R es p us) (afail e) Q" "valid_run S G (grown_ok S G) (afail e) Q"
  by (auto simp: valid_run_def afail_def intro: at_history_ok)

lemma run_Let [run_rules]: "valid_run S G P (f x) Q \<Longrightarrow> valid_run S G P (Let x f) Q"
  by simp

lemma run_if [run_rules]:
  "(b \<Longrightarrow> valid_run S G P m Q) \<Longrightarrow> (\<not> b \<Longrightarrow> valid_run S G P n Q) \<Longrightarrow> valid_run S G P (if b then m else n) Q"
  by simp

lemma run_option [run_rules]:
  "(o' = None \<Longrightarrow> valid_run S G P m Q) \<Longrightarrow> (\<And>x. o' = Some x \<Longrightarrow> valid_run S G P (f x) Q) \<Longrightarrow>
   valid_run S G P (case o' of None \<Rightarrow> m | Some x \<Rightarrow> f x) Q"
  by (cases o') auto

lemma run_unless_some [run_rules]:
  assumes "v = None \<Longrightarrow> valid_run S G P (f ()) Q" and "\<And>d. P d \<Longrightarrow> grown_ok S G d"
  shows "valid_run S G P (abind (case v of None \<Rightarrow> areturn () | Some x \<Rightarrow> afail (g x)) f) Q"
  using assms by (cases v) (auto simp: valid_run_def abind_def areturn_def afail_def)

lemma run_lift [run_rules]:
  assumes "\<And>x. r = Ok x \<Longrightarrow> valid_run S G P (f x) Q" and "\<And>d. P d \<Longrightarrow> grown_ok S G d"
  shows "valid_run S G P (abind (alift r) f) Q"
  using assms by (cases r) (auto simp: valid_run_def abind_def alift_def)

lemma run_guard [run_rules]:
  assumes "b \<Longrightarrow> valid_run S G P (f ()) Q" and "\<And>d. P d \<Longrightarrow> grown_ok S G d"
  shows "valid_run S G P (abind (aguard b e) f) Q" and "valid_run S G P (abind (fail_unless b code message) f) Q"
  using assms by (auto simp: valid_run_def abind_def aguard_def areturn_def afail_def fail_unless_def)

lemma run_projection_at [run_rules]:
  assumes "\<And>es p. valid_run S G (at_history S G R es p []) (f p) Q"
  shows "valid_run S G (\<lambda>d. grown_ok S G d \<and> R (dm_ledger d)) (abind (read_projection S) f) Q"
  unfolding valid_run_def
proof (intro allI impI)
  fix d d' r assume "grown_ok S G d \<and> R (dm_ledger d)" and run: "abind (read_projection S) f d = (d', r)"
  then obtain es p where h: "at_history S G R es p [] d" by (auto simp: grown_ok_def at_history_def)
  then have "read_projection S d = (d, Ok p)"
    using project_core_eq [of "sv_codec S" "sv_externals S" UNIV "dm_ledger d" es] by (simp add: read_projection_def at_history_def)
  then have "f p d = (d', r)" using run by (simp add: abind_def)
  then show "case r of Inl _ \<Rightarrow> grown_ok S G d' | Inr x \<Rightarrow> Q x d'" by (rule valid_runD [OF assms h])
qed

lemmas run_projection [run_rules] = run_projection_at [where R = "\<lambda>_. True", simplified]

text \<open>The operations that leave the ledger and the generator alone.\<close>

lemma run_unchanged:
  assumes "\<And>d d' r. m d = (d', r) \<Longrightarrow> dm_ledger d' = dm_ledger d \<and> dm_ids d' = dm_ids d"
    and "\<And>x. valid_run S G (at_history S G R es p us) (f x) Q"
  shows "valid_run S G (at_history S G R es p us) (abind m f) Q"
  by (rule run_bind [where R = "\<lambda>_. at_history S G R es p us"], rule valid_runI)
    (use assms at_history_cong at_history_ok in \<open>metis+\<close>)

lemma run_clock [run_rules]:
  "(\<And>t. valid_run S G (at_history S G R es p us) (f t) Q) \<Longrightarrow> valid_run S G (at_history S G R es p us) (abind (clock_now S) f) Q"
  by (rule run_unchanged) (auto simp: clock_now_def)

lemma run_files [run_rules]:
  "(\<And>x. valid_run S G (at_history S G R es p us) (f x) Q) \<Longrightarrow> valid_run S G (at_history S G R es p us) (abind (on_files S m) f) Q"
  by (rule run_unchanged) (auto simp: on_files_def split: prod.splits)

lemma run_files_ok [run_rules]:
  assumes "\<And>x. valid_run S G (grown_ok S G) (f x) Q"
  shows "valid_run S G (grown_ok S G) (abind (on_files S m) f) Q"
proof (rule run_bind)
  have "grown_ok S G (d\<lparr>dm_world := w\<rparr>) = grown_ok S G d" for d w
    by (simp add: grown_ok_def)
  then show "valid_run S G (grown_ok S G) (on_files S m) (\<lambda>_. grown_ok S G)"
    by (auto simp: valid_run_def on_files_def split: prod.splits sum.splits)
qed (rule assms)

lemma run_cancel [run_rules]:
  assumes "valid_run S G (grown_ok S G) (f ()) Q"
  shows "valid_run S G (grown_ok S G) (abind (request_turn_cancel t) f) Q"
proof (rule run_bind)
  have "grown_ok S G (d\<lparr>dm_active := a\<rparr>) = grown_ok S G d" for d a
    by (simp add: grown_ok_def)
  then show "valid_run S G (grown_ok S G) (request_turn_cancel t) (\<lambda>_. grown_ok S G)"
    by (auto simp: valid_run_def request_turn_cancel_def)
qed (use assms in simp)

text \<open>A drawn identifier is new.\<close>

lemma draw_uuid:
  assumes "at_history S G R es p us d"
  shows "at_history S G R es p us (d\<lparr>dm_ids := Suc (dm_ids d)\<rparr>)"
    and "sv_ids S (dm_ids d) = Ok u \<Longrightarrow> at_history S G R es p (u # us) (d\<lparr>dm_ids := Suc (dm_ids d)\<rparr>)"
proof -
  show "at_history S G R es p us (d\<lparr>dm_ids := Suc (dm_ids d)\<rparr>)"
    using assms by (auto simp: at_history_def dest: Suc_leD)
  assume u: "sv_ids S (dm_ids d) = Ok u"
  have "v \<noteq> u" if "Suc (dm_ids d) \<le> k" "sv_ids S k = Ok v" for k v
    using assms u that unfolding at_history_def ids_distinct_def by (metis Suc_n_not_le_n)
  then show "at_history S G R es p (u # us) (d\<lparr>dm_ids := Suc (dm_ids d)\<rparr>)"
    using assms u by (auto simp: at_history_def dest: Suc_leD)
qed

lemma run_uuid [run_rules]:
  assumes "\<And>u. valid_run S G (at_history S G R es p (u # us)) (f u) Q"
  shows "valid_run S G (at_history S G R es p us) (abind (next_uuid S) f) Q"
proof (rule run_bind [OF _ assms], rule valid_runI)
  fix d d' e assume "at_history S G R es p us d" and "next_uuid S d = (d', Err e)"
  then show "grown_ok S G d'" using draw_uuid(1) [THEN at_history_ok] by (auto simp: next_uuid_def)
next
  fix d d' u assume "at_history S G R es p us d" and "next_uuid S d = (d', Ok u)"
  then show "at_history S G R es p (u # us) d'" using draw_uuid(2) by (auto simp: next_uuid_def)
qed

text \<open>The input of a new event.\<close>

lemma new_event_eq:
  assumes "port_codec_ok (sv_codec S) (sv_externals S) UNIV"
  shows "new_event S t turn agent command time ev =
    abind (next_uuid S) (\<lambda>u. areturn (input_of (sv_codec S) (sv_externals S)
      (draft u t turn agent time (uuid_str (sv_externals S) command) ev)))"
proof -
  have "json_get (cd_event_value (sv_codec S) ev) ''kind'' = Some (JString (event_kind ev))"
    using assms unfolding port_codec_ok_def by auto
  then show ?thesis
    by (simp add: new_event_def Let_def json_as_str_def ok_or_def alift_def abind_def input_of_def draft_def fun_eq_iff)
qed

lemma at_history_codec: "at_history S G R es p us d \<Longrightarrow> port_codec_ok (sv_codec S) (sv_externals S) UNIV"
  by (simp add: at_history_def holds_envelopes_def)

lemma run_codec:
  assumes "port_codec_ok (sv_codec S) (sv_externals S) UNIV \<Longrightarrow> valid_run S G (at_history S G R es p us) m Q"
  shows "valid_run S G (at_history S G R es p us) m Q"
  using assms at_history_codec unfolding valid_run_def by blast

lemma run_new_event [run_rules]:
  assumes "\<And>u. valid_run S G (at_history S G R es p (u # us))
    (f (input_of (sv_codec S) (sv_externals S) (draft u t turn agent time (uuid_str (sv_externals S) command) ev))) Q"
  shows "valid_run S G (at_history S G R es p us) (abind (new_event S t turn agent command time ev) f) Q"
proof (rule run_codec)
  assume C: "port_codec_ok (sv_codec S) (sv_externals S) UNIV"
  have "abind (new_event S t turn agent command time ev) f =
      abind (next_uuid S) (\<lambda>u. f (input_of (sv_codec S) (sv_externals S)
        (draft u t turn agent time (uuid_str (sv_externals S) command) ev)))"
    by (simp add: new_event_eq [OF C] abind_def areturn_def fun_eq_iff split: prod.splits sum.splits)
  then show "valid_run S G (at_history S G R es p us) (abind (new_event S t turn agent command time ev) f) Q"
    using assms by (simp add: run_uuid)
qed

section \<open>Committing\<close>

text \<open>Stored drafts extend the history, and its projection by what they apply.\<close>

lemma pushed_history:
  assumes h: "at_history S G R es p us d" and ap: "applies (sv_externals S) es p ds = Some p'"
    and ds: "\<forall>e \<in> set ds. en_schema_version e = PROTOCOL_VERSION \<and> gr_allows G (en_turn_id e) (en_event e)" and ids: "used ds \<subseteq> used es \<union> set us"
    and wf: "ledger_wf db'" and rows: "history db' = history (dm_ledger d) @ assign (dm_ledger d) (map (input_of (sv_codec S) (sv_externals S)) ds)"
    and d': "dm_ledger d' = db'" "dm_ids d' = dm_ids d"
  shows "at_history S G (\<lambda>_. True) (es @ number es ds) p' [] d'"
proof -
  have C: "port_codec_ok (sv_codec S) (sv_externals S) UNIV" by (rule at_history_codec [OF h])
  have acc: "\<forall>e \<in> set ds. accepts PROTOCOL_VERSION (en_schema_version e)" using ds by (simp add: accepts_def)
  have old: "list_all2 (row_of (sv_codec S) (sv_externals S) UNIV) es (history (dm_ledger d))"
    using h by (simp add: at_history_def holds_envelopes_def)
  have "list_all2 (row_of (sv_codec S) (sv_externals S) UNIV) (es @ number es ds) (history db')"
    unfolding rows by (rule list_all2_appendI [OF old assign_rows [OF C acc old]])
  then have new: "holds_envelopes (sv_codec S) (sv_externals S) UNIV (dm_ledger d') (es @ number es ds)"
    using C wf d' by (simp add: holds_envelopes_def)
  have len: "length (number es ds) = length ds" by (induction ds arbitrary: es) (auto simp: Let_def)
  have "replay (sv_externals S) (es @ number es ds) = Ok p'"
  proof (rule applies_replay [OF _ ap _ acc])
    show "replay (sv_externals S) es = Ok p" using h by (simp add: at_history_def)
    show "distinct (map en_event_id (es @ number es ds))" using holds_complete [OF new] by blast
    show "length es + length ds < u64_max" using holds_complete [OF new] len i64_below_u64 by auto
  qed
  with new grown_number [of G es ds] show ?thesis using h ids d' ds by (auto simp: at_history_def)
qed

lemma run_send:
  assumes "\<And>d. Q d \<Longrightarrow> grown_ok S G d" and "\<And>d xs. Q (d\<lparr>dm_sent := xs\<rparr>) = Q d"
  shows "valid_run S G Q (send_events S rows) (\<lambda>_. Q)"
proof (induction rows)
  case Nil
  then show ?case by (simp add: run_return)
next
  case (Cons row rows)
  have "valid_run S G Q (\<lambda>d. (d\<lparr>dm_sent := dm_sent d @ [e]\<rparr>, Ok ())) (\<lambda>_. Q)" for e
    using assms(2) by (auto simp: valid_run_def)
  then show ?case using assms(1) by (auto intro!: run_lift run_bind [where R = "\<lambda>_. Q" and f = "\<lambda>_. send_events S rows"] Cons.IH)
qed

text \<open>Committing drafts: they are stored, or the command had been stored before and nothing happens.\<close>

lemma run_commit:
  assumes ap: "applies (sv_externals S) es p ds = Some p'" and ds: "\<forall>e \<in> set ds. en_schema_version e = PROTOCOL_VERSION \<and> gr_allows G (en_turn_id e) (en_event e)"
    and ids: "used ds \<subseteq> used es \<union> set us"
  shows "valid_run S G (at_history S G R es p us)
    (commit_events S command method digest response (map (input_of (sv_codec S) (sv_externals S)) ds))
    (\<lambda>x d. at_history S G R es p [] d \<and> uuid_str (sv_externals S) command \<in> receipt_ids (dm_ledger d) \<or>
       at_history S G (\<lambda>_. True) (es @ number es ds) p' [] d \<and> x = response)"
  (is "valid_run S G ?P ?m ?Q")
proof -
  let ?inputs = "map (input_of (sv_codec S) (sv_externals S)) ds"
  let ?R = "\<lambda>c d. at_history S G R es p [] d \<and> uuid_str (sv_externals S) command \<in> receipt_ids (dm_ledger d) \<or>
    at_history S G (\<lambda>_. True) (es @ number es ds) p' [] d \<and> cb_response c = response"
  have commit: "valid_run S G ?P (on_ledger (\<lambda>e. internal S (LedgerCause e))
      (\<lambda>db. append_batch_with_receipt (cd_stored (sv_codec S)) db ?inputs (receipt_of S command method digest response time))) ?R"
    (is "valid_run S G ?P ?t ?R") for time
  proof (rule valid_runI)
    fix d d' e assume "?P d" and "?t d = (d', Err e)"
    then show "grown_ok S G d'" by (auto simp: on_ledger_def intro: at_history_ok split: sum.splits prod.splits)
  next
    fix d d' c assume h: "?P d" and "?t d = (d', Ok c)"
    then obtain db where ok: "append_batch_with_receipt (cd_stored (sv_codec S)) (dm_ledger d) ?inputs
          (receipt_of S command method digest response time) = Ok (db, c)" and d': "d' = d\<lparr>dm_ledger := db\<rparr>"
      by (auto simp: on_ledger_def split: sum.splits prod.splits)
    have wf: "ledger_wf (dm_ledger d)" using h by (simp add: at_history_def holds_envelopes_def)
    note r = append_batch_with_receipt_Ok [OF wf ok]
    show "?R c d'"
    proof (cases "cb_replayed c")
      case True
      then have "d' = d" using r d' by simp
      moreover have "uuid_str (sv_externals S) command \<in> receipt_ids (dm_ledger d)"
        using True r get_receipt_None [of "cd_stored (sv_codec S)" "dm_ledger d" "uuid_str (sv_externals S) command"]
        by (auto simp: receipt_of_def)
      ultimately show ?thesis using at_history_fewer [OF h] by simp
    next
      case False
      then have "at_history S G (\<lambda>_. True) (es @ number es ds) p' [] d'"
        using r d' by (intro pushed_history [OF h ap ds ids]) auto
      then show ?thesis using r False by (simp add: receipt_of_def)
    qed
  qed
  have sent: "valid_run S G (?R c) (send_events S (cb_events c)) (\<lambda>_. ?R c)" for c
    by (rule run_send) (auto intro: at_history_ok)
  show ?thesis
    unfolding commit_events_def
    by (rule run_clock, rule run_bind [OF commit], rule run_bind [OF sent], rule run_return) auto
qed

text \<open>The forms in which the handlers commit.\<close>

definition commits :: "'w service \<Rightarrow> growth \<Rightarrow> event_envelope list \<Rightarrow> projection \<Rightarrow> uuid list \<Rightarrow> event_envelope list \<Rightarrow> bool" where
  "commits S G es p us ds \<longleftrightarrow>
     applies (sv_externals S) es p ds \<noteq> None \<and> (\<forall>e \<in> set ds. en_schema_version e = PROTOCOL_VERSION \<and> gr_allows G (en_turn_id e) (en_event e)) \<and>
     used ds \<subseteq> used es \<union> set us"

text \<open>What is known of a history and the identifiers drawn since.\<close>

definition history_facts :: "'w service \<Rightarrow> event_envelope list \<Rightarrow> projection \<Rightarrow> uuid list \<Rightarrow> bool" where
  "history_facts S es p us \<longleftrightarrow>
     proj_ok (sv_externals S) p \<and> entities p \<subseteq> used es \<and> distinct us \<and> set us \<inter> used es = {} \<and>
     (\<forall>t. last_seq p t = length (events_of_thread t es))"

lemma at_history_facts: "at_history S G R es p us d \<Longrightarrow> history_facts S es p us"
proof -
  assume h: "at_history S G R es p us d"
  then have r: "replay (sv_externals S) es = Ok p" by (simp add: at_history_def)
  have "length es < u64_max"
    using h holds_complete [of "sv_codec S" "sv_externals S" UNIV "dm_ledger d" es] i64_below_u64 by (simp add: at_history_def)
  then have "contiguous es p" using replay_contiguous [OF r] by simp
  then show ?thesis
    using h entities_used [OF r] replay_proj_ok [OF r] by (auto simp: at_history_def history_facts_def contiguous_def)
qed

lemma run_commit_ok:
  assumes "history_facts S es p us \<Longrightarrow> commits S G es p us ds"
  shows "valid_run S G (at_history S G R es p us)
    (commit_events S command method digest response (map (input_of (sv_codec S) (sv_externals S)) ds)) (\<lambda>_. grown_ok S G)"
proof (cases "history_facts S es p us")
  case True
  then obtain p' where p': "applies (sv_externals S) es p ds = Some p'" using assms by (auto simp: commits_def)
  have ds: "\<forall>e \<in> set ds. en_schema_version e = PROTOCOL_VERSION \<and> gr_allows G (en_turn_id e) (en_event e)" "used ds \<subseteq> used es \<union> set us"
    using assms True by (auto simp: commits_def)
  show ?thesis by (rule run_post [OF run_commit [OF p' ds]]) (auto intro: at_history_ok)
next
  case False
  then show ?thesis using at_history_facts unfolding valid_run_def by blast
qed

lemma run_commit_bind:
  assumes "history_facts S es p us \<Longrightarrow> commits S G es p us ds" and "\<And>x. valid_run S G (grown_ok S G) (f x) Q"
  shows "valid_run S G (at_history S G R es p us)
    (abind (commit_events S command method digest response (map (input_of (sv_codec S) (sv_externals S)) ds)) f) Q"
  by (rule run_bind [OF run_commit_ok]) (use assms in auto)

lemmas run_commit_forms [run_rules] =
  run_commit_ok [where ds = "[e]" for e, unfolded list.map] run_commit_bind [where ds = "[e]" for e, unfolded list.map]
  run_commit_bind [where ds = "[e, f]" for e f, unfolded list.map]

text \<open>Recording a receipt.\<close>

lemma receipt_history:
  assumes "record_command_receipt stored (dm_ledger d) r = Ok (db, c)" and "at_history S G R es p us d"
  shows "at_history S G (\<lambda>_. True) es p us (d\<lparr>dm_ledger := db\<rparr>)"
proof -
  have "ledger_wf (dm_ledger d)" using assms(2) by (simp add: at_history_def holds_envelopes_def)
  from record_command_receipt_Ok [OF this assms(1)] show ?thesis
    using assms(2) by (auto simp: at_history_def holds_envelopes_def)
qed

lemma run_receipt_ok [run_rules]:
  assumes "\<And>x. valid_run S G (grown_ok S G) (f x) Q"
  shows "valid_run S G (grown_ok S G) (abind (on_ledger g (\<lambda>db. record_command_receipt stored db r)) f) Q"
proof (rule run_bind [OF _ assms])
  show "valid_run S G (grown_ok S G) (on_ledger g (\<lambda>db. record_command_receipt stored db r)) (\<lambda>_. grown_ok S G)"
    by (auto simp: valid_run_def on_ledger_def grown_ok_def split: sum.splits prod.splits dest: receipt_history)
qed

lemma run_receipt [run_rules]:
  assumes "\<And>x. valid_run S G (grown_ok S G) (f x) Q"
  shows "valid_run S G (at_history S G R es p us) (abind (on_ledger g (\<lambda>db. record_command_receipt stored db r)) f) Q"
  by (rule run_pre [OF run_receipt_ok [OF assms]]) (rule at_history_ok)

lemma run_clock_ok [run_rules]:
  assumes "\<And>t. valid_run S G (grown_ok S G) (f t) Q"
  shows "valid_run S G (grown_ok S G) (abind (clock_now S) f) Q"
  by (rule run_bind [OF _ assms]) (auto simp: valid_run_def clock_now_def grown_ok_def)

section \<open>The handlers keep the daemon sound\<close>

lemma entityD:
  assumes "history_facts S es p us"
  shows "bt_get (pr_workspaces p) k = Some w \<Longrightarrow> k \<in> used es" "bt_get (pr_threads p) k = Some t \<Longrightarrow> k \<in> used es"
    and "bt_get (pr_turns p) k = Some u \<Longrightarrow> k \<in> used es \<and> tu_thread_id u \<in> used es"
    and "bt_get (pr_items p) k = Some i \<Longrightarrow> k \<in> used es" "bt_get (pr_invocations p) k = Some v \<Longrightarrow> pv_thread_id v \<in> used es"
    and "bt_get (pr_jobs p) k = Some j \<Longrightarrow> js_workspace_id (pj_spec j) \<in> used es" "bt_get (pr_invocations p) k = Some v \<Longrightarrow> k \<in> used es"
  using assms unfolding history_facts_def entities_def by (blast+)

lemma thread_parents:
  assumes "history_facts S es p us" and "bt_get (pr_threads p) k = Some t"
  shows "th_id t = k" and "\<exists>w. bt_get (pr_workspaces p) (th_workspace_id t) = Some w"
  using assms by (auto simp: history_facts_def proj_ok_def keys_ok_def parents_ok_def bt_contains_def)

lemma fresh_entity:
  assumes "history_facts S es p us" and "k \<in> set us"
  shows "bt_get (pr_workspaces p) k = None" "bt_get (pr_threads p) k = None" "bt_get (pr_turns p) k = None" "bt_get (pr_items p) k = None"
    and "k \<notin> used es" "bt_get (pr_invocations p) k = None"
  using assms unfolding history_facts_def entities_def by (blast+)

lemmas commit_simps = commits_def Let_def mentions_def handler_defs bt_contains_def fresh_entity

lemma abind_assoc: "abind (abind m f) g = abind m (\<lambda>x. abind (f x) g)"
  by (simp add: abind_def fun_eq_iff split: prod.splits sum.splits)

lemma abind_return: "abind (areturn x) f = f x"
  by (simp add: abind_def areturn_def fun_eq_iff)

text \<open>A transaction that stores exactly these drafts, or nothing.\<close>

definition stores :: "'w service \<Rightarrow> (ledger \<Rightarrow> (ledger_error, ledger \<times> 'a) rust_result) \<Rightarrow> event_envelope list \<Rightarrow> bool" where
  "stores S t ds \<longleftrightarrow>
     (\<forall>db db' x. ledger_wf db \<longrightarrow> t db = Ok (db', x) \<longrightarrow> ledger_wf db' \<and>
        (history db' = history db \<or> history db' = history db @ assign db (map (input_of (sv_codec S) (sv_externals S)) ds)))"

lemma stored_history:
  assumes h: "at_history S G R es p us d" and t: "stores S t ds" and ok: "t (dm_ledger d) = Ok (db, x)" and ds: "commits S G es p us ds"
  shows "at_history S G (\<lambda>_. True) es p [] (d\<lparr>dm_ledger := db\<rparr>) \<or>
    at_history S G (\<lambda>_. True) (es @ number es ds) (the (applies (sv_externals S) es p ds)) [] (d\<lparr>dm_ledger := db\<rparr>)"
proof -
  have wf: "ledger_wf (dm_ledger d)" using h by (simp add: at_history_def holds_envelopes_def)
  then have wf': "ledger_wf db" and cases: "history db = history (dm_ledger d) \<or>
      history db = history (dm_ledger d) @ assign (dm_ledger d) (map (input_of (sv_codec S) (sv_externals S)) ds)"
    using t ok by (auto simp: stores_def)
  from cases show ?thesis
  proof
    assume "history db = history (dm_ledger d)"
    then show ?thesis using h wf' by (auto simp: at_history_def holds_envelopes_def)
  next
    assume "history db = history (dm_ledger d) @ assign (dm_ledger d) (map (input_of (sv_codec S) (sv_externals S)) ds)"
    from pushed_history [OF h _ _ _ wf' this] ds show ?thesis by (auto simp: commits_def)
  qed
qed

lemma run_stores:
  assumes t: "stores S t ds" and "history_facts S es p us \<Longrightarrow> commits S G es p us ds"
  shows "valid_run S G (at_history S G R es p us) (on_ledger g t) (\<lambda>_. grown_ok S G)"
proof (rule valid_runI)
  fix d d' e assume "at_history S G R es p us d" and "on_ledger g t d = (d', Err e)"
  then show "grown_ok S G d'" by (auto simp: on_ledger_def intro: at_history_ok split: sum.splits prod.splits)
next
  fix d d' x assume h: "at_history S G R es p us d" and "on_ledger g t d = (d', Ok x)"
  then show "grown_ok S G d'"
    using stored_history [OF h t _ assms(2) [OF at_history_facts [OF h]]]
    by (auto simp: on_ledger_def intro: at_history_ok split: sum.splits prod.splits)
qed

text \<open>A call of the ledger, with the error of the caller.\<close>

definition ledger_call :: "(ledger_error \<Rightarrow> 'e) \<Rightarrow> (ledger \<Rightarrow> (ledger_error, ledger \<times> 'a) rust_result) \<Rightarrow> ('w daemon, 'e, 'a) act" where
  "ledger_call err t d = (case t (dm_ledger d) of Inl e \<Rightarrow> (d, Err (err e)) | Inr (db, x) \<Rightarrow> (d\<lparr>dm_ledger := db\<rparr>, Ok x))"

lemma list_all2_member: "list_all2 P xs ys \<Longrightarrow> x \<in> set xs \<Longrightarrow> \<exists>y \<in> set ys. P x y"
  by (induction rule: list_all2_induct) auto

text \<open>An identifier that was drawn is not the identifier of a stored event.\<close>

lemma drawn_not_stored:
  assumes h: "at_history S G R es p us d" and "u \<in> set us"
  shows "uuid_str (sv_externals S) u \<notin> stored_ids (dm_ledger d)"
proof
  have rows: "list_all2 (row_of (sv_codec S) (sv_externals S) UNIV) es (history (dm_ledger d))"
    using h by (simp add: at_history_def holds_envelopes_def)
  assume "uuid_str (sv_externals S) u \<in> stored_ids (dm_ledger d)"
  then obtain row where "row \<in> set (history (dm_ledger d))" "le_event_id row = uuid_str (sv_externals S) u"
    by (auto simp: stored_ids_def)
  with rows obtain env where "env \<in> set es" "row_of (sv_codec S) (sv_externals S) UNIV env row"
    by (metis in_set_conv_nth list_all2_conv_all_nth)
  with row_of_sel [OF this(2)] have "en_event_id env = u"
    using \<open>le_event_id row = _\<close> uuid_str_inj [OF at_history_codec [OF h]] by auto
  then have "u \<in> used es" using \<open>env \<in> set es\<close> by (auto simp: used_def mentions_def)
  then show False using h assms(2) by (auto simp: at_history_def)
qed

text \<open>A transaction that appends exactly these drafts, with identifiers drawn for them.\<close>

lemma run_appending:
  assumes t: "\<And>db db' x. t db = Ok (db', x) \<Longrightarrow> ledger_wf db \<Longrightarrow>
      \<exists>evs. append_batch (cd_stored (sv_codec S)) db (map (input_of (sv_codec S) (sv_externals S)) ds) = Ok (db', evs)"
    and ds: "history_facts S es p us \<Longrightarrow> commits S G es p us ds" and ids: "\<exists>e \<in> set ds. en_event_id e \<in> set us"
  shows "valid_run S G (at_history S G R es p us) (ledger_call err t)
    (\<lambda>_. at_history S G (\<lambda>_. True) (es @ number es ds) (the (applies (sv_externals S) es p ds)) [])"
proof (rule valid_runI)
  fix d d' e assume "at_history S G R es p us d" and "ledger_call err t d = (d', Err e)"
  then show "grown_ok S G d'" by (auto simp: ledger_call_def intro: at_history_ok split: sum.splits prod.splits)
next
  let ?inputs = "map (input_of (sv_codec S) (sv_externals S)) ds"
  fix d d' x assume h: "at_history S G R es p us d" and "ledger_call err t d = (d', Ok x)"
  then obtain db evs where ok: "append_batch (cd_stored (sv_codec S)) (dm_ledger d) ?inputs = Ok (db, evs)" and d': "d' = d\<lparr>dm_ledger := db\<rparr>"
    using t h by (fastforce simp: ledger_call_def at_history_def holds_envelopes_def split: sum.splits prod.splits)
  have wf: "ledger_wf (dm_ledger d)" using h by (simp add: at_history_def holds_envelopes_def)
  obtain e where e: "e \<in> set ds" "en_event_id e \<in> set us" using ids by blast
  have "nl_event_id (input_of (sv_codec S) (sv_externals S) e) \<notin> stored_ids (dm_ledger d)"
    using drawn_not_stored [OF h e(2)] by (simp add: input_of_def Let_def)
  then have "get_event_by_id (cd_stored (sv_codec S)) (dm_ledger d) (nl_event_id (input_of (sv_codec S) (sv_externals S) e)) = None"
    using get_event_present by metis
  then have "\<not> list_all2 (\<lambda>i ev. get_event_by_id (cd_stored (sv_codec S)) (dm_ledger d) (nl_event_id i) = Some ev \<and> new_event_matches i ev) ?inputs evs"
    using e(1) list_all2_member [of _ ?inputs evs] by fastforce
  with append_batch_Ok [OF wf ok] have new: "ledger_wf db" "history db = history (dm_ledger d) @ assign (dm_ledger d) ?inputs"
    by auto
  have "commits S G es p us ds" by (rule ds [OF at_history_facts [OF h]])
  with pushed_history [OF h _ _ _ new] show
    "at_history S G (\<lambda>_. True) (es @ number es ds) (the (applies (sv_externals S) es p ds)) [] d'"
    by (auto simp: commits_def d')
qed

lemma valid_run_cases:
  assumes "\<And>d. P d \<Longrightarrow> \<exists>P' m'. P' d \<and> m d = m' d \<and> valid_run S G P' m' Q"
  shows "valid_run S G P m Q"
  using assms unfolding valid_run_def by metis

lemma run_history_facts:
  assumes "history_facts S es p us \<Longrightarrow> valid_run S G (at_history S G R es p us) m Q"
  shows "valid_run S G (at_history S G R es p us) m Q"
  using assms at_history_facts unfolding valid_run_def by blast

lemmas run_appending_forms = run_appending [where ds = "[e]" for e, unfolded list.map] run_appending [where ds = "[e, f]" for e f, unfolded list.map]

lemma outcome_appends:
  "append_invocation_outcome C X db \<lparr>no_tool_result = a, no_terminal_state = b\<rparr> = Ok (db', x) \<Longrightarrow>
     \<exists>evs. append_batch (cd_stored C) db [a, b] = Ok (db', evs)"
  using checked_Ok by (fastforce simp: append_invocation_outcome_def rbind_eq_Inr)

lemma unknown_appends:
  "append_invocation_unknown C X db \<lparr>nu_state = a\<rparr> = Ok (db', x) \<Longrightarrow> \<exists>evs. append_batch (cd_stored C) db [a] = Ok (db', evs)"
  using checked_Ok by (fastforce simp: append_invocation_unknown_def rbind_eq_Inr split: if_splits)

text \<open>Drawing an identifier, whatever the caller makes of a failure.\<close>

definition draw :: "'w service \<Rightarrow> (string \<Rightarrow> 'e) \<Rightarrow> ('w daemon, 'e, uuid) act" where
  "draw S err d = (d\<lparr>dm_ids := Suc (dm_ids d)\<rparr>, map_err err (sv_ids S (dm_ids d)))"

lemma run_draw:
  assumes "\<And>u. valid_run S G (at_history S G R es p (u # us)) (f u) Q"
  shows "valid_run S G (at_history S G R es p us) (abind (draw S err) f) Q"
proof (rule run_bind [OF _ assms], rule valid_runI)
  fix d d' e assume "at_history S G R es p us d" and "draw S err d = (d', Err e)"
  then show "grown_ok S G d'" using draw_uuid(1) [THEN at_history_ok] by (auto simp: draw_def)
next
  fix d d' u assume "at_history S G R es p us d" and "draw S err d = (d', Ok u)"
  then show "at_history S G R es p (u # us) d'" using draw_uuid(2) by (auto simp: draw_def)
qed

lemma checked_stores:
  assumes "append_invocation_events_checked C X db inputs i expected final = Ok (db', evs)" and "ledger_wf db"
  shows "ledger_wf db' \<and> (history db' = history db \<or> history db' = history db @ assign db inputs)"
  using append_batch_Ok [OF assms(2) conjunct1 [OF checked_Ok [OF assms(1)]]] by auto

lemma run_send_ok [run_rules]:
  assumes "valid_run S G (grown_ok S G) (f ()) Q"
  shows "valid_run S G (grown_ok S G) (abind (send_events S rows) f) Q"
  by (rule run_bind [OF run_send]) (use assms in \<open>auto simp: grown_ok_def\<close>)

lemma run_descriptors [run_rules]:
  assumes "\<And>x. valid_run S G (grown_ok S G) (f x) Q"
  shows "valid_run S G (grown_ok S G) (abind (read_descriptors S kind) f) Q"
  by (rule run_bind [OF _ assms]) (auto simp: valid_run_def read_descriptors_def split: sum.splits)

lemma run_page [run_rules]:
  assumes "\<And>x. valid_run S G (at_history S G R es p us) (f x) Q"
  shows "valid_run S G (at_history S G R es p us) (abind (events_page_after S t after_seq limit) f) Q"
  by (rule run_unchanged) (use assms in \<open>auto simp: events_page_after_def\<close>)

end
