(* ===== verification/Command_Safety.thy ===== *)
theory Command_Safety
  imports Command_Calculus
begin

text \<open>
  Every command, executed with the calculus of \<open>Command_Calculus\<close>, keeps the ledger
  projectable and appends only events that clients may cause.
\<close>

text \<open>
  A client opens workspaces, threads, turns and jobs, and may ask for the cancellation of a turn;
  it never moves a turn or an invocation along otherwise.
\<close>

fun by_client :: "'w service \<Rightarrow> turn_id option \<Rightarrow> event \<Rightarrow> bool" where
  "by_client S turn (TurnStateChanged _ _ to _) \<longleftrightarrow> to = Cancelling \<or> to = turn_state.Cancelled \<and> \<not> sv_executes_turns S"
| "by_client S turn (ItemAdded _) \<longleftrightarrow> True"
| "by_client S turn (InvocationProposed _ _ _ _ _ _ _ _) \<longleftrightarrow> False"
| "by_client S turn (InvocationStateChanged _ _ _ _) \<longleftrightarrow> False"
| "by_client S turn (ModelRequested _) \<longleftrightarrow> False"
| "by_client S turn (ModelStreamEvent _ _) \<longleftrightarrow> False"
| "by_client S turn _ \<longleftrightarrow> True"

abbreviation by_clients :: "'w service \<Rightarrow> event_envelope list \<times> uuid set \<Rightarrow> growth" where
  "by_clients S B \<equiv> Growth (fst B) (snd B) (by_client S)"

lemma workspace_open_keeps: "valid_run S (by_clients S B) (grown_ok S (by_clients S B)) (workspace_open_cmd S command digest path) (\<lambda>_. grown_ok S (by_clients S B))"
  unfolding workspace_open_cmd_def
  by (intro run_rules; (erule at_history_ok | simp add: commit_simps)?)

lemma workspace_trust_keeps: "valid_run S (by_clients S B) (grown_ok S (by_clients S B)) (workspace_trust_cmd S command digest params) (\<lambda>_. grown_ok S (by_clients S B))"
  unfolding workspace_trust_cmd_def
  by (intro run_rules; (erule at_history_ok | simp add: commit_simps entityD)?)

lemma workspace_status_keeps: "valid_run S (by_clients S B) (grown_ok S (by_clients S B)) (workspace_status_cmd S i) (\<lambda>_. grown_ok S (by_clients S B))"
  unfolding workspace_status_cmd_def by (intro run_rules; (erule at_history_ok)?)

lemma thread_start_keeps: "valid_run S (by_clients S B) (grown_ok S (by_clients S B)) (thread_start S command digest params) (\<lambda>_. grown_ok S (by_clients S B))"
  unfolding thread_start_def
  by (intro run_rules; (assumption | erule at_history_ok | simp add: commit_simps thread_of_def)?)

lemma thread_fork_keeps: "valid_run S (by_clients S B) (grown_ok S (by_clients S B)) (thread_fork S command digest params) (\<lambda>_. grown_ok S (by_clients S B))"
  unfolding thread_fork_def
  by (intro run_rules; (assumption | erule at_history_ok | (auto simp: commit_simps thread_of_def thread_parents dest: thread_parents)[1])?)

lemma thread_archive_keeps: "valid_run S (by_clients S B) (grown_ok S (by_clients S B)) (thread_archive S command digest t) (\<lambda>_. grown_ok S (by_clients S B))"
  unfolding thread_archive_def
  by (intro run_rules; (erule at_history_ok | simp add: commit_simps entityD)?)

lemma turn_steer_keeps: "valid_run S (by_clients S B) (grown_ok S (by_clients S B)) (turn_steer S command digest params) (\<lambda>_. grown_ok S (by_clients S B))"
  unfolding turn_steer_def
  by (intro run_rules; (assumption | erule at_history_ok | (auto simp: commit_simps dest: entityD)[1])?)

lemma job_create_keeps: "valid_run S (by_clients S B) (grown_ok S (by_clients S B)) (job_create S command digest job) (\<lambda>_. grown_ok S (by_clients S B))"
  unfolding job_create_def
  by (intro run_rules; (assumption | erule at_history_ok | (auto simp: commit_simps dest: entityD)[1])?)

lemma job_transition_keeps: "valid_run S (by_clients S B) (grown_ok S (by_clients S B)) (job_transition S command digest job to) (\<lambda>_. grown_ok S (by_clients S B))"
  unfolding job_transition_def
  by (intro run_rules; (assumption | erule at_history_ok | (auto simp: commit_simps dest: entityD)[1])?)

lemma turn_start_commits:
  assumes "history_facts S es p [e2, i, e1, u]" and "bt_get (pr_threads p) t = Some th" and "active_turn p t = None"
  shows "commits S (by_clients S B) es p [e2, i, e1, u]
    [draft e1 t (Some u) agent now c (TurnStarted (turn_of u t agent now)),
     draft e2 t (Some u) agent now c (ItemAdded (user_message S i (turn_of u t agent now) params))]"
  using assms entityD [OF assms(1)] by (auto simp: commit_simps turn_of_def user_message_def)

lemma turn_start_keeps: "valid_run S (by_clients S B) (grown_ok S (by_clients S B)) (turn_start S command digest params) (\<lambda>_. grown_ok S (by_clients S B))"
  unfolding turn_start_def
  by (intro run_rules; (assumption | erule at_history_ok | (rule turn_start_commits, auto)[1])?)

text \<open>The events of an interrupt: at most one step into \<open>Cancelling\<close> and one out of it.\<close>

lemma interrupt_commits:
  assumes "history_facts S es p us" and "a \<in> set us" and "b \<in> set us"
    and "bt_get (pr_turns p) u = Some turn" and "\<not> turn_is_terminal (tu_state turn)"
  shows "tu_state turn \<noteq> Cancelling \<Longrightarrow>
      commits S (by_clients S B) es p us [draft a (tu_thread_id turn) (Some u) ag now c (TurnStateChanged u (tu_state turn) Cancelling r)]"
    and "tu_state turn = Cancelling \<Longrightarrow> \<not> sv_executes_turns S \<Longrightarrow>
      commits S (by_clients S B) es p us [draft a (tu_thread_id turn) (Some u) ag now c (TurnStateChanged u Cancelling turn_state.Cancelled r)]"
    and "tu_state turn \<noteq> Cancelling \<Longrightarrow> \<not> sv_executes_turns S \<Longrightarrow>
      commits S (by_clients S B) es p us [draft a (tu_thread_id turn) (Some u) ag now c (TurnStateChanged u (tu_state turn) Cancelling r),
        draft b (tu_thread_id turn) (Some u) ag now c (TurnStateChanged u Cancelling turn_state.Cancelled r)]"
proof -
  have "can_transition_turn Cancelling turn_state.Cancelled" by (simp add: can_transition_turn_def turn_is_terminal_def turn_edges_def)
  moreover have "\<not> turn_is_terminal Cancelling" by (simp add: turn_is_terminal_def)
  moreover note cancel_or_fail(1) [OF assms(5)] entityD(3) [OF assms(1,4)]
  ultimately show
    "tu_state turn \<noteq> Cancelling \<Longrightarrow>
      commits S (by_clients S B) es p us [draft a (tu_thread_id turn) (Some u) ag now c (TurnStateChanged u (tu_state turn) Cancelling r)]"
    "tu_state turn = Cancelling \<Longrightarrow> \<not> sv_executes_turns S \<Longrightarrow>
      commits S (by_clients S B) es p us [draft a (tu_thread_id turn) (Some u) ag now c (TurnStateChanged u Cancelling turn_state.Cancelled r)]"
    "tu_state turn \<noteq> Cancelling \<Longrightarrow> \<not> sv_executes_turns S \<Longrightarrow>
      commits S (by_clients S B) es p us [draft a (tu_thread_id turn) (Some u) ag now c (TurnStateChanged u (tu_state turn) Cancelling r),
        draft b (tu_thread_id turn) (Some u) ag now c (TurnStateChanged u Cancelling turn_state.Cancelled r)]"
    using assms by (auto simp: commit_simps changed_turn_def)
qed

lemma run_interrupt_events:
  assumes "history_facts S es p [] \<Longrightarrow> bt_get (pr_turns p) (uip_turn_id params) = Some turn"
    and "tu_thread_id turn = uip_thread_id params" and "\<not> turn_is_terminal (tu_state turn)"
    and none: "valid_run S (by_clients S B) (at_history S (by_clients S B) R es p []) (f []) Q"
    and some: "\<And>us ds. ds \<noteq> [] \<Longrightarrow> (history_facts S es p us \<Longrightarrow> commits S (by_clients S B) es p us ds) \<Longrightarrow>
      valid_run S (by_clients S B) (at_history S (by_clients S B) R es p us) (f (map (input_of (sv_codec S) (sv_externals S)) ds)) Q"
  shows "valid_run S (by_clients S B) (at_history S (by_clients S B) R es p []) (abind (interrupt_events S command params turn now) f) Q"
proof -
  have facts: "history_facts S es p [] " if "history_facts S es p us" for us using that by (simp add: history_facts_def)
  note one = some [where ds = "[e]" for e, unfolded list.map] and two = some [where ds = "[e, g]" for e g, unfolded list.map]
  note commits = interrupt_commits [OF _ _ _ assms(1) assms(3), unfolded assms(2)]
  show ?thesis
    by (cases "tu_state turn = Cancelling"; cases "sv_executes_turns S";
      simp add: interrupt_events_def abind_assoc abind_return Let_def none del: map_eq_Cons_conv;
      (rule run_new_event)+; (rule one two, simp, rule commits; (assumption | erule facts | simp)))
qed

lemma turn_interrupt_keeps: "valid_run S (by_clients S B) (grown_ok S (by_clients S B)) (turn_interrupt S command digest params) (\<lambda>_. grown_ok S (by_clients S B))"
  unfolding turn_interrupt_def
  by (intro run_rules run_interrupt_events run_commit_bind; (assumption | erule at_history_ok | simp)?)

section \<open>Reconciliation\<close>

lemma reconcile_commits:
  assumes "history_facts S es p [e2, e1, i]" and "bt_get (pr_invocations p) k = Some v" and "bt_get (pr_turns p) (pv_turn_id v) = Some u"
    and "pv_state v = invocation_state.Unknown" and "validate_reconciliation_evidence (irp_evidence params) = Ok ()"
  shows "commits S (by_clients S B) es p [e2, e1, i]
    [draft e1 (pv_thread_id v) (Some (pv_turn_id v)) (pv_agent_id v) now c (ItemAdded (reconciliation_item S i v params now)),
     draft e2 (pv_thread_id v) (Some (pv_turn_id v)) (pv_agent_id v) now c
       (InvocationReconciled (pv_invocation_id v) (irp_outcome params) (irp_evidence params))]"
proof -
  have "\<not> is_blank OPERATOR_RECONCILIATION_SOURCE" by (simp add: OPERATOR_RECONCILIATION_SOURCE_def is_space1_def is_space2_def is_space3_def byte_def)
  then have "\<not> is_blank (re_source (irp_evidence params))" "\<not> is_blank (re_summary (irp_evidence params))"
    using assms(5) by (auto simp: validate_reconciliation_evidence_def split: if_splits)
  moreover have "pv_invocation_id v = k" "pv_thread_id v \<in> used es"
    using assms(1,2) entityD(5) [OF assms(1,2)] by (auto simp: history_facts_def proj_ok_def keys_ok_def)
  moreover have "can_reconcile_invocation invocation_state.Unknown o'" for o'
    by (cases o') (simp_all add: can_reconcile_invocation_def)
  ultimately show ?thesis
    using assms by (auto simp: commit_simps reconciliation_item_def wrong_parent_def)
qed

lemma reconcile_stores:
  "stores S (\<lambda>db. append_invocation_reconciliation_with_receipt (sv_codec S) (sv_externals S) db
     \<lparr>no_tool_result = input_of (sv_codec S) (sv_externals S) a, no_terminal_state = input_of (sv_codec S) (sv_externals S) b\<rparr> r) [a, b]"
  unfolding stores_def
proof (intro allI impI)
  let ?ab = "[input_of (sv_codec S) (sv_externals S) a, input_of (sv_codec S) (sv_externals S) b]"
  fix db db' x
  assume wf: "ledger_wf db" and ok: "append_invocation_reconciliation_with_receipt (sv_codec S) (sv_externals S) db
     \<lparr>no_tool_result = input_of (sv_codec S) (sv_externals S) a, no_terminal_state = input_of (sv_codec S) (sv_externals S) b\<rparr> r = Ok (db', x)"
  consider "db' = db" | i st fin db1 evs c where
      "append_invocation_events_checked (sv_codec S) (sv_externals S) db ?ab i st fin = Ok (db1, evs)"
      "insert_command_receipt db1 r = Ok (db', c)"
    using ok by (auto simp: append_invocation_reconciliation_with_receipt_def rbind_eq_Inr split: option.splits)
  then show "ledger_wf db' \<and> (history db' = history db \<or>
      history db' = history db @ assign db (map (input_of (sv_codec S) (sv_externals S)) [a, b]))"
  proof cases
    case 1
    then show ?thesis using wf by simp
  next
    case 2
    then have "nr_command_id r \<notin> receipt_ids db1" by (auto simp: insert_command_receipt_def receipt_ids_def split: if_splits)
    with checked_stores [OF 2(1) wf] 2(2) insert_receipt_wf [of db1 r] show ?thesis by auto
  qed
qed

lemma reconcile_keeps: "valid_run S (by_clients S B) (grown_ok S (by_clients S B)) (invocation_reconcile S command digest params) (\<lambda>_. grown_ok S (by_clients S B))"
  unfolding invocation_reconcile_def
  by (intro run_rules run_bind [OF run_stores [OF reconcile_stores reconcile_commits]];
    (assumption | erule at_history_ok | simp)?)

section \<open>Every command keeps the daemon sound\<close>

lemmas reading_defs = read_thread_def thread_read_def thread_resume_def thread_list_def thread_subscribe_def
  projected_thread_def model_list_def skill_list_def mcp_status_def plugin_list_def job_list_def initialize_cmd_def

lemma reading_keeps:
  "valid_run S (by_clients S B) (grown_ok S (by_clients S B)) (thread_resume S rp) (\<lambda>_. grown_ok S (by_clients S B))"
  "valid_run S (by_clients S B) (grown_ok S (by_clients S B)) (thread_read S dp) (\<lambda>_. grown_ok S (by_clients S B))"
  "valid_run S (by_clients S B) (grown_ok S (by_clients S B)) (thread_list S lp) (\<lambda>_. grown_ok S (by_clients S B))"
  "valid_run S (by_clients S B) (grown_ok S (by_clients S B)) (thread_subscribe S rp) (\<lambda>_. grown_ok S (by_clients S B))"
  "valid_run S (by_clients S B) (grown_ok S (by_clients S B)) (model_list S pr) (\<lambda>_. grown_ok S (by_clients S B))"
  "valid_run S (by_clients S B) (grown_ok S (by_clients S B)) (skill_list S) (\<lambda>_. grown_ok S (by_clients S B))"
  "valid_run S (by_clients S B) (grown_ok S (by_clients S B)) (mcp_status S) (\<lambda>_. grown_ok S (by_clients S B))"
  "valid_run S (by_clients S B) (grown_ok S (by_clients S B)) (plugin_list S) (\<lambda>_. grown_ok S (by_clients S B))"
  "valid_run S (by_clients S B) (grown_ok S (by_clients S B)) (job_list S w) (\<lambda>_. grown_ok S (by_clients S B))"
  "valid_run S (by_clients S B) (grown_ok S (by_clients S B)) (initialize_cmd S ip) (\<lambda>_. grown_ok S (by_clients S B))"
  unfolding reading_defs abind_assoc abind_return
  by (intro run_rules; (assumption | erule at_history_ok)?)+

lemmas command_keeps = reading_keeps workspace_open_keeps workspace_trust_keeps workspace_status_keeps thread_start_keeps
  thread_fork_keeps thread_archive_keeps turn_start_keeps turn_steer_keeps turn_interrupt_keeps reconcile_keeps
  job_create_keeps job_transition_keeps

lemma with_params_keeps:
  assumes "\<And>q. valid_run S (by_clients S B) (grown_ok S (by_clients S B)) (m q) (\<lambda>_. grown_ok S (by_clients S B))"
  shows "valid_run S (by_clients S B) (grown_ok S (by_clients S B)) (with_params f params m) (\<lambda>_. grown_ok S (by_clients S B))"
  unfolding with_params_def by (rule run_lift) (use assms in auto)

lemma plain_keeps: "valid_run S (by_clients S B) P m (\<lambda>_. grown_ok S (by_clients S B)) \<Longrightarrow> valid_run S (by_clients S B) P (plain m) (\<lambda>_. grown_ok S (by_clients S B))"
  unfolding plain_def by (rule run_bind) (auto intro: run_return)

lemma run_pair:
  assumes "valid_run S (by_clients S B) P m (\<lambda>_. grown_ok S (by_clients S B))"
  shows "valid_run S (by_clients S B) P (abind m (\<lambda>(a, b). areturn (f a b))) (\<lambda>_. grown_ok S (by_clients S B))"
  by (rule run_bind [OF assms]) (auto intro: run_return split: prod.splits)

lemma dispatch_keeps: "valid_run S (by_clients S B) (grown_ok S (by_clients S B)) (dispatch S method command params digest) (\<lambda>_. grown_ok S (by_clients S B))"
  unfolding dispatch_def Let_def
  by (intro run_if run_fail plain_keeps with_params_keeps run_pair command_keeps)

lemma run_command_keeps: "valid_run S (by_clients S B) (grown_ok S (by_clients S B)) (run_command S command) (\<lambda>_. grown_ok S (by_clients S B))"
proof -
  have again: "valid_run S (by_clients S B) (grown_ok S (by_clients S B)) (repeated_command S command digest receipt) (\<lambda>_. grown_ok S (by_clients S B))" for digest receipt
    unfolding repeated_command_def by (intro run_rules dispatch_keeps; assumption?)
  have first: "valid_run S (by_clients S B) (grown_ok S (by_clients S B)) (fresh_command S command digest) (\<lambda>_. grown_ok S (by_clients S B))" for digest
    unfolding fresh_command_def by (rule run_bind [OF dispatch_keeps]) (intro run_rules; assumption?)
  have "\<exists>m. run_command S command d = m d \<and> valid_run S (by_clients S B) (grown_ok S (by_clients S B)) m (\<lambda>_. grown_ok S (by_clients S B))" for d
    unfolding run_command_def Let_def using again first by (auto split: option.split)
  then show ?thesis unfolding valid_run_def by metis
qed

lemma handle_line_keeps:
  assumes "grown_ok S (by_clients S B) d" and "handle_line S W input state d = (d', state', response, outcome)"
  shows "grown_ok S (by_clients S B) d'"
proof -
  have "grown_ok S (by_clients S B) d1" if "run_command S command d = (d1, r)" for command d1 r
    using valid_runD [OF run_command_keeps assms(1) that] by (cases r) auto
  then show ?thesis
    using assms by (auto simp: handle_line_def split: sum.splits prod.splits)
qed

lemma launch_turn_keeps [simp]: "grown_ok S (by_clients S B) (launch_turn spec d) = grown_ok S (by_clients S B) d"
  by (simp add: launch_turn_def grown_ok_def)

lemma handle_command_keeps:
  assumes "grown_ok S (by_clients S B) d"
  shows "grown_ok S (by_clients S B) (fst (handle_command S W input (d, c)))"
proof -
  obtain d1 state response outcome where h: "handle_line S W input (cn_state c) d = (d1, state, response, outcome)"
    by (metis prod_cases4)
  from handle_line_keeps [OF assms h] h show ?thesis
    by (auto simp: handle_command_def Let_def split: option.splits sum.splits)
qed

lemma handle_frame_keeps:
  assumes "grown_ok S (by_clients S B) d" and "handle_frame S W n f (d, c) = (d', c')"
  shows "grown_ok S (by_clients S B) d'"
  using assms handle_command_keeps [OF assms(1)]
  by (auto simp: handle_frame_def Let_def split: option.splits frame.splits if_splits prod.splits bool.splits; (metis fst_conv)?)

lemma server_step_keeps: "server_step S W n s s' \<Longrightarrow> grown_ok S (by_clients S B) (fst s) \<Longrightarrow> grown_ok S (by_clients S B) (fst s')"
  by (induction rule: server_step.induct) (auto dest: handle_frame_keeps)

lemma server_run_keeps: "(server_step S W n)\<^sup>*\<^sup>* s s' \<Longrightarrow> grown_ok S (by_clients S B) (fst s) \<Longrightarrow> grown_ok S (by_clients S B) (fst s')"
  by (induction rule: rtranclp_induct) (auto dest: server_step_keeps)

lemma demo_daemon_ok: "daemon_ok demo_service (demo_daemon initialize_schema)"
proof -
  have "at_history demo_service (Growth [] {} (\<lambda>_ _. True)) (\<lambda>_. True) [] projection_default [] (demo_daemon initialize_schema)"
    by (simp add: at_history_def holds_nothing [OF total_codec_ok] replay_def ids_distinct_def) (blast intro: demo_ids_inj)
  then show ?thesis unfolding daemon_ok_def by blast
qed

section \<open>Properties\<close>

text \<open>
  C1: No client can make the ledger unreadable. Start from a daemon whose ledger projects, with
  identifiers that are unique and not in use. Whatever lines, in whatever order and on however
  many connections, the clients send - malformed, repeated, or refused half way - the ledger
  still holds a complete history that the core projection replays without error, so every
  later command can be served and the daemon can restart.
\<close>

theorem clients_never_corrupt_the_ledger:
  assumes "daemon_ok S d" and "(server_step S W max_line_bytes)\<^sup>*\<^sup>* (d, cs) (d', cs')"
  shows "daemon_ok S d' \<and> (\<exists>p. project_core (sv_codec S) (sv_externals S) (dm_ledger d') = Ok p \<and> proj_ok (sv_externals S) p)"
proof -
  obtain B where "grown_ok S (by_clients S B) d" using daemon_ok_grown [OF assms(1)] by blast
  then have "grown_ok S (by_clients S B) d'" using server_run_keeps [OF assms(2), of B] by simp
  then have "daemon_ok S d'" by (rule grown_ok_sound)
  with daemon_ok_projects show ?thesis by blast
qed

theorem clients_never_corrupt_the_ledger_witness:
  "\<exists>d' cs' p. server_step demo_service demo_wire 65536 (demo_daemon initialize_schema, \<lambda>_. default_serving) (d', cs') \<and>
     project_core total_codec plain_externals (dm_ledger d') = Ok p \<and> proj_ok plain_externals p"
proof -
  obtain d' c' where "handle_frame demo_service demo_wire 65536 (Some (Line WORKSPACE_OPEN)) (demo_daemon initialize_schema, default_serving) = (d', c')"
    by fastforce
  then have step: "server_step demo_service demo_wire 65536 (demo_daemon initialize_schema, \<lambda>_. default_serving) (d', (\<lambda>_. default_serving)(0 := c'))"
    by (intro server_step.frame) (simp_all add: default_serving_def)
  then have "(server_step demo_service demo_wire 65536)\<^sup>*\<^sup>* (demo_daemon initialize_schema, \<lambda>_. default_serving) (d', (\<lambda>_. default_serving)(0 := c'))"
    by (rule r_into_rtranclp)
  with clients_never_corrupt_the_ledger [OF demo_daemon_ok this] step show ?thesis by auto
qed

end
