(* ===== verification/Demo_Run.thy ===== *)
theory Demo_Run
  imports Command_Safety
begin

text \<open>
  A command that commits: with room in the ledger and no receipt it succeeds and answers with
  the response it was given. The demo service opens its first workspace, which gives the
  theorems on committing commands a concrete run.
\<close>

lemma fresh_batch_commits:
  assumes wf: "ledger_wf db" and "inputs \<noteq> []" and ids: "distinct (map nl_event_id inputs)" "nl_event_id ` set inputs \<inter> stored_ids db = {}"
    and room: "length (lg_events db) + length inputs \<le> i64_max" and r: "nr_command_id r \<notin> receipt_ids db"
  shows "append_batch_with_receipt stored db inputs r =
    Ok (add_receipt (push_rows db (assign db inputs)) r,
        \<lparr>cb_events = assign db inputs, cb_response = nr_response r, cb_replayed = False\<rparr>)"
proof -
  have pre: "preflight stored db [] (map nl_event_id inputs) = Ok ()" using ids by (simp add: preflight_Ok)
  have ins: "insert_batch db inputs = Ok (push_rows db (assign db inputs), assign db inputs)" "ledger_wf (push_rows db (assign db inputs))"
    using insert_batch_wf [OF wf ids] room by auto
  have "nr_command_id r \<notin> receipt_ids (push_rows db (assign db inputs))" using r by (simp add: receipt_ids_def)
  from insert_receipt_wf [OF ins(2) this] committed_response_None [of stored db r] r pre ins(1) assms(2) show ?thesis
    by (simp add: append_batch_with_receipt_def add_receipt_def)
qed

lemma commit_one_succeeds:
  assumes C: "port_codec_ok (sv_codec S) (sv_externals S) UNIV" and wf: "ledger_wf (dm_ledger d)"
    and "en_schema_version e = PROTOCOL_VERSION" and "uuid_str (sv_externals S) (en_event_id e) \<notin> stored_ids (dm_ledger d)"
    and "length (lg_events (dm_ledger d)) < i64_max" and "uuid_str (sv_externals S) command \<notin> receipt_ids (dm_ledger d)"
  shows "\<exists>d'. commit_events S command method digest response [input_of (sv_codec S) (sv_externals S) e] d = (d', Ok response) \<and>
    (\<exists>row time. dm_ledger d' = add_receipt (push_row (dm_ledger d) row) (receipt_of S command method digest response time))"
proof -
  let ?i = "input_of (sv_codec S) (sv_externals S) e"
  have id: "nl_event_id ?i = uuid_str (sv_externals S) (en_event_id e)" by (simp add: input_of_def Let_def)
  have "envelope_of (sv_codec S) (sequenced ?i n) = Ok (e\<lparr>en_seq := n\<rparr>)" for n
    using envelope_of_row [OF C input_row [OF C]] assms(3) by (simp add: accepts_def)
  moreover have "append_batch_with_receipt (cd_stored (sv_codec S)) (dm_ledger d) [?i] (receipt_of S command method digest response time) =
      Ok (add_receipt (push_rows (dm_ledger d) (assign (dm_ledger d) [?i])) (receipt_of S command method digest response time),
          \<lparr>cb_events = assign (dm_ledger d) [?i], cb_response = response, cb_replayed = False\<rparr>)" for time
    using fresh_batch_commits [OF wf, of "[?i]"] assms(4-6) id by (simp add: receipt_of_def)
  ultimately show ?thesis
    by (simp add: commit_events_def abind_def clock_now_def on_ledger_def alift_def areturn_def) blast
qed

section \<open>Opening the first workspace\<close>

lemma demo_is_dir [simp]: "os_is_dir (demo_os ok) p w = (w, True)"
  by (simp add: demo_os_def)

lemma demo_workspace_open:
  "workspace_open (demo_os True) ''/w'' w = (w, Ok demo_workspace)"
  by (simp add: workspace_open_def demo_workspace_def snapshot_for_descriptor_def snapshot_for_canonical_root_def identity_of_metadata_def
      io_or_not_found_def Let_def act_defs)

lemma demo_no_receipt [simp]: "i \<notin> receipt_ids initialize_schema"
  by (simp add: receipt_ids_def)

text \<open>The ledger after one command: one row, and its receipt.\<close>

definition only_receipt :: "command_id \<Rightarrow> string \<Rightarrow> string \<Rightarrow> json \<Rightarrow> ledger \<Rightarrow> bool" where
  "only_receipt command method digest response db \<longleftrightarrow>
     (\<exists>row time. db = add_receipt (push_row initialize_schema row) (receipt_of demo_service command method digest response time))"

lemma only_receipt_again:
  assumes "only_receipt command method digest response db"
  shows "\<exists>c. \<forall>time. record_command_receipt stored db (receipt_of demo_service command method digest response time) = Ok (db, c)"
  using assms
  by (auto simp: only_receipt_def record_command_receipt_def committed_response_def get_command_receipt_def add_receipt_def receipt_of_def)

lemma demo_open_cmd:
  "\<exists>d' x. workspace_open_cmd demo_service command digest ''/w'' (demo_daemon initialize_schema) = (d', Ok x) \<and>
     only_receipt command WORKSPACE_OPEN digest x (dm_ledger d')"
proof -
  have empty: "project_core total_codec plain_externals initialize_schema = Ok projection_default"
    using project_core_eq [OF holds_nothing [OF total_codec_ok]] by (simp add: replay_def)
  have ids: "demo_ids 0 = Ok 10" "demo_ids (Suc 0) = Ok 11" by (simp_all add: demo_ids_def)
  have canon: "os_canonicalize (demo_os True) p w = (w, Ok p)" for p w by (simp add: demo_os_def)
  have commit: "\<exists>d' x. commit_events demo_service command WORKSPACE_OPEN digest response [input_of total_codec plain_externals e] d = (d', Ok x) \<and>
      only_receipt command WORKSPACE_OPEN digest x (dm_ledger d')"
    if "dm_ledger d = initialize_schema" "en_schema_version e = PROTOCOL_VERSION" for d e response
    using commit_one_succeeds [of demo_service d e command WORKSPACE_OPEN digest response] that total_codec_ok
    by (simp add: i64_max_def stored_ids_def only_receipt_def) blast
  show ?thesis
    unfolding workspace_open_cmd_def
    by (simp add: abind_def on_files_def demo_workspace_open read_projection_def empty Let_def projection_default_def bt_empty_def
        bt_values_def next_uuid_def ids clock_now_def workspace_identity_of_def canon new_event_eq total_codec_ok areturn_def commit)
qed

lemma demo_open_runs:
  "\<exists>d' out. run_command demo_service (demo_command WORKSPACE_OPEN JNull) (demo_daemon initialize_schema) = (d', Ok out)"
proof -
  let ?c = "ce_command_id (demo_command WORKSPACE_OPEN JNull)" and ?d = "demo_daemon initialize_schema"
  let ?digest = "digest_value plain_externals JNull"
  have none: "command_receipt_of stored initialize_schema i = None" for stored i
    by (simp add: command_receipt_of_def get_receipt_None)
  obtain d1 x where open1: "workspace_open_cmd demo_service ?c ?digest ''/w'' ?d = (d1, Ok x)" "only_receipt ?c WORKSPACE_OPEN ?digest x (dm_ledger d1)"
    using demo_open_cmd by blast
  then have "dispatch demo_service WORKSPACE_OPEN ?c JNull ?digest ?d = (d1, Ok (plain_outcome x))"
    by (simp add: dispatch_def with_params_def plain_def abind_def alift_def decode_def demo_decoders_def areturn_def)
  moreover obtain c where "record_command_receipt (cd_stored total_codec) (dm_ledger d1) (receipt_of demo_service ?c WORKSPACE_OPEN ?digest x time) = Ok (dm_ledger d1, c)" for time
    using only_receipt_again [OF open1(2)] by blast
  ultimately show ?thesis
    by (simp add: run_command_def none fresh_command_def abind_def clock_now_def on_ledger_def areturn_def demo_command_def plain_outcome_def)
qed

end
