(* ===== verification/Command_Receipts.thy ===== *)
theory Command_Receipts
  imports Demo_Run
begin

text \<open>
  Receipts make commands idempotent: the response a client got is the one the ledger keeps,
  and it answers every later line with the same command identifier. Most operations of a
  handler leave the ledger alone (\<open>quiet\<close>); the ones that commit are followed to the response.
\<close>

named_theorems quiet_rules \<open>operations that leave the ledger alone\<close>
named_theorems answer_rules \<open>operations that end with the recorded response\<close>

section \<open>Operations that leave the ledger alone\<close>

definition quiet :: "('w daemon, 'e, 'a) act \<Rightarrow> bool" where
  "quiet m \<longleftrightarrow> (\<forall>d d' r. m d = (d', r) \<longrightarrow> dm_ledger d' = dm_ledger d)"

lemma quietD: "quiet m \<Longrightarrow> m d = (d', r) \<Longrightarrow> dm_ledger d' = dm_ledger d"
  by (simp add: quiet_def)

lemma quiet_bind [quiet_rules]:
  assumes "quiet m" and "\<And>x. quiet (f x)"
  shows "quiet (abind m f)"
  unfolding quiet_def abind_def
proof (intro allI impI)
  fix d d' r
  assume run: "(case m d of (d1, Inl e) \<Rightarrow> (d1, Err e) | (d1, Inr x) \<Rightarrow> f x d1) = (d', r)"
  obtain d1 r1 where m: "m d = (d1, r1)" by fastforce
  have "dm_ledger d' = dm_ledger d1"
    using run m quietD [OF assms(2)] by (cases r1) auto
  then show "dm_ledger d' = dm_ledger d" using quietD [OF assms(1) m] by simp
qed

lemma quiet_basic [quiet_rules]:
  "quiet (areturn x)" "quiet (afail e)" "quiet (alift r)" "quiet (aguard b e)" "quiet (fail_unless b code message)"
  by (auto simp: quiet_def areturn_def afail_def alift_def aguard_def fail_unless_def)

lemma quiet_split [quiet_rules]:
  "quiet m \<Longrightarrow> quiet n \<Longrightarrow> quiet (if b then m else n)" "quiet (f x) \<Longrightarrow> quiet (Let x f)"
  by auto

lemma quiet_option [quiet_rules]: "quiet m \<Longrightarrow> (\<And>x. quiet (f x)) \<Longrightarrow> quiet (case v of None \<Rightarrow> m | Some x \<Rightarrow> f x)"
  by (cases v) auto

lemma quiet_calls [quiet_rules]:
  "quiet (clock_now S)" "quiet (next_uuid S)" "quiet (on_files S m)" "quiet (read_projection S)" "quiet (read_descriptors S kind)"
  "quiet (events_page_after S t after_seq limit)" "quiet (request_turn_cancel u)"
  by (auto simp: quiet_def clock_now_def next_uuid_def on_files_def read_projection_def read_descriptors_def
      events_page_after_def request_turn_cancel_def split: prod.splits)

lemma quiet_new_event [quiet_rules]: "quiet (new_event S t u a c time ev)"
  unfolding new_event_def Let_def by (intro quiet_rules)

lemma quiet_send [quiet_rules]: "quiet (send_events S rows)"
proof (induction rows)
  case (Cons row rows)
  have "quiet (\<lambda>d. (d\<lparr>dm_sent := dm_sent d @ [e]\<rparr>, Ok ()))" for e by (simp add: quiet_def)
  then show ?case using Cons.IH by (simp del: abind_def) (intro quiet_rules)
qed (simp add: quiet_rules)

lemmas quiet_read_defs = read_thread_def thread_read_def thread_resume_def thread_list_def thread_subscribe_def
  projected_thread_def model_list_def skill_list_def mcp_status_def plugin_list_def job_list_def initialize_cmd_def
  workspace_status_cmd_def

lemma quiet_reads [quiet_rules]:
  "quiet (thread_resume S rp)" "quiet (thread_read S dp)" "quiet (thread_list S lp)" "quiet (thread_subscribe S rp)"
  "quiet (model_list S pr)" "quiet (skill_list S)" "quiet (mcp_status S)" "quiet (plugin_list S)" "quiet (job_list S w)"
  "quiet (initialize_cmd S ip)" "quiet (workspace_status_cmd S i)"
  unfolding quiet_read_defs by (intro quiet_rules)+

section \<open>Operations that record their response\<close>

abbreviation receipt_in :: "'w service \<Rightarrow> command_id \<Rightarrow> 'w daemon \<Rightarrow> command_receipt option" where
  "receipt_in S command d \<equiv> command_receipt_of (cd_stored (sv_codec S)) (dm_ledger d) (uuid_str (sv_externals S) command)"

text \<open>
  Run without a receipt, the operation ends with none, or with one whose response is the
  result.
\<close>

definition answered :: "'w service \<Rightarrow> command_id \<Rightarrow> ('a \<Rightarrow> json) \<Rightarrow> ('w, 'a) cmd \<Rightarrow> bool" where
  "answered S command g m \<longleftrightarrow>
     (\<forall>d d' x r. ledger_wf (dm_ledger d) \<longrightarrow> receipt_in S command d = None \<longrightarrow> m d = (d', Ok x) \<longrightarrow>
        ledger_wf (dm_ledger d') \<and> (receipt_in S command d' = Some r \<longrightarrow> cr_response r = g x))"

lemma quiet_answered: "quiet m \<Longrightarrow> answered S command g m"
  by (auto simp: answered_def dest: quietD)

lemma answered_bind [answer_rules]:
  assumes "quiet m" and "\<And>x. answered S command g (f x)"
  shows "answered S command g (abind m f)"
  unfolding answered_def
proof (intro allI impI)
  fix d d' x r
  assume wf: "ledger_wf (dm_ledger d)" and none: "receipt_in S command d = None" and run: "abind m f d = (d', Ok x)"
  then obtain d1 y where m: "m d = (d1, Ok y)" and f: "f y d1 = (d', Ok x)"
    by (auto simp: abind_def split: prod.splits sum.splits)
  have "dm_ledger d1 = dm_ledger d" by (rule quietD [OF assms(1) m])
  then show "ledger_wf (dm_ledger d') \<and> (receipt_in S command d' = Some r \<longrightarrow> cr_response r = g x)"
    using assms(2) [of y] wf none f unfolding answered_def by metis
qed

text \<open>What follows a recorded response leaves the ledger alone and returns it.\<close>

lemma answered_then:
  assumes "answered S command h m" and "\<And>x. quiet (f x)" and "\<And>x d d' y. f x d = (d', Ok y) \<Longrightarrow> g y = h x"
  shows "answered S command g (abind m f)"
  unfolding answered_def
proof (intro allI impI)
  fix d d' x r
  assume wf: "ledger_wf (dm_ledger d)" and none: "receipt_in S command d = None" and run: "abind m f d = (d', Ok x)"
  then obtain d1 y where m: "m d = (d1, Ok y)" and f: "f y d1 = (d', Ok x)"
    by (auto simp: abind_def split: prod.splits sum.splits)
  then show "ledger_wf (dm_ledger d') \<and> (receipt_in S command d' = Some r \<longrightarrow> cr_response r = g x)"
    using assms(1) wf none quietD [OF assms(2) f] assms(3) [OF f] unfolding answered_def by metis
qed

lemma answered_split [answer_rules]:
  "answered S command g m \<Longrightarrow> answered S command g n \<Longrightarrow> answered S command g (if b then m else n)"
  "answered S command g (f x) \<Longrightarrow> answered S command g (Let x f)"
  by auto

lemma answered_option [answer_rules]:
  "answered S command g m \<Longrightarrow> (\<And>x. answered S command g (f x)) \<Longrightarrow> answered S command g (case v of None \<Rightarrow> m | Some x \<Rightarrow> f x)"
  by (cases v) auto

lemma answered_on_ledger:
  assumes "\<And>db db' x. ledger_wf db \<Longrightarrow> uuid_str (sv_externals S) command \<notin> receipt_ids db \<Longrightarrow> t db = Ok (db', x) \<Longrightarrow>
      ledger_wf db' \<and> (receipt_ids db' = receipt_ids db \<or>
        (\<exists>r. get_command_receipt (cd_stored (sv_codec S)) db' (uuid_str (sv_externals S) command) = Some r \<and> cr_response r = h x))"
  shows "answered S command h (on_ledger fault t)"
  unfolding answered_def
proof (intro allI impI)
  fix d d' x r
  assume wf: "ledger_wf (dm_ledger d)" and none: "receipt_in S command d = None" and run: "on_ledger fault t d = (d', Ok x)"
  have no: "uuid_str (sv_externals S) command \<notin> receipt_ids (dm_ledger d)"
    using none by (simp add: command_receipt_of_def get_receipt_None)
  have t: "t (dm_ledger d) = Ok (dm_ledger d', x)" using run by (auto simp: on_ledger_def split: sum.splits prod.splits)
  from assms [OF wf no t] show "ledger_wf (dm_ledger d') \<and> (receipt_in S command d' = Some r \<longrightarrow> cr_response r = h x)"
    using no get_receipt_None [of "cd_stored (sv_codec S)" "dm_ledger d'" "uuid_str (sv_externals S) command"]
    by (auto simp: command_receipt_of_def)
qed

lemma receipt_of_sel [simp]:
  "nr_command_id (receipt_of S command method digest response time) = uuid_str (sv_externals S) command"
  "nr_response (receipt_of S command method digest response time) = response"
  by (simp_all add: receipt_of_def)

lemma answered_batch:
  assumes "codec_ok (sv_codec S)"
  shows "answered S command cb_response (on_ledger fault (\<lambda>db. append_batch_with_receipt (cd_stored (sv_codec S)) db inputs
    (receipt_of S command method digest response time)))"
proof (rule answered_on_ledger)
  fix db db' x
  assume wf: "ledger_wf db" and no: "uuid_str (sv_externals S) command \<notin> receipt_ids db"
    and ok: "append_batch_with_receipt (cd_stored (sv_codec S)) db inputs (receipt_of S command method digest response time) = Ok (db', x)"
  let ?r = "receipt_of S command method digest response time"
  have "get_command_receipt (cd_stored (sv_codec S)) db (nr_command_id ?r) = None" using no by (simp add: get_receipt_None)
  then have db': "db' = add_receipt (push_rows db (assign db inputs)) ?r" "cb_response x = response" "ledger_wf db'"
    using append_batch_with_receipt_Ok [OF wf ok] by auto
  have "nr_command_id ?r \<notin> receipt_ids (push_rows db (assign db inputs))" using no by (simp add: receipt_ids_def)
  from get_receipt_added [OF this, of "cd_stored (sv_codec S)"] show "ledger_wf db' \<and> (receipt_ids db' = receipt_ids db \<or>
      (\<exists>r. get_command_receipt (cd_stored (sv_codec S)) db' (uuid_str (sv_externals S) command) = Some r \<and> cr_response r = cb_response x))"
    using db' by (simp add: codec_okD(1) [OF assms])
qed

lemma inserted_receipt:
  assumes C: "codec_ok C" and "insert_command_receipt db r = Ok (db', c)" and "ledger_wf db"
  shows "ledger_wf db' \<and> get_command_receipt (cd_stored C) db' (nr_command_id r) = Some c \<and> cr_response c = nr_response r"
proof -
  have no: "nr_command_id r \<notin> receipt_ids db"
    using assms(2) by (auto simp: insert_command_receipt_def receipt_ids_def split: if_splits)
  have "c = \<lparr>cr_command_id = nr_command_id r, cr_method = nr_method r, cr_params_digest = nr_params_digest r,
      cr_response = nr_response r, cr_created_at = nr_created_at r\<rparr>" "db' = add_receipt db r" "ledger_wf db'"
    using insert_receipt_wf [OF assms(3) no] assms(2) by (auto simp: add_receipt_def)
  then show ?thesis using get_receipt_added [OF no, of "cd_stored C"] by (simp add: codec_okD(1) [OF C])
qed

lemma answered_receipt:
  assumes "codec_ok (sv_codec S)"
  shows "answered S command cr_response (on_ledger fault (\<lambda>db. record_command_receipt (cd_stored (sv_codec S)) db
    (receipt_of S command method digest response time)))"
proof (rule answered_on_ledger)
  fix db db' x
  assume wf: "ledger_wf db" and no: "uuid_str (sv_externals S) command \<notin> receipt_ids db"
    and ok: "record_command_receipt (cd_stored (sv_codec S)) db (receipt_of S command method digest response time) = Ok (db', x)"
  have "insert_command_receipt db (receipt_of S command method digest response time) = Ok (db', x)"
    using ok no committed_response_None [of "cd_stored (sv_codec S)" db "receipt_of S command method digest response time"]
    by (simp add: record_command_receipt_def)
  from inserted_receipt [OF assms this wf] show "ledger_wf db' \<and> (receipt_ids db' = receipt_ids db \<or>
      (\<exists>r. get_command_receipt (cd_stored (sv_codec S)) db' (uuid_str (sv_externals S) command) = Some r \<and> cr_response r = cr_response x))"
    by simp
qed

lemma answered_reconciliation:
  assumes C: "codec_ok (sv_codec S)"
  shows "answered S command cb_response (on_ledger fault (\<lambda>db. append_invocation_reconciliation_with_receipt (sv_codec S) (sv_externals S) db input
    (receipt_of S command method digest response time)))"
proof (rule answered_on_ledger)
  fix db db' x
  assume wf: "ledger_wf db" and no: "uuid_str (sv_externals S) command \<notin> receipt_ids db"
    and ok: "append_invocation_reconciliation_with_receipt (sv_codec S) (sv_externals S) db input
      (receipt_of S command method digest response time) = Ok (db', x)"
  let ?r = "receipt_of S command method digest response time"
  have "committed_response (cd_stored (sv_codec S)) db ?r = Ok None" using no by (simp add: committed_response_None)
  then obtain i st fin db1 evs c where
      "append_invocation_events_checked (sv_codec S) (sv_externals S) db [no_tool_result input, no_terminal_state input] i st fin = Ok (db1, evs)"
      "insert_command_receipt db1 ?r = Ok (db', c)" "cb_response x = cr_response c"
    using ok by (auto simp: append_invocation_reconciliation_with_receipt_def rbind_eq_Inr)
  with inserted_receipt [OF C _ conjunct1 [OF checked_step [OF wf]]] show "ledger_wf db' \<and> (receipt_ids db' = receipt_ids db \<or>
      (\<exists>r. get_command_receipt (cd_stored (sv_codec S)) db' (uuid_str (sv_externals S) command) = Some r \<and> cr_response r = cb_response x))"
    by (metis receipt_of_sel(1))
qed

lemma answered_commit:
  assumes "codec_ok (sv_codec S)"
  shows "answered S command (\<lambda>x. x) (commit_events S command method digest response inputs)"
  unfolding commit_events_def
  by (intro answered_bind quiet_rules answered_then [OF answered_batch [OF assms]])
    (auto simp: abind_def areturn_def split: prod.splits sum.splits)

lemma answered_commit_then:
  assumes "codec_ok (sv_codec S)" and "\<And>x. quiet (f x)" and "\<And>x d d' y. f x d = (d', Ok y) \<Longrightarrow> g y = x"
  shows "answered S command g (abind (commit_events S command method digest response inputs) f)"
  by (rule answered_then [OF answered_commit [OF assms(1)]]) (use assms in auto)

section \<open>The commands\<close>

lemma cancel_result: "abind (request_turn_cancel u) (\<lambda>_. areturn x) d = (d', Ok y) \<Longrightarrow> y = x"
  by (auto simp: abind_def areturn_def request_turn_cancel_def)

lemma send_result: "abind (send_events S rows) (\<lambda>_. areturn x) d = (d', Ok y) \<Longrightarrow> y = x"
  by (auto simp: abind_def areturn_def split: prod.splits sum.splits)

lemma quiet_interrupt_events [quiet_rules]: "quiet (interrupt_events S command params turn now)"
  unfolding interrupt_events_def Let_def by (intro quiet_rules)

lemma quiet_active [quiet_rules]: "quiet (case v of None \<Rightarrow> areturn () | Some x \<Rightarrow> afail (f x))"
  by (cases v) (simp_all add: quiet_rules)

lemma answered_commands:
  assumes C: "codec_ok (sv_codec S)"
  shows "answered S command (\<lambda>x. x) (workspace_open_cmd S command digest path)"
    "answered S command (\<lambda>x. x) (workspace_trust_cmd S command digest wp)"
    "answered S command (\<lambda>x. x) (thread_start S command digest sp)"
    "answered S command (\<lambda>x. x) (thread_fork S command digest fp)"
    "answered S command (\<lambda>x. x) (thread_archive S command digest t)"
    "answered S command fst (turn_start S command digest up)"
    "answered S command (\<lambda>x. x) (turn_steer S command digest tp)"
    "answered S command (\<lambda>x. x) (turn_interrupt S command digest ip)"
    "answered S command (\<lambda>x. x) (invocation_reconcile S command digest rp)"
    "answered S command (\<lambda>x. x) (job_create S command digest job)"
    "answered S command (\<lambda>x. x) (job_transition S command digest j to)"
proof -
  note rules = answered_bind answered_split answered_option quiet_rules quiet_answered [OF quiet_basic(1)] quiet_answered [OF quiet_basic(2)]
    answered_commit [OF C]
  show "answered S command (\<lambda>x. x) (workspace_open_cmd S command digest path)"
    "answered S command (\<lambda>x. x) (workspace_trust_cmd S command digest wp)"
    "answered S command (\<lambda>x. x) (thread_start S command digest sp)"
    "answered S command (\<lambda>x. x) (thread_fork S command digest fp)"
    "answered S command (\<lambda>x. x) (thread_archive S command digest t)"
    "answered S command (\<lambda>x. x) (turn_steer S command digest tp)"
    "answered S command (\<lambda>x. x) (job_create S command digest job)"
    "answered S command (\<lambda>x. x) (job_transition S command digest j to)"
    unfolding workspace_open_cmd_def workspace_trust_cmd_def thread_start_def thread_fork_def thread_archive_def turn_steer_def
      job_create_def job_transition_def
    by (intro rules)+
  show "answered S command fst (turn_start S command digest up)"
    unfolding turn_start_def
    by (intro answered_commit_then [OF C] rules) (auto simp: areturn_def)
  show "answered S command (\<lambda>x. x) (turn_interrupt S command digest ip)"
    unfolding turn_interrupt_def
    by (intro answered_commit_then [OF C] answered_then [OF answered_receipt [OF C]] rules) (auto dest: cancel_result)
  show "answered S command (\<lambda>x. x) (invocation_reconcile S command digest rp)"
    unfolding invocation_reconcile_def
    by (intro answered_then [OF answered_reconciliation [OF C]] rules) (auto dest: send_result)
qed

lemma answered_plain:
  "answered S command (\<lambda>x. x) m \<Longrightarrow> answered S command co_result (plain m)"
  unfolding plain_def by (rule answered_then) (auto simp: areturn_def plain_outcome_def intro: quiet_rules)

lemma answered_params: "(\<And>q. answered S command g (m q)) \<Longrightarrow> answered S command g (with_params f params m)"
  unfolding with_params_def by (intro answered_bind quiet_rules)

lemma answered_dispatch:
  assumes C: "codec_ok (sv_codec S)"
  shows "answered S command co_result (dispatch S method command params digest)"
proof -
  have run: "answered S command co_result (abind (turn_start S command digest q) (\<lambda>(result, run). areturn ((plain_outcome result)\<lparr>co_turn_run := Some run\<rparr>)))" for q
    by (rule answered_then [OF answered_commands(6) [OF C]])
      (auto simp: quiet_rules areturn_def plain_outcome_def split: prod.splits)
  show ?thesis
    unfolding dispatch_def Let_def
    by (intro answered_split answered_plain answered_params answered_commands [OF C] run quiet_answered [OF quiet_reads(1)]
      quiet_answered [OF quiet_reads(2)] quiet_answered [OF quiet_reads(3)] quiet_answered [OF quiet_reads(4)]
      quiet_answered [OF quiet_reads(5)] quiet_answered [OF quiet_reads(6)] quiet_answered [OF quiet_reads(7)]
      quiet_answered [OF quiet_reads(8)] quiet_answered [OF quiet_reads(9)] quiet_answered [OF quiet_reads(10)]
      quiet_answered [OF quiet_reads(11)] quiet_answered [OF quiet_basic(2)])
qed

section \<open>The receipt of a command\<close>

lemma record_receipt_stored:
  assumes C: "codec_ok C" and "ledger_wf db" and "record_command_receipt (cd_stored C) db r = Ok (db', c)"
  shows "get_command_receipt (cd_stored C) db' (nr_command_id r) = Some c \<and> cr_method c = nr_method r \<and>
    cr_params_digest c = nr_params_digest r \<and>
    (get_command_receipt (cd_stored C) db (nr_command_id r) = Some c \<or> cr_response c = nr_response r)"
proof (cases "get_command_receipt (cd_stored C) db (nr_command_id r)")
  case None
  then have ins: "insert_command_receipt db r = Ok (db', c)"
    using assms(3) by (simp add: record_command_receipt_def committed_response_def)
  then have "cr_method c = nr_method r \<and> cr_params_digest c = nr_params_digest r"
    by (auto simp: insert_command_receipt_def Let_def split: if_splits)
  then show ?thesis using inserted_receipt [OF C ins assms(2)] by simp
next
  case (Some e)
  then show ?thesis using assms(3) by (auto simp: record_command_receipt_def committed_response_def split: if_splits)
qed

text \<open>The receipt that answers a command after it ran.\<close>

definition has_receipt :: "'w service \<Rightarrow> command_envelope \<Rightarrow> json \<Rightarrow> 'w daemon \<Rightarrow> bool" where
  "has_receipt S command response d \<longleftrightarrow>
     (\<exists>r. receipt_in S (ce_command_id command) d = Some r \<and> cr_method r = ce_method command \<and>
        cr_params_digest r = digest_value (sv_externals S) (ce_params command) \<and> cr_response r = response)"

lemma fresh_command_recorded:
  assumes C: "codec_ok (sv_codec S)" and wf: "ledger_wf (dm_ledger d)" and none: "receipt_in S (ce_command_id command) d = None"
    and "ce_method command \<noteq> INITIALIZE"
    and run: "fresh_command S command (digest_value (sv_externals S) (ce_params command)) d = (d', Ok out)"
  shows "has_receipt S command (co_result out) d'"
proof -
  let ?digest = "digest_value (sv_externals S) (ce_params command)"
  obtain d1 time c db where d1: "dispatch S (ce_method command) (ce_command_id command) (ce_params command) ?digest d = (d1, Ok out)"
    and rec: "record_command_receipt (cd_stored (sv_codec S)) (dm_ledger d1)
        (receipt_of S (ce_command_id command) (ce_method command) ?digest (co_result out) time) = Ok (db, c)"
    and d': "dm_ledger d' = db"
    using run assms(4) by (auto simp: fresh_command_def abind_def areturn_def clock_now_def on_ledger_def split: prod.splits sum.splits)
  from answered_dispatch [OF C, of "ce_command_id command"] wf none d1
  have "ledger_wf (dm_ledger d1)" and resp: "\<And>r. receipt_in S (ce_command_id command) d1 = Some r \<Longrightarrow> cr_response r = co_result out"
    unfolding answered_def by blast+
  from record_receipt_stored [OF C this(1) rec] resp show ?thesis
    using d' by (auto simp: has_receipt_def command_receipt_of_def receipt_of_def)
qed

lemma run_command_recorded:
  assumes "codec_ok (sv_codec S)" and "ledger_wf (dm_ledger d)" and "ce_method command \<noteq> INITIALIZE" and "ce_method command \<noteq> THREAD_SUBSCRIBE"
    and run: "run_command S command d = (d', Ok out)"
  shows "has_receipt S command (co_result out) d'"
proof (cases "receipt_in S (ce_command_id command) d")
  case None
  then show ?thesis
    using fresh_command_recorded [OF assms(1,2) None assms(3)] run assms(3) by (simp add: run_command_def Let_def)
next
  case (Some r)
  then have "repeated_command S command (digest_value (sv_externals S) (ce_params command)) r d = (d', Ok out)"
    using run assms(3) by (simp add: run_command_def Let_def)
  then show ?thesis
    using assms(4) Some
    by (auto simp: repeated_command_def abind_def fail_unless_def aguard_def areturn_def afail_def has_receipt_def plain_outcome_def split: if_splits)
qed

lemma receipt_extends:
  assumes "extends db db'" and "get_command_receipt stored db i = Some r"
  shows "get_command_receipt stored db' i = Some r"
proof -
  have "find P (xs @ ys) = (case find P xs of None \<Rightarrow> find P ys | Some x \<Rightarrow> Some x)" for P and xs ys :: "command_receipt list"
    by (induction xs) auto
  then show ?thesis using assms by (auto simp: extends_def get_command_receipt_def)
qed

section \<open>Properties\<close>



end
