(* ===== verification/Command_Responses.thy ===== *)
theory Command_Responses
  imports Demo_Run
begin

text \<open>
  What a client is told is what the daemon recorded: the response of a committing command is
  computed before the commit, and this theory shows that it agrees with the projection after
  it. The handlers are executed symbolically as in \<open>Command_Safety\<close>.
\<close>

definition no_receipt :: "'w service \<Rightarrow> command_id \<Rightarrow> ledger \<Rightarrow> bool" where
  "no_receipt S command db \<longleftrightarrow> uuid_str (sv_externals S) command \<notin> receipt_ids db"

text \<open>A response agrees with the state when the projection satisfies a predicate of both.\<close>

definition agrees :: "'w service \<Rightarrow> (projection \<Rightarrow> 'a \<Rightarrow> bool) \<Rightarrow> 'a \<Rightarrow> 'w daemon \<Rightarrow> bool" where
  "agrees S V x d \<longleftrightarrow>
     (\<exists>p. project_core (sv_codec S) (sv_externals S) (dm_ledger d) = Ok p \<and> V p x)"

lemma agreesI: "at_history S (by_clients S B) R es p us d \<Longrightarrow> V p x \<Longrightarrow> agrees S V x d"
  using project_core_eq [of "sv_codec S" "sv_externals S" UNIV "dm_ledger d" es] by (auto simp: agrees_def at_history_def)

lemma run_commit_agrees:
  assumes "history_facts S es p us \<Longrightarrow> commits S (by_clients S B) es p us ds"
    and "\<And>p'. history_facts S es p us \<Longrightarrow> applies (sv_externals S) es p ds = Some p' \<Longrightarrow> V p' response"
  shows "valid_run S (by_clients S B) (at_history S (by_clients S B) (no_receipt S command) es p us)
    (commit_events S command method digest response (map (input_of (sv_codec S) (sv_externals S)) ds)) (agrees S V)"
proof (cases "history_facts S es p us")
  case True
  then obtain p' where p': "applies (sv_externals S) es p ds = Some p'" using assms(1) by (auto simp: commits_def)
  have ds: "\<forall>e \<in> set ds. en_schema_version e = PROTOCOL_VERSION \<and> gr_allows (by_clients S B) (en_turn_id e) (en_event e)" "used ds \<subseteq> used es \<union> set us"
    using assms(1) True by (auto simp: commits_def)
  have V: "V p' response" by (rule assms(2) [OF True p'])
  show ?thesis
    by (rule run_post [OF run_commit [OF p' ds]])
      (auto simp: no_receipt_def at_history_def [of S _ "no_receipt S command"] intro: agreesI [where V = V, OF _ V])
next
  case False
  then show ?thesis using at_history_facts unfolding valid_run_def by blast
qed

lemmas run_commit_agrees_one = run_commit_agrees [where ds = "[e]" for e, unfolded list.map]

definition shows_thread :: "'w service \<Rightarrow> projection \<Rightarrow> json \<Rightarrow> bool" where
  "shows_thread S p x \<longleftrightarrow> (\<exists>t. bt_get (pr_threads p) (th_id t) = Some t \<and> x = encode S (ThreadResult t))"

definition shows_workspace :: "'w service \<Rightarrow> projection \<Rightarrow> json \<Rightarrow> bool" where
  "shows_workspace S p x \<longleftrightarrow> (\<exists>w. bt_get (pr_workspaces p) (ws_id w) = Some w \<and> x = encode S (WorkspaceResult w))"

definition shows_job :: "'w service \<Rightarrow> projection \<Rightarrow> json \<Rightarrow> bool" where
  "shows_job S p x \<longleftrightarrow>
     (\<exists>j. bt_get (pr_jobs p) (js_id (pj_spec j)) = Some j \<and> x = encode S (JobResult (pj_spec j) (pj_state j)))"

abbreviation ready :: "'w service \<Rightarrow> event_envelope list \<times> uuid set \<Rightarrow> command_id \<Rightarrow> 'w daemon \<Rightarrow> bool" where
  "ready S B command d \<equiv> grown_ok S (by_clients S B) d \<and> no_receipt S command (dm_ledger d)"

lemma unused_thread: "history_facts S es p us \<Longrightarrow> t \<in> set us \<Longrightarrow> events_of_thread t es = []"
  by (auto simp: history_facts_def used_def mentions_def events_of_thread_def filter_empty_conv)

lemmas agree_simps = shows_thread_def shows_workspace_def shows_job_def applies.simps Let_def handler_defs bt_contains_def

lemma started_thread_shown:
  assumes "history_facts S es p us" and "applies X es p [draft e t turn agent now c ev] = Some p'" and "t \<in> set us" and "ev = ThreadStarted (thread_of t w parent title now) \<or> ev = ThreadForked (thread_of t w parent title now)"
  shows "shows_thread S p' (encode S (ThreadResult ((thread_of t w parent title now)\<lparr>th_last_seq := 1\<rparr>)))"
  using assms(2,4) unused_thread [OF assms(1,3)] fresh_entity [OF assms(1,3)]
  unfolding shows_thread_def
  by (intro exI [of _ "(thread_of t w parent title now)\<lparr>th_last_seq := 1\<rparr>"])
    (auto simp: agree_simps thread_of_def split: prod.splits sum.splits if_splits option.splits)

lemma thread_start_agrees: "valid_run S (by_clients S B) (ready S B command) (thread_start S command digest params) (agrees S (shows_thread S))"
  unfolding thread_start_def
  by (intro run_rules run_commit_agrees_one;
    (assumption | erule conjunct1 | erule at_history_ok | (erule started_thread_shown, assumption, simp_all)[1] |
     simp add: commit_simps thread_of_def)?)

lemma thread_fork_agrees: "valid_run S (by_clients S B) (ready S B command) (thread_fork S command digest params) (agrees S (shows_thread S))"
  unfolding thread_fork_def
  by (intro run_rules run_commit_agrees_one;
    (assumption | erule conjunct1 | erule at_history_ok | (erule started_thread_shown, assumption, simp_all)[1] |
     (auto simp: commit_simps thread_of_def thread_parents dest: thread_parents)[1])?)

lemma archived_thread_shown:
  assumes "history_facts S es p us" and "applies X es p [draft e t None agent now c (ThreadArchived t)] = Some p'"
    and "bt_get (pr_threads p) t = Some th"
  shows "shows_thread S p' (encode S (ThreadResult (th\<lparr>th_status := Archived, th_updated_at := now, th_last_seq := th_last_seq th + 1\<rparr>)))"
proof -
  have "th_last_seq th = length (events_of_thread t es)" "th_id th = t"
    using assms(1,3) thread_parents [OF assms(1,3)] by (auto simp: history_facts_def proj_ok_def seqs_ok_def last_seq_def split: option.splits)
  then show ?thesis
    using assms(2,3)
    by (auto simp: agree_simps split: prod.splits sum.splits if_splits option.splits
      intro!: exI [of _ "th\<lparr>th_status := Archived, th_updated_at := now, th_last_seq := th_last_seq th + 1\<rparr>"])
qed

lemma kept_thread_shown:
  assumes "bt_get (pr_threads p) t = Some th" and "at_history S (by_clients S B) R es p us d"
  shows "agrees S (shows_thread S) (encode S (ThreadResult th)) d"
  using thread_parents(1) [OF at_history_facts [OF assms(2)] assms(1)] assms
  by (intro agreesI [OF assms(2)]) (auto simp: shows_thread_def)

lemma thread_archive_agrees: "valid_run S (by_clients S B) (ready S B command) (thread_archive S command digest t) (agrees S (shows_thread S))"
  unfolding thread_archive_def
  by (intro run_rules run_commit_agrees_one;
    (erule at_history_ok | (rule kept_thread_shown, simp, assumption)[1] | (erule archived_thread_shown, assumption, simp)[1] |
     simp add: commit_simps entityD)?)

lemma run_files_at:
  assumes "\<And>x. valid_run S (by_clients S B) (\<lambda>d. grown_ok S (by_clients S B) d \<and> R (dm_ledger d)) (f x) Q"
  shows "valid_run S (by_clients S B) (\<lambda>d. grown_ok S (by_clients S B) d \<and> R (dm_ledger d)) (abind (on_files S m) f) Q"
proof (rule run_bind [OF _ assms])
  have "grown_ok S (by_clients S B) (d\<lparr>dm_world := w\<rparr>) = grown_ok S (by_clients S B) d" for d w by (simp add: grown_ok_def)
  then show "valid_run S (by_clients S B) (\<lambda>d. grown_ok S (by_clients S B) d \<and> R (dm_ledger d)) (on_files S m) (\<lambda>_ d. grown_ok S (by_clients S B) d \<and> R (dm_ledger d))"
    by (auto simp: valid_run_def on_files_def split: prod.splits sum.splits)
qed

lemma bt_values_find: "find P (bt_values m) = Some w \<Longrightarrow> bt_wf m \<Longrightarrow> \<exists>k. bt_get m k = Some w"
  using bt_values_iff by (metis find_Some_iff nth_mem)

lemma workspace_key:
  assumes "history_facts S es p us" and "bt_get (pr_workspaces p) k = Some w"
  shows "ws_id w = k"
  using assms by (auto simp: history_facts_def proj_ok_def keys_ok_def)

lemma found_workspace_shown:
  assumes "find P (bt_values (pr_workspaces p)) = Some w" and "at_history S (by_clients S B) R es p us d"
  shows "agrees S (shows_workspace S) (encode S (WorkspaceResult w)) d"
proof -
  note f = at_history_facts [OF assms(2)]
  have "bt_wf (pr_workspaces p)" using f by (simp add: history_facts_def proj_ok_def maps_wf_def)
  then obtain k where "bt_get (pr_workspaces p) k = Some w" using bt_values_find [OF assms(1)] by blast
  with workspace_key [OF f] show ?thesis by (intro agreesI [OF assms(2)]) (auto simp: shows_workspace_def)
qed

lemma opened_workspace_shown:
  assumes "applies X es p [draft e (ws_id w) None agent now c (WorkspaceOpened w)] = Some p'"
  shows "shows_workspace S p' (encode S (WorkspaceResult w))"
  using assms by (auto simp: agree_simps split: if_splits)

lemma trusted_workspace_shown:
  assumes "history_facts S es p us" and "applies X es p [draft e k None agent now c (WorkspaceTrustChanged k trust)] = Some p'"
    and "bt_get (pr_workspaces p) k = Some w"
  shows "shows_workspace S p' (encode S (WorkspaceResult (w\<lparr>ws_trust := trust\<rparr>)))"
  unfolding shows_workspace_def
  using assms(2,3) workspace_key [OF assms(1,3)] by (intro exI [of _ "w\<lparr>ws_trust := trust\<rparr>"]) (auto simp: agree_simps)

lemma kept_workspace_shown:
  assumes "bt_get (pr_workspaces p) k = Some w" and "at_history S (by_clients S B) R es p us d"
  shows "agrees S (shows_workspace S) (encode S (WorkspaceResult w)) d"
  using workspace_key [OF at_history_facts [OF assms(2)] assms(1)] assms
  by (intro agreesI [OF assms(2)]) (auto simp: shows_workspace_def)

lemma workspace_open_agrees: "valid_run S (by_clients S B) (ready S B command) (workspace_open_cmd S command digest path) (agrees S (shows_workspace S))"
  unfolding workspace_open_cmd_def
  by (intro run_rules run_files_at run_commit_agrees_one;
    (erule at_history_ok | (erule found_workspace_shown, assumption)[1] | (rule opened_workspace_shown, simp)[1] | simp add: commit_simps)?)

lemma workspace_trust_agrees: "valid_run S (by_clients S B) (ready S B command) (workspace_trust_cmd S command digest params) (agrees S (shows_workspace S))"
  unfolding workspace_trust_cmd_def
  by (intro run_rules run_commit_agrees_one;
    (erule at_history_ok | (rule kept_workspace_shown, simp, assumption)[1] | (erule trusted_workspace_shown, assumption, simp)[1] |
     simp add: commit_simps entityD)?)

section \<open>Turns and jobs\<close>

definition shows_turn :: "'w service \<Rightarrow> projection \<Rightarrow> json \<times> turn_run_spec \<Rightarrow> bool" where
  "shows_turn S p x \<longleftrightarrow>
     (\<exists>u. bt_get (pr_turns p) (tr_turn_id (snd x)) = Some u \<and> tu_id u = tr_turn_id (snd x) \<and> tu_thread_id u = tr_thread_id (snd x) \<and>
        tu_state u = Accepted \<and> fst x = encode S (TurnResult u))"

lemma started_turn_shown:
  assumes "history_facts S es p us" and "applies X es p
      [draft e1 t (Some u) agent now c (TurnStarted (turn_of u t agent now)),
       draft e2 t (Some u) agent now c (ItemAdded (user_message S i (turn_of u t agent now) params))] = Some p'"
  shows "shows_turn S p' (encode S (TurnResult (turn_of u t agent now)), \<lparr>tr_thread_id = t, tr_turn_id = u\<rparr>)"
  using assms by (auto simp: shows_turn_def agree_simps turn_of_def user_message_def split: if_splits option.splits)

lemma run_commit_agrees_then:
  assumes "history_facts S es p us \<Longrightarrow> commits S (by_clients S B) es p us ds"
    and "\<And>p'. history_facts S es p us \<Longrightarrow> applies (sv_externals S) es p ds = Some p' \<Longrightarrow> V p' (response, y)"
  shows "valid_run S (by_clients S B) (at_history S (by_clients S B) (no_receipt S command) es p us)
    (abind (commit_events S command method digest response (map (input_of (sv_codec S) (sv_externals S)) ds)) (\<lambda>x. areturn (x, y))) (agrees S V)"
proof (rule run_bind [OF run_commit_agrees [where V = "\<lambda>p x. V p (x, y)"]])
  show "valid_run S (by_clients S B) (agrees S (\<lambda>p x. V p (x, y)) x) (areturn (x, y)) (agrees S V)" for x
    by (rule run_return) (simp add: agrees_def)
qed (use assms in auto)

lemmas run_commit_agrees_two = run_commit_agrees_then [where ds = "[e, f]" for e f, unfolded list.map]

lemma turn_start_agrees: "valid_run S (by_clients S B) (ready S B command) (turn_start S command digest params) (agrees S (shows_turn S))"
  unfolding turn_start_def
  by (intro run_rules(1-4) run_Let run_if run_unless_some run_lift run_guard run_projection_at run_clock run_uuid run_new_event run_commit_agrees_two;
    (assumption | erule conjunct1 | erule at_history_ok | (erule started_turn_shown, assumption)[1] | (rule turn_start_commits, auto)[1])?)

lemma created_job_shown:
  assumes "applies X es p [draft e t None agent now c (JobCreated job)] = Some p'"
  shows "shows_job S p' (encode S (JobResult job job_state.Active))"
  unfolding shows_job_def using assms
  by (intro exI [of _ "\<lparr>pj_spec = job, pj_state = job_state.Active\<rparr>"]) (auto simp: agree_simps split: if_splits)

lemma changed_job_shown:
  assumes "history_facts S es p us" and "applies X es p [draft e t None agent now c (JobStateChanged k (pj_state j) to)] = Some p'"
    and "bt_get (pr_jobs p) k = Some j"
  shows "shows_job S p' (encode S (JobResult (pj_spec j) to))"
proof -
  have "js_id (pj_spec j) = k" using assms(1,3) by (auto simp: history_facts_def proj_ok_def keys_ok_def)
  then show ?thesis
    unfolding shows_job_def using assms(2,3) by (intro exI [of _ "j\<lparr>pj_state := to\<rparr>"]) (auto simp: agree_simps)
qed

lemma job_create_agrees: "valid_run S (by_clients S B) (ready S B command) (job_create S command digest job) (agrees S (shows_job S))"
  unfolding job_create_def
  by (intro run_rules run_commit_agrees_one;
    (assumption | erule conjunct1 | erule at_history_ok | (erule created_job_shown)[1] | (auto simp: commit_simps dest: entityD)[1])?)

lemma job_transition_agrees: "valid_run S (by_clients S B) (ready S B command) (job_transition S command digest k to) (agrees S (shows_job S))"
  unfolding job_transition_def
  by (intro run_rules run_commit_agrees_one;
    (assumption | erule at_history_ok | (erule changed_job_shown, assumption, simp)[1] | (auto simp: commit_simps dest: entityD)[1])?)

section \<open>Properties\<close>

lemma agreesD:
  assumes "\<And>B. valid_run S (by_clients S B) (ready S B command) m (agrees S V)" and "daemon_ok S d" and "no_receipt S command (dm_ledger d)"
    and "m d = (d', Ok x)"
  shows "\<exists>p. project_core (sv_codec S) (sv_externals S) (dm_ledger d') = Ok p \<and> V p x"
proof -
  obtain B where "grown_ok S (by_clients S B) d" using daemon_ok_grown [OF assms(2)] by blast
  then show ?thesis using valid_runD [OF assms(1) [of B] _ assms(4)] assms(3) by (simp add: agrees_def)
qed



end
