(* ===== verification/Daemon_Recovery.thy ===== *)
theory Daemon_Recovery
  imports Demo_Run
begin

text \<open>
  The recovery at startup. Whatever was running when the daemon stopped is settled: an
  invocation that had not started fails, one that had started becomes unknown, and every
  turn fails. The steps of the recovery are executed symbolically as in \<open>Command_Safety\<close>.
\<close>

named_theorems recovery_rules \<open>symbolic execution of the recovery\<close>

section \<open>The scope of a proposal\<close>

abbreviation scope_of :: "projected_invocation \<Rightarrow> thread_id \<times> turn_id \<times> agent_id" where
  "scope_of v \<equiv> (pv_thread_id v, pv_turn_id v, pv_agent_id v)"

definition scopes_match :: "proposal_scopes \<Rightarrow> projection \<Rightarrow> bool" where
  "scopes_match m p \<longleftrightarrow> (\<forall>k v. bt_get (pr_invocations p) k = Some v \<longrightarrow> bt_get m k = Some (scope_of v))"

lemma scope_step_matches:
  assumes "apply_event X p env (en_event env) = (q, Ok ())" and "scopes_match m p"
  shows "\<exists>m'. scope_step S m env = Ok m' \<and> scopes_match m' q"
  using assms
  by (cases "en_event env")
    (auto simp: scope_step_def scopes_match_def handler_defs Let_def split: if_splits option.splits)

lemma invocation_envelopes_append:
  "invocation_envelopes S m (xs @ ys) = rbind (invocation_envelopes S m xs) (\<lambda>m'. invocation_envelopes S m' ys)"
  by (induction xs arbitrary: m) (simp_all add: rbind_assoc)

lemma invocation_envelopes_match:
  assumes C: "port_codec_ok (sv_codec S) (sv_externals S) UNIV"
    and "list_all2 (row_of (sv_codec S) (sv_externals S) UNIV) es rows" and "replay (sv_externals S) es = Ok p"
  shows "\<exists>m. invocation_envelopes S bt_empty rows = Ok m \<and> scopes_match m p"
  using assms(2,3)
proof (induction es arbitrary: rows p rule: rev_induct)
  case Nil
  then show ?case by (auto simp: replay_def projection_default_def scopes_match_def)
next
  case (snoc env es)
  then obtain row rs where rows: "rows = rs @ [row]" "list_all2 (row_of (sv_codec S) (sv_externals S) UNIV) es rs"
      "row_of (sv_codec S) (sv_externals S) UNIV env row"
    by (auto simp: list_all2_append1 list_all2_Cons1)
  obtain q where q: "replay (sv_externals S) es = Ok q" "apply_step (sv_externals S) q env = Ok p"
    using snoc.prems(2) by (auto simp: replay_def replays.run_snoc rbind_eq_Inr)
  then obtain q' where q': "apply_event (sv_externals S) q env (en_event env) = (q', Ok ())" "p = record_event q' env"
    by (auto simp: apply_step_Ok)
  obtain m where m: "invocation_envelopes S bt_empty rs = Ok m" "scopes_match m q"
    using snoc.IH [OF rows(2) q(1)] by blast
  obtain m' where "scope_step S m env = Ok m'" "scopes_match m' q'"
    using scope_step_matches [OF q'(1) m(2)] by blast
  then show ?case
    using m envelope_of_row [OF C rows(3)] by (auto simp: rows(1) invocation_envelopes_append q'(2) scopes_match_def)
qed

section \<open>Symbolic execution\<close>

text \<open>Nothing restricts what the recovery appends.\<close>

abbreviation anything :: growth where
  "anything \<equiv> Growth [] {} (\<lambda>_ _. True)"

lemma grown_anything: "grown_ok S anything d \<longleftrightarrow> daemon_ok S d"
  by (simp add: grown_ok_def daemon_ok_def)

lemma recovery_uuid_draw: "recovery_uuid S = draw S IdError"
  by (simp add: recovery_uuid_def draw_def fun_eq_iff)

lemmas run_recovery_uuid [recovery_rules] = run_draw [where G = anything and err = IdError, folded recovery_uuid_draw]

lemma run_recovery_now [recovery_rules]:
  assumes "\<And>now. valid_run S anything (at_history S anything R es p us) (f now) Q"
  shows "valid_run S anything (at_history S anything R es p us) (abind (recovery_now S) f) Q"
  by (rule run_bind [OF _ assms]) (auto simp: valid_run_def recovery_now_def)

lemma new_recovery_event_eq:
  assumes "port_codec_ok (sv_codec S) (sv_externals S) UNIV"
  shows "new_recovery_event S t turn agent time causation ev =
    abind (recovery_uuid S) (\<lambda>u. areturn (input_of (sv_codec S) (sv_externals S) (draft u t turn agent time causation ev)))"
proof -
  have "json_get (cd_event_value (sv_codec S) ev) ''kind'' = Some (JString (event_kind ev))"
    using assms unfolding port_codec_ok_def by auto
  then show ?thesis
    by (simp add: new_recovery_event_def Let_def json_as_str_def ok_or_def alift_def abind_def input_of_def draft_def fun_eq_iff)
qed

lemma run_recovery_event [recovery_rules]:
  assumes "\<And>u. valid_run S anything (at_history S anything R es p (u # us))
    (f (input_of (sv_codec S) (sv_externals S) (draft u t turn agent time causation ev))) Q"
  shows "valid_run S anything (at_history S anything R es p us) (abind (new_recovery_event S t turn agent time causation ev) f) Q"
  by (rule run_codec) (simp add: new_recovery_event_eq abind_assoc abind_return run_recovery_uuid assms)

lemma recovery_ledger_call: "recovery_ledger t = ledger_call LedgerError t"
  by (simp add: recovery_ledger_def ledger_call_def fun_eq_iff)

section \<open>Invocations\<close>

text \<open>An invocation that the daemon will never run again by itself.\<close>

definition settled :: "projected_invocation \<Rightarrow> bool" where
  "settled v \<longleftrightarrow> inv_is_terminal (pv_state v) \<or> pv_state v = invocation_state.Unknown"

definition turns_of_invocations_exist :: "projection \<Rightarrow> bool" where
  "turns_of_invocations_exist p \<longleftrightarrow> (\<forall>k v. bt_get (pr_invocations p) k = Some v \<longrightarrow> bt_contains (pr_turns p) (pv_turn_id v))"

text \<open>
  The state of the recovery of the projection \<open>p\<close> while the invocations \<open>vs\<close> are left: these
  are as they were, all others are settled, and the turns have not changed.
\<close>

definition left_to_recover :: "projection \<Rightarrow> projected_invocation list \<Rightarrow> projection \<Rightarrow> bool" where
  "left_to_recover p vs q \<longleftrightarrow>
     pr_turns q = pr_turns p \<and> (\<forall>v \<in> set vs. bt_get (pr_invocations q) (pv_invocation_id v) = Some v) \<and>
     (\<forall>k w. bt_get (pr_invocations q) k = Some w \<longrightarrow> pv_invocation_id w = k \<and> (settled w \<or> w \<in> set vs))"

definition recovering :: "'w service \<Rightarrow> projection \<Rightarrow> projected_invocation list \<Rightarrow> 'w daemon \<Rightarrow> bool" where
  "recovering S p vs d \<longleftrightarrow> (\<exists>es q. at_history S anything (\<lambda>_. True) es q [] d \<and> left_to_recover p vs q)"

lemma recoveringI: "at_history S anything R es q us d \<Longrightarrow> left_to_recover p vs q \<Longrightarrow> recovering S p vs d"
  unfolding recovering_def using at_history_fewer at_history_any by blast

lemma run_recovering:
  assumes "\<And>es q. left_to_recover p vs q \<Longrightarrow> valid_run S anything (at_history S anything (\<lambda>_. True) es q []) m Q"
  shows "valid_run S anything (recovering S p vs) m Q"
  using assms unfolding valid_run_def recovering_def by blast

lemma recovered_transition:
  "recovered_state s = Some to \<Longrightarrow> can_transition_invocation_with_idempotency s to i \<and>
     (to = invocation_state.Failed \<or> to = invocation_state.Unknown \<and> s = Started)"
  by (cases s) (auto simp: recovered_state_def can_transition_invocation_with_idempotency_def can_transition_invocation_def
      invocation_edges_def inv_is_terminal_def)

lemma recovered_None: "recovered_state s = None \<longleftrightarrow> inv_is_terminal s \<or> s = invocation_state.Unknown"
  by (cases s) (simp_all add: recovered_state_def inv_is_terminal_def)

lemma unknown_commits:
  assumes "history_facts S es q us" and "bt_get (pr_invocations q) (pv_invocation_id v) = Some v"
    and "recovered_state (pv_state v) = Some to" and "u \<in> set us"
  shows "commits S anything es q us [draft u (pv_thread_id v) (Some (pv_turn_id v)) (pv_agent_id v) now c
    (InvocationStateChanged (pv_invocation_id v) (pv_state v) to r)]"
  using assms recovered_transition [OF assms(3)] entityD(5) [OF assms(1,2)]
  by (auto simp: commit_simps wrong_parent_def)

lemma failed_commits:
  assumes "history_facts S es q us" and "bt_get (pr_invocations q) (pv_invocation_id v) = Some v"
    and "recovered_state (pv_state v) = Some to" and "us = [e2, i, e1]" and "bt_contains (pr_turns q) (pv_turn_id v)"
  shows "commits S anything es q us
    [draft e2 (pv_thread_id v) (Some (pv_turn_id v)) (pv_agent_id v) now c
       (ItemAdded (interrupted_item S i (pv_thread_id v) (pv_turn_id v) (pv_agent_id v) v now)),
     draft e1 (pv_thread_id v) (Some (pv_turn_id v)) (pv_agent_id v) now c
       (InvocationStateChanged (pv_invocation_id v) (pv_state v) to r)]"
  using assms recovered_transition [OF assms(3)] entityD(5) [OF assms(1,2)]
  by (auto simp: commit_simps wrong_parent_def interrupted_item_def)

text \<open>What the recovery of one invocation leaves.\<close>

lemma one_recovered:
  assumes "left_to_recover p (v # vs) q" and "recovered_state (pv_state v) = Some to" and "v \<notin> set vs"
    and "\<forall>w \<in> set vs. pv_invocation_id w \<noteq> pv_invocation_id v"
    and "pr_turns q' = pr_turns q" and "pr_invocations q' = bt_insert (pr_invocations q) (pv_invocation_id v) (v\<lparr>pv_state := to, pv_reason := r\<rparr>)"
  shows "left_to_recover p vs q'"
proof -
  have "settled (v\<lparr>pv_state := to, pv_reason := r\<rparr>)"
    using recovered_transition [OF assms(2), of NonIdempotent] by (auto simp: settled_def inv_is_terminal_def)
  then show ?thesis using assms(1,4-6) by (auto simp: left_to_recover_def)
qed

lemma unknown_recovered:
  assumes "history_facts S es q us" and "bt_get (pr_invocations q) (pv_invocation_id v) = Some v"
    and "recovered_state (pv_state v) = Some to"
  and q': "q' = the (applies X es q [draft u (pv_thread_id v) (Some (pv_turn_id v)) (pv_agent_id v) now c
    (InvocationStateChanged (pv_invocation_id v) (pv_state v) to r)])"
  shows "pr_turns q' = pr_turns q" and "pr_invocations q' = bt_insert (pr_invocations q) (pv_invocation_id v) (v\<lparr>pv_state := to, pv_reason := r\<rparr>)"
  using assms recovered_transition [OF assms(3)] by (auto simp: handler_defs Let_def wrong_parent_def)

lemma failed_recovered:
  assumes "history_facts S es q us" and "bt_get (pr_invocations q) (pv_invocation_id v) = Some v"
    and "recovered_state (pv_state v) = Some to" and "i \<in> set us" and "bt_contains (pr_turns q) (pv_turn_id v)"
  and q': "q' = the (applies X es q
    [draft e2 (pv_thread_id v) (Some (pv_turn_id v)) (pv_agent_id v) now c
       (ItemAdded (interrupted_item S i (pv_thread_id v) (pv_turn_id v) (pv_agent_id v) v now)),
     draft e1 (pv_thread_id v) (Some (pv_turn_id v)) (pv_agent_id v) now c
       (InvocationStateChanged (pv_invocation_id v) (pv_state v) to r)])"
  shows "pr_turns q' = pr_turns q" and "pr_invocations q' = bt_insert (pr_invocations q) (pv_invocation_id v) (v\<lparr>pv_state := to, pv_reason := r\<rparr>)"
  using assms recovered_transition [OF assms(3)] fresh_entity [OF assms(1,4)]
  by (auto simp: handler_defs Let_def wrong_parent_def interrupted_item_def)

lemma recover_invocation_keeps:
  assumes m: "scopes_match scopes p" and t: "turns_of_invocations_exist p" and v: "bt_get (pr_invocations p) (pv_invocation_id v) = Some v"
    and vs: "\<forall>w \<in> set vs. pv_invocation_id w \<noteq> pv_invocation_id v"
  shows "valid_run S anything (recovering S p (v # vs)) (recover_invocation S scopes now v) (\<lambda>_. recovering S p vs)"
proof (rule run_recovering)
  fix es q assume q: "left_to_recover p (v # vs) q"
  have scope: "bt_get scopes (pv_invocation_id v) = Some (scope_of v)" using m v by (simp add: scopes_match_def)
  have qv: "bt_get (pr_invocations q) (pv_invocation_id v) = Some v" using q by (simp add: left_to_recover_def)
  have turn: "bt_contains (pr_turns q) (pv_turn_id v)" using q t v by (auto simp: left_to_recover_def turns_of_invocations_exist_def)
  have nv: "v \<notin> set vs" using vs by auto
  show "valid_run S anything (at_history S anything (\<lambda>_. True) es q []) (recover_invocation S scopes now v) (\<lambda>_. recovering S p vs)"
  proof (cases "recovered_state (pv_state v)")
    case None
    then have "left_to_recover p vs q" using q recovered_None by (auto simp: left_to_recover_def settled_def)
    then show ?thesis using None by (auto simp: recover_invocation_def intro!: run_return recoveringI)
  next
    case (Some to)
    have found: "abind (alift (ok_or e (Some x))) f = f x" for e x and f :: "_ \<Rightarrow> ('a, unit) recovery"
      by (simp add: abind_def alift_def ok_or_def fun_eq_iff)
    note rest = one_recovered [OF q Some nv vs]
    have unknown: "valid_run S anything (at_history S anything (\<lambda>_. True) es q [u]) (recovery_ledger (\<lambda>db. append_invocation_unknown (sv_codec S) (sv_externals S) db
        \<lparr>nu_state = input_of (sv_codec S) (sv_externals S) (draft u (pv_thread_id v) (Some (pv_turn_id v)) (pv_agent_id v) now c
           (InvocationStateChanged (pv_invocation_id v) (pv_state v) to r))\<rparr>)) (\<lambda>_. recovering S p vs)" for u c r
    proof (rule run_history_facts)
      assume h: "history_facts S es q [u]"
      note new = unknown_recovered [OF h qv Some refl]
      show ?thesis
        by (rule run_post [OF run_appending_forms(1) [where err = LedgerError, folded recovery_ledger_call, OF unknown_appends unknown_commits [OF _ qv Some]]], assumption, assumption, simp, simp,
          erule recoveringI, rule rest [OF new])
    qed
    have failed: "valid_run S anything (at_history S anything (\<lambda>_. True) es q [e2, i, e1]) (recovery_ledger (\<lambda>db. append_invocation_outcome (sv_codec S) (sv_externals S) db
        \<lparr>no_tool_result = input_of (sv_codec S) (sv_externals S) (draft e2 (pv_thread_id v) (Some (pv_turn_id v)) (pv_agent_id v) now c
           (ItemAdded (interrupted_item S i (pv_thread_id v) (pv_turn_id v) (pv_agent_id v) v now))),
         no_terminal_state = input_of (sv_codec S) (sv_externals S) (draft e1 (pv_thread_id v) (Some (pv_turn_id v)) (pv_agent_id v) now c
           (InvocationStateChanged (pv_invocation_id v) (pv_state v) to r))\<rparr>)) (\<lambda>_. recovering S p vs)" for e2 i e1 c r
    proof (rule run_history_facts)
      assume h: "history_facts S es q [e2, i, e1]"
      note new = failed_recovered [OF h qv Some _ turn refl]
      show ?thesis
        by (rule run_post [OF run_appending_forms(2) [where err = LedgerError, folded recovery_ledger_call, OF outcome_appends failed_commits [OF _ qv Some _ turn]]], assumption, assumption, simp, simp,
          erule recoveringI, rule rest [OF new], simp, simp)
    qed
    show ?thesis
      unfolding recover_invocation_def Some option.case scope found prod.case Let_def
      by (intro recovery_rules run_if run_bind [OF unknown] run_bind [OF failed] run_return; assumption)
  qed
qed

lemma recover_invocations_keeps:
  assumes "scopes_match scopes p" and "turns_of_invocations_exist p"
    and "\<forall>v \<in> set vs. bt_get (pr_invocations p) (pv_invocation_id v) = Some v" and "distinct (map pv_invocation_id vs)"
  shows "valid_run S anything (recovering S p vs) (recover_invocations S scopes now vs) (\<lambda>_. recovering S p [])"
  using assms(3,4)
proof (induction vs)
  case Nil
  then show ?case by (simp add: run_return)
next
  case (Cons v vs)
  have "valid_run S anything (recovering S p (v # vs)) (recover_invocation S scopes now v) (\<lambda>_. recovering S p vs)"
  proof (rule recover_invocation_keeps [OF assms(1,2)])
    show "bt_get (pr_invocations p) (pv_invocation_id v) = Some v" using Cons.prems(1) by simp
    show "\<forall>w \<in> set vs. pv_invocation_id w \<noteq> pv_invocation_id v" using Cons.prems(2) by simp (metis imageI)
  qed
  then show ?case unfolding recover_invocations.simps by (rule run_bind) (use Cons.IH Cons.prems in simp)
qed

section \<open>Turns\<close>

text \<open>The events that end the turns, with the identifiers drawn for them.\<close>

fun turn_drafts :: "externals \<Rightarrow> instant \<Rightarrow> turn list \<Rightarrow> uuid list \<Rightarrow> event_envelope list" where
  "turn_drafts X now (t # ts) (a # b # us) =
     draft a (tu_thread_id t) (Some (tu_id t)) (tu_agent_id t) now (''daemon-restart:'' @ uuid_str X (tu_id t))
       (RuntimeDiagnostic ''turn_interrupted_by_restart''
          ''daemon restarted before the turn reached a terminal state; external work was not replayed'' False) #
     draft b (tu_thread_id t) (Some (tu_id t)) (tu_agent_id t) now (''daemon-restart:'' @ uuid_str X (tu_id t))
       (TurnStateChanged (tu_id t) (tu_state t) turn_state.Failed (Some ''daemon restarted before the turn completed'')) #
     turn_drafts X now ts us"
| "turn_drafts X now _ _ = []"

lemma recover_turns_drafts:
  "valid_run S anything (at_history S anything R es p us) (recover_turns S now ts)
     (\<lambda>r d. \<exists>ids us'. at_history S anything R es p us' d \<and> set us \<union> set ids \<subseteq> set us' \<and> length ids = 2 * length ts \<and>
        r = map (input_of (sv_codec S) (sv_externals S)) (turn_drafts (sv_externals S) now ts ids))"
proof (induction ts arbitrary: us)
  case Nil
  then show ?case by (simp, intro run_return exI [of _ "[]"] exI [of _ us]) simp
next
  case (Cons t ts)
  show ?case
    unfolding recover_turns.simps recover_turn_def Let_def abind_assoc abind_return
  proof (intro recovery_rules, rule run_bind [OF Cons.IH], rule run_return)
    fix a b r d
    assume "\<exists>ids us'. at_history S anything R es p us' d \<and> set (b # a # us) \<union> set ids \<subseteq> set us' \<and> length ids = 2 * length ts \<and>
      r = map (input_of (sv_codec S) (sv_externals S)) (turn_drafts (sv_externals S) now ts ids)"
    then obtain ids us' where *: "at_history S anything R es p us' d" "set (b # a # us) \<union> set ids \<subseteq> set us'" "length ids = 2 * length ts"
        "r = map (input_of (sv_codec S) (sv_externals S)) (turn_drafts (sv_externals S) now ts ids)" by blast
    show "\<exists>ids us'. at_history S anything R es p us' d \<and> set us \<union> set ids \<subseteq> set us' \<and> length ids = 2 * length (t # ts) \<and>
        [input_of (sv_codec S) (sv_externals S) (draft a (tu_thread_id t) (Some (tu_id t)) (tu_agent_id t) now (''daemon-restart:'' @ uuid_str (sv_externals S) (tu_id t))
           (RuntimeDiagnostic ''turn_interrupted_by_restart''
              ''daemon restarted before the turn reached a terminal state; external work was not replayed'' False)),
         input_of (sv_codec S) (sv_externals S) (draft b (tu_thread_id t) (Some (tu_id t)) (tu_agent_id t) now (''daemon-restart:'' @ uuid_str (sv_externals S) (tu_id t))
           (TurnStateChanged (tu_id t) (tu_state t) turn_state.Failed (Some ''daemon restarted before the turn completed'')))] @ r =
        map (input_of (sv_codec S) (sv_externals S)) (turn_drafts (sv_externals S) now (t # ts) ids)"
      using * by (intro exI [of _ "a # b # ids"] exI [of _ us']) simp
  qed
qed

lemma turn_can_fail: "\<not> turn_is_terminal s \<Longrightarrow> can_transition_turn s turn_state.Failed"
  by (cases s) (simp_all add: can_transition_turn_def turn_edges_def turn_is_terminal_def)

text \<open>They apply, end the turns and leave the invocations alone.\<close>

lemma turn_drafts_apply:
  assumes "length ids = 2 * length ts" and "distinct (map tu_id ts)"
    and "\<forall>t \<in> set ts. bt_get (pr_turns p) (tu_id t) = Some t \<and> \<not> turn_is_terminal (tu_state t)"
  shows "\<exists>p'. applies X es p (turn_drafts Y now ts ids) = Some p' \<and> pr_invocations p' = pr_invocations p \<and>
    (\<forall>k u. bt_get (pr_turns p') k = Some u \<longrightarrow>
      (if k \<in> tu_id ` set ts then turn_is_terminal (tu_state u) else bt_get (pr_turns p) k = Some u))"
  using assms
proof (induction ts arbitrary: ids es p)
  case (Cons t ts)
  then obtain a b us where ids: "ids = a # b # us" "length us = 2 * length ts"
    by (cases ids; cases "tl ids") auto
  note drafts = turn_drafts.simps(1) [of Y now t ts a b us]
  let ?e1 = "(turn_drafts Y now (t # ts) ids ! 0)\<lparr>en_seq := Suc (length (events_of_thread (tu_thread_id t) es))\<rparr>"
  let ?p1 = "record_event p ?e1"
  let ?e2 = "(turn_drafts Y now (t # ts) ids ! 1)\<lparr>en_seq := Suc (length (events_of_thread (tu_thread_id t) (es @ [?e1])))\<rparr>"
  have t: "bt_get (pr_turns p) (tu_id t) = Some t" "can_transition_turn (tu_state t) turn_state.Failed"
    using Cons.prems(3) turn_can_fail by auto
  have "turn_is_terminal (tu_state (changed_turn t turn_state.Failed r now))" for r
    by (simp add: changed_turn_def turn_is_terminal_def)
  then obtain q w where q: "apply_event X ?p1 ?e2 (en_event ?e2) = (q, Ok ())" "pr_invocations q = pr_invocations p"
      "pr_turns q = bt_insert (pr_turns p) (tu_id t) w" "turn_is_terminal (tu_state w)"
    using t by (auto simp: ids handler_defs Let_def)
  have ts: "\<forall>u \<in> set ts. bt_get (pr_turns (record_event q ?e2)) (tu_id u) = Some u \<and> \<not> turn_is_terminal (tu_state u)"
    using Cons.prems(2,3) q(3) by (auto simp: image_iff)
  obtain p' where p': "applies X (es @ [?e1] @ [?e2]) (record_event q ?e2) (turn_drafts Y now ts us) = Some p'"
      "pr_invocations p' = pr_invocations p"
      "\<forall>k u. bt_get (pr_turns p') k = Some u \<longrightarrow>
        (if k \<in> tu_id ` set ts then turn_is_terminal (tu_state u) else bt_get (pr_turns (record_event q ?e2)) k = Some u)"
    using Cons.IH [OF ids(2) _ ts, of "es @ [?e1] @ [?e2]"] Cons.prems(2) q(2) by auto
  have "applies X es p (turn_drafts Y now (t # ts) ids) = Some p'"
    using p'(1) q(1) by (simp add: ids Let_def handler_defs)
  moreover have "if k \<in> tu_id ` set (t # ts) then turn_is_terminal (tu_state u) else bt_get (pr_turns p) k = Some u"
    if "bt_get (pr_turns p') k = Some u" for k u
    using p'(3) [rule_format, OF that] q(3,4) by (auto split: if_splits)
  ultimately show ?case using p'(2) by blast
qed simp

section \<open>The whole recovery\<close>

lemma bt_values_key:
  assumes "bt_wf m" and "\<forall>k v. bt_get m k = Some v \<longrightarrow> f v = k"
  shows "distinct (map f (filter P (bt_values m)))" and "v \<in> set (filter P (bt_values m)) \<Longrightarrow> bt_get m (f v) = Some v \<and> P v"
    and "bt_get m k = Some v \<Longrightarrow> P v \<Longrightarrow> v \<in> set (filter P (bt_values m))"
proof -
  have get: "(k, v) \<in> set m \<longleftrightarrow> bt_get m k = Some v" for k v
    by (rule bt_mem_get [OF assms(1)])
  then have "map f (bt_values m) = map fst m"
    using assms(2) by (auto simp: bt_values_def)
  moreover have "distinct (map fst m)" using assms(1) by (simp add: bt_wf_def strict_sorted_iff)
  ultimately show "distinct (map f (filter P (bt_values m)))" by (metis distinct_map_filter)
  show "bt_get m (f v) = Some v \<and> P v" if "v \<in> set (filter P (bt_values m))" using that assms bt_values_iff by force
  show "v \<in> set (filter P (bt_values m))" if "bt_get m k = Some v" "P v" using that assms(1) bt_values_iff by force
qed

definition all_settled :: "projection \<Rightarrow> bool" where
  "all_settled p \<longleftrightarrow>
     (\<forall>k u. bt_get (pr_turns p) k = Some u \<longrightarrow> turn_is_terminal (tu_state u)) \<and>
     (\<forall>k v. bt_get (pr_invocations p) k = Some v \<longrightarrow> settled v)"

lemma run_scopes:
  assumes "\<And>m. scopes_match m p \<Longrightarrow> valid_run S anything (at_history S anything R es p us) (f m) Q"
  shows "valid_run S anything (at_history S anything R es p us)
    (abind (\<lambda>d. (d, invocation_envelopes S bt_empty (all_events (cd_stored (sv_codec S)) (dm_ledger d)))) f) Q"
proof (rule valid_run_cases)
  fix d assume h: "at_history S anything R es p us d"
  then have C: "port_codec_ok (sv_codec S) (sv_externals S) UNIV" and wf: "ledger_wf (dm_ledger d)"
    and rows: "list_all2 (row_of (sv_codec S) (sv_externals S) UNIV) es (history (dm_ledger d))" and p: "replay (sv_externals S) es = Ok p"
    by (auto simp: at_history_def holds_envelopes_def)
  obtain m where m: "invocation_envelopes S bt_empty (history (dm_ledger d)) = Ok m" "scopes_match m p"
    using invocation_envelopes_match [OF C rows p] by blast
  have "all_events (cd_stored (sv_codec S)) (dm_ledger d) = history (dm_ledger d)"
    using C wf by (simp add: all_events_wf port_codec_ok_def codec_okD(1))
  then have "abind (\<lambda>d. (d, invocation_envelopes S bt_empty (all_events (cd_stored (sv_codec S)) (dm_ledger d)))) f d = f m d"
    by (simp add: abind_def m(1))
  with assms [OF m(2)] h show "\<exists>P m'. P d \<and>
      abind (\<lambda>d. (d, invocation_envelopes S bt_empty (all_events (cd_stored (sv_codec S)) (dm_ledger d)))) f d = m' d \<and> valid_run S anything P m' Q"
    by blast
qed

lemma run_startup:
  assumes "\<And>es p. turns_of_invocations_exist p \<Longrightarrow> proj_ok (sv_externals S) p \<Longrightarrow> valid_run S anything (at_history S anything (\<lambda>_. True) es p []) (f p) Q"
  shows "valid_run S anything (\<lambda>d. daemon_ok S d \<and>
      (\<forall>p. project_core (sv_codec S) (sv_externals S) (dm_ledger d) = Ok p \<longrightarrow> turns_of_invocations_exist p)) (abind (startup_projection S) f) Q"
proof (rule valid_run_cases)
  fix d
  assume d: "daemon_ok S d \<and> (\<forall>p. project_core (sv_codec S) (sv_externals S) (dm_ledger d) = Ok p \<longrightarrow> turns_of_invocations_exist p)"
  then obtain es p where h: "at_history S anything (\<lambda>_. True) es p [] d" by (auto simp: daemon_ok_def)
  then have p: "project_core (sv_codec S) (sv_externals S) (dm_ledger d) = Ok p"
    using project_core_eq [of "sv_codec S" "sv_externals S" UNIV "dm_ledger d" es] by (simp add: at_history_def)
  have "proj_ok (sv_externals S) p" using at_history_facts [OF h] by (simp add: history_facts_def)
  then have "valid_run S anything (at_history S anything (\<lambda>_. True) es p []) (f p) Q" using assms d p by blast
  moreover have "abind (startup_projection S) f d = f p d" by (simp add: startup_projection_def p abind_def)
  ultimately show "\<exists>P m. P d \<and> abind (startup_projection S) f d = m d \<and> valid_run S anything P m Q" using h by blast
qed

lemma left_initially:
  assumes "proj_ok X p"
  shows "left_to_recover p (filter (\<lambda>v. \<not> inv_is_terminal (pv_state v)) (bt_values (pr_invocations p))) p"
proof -
  have wf: "bt_wf (pr_invocations p)" and keys: "\<forall>k v. bt_get (pr_invocations p) k = Some v \<longrightarrow> pv_invocation_id v = k"
    using assms by (auto simp: proj_ok_def maps_wf_def keys_ok_def)
  note vals = bt_values_key(2,3) [OF wf keys]
  show ?thesis
    unfolding left_to_recover_def using vals keys by (fastforce simp: settled_def)
qed

lemma turns_recovered:
  assumes h: "at_history S anything R es q us d" and q: "left_to_recover p [] q" and ok: "proj_ok X p"
    and ts: "ts = filter (\<lambda>u. \<not> turn_is_terminal (tu_state u)) (bt_values (pr_turns p))"
    and ids: "length ids = 2 * length ts" "set ids \<subseteq> set us"
  shows "commits S anything es q us (turn_drafts (sv_externals S) now ts ids) \<and>
    all_settled (the (applies (sv_externals S) es q (turn_drafts (sv_externals S) now ts ids)))"
    (is "commits S anything es q us ?ds \<and> _")
proof -
  have wf: "bt_wf (pr_turns p)" and keys: "\<forall>k v. bt_get (pr_turns p) k = Some v \<longrightarrow> tu_id v = k"
    using ok by (auto simp: proj_ok_def maps_wf_def keys_ok_def)
  note vals = bt_values_key [OF wf keys, where P = "\<lambda>u. \<not> turn_is_terminal (tu_state u)", folded ts]
  have qt: "pr_turns q = pr_turns p" using q by (simp add: left_to_recover_def)
  have "\<forall>t \<in> set ts. bt_get (pr_turns q) (tu_id t) = Some t \<and> \<not> turn_is_terminal (tu_state t)"
    using vals(2) by (simp add: qt)
  then obtain p' where p': "applies (sv_externals S) es q ?ds = Some p'" "pr_invocations p' = pr_invocations q"
      "\<And>k u. bt_get (pr_turns p') k = Some u \<Longrightarrow>
        if k \<in> tu_id ` set ts then turn_is_terminal (tu_state u) else bt_get (pr_turns q) k = Some u"
    using turn_drafts_apply [OF ids(1) vals(1), of q "sv_externals S" es "sv_externals S" now] by blast
  have "turn_is_terminal (tu_state u)" if "bt_get (pr_turns p') k = Some u" for k u
    using p'(3) [OF that] vals(3) [of k u] keys by (auto simp: qt split: if_splits)
  then have all: "all_settled (the (applies (sv_externals S) es q ?ds))"
    using p'(1,2) q by (auto simp: all_settled_def left_to_recover_def)
  have "tu_thread_id t \<in> used es" if "t \<in> set ts" for t
    using entityD(3) [OF at_history_facts [OF h], of "tu_id t" t] vals(2) [OF that] by (simp add: qt)
  then have "used ?ds \<subseteq> used es \<union> set ids" "\<forall>e \<in> set ?ds. en_schema_version e = PROTOCOL_VERSION"
    by (induction "sv_externals S" now ts ids rule: turn_drafts.induct) (auto simp: mentions_def)
  then have "commits S anything es q us ?ds" using p'(1) ids(2) by (auto simp: commits_def)
  with all show ?thesis by blast
qed

text \<open>The daemon after a recovery.\<close>

definition recovered :: "'w service \<Rightarrow> 'w daemon \<Rightarrow> bool" where
  "recovered S d \<longleftrightarrow> (\<exists>es q. at_history S anything (\<lambda>_. True) es q [] d \<and> all_settled q)"

lemma recoveredI: "at_history S anything R es q us d \<Longrightarrow> all_settled q \<Longrightarrow> recovered S d"
  unfolding recovered_def using at_history_fewer at_history_any by blast

lemma append_inputs: "append_batch stored db inputs = Ok (db', x) \<Longrightarrow> \<exists>evs. append_batch stored db inputs = Ok (db', evs)"
  by blast

lemma recover_turns_keeps:
  assumes ok: "proj_ok X p" and ts: "ts = filter (\<lambda>u. \<not> turn_is_terminal (tu_state u)) (bt_values (pr_turns p))"
  shows "valid_run S anything (recovering S p [])
    (abind (recover_turns S now ts) (\<lambda>r. if r = [] then areturn () else
       abind (recovery_ledger (\<lambda>db. append_batch (cd_stored (sv_codec S)) db r)) (\<lambda>_. areturn ()))) (\<lambda>_. recovered S)"
proof (rule run_recovering, rule run_bind [OF recover_turns_drafts], rule valid_run_cases)
  fix es q r d
  assume q: "left_to_recover p [] q" and "\<exists>ids us'. at_history S anything (\<lambda>_. True) es q us' d \<and> set [] \<union> set ids \<subseteq> set us' \<and>
    length ids = 2 * length ts \<and> r = map (input_of (sv_codec S) (sv_externals S)) (turn_drafts (sv_externals S) now ts ids)"
  then obtain ids us where h: "at_history S anything (\<lambda>_. True) es q us d" and ids: "length ids = 2 * length ts" "set ids \<subseteq> set us"
    and r: "r = map (input_of (sv_codec S) (sv_externals S)) (turn_drafts (sv_externals S) now ts ids)" (is "r = map _ ?ds") by auto
  note new = turns_recovered [OF h q ok ts ids, of now]
  let ?m = "if r = [] then areturn () else abind (recovery_ledger (\<lambda>db. append_batch (cd_stored (sv_codec S)) db r)) (\<lambda>_. areturn ())"
  have "valid_run S anything (at_history S anything (\<lambda>_. True) es q us) ?m (\<lambda>_. recovered S)"
  proof (cases "ts = []")
    case True
    then have "all_settled q" "r = []" using new r by auto
    then show ?thesis by (auto intro!: run_return intro: recoveredI)
  next
    case False
    then obtain t rest a ids' where t: "ts = t # rest" "ids = a # ids'" using ids(1) by (cases ts; cases ids) auto
    then obtain b us' where "ids = a # b # us'" using ids(1) by (cases ids') auto
    then have "\<exists>e \<in> set ?ds. en_event_id e \<in> set us" and ne: "r \<noteq> []" using ids(2) t(1) r by auto
    then have "valid_run S anything (at_history S anything (\<lambda>_. True) es q us) (recovery_ledger (\<lambda>db. append_batch (cd_stored (sv_codec S)) db r))
        (\<lambda>_. at_history S anything (\<lambda>_. True) (es @ number es ?ds) (the (applies (sv_externals S) es q ?ds)) [])"
      using new unfolding r unfolding recovery_ledger_call by (intro run_appending append_inputs) auto
    then have "valid_run S anything (at_history S anything (\<lambda>_. True) es q us) (abind (recovery_ledger (\<lambda>db. append_batch (cd_stored (sv_codec S)) db r)) (\<lambda>_. areturn ()))
        (\<lambda>_. recovered S)"
      by (rule run_bind, intro run_return) (use new in \<open>auto intro: recoveredI\<close>)
    then show ?thesis using ne by simp
  qed
  then show "\<exists>P m'. P d \<and> ?m d = m' d \<and> valid_run S anything P m' (\<lambda>_. recovered S)" using h by blast
qed

lemma recovery_keeps:
  "valid_run S anything (\<lambda>d. daemon_ok S d \<and>
     (\<forall>p. project_core (sv_codec S) (sv_externals S) (dm_ledger d) = Ok p \<longrightarrow> turns_of_invocations_exist p))
     (recover_interrupted_turns S) (\<lambda>_. recovered S)"
  unfolding recover_interrupted_turns_def
proof (intro run_startup run_scopes recovery_rules)
  fix es p m now
  assume t: "turns_of_invocations_exist p" and ok: "proj_ok (sv_externals S) p" and m: "scopes_match m p"
  let ?vs = "filter (\<lambda>v. \<not> inv_is_terminal (pv_state v)) (bt_values (pr_invocations p))"
  have wf: "bt_wf (pr_invocations p)" and keys: "\<forall>k v. bt_get (pr_invocations p) k = Some v \<longrightarrow> pv_invocation_id v = k"
    using ok by (auto simp: proj_ok_def maps_wf_def keys_ok_def)
  have first: "valid_run S anything (recovering S p ?vs) (recover_invocations S m now ?vs) (\<lambda>_. recovering S p [])"
    using bt_values_key(1,2) [OF wf keys] by (intro recover_invocations_keeps [OF m t]) blast+
  show "valid_run S anything (at_history S anything (\<lambda>_. True) es p [])
    (abind (recover_invocations S m now ?vs) (\<lambda>_.
     abind (recover_turns S now (filter (\<lambda>u. \<not> turn_is_terminal (tu_state u)) (bt_values (pr_turns p)))) (\<lambda>recovery.
       if recovery = [] then areturn ()
       else abind (recovery_ledger (\<lambda>db. append_batch (cd_stored (sv_codec S)) db recovery)) (\<lambda>_. areturn ())))) (\<lambda>_. recovered S)"
    by (rule run_pre [OF run_bind [OF first recover_turns_keeps [OF ok refl]]]) (auto intro: recoveringI left_initially [OF ok])
qed

text \<open>A second recovery finds nothing to do.\<close>

lemma recover_settled: "\<forall>v \<in> set vs. settled v \<Longrightarrow> recover_invocations S scopes now vs = areturn ()"
proof (induction vs)
  case (Cons v vs)
  then have "recovered_state (pv_state v) = None" using recovered_None by (simp add: settled_def)
  then show ?case using Cons by (simp add: recover_invocation_def abind_return)
qed simp

lemma recovery_repeats:
  assumes "recovered S d"
  shows "\<exists>d'. recover_interrupted_turns S d = (d', Ok ()) \<and> dm_ledger d' = dm_ledger d"
proof -
  obtain es q where h: "at_history S anything (\<lambda>_. True) es q [] d" and q: "all_settled q" using assms by (auto simp: recovered_def)
  then have C: "port_codec_ok (sv_codec S) (sv_externals S) UNIV" and wf: "ledger_wf (dm_ledger d)"
    and rows: "list_all2 (row_of (sv_codec S) (sv_externals S) UNIV) es (history (dm_ledger d))" and p: "replay (sv_externals S) es = Ok q"
    by (auto simp: at_history_def holds_envelopes_def)
  have maps: "bt_wf (pr_turns q)" "bt_wf (pr_invocations q)"
    using at_history_facts [OF h] by (auto simp: history_facts_def proj_ok_def maps_wf_def)
  have "project_core (sv_codec S) (sv_externals S) (dm_ledger d) = Ok q"
    using project_core_eq [of "sv_codec S" "sv_externals S" UNIV "dm_ledger d" es] h p by (simp add: at_history_def)
  moreover obtain m where "invocation_envelopes S bt_empty (all_events (cd_stored (sv_codec S)) (dm_ledger d)) = Ok m"
    using invocation_envelopes_match [OF C rows p] C wf by (auto simp: all_events_wf port_codec_ok_def codec_okD(1))
  moreover have "\<forall>v \<in> set (filter (\<lambda>v. \<not> inv_is_terminal (pv_state v)) (bt_values (pr_invocations q))). settled v"
    using q bt_values_iff [OF maps(2)] by (auto simp: all_settled_def)
  moreover have "filter (\<lambda>u. \<not> turn_is_terminal (tu_state u)) (bt_values (pr_turns q)) = []"
    using q bt_values_iff [OF maps(1)] by (auto simp: all_settled_def filter_empty_conv)
  ultimately show ?thesis
    by (simp add: recover_interrupted_turns_def abind_def startup_projection_def recovery_now_def recover_settled areturn_def)
qed

section \<open>Properties\<close>


text \<open>A turn that was accepted and never run.\<close>

definition interrupted_conversation :: "event_envelope list" where
  "interrupted_conversation = take 4 sample_conversation"

lemma interrupted_replays:
  "\<exists>p t. replay plain_externals interrupted_conversation = Ok p \<and> pr_invocations p = [] \<and> pr_turns p = [(1, t)] \<and> tu_id t = 1 \<and> tu_state t = Accepted"
  by (simp add: interrupted_conversation_def sample_conversation_def replay_simps)

lemma interrupted_held: "\<exists>db. holds_envelopes total_codec plain_externals UNIV db interrupted_conversation"
proof -
  have st: "\<forall>env \<in> set interrupted_conversation. storable UNIV env"
    by (simp add: storable_def interrupted_conversation_def sample_conversation_def sample_envelope_def PROTOCOL_VERSION_def accepts_def)
  have "sample_conversation = interrupted_conversation @ [sample_envelope 5 (TurnStateChanged 1 Accepted turn_state.Failed (Some ''tool''))]"
    by (simp add: interrupted_conversation_def sample_conversation_def)
  with sample_conversation_complete have "complete_history interrupted_conversation" using complete_history_snoc by metis
  then obtain db where "port_append_all total_codec plain_externals initialize_schema interrupted_conversation = Ok db"
    using port_append_all_complete [OF total_codec_ok _ st] by blast
  then show ?thesis
    using store_all_holds [OF holds_nothing [OF total_codec_ok] st] by (auto simp: port_append_all_eq)
qed

lemma fresh_pair_appends:
  assumes "ledger_wf db" and "nl_event_id a \<notin> stored_ids db" and "nl_event_id b \<notin> stored_ids db" and "nl_event_id a \<noteq> nl_event_id b"
    and "length (lg_events db) + 2 \<le> i64_max"
  shows "\<exists>db' evs. append_batch stored db [a, b] = Ok (db', evs)"
  using insert_batch_wf [OF assms(1), of "[a, b]"] assms(2-5) by (auto simp: batch_cases)

lemma interrupted_at_history:
  assumes h: "holds_envelopes total_codec plain_externals UNIV db interrupted_conversation"
    and p: "replay plain_externals interrupted_conversation = Ok p"
  shows "at_history demo_service anything (\<lambda>_. True) interrupted_conversation p [] (demo_daemon db)"
proof -
  have small: "unat u < 10" if "u \<in> used interrupted_conversation" for u
    using that by (auto simp: interrupted_conversation_def sample_conversation_def sample_envelope_def mentions_def sample_workspace_def
        sample_thread_def sample_turn_def sample_item_def)
  have "u \<notin> used interrupted_conversation" if "demo_ids k = Ok u" for k u
    using demo_ids_large [OF that] small [of u] by fastforce
  moreover have "ids_distinct demo_service" using demo_ids_inj by (auto simp: ids_distinct_def)
  ultimately show ?thesis using h p by (simp add: at_history_def)
qed

lemma interrupted_recovers:
  assumes h: "holds_envelopes total_codec plain_externals UNIV db interrupted_conversation"
  shows "\<exists>d'. recover_interrupted_turns demo_service (demo_daemon db) = (d', Ok ())"
proof -
  obtain p t where p: "replay plain_externals interrupted_conversation = Ok p" "pr_invocations p = []" "pr_turns p = [(1, t)]" "tu_state t = Accepted"
    using interrupted_replays by blast
  note at = interrupted_at_history [OF h p(1)]
  have wf: "ledger_wf db" and rows: "list_all2 (row_of total_codec plain_externals UNIV) interrupted_conversation (history db)"
    using h by (auto simp: holds_envelopes_def)
  have core: "project_core total_codec plain_externals db = Ok p" using project_core_eq [OF h] p(1) by simp
  obtain m where scopes: "invocation_envelopes demo_service bt_empty (all_events (cd_stored total_codec) db) = Ok m"
    using invocation_envelopes_match [of demo_service interrupted_conversation "history db" p] rows p(1) wf total_codec_ok
    by (auto simp: all_events_wf port_codec_ok_def codec_okD(1))
  have ids: "demo_ids 0 = Ok 10" "demo_ids (Suc 0) = Ok 11" by (simp_all add: demo_ids_def)
  have "at_history demo_service anything (\<lambda>_. True) interrupted_conversation p [11, 10] (demo_daemon db\<lparr>dm_ids := 2\<rparr>)"
    using draw_uuid(2) [OF draw_uuid(2) [OF at]] ids by (simp add: numeral_2_eq_2)
  from drawn_not_stored [OF this] have fresh: "uuid_str plain_externals 10 \<notin> stored_ids db" "uuid_str plain_externals 11 \<notin> stored_ids db" by simp_all
  moreover have "uuid_str plain_externals 10 \<noteq> uuid_str plain_externals 11" using uuid_str_inj [OF total_codec_ok, of 10 11] by auto
  moreover have "length (lg_events db) = 4"
    using list_all2_lengthD [OF rows] by (simp add: history_def interrupted_conversation_def sample_conversation_def)
  ultimately have "append_batch stored db [input_of total_codec plain_externals a, input_of total_codec plain_externals b] \<noteq> Err e"
    if "en_event_id a = 10" "en_event_id b = 11" for stored a b e
    using fresh_pair_appends [OF wf, of "input_of total_codec plain_externals a" "input_of total_codec plain_externals b" stored] that
    by (auto simp: input_of_def Let_def i64_max_def)
  then show ?thesis
    using p(2-4) ids core scopes
    by (auto simp: recover_interrupted_turns_def abind_def startup_projection_def recovery_now_def areturn_def bt_values_def turn_is_terminal_def
        recover_turn_def Let_def new_recovery_event_eq total_codec_ok recovery_uuid_def recovery_ledger_def split: sum.splits)
qed


end
