(* ===== verification/Runner_Ledger.thy ===== *)
theory Runner_Ledger
  imports Daemon_Server Tool_Call_Assembly
begin

text \<open>
  What the turn runner writes to the ledger (\<open>yeuxd/src/runner.rs\<close>): every operation that
  holds the mutation gate, as one atomic function of the daemon. The gate is a mutex whose
  sections do not panic, so it is never poisoned. How the operations follow each other is
  in \<open>Turn_Runner\<close>.
\<close>

section \<open>Data\<close>

datatype turn_run_result =
    RunCompleted model_request_id item_id
  | RunFailed model_request_id string
  | RunCancelled model_request_id

datatype turn_settlement = Unchanged | SettledCancelled | FailedReconciliation

datatype turn_runner_error =
    LedgerFailed ledger_error
  | ProjectionFailed core_projection_error
  | IdFailed string
  | MissingTurn turn_id
  | WrongThread turn_id thread_id thread_id
  | UnexpectedState turn_id turn_state turn_state
  | InvalidMessageItem item_id string
  | MissingThread thread_id
  | MissingWorkspace workspace_id
  | MissingParentSequence thread_id
  | WorkspaceSearchGatePoisoned
  | RunnerPanic string

record run_context =
  rc_spec :: turn_run_spec
  rc_request_id :: model_request_id
  rc_agent_id :: agent_id
  rc_workspace_root :: string
  rc_workspace_id :: workspace_id
  rc_workspace_identity :: workspace_identity
  rc_workspace_trust :: workspace_trust
  rc_turn_override :: "capability_grant option"
  rc_turn_override_error :: "string option"
  rc_events :: "event_envelope list"

abbreviation rc_thread :: "run_context \<Rightarrow> thread_id" where "rc_thread ctx \<equiv> tr_thread_id (rc_spec ctx)"
abbreviation rc_turn :: "run_context \<Rightarrow> turn_id" where "rc_turn ctx \<equiv> tr_turn_id (rc_spec ctx)"

record tool_preparation_failure =
  tf_output :: json
  tf_reason :: string

record pending_invocation =
  pd_invocation_id :: invocation_id
  pd_call :: assembled_tool_call
  pd_tool_version :: string
  pd_normalized_arguments :: json
  pd_timeout_ms :: nat
  pd_effects :: effect_set
  pd_prepared :: "prepared_invocation option"
  pd_preparation_failure :: "tool_preparation_failure option"
  pd_scheduler_rejected :: bool
  pd_cancelled_before_start :: bool
  pd_started :: bool

type_synonym ('w, 'a) run = "('w daemon, turn_runner_error, 'a) act"

section \<open>Texts\<close>

text \<open>The characters of a UTF-8 string: a byte with the continuation bytes that follow it.\<close>

function utf8_chars :: "string \<Rightarrow> string list" where
  "utf8_chars [] = []"
| "utf8_chars (c # s) = (c # takeWhile continuation s) # utf8_chars (dropWhile continuation s)"
  by pat_completeness auto
termination by (relation "measure length") (auto simp: le_imp_less_Suc length_dropWhile_le)

definition MAX_CHARS :: nat where "MAX_CHARS = 4096"

definition bounded_message :: "string \<Rightarrow> string" where
  "bounded_message message =
     concat (take MAX_CHARS (utf8_chars message)) @
     (if length (utf8_chars message) > MAX_CHARS then '' [truncated]'' else [])"

definition code_char :: "char \<Rightarrow> bool" where
  "code_char c \<longleftrightarrow> is_ascii_alphanumeric c \<or> c \<in> set ''_-.''"

definition normalize_code :: "string \<Rightarrow> string" where
  "normalize_code code =
     (let normalized = map (\<lambda>ch. case ch of [c] \<Rightarrow> if code_char c then c else CHR ''_'' | _ \<Rightarrow> CHR ''_'') (take 128 (utf8_chars code)) in
      if normalized = [] then ''provider_error'' else normalized)"

section \<open>Reading and appending\<close>

definition runner_uuid :: "'w service \<Rightarrow> ('w, uuid) run" where
  "runner_uuid S d = (d\<lparr>dm_ids := Suc (dm_ids d)\<rparr>, map_err IdFailed (sv_ids S (dm_ids d)))"

definition runner_now :: "'w service \<Rightarrow> ('w, instant) run" where
  "runner_now S d = (d\<lparr>dm_clock := Suc (dm_clock d)\<rparr>, Ok (sv_clock S (dm_clock d)))"

definition runner_ledger :: "(ledger \<Rightarrow> (ledger_error, ledger \<times> 'a) rust_result) \<Rightarrow> ('w, 'a) run" where
  "runner_ledger t d =
     (case t (dm_ledger d) of Inl e \<Rightarrow> (d, Err (LedgerFailed e)) | Inr (db, x) \<Rightarrow> (d\<lparr>dm_ledger := db\<rparr>, Ok x))"

definition runner_projection :: "'w service \<Rightarrow> ('w, projection) run" where
  "runner_projection S d = (d, map_err ProjectionFailed (project_core (sv_codec S) (sv_externals S) (dm_ledger d)))"

fun broadcast_events :: "'w service \<Rightarrow> ledger_event list \<Rightarrow> ('w, event_envelope list) run" where
  "broadcast_events S [] = areturn []"
| "broadcast_events S (row # rows) =
     abind (alift (map_err LedgerFailed (envelope_of (sv_codec S) row))) (\<lambda>envelope.
     abind (\<lambda>d. (d\<lparr>dm_sent := dm_sent d @ [envelope]\<rparr>, Ok ())) (\<lambda>_.
     abind (broadcast_events S rows) (\<lambda>envelopes. areturn (envelope # envelopes))))"

definition new_scoped_ledger_event_locked ::
  "'w service \<Rightarrow> thread_id \<Rightarrow> turn_id \<Rightarrow> agent_id \<Rightarrow> string \<Rightarrow> event \<Rightarrow> ('w, new_ledger_event) run" where
  "new_scoped_ledger_event_locked S thread turn agent causation event =
     (let serialized = cd_event_value (sv_codec S) event; X = sv_externals S in
      abind (alift (ok_or (RunnerPanic ''serialized protocol Event always has a kind'')
         (Option.bind (json_get serialized ''kind'') json_as_str))) (\<lambda>kind.
      abind (runner_uuid S) (\<lambda>event_id.
      abind (runner_now S) (\<lambda>time.
      areturn
        \<lparr>nl_schema_version = PROTOCOL_VERSION, nl_event_id = uuid_str X event_id, nl_thread_id = uuid_str X thread,
         nl_turn_id = Some (uuid_str X turn), nl_agent_id = agent, nl_time = time,
         nl_causation_id = Some causation, nl_kind = kind,
         nl_payload = (case json_get serialized ''payload'' of None \<Rightarrow> JNull | Some p \<Rightarrow> p)\<rparr>))))"

definition new_ledger_event_locked :: "'w service \<Rightarrow> run_context \<Rightarrow> event \<Rightarrow> ('w, new_ledger_event) run" where
  "new_ledger_event_locked S ctx event =
     new_scoped_ledger_event_locked S (rc_thread ctx) (rc_turn ctx) (rc_agent_id ctx)
       (uuid_str (sv_externals S) (rc_request_id ctx)) event"

definition current_state :: "'w service \<Rightarrow> run_context \<Rightarrow> ('w, turn_state) run" where
  "current_state S ctx =
     abind (runner_projection S) (\<lambda>p.
     alift (ok_or (MissingTurn (rc_turn ctx)) (map_option tu_state (bt_get (pr_turns p) (rc_turn ctx)))))"

definition unexpected :: "run_context \<Rightarrow> turn_state \<Rightarrow> turn_state \<Rightarrow> turn_runner_error" where
  "unexpected ctx expected actual = UnexpectedState (rc_turn ctx) expected actual"

definition ensure_turn_nonterminal_locked :: "'w service \<Rightarrow> run_context \<Rightarrow> ('w, unit) run" where
  "ensure_turn_nonterminal_locked S ctx =
     abind (current_state S ctx) (\<lambda>actual.
     if turn_is_terminal actual then afail (unexpected ctx Executing actual) else areturn ())"

definition persist_locked :: "'w service \<Rightarrow> run_context \<Rightarrow> event \<Rightarrow> ('w, event_envelope) run" where
  "persist_locked S ctx event =
     abind (current_state S ctx) (\<lambda>actual.
     if turn_is_terminal actual then afail (unexpected ctx Executing actual)
     else
       abind (new_ledger_event_locked S ctx event) (\<lambda>input.
       abind (runner_ledger (\<lambda>db. append_event (cd_stored (sv_codec S)) db input)) (\<lambda>persisted.
       abind (alift (map_err LedgerFailed (envelope_of (sv_codec S) persisted))) (\<lambda>envelope.
       abind (\<lambda>d. (d\<lparr>dm_sent := dm_sent d @ [envelope]\<rparr>, Ok ())) (\<lambda>_.
       areturn envelope)))))"

definition persist_locked_expected :: "'w service \<Rightarrow> run_context \<Rightarrow> turn_state \<Rightarrow> event \<Rightarrow> ('w, event_envelope) run" where
  "persist_locked_expected S ctx expected event =
     abind (current_state S ctx) (\<lambda>actual.
     if actual \<noteq> expected then afail (unexpected ctx expected actual) else persist_locked S ctx event)"

definition persist_expected :: "'w service \<Rightarrow> run_context \<Rightarrow> turn_state \<Rightarrow> event \<Rightarrow> ('w, event_envelope) run" where
  "persist_expected S ctx expected event = persist_locked_expected S ctx expected event"

definition persist_new_events_locked :: "'w service \<Rightarrow> new_ledger_event list \<Rightarrow> ('w, event_envelope list) run" where
  "persist_new_events_locked S inputs =
     abind (runner_ledger (\<lambda>db. append_batch (cd_stored (sv_codec S)) db inputs)) (broadcast_events S)"

section \<open>Turn transitions\<close>

definition transition_locked ::
  "'w service \<Rightarrow> run_context \<Rightarrow> turn_state \<Rightarrow> turn_state \<Rightarrow> string option \<Rightarrow> ('w, event_envelope) run" where
  "transition_locked S ctx frm to reason =
     abind (current_state S ctx) (\<lambda>actual.
     if actual \<noteq> frm then afail (unexpected ctx frm actual)
     else persist_locked S ctx (TurnStateChanged (rc_turn ctx) frm to reason))"

definition transition_turn ::
  "'w service \<Rightarrow> run_context \<Rightarrow> turn_state \<Rightarrow> turn_state \<Rightarrow> string option \<Rightarrow> ('w, event_envelope) run" where
  "transition_turn S ctx frm to reason = transition_locked S ctx frm to reason"

definition of_turn :: "turn_run_spec \<Rightarrow> projected_invocation \<Rightarrow> bool" where
  "of_turn spec v \<longleftrightarrow> pv_thread_id v = tr_thread_id spec \<and> pv_turn_id v = tr_turn_id spec"

definition has_pending_invocations :: "'w service \<Rightarrow> run_context \<Rightarrow> ('w, bool) run" where
  "has_pending_invocations S ctx =
     abind (runner_projection S) (\<lambda>p.
     areturn (\<exists>v \<in> set (bt_values (pr_invocations p)). of_turn (rc_spec ctx) v \<and> \<not> inv_is_terminal (pv_state v)))"

definition has_unsettled_invocations :: "'w service \<Rightarrow> run_context \<Rightarrow> ('w, bool) run" where
  "has_unsettled_invocations S ctx =
     abind (runner_projection S) (\<lambda>p.
     areturn (\<exists>v \<in> set (bt_values (pr_invocations p)).
       of_turn (rc_spec ctx) v \<and> \<not> inv_is_terminal (pv_state v) \<and> pv_state v \<noteq> invocation_state.Unknown))"

definition fail_with ::
  "'w service \<Rightarrow> run_context \<Rightarrow> turn_state \<Rightarrow> string \<Rightarrow> string \<Rightarrow> ('w, turn_run_result) run" where
  "fail_with S ctx actual code message =
     abind (persist_locked S ctx (RuntimeDiagnostic code message False)) (\<lambda>_.
     abind (transition_locked S ctx actual turn_state.Failed (Some message)) (\<lambda>_.
     areturn (RunFailed (rc_request_id ctx) code)))"

definition fail :: "'w service \<Rightarrow> run_context \<Rightarrow> turn_state \<Rightarrow> string \<Rightarrow> string \<Rightarrow> ('w, turn_run_result) run" where
  "fail S ctx frm code message =
     abind (current_state S ctx) (\<lambda>actual.
     if actual \<noteq> frm \<and> actual \<noteq> Cancelling then afail (unexpected ctx frm actual)
     else
       abind (if actual = Cancelling then has_pending_invocations S ctx else areturn False) (\<lambda>pending.
       if pending then afail (unexpected ctx frm actual)
       else fail_with S ctx actual (normalize_code code) (bounded_message message)))"

definition fail_current :: "'w service \<Rightarrow> run_context \<Rightarrow> string \<Rightarrow> string \<Rightarrow> ('w, turn_run_result) run" where
  "fail_current S ctx code message =
     abind (current_state S ctx) (\<lambda>actual.
     if turn_is_terminal actual then afail (unexpected ctx Executing actual)
     else
       abind (has_unsettled_invocations S ctx) (\<lambda>unsettled.
       if unsettled then afail (unexpected ctx Executing actual)
       else fail_with S ctx actual (normalize_code code) (bounded_message message)))"

definition cancel_locked :: "'w service \<Rightarrow> run_context \<Rightarrow> turn_state \<Rightarrow> ('w, unit) run" where
  "cancel_locked S ctx frm =
     abind (current_state S ctx) (\<lambda>actual.
     if actual = turn_state.Cancelled
     then
       abind (has_pending_invocations S ctx) (\<lambda>pending.
       if pending then afail (unexpected ctx frm actual) else areturn ())
     else if turn_is_terminal actual then afail (unexpected ctx frm actual)
     else if actual = Cancelling
     then
       abind (has_pending_invocations S ctx) (\<lambda>pending.
       if pending then areturn ()
       else
         abind (transition_locked S ctx Cancelling turn_state.Cancelled (Some ''turn runner cancelled'')) (\<lambda>_.
         areturn ()))
     else
       abind (transition_locked S ctx actual Cancelling (Some ''turn runner cancellation requested'')) (\<lambda>_.
       abind (has_pending_invocations S ctx) (\<lambda>pending.
       if pending then areturn ()
       else
         abind (transition_locked S ctx Cancelling turn_state.Cancelled (Some ''turn runner cancelled'')) (\<lambda>_.
         areturn ()))))"

definition cancel :: "'w service \<Rightarrow> run_context \<Rightarrow> turn_state \<Rightarrow> ('w, unit) run" where
  "cancel S ctx frm = cancel_locked S ctx frm"

text \<open>The cancellation flag of a turn.\<close>

definition is_cancelled :: "turn_id \<Rightarrow> 'w daemon \<Rightarrow> bool" where
  "is_cancelled turn d \<longleftrightarrow> bt_get (dm_active d) turn = Some True"

definition complete :: "'w service \<Rightarrow> run_context \<Rightarrow> item \<Rightarrow> ('w, turn_run_result) run" where
  "complete S ctx item d =
     (if is_cancelled (rc_turn ctx) d
      then abind (cancel_locked S ctx Streaming) (\<lambda>_. areturn (RunCancelled (rc_request_id ctx))) d
      else
        abind (persist_locked_expected S ctx Streaming (ItemAdded item)) (\<lambda>_.
        abind (transition_locked S ctx Streaming turn_state.Completed None) (\<lambda>_.
        areturn (RunCompleted (rc_request_id ctx) (it_id item)))) d)"

section \<open>Invocations\<close>

definition tool_result_item :: "'w service \<Rightarrow> run_context \<Rightarrow> pending_invocation \<Rightarrow> json \<Rightarrow> bool \<Rightarrow> ('w, item) run" where
  "tool_result_item S ctx invocation result is_error =
     abind (runner_uuid S) (\<lambda>i.
     abind (runner_now S) (\<lambda>now.
     areturn
       \<lparr>it_id = i, it_thread_id = rc_thread ctx, it_turn_id = rc_turn ctx, it_agent_id = rc_agent_id ctx, it_kind = ToolResult,
        it_content = JObject
          [(''content'', ec_blocks (sv_encoders S) [ToolResultBlock (at_call_id (pd_call invocation)) result is_error]),
           (''invocation_id'', ec_uuid (sv_encoders S) (pd_invocation_id invocation))],
        it_created_at = now\<rparr>))"

fun new_ledger_events :: "'w service \<Rightarrow> run_context \<Rightarrow> event list \<Rightarrow> ('w, new_ledger_event list) run" where
  "new_ledger_events S ctx [] = areturn []"
| "new_ledger_events S ctx (event # events) =
     abind (new_ledger_event_locked S ctx event) (\<lambda>input.
     abind (new_ledger_events S ctx events) (\<lambda>inputs. areturn (input # inputs)))"

definition proposal_event :: "externals \<Rightarrow> pending_invocation \<Rightarrow> event" where
  "proposal_event X invocation =
     InvocationProposed (pd_invocation_id invocation) (at_call_id (pd_call invocation)) (at_name (pd_call invocation))
       (pd_tool_version invocation) (digest_value X (pd_normalized_arguments invocation)) (pd_effects invocation)
       (digest_effects X (pd_effects invocation)) (es_idempotency (pd_effects invocation))"

text \<open>The part of \<open>persist_tool_proposals\<close> that holds the gate.\<close>

definition persist_tool_proposals_locked ::
  "'w service \<Rightarrow> run_context \<Rightarrow> pending_invocation list \<Rightarrow> content_block list \<Rightarrow> ('w, unit) run" where
  "persist_tool_proposals_locked S ctx invocations assistant_content =
     abind (current_state S ctx) (\<lambda>actual.
     if actual \<noteq> ProposedTools then afail (unexpected ctx ProposedTools actual)
     else
       abind (runner_uuid S) (\<lambda>item_id.
       abind (runner_now S) (\<lambda>now.
       let item = \<lparr>it_id = item_id, it_thread_id = rc_thread ctx, it_turn_id = rc_turn ctx, it_agent_id = rc_agent_id ctx,
                   it_kind = ToolCall,
                   it_content = JObject
                     [(''content'', ec_blocks (sv_encoders S) assistant_content),
                      (''invocation_ids'', JArray (map (\<lambda>v. JString (uuid_str (sv_externals S) (pd_invocation_id v))) invocations))],
                   it_created_at = now\<rparr> in
       abind (new_ledger_events S ctx (ItemAdded item # map (proposal_event (sv_externals S)) invocations)) (\<lambda>inputs.
       abind (persist_new_events_locked S inputs) (\<lambda>_. areturn ())))))"

definition persist_invocation_transition ::
  "'w service \<Rightarrow> run_context \<Rightarrow> invocation_id \<Rightarrow> invocation_state \<Rightarrow> invocation_state \<Rightarrow> string option \<Rightarrow> ('w, event_envelope) run" where
  "persist_invocation_transition S ctx invocation frm to reason =
     abind (if to = Started
            then abind (current_state S ctx) (\<lambda>actual.
                 if actual \<noteq> Executing then afail (unexpected ctx Executing actual) else areturn ())
            else areturn ()) (\<lambda>_.
     abind (ensure_turn_nonterminal_locked S ctx) (\<lambda>_.
     if frm = Started \<and> to = invocation_state.Unknown
     then
       abind (new_ledger_event_locked S ctx (InvocationStateChanged invocation frm to reason)) (\<lambda>input.
       abind (runner_ledger (\<lambda>db. append_invocation_unknown (sv_codec S) (sv_externals S) db \<lparr>nu_state = input\<rparr>)) (\<lambda>persisted.
       abind (alift (map_err LedgerFailed (envelope_of (sv_codec S) persisted))) (\<lambda>envelope.
       abind (\<lambda>d. (d\<lparr>dm_sent := dm_sent d @ [envelope]\<rparr>, Ok ())) (\<lambda>_.
       areturn envelope))))
     else persist_locked S ctx (InvocationStateChanged invocation frm to reason)))"

definition persist_invocation_unknown_outcome ::
  "'w service \<Rightarrow> run_context \<Rightarrow> pending_invocation \<Rightarrow> json \<Rightarrow> bool \<Rightarrow> string \<Rightarrow> ('w, event_envelope list) run" where
  "persist_invocation_unknown_outcome S ctx invocation result is_error reason =
     abind (ensure_turn_nonterminal_locked S ctx) (\<lambda>_.
     abind (new_ledger_event_locked S ctx
        (InvocationStateChanged (pd_invocation_id invocation) Started invocation_state.Unknown (Some reason))) (\<lambda>unknown_state.
     abind (tool_result_item S ctx invocation result is_error) (\<lambda>item.
     abind (new_ledger_event_locked S ctx (ItemAdded item)) (\<lambda>tool_result.
     abind (runner_ledger (\<lambda>db. append_invocation_unknown_outcome (sv_codec S) (sv_externals S) db
        \<lparr>nuo_unknown_state = unknown_state, nuo_tool_result = tool_result\<rparr>)) (broadcast_events S)))))"

definition persist_invocation_outcome ::
  "'w service \<Rightarrow> run_context \<Rightarrow> pending_invocation \<Rightarrow> invocation_state \<Rightarrow> invocation_state \<Rightarrow> json \<Rightarrow> bool \<Rightarrow> string option \<Rightarrow>
   ('w, event_envelope list) run" where
  "persist_invocation_outcome S ctx invocation terminal_state from_state result is_error reason =
     abind (ensure_turn_nonterminal_locked S ctx) (\<lambda>_.
     abind (tool_result_item S ctx invocation result is_error) (\<lambda>item.
     abind (new_ledger_event_locked S ctx (ItemAdded item)) (\<lambda>tool_result.
     abind (new_ledger_event_locked S ctx
        (InvocationStateChanged (pd_invocation_id invocation) from_state terminal_state reason)) (\<lambda>terminal.
     abind (runner_ledger (\<lambda>db. append_invocation_outcome (sv_codec S) (sv_externals S) db
        \<lparr>no_tool_result = tool_result, no_terminal_state = terminal\<rparr>)) (broadcast_events S)))))"

section \<open>Settlement\<close>

definition settled_item :: "'w service \<Rightarrow> item_id \<Rightarrow> projected_invocation \<Rightarrow> json \<Rightarrow> instant \<Rightarrow> item" where
  "settled_item S i v result now =
     \<lparr>it_id = i, it_thread_id = pv_thread_id v, it_turn_id = pv_turn_id v, it_agent_id = pv_agent_id v, it_kind = ToolResult,
      it_content = JObject
        [(''content'', ec_blocks (sv_encoders S) [ToolResultBlock (pv_call_id v) result True]),
         (''invocation_id'', ec_uuid (sv_encoders S) (pv_invocation_id v))],
      it_created_at = now\<rparr>"

definition cancel_causation :: "externals \<Rightarrow> projected_invocation \<Rightarrow> string" where
  "cancel_causation X v =
     ''turn-cancel-invocation:'' @ uuid_str X (pv_turn_id v) @ '':'' @ uuid_str X (pv_invocation_id v)"

definition result_value :: "string \<Rightarrow> string \<Rightarrow> json" where
  "result_value code message = JObject [(''code'', JString code), (''message'', JString message)]"

definition persist_cancelled_invocation_locked :: "'w service \<Rightarrow> projected_invocation \<Rightarrow> ('w, unit) run" where
  "persist_cancelled_invocation_locked S v =
     (let event = new_scoped_ledger_event_locked S (pv_thread_id v) (pv_turn_id v) (pv_agent_id v)
            (cancel_causation (sv_externals S) v) in
      abind (runner_uuid S) (\<lambda>i.
      abind (runner_now S) (\<lambda>now.
      abind (event (ItemAdded (settled_item S i v
         (result_value ''tool_cancelled_before_start''
            ''turn cancellation arrived before this tool crossed the execution boundary'') now))) (\<lambda>tool_result.
      abind (event (InvocationStateChanged (pv_invocation_id v) (pv_state v) invocation_state.Failed
         (Some ''turn cancellation arrived before tool execution''))) (\<lambda>terminal_state.
      abind (runner_ledger (\<lambda>db. append_invocation_outcome (sv_codec S) (sv_externals S) db
         \<lparr>no_tool_result = tool_result, no_terminal_state = terminal_state\<rparr>)) (\<lambda>committed.
      abind (broadcast_events S committed) (\<lambda>_. areturn ())))))))"

definition persist_unknown_invocation_locked :: "'w service \<Rightarrow> projected_invocation \<Rightarrow> ('w, unit) run" where
  "persist_unknown_invocation_locked S v =
     (let event = new_scoped_ledger_event_locked S (pv_thread_id v) (pv_turn_id v) (pv_agent_id v)
            (cancel_causation (sv_externals S) v) in
      abind (event (InvocationStateChanged (pv_invocation_id v) Started invocation_state.Unknown
         (Some ''turn cancellation could not prove tool termination''))) (\<lambda>unknown_state.
      abind (runner_uuid S) (\<lambda>i.
      abind (runner_now S) (\<lambda>now.
      abind (event (ItemAdded (settled_item S i v
         (result_value ''tool_outcome_unknown''
            ''tool execution may still be running; reconcile before retrying'') now))) (\<lambda>tool_result.
      abind (runner_ledger (\<lambda>db. append_invocation_unknown_outcome (sv_codec S) (sv_externals S) db
         \<lparr>nuo_unknown_state = unknown_state, nuo_tool_result = tool_result\<rparr>)) (\<lambda>committed.
      abind (broadcast_events S committed) (\<lambda>_. areturn ())))))))"

text \<open>The invocations of the turn one after the other; the result tells whether one needs reconciliation.\<close>

fun settle_invocations :: "'w service \<Rightarrow> projected_invocation list \<Rightarrow> ('w, bool) run" where
  "settle_invocations S [] = areturn False"
| "settle_invocations S (v # vs) =
     abind (case pv_state v of
              Proposed \<Rightarrow> abind (persist_cancelled_invocation_locked S v) (\<lambda>_. areturn False)
            | Approved \<Rightarrow> abind (persist_cancelled_invocation_locked S v) (\<lambda>_. areturn False)
            | Prepared \<Rightarrow> abind (persist_cancelled_invocation_locked S v) (\<lambda>_. areturn False)
            | Started \<Rightarrow> abind (persist_unknown_invocation_locked S v) (\<lambda>_. areturn True)
            | invocation_state.Unknown \<Rightarrow> areturn True
            | _ \<Rightarrow> areturn False) (\<lambda>here.
     abind (settle_invocations S vs) (\<lambda>later. areturn (here \<or> later)))"

definition close_settled ::
  "'w service \<Rightarrow> turn_run_spec \<Rightarrow> agent_id \<Rightarrow> bool \<Rightarrow> ('w, turn_settlement) run" where
  "close_settled S spec agent requires_reconciliation =
     (let event = new_scoped_ledger_event_locked S (tr_thread_id spec) (tr_turn_id spec) agent
            (''turn-cancel-settlement:'' @ uuid_str (sv_externals S) (tr_turn_id spec)) in
      abind (if requires_reconciliation
             then abind (event (RuntimeDiagnostic ''turn_cancellation_requires_reconciliation''
               ''turn cancellation encountered an invocation whose external outcome was not provably stopped; reconcile before retrying'' False))
               (\<lambda>e. areturn [e])
             else areturn []) (\<lambda>first.
      abind (event (TurnStateChanged (tr_turn_id spec) Cancelling
         (if requires_reconciliation then turn_state.Failed else turn_state.Cancelled)
         (Some (if requires_reconciliation then ''turn cancellation requires invocation reconciliation''
                else ''turn runner cancelled after settling all invocations'')))) (\<lambda>change.
      abind (persist_new_events_locked S (first @ [change])) (\<lambda>_.
      areturn (if requires_reconciliation then FailedReconciliation else SettledCancelled)))))"

definition settle_interrupted_turn :: "'w service \<Rightarrow> turn_run_spec \<Rightarrow> ('w, turn_settlement) run" where
  "settle_interrupted_turn S spec =
     abind (runner_projection S) (\<lambda>p.
     abind (alift (ok_or (MissingTurn (tr_turn_id spec)) (bt_get (pr_turns p) (tr_turn_id spec)))) (\<lambda>turn.
     if tu_thread_id turn \<noteq> tr_thread_id spec
     then afail (WrongThread (tr_turn_id spec) (tr_thread_id spec) (tu_thread_id turn))
     else
       let current = tu_state turn;
           pending = filter (\<lambda>v. of_turn spec v \<and> \<not> inv_is_terminal (pv_state v)) (bt_values (pr_invocations p));
           only_unknown = (\<forall>v \<in> set pending. pv_state v = invocation_state.Unknown) in
       if current \<noteq> Cancelling
       then
         if turn_is_terminal current
         then (if pending = [] \<or> current = turn_state.Failed \<and> only_unknown then areturn Unchanged
               else afail (UnexpectedState (tr_turn_id spec) Cancelling current))
         else if pending \<noteq> [] then afail (UnexpectedState (tr_turn_id spec) Cancelling current)
         else areturn Unchanged
       else
         abind (settle_invocations S pending) (\<lambda>requires_reconciliation.
         abind (runner_projection S) (\<lambda>p'.
         abind (alift (ok_or (MissingTurn (tr_turn_id spec)) (map_option tu_state (bt_get (pr_turns p') (tr_turn_id spec))))) (\<lambda>current'.
         if current' \<noteq> Cancelling
         then (if pending = [] \<or> current' = turn_state.Failed \<and> only_unknown then areturn Unchanged
               else afail (UnexpectedState (tr_turn_id spec) Cancelling current'))
         else close_settled S spec (tu_agent_id turn) requires_reconciliation)))))"

end
