(* ===== verification/Runner_Context.thy ===== *)
theory Runner_Context
  imports Runner_Ledger Invocation_Pipeline
begin

text \<open>
  What a turn sends to the model and what it collects from it (\<open>yeuxd/src/runner.rs\<close>): the
  context built from the events of a thread and its ancestors, the checks on its size, the
  content assembled from the stream, and how the results of tool workers are classified.
\<close>

section \<open>Data\<close>

datatype message_role = System | User | Assistant | ToolRole

record model_message =
  mm_role :: message_role
  mm_content :: "content_block list"

record token_budget =
  tb_max_input_tokens :: nat
  tb_max_output_tokens :: nat

record model_request =
  mr_request_id :: model_request_id
  mr_turn_id :: turn_id
  mr_provider :: string
  mr_model :: string
  mr_messages :: "model_message list"
  mr_tools :: "tool_spec list"
  mr_budget :: token_budget
  mr_metadata :: json

text \<open>
  A provider emits events into the sink, each time seeing whether the sink took the event,
  until its stream ends with a result.
\<close>

datatype provider_stream =
    StreamEnds "(port_error, unit) rust_result"
  | StreamEmits model_event "(port_error, unit) rust_result \<Rightarrow> provider_stream"

record agent_loop_limits =
  al_max_model_rounds :: nat
  al_max_tool_calls :: nat
  al_max_tool_result_bytes :: nat
  al_max_search_operations :: nat

definition DEFAULT_MAX_MODEL_ROUNDS :: nat where "DEFAULT_MAX_MODEL_ROUNDS = 8"
definition DEFAULT_MAX_TOOL_CALLS_PER_TURN :: nat where "DEFAULT_MAX_TOOL_CALLS_PER_TURN = 32"
definition DEFAULT_MAX_TOOL_RESULT_BYTES_PER_TURN :: nat where "DEFAULT_MAX_TOOL_RESULT_BYTES_PER_TURN = 4 * 1024 * 1024"
definition MAX_CONTEXT_MESSAGES :: nat where "MAX_CONTEXT_MESSAGES = 4096"
definition MAX_CONTEXT_BLOCKS :: nat where "MAX_CONTEXT_BLOCKS = 16384"
definition MAX_CONTEXT_BYTES :: nat where "MAX_CONTEXT_BYTES = 8 * 1024 * 1024"
definition MAX_CONTEXT_TEXT_BYTES_PER_BLOCK :: nat where "MAX_CONTEXT_TEXT_BYTES_PER_BLOCK = 256 * 1024"
definition MAX_MODEL_ROUNDS_HARD :: nat where "MAX_MODEL_ROUNDS_HARD = 64"
definition MAX_TOOL_CALLS_HARD :: nat where "MAX_TOOL_CALLS_HARD = 128"
definition MAX_TOOL_RESULT_BYTES_HARD :: nat where "MAX_TOOL_RESULT_BYTES_HARD = 64 * 1024 * 1024"
definition MAX_INPUT_TOKENS_HARD :: nat where "MAX_INPUT_TOKENS_HARD = 2000000"
definition MAX_OUTPUT_TOKENS_HARD :: nat where "MAX_OUTPUT_TOKENS_HARD = 256000"
definition MAX_WORKSPACE_SEARCH_GATES :: nat where "MAX_WORKSPACE_SEARCH_GATES = 256"

record model_provider_config =
  mp_provider_id :: string
  mp_capabilities :: provider_capabilities
  mp_stream :: "nat \<Rightarrow> model_request \<Rightarrow> provider_stream"
  mp_model :: string
  mp_budget :: token_budget
  mp_metadata :: json
  mp_loop_limits :: agent_loop_limits

text \<open>
  The runner: the service it shares with the commands, its provider, and what it uses of code
  that is not modelled - the deserialisers, the texts of the errors, the constructor of the
  built-in tools, and the randomness and clock of the pipeline.
\<close>

record ('w, 'c) runner =
  ru_service :: "'w service"
  ru_provider :: "model_provider_config option"
  ru_host_ceiling :: capability_mode
  ru_built_ins :: "bool \<Rightarrow> bool \<Rightarrow> workspace_handle \<Rightarrow> (registry_error, ('w, 'c) tool_registry) rust_result"
  ru_token :: "nat \<Rightarrow> string"
  ru_approval_id :: "nat \<Rightarrow> approval_id"
  ru_clock :: "nat \<Rightarrow> instant"
  ru_parse :: json_parser
  ru_decode_blocks :: "json \<Rightarrow> (string, content_block list) rust_result"
  ru_decode_grant :: "json \<Rightarrow> (string, capability_grant) rust_result"
  ru_encode_messages :: "model_message list \<Rightarrow> string"
  ru_runner_text :: "turn_runner_error \<Rightarrow> string"
  ru_registry_text :: "registry_error \<Rightarrow> string"
  ru_pipeline_text :: "pipeline_error \<Rightarrow> string"
  ru_assembly_text :: "assembly_error \<Rightarrow> string"
  ru_workspace_text :: "workspace_error \<Rightarrow> string"

section \<open>The lineage of a thread\<close>

text \<open>
  The walk from a thread to its root; each ancestor is capped at the sequence number of the
  fork. The fuel is the number of threads; \<open>None\<close> stands for a walk that would not end.
\<close>

fun walk_lineage ::
  "nat \<Rightarrow> projection \<Rightarrow> thread_id \<Rightarrow> nat option \<Rightarrow> (turn_runner_error, (thread_id \<times> nat option) list) rust_result option" where
  "walk_lineage 0 p current through = None"
| "walk_lineage (Suc n) p current through =
     (case bt_get (pr_threads p) current of
        None \<Rightarrow> Some (Err (MissingThread current))
      | Some thread \<Rightarrow>
          (case th_parent_thread_id thread of
             None \<Rightarrow> Some (Ok [(current, through)])
           | Some parent \<Rightarrow>
               (case th_parent_seq thread of
                  None \<Rightarrow> Some (Err (MissingParentSequence (th_id thread)))
                | Some limit \<Rightarrow>
                    map_option (\<lambda>r. rbind r (\<lambda>rest. Ok ((current, through) # rest))) (walk_lineage n p parent (Some limit)))))"

definition lineage :: "projection \<Rightarrow> thread_id \<Rightarrow> (turn_runner_error, (thread_id \<times> nat option) list) rust_result" where
  "lineage p thread =
     (case walk_lineage (Suc (length (pr_threads p))) p thread None of
        None \<Rightarrow> Err (RunnerPanic ''the lineage does not end'')
      | Some r \<Rightarrow> rbind r (\<lambda>entries. Ok (rev entries)))"

text \<open>One segment of the lineage.\<close>

definition read_segment :: "'w service \<Rightarrow> thread_id \<times> nat option \<Rightarrow> ('w, event_envelope list) run" where
  "read_segment S entry d =
     (d, map_err LedgerFailed
        (rbind (replay_thread (cd_stored (sv_codec S)) (dm_ledger d) (uuid_str (sv_externals S) (fst entry)) 0) (\<lambda>rows.
         collect_results (envelope_of (sv_codec S))
           (filter (\<lambda>row. case snd entry of None \<Rightarrow> True | Some limit \<Rightarrow> le_seq row \<le> limit) rows))))"

section \<open>Messages\<close>

definition role_of :: "item_kind \<Rightarrow> message_role option" where
  "role_of kind =
     (case kind of
        UserMessage \<Rightarrow> Some User
      | AssistantMessage \<Rightarrow> Some Assistant
      | Reasoning \<Rightarrow> Some Assistant
      | ToolCall \<Rightarrow> Some Assistant
      | ToolResult \<Rightarrow> Some ToolRole
      | _ \<Rightarrow> None)"

fun not_for_users :: "content_block \<Rightarrow> bool" where
  "not_for_users (ReasoningText _) = True"
| "not_for_users (ToolCallBlock _ _ _) = True"
| "not_for_users (ToolResultBlock _ _ _) = True"
| "not_for_users _ = False"

definition item_message ::
  "(json \<Rightarrow> (string, content_block list) rust_result) \<Rightarrow> item \<Rightarrow> (turn_runner_error, model_message list) rust_result" where
  "item_message decode_blocks item =
     (case role_of (it_kind item) of
        None \<Rightarrow> Ok []
      | Some role \<Rightarrow>
          rbind (map_err (InvalidMessageItem (it_id item))
             (decode_blocks (case json_get (it_content item) ''content'' of None \<Rightarrow> it_content item | Some v \<Rightarrow> v))) (\<lambda>content.
          if it_kind item = UserMessage \<and> list_ex not_for_users content
          then Err (InvalidMessageItem (it_id item) ''user messages may not contain reasoning or tool blocks'')
          else Ok [\<lparr>mm_role = role, mm_content = content\<rparr>]))"

fun event_message ::
  "(json \<Rightarrow> (string, content_block list) rust_result) \<Rightarrow> event \<Rightarrow> (turn_runner_error, model_message list) rust_result" where
  "event_message decode_blocks (TurnSteered _ message) = Ok [\<lparr>mm_role = User, mm_content = [Text message]\<rparr>]"
| "event_message decode_blocks (ItemAdded item) = item_message decode_blocks item"
| "event_message decode_blocks _ = Ok []"

fun messages_from_events ::
  "(json \<Rightarrow> (string, content_block list) rust_result) \<Rightarrow> event_envelope list \<Rightarrow> (turn_runner_error, model_message list) rust_result" where
  "messages_from_events decode_blocks [] = Ok []"
| "messages_from_events decode_blocks (env # envs) =
     rbind (event_message decode_blocks (en_event env)) (\<lambda>ms.
     rbind (messages_from_events decode_blocks envs) (\<lambda>rest. Ok (ms @ rest)))"

definition messages_from_thread_events ::
  "(json \<Rightarrow> (string, content_block list) rust_result) \<Rightarrow> event_envelope list \<Rightarrow> thread_id \<Rightarrow>
   (turn_runner_error, model_message list) rust_result" where
  "messages_from_thread_events decode_blocks events thread =
     messages_from_events decode_blocks (filter (\<lambda>env. en_thread_id env = thread) events)"

definition messages_from_lineage_events ::
  "(json \<Rightarrow> (string, content_block list) rust_result) \<Rightarrow> event_envelope list \<Rightarrow> (turn_runner_error, model_message list) rust_result" where
  "messages_from_lineage_events decode_blocks events = messages_from_events decode_blocks events"

section \<open>The size of the context\<close>

definition block_bytes :: "externals \<Rightarrow> content_block \<Rightarrow> nat" where
  "block_bytes X block =
     (case block of
        Text text \<Rightarrow> length text
      | ReasoningText text \<Rightarrow> length text
      | Image media_type source \<Rightarrow> saturating_add (length media_type) (source_bytes source)
      | ToolCallBlock call_id name arguments \<Rightarrow>
          saturating_add (saturating_add (length call_id) (length name)) (length (json_to_vec X arguments))
      | ToolResultBlock call_id content _ \<Rightarrow> saturating_add (length call_id) (length (json_to_vec X content)))"

fun validate_messages :: "externals \<Rightarrow> nat \<Rightarrow> model_message list \<Rightarrow> (string, unit) rust_result" where
  "validate_messages X blocks [] = Ok ()"
| "validate_messages X blocks (m # ms) =
     (let blocks' = saturating_add blocks (length (mm_content m)) in
      if blocks' > MAX_CONTEXT_BLOCKS
      then Err (''model context contains too many content blocks (maximum '' @ dec_digits MAX_CONTEXT_BLOCKS @ '')'')
      else if list_ex (\<lambda>b. block_bytes X b > MAX_CONTEXT_TEXT_BYTES_PER_BLOCK) (mm_content m)
      then Err (''a model context block exceeds the '' @ dec_digits MAX_CONTEXT_TEXT_BYTES_PER_BLOCK @ ''-byte limit'')
      else validate_messages X blocks' ms)"

definition estimated_tokens :: "nat \<Rightarrow> nat" where
  "estimated_tokens bytes = saturating_add bytes 3 div 4"

definition validate_model_context ::
  "externals \<Rightarrow> (model_message list \<Rightarrow> string) \<Rightarrow> model_message list \<Rightarrow> token_budget \<Rightarrow> nat \<Rightarrow> (string, unit) rust_result" where
  "validate_model_context X encode_messages messages budget provider_context_tokens =
     (if length messages > MAX_CONTEXT_MESSAGES
      then Err (''model context contains too many messages ('' @ dec_digits (length messages) @ ''; maximum '' @
        dec_digits MAX_CONTEXT_MESSAGES @ '')'')
      else
        rbind (validate_messages X 0 messages) (\<lambda>_.
        let encoded = length (encode_messages messages); tokens = estimated_tokens encoded in
        if encoded > MAX_CONTEXT_BYTES
        then Err (''serialized model context exceeds the '' @ dec_digits MAX_CONTEXT_BYTES @ ''-byte limit'')
        else if tb_max_input_tokens budget > 0 \<and> tokens > tb_max_input_tokens budget
        then Err (''estimated model input tokens '' @ dec_digits tokens @ '' exceed the configured budget '' @
          dec_digits (tb_max_input_tokens budget))
        else if provider_context_tokens > 0 \<and> saturating_add tokens (tb_max_output_tokens budget) > provider_context_tokens
        then Err (''estimated input plus output tokens exceed provider context limit '' @ dec_digits provider_context_tokens)
        else Ok ()))"

section \<open>The identity of the workspace\<close>

definition debug_option :: "nat option \<Rightarrow> string" where
  "debug_option v = (case v of None \<Rightarrow> ''None'' | Some n \<Rightarrow> ''Some('' @ dec_digits n @ '')'')"

definition validate_workspace_identity ::
  "workspace_handle \<Rightarrow> workspace_identity \<Rightarrow> (string, unit) rust_result" where
  "validate_workspace_identity runtime expected =
     (let actual = wk_root_identity runtime; actual_root = utf8_lossy (wis_canonical_root actual) in
      if actual_root \<noteq> wi_canonical_root expected
      then Err (''workspace canonical root changed: expected '' @ wi_canonical_root expected @ '', actual '' @ actual_root)
      else if wis_digest actual \<noteq> wi_digest expected
      then Err (''workspace identity digest changed: expected '' @ wi_digest expected @ '', actual '' @ wis_digest actual)
      else if wi_device expected \<noteq> None \<and> wis_device actual \<noteq> wi_device expected
      then Err (''workspace device identity changed: expected '' @ debug_option (wi_device expected) @ '', actual '' @
        debug_option (wis_device actual))
      else if wi_inode expected \<noteq> None \<and> wis_inode actual \<noteq> wi_inode expected
      then Err (''workspace inode identity changed: expected '' @ debug_option (wi_inode expected) @ '', actual '' @
        debug_option (wis_inode actual))
      else Ok ())"

section \<open>The stream\<close>

record model_sink =
  sk_content :: "content_block list"
  sk_completion_count :: nat
  sk_stop_reason :: "stop_reason option"
  sk_tool_calls :: tool_call_assembler
  sk_model_failure :: "(string \<times> string) option"

definition sink_new :: model_sink where
  "sink_new =
     \<lparr>sk_content = [], sk_completion_count = 0, sk_stop_reason = None, sk_tool_calls = assembler_new default_limits,
      sk_model_failure = None\<rparr>"

definition append_text :: "content_block list \<Rightarrow> bool \<Rightarrow> string \<Rightarrow> content_block list" where
  "append_text content reasoning delta =
     (if content = [] then [if reasoning then ReasoningText delta else Text delta]
      else case (last content, reasoning) of
        (Text text, False) \<Rightarrow> butlast content @ [Text (text @ delta)]
      | (ReasoningText text, True) \<Rightarrow> butlast content @ [ReasoningText (text @ delta)]
      | (_, False) \<Rightarrow> content @ [Text delta]
      | (_, True) \<Rightarrow> content @ [ReasoningText delta])"

fun collect_content :: "model_sink \<Rightarrow> model_event \<Rightarrow> model_sink \<times> (assembly_error, unit) rust_result" where
  "collect_content sink (TextDelta text) = (sink\<lparr>sk_content := append_text (sk_content sink) False text\<rparr>, Ok ())"
| "collect_content sink (ReasoningDelta text) = (sink\<lparr>sk_content := append_text (sk_content sink) True text\<rparr>, Ok ())"
| "collect_content sink (ToolCallDelta call name delta) =
     (case push (sk_tool_calls sink) (ToolCallDelta call name delta) of (a, r) \<Rightarrow> (sink\<lparr>sk_tool_calls := a\<rparr>, r))"
| "collect_content sink (model_event.Completed stop) =
     (sink\<lparr>sk_completion_count := Suc (sk_completion_count sink), sk_stop_reason := Some stop,
           sk_model_failure := (if stop = stop_reason.Cancelled
              then Some (''provider_cancelled'', ''the provider cancelled the model stream'') else sk_model_failure sink)\<rparr>, Ok ())"
| "collect_content sink (model_event.Failed code message _) = (sink\<lparr>sk_model_failure := Some (code, message)\<rparr>, Ok ())"
| "collect_content sink (Usage _) = (sink, Ok ())"

definition sink_error :: "string \<Rightarrow> string \<Rightarrow> port_error" where
  "sink_error code message = \<lparr>po_code = code, po_message = message, po_retryable = False\<rparr>"

text \<open>One event of the stream: persisted, then collected. The whole step holds the gate.\<close>

definition emit ::
  "('w, 'c) runner \<Rightarrow> run_context \<Rightarrow> model_sink \<Rightarrow> model_event \<Rightarrow> ('w, model_sink \<times> (port_error, unit) rust_result) run" where
  "emit R ctx sink event d =
     (if is_cancelled (rc_turn ctx) d
      then (d, Ok (sink, Err (sink_error ''turn_cancelled'' ''turn was cancelled while the provider was streaming'')))
      else
        case persist_locked_expected (ru_service R) ctx Streaming (ModelStreamEvent (rc_request_id ctx) event) d of
          (d', Inl e) \<Rightarrow> (d', Ok (sink, Err (sink_error ''event_persistence'' (ru_runner_text R e))))
        | (d', Inr _) \<Rightarrow>
            (case collect_content sink event of
               (sink', r) \<Rightarrow> (d', Ok (sink', map_err (\<lambda>e. sink_error ''provider_invalid_tool_call'' (ru_assembly_text R e)) r))))"

definition finish_tool_calls :: "('w, 'c) runner \<Rightarrow> model_sink \<Rightarrow> (assembly_error, assembled_tool_call list) rust_result" where
  "finish_tool_calls R sink = finish (ru_parse R) (sk_tool_calls sink)"

section \<open>The results of workers\<close>

record classified =
  cl_output :: json
  cl_is_error :: bool
  cl_terminal_state :: "invocation_state option"
  cl_from_state :: invocation_state
  cl_reason :: "string option"

definition pipeline_error_of :: "('w, 'c) runner \<Rightarrow> pipeline_error \<Rightarrow> registry_error" where
  "pipeline_error_of R e =
     (if pipeline_outcome_unknown e then OutcomeUnknown (ru_pipeline_text R e) else Authority (ru_pipeline_text R e))"

definition classify_tool_worker_join_error :: "string \<Rightarrow> classified" where
  "classify_tool_worker_join_error error =
     (let reason = bounded_message (''workspace tool worker terminated before its outcome could be verified: '' @ bounded_message error) in
      \<lparr>cl_output = result_value ''tool_outcome_unknown'' reason, cl_is_error = True, cl_terminal_state = None,
       cl_from_state = Started, cl_reason = Some reason\<rparr>)"

definition classify_tool_execution_error :: "('w, 'c) runner \<Rightarrow> registry_error \<Rightarrow> classified" where
  "classify_tool_execution_error R error =
     (let message = bounded_message (ru_registry_text R error) in
      \<lparr>cl_output = result_value (provider_code error) message, cl_is_error = True,
       cl_terminal_state = (if registry_outcome_unknown error then None else Some invocation_state.Failed),
       cl_from_state = Started, cl_reason = Some message\<rparr>)"

section \<open>Search gates\<close>

text \<open>
  The map of the search gates: per workspace how many workers hold its gate. An entry that
  nobody holds is dropped when another workspace asks.
\<close>

type_synonym search_gates = "(string \<times> string, nat) btree_map"

definition workspace_search_gate :: "search_gates \<Rightarrow> workspace_identity \<Rightarrow> search_gates \<times> bool" where
  "workspace_search_gate gates identity =
     (let key = (wi_canonical_root identity, wi_digest identity) in
      if bt_get gates key \<noteq> None \<and> bt_get gates key \<noteq> Some 0 then (gates, True)
      else
        let live = bt_retain (\<lambda>_ n. n > 0) (bt_remove gates key) in
        if length live \<ge> MAX_WORKSPACE_SEARCH_GATES then (live, False) else (bt_insert live key 1, True))"

end
