(* ===== verification/Thread_Lineage.thy ===== *)
theory Thread_Lineage
  imports Runner_Context
begin

text \<open>
  The ancestors of a thread (\<open>load_lineage_events\<close> in \<open>yeuxd/src/runner.rs\<close>). The source walks
  from parent to parent until a thread has none. In a projection that a replay builds every
  parent is older than its child, so the walk ends, and the fuel of the model is enough.
\<close>

section \<open>Parents are older than their children\<close>

definition parent_of :: "projection \<Rightarrow> thread_id \<Rightarrow> thread_id option" where
  "parent_of p k = Option.bind (bt_get (pr_threads p) k) th_parent_thread_id"

definition known_threads :: "projection \<Rightarrow> thread_id set" where
  "known_threads p = {k. bt_contains (pr_threads p) k}"

definition aged :: "(thread_id \<Rightarrow> nat) \<Rightarrow> projection \<Rightarrow> bool" where
  "aged rank p \<longleftrightarrow>
     finite (known_threads p) \<and>
     (\<forall>k \<in> known_threads p. rank k < card (known_threads p) \<and>
        (\<forall>parent. parent_of p k = Some parent \<longrightarrow> parent \<in> known_threads p \<and> rank parent < rank k))"

lemma thread_created:
  assumes "apply_thread_created X p env t = (q, Ok ())"
  shows "th_id t \<notin> known_threads p \<and> pr_threads q = bt_insert (pr_threads p) (th_id t) t \<and>
    (\<forall>parent. th_parent_thread_id t = Some parent \<longrightarrow> parent \<in> known_threads p)"
  using assms by (auto simp: handler_defs known_threads_def split: if_splits option.splits)

lemma thread_effect:
  assumes "apply_event X p env ev = (q, Ok ())"
  shows "known_threads q = known_threads p \<and> (\<forall>k. parent_of q k = parent_of p k) \<or>
    (\<exists>t. th_id t \<notin> known_threads p \<and> pr_threads q = bt_insert (pr_threads p) (th_id t) t \<and>
       (\<forall>parent. th_parent_thread_id t = Some parent \<longrightarrow> parent \<in> known_threads p))"
proof (cases "\<exists>t. ev = ThreadStarted t \<or> ev = ThreadForked t")
  case True
  then obtain t where "apply_thread_created X p env t = (q, Ok ())" using assms by auto
  from thread_created [OF this] show ?thesis by blast
next
  case False
  then have "known_threads q = known_threads p \<and> (\<forall>k. parent_of q k = parent_of p k)"
    using assms
    by (cases ev) (auto simp: handler_defs known_threads_def parent_of_def bt_contains_def bind_map_option o_def Let_def split: if_splits option.splits)
  then show ?thesis by blast
qed

lemma thread_recorded [simp]: "known_threads (record_event q env) = known_threads q" "parent_of (record_event q env) k = parent_of q k"
  by (auto simp: known_threads_def parent_of_def bind_eq_Some_conv split: option.splits) (cases "bt_get (pr_threads q) k"; simp)+

lemma aged_step:
  assumes "aged rank p" and "apply_step X p env = Ok p'"
  shows "\<exists>rank'. aged rank' p'"
proof -
  obtain q where q: "apply_event X p env (en_event env) = (q, Ok ())" "p' = record_event q env" using assms(2) by (auto simp: apply_step_Ok)
  have "\<exists>rank'. aged rank' q"
    using thread_effect [OF q(1)]
  proof (elim disjE exE conjE)
    assume "known_threads q = known_threads p" "\<forall>k. parent_of q k = parent_of p k"
    then show ?thesis using assms(1) by (auto simp: aged_def)
  next
    fix t assume t: "th_id t \<notin> known_threads p" "pr_threads q = bt_insert (pr_threads p) (th_id t) t"
        "\<forall>parent. th_parent_thread_id t = Some parent \<longrightarrow> parent \<in> known_threads p"
    then have K: "known_threads q = insert (th_id t) (known_threads p)"
        "parent_of q k = (if k = th_id t then th_parent_thread_id t else parent_of p k)" for k
      by (auto simp: known_threads_def parent_of_def)
    have "aged (rank(th_id t := card (known_threads p))) q"
      using assms(1) t(1,3) by (auto simp: aged_def K less_Suc_eq)
    then show ?thesis by blast
  qed
  then show ?thesis using q(2) by (auto simp: aged_def)
qed

lemma replay_aged:
  assumes "replay X es = Ok p"
  shows "\<exists>rank. aged rank p"
proof -
  have "\<exists>rank. aged rank projection_default" by (simp add: aged_def known_threads_def projection_default_def)
  then show ?thesis
    using replays.run_invariant [where I = "\<lambda>p. \<exists>rank. aged rank p" and X = X] assms aged_step unfolding replay_def by blast
qed

section \<open>The walk\<close>

text \<open>A list of ancestors, from a thread to its root, each capped where its child forked off.\<close>

fun ancestry :: "projection \<Rightarrow> (thread_id \<times> nat option) list \<Rightarrow> bool" where
  "ancestry p [] \<longleftrightarrow> False"
| "ancestry p ((k, limit) # rest) \<longleftrightarrow>
     (case bt_get (pr_threads p) k of
        None \<Rightarrow> False
      | Some thread \<Rightarrow>
          (case (th_parent_thread_id thread, rest) of
             (None, []) \<Rightarrow> True
           | (Some parent, (k', limit') # _) \<Rightarrow> k' = parent \<and> limit' = th_parent_seq thread \<and> limit' \<noteq> None \<and> ancestry p rest
           | _ \<Rightarrow> False))"

lemma walk_ends:
  assumes "aged rank p" and "k \<in> known_threads p" and "rank k < n"
  shows "(\<exists>i. walk_lineage n p k through = Some (Err (MissingParentSequence i))) \<or>
    (\<exists>entries. walk_lineage n p k through = Some (Ok ((k, through) # entries)) \<and> ancestry p ((k, through) # entries) \<and>
       distinct (map fst ((k, through) # entries)) \<and> (\<forall>e \<in> set entries. rank (fst e) < rank k))"
  using assms(2,3)
proof (induction n arbitrary: k through)
  case (Suc n)
  then obtain t where t: "bt_get (pr_threads p) k = Some t" by (auto simp: known_threads_def bt_contains_def)
  show ?case
  proof (cases "th_parent_thread_id t")
    case None
    then show ?thesis using t by simp
  next
    case (Some parent)
    then have older: "parent \<in> known_threads p" "rank parent < rank k"
      using assms(1) Suc.prems(1) t by (auto simp: aged_def parent_of_def)
    show ?thesis
    proof (cases "th_parent_seq t")
      case None
      then show ?thesis using t Some by simp
    next
      case (Some limit)
      from Suc.IH [OF older(1), of "Some limit"] older(2) Suc.prems(2) t \<open>th_parent_thread_id t = Some parent\<close> Some
      show ?thesis by fastforce
    qed
  qed
qed simp


definition forked_conversation :: "event_envelope list" where
  "forked_conversation =
     [sample_envelope 1 (WorkspaceOpened sample_workspace), sample_envelope 2 (ThreadStarted sample_thread),
      (sample_envelope 3 (ThreadForked (sample_thread\<lparr>th_id := 9, th_parent_thread_id := Some 2, th_parent_seq := Some 2\<rparr>)))
        \<lparr>en_thread_id := 9, en_seq := 1\<rparr>]"

lemma forked_replays:
  "\<exists>p t t'. replay plain_externals forked_conversation = Ok p \<and> pr_threads p = [(2, t), (9, t')] \<and>
     th_parent_thread_id t = None \<and> th_parent_thread_id t' = Some 2 \<and> th_parent_seq t' = Some 2"
  by (simp add: forked_conversation_def replay_simps)


end
