(* ===== verification/Turn_Runner.thy ===== *)
theory Turn_Runner
  imports Runner_Context Workspace_Diff
begin

text \<open>
  The agent loop (\<open>TurnRunner::run_with_approval\<close> and \<open>run_inner\<close> in \<open>yeuxd/src/runner.rs\<close>).
  A run alternates its own operations with whatever the other tasks of the daemon do; each
  operation that holds the mutation gate, reads the ledger, the cancellation flag or the
  workspace is one step of the run, and the surroundings act before every step.
\<close>

section \<open>The run and its surroundings\<close>

datatype worker =
    PipelineWorker (wo_invocation: invocation_id) prepared_invocation
  | ReadOnlyWorker (wo_invocation: invocation_id) string string string json effect_set

text \<open>
  A worker as it is spawned, with the daemon at that moment and the approval requests that the
  client has answered until then.
\<close>

type_synonym answers = "(approval_request_params \<times> approval_request_result) list"

record 'w spawned =
  sw_worker :: worker
  sw_daemon :: "'w daemon"
  sw_answers :: answers

text \<open>
  The state of a run: the daemon it shares, how many steps it has made, its pipeline, the
  workers it has spawned, those it has told to stop, the requests it has sent to the model and
  the answers to its approval requests.
\<close>

record ('w, 'c) running =
  rn_daemon :: "'w daemon"
  rn_tick :: nat
  rn_pipeline :: "('w, 'c) invocation_pipeline option"
  rn_workers :: "'w spawned list"
  rn_signalled :: "invocation_id list"
  rn_requests :: "model_request list"
  rn_answers :: answers

type_synonym ('w, 'c, 'a) turn_run = "(('w, 'c) running, turn_runner_error, 'a) act"

text \<open>A worker joins with its result, or with the text of a join error.\<close>

type_synonym join_result = "(string, (registry_error, json) rust_result) rust_result"

datatype poll = HandleReady join_result | PollTick

text \<open>
  The surroundings: what the other tasks do to the daemon, and workers to the tables of the
  pipeline, before a step; whether a worker slot is free; the search gates; the client that
  answers approval requests; what the wait for a worker sees before its deadline and in the
  grace period after a cancellation.
\<close>

record 'w surroundings =
  su_step :: "nat \<Rightarrow> 'w daemon \<Rightarrow> 'w daemon"
  su_tables :: "nat \<Rightarrow> issued_table \<times> consumed_table \<Rightarrow> issued_table \<times> consumed_table"
  su_permit :: "nat \<Rightarrow> bool"
  su_gates :: "nat \<Rightarrow> search_gates"
  su_gate_free :: "nat \<Rightarrow> bool"
  su_approval :: "(nat \<Rightarrow> approval_request_params \<Rightarrow> approval_request_result) option"
  su_polls :: "nat \<Rightarrow> poll list"
  su_grace :: "nat \<Rightarrow> join_result option"

definition locked :: "'w surroundings \<Rightarrow> ('w, 'a) run \<Rightarrow> ('w, 'c, 'a) turn_run" where
  "locked E m r =
     (case m (su_step E (rn_tick r) (rn_daemon r)) of
        (d, x) \<Rightarrow> (r\<lparr>rn_daemon := d, rn_tick := Suc (rn_tick r)\<rparr>, x))"

definition ask :: "(nat \<Rightarrow> 'a) \<Rightarrow> ('w, 'c, 'a) turn_run" where
  "ask f r = (r\<lparr>rn_tick := Suc (rn_tick r)\<rparr>, Ok (f (rn_tick r)))"

definition cancelled :: "'w surroundings \<Rightarrow> run_context \<Rightarrow> ('w, 'c, bool) turn_run" where
  "cancelled E ctx = locked E (\<lambda>d. (d, Ok (is_cancelled (rc_turn ctx) d)))"

definition read_world :: "'w surroundings \<Rightarrow> ('w, 'c, 'w) turn_run" where
  "read_world E = locked E (\<lambda>d. (d, Ok (dm_world d)))"

definition has_pipeline :: "('w, 'c, bool) turn_run" where
  "has_pipeline r = (r, Ok (rn_pipeline r \<noteq> None))"

definition with_tables ::
  "'w surroundings \<Rightarrow> nat \<Rightarrow> ('w, 'c) invocation_pipeline \<Rightarrow> ('w, 'c) invocation_pipeline" where
  "with_tables E n pl =
     (case su_tables E n (pl_issued_tokens pl, pl_consumed_tokens pl) of
        (issued, consumed) \<Rightarrow> pl\<lparr>pl_issued_tokens := issued, pl_consumed_tokens := consumed\<rparr>)"

text \<open>A call of the pipeline; nothing when the run has none.\<close>

definition on_pipeline ::
  "'w surroundings \<Rightarrow> (nat \<Rightarrow> ('w, 'c) invocation_pipeline \<Rightarrow> ('w, 'c) invocation_pipeline \<times> 'a) \<Rightarrow> ('w, 'c, 'a option) turn_run" where
  "on_pipeline E f r =
     (case rn_pipeline r of
        None \<Rightarrow> (r, Ok None)
      | Some pl \<Rightarrow>
          (case f (rn_tick r) (with_tables E (rn_tick r) pl) of
             (pl', x) \<Rightarrow> (r\<lparr>rn_pipeline := Some pl', rn_tick := Suc (rn_tick r)\<rparr>, Ok (Some x))))"

definition spawn :: "worker \<Rightarrow> ('w, 'c, unit) turn_run" where
  "spawn w r =
     (r\<lparr>rn_workers := rn_workers r @ [\<lparr>sw_worker = w, sw_daemon = rn_daemon r, sw_answers = rn_answers r\<rparr>]\<rparr>, Ok ())"

definition signal :: "bool \<Rightarrow> invocation_id \<Rightarrow> ('w, 'c, unit) turn_run" where
  "signal handle i r = (if handle then r\<lparr>rn_signalled := rn_signalled r @ [i]\<rparr> else r, Ok ())"

text \<open>What a phase of the loop ends with: the result of the turn, or what the next phase needs.\<close>

datatype 'a phase = Stop turn_run_result | Go 'a

definition proceed :: "('w, 'c, 'a phase) turn_run \<Rightarrow> ('a \<Rightarrow> ('w, 'c, 'b phase) turn_run) \<Rightarrow> ('w, 'c, 'b phase) turn_run" where
  "proceed m f = abind m (\<lambda>p. case p of Stop result \<Rightarrow> areturn (Stop result) | Go x \<Rightarrow> f x)"

definition stop :: "('w, 'c, turn_run_result) turn_run \<Rightarrow> ('w, 'c, 'a phase) turn_run" where
  "stop m = abind m (\<lambda>result. areturn (Stop result))"

section \<open>The context\<close>

fun read_segments :: "'w service \<Rightarrow> 'w surroundings \<Rightarrow> (thread_id \<times> nat option) list \<Rightarrow> ('w, 'c, event_envelope list) turn_run" where
  "read_segments S E [] = areturn []"
| "read_segments S E (entry # entries) =
     abind (locked E (read_segment S entry)) (\<lambda>events.
     abind (read_segments S E entries) (\<lambda>rest. areturn (events @ rest)))"

definition load_lineage_events ::
  "'w service \<Rightarrow> 'w surroundings \<Rightarrow> projection \<Rightarrow> thread_id \<Rightarrow> ('w, 'c, event_envelope list) turn_run" where
  "load_lineage_events S E p thread = abind (alift (lineage p thread)) (read_segments S E)"

definition reload_lineage_events :: "'w service \<Rightarrow> 'w surroundings \<Rightarrow> thread_id \<Rightarrow> ('w, 'c, event_envelope list) turn_run" where
  "reload_lineage_events S E thread = abind (locked E (runner_projection S)) (\<lambda>p. load_lineage_events S E p thread)"

text \<open>The override of the first user message of the turn that has one.\<close>

fun override_values :: "turn_id \<Rightarrow> event_envelope list \<Rightarrow> json list" where
  "override_values turn [] = []"
| "override_values turn (env # envs) =
     (case en_event env of
        ItemAdded item \<Rightarrow>
          if it_turn_id item = turn \<and> it_kind item = UserMessage
          then (case json_get (it_content item) ''capability_override'' of None \<Rightarrow> [] | Some v \<Rightarrow> [v])
          else []
      | _ \<Rightarrow> []) @ override_values turn envs"

definition turn_override_value :: "turn_id \<Rightarrow> event_envelope list \<Rightarrow> json option" where
  "turn_override_value turn events =
     (case override_values turn events of [] \<Rightarrow> None | v # _ \<Rightarrow> if v = JNull then None else Some v)"

definition load_context ::
  "('w, 'c) runner \<Rightarrow> 'w surroundings \<Rightarrow> turn_run_spec \<Rightarrow> model_request_id \<Rightarrow> ('w, 'c, run_context) turn_run" where
  "load_context R E spec request_id =
     abind (locked E (runner_projection (ru_service R))) (\<lambda>p.
     abind (alift (ok_or (MissingTurn (tr_turn_id spec)) (bt_get (pr_turns p) (tr_turn_id spec)))) (\<lambda>turn.
     if tu_thread_id turn \<noteq> tr_thread_id spec
     then afail (WrongThread (tr_turn_id spec) (tr_thread_id spec) (tu_thread_id turn))
     else if tu_state turn \<noteq> Accepted \<and> tu_state turn \<noteq> Cancelling
     then afail (UnexpectedState (tr_turn_id spec) Accepted (tu_state turn))
     else
       abind (alift (ok_or (MissingThread (tr_thread_id spec)) (bt_get (pr_threads p) (tr_thread_id spec)))) (\<lambda>thread.
       abind (alift (ok_or (MissingWorkspace (th_workspace_id thread)) (bt_get (pr_workspaces p) (th_workspace_id thread)))) (\<lambda>workspace.
       abind (load_lineage_events (ru_service R) E p (tr_thread_id spec)) (\<lambda>events.
       let override = map_option (ru_decode_grant R) (turn_override_value (tr_turn_id spec) events) in
       areturn
         \<lparr>rc_spec = spec, rc_request_id = request_id, rc_agent_id = tu_agent_id turn, rc_workspace_root = ws_root workspace,
          rc_workspace_id = ws_id workspace, rc_workspace_identity = ws_identity workspace,
          rc_workspace_trust = ws_trust workspace,
          rc_turn_override = (case override of Some (Inr grant) \<Rightarrow> Some grant | _ \<Rightarrow> None),
          rc_turn_override_error = (case override of Some (Inl e) \<Rightarrow> Some e | _ \<Rightarrow> None),
          rc_events = events\<rparr>)))))"

section \<open>Proposing\<close>

definition preparation_failed :: "string \<Rightarrow> string \<Rightarrow> tool_preparation_failure" where
  "preparation_failed code reason = \<lparr>tf_output = result_value code reason, tf_reason = reason\<rparr>"

definition pending_for ::
  "invocation_id \<Rightarrow> assembled_tool_call \<Rightarrow> string \<Rightarrow> nat \<Rightarrow> json \<Rightarrow> effect_set \<Rightarrow> tool_preparation_failure option \<Rightarrow>
   prepared_invocation option \<Rightarrow> pending_invocation" where
  "pending_for i call version timeout arguments effects problem prepared =
     \<lparr>pd_invocation_id = i, pd_call = call, pd_tool_version = version, pd_normalized_arguments = arguments,
      pd_timeout_ms = timeout, pd_effects = effects, pd_prepared = prepared, pd_preparation_failure = problem,
      pd_scheduler_rejected = False, pd_cancelled_before_start = False, pd_started = False\<rparr>"

definition call_version :: "('w, 'c) tool_registry \<Rightarrow> tool_spec option \<Rightarrow> string \<Rightarrow> string" where
  "call_version registry registered name =
     (case registered of
        Some spec \<Rightarrow> sp_version spec
      | None \<Rightarrow> (case advertised_version registry name of Some v \<Rightarrow> v | None \<Rightarrow> ''unregistered''))"

definition call_plan ::
  "('w, 'c) tool_registry \<Rightarrow> 'w \<Rightarrow> tool_spec option \<Rightarrow> string \<Rightarrow> assembled_tool_call \<Rightarrow> (registry_error, tool_plan) rust_result" where
  "call_plan registry w registered version call =
     (case registered of
        Some spec \<Rightarrow>
          if version \<noteq> ''unregistered'' then plan registry w (at_name call) (sp_version spec) (at_arguments call)
          else Err (registry_error.UnknownTool (at_name call) version)
      | None \<Rightarrow> Err (registry_error.UnknownTool (at_name call) version))"

definition pipeline_context :: "run_context \<Rightarrow> grant_layers \<Rightarrow> invocation_id \<Rightarrow> instant \<Rightarrow> invocation_context" where
  "pipeline_context ctx grants i now =
     \<lparr>ic_invocation_id = i, ic_workspace_id = rc_workspace_id ctx,
      ic_workspace_identity_digest = wi_digest (rc_workspace_identity ctx), ic_thread_id = rc_thread ctx,
      ic_turn_id = rc_turn ctx, ic_agent_id = rc_agent_id ctx,
      ic_grants = \<lparr>pg_host_ceiling = gl_host_ceiling grants, pg_user_profile = gl_user_profile grants,
        pg_project_trust = gl_project_trust grants, pg_turn_override = gl_turn_override grants\<rparr>,
      ic_now = now, ic_preparation_ttl = nanos DEFAULT_PREPARATION_TTL_SECONDS\<rparr>"

definition prepare_call ::
  "('w, 'c) runner \<Rightarrow> 'w surroundings \<Rightarrow> run_context \<Rightarrow> tool_spec list \<Rightarrow> ('w, 'c) tool_registry \<Rightarrow> grant_layers \<Rightarrow>
   assembled_tool_call \<Rightarrow> ('w, 'c, pending_invocation) turn_run" where
  "prepare_call R E ctx specs registry grants call =
     abind (locked E (runner_uuid (ru_service R))) (\<lambda>i.
     let registered = find (\<lambda>spec. sp_id spec = at_name call) specs;
         version = call_version registry registered (at_name call);
         pending = pending_for i call version (case registered of Some spec \<Rightarrow> sp_timeout_ms spec | None \<Rightarrow> 5000) in
     abind (read_world E) (\<lambda>w.
     case call_plan registry w registered version call of
       Inl e \<Rightarrow>
         areturn (pending (at_arguments call) (case registered of Some spec \<Rightarrow> sp_effect_template spec | None \<Rightarrow> default_effects)
           (Some (preparation_failed (provider_code e) (bounded_message (ru_registry_text R e)))) None)
     | Inr p \<Rightarrow>
         abind has_pipeline (\<lambda>present.
         if \<not> present then areturn (pending (tp_normalized_arguments p) (tp_effects p) None None)
         else
           abind (locked E (runner_now (ru_service R))) (\<lambda>now.
           abind (read_world E) (\<lambda>w'.
           abind (on_pipeline E (\<lambda>n pl. prepare (sv_externals (ru_service R)) pl w' (at_name call) version (at_arguments call)
             (pipeline_context ctx grants i now) (ru_token R n) (ru_clock R (2 * n)))) (\<lambda>r.
           areturn (case r of
               Some (Inr prepared) \<Rightarrow>
                 pending (pi_normalized_arguments prepared) (pi_effects prepared) None
                   (if is_read_only (pi_effects prepared) then None else Some prepared)
             | Some (Inl e) \<Rightarrow>
                 pending (at_arguments call) (tp_effects p)
                   (Some (preparation_failed (pipeline_error_code e) (bounded_message (ru_pipeline_text R e)))) None
             | None \<Rightarrow> pending (tp_normalized_arguments p) (tp_effects p) None None)))))))"

fun prepare_calls ::
  "('w, 'c) runner \<Rightarrow> 'w surroundings \<Rightarrow> run_context \<Rightarrow> tool_spec list \<Rightarrow> ('w, 'c) tool_registry \<Rightarrow> grant_layers \<Rightarrow>
   assembled_tool_call list \<Rightarrow> ('w, 'c, pending_invocation list) turn_run" where
  "prepare_calls R E ctx specs registry grants [] = areturn []"
| "prepare_calls R E ctx specs registry grants (call # calls) =
     abind (prepare_call R E ctx specs registry grants call) (\<lambda>v.
     abind (prepare_calls R E ctx specs registry grants calls) (\<lambda>vs. areturn (v # vs)))"

definition call_block :: "assembled_tool_call \<Rightarrow> content_block" where
  "call_block call = ToolCallBlock (at_call_id call) (at_name call) (at_arguments call)"

definition persist_tool_proposals ::
  "('w, 'c) runner \<Rightarrow> 'w surroundings \<Rightarrow> run_context \<Rightarrow> assembled_tool_call list \<Rightarrow> tool_spec list \<Rightarrow> ('w, 'c) tool_registry \<Rightarrow>
   grant_layers \<Rightarrow> content_block list \<Rightarrow> ('w, 'c, pending_invocation list) turn_run" where
  "persist_tool_proposals R E ctx calls specs registry grants assistant_content =
     abind (prepare_calls R E ctx specs registry grants calls) (\<lambda>invocations.
     abind (locked E (persist_tool_proposals_locked (ru_service R) ctx invocations (assistant_content @ map call_block calls))) (\<lambda>_.
     areturn invocations))"

section \<open>Authorising\<close>

definition approve_in_ledger ::
  "'w service \<Rightarrow> 'w surroundings \<Rightarrow> run_context \<Rightarrow> invocation_id \<Rightarrow> string \<Rightarrow> ('w, 'c, unit) turn_run" where
  "approve_in_ledger S E ctx i reason =
     abind (locked E (persist_invocation_transition S ctx i Proposed Approved (Some reason))) (\<lambda>_.
     abind (locked E (persist_invocation_transition S ctx i Approved Prepared None)) (\<lambda>_. areturn ()))"

definition deny_approval :: approval_request_result where
  "deny_approval = \<lparr>ar_approved = False, ar_approval = None\<rparr>"

definition consult ::
  "(nat \<Rightarrow> approval_request_params \<Rightarrow> approval_request_result) \<Rightarrow> approval_request_params \<Rightarrow> ('w, 'c, approval_request_result) turn_run" where
  "consult handler params r =
     (let response = handler (rn_tick r) params in
      (r\<lparr>rn_tick := Suc (rn_tick r), rn_answers := rn_answers r @ [(params, response)]\<rparr>, Ok response))"

definition ask_approval ::
  "('w, 'c) runner \<Rightarrow> 'w surroundings \<Rightarrow> run_context \<Rightarrow> prepared_invocation \<Rightarrow> ('w, 'c, approval_request_result) turn_run" where
  "ask_approval R E ctx prepared =
     abind (cancelled E ctx) (\<lambda>stopped.
     if stopped then areturn deny_approval
     else case su_approval E of
       None \<Rightarrow> areturn deny_approval
     | Some handler \<Rightarrow>
         abind (read_world E) (\<lambda>w.
         abind (on_pipeline E (\<lambda>n pl. (pl, approval_request pl w prepared ''side-effecting tool requires approval''))) (\<lambda>request.
         case request of None \<Rightarrow> areturn deny_approval | Some params \<Rightarrow> consult handler params)))"

text \<open>The interactive approval of a prepared invocation: the sealed approval, or why there is none.\<close>

definition request_approval ::
  "('w, 'c) runner \<Rightarrow> 'w surroundings \<Rightarrow> run_context \<Rightarrow> prepared_invocation \<Rightarrow>
   ('w, 'c, (tool_preparation_failure, prepared_invocation) rust_result) turn_run" where
  "request_approval R E ctx prepared =
     (let S = ru_service R in
      abind has_pipeline (\<lambda>present.
      if \<not> present
      then areturn (Err (preparation_failed ''tool_authority_unavailable'' ''side-effecting tools require the daemon authority pipeline''))
      else
        abind (locked E (transition_turn S ctx Authorizing turn_state.WaitingForApproval None)) (\<lambda>_.
        abind (ask_approval R E ctx prepared) (\<lambda>response.
        abind (locked E (transition_turn S ctx turn_state.WaitingForApproval Authorizing None)) (\<lambda>_.
        abind (on_pipeline E (\<lambda>n pl. accept_approval_response (sv_externals S) pl prepared (ar_approved response) (ar_approval response)
          (ru_clock R (2 * n)) (ru_clock R (2 * n + 1)) (ru_approval_id R n))) (\<lambda>r.
        areturn (case r of
            Some (Inr approved) \<Rightarrow> Ok approved
          | Some (Inl e) \<Rightarrow> Err (preparation_failed (pipeline_error_code e) (bounded_message (ru_pipeline_text R e)))
          | None \<Rightarrow> Err (preparation_failed ''tool_authority_unavailable'' ''side-effecting tools require the daemon authority pipeline''))))))))"

definition authorize ::
  "('w, 'c) runner \<Rightarrow> 'w surroundings \<Rightarrow> run_context \<Rightarrow> pending_invocation \<Rightarrow> ('w, 'c, pending_invocation) turn_run" where
  "authorize R E ctx v =
     (let S = ru_service R; i = pd_invocation_id v in
      if pd_preparation_failure v \<noteq> None then areturn v
      else if is_read_only (pd_effects v)
      then abind (approve_in_ledger S E ctx i ''structured read-only tool requires no interactive approval'') (\<lambda>_. areturn v)
      else case pd_prepared v of
        None \<Rightarrow>
          areturn (v\<lparr>pd_preparation_failure :=
            Some (preparation_failed ''tool_authority_unavailable'' ''the daemon did not produce a sealed invocation'')\<rparr>)
      | Some prepared \<Rightarrow>
          let taken = v\<lparr>pd_prepared := None\<rparr> in
          abind (if is_read_only (pi_effects prepared) then areturn (Ok taken)
                 else abind (request_approval R E ctx prepared) (\<lambda>r. areturn (case r of
                     Inr approved \<Rightarrow> Ok (taken\<lparr>pd_prepared := Some approved\<rparr>)
                   | Inl problem \<Rightarrow> Err (taken\<lparr>pd_preparation_failure := Some problem\<rparr>)))) (\<lambda>r.
          case r of
            Inl rejected \<Rightarrow> areturn rejected
          | Inr accepted \<Rightarrow> abind (approve_in_ledger S E ctx i ''daemon approval binding minted'') (\<lambda>_. areturn accepted)))"

fun authorize_all ::
  "('w, 'c) runner \<Rightarrow> 'w surroundings \<Rightarrow> run_context \<Rightarrow> pending_invocation list \<Rightarrow> ('w, 'c, pending_invocation list) turn_run" where
  "authorize_all R E ctx [] = areturn []"
| "authorize_all R E ctx (v # vs) =
     abind (authorize R E ctx v) (\<lambda>v'. abind (authorize_all R E ctx vs) (\<lambda>vs'. areturn (v' # vs')))"

section \<open>Starting\<close>

definition search_slot :: "'w surroundings \<Rightarrow> run_context \<Rightarrow> pending_invocation \<Rightarrow> ('w, 'c, bool) turn_run" where
  "search_slot E ctx v =
     (if at_name (pd_call v) = WORKSPACE_SEARCH_TOOL_ID
      then ask (\<lambda>n. snd (workspace_search_gate (su_gates E n) (rc_workspace_identity ctx)) \<and> su_gate_free E n)
      else areturn True)"

definition launch :: "run_context \<Rightarrow> pending_invocation \<Rightarrow> ('w, 'c, pending_invocation \<times> bool) turn_run" where
  "launch ctx v =
     (case pd_prepared v of
        Some prepared \<Rightarrow>
          abind has_pipeline (\<lambda>present.
          if \<not> present
          then areturn (v\<lparr>pd_preparation_failure := Some (preparation_failed ''tool_authority_unavailable''
            ''the daemon authority pipeline disappeared before execution'')\<rparr>, False)
          else abind (spawn (PipelineWorker (pd_invocation_id v) prepared)) (\<lambda>_. areturn (v, True)))
      | None \<Rightarrow>
          abind (spawn (ReadOnlyWorker (pd_invocation_id v) (at_name (pd_call v)) (pd_tool_version v)
            (wi_digest (rc_workspace_identity ctx)) (pd_normalized_arguments v) (pd_effects v))) (\<lambda>_. areturn (v, True)))"

definition start_invocation ::
  "('w, 'c) runner \<Rightarrow> 'w surroundings \<Rightarrow> run_context \<Rightarrow> pending_invocation \<Rightarrow> ('w, 'c, pending_invocation \<times> bool) turn_run" where
  "start_invocation R E ctx v =
     (if pd_preparation_failure v \<noteq> None then areturn (v, False)
      else
        abind (cancelled E ctx) (\<lambda>stopped.
        if stopped then areturn (v\<lparr>pd_cancelled_before_start := True\<rparr>, False)
        else
          abind (ask (su_permit E)) (\<lambda>permit.
          if \<not> permit then areturn (v\<lparr>pd_scheduler_rejected := True\<rparr>, False)
          else
            abind (cancelled E ctx) (\<lambda>stopped.
            if stopped then areturn (v\<lparr>pd_cancelled_before_start := True\<rparr>, False)
            else
              abind (search_slot E ctx v) (\<lambda>slot.
              if \<not> slot then areturn (v\<lparr>pd_scheduler_rejected := True\<rparr>, False)
              else
                abind (locked E (persist_invocation_transition (ru_service R) ctx (pd_invocation_id v) Prepared Started None)) (\<lambda>_.
                launch ctx (v\<lparr>pd_started := True\<rparr>)))))))"

fun start_all ::
  "('w, 'c) runner \<Rightarrow> 'w surroundings \<Rightarrow> run_context \<Rightarrow> pending_invocation list \<Rightarrow> ('w, 'c, (pending_invocation \<times> bool) list) turn_run" where
  "start_all R E ctx [] = areturn []"
| "start_all R E ctx (v # vs) =
     abind (start_invocation R E ctx v) (\<lambda>h. abind (start_all R E ctx vs) (\<lambda>hs. areturn (h # hs)))"

section \<open>What a worker runs\<close>

definition run_worker ::
  "('w, 'c) runner \<Rightarrow> ('w, 'c) invocation_pipeline \<Rightarrow> execution_clock \<Rightarrow> 'w moments \<Rightarrow> 'c option \<Rightarrow> worker \<Rightarrow>
   ('w, 'c) invocation_pipeline \<times> 'w \<times> (registry_error, json) rust_result" where
  "run_worker R pl clock ws control worker =
     (case worker of
        PipelineWorker _ prepared \<Rightarrow>
          (case execute (sv_externals (ru_service R)) pl prepared clock ws of
             (pl', w, r) \<Rightarrow> (pl', w, map_err (pipeline_error_of R) r))
      | ReadOnlyWorker _ tool version digest arguments effects \<Rightarrow>
          (case execute_read_only_bound_with_control (pl_registry pl) ws tool version digest arguments effects control of
             (w, r) \<Rightarrow> (pl, w, r)))"

section \<open>Waiting\<close>

datatype tool_worker_wait = WaitCompleted join_result | WaitUnknown

text \<open>The wait polls until the worker joins, a cancellation is seen or the deadline passes.\<close>

fun wait_loop :: "'w surroundings \<Rightarrow> run_context \<Rightarrow> invocation_id \<Rightarrow> poll list \<Rightarrow> ('w, 'c, tool_worker_wait) turn_run" where
  "wait_loop E ctx i [] = abind (signal True i) (\<lambda>_. areturn WaitUnknown)"
| "wait_loop E ctx i (HandleReady result # polls) = areturn (WaitCompleted result)"
| "wait_loop E ctx i (PollTick # polls) =
     abind (cancelled E ctx) (\<lambda>stopped.
     if stopped
     then
       abind (signal True i) (\<lambda>_.
       abind (ask (su_grace E)) (\<lambda>grace.
       areturn (case grace of Some result \<Rightarrow> WaitCompleted result | None \<Rightarrow> WaitUnknown)))
     else wait_loop E ctx i polls)"

definition wait_for_tool_worker :: "'w surroundings \<Rightarrow> run_context \<Rightarrow> invocation_id \<Rightarrow> ('w, 'c, tool_worker_wait) turn_run" where
  "wait_for_tool_worker E ctx i = abind (ask (su_polls E)) (wait_loop E ctx i)"

section \<open>Integrating results\<close>

record tally =
  ty_result_bytes :: nat
  ty_cancelled_during_tools :: bool
  ty_requires_reconciliation :: bool
  ty_unknown_outcome_seen :: bool

definition unknown_result :: json where
  "unknown_result = result_value ''tool_outcome_unknown'' ''tool execution may still be running; reconcile before retrying''"

definition busy_text :: string where "busy_text = ''daemon tool worker budget is exhausted''"
definition early_text :: string where "early_text = ''turn cancellation arrived before tool execution''"
definition unproven_text :: string where "unproven_text = ''turn cancelled while workspace tool outcome was unproven''"
definition sibling_text :: string where "sibling_text = ''a sibling tool exceeded the turn result budget''"

definition budget_result :: json where
  "budget_result = result_value ''agent_loop_tool_result_limit'' ''the turn exceeded its total tool-result byte budget''"

text \<open>An invocation that is reached after the cancellation.\<close>

definition settle_cancelled ::
  "('w, 'c) runner \<Rightarrow> 'w surroundings \<Rightarrow> run_context \<Rightarrow> pending_invocation \<Rightarrow> bool \<Rightarrow> ('w, 'c, unit) turn_run" where
  "settle_cancelled R E ctx v handle =
     (let S = ru_service R;
          failed = (\<lambda>frm result reason. abind (locked E (persist_invocation_outcome S ctx v invocation_state.Failed frm result True (Some reason))) (\<lambda>_. areturn ())) in
      if pd_started v
      then
        abind (signal handle (pd_invocation_id v)) (\<lambda>_.
        abind (locked E (persist_invocation_unknown_outcome S ctx v unknown_result True unproven_text)) (\<lambda>_. areturn ()))
      else if pd_scheduler_rejected v then failed Prepared (result_value ''tool_scheduler_busy'' busy_text) busy_text
      else case pd_preparation_failure v of
        Some problem \<Rightarrow> failed Proposed (tf_output problem) (tf_reason problem)
      | None \<Rightarrow>
          if pd_cancelled_before_start v then failed Prepared (result_value ''tool_cancelled_before_start'' early_text) early_text
          else areturn ())"

text \<open>A later invocation when the results exceed their budget.\<close>

definition settle_sibling ::
  "('w, 'c) runner \<Rightarrow> 'w surroundings \<Rightarrow> run_context \<Rightarrow> pending_invocation \<times> bool \<Rightarrow> ('w, 'c, unit) turn_run" where
  "settle_sibling R E ctx h =
     (let S = ru_service R; v = fst h;
          failed = (\<lambda>frm result reason. abind (locked E (persist_invocation_outcome S ctx v invocation_state.Failed frm result True (Some reason))) (\<lambda>_. areturn ())) in
      abind (signal (snd h) (pd_invocation_id v)) (\<lambda>_.
      if pd_started v
      then abind (locked E (persist_invocation_unknown_outcome S ctx v budget_result True sibling_text)) (\<lambda>_. areturn ())
      else if pd_scheduler_rejected v then failed Prepared budget_result sibling_text
      else case pd_preparation_failure v of
        Some problem \<Rightarrow> failed Proposed (tf_output problem) (tf_reason problem)
      | None \<Rightarrow> if pd_cancelled_before_start v then failed Prepared budget_result sibling_text else areturn ()))"

fun settle_siblings ::
  "('w, 'c) runner \<Rightarrow> 'w surroundings \<Rightarrow> run_context \<Rightarrow> (pending_invocation \<times> bool) list \<Rightarrow> ('w, 'c, unit) turn_run" where
  "settle_siblings R E ctx [] = areturn ()"
| "settle_siblings R E ctx (h # hs) = abind (settle_sibling R E ctx h) (\<lambda>_. settle_siblings R E ctx hs)"

definition failed_before_start :: "json \<Rightarrow> invocation_state \<Rightarrow> string \<Rightarrow> classified" where
  "failed_before_start result frm reason =
     \<lparr>cl_output = result, cl_is_error = True, cl_terminal_state = Some invocation_state.Failed, cl_from_state = frm, cl_reason = Some reason\<rparr>"

definition classify_wait :: "('w, 'c) runner \<Rightarrow> tool_worker_wait \<Rightarrow> classified" where
  "classify_wait R wait =
     (case wait of
        WaitCompleted (Inr (Inr result)) \<Rightarrow>
          \<lparr>cl_output = result, cl_is_error = False, cl_terminal_state = Some invocation_state.Completed, cl_from_state = Started, cl_reason = None\<rparr>
      | WaitCompleted (Inr (Inl error)) \<Rightarrow> classify_tool_execution_error R error
      | WaitCompleted (Inl error) \<Rightarrow> classify_tool_worker_join_error error
      | WaitUnknown \<Rightarrow>
          \<lparr>cl_output = result_value ''tool_timeout'' ''tool exceeded its execution deadline; outcome requires reconciliation'',
           cl_is_error = True, cl_terminal_state = None, cl_from_state = Started,
           cl_reason = Some ''workspace tool exceeded its execution deadline''\<rparr>)"

text \<open>The outcome of one invocation; an unknown one has no terminal state.\<close>

definition outcome_of ::
  "('w, 'c) runner \<Rightarrow> 'w surroundings \<Rightarrow> run_context \<Rightarrow> pending_invocation \<Rightarrow> bool \<Rightarrow> ('w, 'c, classified) turn_run" where
  "outcome_of R E ctx v handle =
     (case pd_preparation_failure v of
        Some problem \<Rightarrow> areturn (failed_before_start (tf_output problem) Proposed (tf_reason problem))
      | None \<Rightarrow>
          if pd_scheduler_rejected v then areturn (failed_before_start (result_value ''tool_scheduler_busy'' busy_text) Prepared busy_text)
          else if pd_cancelled_before_start v
          then areturn (failed_before_start (result_value ''tool_cancelled_before_start'' early_text) Prepared early_text)
          else if \<not> handle then afail (RunnerPanic ''started workspace tool has a worker'')
          else abind (wait_for_tool_worker E ctx (pd_invocation_id v)) (\<lambda>wait. areturn (classify_wait R wait)))"

definition reason_or_unproven :: "string option \<Rightarrow> string" where
  "reason_or_unproven reason = (case reason of Some r \<Rightarrow> r | None \<Rightarrow> ''workspace tool outcome was unproven'')"

text \<open>
  What is recorded for one outcome: the new tally, or the result of the turn when the results
  exceed their budget.
\<close>

definition record_outcome ::
  "('w, 'c) runner \<Rightarrow> 'w surroundings \<Rightarrow> run_context \<Rightarrow> nat \<Rightarrow> tally \<Rightarrow> pending_invocation \<Rightarrow>
   (pending_invocation \<times> bool) list \<Rightarrow> classified \<Rightarrow> bool \<Rightarrow> ('w, 'c, tally phase) turn_run" where
  "record_outcome R E ctx max_bytes y v later c stopped =
     (let S = ru_service R in
      case cl_terminal_state c of
        None \<Rightarrow>
          if stopped \<and> pd_started v
          then
            abind (locked E (persist_invocation_unknown_outcome S ctx v unknown_result True unproven_text)) (\<lambda>_.
            areturn (Go (y\<lparr>ty_cancelled_during_tools := True, ty_requires_reconciliation := True, ty_unknown_outcome_seen := True\<rparr>)))
          else
            abind (locked E (persist_invocation_unknown_outcome S ctx v (cl_output c) (cl_is_error c) (reason_or_unproven (cl_reason c)))) (\<lambda>_.
            areturn (Go (y\<lparr>ty_unknown_outcome_seen := True\<rparr>)))
      | Some terminal \<Rightarrow>
          let bytes = length (json_to_vec (sv_externals S) (cl_output c)) in
          if saturating_add (ty_result_bytes y) bytes > max_bytes
          then
            abind (locked E (persist_invocation_outcome S ctx v terminal (cl_from_state c) budget_result
              (terminal \<noteq> invocation_state.Completed)
              (Some (if terminal = invocation_state.Completed
                     then ''tool completed but its result exceeded the turn byte budget''
                     else ''tool failed and its result exceeded the turn byte budget'')))) (\<lambda>_.
            abind (settle_siblings R E ctx later) (\<lambda>_.
            stop (locked E (fail_current S ctx ''agent_loop_tool_result_limit''
              ''the turn exceeded its total tool-result byte budget''))))
          else
            abind (locked E (persist_invocation_outcome S ctx v terminal (cl_from_state c) (cl_output c) (cl_is_error c) (cl_reason c))) (\<lambda>_.
            areturn (Go (y\<lparr>ty_result_bytes := ty_result_bytes y + bytes\<rparr>))))"

definition integrate_one ::
  "('w, 'c) runner \<Rightarrow> 'w surroundings \<Rightarrow> run_context \<Rightarrow> nat \<Rightarrow> tally \<Rightarrow> pending_invocation \<Rightarrow> bool \<Rightarrow>
   (pending_invocation \<times> bool) list \<Rightarrow> ('w, 'c, tally phase) turn_run" where
  "integrate_one R E ctx max_bytes y v handle later =
     abind (cancelled E ctx) (\<lambda>stopped.
     if stopped
     then
       abind (settle_cancelled R E ctx v handle) (\<lambda>_.
       areturn (Go (y\<lparr>ty_cancelled_during_tools := True,
         ty_requires_reconciliation := ty_requires_reconciliation y \<or> pd_started v\<rparr>)))
     else
       abind (outcome_of R E ctx v handle) (\<lambda>c.
       abind (cancelled E ctx) (record_outcome R E ctx max_bytes y v later c)))"

primrec integrate ::
  "('w, 'c) runner \<Rightarrow> 'w surroundings \<Rightarrow> run_context \<Rightarrow> nat \<Rightarrow> (pending_invocation \<times> bool) list \<Rightarrow> tally \<Rightarrow>
   ('w, 'c, tally phase) turn_run" where
  "integrate R E ctx max_bytes [] y = areturn (Go y)"
| "integrate R E ctx max_bytes (h # hs) y =
     proceed (integrate_one R E ctx max_bytes y (fst h) (snd h) hs) (integrate R E ctx max_bytes hs)"

section \<open>Streaming\<close>

primrec drive ::
  "('w, 'c) runner \<Rightarrow> 'w surroundings \<Rightarrow> run_context \<Rightarrow> provider_stream \<Rightarrow> model_sink \<Rightarrow>
   ('w, 'c, model_sink \<times> (port_error, unit) rust_result) turn_run" where
  "drive R E ctx (StreamEnds result) = (\<lambda>sink. areturn (sink, result))"
| "drive R E ctx (StreamEmits event continue) =
     (\<lambda>sink. abind (locked E (emit R ctx sink event)) (\<lambda>x. drive R E ctx (continue (snd x)) (fst x)))"

definition stream_model ::
  "('w, 'c) runner \<Rightarrow> 'w surroundings \<Rightarrow> run_context \<Rightarrow> model_provider_config \<Rightarrow> model_request \<Rightarrow>
   ('w, 'c, model_sink \<times> (port_error, unit) rust_result) turn_run" where
  "stream_model R E ctx cfg request r =
     abind (\<lambda>r. (r\<lparr>rn_tick := Suc (rn_tick r), rn_requests := rn_requests r @ [request]\<rparr>, Ok (mp_stream cfg (rn_tick r) request)))
       (\<lambda>s. drive R E ctx s sink_new) r"

definition fail_turn ::
  "('w, 'c) runner \<Rightarrow> 'w surroundings \<Rightarrow> run_context \<Rightarrow> turn_state \<Rightarrow> string \<Rightarrow> string \<Rightarrow> ('w, 'c, 'a phase) turn_run" where
  "fail_turn R E ctx frm code message = stop (locked E (fail (ru_service R) ctx frm code message))"

definition cancel_turn ::
  "('w, 'c) runner \<Rightarrow> 'w surroundings \<Rightarrow> run_context \<Rightarrow> turn_state \<Rightarrow> ('w, 'c, 'a phase) turn_run" where
  "cancel_turn R E ctx frm =
     stop (abind (locked E (cancel (ru_service R) ctx frm)) (\<lambda>_. areturn (RunCancelled (rc_request_id ctx))))"

definition catch :: "('w, 'c, 'a) turn_run \<Rightarrow> ('w, 'c, (turn_runner_error, 'a) rust_result) turn_run" where
  "catch m r = (case m r of (r', x) \<Rightarrow> (r', Ok x))"

definition model_request_for ::
  "run_context \<Rightarrow> model_provider_config \<Rightarrow> model_message list \<Rightarrow> tool_spec list \<Rightarrow> model_request" where
  "model_request_for ctx cfg messages specs =
     \<lparr>mr_request_id = rc_request_id ctx, mr_turn_id = rc_turn ctx, mr_provider = mp_provider_id cfg, mr_model = mp_model cfg,
      mr_messages = messages, mr_tools = specs, mr_budget = mp_budget cfg, mr_metadata = mp_metadata cfg\<rparr>"

text \<open>The first half of a round: the context is rebuilt, requested and streamed.\<close>

definition request_round ::
  "('w, 'c) runner \<Rightarrow> 'w surroundings \<Rightarrow> run_context \<Rightarrow> model_provider_config \<Rightarrow> tool_spec list \<Rightarrow> ('w, 'c, model_sink phase) turn_run" where
  "request_round R E ctx cfg specs =
     (let S = ru_service R in
      abind (catch (reload_lineage_events S E (rc_thread ctx))) (\<lambda>events.
      case rbind events (messages_from_lineage_events (ru_decode_blocks R)) of
        Inl e \<Rightarrow> fail_turn R E ctx RequestingModel ''context_build_failed'' (ru_runner_text R e)
      | Inr messages \<Rightarrow>
          (case validate_model_context (sv_externals S) (ru_encode_messages R) messages (mp_budget cfg)
                  (pca_max_context_tokens (mp_capabilities cfg)) of
             Inl e \<Rightarrow> fail_turn R E ctx RequestingModel ''context_budget_exceeded'' e
           | Inr _ \<Rightarrow>
               abind (locked E (persist_expected S ctx RequestingModel (ModelRequested (rc_request_id ctx)))) (\<lambda>_.
               abind (cancelled E ctx) (\<lambda>stopped.
               if stopped then cancel_turn R E ctx RequestingModel
               else
                 abind (locked E (transition_turn S ctx RequestingModel Streaming None)) (\<lambda>_.
                 abind (stream_model R E ctx cfg (model_request_for ctx cfg messages specs)) (\<lambda>x.
                 abind (cancelled E ctx) (\<lambda>stopped.
                 if stopped then cancel_turn R E ctx Streaming
                 else
                   (case (snd x, sk_model_failure (fst x)) of
                      (Inl e, _) \<Rightarrow> fail_turn R E ctx Streaming (po_code e) (po_message e)
                    | (Inr _, Some (code, message)) \<Rightarrow> fail_turn R E ctx Streaming code message
                    | (Inr _, None) \<Rightarrow>
                        if sk_completion_count (fst x) \<noteq> 1
                        then fail_turn R E ctx Streaming ''provider_incomplete_stream''
                          ''the provider stream did not contain exactly one completion event''
                        else areturn (Go (fst x)))))))))))"

text \<open>What the stream asked for: the turn is over, or there are calls to propose.\<close>

definition complete_round ::
  "('w, 'c) runner \<Rightarrow> 'w surroundings \<Rightarrow> run_context \<Rightarrow> model_sink \<Rightarrow> ('w, 'c, 'a phase) turn_run" where
  "complete_round R E ctx sink =
     (let S = ru_service R in
      abind (locked E (runner_uuid S)) (\<lambda>item_id.
      abind (locked E (runner_now S)) (\<lambda>now.
      stop (locked E (complete S ctx
        \<lparr>it_id = item_id, it_thread_id = rc_thread ctx, it_turn_id = rc_turn ctx, it_agent_id = rc_agent_id ctx,
         it_kind = AssistantMessage, it_content = JObject [(''content'', ec_blocks (sv_encoders S) (sk_content sink))],
         it_created_at = now\<rparr>)))))"

definition read_calls ::
  "('w, 'c) runner \<Rightarrow> 'w surroundings \<Rightarrow> run_context \<Rightarrow> model_provider_config \<Rightarrow> bool \<Rightarrow> nat \<Rightarrow> model_sink \<Rightarrow>
   ('w, 'c, assembled_tool_call list phase) turn_run" where
  "read_calls R E ctx cfg tools_available tool_calls_used sink =
     (let stop_reason = (case sk_stop_reason sink of Some reason \<Rightarrow> reason | None \<Rightarrow> EndTurn) in
      case finish_tool_calls R sink of
        Inl e \<Rightarrow> fail_turn R E ctx Streaming ''provider_invalid_tool_call'' (ru_assembly_text R e)
      | Inr calls \<Rightarrow>
          if calls = []
          then
            if stop_reason = ToolUse
            then fail_turn R E ctx Streaming ''provider_missing_tool_call''
              ''the provider stopped for tool use without emitting a tool call''
            else complete_round R E ctx sink
          else if stop_reason \<noteq> ToolUse
          then fail_turn R E ctx Streaming ''provider_inconsistent_tool_stop''
            ''the provider emitted tool calls without a tool-use stop reason''
          else if \<not> tools_available
          then fail_turn R E ctx Streaming ''unadvertised_tool_use''
            ''the provider emitted tool calls although tool use was not negotiated''
          else if saturating_add tool_calls_used (length calls) > al_max_tool_calls (mp_loop_limits cfg)
          then fail_turn R E ctx Streaming ''agent_loop_tool_limit'' ''the turn exceeded its total tool-call budget''
          else areturn (Go calls))"

text \<open>The end of a round, when every invocation has an outcome.\<close>

definition close_round ::
  "('w, 'c) runner \<Rightarrow> 'w surroundings \<Rightarrow> run_context \<Rightarrow> bool \<Rightarrow> tally \<Rightarrow> ('w, 'c, nat phase) turn_run" where
  "close_round R E ctx last_round y =
     (let S = ru_service R in
      if ty_requires_reconciliation y
      then stop (locked E (fail_current S ctx ''turn_cancellation_requires_reconciliation''
        ''turn cancellation was requested while a tool outcome remained unknown; reconcile before retrying''))
      else if ty_unknown_outcome_seen y
      then stop (locked E (fail_current S ctx ''tool_outcome_unknown''
        ''a workspace tool outcome could not be proven stopped; reconcile before retrying''))
      else
        abind (cancelled E ctx) (\<lambda>stopped.
        if ty_cancelled_during_tools y \<or> stopped then cancel_turn R E ctx Executing
        else
          abind (locked E (transition_turn S ctx Executing IntegratingResults None)) (\<lambda>_.
          if last_round
          then fail_turn R E ctx IntegratingResults ''agent_loop_round_limit''
            ''the turn exhausted its model-round budget after tool execution''
          else
            abind (locked E (transition_turn S ctx IntegratingResults RequestingModel None)) (\<lambda>_.
            areturn (Go (ty_result_bytes y))))))"

text \<open>The second half of a round: the calls are proposed, authorised, started and integrated.\<close>

definition tool_round ::
  "('w, 'c) runner \<Rightarrow> 'w surroundings \<Rightarrow> run_context \<Rightarrow> model_provider_config \<Rightarrow> tool_spec list \<Rightarrow> ('w, 'c) tool_registry \<Rightarrow>
   grant_layers \<Rightarrow> nat \<Rightarrow> bool \<Rightarrow> content_block list \<Rightarrow> assembled_tool_call list \<Rightarrow> ('w, 'c, nat phase) turn_run" where
  "tool_round R E ctx cfg specs registry grants result_bytes last_round content calls =
     (let S = ru_service R in
      abind (locked E (transition_turn S ctx Streaming ProposedTools None)) (\<lambda>_.
      abind (persist_tool_proposals R E ctx calls specs registry grants content) (\<lambda>proposed.
      abind (locked E (transition_turn S ctx ProposedTools Authorizing None)) (\<lambda>_.
      abind (authorize_all R E ctx proposed) (\<lambda>authorized.
      abind (locked E (transition_turn S ctx Authorizing Scheduling None)) (\<lambda>_.
      abind (locked E (transition_turn S ctx Scheduling Executing None)) (\<lambda>_.
      abind (start_all R E ctx authorized) (\<lambda>started.
      proceed (integrate R E ctx (al_max_tool_result_bytes (mp_loop_limits cfg)) started
        \<lparr>ty_result_bytes = result_bytes, ty_cancelled_during_tools = False, ty_requires_reconciliation = False,
         ty_unknown_outcome_seen = False\<rparr>) (close_round R E ctx last_round)))))))))"

text \<open>
  The loop, by the number of rounds that are left: it is the limit less the rounds made, so
  that no round is left exactly when the rounds made reach the limit.
\<close>

primrec agent_loop ::
  "nat \<Rightarrow> ('w, 'c) runner \<Rightarrow> 'w surroundings \<Rightarrow> run_context \<Rightarrow> model_provider_config \<Rightarrow> tool_spec list \<Rightarrow>
   ('w, 'c) tool_registry option \<Rightarrow> grant_layers \<Rightarrow> bool \<Rightarrow> nat \<Rightarrow> nat \<Rightarrow> ('w, 'c, unit phase) turn_run" where
  "agent_loop 0 R E ctx cfg specs registry grants first_round calls_used result_bytes =
     fail_turn R E ctx RequestingModel ''agent_loop_round_limit'' ''the turn exceeded its model-round budget''"
| "agent_loop (Suc left) R E ctx cfg specs registry grants first_round calls_used result_bytes =
     abind (if first_round then areturn (rc_request_id ctx) else locked E (runner_uuid (ru_service R))) (\<lambda>request_id.
     let ctx' = ctx\<lparr>rc_request_id := request_id\<rparr> in
     proceed (request_round R E ctx' cfg specs) (\<lambda>sink.
     proceed (read_calls R E ctx' cfg (registry \<noteq> None) calls_used sink) (\<lambda>calls.
     proceed (tool_round R E ctx' cfg specs (the registry) grants result_bytes (left = 0) (sk_content sink) calls) (\<lambda>bytes.
     agent_loop left R E ctx' cfg specs registry grants False (calls_used + length calls) bytes))))"

section \<open>The turn\<close>

text \<open>The registry and the pipeline of a turn, or why the turn fails.\<close>

definition isolation :: "bool \<Rightarrow> bool \<Rightarrow> sandbox_requirement" where
  "isolation process write =
     \<lparr>sr_filesystem_isolation = True, sr_process_isolation = process, sr_network_isolation = True,
      sr_allow_workspace_write = write, sr_allow_network = False\<rparr>"

definition built_ins ::
  "('w, 'c) runner \<Rightarrow> workspace_handle \<Rightarrow> (registry_error, ('w, 'c) tool_registry) rust_result" where
  "built_ins R workspace =
     (let sandbox = sv_sandbox (ru_service R); may_act = (ru_host_ceiling R \<noteq> Observe) in
      ru_built_ins R (is_ok (ensure sandbox (isolation False True)) \<and> may_act) (is_ok (ensure sandbox (isolation True False)) \<and> may_act) workspace)"

definition open_tools ::
  "('w, 'c) runner \<Rightarrow> 'w surroundings \<Rightarrow> run_context \<Rightarrow> model_provider_config \<Rightarrow> ('w, 'c, ('w, 'c) tool_registry option phase) turn_run" where
  "open_tools R E ctx cfg =
     (let S = ru_service R in
      if \<not> pca_tool_calls (mp_capabilities cfg) then areturn (Go None)
      else
        abind (locked E (\<lambda>d. case workspace_open (sv_os S) (rc_workspace_root ctx) (dm_world d) of (w, r) \<Rightarrow> (d\<lparr>dm_world := w\<rparr>, Ok r))) (\<lambda>opened.
        case opened of
          Inl e \<Rightarrow> fail_turn R E ctx BuildingContext ''workspace_tools_unavailable'' (ru_workspace_text R e)
        | Inr workspace \<Rightarrow>
            (case validate_workspace_identity workspace (rc_workspace_identity ctx) of
               Inl e \<Rightarrow> fail_turn R E ctx BuildingContext ''workspace_identity_changed'' e
             | Inr _ \<Rightarrow>
                 (case built_ins R workspace of
                    Inl e \<Rightarrow> fail_turn R E ctx BuildingContext ''tool_registry_unavailable'' (ru_registry_text R e)
                  | Inr registry \<Rightarrow>
                      (\<lambda>r. (r\<lparr>rn_pipeline := Some (pipeline_new registry (sv_sandbox S))\<rparr>, Ok (Go (Some registry))))))))"

text \<open>The checks of the configuration, in the order of the source.\<close>

definition configuration_error :: "model_provider_config option \<Rightarrow> (string \<times> string) option" where
  "configuration_error provider =
     (case provider of
        None \<Rightarrow> Some (''provider_unconfigured'', ''no model provider is configured for this daemon'')
      | Some cfg \<Rightarrow>
          let limits = mp_loop_limits cfg in
          if trim (mp_model cfg) = [] then Some (''model_unconfigured'', ''the configured model name is empty'')
          else if al_max_model_rounds limits = 0
          then Some (''agent_loop_configuration'', ''max_model_rounds must be greater than zero'')
          else if al_max_model_rounds limits > MAX_MODEL_ROUNDS_HARD \<or> al_max_tool_calls limits > MAX_TOOL_CALLS_HARD \<or>
                  al_max_tool_result_bytes limits > MAX_TOOL_RESULT_BYTES_HARD \<or>
                  al_max_search_operations limits > WORKSPACE_SEARCH_HARD_OPERATION_LIMIT \<or>
                  tb_max_input_tokens (mp_budget cfg) > MAX_INPUT_TOKENS_HARD \<or>
                  tb_max_output_tokens (mp_budget cfg) > MAX_OUTPUT_TOKENS_HARD
          then Some (''agent_loop_configuration'', ''configured model/tool budget exceeds the daemon hard ceiling'')
          else None)"

definition run_phases ::
  "('w, 'c) runner \<Rightarrow> 'w surroundings \<Rightarrow> run_context \<Rightarrow> ('w, 'c, unit phase) turn_run" where
  "run_phases R E ctx =
     (let S = ru_service R in
      abind (locked E (current_state S ctx)) (\<lambda>initial.
      abind (cancelled E ctx) (\<lambda>stopped.
      if stopped \<or> initial = Cancelling then cancel_turn R E ctx Accepted
      else
        abind (locked E (transition_turn S ctx Accepted BuildingContext None)) (\<lambda>_.
        case rc_turn_override_error ctx of
          Some e \<Rightarrow> fail_turn R E ctx BuildingContext ''invalid_capability_override'' e
        | None \<Rightarrow>
            abind (cancelled E ctx) (\<lambda>stopped.
            if stopped then cancel_turn R E ctx BuildingContext
            else case configuration_error (ru_provider R) of
              Some (code, message) \<Rightarrow> fail_turn R E ctx BuildingContext code message
            | None \<Rightarrow>
                let cfg = the (ru_provider R) in
                proceed (open_tools R E ctx cfg) (\<lambda>registry.
                let specs = (case registry of Some reg \<Rightarrow> tr_advertised_specs reg | None \<Rightarrow> []) in
                abind (locked E (transition_turn S ctx BuildingContext RequestingModel None)) (\<lambda>_.
                agent_loop (al_max_model_rounds (mp_loop_limits cfg)) R E ctx cfg specs registry
                  (resolve_grant_layers (ru_host_ceiling R) (rc_workspace_trust ctx) None (rc_turn_override ctx)) True 0 0)))))))"

definition run_inner ::
  "('w, 'c) runner \<Rightarrow> 'w surroundings \<Rightarrow> turn_run_spec \<Rightarrow> model_request_id \<Rightarrow> ('w, 'c, turn_run_result) turn_run" where
  "run_inner R E spec first_request_id =
     abind (load_context R E spec first_request_id) (\<lambda>ctx.
     abind (run_phases R E ctx) (\<lambda>p.
     case p of Stop result \<Rightarrow> areturn result | Go _ \<Rightarrow> afail (RunnerPanic ''the loop ends with a result'')))"

fun request_of :: "turn_run_result \<Rightarrow> model_request_id" where
  "request_of (RunCompleted request _) = request"
| "request_of (RunFailed request _) = request"
| "request_of (RunCancelled request) = request"

definition settled_result ::
  "model_request_id \<Rightarrow> (model_request_id \<Rightarrow> turn_run_result) \<Rightarrow> (turn_runner_error, turn_run_result) rust_result \<Rightarrow>
   (turn_runner_error, turn_run_result) rust_result" where
  "settled_result first_request_id report result =
     (case result of
        Inr r \<Rightarrow> Ok (report (request_of r))
      | Inl (UnexpectedState _ _ _) \<Rightarrow> Ok (report first_request_id)
      | Inl e \<Rightarrow> Err e)"

definition run_with_approval ::
  "('w, 'c) runner \<Rightarrow> 'w surroundings \<Rightarrow> turn_run_spec \<Rightarrow> ('w, 'c, turn_run_result) turn_run" where
  "run_with_approval R E spec =
     abind (locked E (runner_uuid (ru_service R))) (\<lambda>first_request_id.
     abind (catch (run_inner R E spec first_request_id)) (\<lambda>result.
     abind (locked E (settle_interrupted_turn (ru_service R) spec)) (\<lambda>settlement.
     alift (case settlement of
         Unchanged \<Rightarrow> result
       | SettledCancelled \<Rightarrow> settled_result first_request_id RunCancelled result
       | FailedReconciliation \<Rightarrow>
           settled_result first_request_id (\<lambda>request. RunFailed request ''turn_cancellation_requires_reconciliation'') result))))"

end
