(* ===== verification/Runner_View.thy ===== *)
theory Runner_View
  imports Daemon_Recovery Turn_Runner
begin

text \<open>
  The events of a turn, as an abstract machine. The view of a turn is its state, the states of
  its invocations and the model requests that were made. \<open>own_step\<close> is what one event of the
  runner does to the view; when it is enabled, the event applies to every projection that
  shows the view. \<open>others_view\<close> is what the events of all other tasks can do to it.
\<close>

section \<open>The view of a turn\<close>

record turn_view =
  vw_state :: turn_state
  vw_invocations :: "invocation_id \<Rightarrow> invocation_state option"
  vw_requests :: "model_request_id set"

definition invocation_states :: "turn_run_spec \<Rightarrow> projection \<Rightarrow> invocation_id \<Rightarrow> invocation_state option" where
  "invocation_states spec p k =
     (case bt_get (pr_invocations p) k of Some v \<Rightarrow> if of_turn spec v then Some (pv_state v) else None | None \<Rightarrow> None)"

definition shows_turn :: "turn_run_spec \<Rightarrow> (invocation_id \<Rightarrow> agent_id) \<Rightarrow> projection \<Rightarrow> turn_view \<Rightarrow> bool" where
  "shows_turn spec A p V \<longleftrightarrow>
     (\<exists>t. bt_get (pr_turns p) (tr_turn_id spec) = Some t \<and> tu_thread_id t = tr_thread_id spec \<and> tu_state t = vw_state V) \<and>
     (\<forall>k v. bt_get (pr_invocations p) k = Some v \<longrightarrow> of_turn spec v \<longrightarrow> pv_agent_id v = A k) \<and>
     invocation_states spec p = vw_invocations V \<and>
     (\<forall>r \<in> vw_requests V. bt_get (pr_model_events p) r \<noteq> None)"

definition unused_ids :: "projection \<Rightarrow> uuid set \<Rightarrow> bool" where
  "unused_ids p F \<longleftrightarrow> (\<forall>k \<in> F. bt_get (pr_items p) k = None \<and> bt_get (pr_invocations p) k = None)"

section \<open>The events of the runner\<close>

definition always_allowed :: "invocation_state \<Rightarrow> invocation_state \<Rightarrow> bool" where
  "always_allowed frm to \<longleftrightarrow> (\<forall>i. can_transition_invocation_with_idempotency frm to i)"

fun own_step :: "externals \<Rightarrow> turn_run_spec \<Rightarrow> event \<Rightarrow> turn_view \<times> uuid set \<Rightarrow> (turn_view \<times> uuid set) option" where
  "own_step X spec (TurnStateChanged u frm to r) (V, F) =
     (if u = tr_turn_id spec \<and> vw_state V = frm \<and> can_transition_turn frm to then Some (V\<lparr>vw_state := to\<rparr>, F) else None)"
| "own_step X spec (ItemAdded i) (V, F) =
     (if it_thread_id i = tr_thread_id spec \<and> it_turn_id i = tr_turn_id spec \<and> it_id i \<in> F then Some (V, F - {it_id i}) else None)"
| "own_step X spec (InvocationProposed i call tool version arguments effects digest idem) (V, F) =
     (if i \<in> F \<and> idem = es_idempotency effects \<and> digest = digest_effects X effects
      then Some (V\<lparr>vw_invocations := (vw_invocations V)(i \<mapsto> Proposed)\<rparr>, F - {i}) else None)"
| "own_step X spec (InvocationStateChanged i frm to r) (V, F) =
     (if vw_invocations V i = Some frm \<and> always_allowed frm to
      then Some (V\<lparr>vw_invocations := (vw_invocations V)(i \<mapsto> to)\<rparr>, F) else None)"
| "own_step X spec (ModelRequested r) (V, F) = Some (V\<lparr>vw_requests := insert r (vw_requests V)\<rparr>, F)"
| "own_step X spec (ModelStreamEvent r e) (V, F) = (if r \<in> vw_requests V then Some (V, F) else None)"
| "own_step X spec (RuntimeDiagnostic code message recoverable) (V, F) = Some (V, F)"
| "own_step X spec _ _ = None"

fun own_steps :: "externals \<Rightarrow> turn_run_spec \<Rightarrow> event list \<Rightarrow> turn_view \<times> uuid set \<Rightarrow> (turn_view \<times> uuid set) option" where
  "own_steps X spec [] v = Some v"
| "own_steps X spec (e # es) v = Option.bind (own_step X spec e v) (own_steps X spec es)"

fun for_agent :: "(invocation_id \<Rightarrow> agent_id) \<Rightarrow> agent_id \<Rightarrow> event \<Rightarrow> bool" where
  "for_agent A agent (InvocationProposed i _ _ _ _ _ _ _) \<longleftrightarrow> A i = agent"
| "for_agent A agent (InvocationStateChanged i _ _ _) \<longleftrightarrow> A i = agent"
| "for_agent A agent _ \<longleftrightarrow> True"

definition of_runner :: "turn_run_spec \<Rightarrow> (invocation_id \<Rightarrow> agent_id) \<Rightarrow> event_envelope \<Rightarrow> bool" where
  "of_runner spec A env \<longleftrightarrow>
     en_thread_id env = tr_thread_id spec \<and> en_turn_id env = Some (tr_turn_id spec) \<and> for_agent A (en_agent_id env) (en_event env)"

lemma shown_invocation:
  assumes "shows_turn spec A p V" and "vw_invocations V i = Some s"
  shows "\<exists>v. bt_get (pr_invocations p) i = Some v \<and> of_turn spec v \<and> pv_state v = s \<and> pv_agent_id v = A i"
  using assms by (auto simp: shows_turn_def invocation_states_def fun_eq_iff split: option.splits if_splits)
    (metis option.distinct(1) option.inject)+

lemma invocation_states_insert:
  "invocation_states spec (p\<lparr>pr_invocations := bt_insert (pr_invocations p) k v\<rparr>) =
     (invocation_states spec p)(k := if of_turn spec v then Some (pv_state v) else None)"
  by (auto simp: invocation_states_def fun_eq_iff)

lemma own_state_applies:
  assumes "shows_turn spec A p V" and "unused_ids p F" and "of_runner spec A env" and "en_event env = InvocationStateChanged i frm to r"
    and "vw_invocations V i = Some frm" and "always_allowed frm to"
  shows "\<exists>q. apply_event X p env (InvocationStateChanged i frm to r) = (q, Ok ()) \<and>
    shows_turn spec A q (V\<lparr>vw_invocations := (vw_invocations V)(i \<mapsto> to)\<rparr>) \<and> unused_ids q F"
proof -
  obtain v where v: "bt_get (pr_invocations p) i = Some v" "of_turn spec v" "pv_state v = frm" "pv_agent_id v = A i"
    using shown_invocation [OF assms(1,5)] by blast
  let ?q = "p\<lparr>pr_invocations := bt_insert (pr_invocations p) i (v\<lparr>pv_state := to, pv_reason := r\<rparr>)\<rparr>"
  have "apply_event X p env (InvocationStateChanged i frm to r) = (?q, Ok ())"
    using v assms(3,4,6) by (auto simp: handler_defs wrong_parent_def of_runner_def of_turn_def always_allowed_def)
  moreover have "shows_turn spec A ?q (V\<lparr>vw_invocations := (vw_invocations V)(i \<mapsto> to)\<rparr>)"
    using assms(1) v by (auto simp: shows_turn_def invocation_states_insert of_turn_def split: if_splits)
  moreover have "unused_ids ?q F" using assms(2) v by (auto simp: unused_ids_def)
  ultimately show ?thesis by blast
qed

lemma own_step_applies:
  assumes "shows_turn spec A p V" and "unused_ids p F" and "of_runner spec A env"
    and "own_step X spec ev (V, F) = Some (V', F')" and "en_event env = ev"
  shows "\<exists>q. apply_event X p env ev = (q, Ok ()) \<and> shows_turn spec A q V' \<and> unused_ids q F'"
proof (cases "\<exists>i frm to r. ev = InvocationStateChanged i frm to r")
  case True
  then obtain i frm to r where ev: "ev = InvocationStateChanged i frm to r" by blast
  then have "vw_invocations V i = Some frm" "always_allowed frm to" "V' = V\<lparr>vw_invocations := (vw_invocations V)(i \<mapsto> to)\<rparr>" "F' = F"
    using assms(4) by (auto split: if_splits)
  with own_state_applies [OF assms(1-3), of i frm to r X] ev assms(5) show ?thesis by simp
next
  case False
  with assms show ?thesis
    by (cases ev)
      (auto simp: shows_turn_def unused_ids_def of_runner_def invocation_states_def of_turn_def handler_defs Let_def changed_turn_def
        fun_eq_iff bt_contains_def split: if_splits option.splits)
qed

text \<open>The batches of the runner apply as the abstract machine says, and use only identifiers it has drawn.\<close>

lemma shows_recorded [simp]: "shows_turn spec A (record_event q env) V = shows_turn spec A q V" "unused_ids (record_event q env) F = unused_ids q F"
  by (simp_all add: shows_turn_def unused_ids_def record_event_def invocation_states_def fun_eq_iff)

lemma of_runner_seq [simp]: "of_runner spec A (env\<lparr>en_seq := n\<rparr>) = of_runner spec A env"
  by (simp add: of_runner_def)

lemma own_steps_apply:
  assumes "shows_turn spec A p V" and "unused_ids p F" and "\<forall>d \<in> set ds. of_runner spec A d"
    and "own_steps X spec (map en_event ds) (V, F) = Some (V', F')"
  shows "\<exists>q. applies X es p ds = Some q \<and> shows_turn spec A q V'"
  using assms
proof (induction ds arbitrary: es p V F)
  case (Cons d ds)
  obtain V1 F1 where step: "own_step X spec (en_event d) (V, F) = Some (V1, F1)" "own_steps X spec (map en_event ds) (V1, F1) = Some (V', F')"
    using Cons.prems(4) by (auto simp: bind_eq_Some_conv)
  let ?env = "d\<lparr>en_seq := Suc (length (events_of_thread (en_thread_id d) es))\<rparr>"
  obtain q where q: "apply_event X p ?env (en_event d) = (q, Ok ())" "shows_turn spec A q V1" "unused_ids q F1"
    using own_step_applies [OF Cons.prems(1,2) _ step(1), of ?env] Cons.prems(3) by auto
  with Cons.IH [of "record_event q ?env" V1 F1] Cons.prems(3) step(2) show ?case by (simp add: Let_def)
qed simp

lemma own_step_created: "own_step X spec e (V, F) = Some (V', F') \<Longrightarrow> created e \<subseteq> F \<and> F' \<subseteq> F"
  by (cases e) (auto split: if_splits)

lemma own_steps_created: "own_steps X spec es (V, F) = Some (V', F') \<Longrightarrow> \<forall>e \<in> set es. created e \<subseteq> F"
proof (induction es arbitrary: V F)
  case (Cons e es)
  then obtain V1 F1 where step: "own_step X spec e (V, F) = Some (V1, F1)" "own_steps X spec es (V1, F1) = Some (V', F')"
    by (auto simp: bind_eq_Some_conv)
  with own_step_created [OF step(1)] Cons.IH [OF step(2)] show ?case by auto
qed simp

definition own_turn :: "growth \<Rightarrow> turn_run_spec \<Rightarrow> bool" where
  "own_turn G spec \<longleftrightarrow> (\<forall>ev. gr_allows G (Some (tr_turn_id spec)) ev)"

lemma own_turnD: "own_turn G spec \<Longrightarrow> gr_allows G (Some (tr_turn_id spec)) ev"
  by (simp add: own_turn_def)

lemma own_commits:
  assumes h: "history_facts S es p us" and V: "shows_turn spec A p V" and G: "\<forall>d \<in> set ds. gr_allows G (Some (tr_turn_id spec)) (en_event d)"
    and ds: "\<forall>d \<in> set ds. of_runner spec A d \<and> en_schema_version d = PROTOCOL_VERSION \<and> en_event_id d \<in> set us"
    and steps: "own_steps (sv_externals S) spec (map en_event ds) (V, set us) = Some (V', F')"
  shows "commits S G es p us ds" and "shows_turn spec A (the (applies (sv_externals S) es p ds)) V'"
proof -
  have "unused_ids p (set us)" using fresh_entity [OF h] by (simp add: unused_ids_def)
  with own_steps_apply [OF V _ _ steps] ds obtain q where q: "applies (sv_externals S) es p ds = Some q" "shows_turn spec A q V'" by blast
  then show "shows_turn spec A (the (applies (sv_externals S) es p ds)) V'" by simp
  have "tr_thread_id spec \<in> used es" using V entityD(3) [OF h] by (fastforce simp: shows_turn_def)
  moreover have "\<forall>d \<in> set ds. created (en_event d) \<subseteq> set us" using own_steps_created [OF steps] by simp
  ultimately have "used ds \<subseteq> used es \<union> set us" using ds by (auto simp: used_def mentions_def of_runner_def)
  with q ds G show "commits S G es p us ds" by (auto simp: commits_def of_runner_def)
qed

section \<open>Symbolic execution\<close>

named_theorems turn_rules \<open>symbolic execution of the operations of the runner\<close>

definition at_turn :: "'w service \<Rightarrow> growth \<Rightarrow> turn_run_spec \<Rightarrow> (invocation_id \<Rightarrow> agent_id) \<Rightarrow> uuid list \<Rightarrow> turn_view \<Rightarrow> 'w daemon \<Rightarrow> bool" where
  "at_turn S G spec A us V d \<longleftrightarrow> (\<exists>es p. at_history S G (\<lambda>_. True) es p us d \<and> shows_turn spec A p V)"

lemma at_turn_ok: "at_turn S G spec A us V d \<Longrightarrow> grown_ok S G d"
  by (auto simp: at_turn_def intro: at_history_ok)

lemma at_turn_other [simp]:
  "at_turn S G spec A us V (d\<lparr>dm_sent := x\<rparr>) = at_turn S G spec A us V d"
  "at_turn S G spec A us V (d\<lparr>dm_clock := c\<rparr>) = at_turn S G spec A us V d"
  "at_turn S G spec A us V (d\<lparr>dm_world := w\<rparr>) = at_turn S G spec A us V d"
  by (simp_all add: at_turn_def)

lemma run_turn:
  assumes "\<And>es p. shows_turn spec A p V \<Longrightarrow> valid_run S G (at_history S G (\<lambda>_. True) es p us) m Q"
  shows "valid_run S G (at_turn S G spec A us V) m Q"
  using assms unfolding valid_run_def at_turn_def by blast

lemma run_turn_fail [turn_rules]: "valid_run S G (at_turn S G spec A us V) (afail e) Q"
  by (auto simp: valid_run_def afail_def intro: at_turn_ok)

lemma runner_uuid_draw: "runner_uuid S = draw S IdFailed"
  by (simp add: runner_uuid_def draw_def fun_eq_iff)

lemma runner_ledger_call: "runner_ledger t = ledger_call LedgerFailed t"
  by (simp add: runner_ledger_def ledger_call_def fun_eq_iff)

lemma run_runner_uuid [turn_rules]:
  assumes "\<And>u. valid_run S G (at_turn S G spec A (u # us) V) (f u) Q"
  shows "valid_run S G (at_turn S G spec A us V) (abind (runner_uuid S) f) Q"
  unfolding runner_uuid_draw
  by (intro run_turn run_draw run_pre [OF assms]) (auto simp: at_turn_def)

lemma run_runner_now [turn_rules]:
  assumes "\<And>now. valid_run S G (at_turn S G spec A us V) (f now) Q"
  shows "valid_run S G (at_turn S G spec A us V) (abind (runner_now S) f) Q"
  by (rule run_bind [OF _ assms]) (auto simp: valid_run_def runner_now_def)

lemma run_runner_projection:
  assumes "\<And>es p. shows_turn spec A p V \<Longrightarrow> valid_run S G (at_history S G (\<lambda>_. True) es p us) (f p) Q"
  shows "valid_run S G (at_turn S G spec A us V) (abind (runner_projection S) f) Q"
proof (rule run_turn)
  fix es p assume V: "shows_turn spec A p V"
  have "runner_projection S d = (d, Ok p)" if "at_history S G (\<lambda>_. True) es p us d" for d
    using that project_core_eq [of "sv_codec S" "sv_externals S" UNIV "dm_ledger d" es]
    by (auto simp: runner_projection_def at_history_def)
  then have "valid_run S G (at_history S G (\<lambda>_. True) es p us) (runner_projection S) (\<lambda>x d. x = p \<and> at_history S G (\<lambda>_. True) es p us d)"
    by (simp add: valid_run_def)
  then show "valid_run S G (at_history S G (\<lambda>_. True) es p us) (abind (runner_projection S) f) Q"
    by (rule run_bind) (use assms [OF V] in \<open>auto simp: valid_run_def\<close>)
qed

lemma run_current_state [turn_rules]:
  assumes "valid_run S G (at_turn S G (rc_spec ctx) A us V) (f (vw_state V)) Q"
  shows "valid_run S G (at_turn S G (rc_spec ctx) A us V) (abind (current_state S ctx) f) Q"
  unfolding current_state_def abind_assoc
proof (rule run_runner_projection)
  fix es p assume V: "shows_turn (rc_spec ctx) A p V"
  then have "abind (alift (ok_or (MissingTurn (rc_turn ctx)) (map_option tu_state (bt_get (pr_turns p) (rc_turn ctx))))) f = f (vw_state V)"
    by (auto simp: shows_turn_def ok_or_def alift_def abind_def fun_eq_iff)
  then show "valid_run S G (at_history S G (\<lambda>_. True) es p us)
      (abind (alift (ok_or (MissingTurn (rc_turn ctx)) (map_option tu_state (bt_get (pr_turns p) (rc_turn ctx))))) f) Q"
    using assms V by (auto simp: at_turn_def valid_run_def)
qed

text \<open>The input of an event.\<close>

lemma abind_ok: "abind (alift (Ok x)) f = f x"
  by (simp add: abind_def alift_def fun_eq_iff)

lemma new_scoped_eq:
  assumes "port_codec_ok (sv_codec S) (sv_externals S) UNIV"
  shows "new_scoped_ledger_event_locked S t turn agent causation ev =
    abind (runner_uuid S) (\<lambda>u. abind (runner_now S) (\<lambda>time.
      areturn (input_of (sv_codec S) (sv_externals S) (draft u t (Some turn) agent time causation ev))))"
proof -
  have "json_get (cd_event_value (sv_codec S) ev) ''kind'' = Some (JString (event_kind ev))"
    using assms unfolding port_codec_ok_def by auto
  then show ?thesis
    by (simp add: new_scoped_ledger_event_locked_def Let_def json_as_str_def ok_or_def abind_ok input_of_def draft_def)
qed

lemma run_turn_codec:
  assumes "port_codec_ok (sv_codec S) (sv_externals S) UNIV \<Longrightarrow> valid_run S G (at_turn S G spec A us V) m Q"
  shows "valid_run S G (at_turn S G spec A us V) m Q"
  using assms at_history_codec unfolding valid_run_def at_turn_def by blast

lemma run_new_scoped [turn_rules]:
  assumes "\<And>u time. valid_run S G (at_turn S G spec A (u # us) V)
    (f (input_of (sv_codec S) (sv_externals S) (draft u t (Some turn) a time causation ev))) Q"
  shows "valid_run S G (at_turn S G spec A us V) (abind (new_scoped_ledger_event_locked S t turn a causation ev) f) Q"
  by (rule run_turn_codec) (simp add: new_scoped_eq abind_assoc abind_return run_runner_uuid run_runner_now assms)

lemma run_new_ledger_event [turn_rules]:
  assumes "\<And>u time. valid_run S G (at_turn S G spec A (u # us) V)
    (f (input_of (sv_codec S) (sv_externals S) (draft u (rc_thread ctx) (Some (rc_turn ctx)) (rc_agent_id ctx) time
       (uuid_str (sv_externals S) (rc_request_id ctx)) ev))) Q"
  shows "valid_run S G (at_turn S G spec A us V) (abind (new_ledger_event_locked S ctx ev) f) Q"
  unfolding new_ledger_event_locked_def by (rule run_new_scoped) (rule assms)

lemma run_turn_send:
  "valid_run S G (at_turn S G spec A us V) (\<lambda>d. (d\<lparr>dm_sent := dm_sent d @ [e]\<rparr>, Ok ())) (\<lambda>_. at_turn S G spec A us V)"
  by (simp add: valid_run_def)

lemma run_turn_lift [turn_rules]:
  assumes "\<And>x. r = Ok x \<Longrightarrow> valid_run S G (at_turn S G spec A us V) (f x) Q"
  shows "valid_run S G (at_turn S G spec A us V) (abind (alift r) f) Q"
  using assms by (rule run_lift) (auto intro: at_turn_ok)

lemma run_broadcast:
  "valid_run S G (at_turn S G spec A us V) (broadcast_events S rows) (\<lambda>_. at_turn S G spec A us V)"
proof (induction rows)
  case (Cons row rows)
  show ?case
    unfolding broadcast_events.simps
    by (intro turn_rules run_bind [OF run_turn_send] run_bind [OF Cons.IH] run_return)
qed (simp add: run_return)

text \<open>A transaction of the runner: the drafts are its own and the abstract machine allows their events.\<close>

lemma run_own_append:
  assumes t: "\<And>db db' x. t db = Ok (db', x) \<Longrightarrow> ledger_wf db \<Longrightarrow>
      \<exists>evs. append_batch (cd_stored (sv_codec S)) db (map (input_of (sv_codec S) (sv_externals S)) ds) = Ok (db', evs)"
    and G: "\<forall>d \<in> set ds. gr_allows G (Some (tr_turn_id spec)) (en_event d)"
    and ds: "\<forall>d \<in> set ds. of_runner spec A d \<and> en_schema_version d = PROTOCOL_VERSION \<and> en_event_id d \<in> set us"
    and "ds \<noteq> []" and steps: "own_steps (sv_externals S) spec (map en_event ds) (V, set us) = Some (V', F')"
  shows "valid_run S G (at_turn S G spec A us V) (runner_ledger t) (\<lambda>_. at_turn S G spec A [] V')"
  unfolding runner_ledger_call
proof (rule run_turn, rule run_history_facts)
  fix es p assume V: "shows_turn spec A p V" and h: "history_facts S es p us"
  note own = own_commits [OF _ V G ds steps]
  have "\<exists>e \<in> set ds. en_event_id e \<in> set us" using ds \<open>ds \<noteq> []\<close> by (cases ds) auto
  from run_appending [OF t own(1) this]
  show "valid_run S G (at_history S G (\<lambda>_. True) es p us) (ledger_call LedgerFailed t) (\<lambda>_. at_turn S G spec A [] V')"
    by (rule run_post) (use own(2) [OF h] in \<open>auto simp: at_turn_def\<close>)
qed

end
