(* ===== verification/Runner_Steps.thy ===== *)
theory Runner_Steps
  imports Runner_View
begin

text \<open>
  What each operation of the runner that holds the mutation gate does to the view of its turn.
  Every operation leaves the ledger sound, also when it fails half way.
\<close>

section \<open>Appending\<close>

abbreviation at_ctx :: "'w service \<Rightarrow> growth \<Rightarrow> run_context \<Rightarrow> uuid list \<Rightarrow> turn_view \<Rightarrow> 'w daemon \<Rightarrow> bool" where
  "at_ctx S G ctx us V \<equiv> at_turn S G (rc_spec ctx) (\<lambda>_. rc_agent_id ctx) us V"

text \<open>The events are enabled, whatever else was drawn besides \<open>us\<close>.\<close>

definition enabled :: "externals \<Rightarrow> turn_run_spec \<Rightarrow> uuid list \<Rightarrow> turn_view \<Rightarrow> event list \<Rightarrow> turn_view \<Rightarrow> bool" where
  "enabled X spec us V evs V' \<longleftrightarrow> (\<forall>F. set us \<subseteq> F \<longrightarrow> (\<exists>F'. own_steps X spec evs (V, F) = Some (V', F')))"

lemma for_agent_const [simp]: "for_agent (\<lambda>_. a) a ev"
  by (cases ev) auto

lemma of_runner_draft [simp]:
  "of_runner spec A (draft u t turn a time c ev) \<longleftrightarrow> t = tr_thread_id spec \<and> turn = Some (tr_turn_id spec) \<and> for_agent A a ev"
  by (auto simp: of_runner_def)

lemma append_event_batch:
  assumes "append_event stored db e = Ok (db', x)" and "ledger_wf db"
  shows "\<exists>evs. append_batch stored db [e] = Ok (db', evs)"
proof (cases "nl_event_id e \<in> stored_ids db")
  case True
  then show ?thesis using append_event_Ok [OF assms(2,1)] assms by (auto simp: batch_cases ok_or_def rbind_eq_Inr)
next
  case False
  then show ?thesis using append_event_Ok [OF assms(2,1)] insert_batch_wf [OF assms(2), of "[e]"] get_event_present [of stored db]
    by (auto simp: batch_cases ledger_wf_def)
qed

lemma run_append_event:
  assumes "gr_allows G (Some (tr_turn_id spec)) ev" and "enabled (sv_externals S) spec us V [ev] V'" and "for_agent A a ev"
  shows "valid_run S G (at_turn S G spec A (u # us) V)
    (runner_ledger (\<lambda>db. append_event (cd_stored (sv_codec S)) db (input_of (sv_codec S) (sv_externals S)
       (draft u (tr_thread_id spec) (Some (tr_turn_id spec)) a time c ev)))) (\<lambda>_. at_turn S G spec A [] V')"
proof -
  obtain F' where "own_steps (sv_externals S) spec [ev] (V, set (u # us)) = Some (V', F')"
    using assms(2) unfolding enabled_def by (meson set_subset_Cons)
  then show ?thesis
    using assms(1,3) by (intro run_own_append [where ds = "[draft u (tr_thread_id spec) (Some (tr_turn_id spec)) a time c ev]" and F' = F'])
      (auto intro: append_event_batch)
qed

lemma run_persist_locked:
  assumes "gr_allows G (Some (rc_turn ctx)) ev"
    and "\<not> turn_is_terminal (vw_state V) \<Longrightarrow> enabled (sv_externals S) (rc_spec ctx) us V [ev] V'"
  shows "valid_run S G (at_ctx S G ctx us V) (persist_locked S ctx ev) (\<lambda>_ d. \<not> turn_is_terminal (vw_state V) \<and> at_ctx S G ctx [] V' d)"
  unfolding persist_locked_def
proof (intro turn_rules run_if)
  fix u time assume nt: "\<not> turn_is_terminal (vw_state V)"
  note app = run_append_event [OF assms(1) assms(2) [OF nt], of "\<lambda>_. rc_agent_id ctx" "rc_agent_id ctx"]
  show "valid_run S G (at_ctx S G ctx (u # us) V)
    (abind (runner_ledger (\<lambda>db. append_event (cd_stored (sv_codec S)) db (input_of (sv_codec S) (sv_externals S)
       (draft u (rc_thread ctx) (Some (rc_turn ctx)) (rc_agent_id ctx) time (uuid_str (sv_externals S) (rc_request_id ctx)) ev)))) (\<lambda>persisted.
     abind (alift (map_err LedgerFailed (envelope_of (sv_codec S) persisted))) (\<lambda>envelope.
     abind (\<lambda>d. (d\<lparr>dm_sent := dm_sent d @ [envelope]\<rparr>, Ok ())) (\<lambda>_. areturn envelope))))
    (\<lambda>_ d. \<not> turn_is_terminal (vw_state V) \<and> at_ctx S G ctx [] V' d)"
    by (rule run_bind [OF app], simp, intro turn_rules run_bind [OF run_turn_send] run_return) (use nt in simp)
qed

text \<open>What a single event does, as rules for \<open>enabled\<close>.\<close>

lemma enabled_simps:
  "enabled X spec us V [TurnStateChanged u frm to r] V' \<longleftrightarrow>
     u = tr_turn_id spec \<and> vw_state V = frm \<and> can_transition_turn frm to \<and> V' = V\<lparr>vw_state := to\<rparr>"
  "enabled X spec us V [RuntimeDiagnostic code message rec] V' \<longleftrightarrow> V' = V"
  "enabled X spec us V [ModelRequested m] V' \<longleftrightarrow> V' = V\<lparr>vw_requests := insert m (vw_requests V)\<rparr>"
  "enabled X spec us V [ModelStreamEvent m e] V' \<longleftrightarrow> m \<in> vw_requests V \<and> V' = V"
  "enabled X spec us V [InvocationStateChanged i s s' r] V' \<longleftrightarrow>
     vw_invocations V i = Some s \<and> always_allowed s s' \<and> V' = V\<lparr>vw_invocations := (vw_invocations V)(i \<mapsto> s')\<rparr>"
  unfolding enabled_def by (auto split: if_splits)

lemma enabled_item:
  "it_thread_id i = tr_thread_id spec \<Longrightarrow> it_turn_id i = tr_turn_id spec \<Longrightarrow> it_id i \<in> set us \<Longrightarrow> enabled X spec us V [ItemAdded i] V"
  unfolding enabled_def by auto

lemma enabled_item_state:
  assumes "it_thread_id i = tr_thread_id spec" and "it_turn_id i = tr_turn_id spec" and "it_id i \<in> set us"
    and "vw_invocations V k = Some frm" and "always_allowed frm to"
  shows "enabled X spec us V [ItemAdded i, InvocationStateChanged k frm to r] (V\<lparr>vw_invocations := (vw_invocations V)(k \<mapsto> to)\<rparr>)"
    and "enabled X spec us V [InvocationStateChanged k frm to r, ItemAdded i] (V\<lparr>vw_invocations := (vw_invocations V)(k \<mapsto> to)\<rparr>)"
  using assms unfolding enabled_def by auto

section \<open>The turn\<close>

lemma view_same: "vw_state V = s \<Longrightarrow> V\<lparr>vw_state := s\<rparr> = V"
  by simp

lemma persist_expected_run:
  assumes "gr_allows G (Some (rc_turn ctx)) ev" and "vw_state V = expected \<Longrightarrow> enabled (sv_externals S) (rc_spec ctx) us V [ev] V'"
  shows "valid_run S G (at_ctx S G ctx us V) (persist_locked_expected S ctx expected ev)
    (\<lambda>_ d. vw_state V = expected \<and> \<not> turn_is_terminal expected \<and> at_ctx S G ctx [] V' d)"
  unfolding persist_locked_expected_def
proof (intro turn_rules run_if)
  assume "\<not> vw_state V \<noteq> expected"
  with assms(2) show "valid_run S G (at_ctx S G ctx us V) (persist_locked S ctx ev)
      (\<lambda>_ d. vw_state V = expected \<and> \<not> turn_is_terminal expected \<and> at_ctx S G ctx [] V' d)"
    by (intro run_post [OF run_persist_locked [OF assms(1)]]) auto
qed

lemma transition_run:
  assumes "own_turn G (rc_spec ctx)" and "can_transition_turn frm to"
  shows "valid_run S G (at_ctx S G ctx us V) (transition_locked S ctx frm to reason)
    (\<lambda>_ d. vw_state V = frm \<and> at_ctx S G ctx [] (V\<lparr>vw_state := to\<rparr>) d)"
  unfolding transition_locked_def
proof (intro turn_rules run_if)
  assume "\<not> vw_state V \<noteq> frm"
  with assms(2) show "valid_run S G (at_ctx S G ctx us V) (persist_locked S ctx (TurnStateChanged (rc_turn ctx) frm to reason))
      (\<lambda>_ d. vw_state V = frm \<and> at_ctx S G ctx [] (V\<lparr>vw_state := to\<rparr>) d)"
    by (intro run_post [OF run_persist_locked [OF own_turnD [OF assms(1)]]]) (auto simp: enabled_simps)
qed

text \<open>Unfinished invocations.\<close>

definition pending_in :: "turn_view \<Rightarrow> bool" where
  "pending_in V \<longleftrightarrow> (\<exists>k s. vw_invocations V k = Some s \<and> \<not> inv_is_terminal s)"

definition unsettled_in :: "turn_view \<Rightarrow> bool" where
  "unsettled_in V \<longleftrightarrow> (\<exists>k s. vw_invocations V k = Some s \<and> \<not> inv_is_terminal s \<and> s \<noteq> invocation_state.Unknown)"

lemma unfinished_state [simp]: "pending_in (V\<lparr>vw_state := s\<rparr>) = pending_in V" "unsettled_in (V\<lparr>vw_state := s\<rparr>) = unsettled_in V"
  by (simp_all add: pending_in_def unsettled_in_def)

lemma shown_states:
  assumes "shows_turn spec A p V" and "bt_wf (pr_invocations p)"
  shows "(\<exists>v \<in> set (bt_values (pr_invocations p)). of_turn spec v \<and> P (pv_state v)) \<longleftrightarrow> (\<exists>k s. vw_invocations V k = Some s \<and> P s)"
proof -
  have "vw_invocations V = invocation_states spec p" using assms(1) by (simp add: shows_turn_def)
  moreover have "(\<exists>k s. invocation_states spec p k = Some s \<and> P s) \<longleftrightarrow> (\<exists>k v. bt_get (pr_invocations p) k = Some v \<and> of_turn spec v \<and> P (pv_state v))"
    by (auto simp: invocation_states_def split: option.splits if_splits)
  ultimately show ?thesis using bt_values_iff [OF assms(2)] by auto
qed

lemma run_pending:
  assumes "valid_run S G (at_ctx S G ctx us V) (f (pending_in V)) Q"
  shows "valid_run S G (at_ctx S G ctx us V) (abind (has_pending_invocations S ctx) f) Q"
  unfolding has_pending_invocations_def abind_assoc
proof (rule run_runner_projection, rule run_history_facts)
  fix es p assume V: "shows_turn (rc_spec ctx) (\<lambda>_. rc_agent_id ctx) p V" and "history_facts S es p us"
  then have "bt_wf (pr_invocations p)" by (simp add: history_facts_def proj_ok_def maps_wf_def)
  from shown_states [OF V this, of "\<lambda>s. \<not> inv_is_terminal s"] assms V
  show "valid_run S G (at_history S G (\<lambda>_. True) es p us) (abind (areturn (\<exists>v\<in>set (bt_values (pr_invocations p)).
      of_turn (rc_spec ctx) v \<and> \<not> inv_is_terminal (pv_state v))) f) Q"
    by (auto simp: abind_return pending_in_def valid_run_def at_turn_def)
qed

lemma run_unsettled:
  assumes "valid_run S G (at_ctx S G ctx us V) (f (unsettled_in V)) Q"
  shows "valid_run S G (at_ctx S G ctx us V) (abind (has_unsettled_invocations S ctx) f) Q"
  unfolding has_unsettled_invocations_def abind_assoc
proof (rule run_runner_projection, rule run_history_facts)
  fix es p assume V: "shows_turn (rc_spec ctx) (\<lambda>_. rc_agent_id ctx) p V" and "history_facts S es p us"
  then have "bt_wf (pr_invocations p)" by (simp add: history_facts_def proj_ok_def maps_wf_def)
  from shown_states [OF V this, of "\<lambda>s. \<not> inv_is_terminal s \<and> s \<noteq> invocation_state.Unknown"] assms V
  show "valid_run S G (at_history S G (\<lambda>_. True) es p us) (abind (areturn (\<exists>v\<in>set (bt_values (pr_invocations p)).
      of_turn (rc_spec ctx) v \<and> \<not> inv_is_terminal (pv_state v) \<and> pv_state v \<noteq> invocation_state.Unknown)) f) Q"
    by (auto simp: abind_return unsettled_in_def valid_run_def at_turn_def)
qed

lemma closing_transitions:
  "\<not> turn_is_terminal s \<Longrightarrow> can_transition_turn s turn_state.Failed"
  "\<not> turn_is_terminal s \<Longrightarrow> s \<noteq> Cancelling \<Longrightarrow> can_transition_turn s Cancelling"
  "can_transition_turn Cancelling turn_state.Cancelled" "can_transition_turn Streaming turn_state.Completed"
  by (cases s; simp add: can_transition_turn_def turn_is_terminal_def turn_edges_def)+

lemma fail_with_run:
  assumes "own_turn G (rc_spec ctx)" and "vw_state V = actual" and "\<not> turn_is_terminal actual"
  shows "valid_run S G (at_ctx S G ctx [] V) (fail_with S ctx actual code message)
    (\<lambda>r d. r = RunFailed (rc_request_id ctx) code \<and> at_ctx S G ctx [] (V\<lparr>vw_state := turn_state.Failed\<rparr>) d)"
  unfolding fail_with_def
proof (rule run_bind)
  show "valid_run S G (at_ctx S G ctx [] V) (persist_locked S ctx (RuntimeDiagnostic code message False)) (\<lambda>_. at_ctx S G ctx [] V)"
    by (rule run_post [OF run_persist_locked [OF own_turnD [OF assms(1)]]]) (auto simp: enabled_simps)
  show "valid_run S G (at_ctx S G ctx [] V) (abind (transition_locked S ctx actual turn_state.Failed (Some message))
      (\<lambda>_. areturn (RunFailed (rc_request_id ctx) code)))
    (\<lambda>r d. r = RunFailed (rc_request_id ctx) code \<and> at_ctx S G ctx [] (V\<lparr>vw_state := turn_state.Failed\<rparr>) d)"
    by (rule run_bind [OF transition_run [OF assms(1) closing_transitions(1) [OF assms(3)]]], rule run_return) simp
qed

lemma fail_run:
  assumes "own_turn G (rc_spec ctx)" and "\<not> turn_is_terminal frm"
  shows "valid_run S G (at_ctx S G ctx [] V) (fail S ctx frm code message)
    (\<lambda>r d. r = RunFailed (rc_request_id ctx) (normalize_code code) \<and> (vw_state V = frm \<or> vw_state V = Cancelling \<and> \<not> pending_in V) \<and>
      at_ctx S G ctx [] (V\<lparr>vw_state := turn_state.Failed\<rparr>) d)"
  unfolding fail_def
proof (intro turn_rules run_if)
  assume st: "\<not> (vw_state V \<noteq> frm \<and> vw_state V \<noteq> Cancelling)"
  have c: "\<not> turn_is_terminal Cancelling" by (simp add: turn_is_terminal_def)
  let ?Q = "\<lambda>r d. r = RunFailed (rc_request_id ctx) (normalize_code code) \<and> (vw_state V = frm \<or> vw_state V = Cancelling \<and> \<not> pending_in V) \<and>
      at_ctx S G ctx [] (V\<lparr>vw_state := turn_state.Failed\<rparr>) d"
  let ?rest = "\<lambda>pending. if pending then afail (unexpected ctx frm (vw_state V))
    else fail_with S ctx (vw_state V) (normalize_code code) (bounded_message message)"
  have rest: "valid_run S G (at_ctx S G ctx [] V) (?rest (vw_state V = Cancelling \<and> pending_in V)) ?Q"
    by (intro run_if turn_rules run_post [OF fail_with_run [OF assms(1)]]) (use st c assms(2) in auto)
  show "valid_run S G (at_ctx S G ctx [] V) (abind (if vw_state V = Cancelling then has_pending_invocations S ctx else areturn False) ?rest) ?Q"
    using rest by (cases "vw_state V = Cancelling") (auto intro: run_pending simp: abind_return)
qed

lemma fail_current_run:
  assumes "own_turn G (rc_spec ctx)"
  shows "valid_run S G (at_ctx S G ctx [] V) (fail_current S ctx code message)
    (\<lambda>r d. r = RunFailed (rc_request_id ctx) (normalize_code code) \<and> \<not> unsettled_in V \<and> at_ctx S G ctx [] (V\<lparr>vw_state := turn_state.Failed\<rparr>) d)"
  unfolding fail_current_def
  by (intro turn_rules run_if run_unsettled run_post [OF fail_with_run [OF assms]]) auto

lemma cancel_run:
  assumes own: "own_turn G (rc_spec ctx)"
  shows "valid_run S G (at_ctx S G ctx [] V) (cancel_locked S ctx frm)
    (\<lambda>_. at_ctx S G ctx [] (V\<lparr>vw_state := if pending_in V then Cancelling else turn_state.Cancelled\<rparr>))"
    (is "valid_run _ _ _ _ (\<lambda>_. ?Q)")
  unfolding cancel_locked_def
proof (intro turn_rules run_if)
  note close = transition_run [OF own closing_transitions(3), of S "[]"]
  { assume "vw_state V = turn_state.Cancelled"
    then show "valid_run S G (at_ctx S G ctx [] V) (abind (has_pending_invocations S ctx)
        (\<lambda>pending. if pending then afail (unexpected ctx frm (vw_state V)) else areturn ())) (\<lambda>_. ?Q)"
      by (intro run_pending run_if turn_rules run_return) (auto simp: view_same) }
  { assume "vw_state V = Cancelling"
    then show "valid_run S G (at_ctx S G ctx [] V) (abind (has_pending_invocations S ctx) (\<lambda>pending. if pending then areturn ()
        else abind (transition_locked S ctx Cancelling turn_state.Cancelled (Some ''turn runner cancelled'')) (\<lambda>_. areturn ()))) (\<lambda>_. ?Q)"
      by (intro run_pending run_if run_return run_bind [OF close]) (auto simp: view_same) }
  { assume "vw_state V \<noteq> Cancelling" "\<not> turn_is_terminal (vw_state V)"
    note first = transition_run [OF own closing_transitions(2) [OF this(2,1)], of S "[]" V "Some ''turn runner cancellation requested''"]
    have "valid_run S G (at_ctx S G ctx [] (V\<lparr>vw_state := Cancelling\<rparr>)) (abind (has_pending_invocations S ctx) (\<lambda>pending. if pending then areturn ()
        else abind (transition_locked S ctx Cancelling turn_state.Cancelled (Some ''turn runner cancelled'')) (\<lambda>_. areturn ()))) (\<lambda>_. ?Q)"
      by (intro run_pending run_if run_return run_bind [OF close]) auto
    then show "valid_run S G (at_ctx S G ctx [] V) (abind (transition_locked S ctx (vw_state V) Cancelling (Some ''turn runner cancellation requested'')) (\<lambda>_.
        abind (has_pending_invocations S ctx) (\<lambda>pending. if pending then areturn ()
        else abind (transition_locked S ctx Cancelling turn_state.Cancelled (Some ''turn runner cancelled'')) (\<lambda>_. areturn ())))) (\<lambda>_. ?Q)"
      by (intro run_bind [OF run_post [OF first]]) auto }
qed

lemma complete_run:
  assumes own: "own_turn G (rc_spec ctx)" and "it_thread_id item = rc_thread ctx" and "it_turn_id item = rc_turn ctx" and "it_id item \<in> set us"
  shows "valid_run S G (at_ctx S G ctx us V) (complete S ctx item)
    (\<lambda>r d. r = RunCancelled (rc_request_id ctx) \<and>
         at_ctx S G ctx [] (V\<lparr>vw_state := if pending_in V then Cancelling else turn_state.Cancelled\<rparr>) d \<or>
       r = RunCompleted (rc_request_id ctx) (it_id item) \<and> vw_state V = Streaming \<and>
         at_ctx S G ctx [] (V\<lparr>vw_state := turn_state.Completed\<rparr>) d)" (is "valid_run _ _ _ _ ?Q")
proof (rule valid_run_cases)
  fix d assume d: "at_ctx S G ctx us V d"
  have fewer: "at_ctx S G ctx [] V d" using d unfolding at_turn_def by (meson at_history_fewer)
  have c: "valid_run S G (at_ctx S G ctx [] V) (abind (cancel_locked S ctx Streaming) (\<lambda>_. areturn (RunCancelled (rc_request_id ctx)))) ?Q"
    by (rule run_bind [OF cancel_run [OF own]], rule run_return) simp
  have "valid_run S G (at_ctx S G ctx us V) (abind (persist_locked_expected S ctx Streaming (ItemAdded item)) (\<lambda>_.
        abind (transition_locked S ctx Streaming turn_state.Completed None) (\<lambda>_.
        areturn (RunCompleted (rc_request_id ctx) (it_id item))))) ?Q"
  proof (rule run_bind)
    show "valid_run S G (at_ctx S G ctx us V) (persist_locked_expected S ctx Streaming (ItemAdded item)) (\<lambda>_. at_ctx S G ctx [] V)"
      by (rule run_post [OF persist_expected_run [OF own_turnD [OF own] enabled_item]]) (use assms in auto)
    show "valid_run S G (at_ctx S G ctx [] V) (abind (transition_locked S ctx Streaming turn_state.Completed None)
        (\<lambda>_. areturn (RunCompleted (rc_request_id ctx) (it_id item)))) ?Q"
      by (rule run_bind [OF transition_run [OF own closing_transitions(4)]], rule run_return) auto
  qed
  note completes = this
  show "\<exists>P' m'. P' d \<and> complete S ctx item d = m' d \<and> valid_run S G P' m' ?Q"
  proof (cases "is_cancelled (rc_turn ctx) d")
    case True
    then show ?thesis using c fewer by (intro exI conjI) (assumption, simp add: complete_def, assumption)
  next
    case False
    then show ?thesis using completes d by (intro exI conjI) (assumption, simp add: complete_def, assumption)
  qed
qed

section \<open>Invocations\<close>

definition with_invocation :: "turn_view \<Rightarrow> invocation_id \<Rightarrow> invocation_state \<Rightarrow> turn_view" where
  "with_invocation V i s = V\<lparr>vw_invocations := (vw_invocations V)(i \<mapsto> s)\<rparr>"

lemma with_invocation_sel [simp]:
  "vw_state (with_invocation V i s) = vw_state V" "vw_requests (with_invocation V i s) = vw_requests V"
  "vw_invocations (with_invocation V i s) = (vw_invocations V)(i \<mapsto> s)"
  by (simp_all add: with_invocation_def)

lemma runner_transitions:
  "always_allowed Proposed Approved" "always_allowed Approved Prepared" "always_allowed Prepared Started"
  "always_allowed Started invocation_state.Completed" "always_allowed Started invocation_state.Failed" "always_allowed Started invocation_state.Unknown"
  "always_allowed Proposed invocation_state.Failed" "always_allowed Approved invocation_state.Failed" "always_allowed Prepared invocation_state.Failed"
  by (simp_all add: always_allowed_def can_transition_invocation_with_idempotency_def invocation_edges_def inv_is_terminal_def)

lemma unknown_outcome_appends:
  "append_invocation_unknown_outcome C X db \<lparr>nuo_unknown_state = a, nuo_tool_result = b\<rparr> = Ok (db', x) \<Longrightarrow>
     \<exists>evs. append_batch (cd_stored C) db [a, b] = Ok (db', evs)"
  using checked_Ok by (fastforce simp: append_invocation_unknown_outcome_def rbind_eq_Inr)

lemma ensure_nonterminal_run:
  assumes "\<not> turn_is_terminal (vw_state V) \<Longrightarrow> valid_run S G (at_ctx S G ctx us V) (f ()) Q"
  shows "valid_run S G (at_ctx S G ctx us V) (abind (ensure_turn_nonterminal_locked S ctx) f) Q"
  unfolding ensure_turn_nonterminal_locked_def abind_assoc
proof (rule run_current_state, cases "turn_is_terminal (vw_state V)")
  case True
  then show "valid_run S G (at_ctx S G ctx us V)
      (abind (if turn_is_terminal (vw_state V) then afail (unexpected ctx Executing (vw_state V)) else areturn ()) f) Q"
    by (auto simp: valid_run_def abind_def afail_def intro: at_turn_ok)
next
  case False
  with assms show "valid_run S G (at_ctx S G ctx us V)
      (abind (if turn_is_terminal (vw_state V) then afail (unexpected ctx Executing (vw_state V)) else areturn ()) f) Q"
    by (simp add: abind_return)
qed

text \<open>The two events of an outcome, in either order.\<close>

definition own_draft :: "turn_run_spec \<Rightarrow> (invocation_id \<Rightarrow> agent_id) \<Rightarrow> uuid list \<Rightarrow> event_envelope \<Rightarrow> event \<Rightarrow> bool" where
  "own_draft spec A us x ev \<longleftrightarrow> of_runner spec A x \<and> en_schema_version x = PROTOCOL_VERSION \<and> en_event_id x \<in> set us \<and> en_event x = ev"

lemma own_draft_draft [simp]:
  "own_draft spec A us (draft u t turn a time c ev) ev' \<longleftrightarrow>
     t = tr_thread_id spec \<and> turn = Some (tr_turn_id spec) \<and> for_agent A a ev \<and> u \<in> set us \<and> ev = ev'"
  by (auto simp: own_draft_def)

lemma run_outcome_append:
  assumes own: "own_turn G spec" and V: "vw_invocations V k = Some frm" and al: "always_allowed frm to"
    and item: "it_thread_id item = tr_thread_id spec" "it_turn_id item = tr_turn_id spec" "it_id item \<in> set us"
    and x: "own_draft spec A us x (ItemAdded item)" and y: "own_draft spec A us y (InvocationStateChanged k frm to r)"
  shows "valid_run S G (at_turn S G spec A us V) (runner_ledger (\<lambda>db. append_invocation_outcome (sv_codec S) (sv_externals S) db
      \<lparr>no_tool_result = input_of (sv_codec S) (sv_externals S) x, no_terminal_state = input_of (sv_codec S) (sv_externals S) y\<rparr>)) (\<lambda>_. at_turn S G spec A [] (with_invocation V k to))"
    and "valid_run S G (at_turn S G spec A us V) (runner_ledger (\<lambda>db. append_invocation_unknown_outcome (sv_codec S) (sv_externals S) db
      \<lparr>nuo_unknown_state = input_of (sv_codec S) (sv_externals S) y, nuo_tool_result = input_of (sv_codec S) (sv_externals S) x\<rparr>)) (\<lambda>_. at_turn S G spec A [] (with_invocation V k to))"
proof -
  obtain F1 F2 where "own_steps (sv_externals S) spec [ItemAdded item, InvocationStateChanged k frm to r] (V, set us) = Some (with_invocation V k to, F1)"
      "own_steps (sv_externals S) spec [InvocationStateChanged k frm to r, ItemAdded item] (V, set us) = Some (with_invocation V k to, F2)"
    using enabled_item_state [OF item V al] unfolding enabled_def with_invocation_def by (meson order_refl)
  then have F: "own_steps (sv_externals S) spec (map en_event [x, y]) (V, set us) = Some (with_invocation V k to, F1)"
      "own_steps (sv_externals S) spec (map en_event [y, x]) (V, set us) = Some (with_invocation V k to, F2)"
    using x y by (simp_all add: own_draft_def)
  show "valid_run S G (at_turn S G spec A us V) (runner_ledger (\<lambda>db. append_invocation_outcome (sv_codec S) (sv_externals S) db
      \<lparr>no_tool_result = input_of (sv_codec S) (sv_externals S) x, no_terminal_state = input_of (sv_codec S) (sv_externals S) y\<rparr>)) (\<lambda>_. at_turn S G spec A [] (with_invocation V k to))"
    by (rule run_own_append [OF _ _ _ _ F(1)]) (use x y in \<open>auto simp: own_draft_def own_turnD [OF own] dest: outcome_appends\<close>)
  show "valid_run S G (at_turn S G spec A us V) (runner_ledger (\<lambda>db. append_invocation_unknown_outcome (sv_codec S) (sv_externals S) db
      \<lparr>nuo_unknown_state = input_of (sv_codec S) (sv_externals S) y, nuo_tool_result = input_of (sv_codec S) (sv_externals S) x\<rparr>)) (\<lambda>_. at_turn S G spec A [] (with_invocation V k to))"
    by (rule run_own_append [OF _ _ _ _ F(2)]) (use x y in \<open>auto simp: own_draft_def own_turnD [OF own] dest: unknown_outcome_appends\<close>)
qed

lemma run_keep: "valid_run S G P m Q \<Longrightarrow> valid_run S G (\<lambda>d. b \<and> P d) m (\<lambda>x d. b \<and> Q x d)"
  by (cases b) (simp_all add: valid_run_def)

lemma run_known: "(b \<Longrightarrow> valid_run S G P m Q) \<Longrightarrow> valid_run S G (\<lambda>d. b \<and> P d) m Q"
  by (cases b) (simp_all add: valid_run_def)

lemma persist_invocation_transition_run:
  assumes own: "own_turn G (rc_spec ctx)" and V: "vw_invocations V i = Some frm" and al: "always_allowed frm to"
  shows "valid_run S G (at_ctx S G ctx [] V) (persist_invocation_transition S ctx i frm to reason)
    (\<lambda>_ d. (to = Started \<longrightarrow> vw_state V = Executing) \<and> at_ctx S G ctx [] (with_invocation V i to) d)" (is "valid_run _ _ ?P _ ?Q")
  unfolding persist_invocation_transition_def
proof (rule run_bind [where R = "\<lambda>_ d. (to = Started \<longrightarrow> vw_state V = Executing) \<and> ?P d"])
  show "valid_run S G ?P (if to = Started then abind (current_state S ctx) (\<lambda>actual. if actual \<noteq> Executing then afail (unexpected ctx Executing actual) else areturn ())
      else areturn ()) (\<lambda>_ d. (to = Started \<longrightarrow> vw_state V = Executing) \<and> ?P d)"
    by (intro run_if turn_rules run_return) auto
next
  have one: "enabled (sv_externals S) (rc_spec ctx) [] V [InvocationStateChanged i frm to reason] (with_invocation V i to)"
    using V al by (simp add: enabled_simps with_invocation_def)
  have unknown: "valid_run S G (at_ctx S G ctx [u] V) (runner_ledger (\<lambda>db. append_invocation_unknown (sv_codec S) (sv_externals S) db \<lparr>nu_state =
      input_of (sv_codec S) (sv_externals S) (draft u (rc_thread ctx) (Some (rc_turn ctx)) (rc_agent_id ctx) time c (InvocationStateChanged i frm to reason))\<rparr>))
      (\<lambda>_. at_ctx S G ctx [] (with_invocation V i to))" for u time c
  proof -
    obtain F' where "own_steps (sv_externals S) (rc_spec ctx) [InvocationStateChanged i frm to reason] (V, set [u]) = Some (with_invocation V i to, F')"
      using one [unfolded enabled_def, rule_format, of "set [u]"] by auto
    then show ?thesis
      by (intro run_own_append [where ds = "[draft u (rc_thread ctx) (Some (rc_turn ctx)) (rc_agent_id ctx) time c (InvocationStateChanged i frm to reason)]"])
        (auto dest: unknown_appends simp: own_turnD [OF own])
  qed
  show "valid_run S G (\<lambda>d. (to = Started \<longrightarrow> vw_state V = Executing) \<and> ?P d) (abind (ensure_turn_nonterminal_locked S ctx) (\<lambda>_.
     if frm = Started \<and> to = invocation_state.Unknown
     then
       abind (new_ledger_event_locked S ctx (InvocationStateChanged i frm to reason)) (\<lambda>input.
       abind (runner_ledger (\<lambda>db. append_invocation_unknown (sv_codec S) (sv_externals S) db \<lparr>nu_state = input\<rparr>)) (\<lambda>persisted.
       abind (alift (map_err LedgerFailed (envelope_of (sv_codec S) persisted))) (\<lambda>envelope.
       abind (\<lambda>d. (d\<lparr>dm_sent := dm_sent d @ [envelope]\<rparr>, Ok ())) (\<lambda>_.
       areturn envelope))))
     else persist_locked S ctx (InvocationStateChanged i frm to reason))) ?Q"
    by (rule run_keep, intro ensure_nonterminal_run run_if turn_rules run_bind [OF unknown] run_bind [OF run_turn_send] run_return
        run_post [OF run_persist_locked [OF own_turnD [OF own] one]]) auto
qed

lemma run_tool_result_item:
  assumes "\<And>i now. valid_run S G (at_turn S G spec A (i # us) V) (f
      \<lparr>it_id = i, it_thread_id = rc_thread ctx, it_turn_id = rc_turn ctx, it_agent_id = rc_agent_id ctx, it_kind = ToolResult,
       it_content = JObject
         [(''content'', ec_blocks (sv_encoders S) [ToolResultBlock (at_call_id (pd_call v)) result is_error]),
          (''invocation_id'', ec_uuid (sv_encoders S) (pd_invocation_id v))], it_created_at = now\<rparr>) Q"
  shows "valid_run S G (at_turn S G spec A us V) (abind (tool_result_item S ctx v result is_error) f) Q"
  unfolding tool_result_item_def abind_assoc abind_return by (intro turn_rules assms)

lemma persist_outcome_run:
  assumes own: "own_turn G (rc_spec ctx)" and V: "vw_invocations V (pd_invocation_id v) = Some frm" and al: "always_allowed frm terminal"
  shows "valid_run S G (at_ctx S G ctx [] V) (persist_invocation_outcome S ctx v terminal frm result is_error reason)
    (\<lambda>_. at_ctx S G ctx [] (with_invocation V (pd_invocation_id v) terminal))"
  unfolding persist_invocation_outcome_def
  by (intro ensure_nonterminal_run run_tool_result_item turn_rules run_bind [OF run_outcome_append(1) [OF own V al]] run_broadcast) auto

lemma persist_unknown_outcome_run:
  assumes own: "own_turn G (rc_spec ctx)" and V: "vw_invocations V (pd_invocation_id v) = Some Started"
  shows "valid_run S G (at_ctx S G ctx [] V) (persist_invocation_unknown_outcome S ctx v result is_error reason)
    (\<lambda>_. at_ctx S G ctx [] (with_invocation V (pd_invocation_id v) invocation_state.Unknown))"
  unfolding persist_invocation_unknown_outcome_def
  by (intro ensure_nonterminal_run run_tool_result_item turn_rules
      run_bind [OF run_outcome_append(2) [OF own V runner_transitions(6)]] run_broadcast) auto

end
