(* ===== verification/Runner_Settlement.thy ===== *)
theory Runner_Settlement
  imports Runner_Steps
begin

text \<open>
  The proposals of a round, which are stored in one batch, and the settlement of an
  interrupted turn, which resolves every unfinished invocation before it closes the turn.
\<close>

section \<open>Proposals\<close>

lemma run_distinct:
  assumes "distinct us \<Longrightarrow> valid_run S G (at_turn S G spec A us V) m Q"
  shows "valid_run S G (at_turn S G spec A us V) m Q"
  using assms unfolding valid_run_def at_turn_def at_history_def by blast

lemma run_new_ledger_events:
  assumes "\<And>ds us'. map en_event ds = evs \<Longrightarrow> \<forall>d \<in> set ds. own_draft (rc_spec ctx) (\<lambda>_. rc_agent_id ctx) us' d (en_event d) \<Longrightarrow> set us \<subseteq> set us' \<Longrightarrow>
      valid_run S G (at_ctx S G ctx us' V) (f (map (input_of (sv_codec S) (sv_externals S)) ds)) Q"
  shows "valid_run S G (at_ctx S G ctx us V) (abind (new_ledger_events S ctx evs) f) Q"
  using assms
proof (induction evs arbitrary: us f)
  case Nil
  then show ?case using Nil [of "[]" us] by (simp add: abind_return)
next
  case (Cons ev evs)
  show ?case
    unfolding new_ledger_events.simps abind_assoc abind_return
  proof (intro turn_rules Cons.IH)
    fix u time ds us'
    assume ds: "map en_event ds = evs" "\<forall>d \<in> set ds. own_draft (rc_spec ctx) (\<lambda>_. rc_agent_id ctx) us' d (en_event d)" "set (u # us) \<subseteq> set us'"
    let ?d = "draft u (rc_thread ctx) (Some (rc_turn ctx)) (rc_agent_id ctx) time (uuid_str (sv_externals S) (rc_request_id ctx)) ev"
    show "valid_run S G (at_ctx S G ctx us' V) (f (input_of (sv_codec S) (sv_externals S) ?d # map (input_of (sv_codec S) (sv_externals S)) ds)) Q"
      using Cons.prems [of "?d # ds" us'] ds by simp
  qed
qed

definition propose :: "turn_view \<Rightarrow> invocation_id list \<Rightarrow> turn_view" where
  "propose V ids = V\<lparr>vw_invocations := \<lambda>k. if k \<in> set ids then Some Proposed else vw_invocations V k\<rparr>"

lemma propose_sel [simp]:
  "vw_state (propose V ids) = vw_state V" "vw_requests (propose V ids) = vw_requests V"
  "vw_invocations (propose V ids) k = (if k \<in> set ids then Some Proposed else vw_invocations V k)"
  by (simp_all add: propose_def)

lemma own_step_proposal:
  "own_step X spec (proposal_event X v) (V, F) =
     (if pd_invocation_id v \<in> F then Some (V\<lparr>vw_invocations := (vw_invocations V)(pd_invocation_id v \<mapsto> Proposed)\<rparr>, F - {pd_invocation_id v}) else None)"
  by (simp add: proposal_event_def)

lemma own_steps_propose:
  assumes "distinct (map pd_invocation_id vs)" and "pd_invocation_id ` set vs \<subseteq> F"
  shows "\<exists>F'. own_steps X spec (map (proposal_event X) vs) (V, F) = Some (propose V (map pd_invocation_id vs), F')"
  using assms
proof (induction vs arbitrary: V F)
  case Nil
  then show ?case by (simp add: propose_def)
next
  case (Cons v vs)
  let ?V = "V\<lparr>vw_invocations := (vw_invocations V)(pd_invocation_id v \<mapsto> Proposed)\<rparr>"
  obtain F' where "own_steps X spec (map (proposal_event X) vs) (?V, F - {pd_invocation_id v}) = Some (propose ?V (map pd_invocation_id vs), F')"
    using Cons.IH [of "F - {pd_invocation_id v}" ?V] Cons.prems by auto
  moreover have "propose ?V (map pd_invocation_id vs) = propose V (map pd_invocation_id (v # vs))"
    by (auto simp: propose_def fun_eq_iff)
  ultimately show ?case using Cons.prems by (simp add: own_step_proposal)
qed

lemma run_persist_new_events:
  assumes "own_turn G spec" and "\<forall>d \<in> set ds. own_draft spec A us d (en_event d)" and "ds \<noteq> []"
    and "own_steps (sv_externals S) spec (map en_event ds) (V, set us) = Some (V', F')"
  shows "valid_run S G (at_turn S G spec A us V) (persist_new_events_locked S (map (input_of (sv_codec S) (sv_externals S)) ds))
    (\<lambda>_. at_turn S G spec A [] V')"
  unfolding persist_new_events_locked_def
  by (rule run_bind [OF run_own_append [OF _ _ _ assms(3,4)] run_broadcast]) (use assms(2) in \<open>auto simp: own_draft_def own_turnD [OF assms(1)]\<close>)

lemma propose_run:
  assumes own: "own_turn G (rc_spec ctx)" and ids: "distinct (map pd_invocation_id vs)" "pd_invocation_id ` set vs \<subseteq> set us"
  shows "valid_run S G (at_ctx S G ctx us V) (persist_tool_proposals_locked S ctx vs content)
    (\<lambda>_ d. vw_state V = ProposedTools \<and> at_ctx S G ctx [] (propose V (map pd_invocation_id vs)) d)"
  unfolding persist_tool_proposals_locked_def Let_def
proof (rule run_current_state, rule run_if, rule run_turn_fail, rule run_runner_uuid, rule run_distinct, rule run_runner_now, rule run_new_ledger_events)
  fix i now ds us'
  assume st: "\<not> vw_state V \<noteq> ProposedTools" and new: "distinct (i # us)"
  let ?item = "\<lparr>it_id = i, it_thread_id = rc_thread ctx, it_turn_id = rc_turn ctx, it_agent_id = rc_agent_id ctx, it_kind = ToolCall,
      it_content = JObject [(''content'', ec_blocks (sv_encoders S) content),
        (''invocation_ids'', JArray (map (\<lambda>v. JString (uuid_str (sv_externals S) (pd_invocation_id v))) vs))], it_created_at = now\<rparr>"
  assume ds: "map en_event ds = ItemAdded ?item # map (proposal_event (sv_externals S)) vs"
      "\<forall>d \<in> set ds. own_draft (rc_spec ctx) (\<lambda>_. rc_agent_id ctx) us' d (en_event d)" "set (i # us) \<subseteq> set us'"
  have "pd_invocation_id ` set vs \<subseteq> set us' - {i}" using new ids(2) ds(3) by auto
  then obtain F' where "own_steps (sv_externals S) (rc_spec ctx) (map (proposal_event (sv_externals S)) vs) (V, set us' - {i}) =
      Some (propose V (map pd_invocation_id vs), F')" using own_steps_propose [OF ids(1)] by blast
  then have "own_steps (sv_externals S) (rc_spec ctx) (map en_event ds) (V, set us') = Some (propose V (map pd_invocation_id vs), F')"
    unfolding ds(1) using ds(3) by simp
  note stored = run_persist_new_events [OF own ds(2) _ this]
  show "valid_run S G (at_ctx S G ctx us' V) (abind (persist_new_events_locked S (map (input_of (sv_codec S) (sv_externals S)) ds)) (\<lambda>_. areturn ()))
      (\<lambda>_ d. vw_state V = ProposedTools \<and> at_ctx S G ctx [] (propose V (map pd_invocation_id vs)) d)"
    by (rule run_bind [OF stored], use ds(1) in auto, rule run_return) (use st in auto)
qed

section \<open>Settlement\<close>

definition shown_in :: "turn_run_spec \<Rightarrow> (invocation_id \<Rightarrow> agent_id) \<Rightarrow> turn_view \<Rightarrow> projected_invocation \<Rightarrow> bool" where
  "shown_in spec A V v \<longleftrightarrow> of_turn spec v \<and> A (pv_invocation_id v) = pv_agent_id v \<and> vw_invocations V (pv_invocation_id v) = Some (pv_state v)"

lemma cancelled_invocation_run:
  assumes own: "own_turn G spec" and v: "shown_in spec A V v" and al: "always_allowed (pv_state v) invocation_state.Failed"
  shows "valid_run S G (at_turn S G spec A [] V) (persist_cancelled_invocation_locked S v)
    (\<lambda>_. at_turn S G spec A [] (with_invocation V (pv_invocation_id v) invocation_state.Failed))"
proof -
  have "vw_invocations V (pv_invocation_id v) = Some (pv_state v)" using v by (simp add: shown_in_def)
  note app = run_outcome_append(1) [OF own this al]
  show ?thesis
    unfolding persist_cancelled_invocation_locked_def Let_def
    by (intro turn_rules run_bind [OF app] run_bind [OF run_broadcast] run_return)
      (use v in \<open>auto simp: settled_item_def shown_in_def of_turn_def\<close>)
qed

lemma unknown_invocation_run:
  assumes own: "own_turn G spec" and v: "shown_in spec A V v" and st: "pv_state v = Started"
  shows "valid_run S G (at_turn S G spec A [] V) (persist_unknown_invocation_locked S v)
    (\<lambda>_. at_turn S G spec A [] (with_invocation V (pv_invocation_id v) invocation_state.Unknown))"
proof -
  have "vw_invocations V (pv_invocation_id v) = Some Started" using v st by (simp add: shown_in_def)
  note app = run_outcome_append(2) [OF own this runner_transitions(6)]
  show ?thesis
    unfolding persist_unknown_invocation_locked_def Let_def
    by (intro turn_rules run_bind [OF app] run_bind [OF run_broadcast] run_return)
      (use v st in \<open>auto simp: settled_item_def shown_in_def of_turn_def\<close>)
qed

text \<open>What the settlement makes of an unfinished invocation.\<close>

definition settled_to :: "invocation_state \<Rightarrow> invocation_state" where
  "settled_to s = (if s = Started \<or> s = invocation_state.Unknown then invocation_state.Unknown else invocation_state.Failed)"

fun settle_view :: "turn_view \<Rightarrow> projected_invocation list \<Rightarrow> turn_view" where
  "settle_view V [] = V"
| "settle_view V (v # vs) = settle_view (with_invocation V (pv_invocation_id v) (settled_to (pv_state v))) vs"

definition reconcile_later :: "projected_invocation list \<Rightarrow> bool" where
  "reconcile_later vs \<longleftrightarrow> (\<exists>v \<in> set vs. pv_state v = Started \<or> pv_state v = invocation_state.Unknown)"

lemma settle_invocations_run:
  assumes own: "own_turn G spec" and "\<forall>v \<in> set vs. shown_in spec A V v \<and> \<not> inv_is_terminal (pv_state v)" and "distinct (map pv_invocation_id vs)"
  shows "valid_run S G (at_turn S G spec A [] V) (settle_invocations S vs)
    (\<lambda>b d. b = reconcile_later vs \<and> at_turn S G spec A [] (settle_view V vs) d)"
  using assms(2,3)
proof (induction vs arbitrary: V)
  case Nil
  then show ?case by (auto simp: reconcile_later_def intro!: run_return)
next
  case (Cons v vs)
  let ?V = "with_invocation V (pv_invocation_id v) (settled_to (pv_state v))"
  have v: "shown_in spec A V v" and nt: "\<not> inv_is_terminal (pv_state v)" using Cons.prems(1) by auto
  note failed = cancelled_invocation_run [OF own v] and unknown = unknown_invocation_run [OF own v]
  have same: "pv_state v = invocation_state.Unknown \<Longrightarrow> ?V = V"
    using v by (auto simp: shown_in_def with_invocation_def settled_to_def fun_upd_idem)
  have here: "valid_run S G (at_turn S G spec A [] V) (case pv_state v of
              Proposed \<Rightarrow> abind (persist_cancelled_invocation_locked S v) (\<lambda>_. areturn False)
            | Approved \<Rightarrow> abind (persist_cancelled_invocation_locked S v) (\<lambda>_. areturn False)
            | Prepared \<Rightarrow> abind (persist_cancelled_invocation_locked S v) (\<lambda>_. areturn False)
            | Started \<Rightarrow> abind (persist_unknown_invocation_locked S v) (\<lambda>_. areturn True)
            | invocation_state.Unknown \<Rightarrow> areturn True
            | _ \<Rightarrow> areturn False) (\<lambda>b d. b = reconcile_later [v] \<and> at_turn S G spec A [] ?V d)"
    using nt same
    by (cases "pv_state v") (auto simp: reconcile_later_def settled_to_def inv_is_terminal_def runner_transitions
        intro!: run_return run_bind [OF failed] run_bind [OF unknown])
  have rest: "valid_run S G (at_turn S G spec A [] ?V) (settle_invocations S vs)
      (\<lambda>b d. b = reconcile_later vs \<and> at_turn S G spec A [] (settle_view ?V vs) d)"
  proof (rule Cons.IH)
    show "\<forall>w \<in> set vs. shown_in spec A ?V w \<and> \<not> inv_is_terminal (pv_state w)"
      using Cons.prems by (auto simp: shown_in_def image_iff)
  qed (use Cons.prems(2) in simp)
  show ?case
    unfolding settle_invocations.simps
  proof (rule run_bind [OF here])
    fix b
    show "valid_run S G (\<lambda>d. b = reconcile_later [v] \<and> at_turn S G spec A [] ?V d)
      (abind (settle_invocations S vs) (\<lambda>later. areturn (b \<or> later)))
      (\<lambda>b d. b = reconcile_later (v # vs) \<and> at_turn S G spec A [] (settle_view V (v # vs)) d)"
      by (rule run_bind [OF run_keep [OF rest]], rule run_return) (auto simp: reconcile_later_def)
  qed
qed

lemma close_settled_run:
  assumes own: "own_turn G spec" and st: "vw_state V = Cancelling"
  shows "valid_run S G (at_turn S G spec A [] V) (close_settled S spec agent b)
    (\<lambda>r d. r = (if b then FailedReconciliation else SettledCancelled) \<and>
      at_turn S G spec A [] (V\<lparr>vw_state := if b then turn_state.Failed else turn_state.Cancelled\<rparr>) d)"
proof -
  have c: "can_transition_turn Cancelling turn_state.Failed" "can_transition_turn Cancelling turn_state.Cancelled"
    by (simp_all add: can_transition_turn_def turn_is_terminal_def turn_edges_def)
  show ?thesis
  proof (cases b)
    case True
    let ?Q = "\<lambda>r d. r = FailedReconciliation \<and> at_turn S G spec A [] (V\<lparr>vw_state := turn_state.Failed\<rparr>) d"
    have app: "valid_run S G (at_turn S G spec A [u2, u1] V) (persist_new_events_locked S (map (input_of (sv_codec S) (sv_externals S))
        [draft u1 (tr_thread_id spec) (Some (tr_turn_id spec)) agent t1 c (RuntimeDiagnostic code message False),
         draft u2 (tr_thread_id spec) (Some (tr_turn_id spec)) agent t2 c (TurnStateChanged (tr_turn_id spec) Cancelling turn_state.Failed r)]))
        (\<lambda>_. at_turn S G spec A [] (V\<lparr>vw_state := turn_state.Failed\<rparr>))" for u1 u2 t1 t2 c code message r
      by (rule run_persist_new_events [OF own]) (use st c in auto)
    show ?thesis
      unfolding close_settled_def Let_def using True
      by (simp add: abind_assoc abind_return, intro turn_rules) (simp, intro run_bind [OF app [unfolded list.map]] run_return, simp)
  next
    case False
    have app: "valid_run S G (at_turn S G spec A [u] V) (persist_new_events_locked S (map (input_of (sv_codec S) (sv_externals S))
        [draft u (tr_thread_id spec) (Some (tr_turn_id spec)) agent t c (TurnStateChanged (tr_turn_id spec) Cancelling turn_state.Cancelled r)]))
        (\<lambda>_. at_turn S G spec A [] (V\<lparr>vw_state := turn_state.Cancelled\<rparr>))" for u t c r
      by (rule run_persist_new_events [OF own]) (use st \<open>can_transition_turn Cancelling turn_state.Cancelled\<close> in auto)
    show ?thesis
      unfolding close_settled_def Let_def using False
      by (simp add: abind_assoc abind_return, intro turn_rules) (simp, intro run_bind [OF app [unfolded list.map]] run_return, simp)
  qed
qed

text \<open>The turn that a projection shows.\<close>

definition view_of :: "turn_run_spec \<Rightarrow> projection \<Rightarrow> turn_state \<Rightarrow> turn_view" where
  "view_of spec p s = \<lparr>vw_state = s, vw_invocations = invocation_states spec p, vw_requests = {}\<rparr>"

definition agents_of :: "projection \<Rightarrow> invocation_id \<Rightarrow> agent_id" where
  "agents_of p k = (case bt_get (pr_invocations p) k of Some v \<Rightarrow> pv_agent_id v | None \<Rightarrow> [])"

lemma shows_view_of:
  "bt_get (pr_turns p) (tr_turn_id spec) = Some t \<Longrightarrow> tu_thread_id t = tr_thread_id spec \<Longrightarrow> shows_turn spec (agents_of p) p (view_of spec p (tu_state t))"
  by (auto simp: shows_turn_def view_of_def agents_of_def)

lemma settle_view_sel [simp]: "vw_state (settle_view V vs) = vw_state V"
  by (induction vs arbitrary: V) simp_all

lemma settle_view_other: "k \<notin> pv_invocation_id ` set vs \<Longrightarrow> vw_invocations (settle_view V vs) k = vw_invocations V k"
  by (induction vs arbitrary: V) simp_all

lemma settle_view_settled:
  "distinct (map pv_invocation_id vs) \<Longrightarrow> v \<in> set vs \<Longrightarrow> vw_invocations (settle_view V vs) (pv_invocation_id v) = Some (settled_to (pv_state v))"
  by (induction vs arbitrary: V) (auto simp: settle_view_other)

text \<open>What the settlement finds to settle.\<close>

definition pending_of :: "turn_run_spec \<Rightarrow> projection \<Rightarrow> projected_invocation list" where
  "pending_of spec p = filter (\<lambda>v. of_turn spec v \<and> \<not> inv_is_terminal (pv_state v)) (bt_values (pr_invocations p))"

lemma pending_of_facts:
  assumes h: "history_facts S es p us" and V: "shows_turn spec A p V"
  shows "\<forall>v \<in> set (pending_of spec p). shown_in spec A V v \<and> \<not> inv_is_terminal (pv_state v)"
    and "distinct (map pv_invocation_id (pending_of spec p))"
    and "vw_invocations V k = Some s \<Longrightarrow> \<not> inv_is_terminal s \<Longrightarrow> \<exists>v \<in> set (pending_of spec p). pv_invocation_id v = k \<and> pv_state v = s"
    and "pending_of spec p = [] \<longleftrightarrow> \<not> pending_in V"
    and "(\<forall>v \<in> set (pending_of spec p). pv_state v = invocation_state.Unknown) \<longleftrightarrow> \<not> unsettled_in V"
proof -
  have wf: "bt_wf (pr_invocations p)" and keys: "\<forall>k v. bt_get (pr_invocations p) k = Some v \<longrightarrow> pv_invocation_id v = k"
    using h by (auto simp: history_facts_def proj_ok_def maps_wf_def keys_ok_def)
  have I: "vw_invocations V = invocation_states spec p" using V by (simp add: shows_turn_def)
  show all: "\<forall>v \<in> set (pending_of spec p). shown_in spec A V v \<and> \<not> inv_is_terminal (pv_state v)"
    using V keys bt_values_iff [OF wf] by (fastforce simp: pending_of_def shown_in_def shows_turn_def invocation_states_def I)
  show "distinct (map pv_invocation_id (pending_of spec p))"
    unfolding pending_of_def by (rule bt_values_key(1) [OF wf keys])
  show found: "\<exists>v \<in> set (pending_of spec p). pv_invocation_id v = k \<and> pv_state v = s" if "vw_invocations V k = Some s" "\<not> inv_is_terminal s" for k s
    using that shown_invocation [OF V that(1)] keys bt_values_iff [OF wf] by (auto simp: pending_of_def)
  have there: "\<exists>k. vw_invocations V k = Some (pv_state v) \<and> \<not> inv_is_terminal (pv_state v)" if "v \<in> set (pending_of spec p)" for v
    using that all by (auto simp: shown_in_def)
  show "pending_of spec p = [] \<longleftrightarrow> \<not> pending_in V"
    using found there unfolding pending_in_def by (metis empty_iff empty_set list.set_intros(1) neq_Nil_conv)
  show "(\<forall>v \<in> set (pending_of spec p). pv_state v = invocation_state.Unknown) \<longleftrightarrow> \<not> unsettled_in V"
    using found there unfolding unsettled_in_def by metis
qed

text \<open>
  The settlement of a turn. It changes nothing when the turn is not being cancelled, and then
  the turn has no unfinished invocation, or has failed with unknown ones only. Otherwise it
  closes the turn: cancelled with every invocation finished, or failed with none left but
  unknown ones.
\<close>

definition settles :: "'w service \<Rightarrow> growth \<Rightarrow> turn_run_spec \<Rightarrow> (invocation_id \<Rightarrow> agent_id) \<Rightarrow> turn_view \<Rightarrow> turn_settlement \<Rightarrow> 'w daemon \<Rightarrow> bool" where
  "settles S G spec A V r d \<longleftrightarrow>
     (case r of
        Unchanged \<Rightarrow> at_turn S G spec A [] V d \<and> vw_state V \<noteq> Cancelling \<and> (\<not> pending_in V \<or> vw_state V = turn_state.Failed \<and> \<not> unsettled_in V)
      | SettledCancelled \<Rightarrow> \<exists>V'. at_turn S G spec A [] V' d \<and> vw_state V' = turn_state.Cancelled \<and> \<not> pending_in V'
      | FailedReconciliation \<Rightarrow> \<exists>V'. at_turn S G spec A [] V' d \<and> vw_state V' = turn_state.Failed \<and> \<not> unsettled_in V')"

lemma settled_view:
  assumes h: "history_facts S es p us" and V: "shows_turn spec A p V"
  shows "\<not> unsettled_in (settle_view V (pending_of spec p))"
    and "\<not> reconcile_later (pending_of spec p) \<Longrightarrow> \<not> pending_in (settle_view V (pending_of spec p))"
proof -
  note facts = pending_of_facts [OF h V]
  have cases: "(\<exists>v \<in> set (pending_of spec p). pv_invocation_id v = k \<and> s = settled_to (pv_state v)) \<or> inv_is_terminal s"
    if "vw_invocations (settle_view V (pending_of spec p)) k = Some s" for k s
  proof (cases "k \<in> pv_invocation_id ` set (pending_of spec p)")
    case True
    then show ?thesis using that settle_view_settled [OF facts(2)] by auto
  next
    case False
    then have "vw_invocations V k = Some s" using that settle_view_other by metis
    then show ?thesis using facts(3) False by blast
  qed
  show "\<not> unsettled_in (settle_view V (pending_of spec p))"
    using cases by (fastforce simp: unsettled_in_def settled_to_def inv_is_terminal_def split: if_splits)
  show "\<not> pending_in (settle_view V (pending_of spec p))" if "\<not> reconcile_later (pending_of spec p)"
    using cases that by (fastforce simp: pending_in_def reconcile_later_def settled_to_def inv_is_terminal_def split: if_splits)
qed

lemma settle_run:
  assumes own: "own_turn G spec"
  shows "valid_run S G (at_turn S G spec A [] V) (settle_interrupted_turn S spec) (settles S G spec A V)"
  unfolding settle_interrupted_turn_def
proof (rule run_runner_projection, rule run_history_facts)
  fix es p assume V: "shows_turn spec A p V" and h: "history_facts S es p []"
  note facts = pending_of_facts [OF h V]
  obtain t where t: "bt_get (pr_turns p) (tr_turn_id spec) = Some t" "tu_thread_id t = tr_thread_id spec" "tu_state t = vw_state V"
    using V by (auto simp: shows_turn_def)
  let ?ps = "pending_of spec p" and ?U = "\<forall>v \<in> set (pending_of spec p). pv_state v = invocation_state.Unknown"
  let ?V = "settle_view V ?ps" and ?b = "reconcile_later ?ps"
  let ?after = "\<lambda>b. abind (runner_projection S) (\<lambda>p'.
      abind (alift (ok_or (MissingTurn (tr_turn_id spec)) (map_option tu_state (bt_get (pr_turns p') (tr_turn_id spec))))) (\<lambda>current'.
      if current' \<noteq> Cancelling
      then (if ?ps = [] \<or> current' = turn_state.Failed \<and> ?U then areturn Unchanged else afail (UnexpectedState (tr_turn_id spec) Cancelling current'))
      else close_settled S spec (tu_agent_id t) b))"
  have pre: "at_history S G (\<lambda>_. True) es p [] d \<Longrightarrow> at_turn S G spec A [] V d" for d using V by (auto simp: at_turn_def)
  have turn: "ok_or (MissingTurn (tr_turn_id spec)) (bt_get (pr_turns p) (tr_turn_id spec)) = Ok t" using t(1) by (simp add: ok_or_def)
  have after: "valid_run S G (at_turn S G spec A [] ?V) (?after ?b) (settles S G spec A V)" if st: "vw_state V = Cancelling"
  proof (rule run_runner_projection)
    fix es' p' assume V': "shows_turn spec A p' ?V"
    then have found: "map_option tu_state (bt_get (pr_turns p') (tr_turn_id spec)) = Some Cancelling" using st by (auto simp: shows_turn_def)
    have close: "valid_run S G (at_turn S G spec A [] ?V) (close_settled S spec (tu_agent_id t) ?b) (settles S G spec A V)"
      by (rule run_post [OF close_settled_run [OF own]])
        (use st settled_view [OF h V] in \<open>auto simp: settles_def split: if_splits
           intro!: exI [of _ "settle_view V ?ps\<lparr>vw_state := s\<rparr>" for s]\<close>)
    show "valid_run S G (at_history S G (\<lambda>_. True) es' p' [])
      (abind (alift (ok_or (MissingTurn (tr_turn_id spec)) (map_option tu_state (bt_get (pr_turns p') (tr_turn_id spec))))) (\<lambda>current'.
      if current' \<noteq> Cancelling
      then (if ?ps = [] \<or> current' = turn_state.Failed \<and> ?U then areturn Unchanged else afail (UnexpectedState (tr_turn_id spec) Cancelling current'))
      else close_settled S spec (tu_agent_id t) ?b)) (settles S G spec A V)"
      unfolding found ok_or_def option.case abind_ok if_not_P [of "Cancelling \<noteq> Cancelling", simplified]
      by (simp, rule run_pre [OF close]) (use V' in \<open>auto simp: at_turn_def\<close>)
  qed
  have settle: "valid_run S G (at_turn S G spec A [] V) (abind (settle_invocations S ?ps) ?after) (settles S G spec A V)" if "vw_state V = Cancelling"
  proof (rule run_bind [OF settle_invocations_run [OF own facts(1,2)]])
    fix b
    show "valid_run S G (\<lambda>d. b = ?b \<and> at_turn S G spec A [] ?V d) (?after b) (settles S G spec A V)"
      by (rule run_known, erule ssubst, rule after [OF that])
  qed
  show "valid_run S G (at_history S G (\<lambda>_. True) es p [])
    (abind (alift (ok_or (MissingTurn (tr_turn_id spec)) (bt_get (pr_turns p) (tr_turn_id spec)))) (\<lambda>turn.
     if tu_thread_id turn \<noteq> tr_thread_id spec
     then afail (WrongThread (tr_turn_id spec) (tr_thread_id spec) (tu_thread_id turn))
     else
       let current = tu_state turn;
           pending = filter (\<lambda>v. of_turn spec v \<and> \<not> inv_is_terminal (pv_state v)) (bt_values (pr_invocations p));
           only_unknown = (\<forall>v \<in> set pending. pv_state v = invocation_state.Unknown) in
       if current \<noteq> Cancelling
       then
         if turn_is_terminal current
         then (if pending = [] \<or> current = turn_state.Failed \<and> only_unknown then areturn Unchanged
               else afail (UnexpectedState (tr_turn_id spec) Cancelling current))
         else if pending \<noteq> [] then afail (UnexpectedState (tr_turn_id spec) Cancelling current)
         else areturn Unchanged
       else
         abind (settle_invocations S pending) (\<lambda>requires_reconciliation.
         abind (runner_projection S) (\<lambda>p'.
         abind (alift (ok_or (MissingTurn (tr_turn_id spec)) (map_option tu_state (bt_get (pr_turns p') (tr_turn_id spec))))) (\<lambda>current'.
         if current' \<noteq> Cancelling
         then (if pending = [] \<or> current' = turn_state.Failed \<and> only_unknown then areturn Unchanged
               else afail (UnexpectedState (tr_turn_id spec) Cancelling current'))
         else close_settled S spec (tu_agent_id turn) requires_reconciliation))))) (settles S G spec A V)"
  proof (cases "vw_state V = Cancelling")
    case True
    show ?thesis unfolding turn abind_ok Let_def pending_of_def [symmetric] t(2,3) True simp_thms if_False
      by (rule run_pre [OF settle [OF True] pre])
  next
    case False
    show ?thesis unfolding turn abind_ok Let_def pending_of_def [symmetric] t(2,3)
      by (rule run_pre [OF _ pre]) (use False facts(4,5) in \<open>auto simp: settles_def intro!: run_if run_return turn_rules\<close>)
  qed
qed

end
