(* ===== verification/Turn_Rely.thy ===== *)
theory Turn_Rely
  imports Runner_Settlement
begin

text \<open>
  A run of a turn among the other tasks of the daemon, in the style of rely and guarantee. The
  rely is that the others append only what clients and other turns may append, and use no
  identifier that the run has drawn. What they can do to the view of the turn is
  \<open>others_view\<close>; an assertion between two steps of the run must be stable under it.
\<close>

section \<open>What the others do to a turn\<close>

definition by_others :: "'w service \<Rightarrow> turn_id \<Rightarrow> turn_id option \<Rightarrow> event \<Rightarrow> bool" where
  "by_others S u turn ev \<longleftrightarrow> turn \<noteq> Some u \<or> by_client S turn ev"

definition leaves_turn :: "'w service \<Rightarrow> turn_id \<Rightarrow> ('w daemon \<Rightarrow> 'w daemon) \<Rightarrow> bool" where
  "leaves_turn S u others \<longleftrightarrow>
     (\<forall>B F d. grown_ok S (Growth B F (by_others S u)) d \<longrightarrow> grown_ok S (Growth B F (by_others S u)) (others d))"

definition others_view :: "turn_view \<Rightarrow> turn_view \<Rightarrow> bool" where
  "others_view V V' \<longleftrightarrow>
     (vw_state V' = vw_state V \<or> \<not> turn_is_terminal (vw_state V) \<and> vw_state V' = Cancelling) \<and>
     (\<forall>k. vw_invocations V' k = vw_invocations V k \<or>
        vw_invocations V k = Some invocation_state.Unknown \<and> (\<exists>s. vw_invocations V' k = Some s \<and> inv_is_terminal s)) \<and>
     vw_requests V' = vw_requests V"

lemma others_view_refl [simp]: "others_view V V"
  by (simp add: others_view_def)

lemma others_view_trans:
  assumes "others_view U V" and "others_view V W"
  shows "others_view U W"
proof -
  have u: "\<not> inv_is_terminal invocation_state.Unknown" by (simp add: inv_is_terminal_def)
  have "vw_invocations W k = vw_invocations U k \<or>
      vw_invocations U k = Some invocation_state.Unknown \<and> (\<exists>s. vw_invocations W k = Some s \<and> inv_is_terminal s)" for k
    using assms u unfolding others_view_def by (metis option.inject)
  moreover have "vw_state W = vw_state U \<or> \<not> turn_is_terminal (vw_state U) \<and> vw_state W = Cancelling" "vw_requests W = vw_requests U"
    using assms by (auto simp: others_view_def)
  ultimately show ?thesis unfolding others_view_def by blast
qed

lemma terminal_final: "turn_is_terminal s \<Longrightarrow> \<not> can_transition_turn s t"
  by (simp add: can_transition_turn_def)

lemma reconciles_unknown: "can_reconcile_invocation s outcome \<Longrightarrow> s = invocation_state.Unknown \<and> inv_is_terminal (outcome_state outcome)"
  by (cases outcome) (auto simp: can_reconcile_invocation_def inv_is_terminal_def)

text \<open>The clients of a daemon that executes its turns.\<close>

lemma clients_leave_turn:
  assumes "\<And>B d. grown_ok S (by_clients S B) d \<Longrightarrow> grown_ok S (by_clients S B) (others d)"
  shows "leaves_turn S u others"
  unfolding leaves_turn_def
proof (intro allI impI)
  fix B F d assume "grown_ok S (Growth B F (by_others S u)) d"
  then obtain es p where h: "at_history S (Growth B F (by_others S u)) (\<lambda>_. True) es p [] d" by (auto simp: grown_ok_def)
  then have "grown_ok S (by_clients S (es, F)) d" using at_history_grown [OF h, of "by_clients S (es, F)"] by (auto simp: grown_ok_def)
  then obtain es' p' where h': "at_history S (by_clients S (es, F)) (\<lambda>_. True) es' p' [] (others d)"
    using assms [of "(es, F)" d] unfolding grown_ok_def by blast
  moreover have "grown (Growth B F (by_others S u)) es'"
    using h h' by (fastforce simp: at_history_def grown_def by_others_def)
  ultimately show "grown_ok S (Growth B F (by_others S u)) (others d)"
    using at_history_grown [OF h', of "Growth B F (by_others S u)"] by (auto simp: grown_ok_def)
qed

text \<open>One event of the others, and a whole history of them.\<close>

lemma others_state:
  assumes V: "shows_turn spec A p V" and ok: "apply_event X p env (en_event env) = (q, Ok ())"
    and ev: "by_others S (tr_turn_id spec) (en_turn_id env) (en_event env)" and exec: "sv_executes_turns S"
  shows "\<exists>t. bt_get (pr_turns q) (tr_turn_id spec) = Some t \<and> tu_thread_id t = tr_thread_id spec \<and>
    (tu_state t = vw_state V \<or> \<not> turn_is_terminal (vw_state V) \<and> tu_state t = Cancelling)"
  using assms terminal_final
  by (cases "en_event env") (auto simp: shows_turn_def by_others_def handler_defs Let_def changed_turn_def bt_contains_def split: if_splits option.splits)

lemma others_invocation:
  assumes V: "shows_turn spec A p V" and ok: "apply_event X p env (en_event env) = (q, Ok ())"
    and ev: "by_others S (tr_turn_id spec) (en_turn_id env) (en_event env)"
  shows "invocation_states spec q k = vw_invocations V k \<or>
    vw_invocations V k = Some invocation_state.Unknown \<and> (\<exists>s. invocation_states spec q k = Some s \<and> inv_is_terminal s)"
    and "bt_get (pr_invocations q) k = Some v \<Longrightarrow> of_turn spec v \<Longrightarrow> pv_agent_id v = A k"
proof -
  have I: "vw_invocations V = invocation_states spec p" using V by (simp add: shows_turn_def)
  show "invocation_states spec q k = vw_invocations V k \<or>
    vw_invocations V k = Some invocation_state.Unknown \<and> (\<exists>s. invocation_states spec q k = Some s \<and> inv_is_terminal s)"
    using ok ev reconciles_unknown unfolding I
    by (cases "en_event env") (auto simp: invocation_states_def of_turn_def by_others_def handler_defs wrong_parent_def Let_def bt_contains_def split: if_splits option.splits)
  show "bt_get (pr_invocations q) k = Some v \<Longrightarrow> of_turn spec v \<Longrightarrow> pv_agent_id v = A k"
    using V ok ev
    by (cases "en_event env") (auto simp: shows_turn_def of_turn_def by_others_def handler_defs wrong_parent_def Let_def bt_contains_def split: if_splits option.splits)
qed

lemma others_requests:
  assumes "apply_event X p env ev = (q, Ok ())" and "bt_get (pr_model_events p) r \<noteq> None"
  shows "bt_get (pr_model_events q) r \<noteq> None"
  using assms by (cases ev) (auto simp: handler_defs Let_def split: if_splits option.splits)

lemma others_step:
  assumes V: "shows_turn spec A p V" and ok: "apply_event X p env (en_event env) = (q, Ok ())"
    and ev: "by_others S (tr_turn_id spec) (en_turn_id env) (en_event env)" and exec: "sv_executes_turns S"
  shows "\<exists>V'. others_view V V' \<and> shows_turn spec A q V'"
proof -
  obtain t where t: "bt_get (pr_turns q) (tr_turn_id spec) = Some t" "tu_thread_id t = tr_thread_id spec"
      "tu_state t = vw_state V \<or> \<not> turn_is_terminal (vw_state V) \<and> tu_state t = Cancelling"
    using others_state [OF assms] by blast
  let ?V = "\<lparr>vw_state = tu_state t, vw_invocations = invocation_states spec q, vw_requests = vw_requests V\<rparr>"
  have "others_view V ?V" using t(3) others_invocation(1) [OF V ok ev] by (simp add: others_view_def)
  moreover have "shows_turn spec A q ?V"
    using t V others_invocation(2) [OF V ok ev] others_requests [OF ok] by (auto simp: shows_turn_def)
  ultimately show ?thesis by blast
qed

lemma others_history:
  assumes "replay X es = Ok p" and "replay X (es @ ds) = Ok q" and "shows_turn spec A p V"
    and "\<forall>d \<in> set ds. by_others S (tr_turn_id spec) (en_turn_id d) (en_event d)" and exec: "sv_executes_turns S"
  shows "\<exists>V'. others_view V V' \<and> shows_turn spec A q V'"
  using assms
proof (induction ds arbitrary: q rule: rev_induct)
  case Nil
  then show ?case by (intro exI [of _ V]) simp
next
  case (snoc env ds)
  then obtain q1 where q1: "replay X (es @ ds) = Ok q1" "apply_step X q1 env = Ok q"
    unfolding append_assoc [symmetric] replay_def replays.run_snoc by (auto simp: rbind_eq_Inr)
  then obtain q' where q': "apply_event X q1 env (en_event env) = (q', Ok ())" "q = record_event q' env"
    by (auto simp: apply_step_Ok)
  obtain V1 where V1: "others_view V V1" "shows_turn spec A q1 V1" using snoc.IH [OF snoc.prems(1) q1(1)] snoc.prems by auto
  obtain V2 where "others_view V1 V2" "shows_turn spec A q' V2"
    using others_step [OF V1(2) q'(1) _ exec] snoc.prems(4) by auto
  then show ?case using others_view_trans [OF V1(1)] q'(2) by auto
qed

section \<open>Steps of a run\<close>

text \<open>The daemon between two steps, with the identifiers that the run has drawn.\<close>

abbreviation keeping :: "uuid set \<Rightarrow> growth" where
  "keeping F \<equiv> Growth [] F (\<lambda>_ _. True)"

lemma own_keeping [simp]: "own_turn (keeping F) spec"
  by (simp add: own_turn_def)

lemma at_history_private:
  assumes "at_history S (keeping F) R es p [] d" and "distinct us" and "set us \<subseteq> F"
  shows "at_history S (keeping (F - set us)) R es p us d"
proof -
  have "F \<inter> used es = {}" and future: "\<And>k u. dm_ids d \<le> k \<Longrightarrow> sv_ids S k = Ok u \<Longrightarrow> u \<notin> used es \<union> F"
    using assms(1) unfolding at_history_def by auto
  then have "set us \<inter> used es = {}" "(F - set us) \<inter> (used es \<union> set us) = {}" "used es \<union> set us \<union> (F - set us) = used es \<union> F"
    using assms(3) by blast+
  then show ?thesis using assms(1,2) future unfolding at_history_def by (simp add: grown_def)
qed

lemma at_history_reserve:
  assumes "at_history S (keeping F) R es p us d"
  shows "at_history S (keeping (F \<union> set us)) R es p [] d"
proof -
  have "(F \<union> set us) \<inter> used es = {}" and "\<And>k u. dm_ids d \<le> k \<Longrightarrow> sv_ids S k = Ok u \<Longrightarrow> u \<notin> used es \<union> (F \<union> set us)"
    using assms unfolding at_history_def by auto
  then show ?thesis using assms unfolding at_history_def by (simp add: grown_def)
qed

lemma at_turn_private:
  "at_turn S (keeping F) spec A [] V d \<Longrightarrow> distinct us \<Longrightarrow> set us \<subseteq> F \<Longrightarrow> at_turn S (keeping (F - set us)) spec A us V d"
  unfolding at_turn_def using at_history_private by blast

lemma at_turn_reserve: "at_turn S (keeping F) spec A us V d \<Longrightarrow> at_turn S (keeping (F \<union> set us)) spec A [] V d"
  unfolding at_turn_def using at_history_reserve by blast

lemma at_turn_fresh: "at_turn S (keeping F) spec A us V d \<Longrightarrow> set us \<inter> F = {}"
  by (auto simp: at_turn_def at_history_def)

lemma at_turn_less: "at_turn S (keeping F) spec A us V d \<Longrightarrow> F' \<subseteq> F \<Longrightarrow> at_turn S (keeping F') spec A us V d"
  unfolding at_turn_def by (metis at_history_grown grown_any growth.sel(2))

lemma at_history_projects: "at_history S G R es p us d \<Longrightarrow> project_core (sv_codec S) (sv_externals S) (dm_ledger d) = Ok p"
  using project_core_eq [of "sv_codec S" "sv_externals S" UNIV "dm_ledger d" es] by (simp add: at_history_def)

definition rely :: "'w service \<Rightarrow> turn_id \<Rightarrow> 'w surroundings \<Rightarrow> bool" where
  "rely S u E \<longleftrightarrow> sv_executes_turns S \<and> (\<forall>n. leaves_turn S u (su_step E n))"

lemma surroundings_step:
  assumes E: "rely S (tr_turn_id spec) E" and d: "at_turn S (keeping F) spec A [] V d"
  shows "\<exists>V'. others_view V V' \<and> at_turn S (keeping F) spec A [] V' (su_step E n d)"
proof -
  let ?G = "\<lambda>es. Growth es F (by_others S (tr_turn_id spec))"
  obtain es p where h: "at_history S (keeping F) (\<lambda>_. True) es p [] d" and V: "shows_turn spec A p V"
    using d by (auto simp: at_turn_def)
  then have "grown_ok S (?G es) d" using at_history_grown [OF h, of "?G es"] by (auto simp: grown_ok_def)
  then obtain es' p' where h': "at_history S (?G es) (\<lambda>_. True) es' p' [] (su_step E n d)"
    using E unfolding rely_def leaves_turn_def grown_ok_def by blast
  then obtain ds where "es' = es @ ds" "\<forall>e \<in> set ds. by_others S (tr_turn_id spec) (en_turn_id e) (en_event e)"
    by (auto simp: at_history_def grown_def)
  then obtain V' where "others_view V V'" "shows_turn spec A p' V'"
    using others_history [OF _ _ V, of "sv_externals S" es ds p' S] h h' E by (auto simp: at_history_def rely_def)
  moreover have "at_history S (keeping F) (\<lambda>_. True) es' p' [] (su_step E n d)"
    using at_history_grown [OF h', of "keeping F"] by simp
  ultimately show ?thesis by (auto simp: at_turn_def)
qed

text \<open>From \<open>P\<close> the run ends in \<open>Q\<close>, or fails in \<open>X\<close>.\<close>

definition valid_turn ::
  "(('w, 'c) running \<Rightarrow> bool) \<Rightarrow> ('w, 'c, 'a) turn_run \<Rightarrow> ('a \<Rightarrow> ('w, 'c) running \<Rightarrow> bool) \<Rightarrow> (('w, 'c) running \<Rightarrow> bool) \<Rightarrow> bool" where
  "valid_turn P m Q X \<longleftrightarrow> (\<forall>r r' y. P r \<longrightarrow> m r = (r', y) \<longrightarrow> (case y of Inl _ \<Rightarrow> X r' | Inr x \<Rightarrow> Q x r'))"

lemma turn_bind:
  assumes "valid_turn P m R X" and "\<And>x. valid_turn (R x) (f x) Q X"
  shows "valid_turn P (abind m f) Q X"
  unfolding valid_turn_def
proof (intro allI impI)
  fix r r' y assume r: "P r" and run: "abind m f r = (r', y)"
  obtain r1 y1 where m: "m r = (r1, y1)" by fastforce
  then have one: "case y1 of Inl _ \<Rightarrow> X r1 | Inr x \<Rightarrow> R x r1" using assms(1) r by (auto simp: valid_turn_def split: sum.splits)
  show "case y of Inl _ \<Rightarrow> X r' | Inr x \<Rightarrow> Q x r'"
  proof (cases y1)
    case (Inl e)
    then show ?thesis using one run m by (auto simp: abind_def)
  next
    case (Inr x)
    then have "R x r1" and "f x r1 = (r', y)" using one run m by (auto simp: abind_def)
    then show ?thesis using assms(2) unfolding valid_turn_def by blast
  qed
qed

lemma turn_post: "valid_turn P m Q X \<Longrightarrow> (\<And>x r. Q x r \<Longrightarrow> R x r) \<Longrightarrow> valid_turn P m R X"
  by (force simp: valid_turn_def split: sum.splits)

lemma turn_pre: "valid_turn P m Q X \<Longrightarrow> (\<And>r. R r \<Longrightarrow> P r) \<Longrightarrow> valid_turn R m Q X"
  by (auto simp: valid_turn_def)

lemma turn_error: "valid_turn P m Q X \<Longrightarrow> (\<And>r. X r \<Longrightarrow> Y r) \<Longrightarrow> valid_turn P m Q Y"
  by (force simp: valid_turn_def split: sum.splits)

lemma turn_return: "(\<And>r. P r \<Longrightarrow> Q x r) \<Longrightarrow> valid_turn P (areturn x) Q X"
  by (auto simp: valid_turn_def areturn_def)

lemma turn_fail: "(\<And>r. P r \<Longrightarrow> X r) \<Longrightarrow> valid_turn P (afail e) Q X"
  by (auto simp: valid_turn_def afail_def)

lemma turn_lift: "(\<And>r. P r \<Longrightarrow> X r) \<Longrightarrow> valid_turn P (alift y) (\<lambda>x r. y = Ok x \<and> P r) X"
  by (auto simp: valid_turn_def alift_def split: sum.splits)

lemma turn_if: "(b \<Longrightarrow> valid_turn P m Q X) \<Longrightarrow> (\<not> b \<Longrightarrow> valid_turn P n Q X) \<Longrightarrow> valid_turn P (if b then m else n) Q X"
  by simp

lemma turn_catch: "valid_turn P m Q X \<Longrightarrow> valid_turn P (catch m) (\<lambda>y r. case y of Inl _ \<Rightarrow> X r | Inr x \<Rightarrow> Q x r) Y"
  by (auto simp: valid_turn_def catch_def split: prod.splits)

lemma turn_known: "(b \<Longrightarrow> valid_turn P m Q X) \<Longrightarrow> valid_turn (\<lambda>r. b \<and> P r) m Q X"
  by (cases b) (simp_all add: valid_turn_def)

lemma turn_option:
  "(v = None \<Longrightarrow> valid_turn P m Q X) \<Longrightarrow> (\<And>x. v = Some x \<Longrightarrow> valid_turn P (f x) Q X) \<Longrightarrow>
   valid_turn P (case v of None \<Rightarrow> m | Some x \<Rightarrow> f x) Q X"
  by (cases v) auto

lemma turn_sum:
  "(\<And>e. v = Inl e \<Longrightarrow> valid_turn P (g e) Q X) \<Longrightarrow> (\<And>x. v = Inr x \<Longrightarrow> valid_turn P (f x) Q X) \<Longrightarrow>
   valid_turn P (case v of Inl e \<Rightarrow> g e | Inr x \<Rightarrow> f x) Q X"
  by (cases v) auto

lemma turn_sum_pre:
  "(\<And>e. valid_turn (P e) (g e) Q X) \<Longrightarrow> (\<And>x. valid_turn (R x) (f x) Q X) \<Longrightarrow>
   valid_turn (\<lambda>r. case v of Inl e \<Rightarrow> P e r | Inr x \<Rightarrow> R x r) (case v of Inl e \<Rightarrow> g e | Inr x \<Rightarrow> f x) Q X"
  by (cases v) auto

lemma turn_ex: "(\<And>x. valid_turn (P x) m Q X) \<Longrightarrow> valid_turn (\<lambda>r. \<exists>x. P x r) m Q X"
  unfolding valid_turn_def by blast

text \<open>A phase that stops the turn, or goes on.\<close>

definition ends ::
  "(turn_run_result \<Rightarrow> ('w, 'c) running \<Rightarrow> bool) \<Rightarrow> ('a \<Rightarrow> ('w, 'c) running \<Rightarrow> bool) \<Rightarrow> 'a phase \<Rightarrow> ('w, 'c) running \<Rightarrow> bool" where
  "ends Z Q p = (case p of Stop result \<Rightarrow> Z result | Go x \<Rightarrow> Q x)"

lemma ends_simps [simp]: "ends Z Q (Stop result) = Z result" "ends Z Q (Go x) = Q x"
  by (simp_all add: ends_def)

lemma turn_proceed:
  assumes "valid_turn P m (ends Z Q) X" and "\<And>x. valid_turn (Q x) (f x) (ends Z R) X"
  shows "valid_turn P (proceed m f) (ends Z R) X"
  unfolding proceed_def
proof (rule turn_bind [OF assms(1)])
  fix p show "valid_turn (ends Z Q p) (case p of Stop result \<Rightarrow> areturn (Stop result) | Go x \<Rightarrow> f x) (ends Z R) X"
    using assms(2) by (cases p) (auto intro: turn_return)
qed

lemma turn_stop: "valid_turn P m Z X \<Longrightarrow> valid_turn P (stop m) (ends Z R) X"
  unfolding stop_def by (erule turn_bind) (simp add: turn_return)

text \<open>
  The turn is in a view that \<open>K\<close> accepts, the run keeps the identifiers \<open>F\<close>, and it has its
  pipeline when \<open>T\<close> holds. When a worker was spawned, the ledger said that its invocation had
  started (\<open>begun\<close>).
\<close>

definition stable :: "(turn_view \<Rightarrow> bool) \<Rightarrow> bool" where
  "stable K \<longleftrightarrow> (\<forall>V V'. K V \<longrightarrow> others_view V V' \<longrightarrow> K V')"

definition begun :: "'w service \<Rightarrow> turn_run_spec \<Rightarrow> 'w spawned \<Rightarrow> bool" where
  "begun S spec x \<longleftrightarrow>
     (case project_core (sv_codec S) (sv_externals S) (dm_ledger (sw_daemon x)) of
        Inl _ \<Rightarrow> False
      | Inr p \<Rightarrow>
          (case bt_get (pr_invocations p) (wo_invocation (sw_worker x)) of
             None \<Rightarrow> False
           | Some v \<Rightarrow> of_turn spec v \<and> pv_state v = Started))"

definition turn_at ::
  "'w service \<Rightarrow> turn_run_spec \<Rightarrow> (invocation_id \<Rightarrow> agent_id) \<Rightarrow> bool \<Rightarrow> uuid set \<Rightarrow> (turn_view \<Rightarrow> bool) \<Rightarrow> ('w, 'c) running \<Rightarrow> bool" where
  "turn_at S spec A T F K r \<longleftrightarrow>
     (T \<longrightarrow> rn_pipeline r \<noteq> None) \<and> (\<forall>x \<in> set (rn_workers r). begun S spec x) \<and> (\<exists>V. at_turn S (keeping F) spec A [] V (rn_daemon r) \<and> K V)"

definition sound :: "'w service \<Rightarrow> turn_run_spec \<Rightarrow> ('w, 'c) running \<Rightarrow> bool" where
  "sound S spec r \<longleftrightarrow> daemon_ok S (rn_daemon r) \<and> (\<forall>x \<in> set (rn_workers r). begun S spec x)"

lemma turn_at_sound: "turn_at S spec A T F K r \<Longrightarrow> sound S spec r"
  by (auto simp: turn_at_def sound_def dest: at_turn_ok grown_ok_sound)

lemma turn_at_weaken: "turn_at S spec A T F K r \<Longrightarrow> (\<And>V. K V \<Longrightarrow> K' V) \<Longrightarrow> F' \<subseteq> F \<Longrightarrow> (T' \<Longrightarrow> T) \<Longrightarrow> turn_at S spec A T' F' K' r"
  unfolding turn_at_def using at_turn_less by blast

lemma turn_locked:
  assumes E: "rely S (tr_turn_id spec) E" and K: "stable K" and us: "distinct us" "set us \<subseteq> F"
    and m: "\<And>V. K V \<Longrightarrow> valid_run S (keeping (F - set us)) (at_turn S (keeping (F - set us)) spec A us V) m
      (\<lambda>x d. \<exists>V'. at_turn S (keeping (F - set us)) spec A [] V' d \<and> K' x V')"
  shows "valid_turn (turn_at S spec A T F K) (locked E m) (\<lambda>x. turn_at S spec A T (F - set us) (K' x)) (sound S spec)"
  unfolding valid_turn_def
proof (intro allI impI)
  fix r r' y assume r: "turn_at S spec A T F K r" and run: "locked E m r = (r', y)"
  let ?d = "su_step E (rn_tick r) (rn_daemon r)"
  obtain V where "at_turn S (keeping F) spec A [] V (rn_daemon r)" "K V" using r by (auto simp: turn_at_def)
  with surroundings_step [OF E] K obtain V' where "at_turn S (keeping F) spec A [] V' ?d" "K V'" unfolding stable_def by meson
  moreover obtain d where d: "m ?d = (d, y)" "r' = r\<lparr>rn_daemon := d, rn_tick := Suc (rn_tick r)\<rparr>"
    using run by (auto simp: locked_def split: prod.splits)
  ultimately have "case y of Inl _ \<Rightarrow> grown_ok S (keeping (F - set us)) d | Inr x \<Rightarrow> \<exists>V'. at_turn S (keeping (F - set us)) spec A [] V' d \<and> K' x V'"
    using valid_runD [OF m at_turn_private [OF _ us] d(1)] by blast
  with d(2) show "case y of Inl _ \<Rightarrow> sound S spec r' | Inr x \<Rightarrow> turn_at S spec A T (F - set us) (K' x) r'"
    using r by (auto simp: sound_def turn_at_def split: sum.splits dest: grown_ok_sound)
qed

lemmas turn_step = turn_locked [where us = "[]", simplified]

text \<open>Steps that only read, or draw an identifier.\<close>

lemma turn_read:
  assumes E: "rely S (tr_turn_id spec) E" and K: "stable K" and m: "\<And>d. \<exists>w y. m d = (d\<lparr>dm_world := w\<rparr>, y)"
  shows "valid_turn (turn_at S spec A T F K) (locked E m) (\<lambda>_. turn_at S spec A T F K) (turn_at S spec A T F K)"
  unfolding valid_turn_def
proof (intro allI impI)
  fix r r' y assume r: "turn_at S spec A T F K r" and run: "locked E m r = (r', y)"
  obtain V where "at_turn S (keeping F) spec A [] V (rn_daemon r)" "K V" using r by (auto simp: turn_at_def)
  with surroundings_step [OF E] K obtain V' where "at_turn S (keeping F) spec A [] V' (su_step E (rn_tick r) (rn_daemon r))" "K V'"
    unfolding stable_def by meson
  moreover obtain w y' where "m (su_step E (rn_tick r) (rn_daemon r)) = ((su_step E (rn_tick r) (rn_daemon r))\<lparr>dm_world := w\<rparr>, y')" using m by blast
  ultimately have "turn_at S spec A T F K r'" using r run by (auto simp: locked_def turn_at_def)
  then show "case y of Inl _ \<Rightarrow> turn_at S spec A T F K r' | Inr x \<Rightarrow> turn_at S spec A T F K r'" by (simp split: sum.splits)
qed

lemma turn_uuid:
  assumes E: "rely S (tr_turn_id spec) E" and K: "stable K"
  shows "valid_turn (turn_at S spec A T F K) (locked E (runner_uuid S)) (\<lambda>u r. u \<notin> F \<and> turn_at S spec A T (insert u F) K r) (sound S spec)"
  unfolding valid_turn_def
proof (intro allI impI)
  fix r r' y assume r: "turn_at S spec A T F K r" and run: "locked E (runner_uuid S) r = (r', y)"
  let ?d = "su_step E (rn_tick r) (rn_daemon r)"
  obtain V where "at_turn S (keeping F) spec A [] V (rn_daemon r)" "K V" using r by (auto simp: turn_at_def)
  with surroundings_step [OF E] K obtain V' where V': "at_turn S (keeping F) spec A [] V' ?d" "K V'" unfolding stable_def by meson
  have "valid_run S (keeping F) (at_turn S (keeping F) spec A [] V') (abind (runner_uuid S) areturn) (\<lambda>u. at_turn S (keeping F) spec A [u] V')"
    by (intro turn_rules run_return)
  moreover have "abind (runner_uuid S) areturn = runner_uuid S" by (auto simp: abind_def areturn_def fun_eq_iff split: prod.splits sum.splits)
  moreover obtain d where "runner_uuid S ?d = (d, y)" "r' = r\<lparr>rn_daemon := d, rn_tick := Suc (rn_tick r)\<rparr>"
    using run by (auto simp: locked_def split: prod.splits)
  ultimately have "case y of Inl _ \<Rightarrow> grown_ok S (keeping F) d | Inr u \<Rightarrow> at_turn S (keeping F) spec A [u] V' d"
    using V'(1) unfolding valid_run_def by auto
  then show "case y of Inl _ \<Rightarrow> sound S spec r' | Inr u \<Rightarrow> u \<notin> F \<and> turn_at S spec A T (insert u F) K r'"
    using \<open>r' = _\<close> r V'(2) at_turn_fresh [of S F spec A] at_turn_reserve [of S F spec A]
    by (fastforce simp: sound_def turn_at_def split: sum.splits dest: grown_ok_sound)
qed

text \<open>Steps that do not touch the daemon.\<close>

lemma turn_local:
  assumes "\<And>r. \<exists>r' x. m r = (r', Ok x) \<and> rn_daemon r' = rn_daemon r \<and> rn_workers r' = rn_workers r \<and> (rn_pipeline r \<noteq> None \<longrightarrow> rn_pipeline r' \<noteq> None)"
  shows "valid_turn (turn_at S spec A T F K) m (\<lambda>_. turn_at S spec A T F K) X"
  unfolding valid_turn_def
proof (intro allI impI)
  fix r r' y assume "turn_at S spec A T F K r" and "m r = (r', y)"
  with assms [of r] show "case y of Inl _ \<Rightarrow> X r' | Inr x \<Rightarrow> turn_at S spec A T F K r'" by (auto simp: turn_at_def)
qed

end
