(* ===== verification/Turn_Safety.thy ===== *)
theory Turn_Safety
  imports Turn_Rely
begin

text \<open>
  What a run of a turn leaves behind. Between two steps the run knows the states of the
  invocations it still has to settle (\<open>tracked\<close>); every other invocation of its turn has
  ended. With this the result that a run reports is the state that the ledger holds.
\<close>

section \<open>What the run knows\<close>

definition fits :: "invocation_state option \<Rightarrow> invocation_state option \<Rightarrow> bool" where
  "fits known actual \<longleftrightarrow>
     (case known of
        None \<Rightarrow> \<forall>s. actual = Some s \<longrightarrow> inv_is_terminal s
      | Some s \<Rightarrow> actual = Some s \<or> s = invocation_state.Unknown \<and> (\<exists>s'. actual = Some s' \<and> inv_is_terminal s'))"

definition tracked :: "(invocation_id \<rightharpoonup> invocation_state) \<Rightarrow> turn_view \<Rightarrow> bool" where
  "tracked m V \<longleftrightarrow> (\<forall>k. fits (m k) (vw_invocations V k))"

definition holding :: "(invocation_id \<rightharpoonup> invocation_state) \<Rightarrow> model_request_id set \<Rightarrow> turn_view \<Rightarrow> bool" where
  "holding m q V \<longleftrightarrow> tracked m V \<and> q \<subseteq> vw_requests V"

lemma unknown_open [simp]: "\<not> inv_is_terminal invocation_state.Unknown"
  by (simp add: inv_is_terminal_def)

lemma fits_simps [simp]:
  "fits (Some s) (Some s)" "inv_is_terminal s \<Longrightarrow> fits None (Some s)" "fits None None"
  "s \<noteq> invocation_state.Unknown \<Longrightarrow> fits (Some s) a \<longleftrightarrow> a = Some s"
  by (auto simp: fits_def)

lemma fits_others:
  "fits known a \<Longrightarrow> b = a \<or> a = Some invocation_state.Unknown \<and> (\<exists>s. b = Some s \<and> inv_is_terminal s) \<Longrightarrow> fits known b"
  by (auto simp: fits_def split: option.splits)

lemma tracked_others: "tracked m V \<Longrightarrow> others_view V V' \<Longrightarrow> tracked m V'"
  unfolding tracked_def others_view_def using fits_others by blast

lemma holding_stable [simp]: "stable (holding m q)"
  unfolding stable_def holding_def using tracked_others by (auto simp: others_view_def)

lemma tracked_update [simp]: "tracked m (V\<lparr>vw_state := s\<rparr>) = tracked m V" "tracked m (V\<lparr>vw_requests := q\<rparr>) = tracked m V"
  by (simp_all add: tracked_def)

lemma holding_state [simp]: "holding m q (V\<lparr>vw_state := s\<rparr>) = holding m q V"
  by (simp add: holding_def)

lemma tracked_empty: "tracked Map.empty V \<longleftrightarrow> \<not> pending_in V"
  by (auto simp: tracked_def pending_in_def fits_def)

lemma trackedD: "tracked m V \<Longrightarrow> m i = Some s \<Longrightarrow> s \<noteq> invocation_state.Unknown \<Longrightarrow> vw_invocations V i = Some s"
  unfolding tracked_def by (metis fits_simps(4))

lemma tracked_step:
  assumes "tracked m V"
  shows "tracked (m(i \<mapsto> to)) (with_invocation V i to)" and "inv_is_terminal to \<Longrightarrow> tracked (m(i := None)) (with_invocation V i to)"
  using assms by (auto simp: tracked_def)

lemma holding_step:
  assumes "holding m q V"
  shows "holding (m(i \<mapsto> to)) q (with_invocation V i to)" and "inv_is_terminal to \<Longrightarrow> holding (m(i := None)) q (with_invocation V i to)"
  using assms tracked_step [of m V] by (auto simp: holding_def)

lemma holdingD: "holding m q V \<Longrightarrow> m i = Some s \<Longrightarrow> s \<noteq> invocation_state.Unknown \<Longrightarrow> vw_invocations V i = Some s"
  using trackedD by (auto simp: holding_def)

lemma tracked_propose:
  "tracked m V \<Longrightarrow> tracked (\<lambda>k. if k \<in> set ids then Some Proposed else m k) (propose V ids)"
  by (auto simp: tracked_def)

text \<open>The invocations of a list, each in the state that a function gives.\<close>

abbreviation over ::
  "(invocation_id \<rightharpoonup> invocation_state) \<Rightarrow> (pending_invocation \<Rightarrow> invocation_state) \<Rightarrow> pending_invocation list \<Rightarrow> invocation_id \<rightharpoonup> invocation_state" where
  "over m f vs \<equiv> m ++ map_of (map (\<lambda>v. (pd_invocation_id v, f v)) vs)"

lemma over_other: "i \<notin> pd_invocation_id ` set vs \<Longrightarrow> (over m f vs)(i := x) = over (m(i := x)) f vs"
proof
  fix k assume i: "i \<notin> pd_invocation_id ` set vs"
  have "map_of (map (\<lambda>v. (pd_invocation_id v, f v)) vs) i = None" using i by (auto simp: map_of_eq_None_iff)
  then show "((over m f vs)(i := x)) k = over (m(i := x)) f vs k" by (auto simp: map_add_def split: option.splits)
qed

lemma over_head:
  "pd_invocation_id v \<notin> pd_invocation_id ` set vs \<Longrightarrow> (over m f (v # vs))(pd_invocation_id v := x) = over (m(pd_invocation_id v := x)) f vs"
  using over_other [of "pd_invocation_id v" vs m f x] by simp

lemma over_cons:
  assumes "pd_invocation_id v \<notin> pd_invocation_id ` set vs"
  shows "over (m(pd_invocation_id v \<mapsto> f v)) f vs = over m f (v # vs)"
  using over_other [OF assms, of m f "Some (f v)"] by simp

lemma over_const: "(\<lambda>k. if k \<in> set (map pd_invocation_id vs) then Some s else m k) = over m (\<lambda>_. s) vs"
proof
  fix k
  have "map_of (map (\<lambda>v. (pd_invocation_id v, s)) vs) k = (if k \<in> pd_invocation_id ` set vs then Some s else None)"
    by (induction vs) auto
  then show "(if k \<in> set (map pd_invocation_id vs) then Some s else m k) = over m (\<lambda>_. s) vs k" by (simp add: map_add_def)
qed

section \<open>Results\<close>

text \<open>What a result of the run says about the turn.\<close>

fun reports :: "turn_run_result \<Rightarrow> turn_view \<Rightarrow> bool" where
  "reports (RunCompleted _ _) V \<longleftrightarrow> vw_state V = turn_state.Completed \<and> \<not> pending_in V"
| "reports (RunFailed _ _) V \<longleftrightarrow> vw_state V = turn_state.Failed \<and> \<not> unsettled_in V"
| "reports (RunCancelled _) V \<longleftrightarrow> vw_state V = Cancelling \<or> vw_state V = turn_state.Cancelled \<and> \<not> pending_in V"

definition turn_ends :: "'w service \<Rightarrow> turn_run_spec \<Rightarrow> turn_run_result \<Rightarrow> ('w, 'c) running \<Rightarrow> bool" where
  "turn_ends S spec result r \<longleftrightarrow> (\<exists>A. turn_at S spec A False {} (reports result) r)"

lemma unfinished_others:
  assumes "others_view V V'"
  shows "\<not> pending_in V \<Longrightarrow> \<not> pending_in V'" and "\<not> unsettled_in V \<Longrightarrow> \<not> unsettled_in V'"
proof -
  have "vw_invocations V' k = vw_invocations V k \<or>
      vw_invocations V k = Some invocation_state.Unknown \<and> (\<exists>s. vw_invocations V' k = Some s \<and> inv_is_terminal s)" for k
    using assms by (simp add: others_view_def)
  then show "\<not> pending_in V \<Longrightarrow> \<not> pending_in V'" "\<not> unsettled_in V \<Longrightarrow> \<not> unsettled_in V'"
    unfolding pending_in_def unsettled_in_def by (metis option.inject unknown_open)+
qed

lemma reports_stable: "stable (reports result)"
  unfolding stable_def
proof (intro allI impI)
  fix V V' assume V: "reports result V" and o: "others_view V V'"
  then have "vw_state V' = vw_state V \<or> \<not> turn_is_terminal (vw_state V) \<and> vw_state V' = Cancelling" by (simp add: others_view_def)
  with V unfinished_others [OF o] show "reports result V'" by (cases result) (auto simp: turn_is_terminal_def)
qed

abbreviation run_at ::
  "'w service \<Rightarrow> run_context \<Rightarrow> bool \<Rightarrow> uuid set \<Rightarrow> (invocation_id \<rightharpoonup> invocation_state) \<Rightarrow> model_request_id set \<Rightarrow> ('w, 'c) running \<Rightarrow> bool" where
  "run_at S ctx T F m q \<equiv> turn_at S (rc_spec ctx) (\<lambda>_. rc_agent_id ctx) T F (holding m q)"

section \<open>The operations of a run\<close>

lemma step_transition:
  assumes "rely S (rc_turn ctx) E" and "can_transition_turn frm to"
  shows "valid_turn (run_at S ctx T F m q) (locked E (transition_turn S ctx frm to reason)) (\<lambda>_. run_at S ctx T F m q) (sound S (rc_spec ctx))"
  unfolding transition_turn_def
  by (rule turn_step [OF assms(1) holding_stable], rule run_post [OF transition_run [OF own_keeping assms(2)]]) (auto intro: holding_state [THEN iffD2])

lemma step_read:
  assumes "rely S (rc_turn ctx) E" and "\<And>d. \<exists>w y. op d = (d\<lparr>dm_world := w\<rparr>, y)"
  shows "valid_turn (run_at S ctx T F m q) (locked E op) (\<lambda>_. run_at S ctx T F m q) (sound S (rc_spec ctx))"
  by (rule turn_error [OF turn_read [OF assms(1) holding_stable assms(2)] turn_at_sound])

lemma unchanged_world: "d = d\<lparr>dm_world := dm_world d\<rparr>"
  by simp

lemma step_cancelled:
  assumes "rely S (rc_turn ctx) E"
  shows "valid_turn (run_at S ctx T F m q) (cancelled E ctx) (\<lambda>_. run_at S ctx T F m q) (sound S (rc_spec ctx))"
  unfolding cancelled_def by (rule step_read [OF assms]) (metis unchanged_world)

lemma step_world:
  assumes "rely S (rc_turn ctx) E"
  shows "valid_turn (run_at S ctx T F m q) (read_world E) (\<lambda>_. run_at S ctx T F m q) (sound S (rc_spec ctx))"
  unfolding read_world_def by (rule step_read [OF assms]) (metis unchanged_world)

lemma step_now:
  assumes "rely S (rc_turn ctx) E"
  shows "valid_turn (run_at S ctx T F m q) (locked E (runner_now S)) (\<lambda>_. run_at S ctx T F m q) (sound S (rc_spec ctx))"
  by (rule turn_step [OF assms holding_stable]) (auto simp: valid_run_def runner_now_def)

lemma step_invocation:
  assumes "rely S (rc_turn ctx) E" and "m i = Some frm" and "frm \<noteq> invocation_state.Unknown" and "always_allowed frm to"
  shows "valid_turn (run_at S ctx T F m q) (locked E (persist_invocation_transition S ctx i frm to reason)) (\<lambda>_. run_at S ctx T F (m(i \<mapsto> to)) q) (sound S (rc_spec ctx))"
proof (rule turn_step [OF assms(1) holding_stable])
  fix V assume V: "holding m q V"
  then have "vw_invocations V i = Some frm" using holdingD assms(2,3) by blast
  from persist_invocation_transition_run [OF own_keeping this assms(4)]
  show "valid_run S (keeping F) (at_ctx S (keeping F) ctx [] V) (persist_invocation_transition S ctx i frm to reason)
      (\<lambda>_ d. \<exists>V'. at_ctx S (keeping F) ctx [] V' d \<and> holding (m(i \<mapsto> to)) q V')"
    by (rule run_post) (use holding_step(1) [OF V] in blast)
qed

lemma step_outcome:
  assumes "rely S (rc_turn ctx) E" and "m (pd_invocation_id v) = Some frm" and "frm \<noteq> invocation_state.Unknown"
    and "always_allowed frm terminal" and "inv_is_terminal terminal"
  shows "valid_turn (run_at S ctx T F m q) (locked E (persist_invocation_outcome S ctx v terminal frm result is_error reason))
    (\<lambda>_. run_at S ctx T F (m(pd_invocation_id v := None)) q) (sound S (rc_spec ctx))"
proof (rule turn_step [OF assms(1) holding_stable])
  fix V assume V: "holding m q V"
  then have "vw_invocations V (pd_invocation_id v) = Some frm" using holdingD assms(2,3) by blast
  from persist_outcome_run [OF own_keeping this assms(4)]
  show "valid_run S (keeping F) (at_ctx S (keeping F) ctx [] V) (persist_invocation_outcome S ctx v terminal frm result is_error reason)
      (\<lambda>_ d. \<exists>V'. at_ctx S (keeping F) ctx [] V' d \<and> holding (m(pd_invocation_id v := None)) q V')"
    by (rule run_post) (use holding_step(2) [OF V assms(5)] in blast)
qed

lemma step_unknown:
  assumes "rely S (rc_turn ctx) E" and "m (pd_invocation_id v) = Some Started"
  shows "valid_turn (run_at S ctx T F m q) (locked E (persist_invocation_unknown_outcome S ctx v result is_error reason))
    (\<lambda>_. run_at S ctx T F (m(pd_invocation_id v \<mapsto> invocation_state.Unknown)) q) (sound S (rc_spec ctx))"
proof (rule turn_step [OF assms(1) holding_stable])
  fix V assume V: "holding m q V"
  then have "vw_invocations V (pd_invocation_id v) = Some Started" using holdingD [of m q V] assms(2) by blast
  from persist_unknown_outcome_run [OF own_keeping this]
  show "valid_run S (keeping F) (at_ctx S (keeping F) ctx [] V) (persist_invocation_unknown_outcome S ctx v result is_error reason)
      (\<lambda>_ d. \<exists>V'. at_ctx S (keeping F) ctx [] V' d \<and> holding (m(pd_invocation_id v \<mapsto> invocation_state.Unknown)) q V')"
    by (rule run_post) (use holding_step(1) [OF V] in blast)
qed

lemma step_requested:
  assumes "rely S (rc_turn ctx) E"
  shows "valid_turn (run_at S ctx T F m q) (locked E (persist_expected S ctx expected (ModelRequested i)))
    (\<lambda>_. run_at S ctx T F m (insert i q)) (sound S (rc_spec ctx))"
proof (unfold persist_expected_def, rule turn_step [OF assms holding_stable])
  fix V assume V: "holding m q V"
  have "enabled (sv_externals S) (rc_spec ctx) [] V [ModelRequested i] (V\<lparr>vw_requests := insert i (vw_requests V)\<rparr>)" by (simp add: enabled_simps)
  from persist_expected_run [OF own_turnD [OF own_keeping] this, of F expected]
  show "valid_run S (keeping F) (at_ctx S (keeping F) ctx [] V) (persist_locked_expected S ctx expected (ModelRequested i))
      (\<lambda>_ d. \<exists>V'. at_ctx S (keeping F) ctx [] V' d \<and> holding m (insert i q) V')"
    by (rule run_post) (use V in \<open>auto simp: holding_def intro!: exI [of _ "V\<lparr>vw_requests := insert i (vw_requests V)\<rparr>"]\<close>)
qed

text \<open>Closing the turn.\<close>

lemma ends_here: "turn_at S (rc_spec ctx) A T F (reports result) r \<Longrightarrow> turn_ends S (rc_spec ctx) result r"
  unfolding turn_ends_def by (intro exI [of _ A], erule turn_at_weaken) auto

lemma settled_pending: "\<not> pending_in V \<Longrightarrow> \<not> unsettled_in V"
  by (auto simp: pending_in_def unsettled_in_def)

lemma step_fail:
  assumes "rely (ru_service R) (rc_turn ctx) E" and "\<not> turn_is_terminal frm"
  shows "valid_turn (run_at (ru_service R) ctx T F Map.empty q) (fail_turn R E ctx frm code message)
    (ends (turn_ends (ru_service R) (rc_spec ctx)) Q) (sound (ru_service R) (rc_spec ctx))"
  unfolding fail_turn_def
proof (rule turn_stop, rule turn_post [OF turn_step [OF assms(1) holding_stable], OF _ ends_here])
  fix V assume "holding Map.empty q V"
  then have "\<not> unsettled_in V" using tracked_empty settled_pending by (auto simp: holding_def)
  then show "valid_run (ru_service R) (keeping F) (at_ctx (ru_service R) (keeping F) ctx [] V) (fail (ru_service R) ctx frm code message)
      (\<lambda>result d. \<exists>V'. at_ctx (ru_service R) (keeping F) ctx [] V' d \<and> reports result V')"
    by (intro run_post [OF fail_run [OF own_keeping assms(2)]]) (auto intro!: exI [of _ "V\<lparr>vw_state := turn_state.Failed\<rparr>"])
qed

lemma step_fail_current:
  assumes "rely S (rc_turn ctx) E"
  shows "valid_turn (run_at S ctx T F m q) (stop (locked E (fail_current S ctx code message))) (ends (turn_ends S (rc_spec ctx)) Q) (sound S (rc_spec ctx))"
proof (rule turn_stop, rule turn_post [OF turn_step [OF assms(1) holding_stable], OF _ ends_here])
  fix V
  show "valid_run S (keeping F) (at_ctx S (keeping F) ctx [] V) (fail_current S ctx code message)
      (\<lambda>result d. \<exists>V'. at_ctx S (keeping F) ctx [] V' d \<and> reports result V')"
    by (rule run_post [OF fail_current_run [OF own_keeping]]) (auto intro!: exI [of _ "V\<lparr>vw_state := turn_state.Failed\<rparr>"])
qed

lemma step_cancel:
  assumes "rely (ru_service R) (rc_turn ctx) E"
  shows "valid_turn (run_at (ru_service R) ctx T F m q) (cancel_turn R E ctx frm) (ends (turn_ends (ru_service R) (rc_spec ctx)) Q) (sound (ru_service R) (rc_spec ctx))"
  unfolding cancel_turn_def
proof (rule turn_stop, rule turn_bind)
  let ?S = "ru_service R" and ?K = "\<lambda>V. vw_state V = Cancelling \<or> vw_state V = turn_state.Cancelled \<and> \<not> pending_in V"
  show "valid_turn (run_at ?S ctx T F m q) (locked E (cancel ?S ctx frm)) (\<lambda>_. turn_at ?S (rc_spec ctx) (\<lambda>_. rc_agent_id ctx) T F ?K) (sound ?S (rc_spec ctx))"
    unfolding cancel_def
  proof (rule turn_step [OF assms holding_stable])
    fix V
    show "valid_run ?S (keeping F) (at_ctx ?S (keeping F) ctx [] V) (cancel_locked ?S ctx frm) (\<lambda>_ d. \<exists>V'. at_ctx ?S (keeping F) ctx [] V' d \<and> ?K V')"
      by (rule run_post [OF cancel_run [OF own_keeping]])
        (auto intro!: exI [of _ "V\<lparr>vw_state := if pending_in V then Cancelling else turn_state.Cancelled\<rparr>"])
  qed
  show "valid_turn (turn_at ?S (rc_spec ctx) (\<lambda>_. rc_agent_id ctx) T F ?K) (areturn (RunCancelled (rc_request_id ctx))) (turn_ends ?S (rc_spec ctx)) (sound ?S (rc_spec ctx))"
    by (rule turn_return, rule ends_here) (erule turn_at_weaken, auto)
qed

lemma step_complete:
  assumes E: "rely S (rc_turn ctx) E" and item: "it_thread_id item = rc_thread ctx" "it_turn_id item = rc_turn ctx" "it_id item \<in> F"
  shows "valid_turn (run_at S ctx T F Map.empty q) (locked E (complete S ctx item)) (turn_ends S (rc_spec ctx)) (sound S (rc_spec ctx))"
proof (rule turn_post [OF turn_locked [OF E holding_stable, of "[it_id item]"], OF _ _ _ ends_here])
  fix V assume "holding Map.empty q V"
  then have V: "\<not> pending_in V" using tracked_empty by (auto simp: holding_def)
  let ?G = "keeping (F - set [it_id item])"
  show "valid_run S ?G (at_ctx S ?G ctx [it_id item] V) (complete S ctx item) (\<lambda>result d. \<exists>V'. at_ctx S ?G ctx [] V' d \<and> reports result V')"
    by (rule run_post [OF complete_run [OF own_keeping item(1,2)]])
      (use V in \<open>auto intro: exI [of _ "V\<lparr>vw_state := s\<rparr>" for s]\<close>)
qed (use item in auto)

section \<open>The model stream\<close>

text \<open>An event of the stream that could not be stored leaves the turn as it was.\<close>

definition only_streams :: "turn_id \<Rightarrow> turn_id option \<Rightarrow> event \<Rightarrow> bool" where
  "only_streams u turn ev \<longleftrightarrow> turn = Some u \<and> (\<exists>r e. ev = ModelStreamEvent r e)"

lemma stream_history:
  assumes "replay X es = Ok p" and "replay X (es @ ds) = Ok q" and "shows_turn spec A p V"
    and "\<forall>d \<in> set ds. only_streams u (en_turn_id d) (en_event d)"
  shows "shows_turn spec A q V"
  using assms
proof (induction ds arbitrary: q rule: rev_induct)
  case (snoc env ds)
  then obtain q1 where q1: "replay X (es @ ds) = Ok q1" "apply_step X q1 env = Ok q"
    unfolding append_assoc [symmetric] replay_def replays.run_snoc by (auto simp: rbind_eq_Inr)
  then obtain q' where q': "apply_event X q1 env (en_event env) = (q', Ok ())" "q = record_event q' env"
    by (auto simp: apply_step_Ok)
  have "shows_turn spec A q1 V" using snoc.IH [OF snoc.prems(1) q1(1)] snoc.prems by auto
  moreover obtain i e where "en_event env = ModelStreamEvent i e" using snoc.prems(4) by (auto simp: only_streams_def)
  moreover have "invocation_states spec (q1\<lparr>pr_model_events := x\<rparr>) = invocation_states spec q1" for x by (simp add: invocation_states_def fun_eq_iff)
  ultimately have "shows_turn spec A q' V" using q'(1) by (auto simp: shows_turn_def handler_defs split: option.splits)
  then show ?case using q'(2) by simp
qed simp

lemma stream_error:
  assumes d: "at_ctx S (keeping F) ctx [] V d" and i: "i \<in> vw_requests V"
    and run: "persist_locked_expected S ctx Streaming (ModelStreamEvent i e) d = (d', Inl err)"
  shows "at_ctx S (keeping F) ctx [] V d'"
proof -
  obtain es p where h: "at_history S (keeping F) (\<lambda>_. True) es p [] d" and V: "shows_turn (rc_spec ctx) (\<lambda>_. rc_agent_id ctx) p V"
    using d by (auto simp: at_turn_def)
  let ?G = "Growth es F (only_streams (rc_turn ctx))"
  have "at_history S ?G (\<lambda>_. True) es p [] d" using at_history_grown [OF h, of ?G] by simp
  then have at: "at_ctx S ?G ctx [] V d" using V by (auto simp: at_turn_def)
  have "valid_run S ?G (at_ctx S ?G ctx [] V) (persist_locked_expected S ctx Streaming (ModelStreamEvent i e))
      (\<lambda>_ d. vw_state V = Streaming \<and> \<not> turn_is_terminal Streaming \<and> at_ctx S ?G ctx [] V d)"
    by (rule persist_expected_run) (use i in \<open>auto simp: only_streams_def enabled_simps\<close>)
  from valid_runD [OF this at run] obtain es' p' where h': "at_history S ?G (\<lambda>_. True) es' p' [] d'" by (auto simp: grown_ok_def)
  then obtain ds where "es' = es @ ds" "\<forall>x \<in> set ds. only_streams (rc_turn ctx) (en_turn_id x) (en_event x)"
    by (auto simp: at_history_def grown_def)
  then have "shows_turn (rc_spec ctx) (\<lambda>_. rc_agent_id ctx) p' V"
    using stream_history [OF _ _ V] h h' by (auto simp: at_history_def)
  moreover have "at_history S (keeping F) (\<lambda>_. True) es' p' [] d'" using at_history_grown [OF h', of "keeping F"] by simp
  ultimately show ?thesis by (auto simp: at_turn_def)
qed

lemma emit_run:
  assumes "rc_request_id ctx \<in> vw_requests V"
  shows "valid_run (ru_service R) (keeping F) (at_ctx (ru_service R) (keeping F) ctx [] V) (emit R ctx sink event)
    (\<lambda>_. at_ctx (ru_service R) (keeping F) ctx [] V)"
proof (rule valid_runI)
  let ?S = "ru_service R" and ?m = "persist_locked_expected (ru_service R) ctx Streaming (ModelStreamEvent (rc_request_id ctx) event)"
  { fix d d' e assume "emit R ctx sink event d = (d', Err e)"
    then show "grown_ok ?S (keeping F) d'" by (auto simp: emit_def split: if_splits prod.splits sum.splits) }
  fix d d' x assume d: "at_ctx ?S (keeping F) ctx [] V d" and run: "emit R ctx sink event d = (d', Ok x)"
  have "valid_run ?S (keeping F) (at_ctx ?S (keeping F) ctx [] V) ?m
      (\<lambda>_ d. vw_state V = Streaming \<and> \<not> turn_is_terminal Streaming \<and> at_ctx ?S (keeping F) ctx [] V d)"
    by (rule persist_expected_run) (use assms in \<open>auto simp: enabled_simps\<close>)
  from valid_runD [OF this d] have "at_ctx ?S (keeping F) ctx [] V d1" if "?m d = (d1, Ok y)" for d1 y using that by fastforce
  with stream_error [OF d assms] d run show "at_ctx ?S (keeping F) ctx [] V d'"
    by (auto simp: emit_def split: if_splits prod.splits sum.splits)
qed

lemma step_drive:
  assumes "rely (ru_service R) (rc_turn ctx) E" and "rc_request_id ctx \<in> q"
  shows "valid_turn (run_at (ru_service R) ctx T F m q) (drive R E ctx s sink) (\<lambda>_. run_at (ru_service R) ctx T F m q) (sound (ru_service R) (rc_spec ctx))"
proof (induction s arbitrary: sink)
  case (StreamEnds result)
  then show ?case by (simp add: turn_return)
next
  case (StreamEmits event continue)
  have "valid_turn (run_at (ru_service R) ctx T F m q) (locked E (emit R ctx sink event)) (\<lambda>_. run_at (ru_service R) ctx T F m q) (sound (ru_service R) (rc_spec ctx))"
  proof (rule turn_step [OF assms(1) holding_stable])
    fix V assume V: "holding m q V"
    then have "rc_request_id ctx \<in> vw_requests V" using assms(2) by (auto simp: holding_def)
    from emit_run [OF this] show "valid_run (ru_service R) (keeping F) (at_ctx (ru_service R) (keeping F) ctx [] V) (emit R ctx sink event)
        (\<lambda>_ d. \<exists>V'. at_ctx (ru_service R) (keeping F) ctx [] V' d \<and> holding m q V')" by (rule run_post) (use V in blast)
  qed
  then show ?case unfolding drive.simps by (rule turn_bind) (rule StreamEmits.IH, simp)
qed

end
