(* ===== verification/Turn_Rounds.thy ===== *)
theory Turn_Rounds
  imports Turn_Safety
begin

text \<open>
  The phases of a round, from the request to the integration of the results: each keeps the
  knowledge of the run in step with the ledger, whatever the other tasks do in between.
\<close>

named_theorems step_rules \<open>steps of a run that leave its knowledge as it is\<close>

lemma step_local [step_rules]:
  "valid_turn (turn_at S spec A T F K) has_pipeline (\<lambda>_. turn_at S spec A T F K) X"
  "valid_turn (turn_at S spec A T F K) (on_pipeline E f) (\<lambda>_. turn_at S spec A T F K) X"
  "valid_turn (turn_at S spec A T F K) (ask g) (\<lambda>_. turn_at S spec A T F K) X"
  "valid_turn (turn_at S spec A T F K) (consult handler params) (\<lambda>_. turn_at S spec A T F K) X"
  "valid_turn (turn_at S spec A T F K) (signal h i) (\<lambda>_. turn_at S spec A T F K) X"
  by (rule turn_local; fastforce simp: has_pipeline_def on_pipeline_def ask_def consult_def signal_def Let_def split: option.splits prod.splits)+

section \<open>Proposals\<close>

definition fresh :: "pending_invocation \<Rightarrow> bool" where
  "fresh v \<longleftrightarrow> \<not> pd_started v \<and> \<not> pd_scheduler_rejected v \<and> \<not> pd_cancelled_before_start v"

lemma fresh_for [simp]: "fresh (pending_for i call version timeout arguments effects problem prepared)"
    "pd_invocation_id (pending_for i call version timeout arguments effects problem prepared) = i"
  by (simp_all add: fresh_def pending_for_def)

lemma step_prepare_call:
  assumes E: "rely (ru_service R) (rc_turn ctx) E"
  shows "valid_turn (run_at (ru_service R) ctx T F m q) (prepare_call R E ctx specs registry grants call)
    (\<lambda>v r. pd_invocation_id v \<notin> F \<and> fresh v \<and> run_at (ru_service R) ctx T (insert (pd_invocation_id v) F) m q r) (sound (ru_service R) (rc_spec ctx))"
  unfolding prepare_call_def Let_def
  by (intro turn_bind [OF turn_uuid [OF E holding_stable]] turn_known turn_bind [OF step_world [OF E]] turn_bind [OF step_now [OF E]]
      turn_bind [OF step_local(1)] turn_bind [OF step_local(2)] turn_if turn_sum turn_return)
    (auto split: option.splits sum.splits)

lemma step_prepare_calls:
  assumes E: "rely (ru_service R) (rc_turn ctx) E"
  shows "valid_turn (run_at (ru_service R) ctx T F m q) (prepare_calls R E ctx specs registry grants calls)
    (\<lambda>vs r. (distinct (map pd_invocation_id vs) \<and> pd_invocation_id ` set vs \<inter> F = {} \<and> (\<forall>v \<in> set vs. fresh v)) \<and>
      run_at (ru_service R) ctx T (F \<union> pd_invocation_id ` set vs) m q r) (sound (ru_service R) (rc_spec ctx))"
proof (induction calls arbitrary: F)
  case Nil
  then show ?case by (simp add: turn_return)
next
  case (Cons call calls)
  show ?case
    unfolding prepare_calls.simps
  proof (rule turn_bind [OF step_prepare_call [OF E]])
    fix v
    have "valid_turn (\<lambda>r. (pd_invocation_id v \<notin> F \<and> fresh v) \<and> run_at (ru_service R) ctx T (insert (pd_invocation_id v) F) m q r)
       (abind (prepare_calls R E ctx specs registry grants calls) (\<lambda>vs. areturn (v # vs)))
       (\<lambda>vs r. (distinct (map pd_invocation_id vs) \<and> pd_invocation_id ` set vs \<inter> F = {} \<and> (\<forall>v \<in> set vs. fresh v)) \<and>
         run_at (ru_service R) ctx T (F \<union> pd_invocation_id ` set vs) m q r) (sound (ru_service R) (rc_spec ctx))"
      by (rule turn_known, rule turn_bind [OF Cons.IH], rule turn_return) auto
    then show "valid_turn (\<lambda>r. pd_invocation_id v \<notin> F \<and> fresh v \<and> run_at (ru_service R) ctx T (insert (pd_invocation_id v) F) m q r)
       (abind (prepare_calls R E ctx specs registry grants calls) (\<lambda>vs. areturn (v # vs)))
       (\<lambda>vs r. (distinct (map pd_invocation_id vs) \<and> pd_invocation_id ` set vs \<inter> F = {} \<and> (\<forall>v \<in> set vs. fresh v)) \<and>
         run_at (ru_service R) ctx T (F \<union> pd_invocation_id ` set vs) m q r) (sound (ru_service R) (rc_spec ctx))"
      by (simp only: conj_assoc)
  qed
qed

lemma step_proposals:
  assumes E: "rely (ru_service R) (rc_turn ctx) E"
  shows "valid_turn (run_at (ru_service R) ctx T {} m q) (persist_tool_proposals R E ctx calls specs registry grants content)
    (\<lambda>vs r. (distinct (map pd_invocation_id vs) \<and> (\<forall>v \<in> set vs. fresh v)) \<and> run_at (ru_service R) ctx T {} (over m (\<lambda>_. Proposed) vs) q r)
    (sound (ru_service R) (rc_spec ctx))"
  unfolding persist_tool_proposals_def
proof (rule turn_bind [OF step_prepare_calls [OF E]], rule turn_known, elim conjE)
  let ?S = "ru_service R"
  fix vs content' assume vs: "distinct (map pd_invocation_id vs)" "\<forall>v \<in> set vs. fresh v"
  let ?F = "{} \<union> pd_invocation_id ` set vs" and ?ids = "map pd_invocation_id vs"
  have "valid_turn (run_at ?S ctx T ?F m q) (locked E (persist_tool_proposals_locked ?S ctx vs content'))
      (\<lambda>_. run_at ?S ctx T (?F - set ?ids) (over m (\<lambda>_. Proposed) vs) q) (sound ?S (rc_spec ctx))"
  proof (rule turn_locked [OF E holding_stable vs(1)])
    fix V assume V: "holding m q V"
    then have "holding (over m (\<lambda>_. Proposed) vs) q (propose V ?ids)"
      using tracked_propose [of m V ?ids] over_const [of vs Proposed m] by (simp add: holding_def)
    then show "valid_run ?S (keeping (?F - set ?ids)) (at_ctx ?S (keeping (?F - set ?ids)) ctx ?ids V) (persist_tool_proposals_locked ?S ctx vs content')
        (\<lambda>_ d. \<exists>V'. at_ctx ?S (keeping (?F - set ?ids)) ctx [] V' d \<and> holding (over m (\<lambda>_. Proposed) vs) q V')"
      by (intro run_post [OF propose_run [OF own_keeping vs(1)]]) auto
  qed simp
  from turn_bind [OF this turn_return]
  show "valid_turn (run_at ?S ctx T ?F m q) (abind (locked E (persist_tool_proposals_locked ?S ctx vs content')) (\<lambda>_. areturn vs))
      (\<lambda>vs r. (distinct (map pd_invocation_id vs) \<and> (\<forall>v \<in> set vs. fresh v)) \<and> run_at ?S ctx T {} (over m (\<lambda>_. Proposed) vs) q r) (sound ?S (rc_spec ctx))"
    by this (use vs in auto)
qed

section \<open>Authorisation\<close>

text \<open>The state in which an invocation is while the run still has to settle it.\<close>

definition posture :: "pending_invocation \<Rightarrow> invocation_state" where
  "posture v = (if pd_started v then Started else if pd_preparation_failure v \<noteq> None then Proposed else Prepared)"

lemma posture_open [simp]: "posture v \<noteq> invocation_state.Unknown"
  by (simp add: posture_def)

lemma step_approve:
  assumes E: "rely S (rc_turn ctx) E" and "m i = Some Proposed"
  shows "valid_turn (run_at S ctx T F m q) (approve_in_ledger S E ctx i reason) (\<lambda>_. run_at S ctx T F (m(i \<mapsto> Prepared)) q) (sound S (rc_spec ctx))"
  unfolding approve_in_ledger_def
  by (rule turn_bind [OF step_invocation [where m = m and i = i, OF E assms(2) _ runner_transitions(1)]], simp,
      rule turn_bind [OF step_invocation [where m = "m(i \<mapsto> Approved)" and i = i, OF E _ _ runner_transitions(2)]]) (auto intro: turn_return)

lemma step_request_approval:
  assumes E: "rely (ru_service R) (rc_turn ctx) E"
  shows "valid_turn (run_at (ru_service R) ctx T F m q) (request_approval R E ctx prepared) (\<lambda>_. run_at (ru_service R) ctx T F m q) (sound (ru_service R) (rc_spec ctx))"
proof -
  have edges: "can_transition_turn Authorizing turn_state.WaitingForApproval" "can_transition_turn turn_state.WaitingForApproval Authorizing"
    by (simp_all add: can_transition_turn_def turn_is_terminal_def turn_edges_def)
  have asked: "valid_turn (run_at (ru_service R) ctx T F m q) (ask_approval R E ctx prepared) (\<lambda>_. run_at (ru_service R) ctx T F m q) (sound (ru_service R) (rc_spec ctx))"
    unfolding ask_approval_def
    by (intro turn_bind [OF step_cancelled [OF E]] turn_if turn_option turn_return turn_bind [OF step_world [OF E]] turn_bind [OF step_local(2)] step_local(4))
  show ?thesis
    unfolding request_approval_def Let_def
    by (intro turn_bind [OF step_local(1)] turn_if turn_return turn_bind [OF step_transition [OF E edges(1)]]
        turn_bind [OF asked] turn_bind [OF step_transition [OF E edges(2)]] turn_bind [OF step_local(2)])
qed

lemma step_authorize:
  assumes E: "rely (ru_service R) (rc_turn ctx) E" and v: "fresh v" "m (pd_invocation_id v) = Some Proposed"
  shows "valid_turn (run_at (ru_service R) ctx T F m q) (authorize R E ctx v)
    (\<lambda>v' r. (pd_invocation_id v' = pd_invocation_id v \<and> fresh v') \<and> run_at (ru_service R) ctx T F (m(pd_invocation_id v \<mapsto> posture v')) q r) (sound (ru_service R) (rc_spec ctx))"
proof -
  let ?S = "ru_service R" and ?i = "pd_invocation_id v"
  let ?Q = "\<lambda>v' r. (pd_invocation_id v' = ?i \<and> fresh v') \<and> run_at ?S ctx T F (m(?i \<mapsto> posture v')) q r"
  have same: "m(?i \<mapsto> Proposed) = m" using v(2) by (simp add: fun_upd_idem)
  have rejected: "valid_turn (run_at ?S ctx T F m q) (areturn w) ?Q (sound ?S (rc_spec ctx))"
    if "pd_invocation_id w = ?i" "fresh w" "pd_preparation_failure w \<noteq> None" for w
    using that same by (intro turn_return) (auto simp: posture_def fresh_def)
  have accepted: "valid_turn (run_at ?S ctx T F m q) (abind (approve_in_ledger ?S E ctx ?i reason) (\<lambda>_. areturn w)) ?Q (sound ?S (rc_spec ctx))"
    if "pd_invocation_id w = ?i" "fresh w" "pd_preparation_failure w = None" for w reason
    using that by (intro turn_bind [OF step_approve [where m = m and i = ?i, OF E v(2)]] turn_return) (auto simp: posture_def fresh_def)
  show ?thesis
    unfolding authorize_def Let_def
    apply (intro turn_if turn_option)
        apply (rule rejected; use v in simp)
       apply (rule accepted; use v in simp)
      apply (rule rejected; use v in \<open>simp add: fresh_def\<close>)
    subgoal for prepared
      apply (rule turn_bind [where R = "\<lambda>y r. (case y of Inl w \<Rightarrow> pd_invocation_id w = ?i \<and> fresh w \<and> pd_preparation_failure w \<noteq> None
          | Inr w \<Rightarrow> pd_invocation_id w = ?i \<and> fresh w \<and> pd_preparation_failure w = None) \<and> run_at ?S ctx T F m q r"])
       apply (intro turn_if turn_return turn_bind [OF step_request_approval [OF E]])
        apply (use v in \<open>auto simp: fresh_def split: sum.splits\<close>)[2]
      apply (rule turn_known, intro turn_sum)
       apply (rule rejected; simp)
      apply (rule accepted; simp)
      done
    done
qed

lemma step_authorize_all:
  assumes E: "rely (ru_service R) (rc_turn ctx) E" and "distinct (map pd_invocation_id vs)" and "\<forall>v \<in> set vs. fresh v"
  shows "valid_turn (run_at (ru_service R) ctx T F (over m (\<lambda>_. Proposed) vs) q) (authorize_all R E ctx vs)
    (\<lambda>vs' r. (map pd_invocation_id vs' = map pd_invocation_id vs \<and> (\<forall>v \<in> set vs'. fresh v)) \<and> run_at (ru_service R) ctx T F (over m posture vs') q r)
    (sound (ru_service R) (rc_spec ctx))"
  using assms(2,3)
proof (induction vs arbitrary: m)
  case Nil
  then show ?case by (simp add: turn_return)
next
  case (Cons v vs)
  let ?S = "ru_service R" and ?i = "pd_invocation_id v"
  have i: "?i \<notin> pd_invocation_id ` set vs" using Cons.prems by simp
  have one: "valid_turn (run_at ?S ctx T F (over m (\<lambda>_. Proposed) (v # vs)) q) (authorize R E ctx v)
      (\<lambda>v' r. (pd_invocation_id v' = ?i \<and> fresh v') \<and> run_at ?S ctx T F (over (m(?i \<mapsto> posture v')) (\<lambda>_. Proposed) vs) q r) (sound ?S (rc_spec ctx))"
    by (rule step_authorize [OF E, of v "over m (\<lambda>_. Proposed) (v # vs)" T F q, unfolded over_head [OF i]]) (use Cons.prems in simp_all)
  show ?case
    unfolding authorize_all.simps
  proof (rule turn_bind [OF one], rule turn_known, elim conjE)
    fix v' assume v': "pd_invocation_id v' = ?i" "fresh v'"
    show "valid_turn (run_at ?S ctx T F (over (m(?i \<mapsto> posture v')) (\<lambda>_. Proposed) vs) q)
        (abind (authorize_all R E ctx vs) (\<lambda>vs'. areturn (v' # vs')))
        (\<lambda>vs' r. (map pd_invocation_id vs' = map pd_invocation_id (v # vs) \<and> (\<forall>v \<in> set vs'. fresh v)) \<and> run_at ?S ctx T F (over m posture vs') q r) (sound ?S (rc_spec ctx))"
    proof (rule turn_bind [OF Cons.IH], use Cons.prems in simp, use Cons.prems in simp, rule turn_known, elim conjE, rule turn_return)
      fix vs' r assume vs': "map pd_invocation_id vs' = map pd_invocation_id vs" "\<forall>v \<in> set vs'. fresh v"
        and r: "run_at ?S ctx T F (over (m(?i \<mapsto> posture v')) posture vs') q r"
      have "pd_invocation_id v' \<notin> pd_invocation_id ` set vs'" using i v'(1) vs'(1) by (metis image_set)
      from r [folded v'(1), unfolded over_cons [OF this]] v' vs'
      show "(map pd_invocation_id (v' # vs') = map pd_invocation_id (v # vs) \<and> (\<forall>v \<in> set (v' # vs'). fresh v)) \<and> run_at ?S ctx T F (over m posture (v' # vs')) q r"
        by auto
    qed
  qed
qed

section \<open>Starting\<close>

text \<open>An invocation with its worker, if it has one.\<close>

definition ready :: "pending_invocation \<times> bool \<Rightarrow> bool" where
  "ready h \<longleftrightarrow>
     (if pd_started (fst h)
      then snd h \<and> pd_preparation_failure (fst h) = None \<and> \<not> pd_scheduler_rejected (fst h) \<and> \<not> pd_cancelled_before_start (fst h)
      else pd_preparation_failure (fst h) \<noteq> None \<longleftrightarrow> \<not> pd_scheduler_rejected (fst h) \<and> \<not> pd_cancelled_before_start (fst h))"

lemma step_spawn:
  assumes "m (wo_invocation w) = Some Started"
  shows "valid_turn (run_at S ctx T F m q) (spawn w) (\<lambda>_. run_at S ctx T F m q) X"
  unfolding valid_turn_def
proof (intro allI impI)
  fix r r' :: "('a, 'b) running" and y assume r: "run_at S ctx T F m q r" and run: "spawn w r = (r', y)"
  obtain V where V: "at_ctx S (keeping F) ctx [] V (rn_daemon r)" "holding m q V" using r by (auto simp: turn_at_def)
  then obtain es p where p: "at_history S (keeping F) (\<lambda>_. True) es p [] (rn_daemon r)" "shows_turn (rc_spec ctx) (\<lambda>_. rc_agent_id ctx) p V"
    by (auto simp: at_turn_def)
  have "vw_invocations V (wo_invocation w) = Some Started" using holdingD [OF V(2) assms] by simp
  from shown_invocation [OF p(2) this] at_history_projects [OF p(1)]
  have "begun S (rc_spec ctx) \<lparr>sw_worker = w, sw_daemon = rn_daemon r, sw_answers = rn_answers r\<rparr>" by (auto simp: begun_def)
  with r run show "case y of Inl _ \<Rightarrow> X r' | Inr x \<Rightarrow> run_at S ctx T F m q r'" by (auto simp: spawn_def turn_at_def)
qed

lemma step_launch:
  assumes "pd_started v" and "m (pd_invocation_id v) = Some Started"
  shows "valid_turn (run_at S ctx True F m q) (launch ctx v) (\<lambda>h r. h = (v, True) \<and> run_at S ctx True F m q r) X"
proof -
  have present: "valid_turn (run_at S ctx True F m q) has_pipeline (\<lambda>b r. b \<and> run_at S ctx True F m q r) X"
    by (auto simp: valid_turn_def has_pipeline_def turn_at_def)
  have spawned: "valid_turn (run_at S ctx True F m q) (abind (spawn w) (\<lambda>_. areturn (v, True))) (\<lambda>h r. h = (v, True) \<and> run_at S ctx True F m q r) X"
    if "wo_invocation w = pd_invocation_id v" for w
    by (rule turn_bind [OF step_spawn turn_return]) (use assms that in simp_all)
  show ?thesis
    unfolding launch_def
    by (intro turn_option turn_bind [OF present] turn_known) (simp_all add: spawned)
qed

lemma step_search_slot:
  "valid_turn (turn_at S spec A T F K) (search_slot E ctx v) (\<lambda>_. turn_at S spec A T F K) X"
  unfolding search_slot_def by (intro turn_if step_local(3) turn_return)

lemma step_start:
  assumes E: "rely (ru_service R) (rc_turn ctx) E" and v: "fresh v" "m (pd_invocation_id v) = Some (posture v)"
  shows "valid_turn (run_at (ru_service R) ctx True F m q) (start_invocation R E ctx v)
    (\<lambda>h r. (pd_invocation_id (fst h) = pd_invocation_id v \<and> ready h) \<and> run_at (ru_service R) ctx True F (m(pd_invocation_id v \<mapsto> posture (fst h))) q r)
    (sound (ru_service R) (rc_spec ctx))"
proof -
  let ?S = "ru_service R" and ?i = "pd_invocation_id v"
  let ?Q = "\<lambda>h r. (pd_invocation_id (fst h) = ?i \<and> ready h) \<and> run_at ?S ctx True F (m(?i \<mapsto> posture (fst h))) q r"
  have same: "m(?i \<mapsto> posture v) = m" using v(2) by (simp add: fun_upd_idem)
  have kept: "valid_turn (run_at ?S ctx True F m q) (areturn (w, False)) ?Q (sound ?S (rc_spec ctx))"
    if "pd_invocation_id w = ?i" "posture w = posture v" "ready (w, False)" for w
    using that same by (intro turn_return) simp
  have prepared: "m ?i = Some Prepared" if "pd_preparation_failure v = None" using that v by (simp add: posture_def fresh_def)
  have started: "valid_turn (run_at ?S ctx True F (m(?i \<mapsto> Started)) q) (launch ctx (v\<lparr>pd_started := True\<rparr>)) ?Q (sound ?S (rc_spec ctx))" if "pd_preparation_failure v = None"
    by (rule turn_post [OF step_launch]) (use that v in \<open>auto simp: ready_def posture_def fresh_def\<close>)
  show ?thesis
    unfolding start_invocation_def
    by (intro turn_if turn_bind [OF step_cancelled [OF E]] turn_bind [OF step_local(3)] turn_bind [OF step_search_slot]
        turn_bind [OF step_invocation [where m = m and i = ?i, OF E prepared _ runner_transitions(3)] started] kept)
      (use v in \<open>auto simp: ready_def posture_def fresh_def\<close>)
qed

lemma step_start_all:
  assumes E: "rely (ru_service R) (rc_turn ctx) E" and "distinct (map pd_invocation_id vs)" and "\<forall>v \<in> set vs. fresh v"
  shows "valid_turn (run_at (ru_service R) ctx True F (over m posture vs) q) (start_all R E ctx vs)
    (\<lambda>hs r. (map pd_invocation_id (map fst hs) = map pd_invocation_id vs \<and> (\<forall>h \<in> set hs. ready h)) \<and>
      run_at (ru_service R) ctx True F (over m posture (map fst hs)) q r) (sound (ru_service R) (rc_spec ctx))"
  using assms(2,3)
proof (induction vs arbitrary: m)
  case Nil
  then show ?case by (simp add: turn_return)
next
  case (Cons v vs)
  let ?S = "ru_service R" and ?i = "pd_invocation_id v"
  have i: "?i \<notin> pd_invocation_id ` set vs" using Cons.prems by simp
  have one: "valid_turn (run_at ?S ctx True F (over m posture (v # vs)) q) (start_invocation R E ctx v)
      (\<lambda>h r. (pd_invocation_id (fst h) = ?i \<and> ready h) \<and> run_at ?S ctx True F (over (m(?i \<mapsto> posture (fst h))) posture vs) q r) (sound ?S (rc_spec ctx))"
    by (rule step_start [OF E, of v "over m posture (v # vs)" F q, unfolded over_head [OF i]]) (use Cons.prems in simp_all)
  show ?case
    unfolding start_all.simps
  proof (rule turn_bind [OF one], rule turn_known, elim conjE)
    fix h assume h: "pd_invocation_id (fst h) = ?i" "ready h"
    show "valid_turn (run_at ?S ctx True F (over (m(?i \<mapsto> posture (fst h))) posture vs) q) (abind (start_all R E ctx vs) (\<lambda>hs. areturn (h # hs)))
        (\<lambda>hs r. (map pd_invocation_id (map fst hs) = map pd_invocation_id (v # vs) \<and> (\<forall>h \<in> set hs. ready h)) \<and>
          run_at ?S ctx True F (over m posture (map fst hs)) q r) (sound ?S (rc_spec ctx))"
    proof (rule turn_bind [OF Cons.IH], use Cons.prems in simp, use Cons.prems in simp, rule turn_known, elim conjE, rule turn_return)
      fix hs r assume hs: "map pd_invocation_id (map fst hs) = map pd_invocation_id vs" "\<forall>h \<in> set hs. ready h"
        and r: "run_at ?S ctx True F (over (m(?i \<mapsto> posture (fst h))) posture (map fst hs)) q r"
      have "pd_invocation_id (fst h) \<notin> pd_invocation_id ` set (map fst hs)" using i h(1) hs(1) by (metis image_set)
      from r [folded h(1), unfolded over_cons [OF this]] h hs
      show "(map pd_invocation_id (map fst (h # hs)) = map pd_invocation_id (v # vs) \<and> (\<forall>h \<in> set (h # hs). ready h)) \<and>
          run_at ?S ctx True F (over m posture (map fst (h # hs))) q r"
        by auto
    qed
  qed
qed

section \<open>Integration\<close>

lemma step_wait:
  assumes E: "rely S (rc_turn ctx) E"
  shows "valid_turn (run_at S ctx T F m q) (wait_for_tool_worker E ctx i) (\<lambda>_. run_at S ctx T F m q) (sound S (rc_spec ctx))"
proof -
  have "valid_turn (run_at S ctx T F m q) (wait_loop E ctx i polls) (\<lambda>_. run_at S ctx T F m q) (sound S (rc_spec ctx))" for polls
  proof (induction polls)
    case Nil
    then show ?case by (simp, intro turn_bind [OF step_local(5)] turn_return)
  next
    case (Cons p polls)
    then show ?case
      by (cases p) (simp_all add: turn_return, intro turn_bind [OF step_cancelled [OF E]] turn_bind [OF step_local(5)] turn_bind [OF step_local(3)] turn_if turn_return)
  qed
  then show ?thesis unfolding wait_for_tool_worker_def by (intro turn_bind [OF step_local(3)])
qed

text \<open>What the run makes of an outcome fits the state of the invocation.\<close>

definition classifies :: "pending_invocation \<Rightarrow> classified \<Rightarrow> bool" where
  "classifies v c \<longleftrightarrow>
     (case cl_terminal_state c of
        None \<Rightarrow> pd_started v
      | Some terminal \<Rightarrow> cl_from_state c = posture v \<and> inv_is_terminal terminal \<and> always_allowed (posture v) terminal)"

lemma classifies_wait: "pd_started v \<Longrightarrow> classifies v (classify_wait R w)"
  by (auto simp: classifies_def classify_wait_def classify_tool_execution_error_def classify_tool_worker_join_error_def Let_def posture_def
      inv_is_terminal_def runner_transitions split: tool_worker_wait.splits sum.splits)

lemma step_outcome_of:
  assumes E: "rely (ru_service R) (rc_turn ctx) E" and v: "ready (v, h)"
  shows "valid_turn (run_at (ru_service R) ctx T F m q) (outcome_of R E ctx v h) (\<lambda>c r. classifies v c \<and> run_at (ru_service R) ctx T F m q r) (sound (ru_service R) (rc_spec ctx))"
proof -
  have failed: "classifies v (failed_before_start result (posture v) reason)" if "\<not> pd_started v" for result reason
    using that by (auto simp: classifies_def failed_before_start_def posture_def inv_is_terminal_def runner_transitions)
  have "posture v = Proposed" if "pd_preparation_failure v \<noteq> None" using v that by (auto simp: ready_def posture_def split: if_splits)
  moreover have "posture v = Prepared" if "pd_preparation_failure v = None" "pd_scheduler_rejected v \<or> pd_cancelled_before_start v"
    using v that by (auto simp: ready_def posture_def split: if_splits)
  ultimately show ?thesis
    unfolding outcome_of_def
    by (intro turn_option turn_if turn_return turn_fail turn_bind [OF step_wait [OF E]])
      (use v failed classifies_wait turn_at_sound in \<open>auto simp: ready_def split: if_splits\<close>)
qed

text \<open>An invocation that is settled without its result: unknown when it had started, failed otherwise.\<close>

definition dropped :: "pending_invocation \<Rightarrow> invocation_state option" where
  "dropped v = (if pd_started v then Some invocation_state.Unknown else None)"

lemma step_failed:
  assumes E: "rely S (rc_turn ctx) E" and v: "m (pd_invocation_id v) = Some (posture v)" "\<not> pd_started v" and frm: "posture v = frm"
  shows "valid_turn (run_at S ctx T F m q)
    (abind (locked E (persist_invocation_outcome S ctx v invocation_state.Failed frm result b reason)) (\<lambda>_. areturn ()))
    (\<lambda>_. run_at S ctx T F (m(pd_invocation_id v := dropped v)) q) (sound S (rc_spec ctx))"
proof -
  have "always_allowed frm invocation_state.Failed" using v(2) frm by (auto simp: posture_def runner_transitions split: if_splits)
  note step = step_outcome [where m = m and v = v and frm = frm, OF E _ _ this]
  show ?thesis by (rule turn_bind [OF step turn_return]) (use v frm posture_open [of v] in \<open>auto simp: dropped_def inv_is_terminal_def\<close>)
qed

lemma step_dropped:
  assumes E: "rely S (rc_turn ctx) E" and v: "m (pd_invocation_id v) = Some (posture v)" "pd_started v"
  shows "valid_turn (run_at S ctx T F m q)
    (abind (locked E (persist_invocation_unknown_outcome S ctx v result b reason)) (\<lambda>_. areturn ()))
    (\<lambda>_. run_at S ctx T F (m(pd_invocation_id v := dropped v)) q) (sound S (rc_spec ctx))"
proof -
  have "m (pd_invocation_id v) = Some Started" using v by (simp add: posture_def)
  note step = step_unknown [where m = m and v = v, OF E this]
  show ?thesis by (rule turn_bind [OF step turn_return]) (use v in \<open>auto simp: dropped_def\<close>)
qed

lemma ready_posture:
  assumes "ready (v, h)" and "\<not> pd_started v"
  shows "pd_scheduler_rejected v \<Longrightarrow> posture v = Prepared" "pd_cancelled_before_start v \<Longrightarrow> posture v = Prepared"
    and "pd_preparation_failure v = Some x \<Longrightarrow> posture v = Proposed"
    and "pd_preparation_failure v = None \<Longrightarrow> \<not> pd_scheduler_rejected v \<Longrightarrow> pd_cancelled_before_start v"
  using assms by (auto simp: ready_def posture_def split: if_splits)

lemma step_settle_cancelled:
  assumes E: "rely (ru_service R) (rc_turn ctx) E" and v: "m (pd_invocation_id v) = Some (posture v)" "ready (v, h)"
  shows "valid_turn (run_at (ru_service R) ctx T F m q) (settle_cancelled R E ctx v h)
    (\<lambda>_. run_at (ru_service R) ctx T F (m(pd_invocation_id v := dropped v)) q) (sound (ru_service R) (rc_spec ctx))"
  unfolding settle_cancelled_def Let_def
  by (intro turn_if turn_option turn_bind [OF step_local(5)] step_dropped [where m = m, OF E v(1)] step_failed [where m = m, OF E v(1)])
    (use ready_posture [OF v(2)] in auto)

lemma step_settle_sibling:
  assumes E: "rely (ru_service R) (rc_turn ctx) E" and h: "m (pd_invocation_id (fst h)) = Some (posture (fst h))" "ready h"
  shows "valid_turn (run_at (ru_service R) ctx T F m q) (settle_sibling R E ctx h)
    (\<lambda>_. run_at (ru_service R) ctx T F (m(pd_invocation_id (fst h) := dropped (fst h))) q) (sound (ru_service R) (rc_spec ctx))"
  unfolding settle_sibling_def Let_def
  by (intro turn_if turn_option turn_bind [OF step_local(5)] step_dropped [where m = m, OF E h(1)] step_failed [where m = m, OF E h(1)])
    (use ready_posture [of "fst h" "snd h"] h(2) in auto)

lemma step_settle_siblings:
  assumes E: "rely (ru_service R) (rc_turn ctx) E" and "distinct (map pd_invocation_id (map fst hs))" and "\<forall>h \<in> set hs. ready h"
  shows "valid_turn (run_at (ru_service R) ctx T F (over m posture (map fst hs)) q) (settle_siblings R E ctx hs)
    (\<lambda>_ r. \<exists>m'. run_at (ru_service R) ctx T F m' q r) (sound (ru_service R) (rc_spec ctx))"
  using assms(2,3)
proof (induction hs arbitrary: m)
  case Nil
  then show ?case by (simp, intro turn_return exI)
next
  case (Cons h hs)
  let ?S = "ru_service R" and ?i = "pd_invocation_id (fst h)"
  have i: "?i \<notin> pd_invocation_id ` set (map fst hs)" using Cons.prems by (auto simp: image_iff)
  have eq: "map fst (h # hs) = fst h # map fst hs" by simp
  have "valid_turn (run_at ?S ctx T F (over m posture (map fst (h # hs))) q) (settle_sibling R E ctx h)
      (\<lambda>_. run_at ?S ctx T F (over (m(?i := dropped (fst h))) posture (map fst hs)) q) (sound ?S (rc_spec ctx))"
    unfolding eq
    by (rule step_settle_sibling [OF E, of "over m posture (fst h # map fst hs)" h T F q, unfolded over_head [OF i]]) (use Cons.prems in simp_all)
  then show ?case unfolding settle_siblings.simps by (rule turn_bind) (use Cons in auto)
qed

text \<open>No outcome is unknown as far as the tally says.\<close>

definition conclusive :: "tally \<Rightarrow> bool" where
  "conclusive y \<longleftrightarrow> \<not> ty_unknown_outcome_seen y \<and> \<not> ty_requires_reconciliation y"

definition integrating ::
  "'w service \<Rightarrow> run_context \<Rightarrow> model_request_id set \<Rightarrow> (pending_invocation \<times> bool) list \<Rightarrow> tally \<Rightarrow> ('w, 'c) running \<Rightarrow> bool" where
  "integrating S ctx q hs y r \<longleftrightarrow> (\<exists>m. (conclusive y \<longrightarrow> m = Map.empty) \<and> run_at S ctx True {} (over m posture (map fst hs)) q r)"

lemma step_record:
  assumes E: "rely (ru_service R) (rc_turn ctx) E" and hs: "distinct (map pd_invocation_id (map fst ((v, h) # hs)))" "\<forall>h \<in> set hs. ready h"
    and c: "classifies v c" and y: "conclusive y \<longrightarrow> m = Map.empty"
  shows "valid_turn (run_at (ru_service R) ctx True {} (over m posture (map fst ((v, h) # hs))) q) (record_outcome R E ctx max_bytes y v hs c stopped)
    (ends (turn_ends (ru_service R) (rc_spec ctx)) (integrating (ru_service R) ctx q hs)) (sound (ru_service R) (rc_spec ctx))"
proof -
  let ?S = "ru_service R" and ?i = "pd_invocation_id v" and ?m = "over m posture (map fst ((v, h) # hs))"
  let ?Q = "ends (turn_ends ?S (rc_spec ctx)) (integrating ?S ctx q hs)"
  have i: "?i \<notin> pd_invocation_id ` set (map fst hs)" using hs(1) by (auto simp: image_iff)
  have at: "?m ?i = Some (posture v)" by simp
  have upd: "?m(?i := x) = over (m(?i := x)) posture (map fst hs)" for x using over_head [OF i] by simp
  have "?m ?i = Some Started" if "cl_terminal_state c = None" using that c at by (simp add: classifies_def posture_def)
  note unknown = step_unknown [where m = ?m and v = v, OF E this, unfolded upd]
  have lost: "integrating ?S ctx q hs y' r" if "run_at ?S ctx True {} (over (m(?i \<mapsto> s)) posture (map fst hs)) q r" "\<not> conclusive y'" for r y' s
    unfolding integrating_def using that by blast
  have kept: "integrating ?S ctx q hs (y\<lparr>ty_result_bytes := b\<rparr>) r" if "run_at ?S ctx True {} (over (m(?i := None)) posture (map fst hs)) q r" for r b
    unfolding integrating_def using that y by (intro exI [of _ "m(?i := None)"]) (auto simp: conclusive_def)
  have known: "valid_turn (run_at ?S ctx True {} ?m q) (locked E (persist_invocation_outcome ?S ctx v t (cl_from_state c) result b reason))
      (\<lambda>_. run_at ?S ctx True {} (over (m(?i := None)) posture (map fst hs)) q) (sound ?S (rc_spec ctx))" if "cl_terminal_state c = Some t" for t result b reason
    using that c step_outcome [where m = ?m and v = v and frm = "posture v", OF E at posture_open, of t True "{}" q result b reason, unfolded upd]
    by (simp add: classifies_def)
  have siblings: "valid_turn (run_at ?S ctx True {} (over (m(?i := None)) posture (map fst hs)) q)
      (abind (settle_siblings R E ctx hs) (\<lambda>_. stop (locked E (fail_current ?S ctx code message)))) ?Q (sound ?S (rc_spec ctx))" for code message
    by (rule turn_bind [OF step_settle_siblings [OF E]], use hs in simp, use hs in simp, rule turn_ex, rule step_fail_current [OF E])
  show ?thesis
    unfolding record_outcome_def Let_def
    by (intro turn_option turn_if turn_bind [OF unknown] turn_bind [OF known siblings] turn_bind [OF known] turn_return;
      (assumption | (simp only: ends_simps, (erule kept | erule lost, simp add: conclusive_def))))
qed

lemma step_integrate_one:
  assumes E: "rely (ru_service R) (rc_turn ctx) E" and hs: "distinct (map pd_invocation_id (map fst ((v, h) # hs)))" "\<forall>h \<in> set ((v, h) # hs). ready h"
  shows "valid_turn (integrating (ru_service R) ctx q ((v, h) # hs) y) (integrate_one R E ctx max_bytes y v h hs)
    (ends (turn_ends (ru_service R) (rc_spec ctx)) (integrating (ru_service R) ctx q hs)) (sound (ru_service R) (rc_spec ctx))"
  unfolding integrating_def [of _ _ _ "(v, h) # hs"]
proof (rule turn_ex, rule turn_known)
  let ?S = "ru_service R" and ?i = "pd_invocation_id v"
  fix m :: "invocation_id \<rightharpoonup> invocation_state" assume y: "conclusive y \<longrightarrow> m = Map.empty"
  let ?m = "over m posture (map fst ((v, h) # hs))"
  have i: "?i \<notin> pd_invocation_id ` set (map fst hs)" using hs(1) by (auto simp: image_iff)
  have "ready (v, h)" using hs(2) by simp
  have upd: "?m(?i := x) = over (m(?i := x)) posture (map fst hs)" for x using over_head [OF i] by simp
  have stopped: "valid_turn (run_at ?S ctx True {} ?m q) (abind (settle_cancelled R E ctx v h) (\<lambda>_. areturn (Go (y\<lparr>ty_cancelled_during_tools := True,
        ty_requires_reconciliation := ty_requires_reconciliation y \<or> pd_started v\<rparr>)))) (ends (turn_ends ?S (rc_spec ctx)) (integrating ?S ctx q hs)) (sound ?S (rc_spec ctx))"
  proof (rule turn_bind [OF step_settle_cancelled [where m = ?m, OF E _ \<open>ready (v, h)\<close>, unfolded upd]], simp, rule turn_return)
    fix r assume r: "run_at ?S ctx True {} (over (m(?i := dropped v)) posture (map fst hs)) q r"
    have "integrating ?S ctx q hs (y\<lparr>ty_cancelled_during_tools := True, ty_requires_reconciliation := ty_requires_reconciliation y \<or> pd_started v\<rparr>) r"
      unfolding integrating_def
      by (intro exI [of _ "m(?i := dropped v)"] conjI r) (use y in \<open>auto simp: conclusive_def dropped_def\<close>)
    then show "ends (turn_ends ?S (rc_spec ctx)) (integrating ?S ctx q hs) (Go (y\<lparr>ty_cancelled_during_tools := True,
        ty_requires_reconciliation := ty_requires_reconciliation y \<or> pd_started v\<rparr>)) r" by simp
  qed
  show "valid_turn (run_at ?S ctx True {} ?m q) (integrate_one R E ctx max_bytes y v h hs) (ends (turn_ends ?S (rc_spec ctx)) (integrating ?S ctx q hs)) (sound ?S (rc_spec ctx))"
    unfolding integrate_one_def
    by (intro turn_bind [OF step_cancelled [OF E]] turn_if stopped turn_bind [OF step_outcome_of [OF E \<open>ready (v, h)\<close>]] turn_known step_record [OF E hs(1)] y)
      (use hs(2) in auto)
qed

lemma step_integrate:
  assumes E: "rely (ru_service R) (rc_turn ctx) E" and "distinct (map pd_invocation_id (map fst hs))" and "\<forall>h \<in> set hs. ready h"
  shows "valid_turn (integrating (ru_service R) ctx q hs y) (integrate R E ctx max_bytes hs y)
    (ends (turn_ends (ru_service R) (rc_spec ctx)) (integrating (ru_service R) ctx q [])) (sound (ru_service R) (rc_spec ctx))"
  using assms(2,3)
proof (induction hs arbitrary: y)
  case (Cons h hs)
  have "valid_turn (integrating (ru_service R) ctx q (h # hs) y) (integrate_one R E ctx max_bytes y (fst h) (snd h) hs)
      (ends (turn_ends (ru_service R) (rc_spec ctx)) (integrating (ru_service R) ctx q hs)) (sound (ru_service R) (rc_spec ctx))"
    using step_integrate_one [OF E, of "fst h" "snd h" hs q y max_bytes] Cons.prems by simp
  then show ?case unfolding integrate.simps by (rule turn_proceed) (use Cons in auto)
qed (simp add: turn_return)

end
