(* ===== verification/Turn_Result.thy ===== *)
theory Turn_Result
  imports Turn_Rounds
begin

text \<open>
  A whole run: the rounds, the phases before them, and the settlement that follows. The result
  of a run is the state of the turn in the ledger, with every invocation settled.
\<close>

section \<open>A round\<close>

lemma round_edges:
  "can_transition_turn Accepted BuildingContext" "can_transition_turn BuildingContext RequestingModel" "can_transition_turn RequestingModel Streaming"
  "can_transition_turn Streaming ProposedTools" "can_transition_turn ProposedTools Authorizing" "can_transition_turn Authorizing Scheduling"
  "can_transition_turn Scheduling Executing" "can_transition_turn Executing IntegratingResults" "can_transition_turn IntegratingResults RequestingModel"
  "\<not> turn_is_terminal Accepted" "\<not> turn_is_terminal BuildingContext" "\<not> turn_is_terminal RequestingModel" "\<not> turn_is_terminal Streaming"
  "\<not> turn_is_terminal IntegratingResults"
  by (simp_all add: can_transition_turn_def turn_is_terminal_def turn_edges_def)

abbreviation between :: "'w service \<Rightarrow> run_context \<Rightarrow> bool \<Rightarrow> ('w, 'c) running \<Rightarrow> bool" where
  "between S ctx T \<equiv> run_at S ctx T {} Map.empty {}"

lemma holding_less: "holding m q V \<Longrightarrow> q' \<subseteq> q \<Longrightarrow> holding m q' V"
  by (auto simp: holding_def)

lemma back_between: "run_at S ctx T F Map.empty q r \<Longrightarrow> between S ctx T r"
  by (erule turn_at_weaken) (auto intro: holding_less)

lemma step_close_round:
  assumes E: "rely (ru_service R) (rc_turn ctx) E"
  shows "valid_turn (integrating (ru_service R) ctx {} [] y) (close_round R E ctx last_round y)
    (ends (turn_ends (ru_service R) (rc_spec ctx)) (\<lambda>_. between (ru_service R) ctx True)) (sound (ru_service R) (rc_spec ctx))"
proof -
  let ?S = "ru_service R" and ?Q = "ends (turn_ends (ru_service R) (rc_spec ctx)) (\<lambda>_. between (ru_service R) ctx True)"
  have failing: "valid_turn (integrating ?S ctx {} [] y) (stop (locked E (fail_current ?S ctx code message))) ?Q (sound ?S (rc_spec ctx))" for code message
    unfolding integrating_def by (rule turn_ex, rule turn_known, rule step_fail_current [OF E])
  have quiet: "integrating ?S ctx {} [] y r \<Longrightarrow> conclusive y \<Longrightarrow> between ?S ctx True r" for r by (auto simp: integrating_def)
  have closing: "valid_turn (between ?S ctx True) (abind (cancelled E ctx) (\<lambda>stopped.
      if ty_cancelled_during_tools y \<or> stopped then cancel_turn R E ctx Executing
      else
        abind (locked E (transition_turn ?S ctx Executing IntegratingResults None)) (\<lambda>_.
        if last_round
        then fail_turn R E ctx IntegratingResults ''agent_loop_round_limit'' ''the turn exhausted its model-round budget after tool execution''
        else
          abind (locked E (transition_turn ?S ctx IntegratingResults RequestingModel None)) (\<lambda>_.
          areturn (Go (ty_result_bytes y)))))) ?Q (sound ?S (rc_spec ctx))"
    by (intro turn_bind [OF step_cancelled [OF E]] turn_if step_cancel [OF E] step_fail [OF E] round_edges
        turn_bind [OF step_transition [OF E round_edges(8)]] turn_bind [OF step_transition [OF E round_edges(9)]] turn_return) simp
  show ?thesis
    unfolding close_round_def Let_def
    by (intro turn_if failing turn_pre [OF closing]) (auto simp: conclusive_def intro: quiet)
qed

lemma step_tool_round:
  assumes E: "rely (ru_service R) (rc_turn ctx) E"
  shows "valid_turn (between (ru_service R) ctx True) (tool_round R E ctx cfg specs registry grants result_bytes last_round content calls)
    (ends (turn_ends (ru_service R) (rc_spec ctx)) (\<lambda>_. between (ru_service R) ctx True)) (sound (ru_service R) (rc_spec ctx))"
  unfolding tool_round_def Let_def
proof (rule turn_bind [OF step_transition [OF E round_edges(4)]], rule turn_bind [OF step_proposals [OF E]], rule turn_known, elim conjE,
    rule turn_bind [OF step_transition [OF E round_edges(5)]], rule turn_bind [OF step_authorize_all [OF E]], assumption, assumption,
    rule turn_known, elim conjE, rule turn_bind [OF step_transition [OF E round_edges(6)]], rule turn_bind [OF step_transition [OF E round_edges(7)]])
  let ?S = "ru_service R"
  fix proposed authorized assume p: "distinct (map pd_invocation_id proposed)" "\<forall>v \<in> set proposed. fresh v"
    and a: "map pd_invocation_id authorized = map pd_invocation_id proposed" "\<forall>v \<in> set authorized. fresh v"
  let ?y = "\<lparr>ty_result_bytes = result_bytes, ty_cancelled_during_tools = False, ty_requires_reconciliation = False, ty_unknown_outcome_seen = False\<rparr>"
  show "valid_turn (run_at ?S ctx True {} (over Map.empty posture authorized) {})
     (abind (start_all R E ctx authorized) (\<lambda>started.
      proceed (integrate R E ctx (al_max_tool_result_bytes (mp_loop_limits cfg)) started ?y) (close_round R E ctx last_round)))
     (ends (turn_ends ?S (rc_spec ctx)) (\<lambda>_. between ?S ctx True)) (sound ?S (rc_spec ctx))"
  proof (rule turn_bind [OF step_start_all [OF E]], use p a in simp, rule a(2), rule turn_known, elim conjE)
    fix hs :: "(pending_invocation \<times> bool) list" assume hs: "map pd_invocation_id (map fst hs) = map pd_invocation_id authorized" "\<forall>h \<in> set hs. ready h"
    then have "distinct (map pd_invocation_id (map fst hs))" using p a by simp
    from turn_proceed [OF step_integrate [OF E this hs(2)] step_close_round [OF E]]
    show "valid_turn (run_at ?S ctx True {} (over Map.empty posture (map fst hs)) {})
        (proceed (integrate R E ctx (al_max_tool_result_bytes (mp_loop_limits cfg)) hs ?y) (close_round R E ctx last_round))
        (ends (turn_ends ?S (rc_spec ctx)) (\<lambda>_. between ?S ctx True)) (sound ?S (rc_spec ctx))"
      unfolding integrating_def by (rule turn_pre) (intro exI [of _ Map.empty] conjI impI refl)
  qed
qed

lemma step_lineage:
  assumes E: "rely S (tr_turn_id spec) E" and K: "stable K"
  shows "valid_turn (turn_at S spec A T F K) (locked E (runner_projection S)) (\<lambda>_. turn_at S spec A T F K) (turn_at S spec A T F K)"
    and "valid_turn (turn_at S spec A T F K) (load_lineage_events S E p thread) (\<lambda>_. turn_at S spec A T F K) (turn_at S spec A T F K)"
proof -
  show "valid_turn (turn_at S spec A T F K) (locked E (runner_projection S)) (\<lambda>_. turn_at S spec A T F K) (turn_at S spec A T F K)"
    by (rule turn_read [OF E K]) (metis runner_projection_def unchanged_world)
  have one: "valid_turn (turn_at S spec A T F K) (locked E (read_segment S entry)) (\<lambda>_. turn_at S spec A T F K) (turn_at S spec A T F K)" for entry
    by (rule turn_read [OF E K]) (metis read_segment_def unchanged_world)
  have "valid_turn (turn_at S spec A T F K) (read_segments S E entries) (\<lambda>_. turn_at S spec A T F K) (turn_at S spec A T F K)" for entries
    by (induction entries) (simp_all add: turn_return, intro turn_bind [OF one] turn_bind [rotated] turn_return)
  then show "valid_turn (turn_at S spec A T F K) (load_lineage_events S E p thread) (\<lambda>_. turn_at S spec A T F K) (turn_at S spec A T F K)"
    unfolding load_lineage_events_def by (intro turn_bind [OF turn_lift] turn_known)
qed

lemma step_reload:
  assumes E: "rely S (rc_turn ctx) E"
  shows "valid_turn (run_at S ctx T F m q) (reload_lineage_events S E thread) (\<lambda>_. run_at S ctx T F m q) (run_at S ctx T F m q)"
  unfolding reload_lineage_events_def by (rule turn_bind [OF step_lineage [OF E holding_stable]])

lemma step_stream:
  assumes E: "rely (ru_service R) (rc_turn ctx) E" and "rc_request_id ctx \<in> q"
  shows "valid_turn (run_at (ru_service R) ctx T F m q) (stream_model R E ctx cfg request) (\<lambda>_. run_at (ru_service R) ctx T F m q) (sound (ru_service R) (rc_spec ctx))"
proof -
  have eq: "stream_model R E ctx cfg request = abind (\<lambda>r. (r\<lparr>rn_tick := Suc (rn_tick r), rn_requests := rn_requests r @ [request]\<rparr>, Ok (mp_stream cfg (rn_tick r) request)))
       (\<lambda>s. drive R E ctx s sink_new)"
    by (simp add: stream_model_def fun_eq_iff)
  have sent: "valid_turn (run_at (ru_service R) ctx T F m q)
      (\<lambda>r. (r\<lparr>rn_tick := Suc (rn_tick r), rn_requests := rn_requests r @ [request]\<rparr>, Ok (mp_stream cfg (rn_tick r) request)))
      (\<lambda>_. run_at (ru_service R) ctx T F m q) (sound (ru_service R) (rc_spec ctx))"
    by (rule turn_local) simp
  show ?thesis unfolding eq by (rule turn_bind [OF sent step_drive [OF assms]])
qed

lemma step_request:
  assumes E: "rely (ru_service R) (rc_turn ctx) E"
  shows "valid_turn (between (ru_service R) ctx T) (request_round R E ctx cfg specs)
    (ends (turn_ends (ru_service R) (rc_spec ctx)) (\<lambda>_. between (ru_service R) ctx T)) (sound (ru_service R) (rc_spec ctx))"
  unfolding request_round_def Let_def
proof (rule turn_bind [OF turn_post [OF turn_catch [OF step_reload [OF E]], where R = "\<lambda>_. between (ru_service R) ctx T"]])
  fix events
  let ?S = "ru_service R" and ?q = "insert (rc_request_id ctx) {}"
  note fails = step_fail [OF E]
  have decided: "valid_turn (run_at ?S ctx T {} Map.empty ?q)
      (case (snd x, sk_model_failure (fst x)) of
         (Inl e, _) \<Rightarrow> fail_turn R E ctx Streaming (po_code e) (po_message e)
       | (Inr _, Some (code, message)) \<Rightarrow> fail_turn R E ctx Streaming code message
       | (Inr _, None) \<Rightarrow>
           if sk_completion_count (fst x) \<noteq> 1
           then fail_turn R E ctx Streaming ''provider_incomplete_stream''
             ''the provider stream did not contain exactly one completion event''
           else areturn (Go (fst x)))
      (ends (turn_ends ?S (rc_spec ctx)) (\<lambda>_. between ?S ctx T)) (sound ?S (rc_spec ctx))" for x
    by (auto split: sum.splits option.splits intro!: fails round_edges turn_return back_between)
  show "valid_turn (between ?S ctx T) (case rbind events (messages_from_lineage_events (ru_decode_blocks R)) of
        Inl e \<Rightarrow> fail_turn R E ctx RequestingModel ''context_build_failed'' (ru_runner_text R e)
      | Inr messages \<Rightarrow>
          (case validate_model_context (sv_externals ?S) (ru_encode_messages R) messages (mp_budget cfg)
                  (pca_max_context_tokens (mp_capabilities cfg)) of
             Inl e \<Rightarrow> fail_turn R E ctx RequestingModel ''context_budget_exceeded'' e
           | Inr _ \<Rightarrow>
               abind (locked E (persist_expected ?S ctx RequestingModel (ModelRequested (rc_request_id ctx)))) (\<lambda>_.
               abind (cancelled E ctx) (\<lambda>stopped.
               if stopped then cancel_turn R E ctx RequestingModel
               else
                 abind (locked E (transition_turn ?S ctx RequestingModel Streaming None)) (\<lambda>_.
                 abind (stream_model R E ctx cfg (model_request_for ctx cfg messages specs)) (\<lambda>x.
                 abind (cancelled E ctx) (\<lambda>stopped.
                 if stopped then cancel_turn R E ctx Streaming
                 else
                   (case (snd x, sk_model_failure (fst x)) of
                      (Inl e, _) \<Rightarrow> fail_turn R E ctx Streaming (po_code e) (po_message e)
                    | (Inr _, Some (code, message)) \<Rightarrow> fail_turn R E ctx Streaming code message
                    | (Inr _, None) \<Rightarrow>
                        if sk_completion_count (fst x) \<noteq> 1
                        then fail_turn R E ctx Streaming ''provider_incomplete_stream''
                          ''the provider stream did not contain exactly one completion event''
                        else areturn (Go (fst x))))))))))
    (ends (turn_ends ?S (rc_spec ctx)) (\<lambda>_. between ?S ctx T)) (sound ?S (rc_spec ctx))"
    by (intro turn_sum fails round_edges turn_bind [OF step_requested [OF E]] turn_bind [OF step_cancelled [OF E]] turn_if step_cancel [OF E]
        turn_bind [OF step_transition [OF E round_edges(3)]] turn_bind [OF step_stream [OF E]] decided) simp
qed (auto split: sum.splits)

lemma step_complete_round:
  assumes E: "rely (ru_service R) (rc_turn ctx) E"
  shows "valid_turn (between (ru_service R) ctx T) (complete_round R E ctx sink)
    (ends (turn_ends (ru_service R) (rc_spec ctx)) Q) (sound (ru_service R) (rc_spec ctx))"
  unfolding complete_round_def Let_def
  by (intro turn_bind [OF turn_uuid [OF E holding_stable]] turn_known turn_bind [OF step_now [OF E]] turn_stop step_complete [OF E]) simp_all

lemma step_read_calls:
  assumes E: "rely (ru_service R) (rc_turn ctx) E"
  shows "valid_turn (between (ru_service R) ctx T) (read_calls R E ctx cfg available calls_used sink)
    (ends (turn_ends (ru_service R) (rc_spec ctx)) (\<lambda>_ r. available \<and> between (ru_service R) ctx T r)) (sound (ru_service R) (rc_spec ctx))"
  unfolding read_calls_def Let_def
  by (intro turn_sum turn_if step_fail [OF E] round_edges step_complete_round [OF E] turn_return) simp

lemma step_agent_loop:
  assumes "rely (ru_service R) (rc_turn ctx) E"
  shows "valid_turn (between (ru_service R) ctx (registry \<noteq> None)) (agent_loop n R E ctx cfg specs registry grants first_round calls_used result_bytes)
    (ends (turn_ends (ru_service R) (rc_spec ctx)) Q) (sound (ru_service R) (rc_spec ctx))"
  using assms
proof (induction n arbitrary: ctx first_round calls_used result_bytes)
  case 0
  then show ?case unfolding agent_loop.simps by (intro step_fail round_edges)
next
  case (Suc n)
  let ?S = "ru_service R" and ?T = "registry \<noteq> None"
  note E = Suc.prems
  have drawn: "valid_turn (between ?S ctx ?T) (if first_round then areturn (rc_request_id ctx) else locked E (runner_uuid ?S)) (\<lambda>_. between ?S ctx ?T) (sound ?S (rc_spec ctx))"
    by (intro turn_if turn_return turn_post [OF turn_uuid [OF E holding_stable]]) (auto intro: back_between)
  have round: "valid_turn (between ?S ctx' ?T) (proceed (request_round R E ctx' cfg specs) (\<lambda>sink.
      proceed (read_calls R E ctx' cfg ?T calls_used sink) (\<lambda>calls.
      proceed (tool_round R E ctx' cfg specs (the registry) grants result_bytes (n = 0) (sk_content sink) calls) (\<lambda>bytes.
      agent_loop n R E ctx' cfg specs registry grants False (calls_used + length calls) bytes))))
      (ends (turn_ends ?S (rc_spec ctx')) Q) (sound ?S (rc_spec ctx'))" if E': "rely ?S (rc_turn ctx') E" for ctx'
  proof (rule turn_proceed [OF step_request [OF E']], rule turn_proceed [OF step_read_calls [OF E']], rule turn_known)
    fix sink calls assume ?T
    then have T: "?T = True" by simp
    show "valid_turn (between ?S ctx' ?T) (proceed (tool_round R E ctx' cfg specs (the registry) grants result_bytes (n = 0) (sk_content sink) calls) (\<lambda>bytes.
        agent_loop n R E ctx' cfg specs registry grants False (calls_used + length calls) bytes)) (ends (turn_ends ?S (rc_spec ctx')) Q) (sound ?S (rc_spec ctx'))"
      unfolding T by (rule turn_proceed [OF step_tool_round [OF E'] Suc.IH [OF E', unfolded T]])
  qed
  show ?case
    unfolding agent_loop.simps Let_def by (rule turn_bind [OF drawn]) (use round [of "ctx\<lparr>rc_request_id := u\<rparr>" for u] E in simp)
qed

section \<open>The phases before the rounds\<close>

lemma step_open_tools:
  assumes E: "rely (ru_service R) (rc_turn ctx) E"
  shows "valid_turn (between (ru_service R) ctx False) (open_tools R E ctx cfg)
    (ends (turn_ends (ru_service R) (rc_spec ctx)) (\<lambda>registry. between (ru_service R) ctx (registry \<noteq> None))) (sound (ru_service R) (rc_spec ctx))"
proof -
  let ?S = "ru_service R"
  have opened: "valid_turn (between ?S ctx False) (locked E (\<lambda>d. case workspace_open (sv_os ?S) (rc_workspace_root ctx) (dm_world d) of (w, r) \<Rightarrow> (d\<lparr>dm_world := w\<rparr>, Ok r)))
      (\<lambda>_. between ?S ctx False) (sound ?S (rc_spec ctx))"
    by (rule step_read [OF E]) (auto split: prod.splits)
  have installed: "valid_turn (between ?S ctx False) (\<lambda>r. (r\<lparr>rn_pipeline := Some pl\<rparr>, Ok (Go (Some reg))))
      (ends (turn_ends ?S (rc_spec ctx)) (\<lambda>registry. between ?S ctx (registry \<noteq> None))) (sound ?S (rc_spec ctx))" for pl reg
    by (auto simp: valid_turn_def turn_at_def)
  show ?thesis
    unfolding open_tools_def Let_def
    by (intro turn_if turn_bind [OF opened] turn_sum step_fail [OF E] round_edges installed turn_return) simp
qed

lemma step_phases:
  assumes E: "rely (ru_service R) (rc_turn ctx) E"
  shows "valid_turn (between (ru_service R) ctx False) (run_phases R E ctx) (ends (turn_ends (ru_service R) (rc_spec ctx)) Q) (sound (ru_service R) (rc_spec ctx))"
proof -
  let ?S = "ru_service R"
  have state: "valid_turn (between ?S ctx False) (locked E (current_state ?S ctx)) (\<lambda>_. between ?S ctx False) (sound ?S (rc_spec ctx))"
    by (rule step_read [OF E]) (auto simp: current_state_def abind_def runner_projection_def alift_def split: sum.splits intro: exI [of _ "dm_world d" for d] unchanged_world)
  note first = turn_bind [OF step_transition [OF E round_edges(1)]] and second = turn_bind [OF step_transition [OF E round_edges(2)]]
  show ?thesis
    unfolding run_phases_def Let_def
    by (intro turn_bind [OF state] turn_bind [OF step_cancelled [OF E]] turn_if step_cancel [OF E] first second turn_option step_fail [OF E] round_edges
        turn_proceed [OF step_open_tools [OF E]] step_agent_loop [OF E])
      (auto split: prod.splits intro!: step_fail [OF E] round_edges)
qed

text \<open>The turn as it was launched: it has no invocation.\<close>

definition idle :: "turn_view \<Rightarrow> bool" where
  "idle V \<longleftrightarrow> vw_invocations V = Map.empty"

lemma idle_stable: "stable idle"
  unfolding stable_def idle_def others_view_def by (auto simp: fun_eq_iff)

lemma idle_between:
  assumes "turn_at S spec A False F idle r" and "rc_spec ctx = spec"
  shows "between S ctx False r"
proof -
  obtain V where V: "at_turn S (keeping F) spec A [] V (rn_daemon r)" "vw_invocations V = Map.empty" using assms(1) by (auto simp: turn_at_def idle_def)
  then have "at_turn S (keeping F) spec (\<lambda>_. rc_agent_id ctx) [] V (rn_daemon r)"
    by (auto simp: at_turn_def shows_turn_def invocation_states_def fun_eq_iff split: option.splits if_splits)
  then have "at_turn S (keeping {}) spec (\<lambda>_. rc_agent_id ctx) [] V (rn_daemon r)" by (rule at_turn_less) simp
  moreover have "holding Map.empty {} V" using V(2) by (simp add: holding_def tracked_def)
  ultimately show ?thesis using assms by (auto simp: turn_at_def)
qed

lemma step_load:
  assumes E: "rely (ru_service R) (tr_turn_id spec) E"
  shows "valid_turn (turn_at (ru_service R) spec A False {} idle) (load_context R E spec i)
    (\<lambda>ctx r. rc_spec ctx = spec \<and> turn_at (ru_service R) spec A False {} idle r) (sound (ru_service R) spec)"
  unfolding load_context_def Let_def
  by (intro turn_bind [OF turn_error [OF step_lineage(1) [OF E idle_stable] turn_at_sound]] turn_bind [OF turn_lift [OF turn_at_sound]] turn_known turn_if
      turn_bind [OF turn_error [OF step_lineage(2) [OF E idle_stable] turn_at_sound]] turn_return turn_fail) (auto intro: turn_at_sound)

lemma step_inner:
  assumes E: "rely (ru_service R) (tr_turn_id spec) E"
  shows "valid_turn (turn_at (ru_service R) spec A False {} idle) (run_inner R E spec i) (turn_ends (ru_service R) spec) (sound (ru_service R) spec)"
  unfolding run_inner_def
proof (rule turn_bind [OF step_load [OF E]], rule turn_known)
  fix ctx :: run_context assume ctx: "rc_spec ctx = spec"
  let ?S = "ru_service R"
  have "valid_turn (between ?S ctx False) (run_phases R E ctx) (ends (turn_ends ?S (rc_spec ctx)) (\<lambda>_ _. False)) (sound ?S (rc_spec ctx))"
    by (rule step_phases) (use E ctx in simp)
  then have phases: "valid_turn (turn_at ?S spec A False {} idle) (run_phases R E ctx) (ends (turn_ends ?S spec) (\<lambda>_ _. False)) (sound ?S spec)"
    unfolding ctx by (rule turn_pre) (rule idle_between [OF _ ctx, unfolded ctx])
  show "valid_turn (turn_at ?S spec A False {} idle)
      (abind (run_phases R E ctx) (\<lambda>p. case p of Stop result \<Rightarrow> areturn result | Go _ \<Rightarrow> afail (RunnerPanic ''the loop ends with a result'')))
      (turn_ends ?S spec) (sound ?S spec)"
  proof (rule turn_bind [OF phases])
    fix p :: "unit phase"
    show "valid_turn (ends (turn_ends ?S spec) (\<lambda>_ _. False) p)
        (case p of Stop result \<Rightarrow> areturn result | Go _ \<Rightarrow> afail (RunnerPanic ''the loop ends with a result'')) (turn_ends ?S spec) (sound ?S spec)"
      by (cases p) (auto intro: turn_return turn_fail)
  qed
qed

section \<open>The settlement\<close>

lemma settle_any:
  "valid_run S (keeping {}) (daemon_ok S) (settle_interrupted_turn S spec) (\<lambda>s d. \<exists>A V. settles S (keeping {}) spec A V s d)"
proof (rule valid_run_cases)
  fix d assume "daemon_ok S d"
  then obtain es p where h: "at_history S (keeping {}) (\<lambda>_. True) es p [] d" by (auto simp: daemon_ok_def)
  then have p: "runner_projection S d = (d, Ok p)"
    using project_core_eq [of "sv_codec S" "sv_externals S" UNIV "dm_ledger d" es] by (auto simp: runner_projection_def at_history_def)
  let ?Q = "\<lambda>s d. \<exists>A V. settles S (keeping {}) spec A V s d"
  show "\<exists>P' m'. P' d \<and> settle_interrupted_turn S spec d = m' d \<and> valid_run S (keeping {}) P' m' ?Q"
  proof (cases "\<exists>t. bt_get (pr_turns p) (tr_turn_id spec) = Some t \<and> tu_thread_id t = tr_thread_id spec")
    case True
    then obtain t where "bt_get (pr_turns p) (tr_turn_id spec) = Some t" "tu_thread_id t = tr_thread_id spec" by blast
    from shows_view_of [OF this] have "shows_turn spec (agents_of p) p (view_of spec p (tu_state t))" .
    with h have "at_turn S (keeping {}) spec (agents_of p) [] (view_of spec p (tu_state t)) d" by (auto simp: at_turn_def)
    moreover have "valid_run S (keeping {}) (at_turn S (keeping {}) spec (agents_of p) [] (view_of spec p (tu_state t))) (settle_interrupted_turn S spec) ?Q"
      by (rule run_post [OF settle_run [OF own_keeping]]) blast
    ultimately show ?thesis by blast
  next
    case False
    then obtain e where "settle_interrupted_turn S spec d = (d, Err e)"
      using p by (cases "bt_get (pr_turns p) (tr_turn_id spec)") (auto simp: settle_interrupted_turn_def abind_def alift_def ok_or_def afail_def Let_def)
    then have "settle_interrupted_turn S spec d = afail e d" by (simp add: afail_def)
    moreover have "valid_run S (keeping {}) (at_history S (keeping {}) (\<lambda>_. True) es p []) (afail e) ?Q" by (rule run_fail(1))
    ultimately show ?thesis using h by blast
  qed
qed

text \<open>The result of a run after the settlement.\<close>

fun concluded :: "turn_run_result \<Rightarrow> turn_view \<Rightarrow> bool" where
  "concluded (RunCompleted _ _) V \<longleftrightarrow> vw_state V = turn_state.Completed \<and> \<not> pending_in V"
| "concluded (RunFailed _ _) V \<longleftrightarrow> vw_state V = turn_state.Failed \<and> \<not> unsettled_in V"
| "concluded (RunCancelled _) V \<longleftrightarrow> vw_state V = turn_state.Cancelled \<and> \<not> pending_in V"

definition concludes :: "'w service \<Rightarrow> turn_run_spec \<Rightarrow> turn_run_result \<Rightarrow> ('w, 'c) running \<Rightarrow> bool" where
  "concludes S spec result r \<longleftrightarrow>
     (\<forall>x \<in> set (rn_workers r). begun S spec x) \<and> (\<exists>A V. at_turn S (keeping {}) spec A [] V (rn_daemon r) \<and> concluded result V)"

definition settles_after ::
  "'w service \<Rightarrow> turn_run_spec \<Rightarrow> (turn_runner_error, turn_run_result) rust_result \<Rightarrow> turn_settlement \<Rightarrow> ('w, 'c) running \<Rightarrow> bool" where
  "settles_after S spec result s r \<longleftrightarrow>
     (\<forall>x \<in> set (rn_workers r). begun S spec x) \<and>
     (\<exists>A V. settles S (keeping {}) spec A V s (rn_daemon r) \<and> (case result of Inl _ \<Rightarrow> True | Inr x \<Rightarrow> reports x V))"

lemma sound_step: "rely S u E \<Longrightarrow> daemon_ok S d \<Longrightarrow> daemon_ok S (su_step E n d)"
  using daemon_ok_grown [of S d "by_others S u"] grown_ok_sound unfolding rely_def leaves_turn_def by blast

lemma step_settle:
  assumes E: "rely S (tr_turn_id spec) E"
  shows "valid_turn (\<lambda>r. case result of Inl _ \<Rightarrow> sound S spec r | Inr x \<Rightarrow> turn_ends S spec x r) (locked E (settle_interrupted_turn S spec))
    (settles_after S spec result) (sound S spec)"
  unfolding valid_turn_def
proof (intro allI impI)
  fix r r' y assume r: "case result of Inl _ \<Rightarrow> sound S spec r | Inr x \<Rightarrow> turn_ends S spec x r" and run: "locked E (settle_interrupted_turn S spec) r = (r', y)"
  let ?d = "su_step E (rn_tick r) (rn_daemon r)"
  obtain d where d: "settle_interrupted_turn S spec ?d = (d, y)" "rn_daemon r' = d" "rn_workers r' = rn_workers r" using run by (auto simp: locked_def split: prod.splits)
  have workers: "\<forall>x \<in> set (rn_workers r'). begun S spec x"
    using r d(3) by (auto simp: sound_def turn_ends_def turn_at_def split: sum.splits)
  have "case y of Inl _ \<Rightarrow> grown_ok S (keeping {}) d
      | Inr s \<Rightarrow> \<exists>A V. settles S (keeping {}) spec A V s d \<and> (case result of Inl _ \<Rightarrow> True | Inr x \<Rightarrow> reports x V)"
  proof (cases result)
    case (Inl e)
    then have "daemon_ok S ?d" using r sound_step [OF E] by (simp add: sound_def)
    from valid_runD [OF settle_any this d(1)] show ?thesis using Inl by (auto split: sum.splits)
  next
    case (Inr x)
    then obtain A V where "at_turn S (keeping {}) spec A [] V (rn_daemon r)" "reports x V" using r by (auto simp: turn_ends_def turn_at_def)
    with surroundings_step [OF E] reports_stable obtain V' where V': "at_turn S (keeping {}) spec A [] V' ?d" "reports x V'" unfolding stable_def by meson
    from valid_runD [OF settle_run [OF own_keeping] V'(1) d(1)] show ?thesis using Inr V'(2) by (auto split: sum.splits)
  qed
  then show "case y of Inl _ \<Rightarrow> sound S spec r' | Inr s \<Rightarrow> settles_after S spec result s r'"
    using d(2) workers by (auto simp: settles_after_def sound_def split: sum.splits dest: grown_ok_sound)
qed

lemma settles_sound: "settles_after S spec result s r \<Longrightarrow> sound S spec r"
  by (cases s) (auto simp: settles_after_def settles_def sound_def dest: at_turn_ok grown_ok_sound)

lemma unchanged_concludes: "settles_after S spec (Inr x) Unchanged r \<Longrightarrow> concludes S spec x r"
  by (cases x) (auto simp: settles_after_def settles_def concludes_def)

lemma settled_concludes:
  assumes "settles_after S spec result s r" and "s \<noteq> Unchanged"
    and "settled_result i (case s of SettledCancelled \<Rightarrow> RunCancelled | _ \<Rightarrow> (\<lambda>request. RunFailed request code)) result = Ok x"
  shows "concludes S spec x r"
proof -
  obtain j where "x = (case s of SettledCancelled \<Rightarrow> RunCancelled j | _ \<Rightarrow> RunFailed j code)"
    using assms(2,3) by (cases s) (auto simp: settled_result_def split: sum.splits turn_runner_error.splits)
  then show ?thesis using assms(1,2) by (cases s) (auto simp: settles_after_def settles_def concludes_def)
qed

lemma step_run:
  assumes E: "rely (ru_service R) (tr_turn_id spec) E"
  shows "valid_turn (turn_at (ru_service R) spec A False {} idle) (run_with_approval R E spec) (concludes (ru_service R) spec) (sound (ru_service R) spec)"
  unfolding run_with_approval_def
proof (rule turn_bind [OF turn_post [OF turn_uuid [OF E idle_stable], where R = "\<lambda>_. turn_at (ru_service R) spec A False {} idle"]])
  let ?S = "ru_service R"
  show "valid_turn (turn_at ?S spec A False {} idle) (abind (catch (run_inner R E spec i)) (\<lambda>result.
     abind (locked E (settle_interrupted_turn ?S spec)) (\<lambda>settlement.
     alift (case settlement of
         Unchanged \<Rightarrow> result
       | SettledCancelled \<Rightarrow> settled_result i RunCancelled result
       | FailedReconciliation \<Rightarrow>
           settled_result i (\<lambda>request. RunFailed request ''turn_cancellation_requires_reconciliation'') result))))
     (concludes ?S spec) (sound ?S spec)" for i
  proof (rule turn_bind [OF turn_catch [OF step_inner [OF E]]], rule turn_bind [OF step_settle [OF E]])
    fix result s
    show "valid_turn (settles_after ?S spec result s) (alift (case s of
         Unchanged \<Rightarrow> result
       | SettledCancelled \<Rightarrow> settled_result i RunCancelled result
       | FailedReconciliation \<Rightarrow>
           settled_result i (\<lambda>request. RunFailed request ''turn_cancellation_requires_reconciliation'') result))
       (concludes ?S spec) (sound ?S spec)"
      by (rule turn_post [OF turn_lift [OF settles_sound]], assumption, elim conjE, cases s)
        (auto intro: unchanged_concludes settled_concludes [where i = i and code = "''turn_cancellation_requires_reconciliation''"])
  qed
qed (auto elim: turn_at_weaken)

section \<open>The result of a run\<close>

text \<open>A turn as it is launched, and as a result describes it.\<close>

definition launched :: "'w service \<Rightarrow> turn_run_spec \<Rightarrow> ('w, 'c) running \<Rightarrow> bool" where
  "launched S spec r \<longleftrightarrow>
     daemon_ok S (rn_daemon r) \<and> rn_workers r = [] \<and>
     (case project_core (sv_codec S) (sv_externals S) (dm_ledger (rn_daemon r)) of
        Inl _ \<Rightarrow> False
      | Inr p \<Rightarrow>
          (case bt_get (pr_turns p) (tr_turn_id spec) of
             None \<Rightarrow> False
           | Some t \<Rightarrow> tu_thread_id t = tr_thread_id spec \<and> (\<forall>v \<in> set (bt_values (pr_invocations p)). \<not> of_turn spec v)))"

fun final_state :: "turn_run_result \<Rightarrow> turn_state" where
  "final_state (RunCompleted _ _) = turn_state.Completed"
| "final_state (RunFailed _ _) = turn_state.Failed"
| "final_state (RunCancelled _) = turn_state.Cancelled"

definition durable_result :: "'w service \<Rightarrow> turn_run_spec \<Rightarrow> turn_run_result \<Rightarrow> 'w daemon \<Rightarrow> bool" where
  "durable_result S spec result d \<longleftrightarrow>
     (case project_core (sv_codec S) (sv_externals S) (dm_ledger d) of
        Inl _ \<Rightarrow> False
      | Inr p \<Rightarrow>
          (case bt_get (pr_turns p) (tr_turn_id spec) of
             None \<Rightarrow> False
           | Some t \<Rightarrow>
               tu_state t = final_state result \<and>
               (\<forall>v \<in> set (bt_values (pr_invocations p)). \<not> of_turn spec v \<or> inv_is_terminal (pv_state v) \<or>
                  final_state result = turn_state.Failed \<and> pv_state v = invocation_state.Unknown)))"

lemma launched_idle:
  assumes "launched S spec r"
  shows "\<exists>A. turn_at S spec A False {} idle r"
proof -
  obtain es p where h: "at_history S (keeping {}) (\<lambda>_. True) es p [] (rn_daemon r)" using assms by (auto simp: launched_def daemon_ok_def)
  obtain t where t: "bt_get (pr_turns p) (tr_turn_id spec) = Some t" "tu_thread_id t = tr_thread_id spec" "\<forall>v \<in> set (bt_values (pr_invocations p)). \<not> of_turn spec v"
    using assms at_history_projects [OF h] by (auto simp: launched_def split: option.splits)
  have wf: "bt_wf (pr_invocations p)" using at_history_facts [OF h] by (simp add: history_facts_def proj_ok_def maps_wf_def)
  have "invocation_states spec p = Map.empty"
    using t(3) bt_values_iff [OF wf] by (auto simp: invocation_states_def fun_eq_iff split: option.splits)
  then have "idle (view_of spec p (tu_state t))" by (simp add: idle_def view_of_def)
  moreover have "at_turn S (keeping {}) spec (agents_of p) [] (view_of spec p (tu_state t)) (rn_daemon r)"
    using h shows_view_of [OF t(1,2)] by (auto simp: at_turn_def)
  ultimately show ?thesis using assms by (auto simp: turn_at_def launched_def)
qed

lemma concludes_durable:
  assumes "concludes S spec result r"
  shows "daemon_ok S (rn_daemon r) \<and> durable_result S spec result (rn_daemon r)"
proof -
  obtain A V where at: "at_turn S (keeping {}) spec A [] V (rn_daemon r)" and V: "concluded result V" using assms by (auto simp: concludes_def)
  then obtain es p where h: "at_history S (keeping {}) (\<lambda>_. True) es p [] (rn_daemon r)" and s: "shows_turn spec A p V" by (auto simp: at_turn_def)
  have wf: "bt_wf (pr_invocations p)" using at_history_facts [OF h] by (simp add: history_facts_def proj_ok_def maps_wf_def)
  note states = shown_states [OF s wf]
  have "inv_is_terminal (pv_state v) \<or> final_state result = turn_state.Failed \<and> pv_state v = invocation_state.Unknown"
    if "v \<in> set (bt_values (pr_invocations p))" "of_turn spec v" for v
    using V that states [of "\<lambda>s. \<not> inv_is_terminal s"] states [of "\<lambda>s. \<not> inv_is_terminal s \<and> s \<noteq> invocation_state.Unknown"]
    by (cases result) (auto simp: pending_in_def unsettled_in_def)
  moreover have "vw_state V = final_state result" using V by (cases result) auto
  ultimately show ?thesis
    using at_turn_ok [OF at] grown_ok_sound s at_history_projects [OF h] by (auto simp: durable_result_def shows_turn_def)
qed

lemma launched_run:
  assumes "launched (ru_service R) spec r" and "rely (ru_service R) (tr_turn_id spec) E" and "run_with_approval R E spec r = (r', y)"
  shows "case y of Inl _ \<Rightarrow> sound (ru_service R) spec r' | Inr x \<Rightarrow> concludes (ru_service R) spec x r'"
proof -
  obtain A where "turn_at (ru_service R) spec A False {} idle r" using launched_idle [OF assms(1)] by blast
  with step_run [OF assms(2), of A] assms(3) show ?thesis unfolding valid_turn_def by blast
qed


text \<open>
  C4: No tool runs ahead of the ledger. Whenever a run spawns a worker, the ledger already says
  that the invocation of the worker belongs to the turn and has started; this holds for every
  worker of the run, also when the run ends with an error, and whatever clients and other turns
  do meanwhile. A daemon that stops at any moment therefore finds every tool that may have run.
\<close>

theorem workers_start_after_their_record:
  assumes "launched (ru_service R) spec r" and "rely (ru_service R) (tr_turn_id spec) E"
  shows "list_all (begun (ru_service R) spec) (rn_workers (fst (run_with_approval R E spec r)))"
proof -
  obtain r' y where "run_with_approval R E spec r = (r', y)" by fastforce
  with launched_run [OF assms this] show ?thesis by (auto simp: sound_def concludes_def list_all_iff split: sum.splits)
qed

end
