(* ===== verification/Turn_Discipline.thy ===== *)
theory Turn_Discipline
  imports Turn_Rely
begin

text \<open>
  What a run may start, whatever its surroundings do: a worker reads only, or the client has
  approved exactly the invocation that it executes; and the numbers of model requests and of
  workers stay within the limits of the configuration.
\<close>

section \<open>Operations that start nothing\<close>

definition tame :: "('w, 'c, 'a) turn_run \<Rightarrow> bool" where
  "tame m \<longleftrightarrow>
     (\<forall>r r' y. m r = (r', y) \<longrightarrow>
        rn_workers r' = rn_workers r \<and> rn_requests r' = rn_requests r \<and> (\<exists>as. rn_answers r' = rn_answers r @ as))"

named_theorems tame_rules \<open>operations that start nothing\<close>

lemma tame_bind [tame_rules]:
  assumes "tame m" and "\<And>x. tame (f x)"
  shows "tame (abind m f)"
  unfolding tame_def
proof (intro allI impI)
  fix r r' y assume run: "abind m f r = (r', y)"
  obtain r1 y1 where m: "m r = (r1, y1)" by fastforce
  with assms(1) obtain as where one: "rn_workers r1 = rn_workers r" "rn_requests r1 = rn_requests r" "rn_answers r1 = rn_answers r @ as"
    unfolding tame_def by blast
  show "rn_workers r' = rn_workers r \<and> rn_requests r' = rn_requests r \<and> (\<exists>as. rn_answers r' = rn_answers r @ as)"
  proof (cases y1)
    case (Inl e)
    then show ?thesis using run m one by (auto simp: abind_def)
  next
    case (Inr x)
    then have "f x r1 = (r', y)" using run m by (simp add: abind_def)
    with assms(2) obtain bs where "rn_workers r' = rn_workers r1" "rn_requests r' = rn_requests r1" "rn_answers r' = rn_answers r1 @ bs"
      unfolding tame_def by blast
    then show ?thesis using one by simp
  qed
qed

lemma tame_basic [tame_rules]:
  "tame (areturn x)" "tame (afail e)" "tame (alift y)" "tame (locked E op)" "tame (ask g)" "tame has_pipeline"
  "tame (on_pipeline E f)" "tame (consult handler params)" "tame (signal h i)"
  by (auto simp: tame_def areturn_def afail_def alift_def locked_def ask_def has_pipeline_def on_pipeline_def consult_def signal_def Let_def
      split: prod.splits option.splits)

lemma tame_if [tame_rules]: "tame m \<Longrightarrow> tame n \<Longrightarrow> tame (if b then m else n)"
  by simp

lemma tame_option [tame_rules]: "tame m \<Longrightarrow> (\<And>x. tame (f x)) \<Longrightarrow> tame (case v of None \<Rightarrow> m | Some x \<Rightarrow> f x)"
  by (cases v) auto

lemma tame_sum [tame_rules]: "(\<And>e. tame (g e)) \<Longrightarrow> (\<And>x. tame (f x)) \<Longrightarrow> tame (case v of Inl e \<Rightarrow> g e | Inr x \<Rightarrow> f x)"
  by (cases v) auto

lemma tame_phase [tame_rules]: "(\<And>e. tame (g e)) \<Longrightarrow> (\<And>x. tame (f x)) \<Longrightarrow> tame (case v of Stop e \<Rightarrow> g e | Go x \<Rightarrow> f x)"
  by (cases v) auto

lemma tame_pair [tame_rules]: "(\<And>x y. tame (f x y)) \<Longrightarrow> tame (case v of (x, y) \<Rightarrow> f x y)"
  by (cases v) auto

lemma tame_catch [tame_rules]: "tame m \<Longrightarrow> tame (catch m)"
  unfolding tame_def catch_def by (auto split: prod.splits)

lemma tame_proceed [tame_rules]: "tame m \<Longrightarrow> (\<And>x. tame (f x)) \<Longrightarrow> tame (proceed m f)"
  unfolding proceed_def by (intro tame_rules)

lemma tame_stop [tame_rules]: "tame m \<Longrightarrow> tame (stop m)"
  unfolding stop_def by (intro tame_rules)

lemma tame_reads [tame_rules]:
  "tame (cancelled E ctx)" "tame (read_world E)" "tame (fail_turn R E ctx frm code message)" "tame (cancel_turn R E ctx frm)" "tame (search_slot E ctx v)"
  unfolding cancelled_def read_world_def fail_turn_def cancel_turn_def search_slot_def by (intro tame_rules)+

lemma tame_lineage [tame_rules]: "tame (load_lineage_events S E p t)" "tame (reload_lineage_events S E t)"
proof -
  have "tame (read_segments S E entries)" for entries by (induction entries) (auto intro: tame_rules)
  then show "tame (load_lineage_events S E p t)" for p unfolding load_lineage_events_def by (intro tame_rules)
  then show "tame (reload_lineage_events S E t)" unfolding reload_lineage_events_def by (intro tame_rules)
qed

lemma tame_load [tame_rules]: "tame (load_context R E spec i)"
  unfolding load_context_def Let_def by (intro tame_rules)

lemma tame_drive [tame_rules]: "tame (drive R E ctx s sink)"
  by (induction s arbitrary: sink) (auto intro!: tame_rules)

lemma tame_prepare [tame_rules]: "tame (prepare_call R E ctx specs registry grants call)"
  unfolding prepare_call_def Let_def by (intro tame_rules)

lemma tame_authorize [tame_rules]:
  "tame (approve_in_ledger S E ctx i reason)" "tame (ask_approval R E ctx prepared)" "tame (request_approval R E ctx prepared)"
  "tame (authorize R E ctx v)"
proof -
  show approve: "tame (approve_in_ledger S E ctx i reason)" for S i reason unfolding approve_in_ledger_def by (intro tame_rules)
  show ask: "tame (ask_approval R E ctx prepared)" for prepared unfolding ask_approval_def by (intro tame_rules)
  show request: "tame (request_approval R E ctx prepared)" for prepared unfolding request_approval_def Let_def by (intro tame_rules ask)
  show "tame (authorize R E ctx v)" unfolding authorize_def Let_def by (intro tame_rules approve request)
qed

lemma tame_wait [tame_rules]: "tame (wait_for_tool_worker E ctx i)"
proof -
  have "tame (wait_loop E ctx i polls)" for polls
  proof (induction polls)
    case (Cons p polls)
    then show ?case by (cases p) (auto intro!: tame_rules)
  qed (auto intro!: tame_rules)
  then show ?thesis unfolding wait_for_tool_worker_def by (intro tame_rules)
qed

lemma tame_settle [tame_rules]: "tame (settle_cancelled R E ctx v handle)" "tame (settle_siblings R E ctx hs)"
proof -
  show "tame (settle_cancelled R E ctx v handle)" unfolding settle_cancelled_def Let_def by (intro tame_rules)
  have "tame (settle_sibling R E ctx h)" for h unfolding settle_sibling_def Let_def by (intro tame_rules)
  then show "tame (settle_siblings R E ctx hs)" by (induction hs) (auto intro!: tame_rules)
qed

lemma tame_integrate [tame_rules]: "tame (integrate R E ctx max_bytes hs y)"
proof (induction hs arbitrary: y)
  case (Cons h hs)
  have "tame (outcome_of R E ctx v handle)" for v handle unfolding outcome_of_def by (intro tame_rules)
  moreover have "tame (record_outcome R E ctx max_bytes y v later c stopped)" for v later c stopped
    unfolding record_outcome_def Let_def by (intro tame_rules)
  ultimately have "tame (integrate_one R E ctx max_bytes y (fst h) (snd h) hs)"
    unfolding integrate_one_def by (intro tame_rules)
  then show ?case using Cons by (auto intro!: tame_rules)
qed (auto intro!: tame_rules)

lemma tame_round [tame_rules]: "tame (close_round R E ctx last_round y)" "tame (complete_round R E ctx sink)"
  unfolding close_round_def complete_round_def Let_def by (intro tame_rules)+

section \<open>Consent\<close>

text \<open>The client approved this invocation, and sent no binding of its own.\<close>

definition consents :: "answers \<Rightarrow> prepared_invocation \<Rightarrow> bool" where
  "consents as prepared \<longleftrightarrow>
     list_ex (\<lambda>(params, response). aq_invocation params = prepared\<lparr>pi_approval := None\<rparr> \<and> ar_approved response \<and> ar_approval response = None) as"

definition permitted :: "'w spawned \<Rightarrow> bool" where
  "permitted x \<longleftrightarrow>
     (case sw_worker x of
        PipelineWorker i prepared \<Rightarrow> pi_invocation_id prepared = i \<and> pi_approval prepared \<noteq> None \<and> consents (sw_answers x) prepared
      | ReadOnlyWorker _ _ _ _ _ effects \<Rightarrow> is_read_only effects)"

text \<open>An invocation as it was prepared, and one that the run may start.\<close>

definition sealed :: "pending_invocation \<Rightarrow> bool" where
  "sealed v \<longleftrightarrow>
     (case pd_prepared v of
        None \<Rightarrow> True
      | Some prepared \<Rightarrow>
          pi_invocation_id prepared = pd_invocation_id v \<and> pi_approval prepared = None \<and> pi_effects prepared = pd_effects v \<and>
          \<not> is_read_only (pd_effects v))"

definition vouched :: "answers \<Rightarrow> pending_invocation \<Rightarrow> bool" where
  "vouched as v \<longleftrightarrow>
     pd_preparation_failure v \<noteq> None \<or>
     (case pd_prepared v of
        None \<Rightarrow> is_read_only (pd_effects v)
      | Some prepared \<Rightarrow> pi_invocation_id prepared = pd_invocation_id v \<and> pi_approval prepared \<noteq> None \<and> consents as prepared)"

lemma consents_mono: "consents as prepared \<Longrightarrow> consents (as @ bs) prepared"
  by (simp add: consents_def)

lemma vouched_mono: "vouched as v \<Longrightarrow> vouched (as @ bs) v"
  unfolding vouched_def by (auto split: option.splits intro: consents_mono)

text \<open>
  The run has started only what it may, the invocations of \<open>W\<close> are cleared for their start, and
  there were at most \<open>a\<close> requests and \<open>b\<close> workers.
\<close>

definition disciplined :: "pending_invocation set \<Rightarrow> nat \<Rightarrow> nat \<Rightarrow> ('w, 'c) running \<Rightarrow> bool" where
  "disciplined W a b r \<longleftrightarrow>
     list_all permitted (rn_workers r) \<and> (\<forall>v \<in> W. vouched (rn_answers r) v) \<and> length (rn_requests r) \<le> a \<and> length (rn_workers r) \<le> b"

lemma disciplined_weaken: "disciplined W a b r \<Longrightarrow> W' \<subseteq> W \<Longrightarrow> a \<le> a' \<Longrightarrow> b \<le> b' \<Longrightarrow> disciplined W' a' b' r"
  by (auto simp: disciplined_def)

lemma tame_disciplined:
  assumes "tame m" and "a \<le> a'" and "b \<le> b'"
  shows "valid_turn (disciplined W a b) m (\<lambda>_. disciplined W a b) (disciplined {} a' b')"
  unfolding valid_turn_def
proof (intro allI impI)
  fix r r' y assume r: "disciplined W a b r" and "m r = (r', y)"
  with assms(1) obtain as where "rn_workers r' = rn_workers r" "rn_requests r' = rn_requests r" "rn_answers r' = rn_answers r @ as"
    unfolding tame_def by blast
  then have "disciplined W a b r'" using r by (auto simp: disciplined_def intro: vouched_mono)
  then show "case y of Inl _ \<Rightarrow> disciplined {} a' b' r' | Inr _ \<Rightarrow> disciplined W a b r'"
    using disciplined_weaken [of W a b r' "{}" a' b'] assms(2,3) by (cases y) auto
qed

text \<open>What a call of the pipeline returns.\<close>

lemma turn_fact:
  assumes "valid_turn P m Q X" and "\<And>r r' x. m r = (r', Inr x) \<Longrightarrow> G x"
  shows "valid_turn P m (\<lambda>x r. G x \<and> Q x r) X"
  unfolding valid_turn_def
proof (intro allI impI)
  fix r r' y assume "P r" and "m r = (r', y)"
  with assms show "case y of Inl _ \<Rightarrow> X r' | Inr x \<Rightarrow> G x \<and> Q x r'" unfolding valid_turn_def by (cases y) fastforce+
qed

lemma turn_pipeline:
  assumes "\<And>n pl pl' x. f n pl = (pl', x) \<Longrightarrow> G x" and "a \<le> a'" and "b \<le> b'"
  shows "valid_turn (disciplined W a b) (on_pipeline E f) (\<lambda>x r. (\<forall>y. x = Some y \<longrightarrow> G y) \<and> disciplined W a b r) (disciplined {} a' b')"
  by (rule turn_fact [OF tame_disciplined [OF tame_basic(7) assms(2,3)]])
    (use assms(1) in \<open>auto simp: on_pipeline_def split: option.splits prod.splits\<close>)

lemma prepare_sealed:
  assumes "prepare X pl w tool version arguments ictx token now = (pl', Ok prepared)"
  shows "pi_invocation_id prepared = ic_invocation_id ictx \<and> pi_approval prepared = None"
  using prepare_Ok [OF assms] by (auto simp: prepared_of_def)

lemma step_sealed:
  assumes "a \<le> a'" and "b \<le> b'"
  shows "valid_turn (disciplined W a b) (prepare_call R E ctx specs registry grants call) (\<lambda>v r. sealed v \<and> disciplined W a b r) (disciplined {} a' b')"
proof -
  note go = turn_bind [OF tame_disciplined [OF _ assms]]
  have plain: "sealed (pending_for i call version timeout arguments effects problem None)" for i version timeout arguments effects problem
    by (simp add: sealed_def pending_for_def)
  show ?thesis
    unfolding prepare_call_def Let_def
    apply (rule go, rule tame_rules, rule go, rule tame_rules, rule turn_sum, rule turn_return, use plain in simp)
    apply (rule go, rule tame_rules, rule turn_if, rule turn_return, use plain in simp, rule go, rule tame_rules, rule go, rule tame_rules)
    subgoal for i
    apply (rule turn_bind [OF turn_pipeline [where G = "\<lambda>y. \<forall>prepared. y = Ok prepared \<longrightarrow> pi_invocation_id prepared = i \<and> pi_approval prepared = None", OF _ assms]])
     apply (use prepare_sealed in \<open>fastforce simp: pipeline_context_def\<close>)
    apply (rule turn_known, rule turn_return)
    apply (use plain in \<open>auto simp: sealed_def pending_for_def split: option.splits sum.splits\<close>)
    done
    done
qed

text \<open>The answer of the client to a request for this invocation.\<close>

definition answered :: "prepared_invocation \<Rightarrow> approval_request_result \<Rightarrow> answers \<Rightarrow> bool" where
  "answered prepared response as \<longleftrightarrow>
     ar_approved response \<longrightarrow> (\<exists>params. (params, response) \<in> set as \<and> aq_invocation params = prepared)"

lemma tame_answered:
  assumes "tame m" and "a \<le> a'" and "b \<le> b'"
  shows "valid_turn (\<lambda>r. answered prepared response (rn_answers r) \<and> disciplined W a b r) m
    (\<lambda>_ r. answered prepared response (rn_answers r) \<and> disciplined W a b r) (disciplined {} a' b')"
  unfolding valid_turn_def
proof (intro allI impI)
  fix r r' y assume r: "answered prepared response (rn_answers r) \<and> disciplined W a b r" and run: "m r = (r', y)"
  with assms(1) obtain as where "rn_answers r' = rn_answers r @ as" unfolding tame_def by blast
  then have "answered prepared response (rn_answers r')" using r by (auto simp: answered_def)
  with r run tame_disciplined [OF assms, of W] show "case y of Inl _ \<Rightarrow> disciplined {} a' b' r'
    | Inr _ \<Rightarrow> answered prepared response (rn_answers r') \<and> disciplined W a b r'"
    unfolding valid_turn_def by (cases y) fastforce+
qed

lemma step_ask:
  assumes "a \<le> a'" and "b \<le> b'"
  shows "valid_turn (disciplined W a b) (ask_approval R E ctx prepared)
    (\<lambda>response r. answered prepared response (rn_answers r) \<and> disciplined W a b r) (disciplined {} a' b')"
proof -
  note go = turn_bind [OF tame_disciplined [OF _ assms]]
  have denied: "valid_turn (disciplined W a b) (areturn deny_approval)
      (\<lambda>response r. answered prepared response (rn_answers r) \<and> disciplined W a b r) (disciplined {} a' b')"
    by (rule turn_return) (simp add: answered_def deny_approval_def)
  have asked: "valid_turn (disciplined W a b) (consult handler params)
      (\<lambda>response r. answered prepared response (rn_answers r) \<and> disciplined W a b r) (disciplined {} a' b')"
    if "aq_invocation params = prepared" for handler params
    using that by (auto simp: valid_turn_def consult_def Let_def answered_def disciplined_def intro: vouched_mono)
  show ?thesis
    unfolding ask_approval_def
    by (rule go, rule tame_rules, rule turn_if, rule denied, rule turn_option, rule denied, rule go, rule tame_rules,
        rule turn_bind [OF turn_pipeline [where G = "\<lambda>params. aq_invocation params = prepared", OF _ assms]],
        simp add: approval_request_def, rule turn_known, rule turn_option, rule denied, rule asked) blast
qed

lemma accepted_response:
  assumes "accept_approval_response X pl prepared approved binding t t' i = (pl', Ok prepared')" and "\<not> is_read_only (pi_effects prepared)"
  shows "approved \<and> binding = None \<and> (\<exists>b. prepared' = prepared\<lparr>pi_approval := Some b\<rparr>)"
  using assms by (auto simp: accept_approval_response_def approve_once_def requires_approval_def rbind_eq_Inr split: if_splits prod.splits sum.splits)

lemma step_consent:
  assumes "a \<le> a'" and "b \<le> b'" and p: "pi_approval prepared = None" "\<not> is_read_only (pi_effects prepared)"
  shows "valid_turn (disciplined W a b) (request_approval R E ctx prepared)
    (\<lambda>y r. (\<forall>x. y = Ok x \<longrightarrow> pi_invocation_id x = pi_invocation_id prepared \<and> pi_approval x \<noteq> None \<and> consents (rn_answers r) x) \<and> disciplined W a b r)
    (disciplined {} a' b')"
proof -
  note go = turn_bind [OF tame_disciplined [OF _ assms(1,2)]] and kept = turn_bind [OF tame_answered [OF _ assms(1,2)]]
  have consent: "consents as (prepared\<lparr>pi_approval := Some b\<rparr>)" if "answered prepared response as" "ar_approved response" "ar_approval response = None" for b response as
  proof -
    have "prepared\<lparr>pi_approval := None\<rparr> = prepared" using p(1) by (simp add: prepared_invocation.equality)
    then show ?thesis using that by (force simp: consents_def answered_def list_ex_iff)
  qed
  have accepted: "ar_approved response \<and> ar_approval response = None \<and> (\<exists>b. x = prepared\<lparr>pi_approval := Some b\<rparr>)"
    if "on_pipeline E (\<lambda>n pl. accept_approval_response (sv_externals (ru_service R)) pl prepared (ar_approved response) (ar_approval response)
          (ru_clock R (2 * n)) (ru_clock R (2 * n + 1)) (ru_approval_id R n)) r = (r', Ok (Some (Ok x)))" for response r r' x
    using that by (auto simp: on_pipeline_def split: option.splits prod.splits dest!: accepted_response [OF _ p(2)])
  show ?thesis
    unfolding request_approval_def Let_def
    apply (rule go, rule tame_rules, rule turn_if, rule turn_return, simp, rule go, rule tame_rules)
    apply (rule turn_bind [OF step_ask [OF assms(1,2)]], rule kept, rule tame_rules)
    subgoal for present transition response
      apply (rule turn_bind [OF turn_fact [OF tame_answered [OF tame_basic(7) assms(1,2)], where G = "\<lambda>z. \<forall>x. z = Some (Ok x) \<longrightarrow>
          ar_approved response \<and> ar_approval response = None \<and> (\<exists>b. x = prepared\<lparr>pi_approval := Some b\<rparr>)"]])
       apply (use accepted in blast)
      apply (rule turn_return, use consent in \<open>auto split: option.splits sum.splits\<close>)
      done
    done
qed

lemma disciplined_insert: "vouched (rn_answers r) v \<Longrightarrow> disciplined W a b r \<Longrightarrow> disciplined (insert v W) a b r"
  by (simp add: disciplined_def)

lemma step_cleared:
  assumes "a \<le> a'" and "b \<le> b'" and v: "sealed v"
  shows "valid_turn (disciplined W a b) (authorize R E ctx v) (\<lambda>v'. disciplined (insert v' W) a b) (disciplined {} a' b')"
proof -
  let ?X = "disciplined {} a' b'"
  have plain: "valid_turn (disciplined W a b) (areturn w) (\<lambda>v'. disciplined (insert v' W) a b) ?X" if "\<And>as. vouched as w" for w
    using that by (intro turn_return disciplined_insert)
  have recorded: "valid_turn (disciplined (insert w W) a b) (abind (approve_in_ledger S E ctx i reason) (\<lambda>_. areturn w)) (\<lambda>v'. disciplined (insert v' W) a b) ?X"
    for w S i reason
    by (intro turn_bind [OF tame_disciplined [OF tame_authorize(1) assms(1,2)]] turn_return)
  have consented: "valid_turn (disciplined W a b)
      (abind (if is_read_only (pi_effects p) then areturn (Ok (v\<lparr>pd_prepared := None\<rparr>))
         else abind (request_approval R E ctx p) (\<lambda>r. areturn (case r of
             Inr approved \<Rightarrow> Ok (v\<lparr>pd_prepared := None\<rparr>\<lparr>pd_prepared := Some approved\<rparr>)
           | Inl problem \<Rightarrow> Err (v\<lparr>pd_prepared := None\<rparr>\<lparr>pd_preparation_failure := Some problem\<rparr>)))) f)
      (\<lambda>v'. disciplined (insert v' W) a b) ?X"
    if p: "pd_prepared v = Some p" "\<not> is_read_only (pd_effects v)"
      and f: "\<And>y. valid_turn (\<lambda>r. disciplined (insert (case y of Inl w \<Rightarrow> w | Inr w \<Rightarrow> w) W) a b r) (f y) (\<lambda>v'. disciplined (insert v' W) a b) ?X" for p f
  proof (rule turn_bind [OF _ f])
    have s: "pi_invocation_id p = pd_invocation_id v" "pi_approval p = None" "pi_effects p = pd_effects v" using v p(1) by (simp_all add: sealed_def)
    show "valid_turn (disciplined W a b) (if is_read_only (pi_effects p) then areturn (Ok (v\<lparr>pd_prepared := None\<rparr>))
         else abind (request_approval R E ctx p) (\<lambda>r. areturn (case r of
             Inr approved \<Rightarrow> Ok (v\<lparr>pd_prepared := None\<rparr>\<lparr>pd_prepared := Some approved\<rparr>)
           | Inl problem \<Rightarrow> Err (v\<lparr>pd_prepared := None\<rparr>\<lparr>pd_preparation_failure := Some problem\<rparr>))))
        (\<lambda>y r. disciplined (insert (case y of Inl w \<Rightarrow> w | Inr w \<Rightarrow> w) W) a b r) ?X"
      by (rule turn_if, use s p in simp, rule turn_bind [OF step_consent [OF assms(1,2)]], use s p in simp, use s p in simp, rule turn_return, rule disciplined_insert)
        (use s in \<open>auto simp: vouched_def split: sum.splits\<close>)
  qed
  show ?thesis
    unfolding authorize_def Let_def
    apply (rule turn_if, rule plain, simp add: vouched_def)
    apply (rule turn_if, rule turn_pre [OF recorded], rule disciplined_insert, use v in \<open>simp add: vouched_def sealed_def split: option.splits\<close>, assumption)
    apply (rule turn_option, rule plain, simp add: vouched_def)
    subgoal for p
      apply (rule consented, assumption, assumption)
      subgoal for y by (cases y) (auto intro: turn_return recorded)
      done
    done
qed

lemma step_cleared_all:
  assumes "a \<le> a'" and "b \<le> b'" and "\<forall>v \<in> set vs. sealed v"
  shows "valid_turn (disciplined W a b) (authorize_all R E ctx vs)
    (\<lambda>vs' r. length vs' = length vs \<and> disciplined (set vs' \<union> W) a b r) (disciplined {} a' b')"
  using assms(3)
proof (induction vs arbitrary: W)
  case (Cons v vs)
  have "valid_turn (disciplined (insert v' W) a b) (abind (authorize_all R E ctx vs) (\<lambda>vs'. areturn (v' # vs')))
      (\<lambda>vs' r. length vs' = length (v # vs) \<and> disciplined (set vs' \<union> W) a b r) (disciplined {} a' b')" for v'
    by (rule turn_bind [OF Cons.IH], use Cons.prems in simp, rule turn_return) auto
  then show ?case
    unfolding authorize_all.simps by (rule turn_bind [OF step_cleared [OF assms(1,2)], rotated]) (use Cons.prems in simp)
qed (simp add: turn_return)

lemma step_prepared_all:
  assumes "a \<le> a'" and "b \<le> b'"
  shows "valid_turn (disciplined W a b) (prepare_calls R E ctx specs registry grants calls)
    (\<lambda>vs r. (length vs = length calls \<and> (\<forall>v \<in> set vs. sealed v)) \<and> disciplined W a b r) (disciplined {} a' b')"
proof (induction calls)
  case (Cons call calls)
  have "valid_turn (\<lambda>r. sealed v \<and> disciplined W a b r) (abind (prepare_calls R E ctx specs registry grants calls) (\<lambda>vs. areturn (v # vs)))
      (\<lambda>vs r. (length vs = length (call # calls) \<and> (\<forall>v \<in> set vs. sealed v)) \<and> disciplined W a b r) (disciplined {} a' b')" for v
    by (rule turn_known, rule turn_bind [OF Cons.IH], rule turn_return) auto
  then show ?case unfolding prepare_calls.simps by (rule turn_bind [OF step_sealed [OF assms]])
qed (simp add: turn_return)

lemma step_spawned:
  assumes "a \<le> a'" and "Suc b \<le> b'" and v: "v \<in> W" "pd_preparation_failure v = None"
  shows "valid_turn (disciplined W a b) (launch ctx (v\<lparr>pd_started := True\<rparr>)) (\<lambda>_. disciplined W a (Suc b)) (disciplined {} a' b')"
  unfolding valid_turn_def
proof (intro allI impI)
  fix r r' y assume r: "disciplined W a b r" and run: "launch ctx (v\<lparr>pd_started := True\<rparr>) r = (r', y)"
  then have "vouched (rn_answers r) v" using v(1) by (simp add: disciplined_def)
  with r run v(2) have "disciplined W a (Suc b) r'"
    by (auto simp: launch_def abind_def has_pipeline_def spawn_def areturn_def disciplined_def vouched_def permitted_def split: option.splits if_splits)
  then show "case y of Inl _ \<Rightarrow> disciplined {} a' b' r' | Inr _ \<Rightarrow> disciplined W a (Suc b) r'"
    using disciplined_weaken [of W a "Suc b" r' "{}" a' b'] assms(1,2) by (cases y) auto
qed

lemma step_starts:
  assumes "a \<le> a'" and "b + length vs \<le> b'" and "set vs \<subseteq> W"
  shows "valid_turn (disciplined W a b) (start_all R E ctx vs) (\<lambda>_. disciplined W a (b + length vs)) (disciplined {} a' b')"
  using assms(2,3)
proof (induction vs arbitrary: b)
  case (Cons v vs)
  have b: "b \<le> b'" "Suc b \<le> b'" using Cons.prems by simp_all
  note go = turn_bind [OF tame_disciplined [OF _ assms(1) b(1)]]
  have skipped: "valid_turn (disciplined W a b) (areturn h) (\<lambda>_. disciplined W a (Suc b)) (disciplined {} a' b')" for h :: "pending_invocation \<times> bool"
    by (rule turn_return) (erule disciplined_weaken; simp)
  have "valid_turn (disciplined W a b) (start_invocation R E ctx v) (\<lambda>_. disciplined W a (Suc b)) (disciplined {} a' b')"
    unfolding start_invocation_def
    by (intro turn_if go skipped tame_rules step_spawned [OF assms(1) b(2)]) (use Cons.prems in auto)
  moreover have "valid_turn (disciplined W a (Suc b)) (abind (start_all R E ctx vs) (\<lambda>hs. areturn (h # hs))) (\<lambda>_. disciplined W a (b + length (v # vs)))
      (disciplined {} a' b')" for h
    by (rule turn_bind [OF Cons.IH]) (use Cons.prems in \<open>auto intro: turn_return\<close>)
  ultimately show ?case unfolding start_all.simps by (rule turn_bind)
qed (simp add: turn_return)

section \<open>Rounds\<close>

lemma step_tools:
  assumes "a \<le> a'" and "b + length calls \<le> b'"
  shows "valid_turn (disciplined {} a b) (tool_round R E ctx cfg specs registry grants result_bytes last_round content calls)
    (\<lambda>_. disciplined {} a (b + length calls)) (disciplined {} a' b')"
proof -
  have b: "b \<le> b'" using assms(2) by simp
  note go = turn_bind [OF tame_disciplined [OF _ assms(1) b]]
  have proposals: "valid_turn (disciplined {} a b) (persist_tool_proposals R E ctx calls specs registry grants content)
      (\<lambda>vs r. (length vs = length calls \<and> (\<forall>v \<in> set vs. sealed v)) \<and> disciplined {} a b r) (disciplined {} a' b')"
    unfolding persist_tool_proposals_def
    by (rule turn_bind [OF step_prepared_all [OF assms(1) b]], rule turn_known, rule go, rule tame_rules, rule turn_return) simp
  have finish: "valid_turn (disciplined W a c) (proceed (integrate R E ctx n hs y) (close_round R E ctx last_round)) (\<lambda>_. disciplined {} a c) (disciplined {} a' b')"
    if "c \<le> b'" for W c n hs y
    by (rule turn_post [OF tame_disciplined [OF _ assms(1) that]], intro tame_rules) (erule disciplined_weaken; simp)
  show ?thesis
    unfolding tool_round_def Let_def
    by (rule go, rule tame_rules, rule turn_bind [OF proposals], rule turn_known, elim conjE, rule go, rule tame_rules,
        rule turn_bind [OF step_cleared_all [OF assms(1) b]], assumption, rule turn_known, rule go, rule tame_rules, rule go, rule tame_rules,
        rule turn_bind [OF step_starts [OF assms(1)]], use assms(2) in simp, simp, simp, rule finish) (use assms(2) in simp)
qed

lemma step_asks:
  assumes "Suc a \<le> a'" and "b \<le> b'"
  shows "valid_turn (disciplined {} a b) (request_round R E ctx cfg specs) (\<lambda>_. disciplined {} (Suc a) b) (disciplined {} a' b')"
proof -
  have a: "a \<le> a'" using assms(1) by simp
  note go = turn_bind [OF tame_disciplined [OF _ a assms(2)]] and after = turn_bind [OF tame_disciplined [OF _ assms]]
  have stopped: "valid_turn (disciplined {} a b) m (\<lambda>_. disciplined {} (Suc a) b) (disciplined {} a' b')" if "tame m" for m :: "('a, 'b, 'c) turn_run"
    by (rule turn_post [OF tame_disciplined [OF that a assms(2)]]) (erule disciplined_weaken; simp)
  have over: "valid_turn (disciplined {} (Suc a) b) m (\<lambda>_. disciplined {} (Suc a) b) (disciplined {} a' b')" if "tame m" for m :: "('a, 'b, 'c) turn_run"
    by (rule tame_disciplined [OF that assms])
  have sent: "valid_turn (disciplined {} a b) (stream_model R E ctx cfg request) (\<lambda>_. disciplined {} (Suc a) b) (disciplined {} a' b')" for request
  proof -
    have eq: "stream_model R E ctx cfg request = abind (\<lambda>r. (r\<lparr>rn_tick := Suc (rn_tick r), rn_requests := rn_requests r @ [request]\<rparr>, Ok (mp_stream cfg (rn_tick r) request)))
        (\<lambda>s. drive R E ctx s sink_new)"
      by (simp add: stream_model_def fun_eq_iff)
    show ?thesis
      unfolding eq
      by (rule turn_bind [where R = "\<lambda>_. disciplined {} (Suc a) b"], simp add: valid_turn_def disciplined_def, rule tame_disciplined [OF tame_drive assms])
  qed
  show ?thesis
    unfolding request_round_def Let_def
    apply (rule go, intro tame_rules, rule turn_sum, rule stopped, intro tame_rules, rule turn_sum, rule stopped, intro tame_rules)
    apply (rule go, rule tame_rules, rule go, rule tame_rules, rule turn_if, rule stopped, intro tame_rules, rule go, rule tame_rules)
    apply (rule turn_bind [OF sent], rule over, intro tame_rules)
    done
qed

lemma stop_never_goes [simp]: "stop m r \<noteq> (r', Ok (Go x))"
  by (auto simp: stop_def abind_def areturn_def split: prod.splits sum.splits)

lemma step_counts:
  assumes "a \<le> a'" and "b \<le> b'" and "al_max_tool_calls (mp_loop_limits cfg) < u64_max"
  shows "valid_turn (disciplined {} a b) (read_calls R E ctx cfg available calls_used sink)
    (\<lambda>p r. (\<forall>calls. p = Go calls \<longrightarrow> calls_used + length calls \<le> al_max_tool_calls (mp_loop_limits cfg)) \<and> disciplined {} a b r) (disciplined {} a' b')"
proof (rule turn_fact [OF tame_disciplined [OF _ assms(1,2)]])
  show "tame (read_calls R E ctx cfg available calls_used sink)" unfolding read_calls_def Let_def by (intro tame_rules)
  have ends: "complete_round R E ctx sink r \<noteq> (r', Ok (Go x))" for r r' and x :: "assembled_tool_call list"
    by (auto simp: complete_round_def Let_def abind_def split: prod.splits sum.splits)
  fix r r' p assume "read_calls R E ctx cfg available calls_used sink r = (r', Ok p)"
  then show "\<forall>calls. p = Go calls \<longrightarrow> calls_used + length calls \<le> al_max_tool_calls (mp_loop_limits cfg)"
    using ends assms(3)
    by (auto simp: read_calls_def Let_def fail_turn_def areturn_def saturating_add_def split: sum.splits if_splits)
qed

lemma step_loops:
  assumes limit: "al_max_tool_calls (mp_loop_limits cfg) < u64_max"
    and "a + n \<le> a'" and "calls_used \<le> al_max_tool_calls (mp_loop_limits cfg)" and "b + (al_max_tool_calls (mp_loop_limits cfg) - calls_used) \<le> b'"
  shows "valid_turn (disciplined {} a b) (agent_loop n R E ctx cfg specs registry grants first_round calls_used result_bytes)
    (\<lambda>_. disciplined {} a' b') (disciplined {} a' b')"
  using assms(2-4)
proof (induction n arbitrary: a b ctx first_round calls_used result_bytes)
  case 0
  then show ?case
    unfolding agent_loop.simps by (intro turn_post [OF tame_disciplined [OF tame_reads(3)]]) (auto elim: disciplined_weaken)
next
  case (Suc n)
  let ?D = "disciplined {} a' b'"
  have ab: "a \<le> a'" "Suc a \<le> a'" "b \<le> b'" using Suc.prems by simp_all
  note weak = disciplined_weaken [of "{}" _ _ _ "{}" a' b']
  have asks: "valid_turn (disciplined {} a b) (request_round R E ctx' cfg specs) (ends (\<lambda>_. ?D) (\<lambda>_. disciplined {} (Suc a) b)) ?D" for ctx'
    by (rule turn_post [OF step_asks [OF ab(2,3)]]) (use ab weak in \<open>auto simp: ends_def split: phase.splits\<close>)
  have counts: "valid_turn (disciplined {} (Suc a) b) (read_calls R E ctx' cfg available calls_used sink)
      (ends (\<lambda>_. ?D) (\<lambda>calls r. calls_used + length calls \<le> al_max_tool_calls (mp_loop_limits cfg) \<and> disciplined {} (Suc a) b r)) ?D" for ctx' available sink
    by (rule turn_post [OF step_counts [OF ab(2,3) limit]]) (use ab weak in \<open>auto simp: ends_def split: phase.splits\<close>)
  have tools: "valid_turn (disciplined {} (Suc a) b) (proceed (tool_round R E ctx' cfg specs reg grants result_bytes last content calls)
        (agent_loop n R E ctx' cfg specs registry grants False (calls_used + length calls))) (\<lambda>_. ?D) ?D"
    if "calls_used + length calls \<le> al_max_tool_calls (mp_loop_limits cfg)" for ctx' reg last content calls
  proof -
    have c: "b + length calls \<le> b'" "b + length calls + (al_max_tool_calls (mp_loop_limits cfg) - (calls_used + length calls)) \<le> b'" "Suc a + n \<le> a'"
      using that Suc.prems by simp_all
    have "valid_turn (disciplined {} (Suc a) b) (proceed (tool_round R E ctx' cfg specs reg grants result_bytes last content calls)
        (agent_loop n R E ctx' cfg specs registry grants False (calls_used + length calls))) (ends (\<lambda>_. ?D) (\<lambda>_. ?D)) ?D"
    proof (rule turn_proceed)
      show "valid_turn (disciplined {} (Suc a) b) (tool_round R E ctx' cfg specs reg grants result_bytes last content calls)
          (ends (\<lambda>_. ?D) (\<lambda>_. disciplined {} (Suc a) (b + length calls))) ?D"
        by (rule turn_post [OF step_tools [OF ab(2) c(1)]]) (use weak [OF _ subset_refl ab(2) c(1)] in \<open>auto simp: ends_def split: phase.splits\<close>)
      show "valid_turn (disciplined {} (Suc a) (b + length calls)) (agent_loop n R E ctx' cfg specs registry grants False (calls_used + length calls) bytes)
          (ends (\<lambda>_. ?D) (\<lambda>_. ?D)) ?D" for bytes
        by (rule turn_post [OF Suc.IH [OF c(3) that c(2)]]) (simp add: ends_def split: phase.splits)
    qed
    then show ?thesis by (rule turn_post) (simp add: ends_def split: phase.splits)
  qed
  have "valid_turn (disciplined {} a b) (proceed (request_round R E ctx' cfg specs) (\<lambda>sink.
      proceed (read_calls R E ctx' cfg (registry \<noteq> None) calls_used sink) (\<lambda>calls.
      proceed (tool_round R E ctx' cfg specs (the registry) grants result_bytes (n = 0) (sk_content sink) calls) (\<lambda>bytes.
      agent_loop n R E ctx' cfg specs registry grants False (calls_used + length calls) bytes)))) (ends (\<lambda>_. ?D) (\<lambda>_. ?D)) ?D" for ctx'
    by (rule turn_proceed [OF asks turn_proceed [OF counts turn_known [OF turn_post [OF tools]]]]) (simp_all add: ends_def split: phase.splits)
  then have round: "valid_turn (disciplined {} a b) (proceed (request_round R E ctx' cfg specs) (\<lambda>sink.
      proceed (read_calls R E ctx' cfg (registry \<noteq> None) calls_used sink) (\<lambda>calls.
      proceed (tool_round R E ctx' cfg specs (the registry) grants result_bytes (n = 0) (sk_content sink) calls) (\<lambda>bytes.
      agent_loop n R E ctx' cfg specs registry grants False (calls_used + length calls) bytes)))) (\<lambda>_. ?D) ?D" for ctx'
    by (rule turn_post) (simp add: ends_def split: phase.splits)
  show ?case
    unfolding agent_loop.simps Let_def
    by (rule turn_bind [OF tame_disciplined [OF _ ab(1,3)]], intro tame_rules, rule round)
qed

section \<open>A whole run\<close>

definition model_rounds :: "('w, 'c) runner \<Rightarrow> nat" where
  "model_rounds R = (case ru_provider R of None \<Rightarrow> 0 | Some cfg \<Rightarrow> min (al_max_model_rounds (mp_loop_limits cfg)) MAX_MODEL_ROUNDS_HARD)"

definition tool_calls :: "('w, 'c) runner \<Rightarrow> nat" where
  "tool_calls R = (case ru_provider R of None \<Rightarrow> 0 | Some cfg \<Rightarrow> min (al_max_tool_calls (mp_loop_limits cfg)) MAX_TOOL_CALLS_HARD)"

lemma tame_open [tame_rules]: "tame (open_tools R E ctx cfg)"
proof -
  have "tame (\<lambda>r. (r\<lparr>rn_pipeline := Some pl\<rparr>, Ok x))" for pl and x :: 'x by (simp add: tame_def)
  then show ?thesis unfolding open_tools_def Let_def by (intro tame_rules)
qed

lemma configured_limits:
  assumes "configuration_error provider = None"
  shows "\<exists>cfg. provider = Some cfg \<and> al_max_model_rounds (mp_loop_limits cfg) \<le> MAX_MODEL_ROUNDS_HARD \<and>
    al_max_tool_calls (mp_loop_limits cfg) \<le> MAX_TOOL_CALLS_HARD"
  using assms by (auto simp: configuration_error_def Let_def split: option.splits if_splits)

lemma step_phases_disciplined:
  "valid_turn (disciplined {} a b) (run_phases R E ctx) (\<lambda>_. disciplined {} (a + model_rounds R) (b + tool_calls R)) (disciplined {} (a + model_rounds R) (b + tool_calls R))"
proof -
  let ?D = "disciplined {} (a + model_rounds R) (b + tool_calls R)"
  note go = turn_bind [OF tame_disciplined [OF _ le_add1 le_add1]]
  have over: "valid_turn (disciplined {} a b) m (\<lambda>_. ?D) ?D" if "tame m" for m :: "('a, 'b, 'c) turn_run"
    by (rule turn_post [OF tame_disciplined [OF that le_add1 le_add1]]) (erule disciplined_weaken; simp)
  have loop: "valid_turn (disciplined {} a b) (agent_loop (al_max_model_rounds (mp_loop_limits (the (ru_provider R)))) R E ctx (the (ru_provider R)) specs registry grants True 0 0)
      (\<lambda>_. ?D) ?D" if c: "configuration_error (ru_provider R) = None" for specs registry grants
  proof -
    obtain cfg where cfg: "ru_provider R = Some cfg" "al_max_model_rounds (mp_loop_limits cfg) \<le> MAX_MODEL_ROUNDS_HARD"
        "al_max_tool_calls (mp_loop_limits cfg) \<le> MAX_TOOL_CALLS_HARD" using configured_limits [OF c] by blast
    then show ?thesis
      by (intro step_loops) (simp_all add: model_rounds_def tool_calls_def MAX_TOOL_CALLS_HARD_def u64_max_def)
  qed
  have opened: "valid_turn (disciplined {} a b) (proceed (open_tools R E ctx (the (ru_provider R))) f) (\<lambda>_. ?D) ?D"
    if "\<And>registry. valid_turn (disciplined {} a b) (f registry) (\<lambda>_. ?D) ?D" for f
  proof -
    have "valid_turn (disciplined {} a b) (proceed (open_tools R E ctx (the (ru_provider R))) f) (ends (\<lambda>_. ?D) (\<lambda>_. ?D)) ?D"
    proof (rule turn_proceed)
      show "valid_turn (disciplined {} a b) (open_tools R E ctx (the (ru_provider R))) (ends (\<lambda>_. ?D) (\<lambda>_. disciplined {} a b)) ?D"
        by (rule turn_post [OF tame_disciplined [OF tame_open le_add1 le_add1]])
          (use disciplined_weaken [of "{}" a b _ "{}" "a + model_rounds R" "b + tool_calls R"] in \<open>auto simp: ends_def split: phase.splits\<close>)
      show "valid_turn (disciplined {} a b) (f registry) (ends (\<lambda>_. ?D) (\<lambda>_. ?D)) ?D" for registry
        by (rule turn_post [OF that]) (simp add: ends_def split: phase.splits)
    qed
    then show ?thesis by (rule turn_post) (simp add: ends_def split: phase.splits)
  qed
  show ?thesis
    unfolding run_phases_def Let_def
    apply (rule go, rule tame_rules, rule go, rule tame_rules, rule turn_if, rule over, rule tame_rules, rule go, rule tame_rules)
    apply (rule turn_option, rule go, rule tame_rules, rule turn_if, rule over, rule tame_rules, rule turn_option)
      apply (rule opened, rule go, rule tame_rules, rule loop, assumption)
     apply (rule over, intro tame_rules)
    apply (rule over, rule tame_rules)
    done
qed

lemma step_run_disciplined:
  "valid_turn (disciplined {} a b) (run_with_approval R E spec) (\<lambda>_. disciplined {} (a + model_rounds R) (b + tool_calls R))
     (disciplined {} (a + model_rounds R) (b + tool_calls R))"
proof -
  let ?D = "disciplined {} (a + model_rounds R) (b + tool_calls R)"
  note go = turn_bind [OF tame_disciplined [OF _ le_add1 le_add1]] and after = turn_bind [OF tame_disciplined [OF _ order_refl order_refl]]
  have inner: "valid_turn (disciplined {} a b) (run_inner R E spec i) (\<lambda>_. ?D) ?D" for i
    unfolding run_inner_def
    by (rule go, rule tame_rules, rule turn_bind [OF step_phases_disciplined], rule tame_disciplined [OF _ order_refl order_refl], intro tame_rules)
  show ?thesis
    unfolding run_with_approval_def
    by (rule go, rule tame_rules, rule turn_bind [OF turn_post [OF turn_catch [OF inner], where R = "\<lambda>_. ?D"]], simp split: sum.splits,
        rule after, rule tame_rules, rule tame_disciplined [OF _ order_refl order_refl], rule tame_rules)
qed

text \<open>A run that has not begun.\<close>

definition unstarted :: "('w, 'c) running \<Rightarrow> bool" where
  "unstarted r \<longleftrightarrow> rn_workers r = [] \<and> rn_requests r = []"

lemma unstarted_run:
  assumes "unstarted r"
  shows "disciplined {} (model_rounds R) (tool_calls R) (fst (run_with_approval R E spec r))"
proof -
  have "disciplined {} 0 0 r" using assms by (simp add: unstarted_def disciplined_def)
  moreover obtain r' y where "run_with_approval R E spec r = (r', y)" by fastforce
  ultimately show ?thesis
    using step_run_disciplined [of 0 0 R E spec] unfolding valid_turn_def by (fastforce split: sum.splits)
qed

section \<open>Properties\<close>

text \<open>
  C5: A run starts no side effect without consent. Whatever the model asks for and whatever the
  surroundings do, every worker that a run spawns either is the read-only executor with
  effects that only read, or executes a sealed invocation with an approval of the daemon; and
  then, before the worker was spawned, the client answered a request that showed exactly this
  invocation with an approval, and sent no binding of its own.
\<close>

theorem side_effects_need_consent:
  assumes "unstarted r"
  shows "list_all permitted (rn_workers (fst (run_with_approval R E spec r)))"
  using unstarted_run [OF assms] by (simp add: disciplined_def)

text \<open>
  C37: A run stays within its limits: it sends at most as many requests to the model, and starts
  at most as many tools, as the configuration allows; never more than the hard limits of the
  daemon; and none at all without a provider.
\<close>

theorem run_stays_within_limits:
  assumes "unstarted r"
  shows "case ru_provider R of
      None \<Rightarrow> unstarted (fst (run_with_approval R E spec r))
    | Some cfg \<Rightarrow>
        length (rn_requests (fst (run_with_approval R E spec r))) \<le> min (al_max_model_rounds (mp_loop_limits cfg)) MAX_MODEL_ROUNDS_HARD \<and>
        length (rn_workers (fst (run_with_approval R E spec r))) \<le> min (al_max_tool_calls (mp_loop_limits cfg)) MAX_TOOL_CALLS_HARD"
  using unstarted_run [OF assms, of R E spec] by (auto simp: disciplined_def model_rounds_def tool_calls_def unstarted_def split: option.splits)

end
