(* ===== verification/Demo_Turn.thy ===== *)
theory Demo_Turn
  imports Turn_Result Turn_Discipline
begin

text \<open>
  The turn runner among the clients of the daemon: whatever frames they send, they keep to the
  rely of \<open>Turn_Rely\<close>. The demo daemon runs the turn of the interrupted conversation, which
  gives the theorem on the results of turns a concrete run.
\<close>

section \<open>Clients as surroundings\<close>

definition frames_step ::
  "'w service \<Rightarrow> wire \<Rightarrow> nat \<Rightarrow> (nat \<Rightarrow> frame option \<times> connection) \<Rightarrow> nat \<Rightarrow> 'w daemon \<Rightarrow> 'w daemon" where
  "frames_step S W limit sent n d = fst (handle_frame S W limit (fst (sent n)) (d, snd (sent n)))"

lemma frames_leave_turn: "leaves_turn S u (frames_step S W limit sent n)"
  by (rule clients_leave_turn) (metis frames_step_def handle_frame_keeps prod.collapse)

lemma clients_rely:
  assumes "sv_executes_turns S" and "su_step E = frames_step S W limit sent"
  shows "rely S u E"
  by (simp add: rely_def assms frames_leave_turn)

section \<open>The demo turn\<close>

definition demo_spec :: turn_run_spec where
  "demo_spec = \<lparr>tr_thread_id = 2, tr_turn_id = 1\<rparr>"

definition demo_runner :: "(string \<times> string option, unit) runner" where
  "demo_runner =
     \<lparr>ru_service = demo_service, ru_provider = None, ru_host_ceiling = Operate,
      ru_built_ins = (\<lambda>_ _ _. Err (registry_error.UnknownTool [] [])), ru_token = (\<lambda>_. []), ru_approval_id = (\<lambda>_. 0), ru_clock = int,
      ru_parse = (\<lambda>_. Err []), ru_decode_blocks = (\<lambda>_. Err []), ru_decode_grant = (\<lambda>_. Err []), ru_encode_messages = (\<lambda>_. []),
      ru_runner_text = (\<lambda>_. []), ru_registry_text = (\<lambda>_. []), ru_pipeline_text = (\<lambda>_. []), ru_assembly_text = (\<lambda>_. []),
      ru_workspace_text = (\<lambda>_. [])\<rparr>"

text \<open>Surroundings in which nothing happens.\<close>

definition quiet :: "(string \<times> string option) surroundings" where
  "quiet =
     \<lparr>su_step = (\<lambda>_ d. d), su_tables = (\<lambda>_ tables. tables), su_permit = (\<lambda>_. True), su_gates = (\<lambda>_. bt_empty),
      su_gate_free = (\<lambda>_. True), su_approval = None, su_polls = (\<lambda>_. []), su_grace = (\<lambda>_. None)\<rparr>"

definition demo_running :: "ledger \<Rightarrow> (string \<times> string option, unit) running" where
  "demo_running db =
     \<lparr>rn_daemon = demo_daemon db, rn_tick = 0, rn_pipeline = None, rn_workers = [], rn_signalled = [], rn_requests = [], rn_answers = []\<rparr>"

section \<open>A step that appends\<close>

lemma fresh_event_appends:
  assumes "ledger_wf db" and "nl_event_id e \<notin> stored_ids db" and "length (lg_events db) < i64_max"
  shows "append_event stored db e = Ok (push_row db (sequenced e (next_seq db (nl_thread_id e))), row_to_event stored (sequenced e (next_seq db (nl_thread_id e))))"
proof -
  let ?ev = "sequenced e (next_seq db (nl_thread_id e))"
  have ok: "allocate_and_insert db e = Ok (push_row db ?ev)" "ledger_wf (push_row db ?ev)"
    using allocate_and_insert_wf [OF assms(1,2)] assms(3) by (auto simp: Let_def)
  then show ?thesis
    using assms(2) get_event_None [of stored db "nl_event_id e"] stored_event [OF ok(2), of ?ev stored]
    by (simp add: append_event_def inserted_event_def ok_or_def)
qed

text \<open>
  A run step by step: where the turn stands, and how many identifiers and rows the daemon has
  used. There is room for a hundred of each.
\<close>

definition stands :: "run_context \<Rightarrow> turn_state \<Rightarrow> nat \<Rightarrow> (string \<times> string option) daemon \<Rightarrow> bool" where
  "stands ctx s n d \<longleftrightarrow>
     at_ctx demo_service (keeping {}) ctx [] \<lparr>vw_state = s, vw_invocations = Map.empty, vw_requests = {}\<rparr> d \<and>
     dm_active d = bt_empty \<and> dm_ids d < n \<and> length (lg_events (dm_ledger d)) < n \<and> n < 100"

lemma stands_state:
  assumes "stands ctx s n d"
  shows "current_state demo_service ctx d = (d, Ok s)"
proof -
  obtain es p where "at_history demo_service (keeping {}) (\<lambda>_. True) es p [] d"
      "\<exists>t. bt_get (pr_turns p) (rc_turn ctx) = Some t \<and> tu_state t = s"
    using assms by (auto simp: stands_def at_turn_def shows_turn_def)
  then show ?thesis
    using at_history_projects by (fastforce simp: current_state_def runner_projection_def abind_def alift_def ok_or_def)
qed

lemma persist_runs:
  assumes d: "stands ctx s n d" and "\<not> turn_is_terminal s" and "n < 99"
    and ev: "enabled plain_externals (rc_spec ctx) [] \<lparr>vw_state = s, vw_invocations = Map.empty, vw_requests = {}\<rparr> [ev]
      \<lparr>vw_state = s', vw_invocations = Map.empty, vw_requests = {}\<rparr>"
  shows "\<exists>d' env. persist_locked demo_service ctx ev d = (d', Ok env) \<and> stands ctx s' (Suc n) d'"
proof -
  let ?V = "\<lambda>s. \<lparr>vw_state = s, vw_invocations = Map.empty, vw_requests = {}\<rparr>"
  obtain es p where h: "at_history demo_service (keeping {}) (\<lambda>_. True) es p [] d" using d by (auto simp: stands_def at_turn_def)
  obtain u where u: "demo_ids (dm_ids d) = Ok u" using d by (auto simp: stands_def demo_ids_def)
  have wf: "ledger_wf (dm_ledger d)" using h by (simp add: at_history_def holds_envelopes_def)
  have fresh: "uuid_str plain_externals u \<notin> stored_ids (dm_ledger d)"
    using drawn_not_stored [OF draw_uuid(2) [OF h]] u by simp
  let ?e = "\<lambda>time. draft u (rc_thread ctx) (Some (rc_turn ctx)) (rc_agent_id ctx) time (uuid_str plain_externals (rc_request_id ctx)) ev"
  have "\<exists>d' env. persist_locked demo_service ctx ev d = (d', Ok env) \<and> dm_active d' = dm_active d \<and> dm_ids d' = Suc (dm_ids d) \<and>
      length (lg_events (dm_ledger d')) = Suc (length (lg_events (dm_ledger d)))"
  proof -
    have stored: "cd_stored total_codec = (\<lambda>v. v)" using total_codec_ok by (simp add: port_codec_ok_def codec_okD(1))
    have id: "nl_event_id (input_of total_codec plain_externals (?e time)) = uuid_str plain_externals u" for time by (simp add: input_of_def Let_def)
    have "envelope_of total_codec (sequenced (input_of total_codec plain_externals (?e time)) k) = Ok ((?e time)\<lparr>en_seq := k\<rparr>)" for time k
      using envelope_of_row [OF total_codec_ok input_row [OF total_codec_ok]] by (simp add: accepts_def)
    moreover have "append_event (cd_stored total_codec) (dm_ledger d) (input_of total_codec plain_externals (?e time)) =
        Ok (push_row (dm_ledger d) (sequenced (input_of total_codec plain_externals (?e time)) k), sequenced (input_of total_codec plain_externals (?e time)) k)"
      if "k = next_seq (dm_ledger d) (nl_thread_id (input_of total_codec plain_externals (?e time)))" for time k
      using fresh_event_appends [OF wf, of "input_of total_codec plain_externals (?e time)"] fresh id d that by (simp add: stored stands_def i64_max_def)
    ultimately show ?thesis
      using stands_state [OF d] assms(2) u total_codec_ok
      by (simp add: persist_locked_def abind_def new_ledger_event_locked_def new_scoped_eq runner_uuid_def runner_now_def areturn_def runner_ledger_def alift_def)
  qed
  moreover have "at_ctx demo_service (keeping {}) ctx [] (?V s') d'" if "persist_locked demo_service ctx ev d = (d', Ok env)" for d' env
    using valid_runD [OF run_persist_locked [where V = "?V s" and V' = "?V s'" and us = "[]"] _ that] ev d by (auto simp: stands_def)
  ultimately show ?thesis using d assms(3) by (fastforce simp: stands_def)
qed

lemma transition_runs:
  assumes "stands ctx s n d" and "\<not> turn_is_terminal s" and "n < 99" and "can_transition_turn s s'"
  shows "\<exists>d' env. transition_locked demo_service ctx s s' reason d = (d', Ok env) \<and> stands ctx s' (Suc n) d'"
  using persist_runs [OF assms(1-3), of "TurnStateChanged (rc_turn ctx) s s' reason" s'] assms(4) stands_state [OF assms(1)]
  by (simp add: transition_locked_def abind_def enabled_simps)

lemma fail_runs:
  assumes d: "stands ctx s n d" and s: "\<not> turn_is_terminal s" "s \<noteq> Cancelling" and "n < 90"
  shows "\<exists>d'. fail demo_service ctx s code message d = (d', Ok (RunFailed (rc_request_id ctx) (normalize_code code))) \<and>
    stands ctx turn_state.Failed (Suc (Suc n)) d'"
proof -
  obtain d1 env where one: "persist_locked demo_service ctx (RuntimeDiagnostic (normalize_code code) (bounded_message message) False) d = (d1, Ok env)"
      "stands ctx s (Suc n) d1"
    using persist_runs [OF d s(1), of "RuntimeDiagnostic (normalize_code code) (bounded_message message) False" s] assms(4) by (auto simp: enabled_simps)
  obtain d2 env2 where "transition_locked demo_service ctx s turn_state.Failed (Some (bounded_message message)) d1 = (d2, Ok env2)"
      "stands ctx turn_state.Failed (Suc (Suc n)) d2"
    using transition_runs [OF one(2) s(1)] closing_transitions(1) [OF s(1)] assms(4) by fastforce
  with one(1) stands_state [OF d] s(2) show ?thesis by (simp add: fail_def fail_with_def abind_def areturn_def)
qed

section \<open>The run\<close>

lemma demo_projection:
  "\<exists>p t. replay plain_externals interrupted_conversation = Ok p \<and> pr_invocations p = [] \<and> bt_get (pr_turns p) 1 = Some t \<and>
     tu_thread_id t = 2 \<and> tu_agent_id t = ''root'' \<and> tu_state t = Accepted \<and>
     (\<exists>th w. pr_threads p = [(2, th)] \<and> th_parent_thread_id th = None \<and> th_workspace_id th = 5 \<and> bt_get (pr_workspaces p) 5 = Some w)"
  by (simp add: interrupted_conversation_def sample_conversation_def replay_simps)

lemma demo_segment:
  assumes "holds_envelopes total_codec plain_externals UNIV (dm_ledger d) interrupted_conversation"
  shows "read_segment demo_service (2, None) d = (d, Ok interrupted_conversation)"
proof -
  have "port_load_thread total_codec plain_externals (dm_ledger d) 2 0 = Ok interrupted_conversation"
    using port_load [OF assms, of 2] by (simp add: events_of_thread_def interrupted_conversation_def sample_conversation_def sample_envelope_def)
  then show ?thesis
    by (auto simp: read_segment_def port_load_thread_def collect_results_Inr rbind_eq_Inr split: sum.splits)
qed

lemma demo_loads:
  assumes h: "holds_envelopes total_codec plain_externals UNIV (dm_ledger (rn_daemon r)) interrupted_conversation"
  shows "\<exists>r' ctx. load_context demo_runner quiet demo_spec request r = (r', Ok ctx) \<and> rn_daemon r' = rn_daemon r \<and>
    rc_spec ctx = demo_spec \<and> rc_agent_id ctx = ''root'' \<and> rc_request_id ctx = request \<and> rc_turn_override_error ctx = None"
proof -
  have "turn_override_value 1 interrupted_conversation = None"
    by (simp add: turn_override_value_def interrupted_conversation_def sample_conversation_def sample_envelope_def sample_item_def json_get_def)
  then show ?thesis
    using demo_projection demo_segment [OF h] project_core_eq [OF h]
    by (auto simp: load_context_def demo_runner_def quiet_def demo_spec_def locked_def runner_projection_def abind_def alift_def ok_or_def areturn_def
        load_lineage_events_def lineage_def bt_get_def)
qed

lemma locked_quiet: "locked quiet m r = (case m (rn_daemon r) of (d, x) \<Rightarrow> (r\<lparr>rn_daemon := d, rn_tick := Suc (rn_tick r)\<rparr>, x))"
  by (simp add: locked_def quiet_def)

lemma demo_phases:
  assumes d: "stands ctx Accepted n (rn_daemon r)" and "n < 80" and ctx: "rc_turn_override_error ctx = None"
  shows "\<exists>r' n'. run_phases demo_runner quiet ctx r = (r', Ok (Stop (RunFailed (rc_request_id ctx) ''provider_unconfigured''))) \<and>
    stands ctx turn_state.Failed n' (rn_daemon r')"
proof -
  obtain d1 env where one: "transition_locked demo_service ctx Accepted BuildingContext None (rn_daemon r) = (d1, Ok env)" "stands ctx BuildingContext (Suc n) d1"
    using transition_runs [OF d, of BuildingContext None] assms(2) by (auto simp: turn_is_terminal_def can_transition_turn_def turn_edges_def)
  have code: "normalize_code ''provider_unconfigured'' = ''provider_unconfigured''" by code_simp
  obtain d2 where "fail demo_service ctx BuildingContext ''provider_unconfigured'' ''no model provider is configured for this daemon'' d1 =
      (d2, Ok (RunFailed (rc_request_id ctx) ''provider_unconfigured''))" "stands ctx turn_state.Failed (Suc (Suc (Suc n))) d2"
    using fail_runs [OF one(2), of "''provider_unconfigured''"] assms(2) code by (fastforce simp: turn_is_terminal_def)
  moreover have "dm_active (rn_daemon r) = bt_empty" "dm_active d1 = bt_empty" using d one(2) by (simp_all add: stands_def)
  ultimately show ?thesis
    using one(1) stands_state [OF d] ctx
    by (auto simp: run_phases_def Let_def abind_def locked_quiet cancelled_def is_cancelled_def transition_turn_def configuration_error_def
        fail_turn_def stop_def areturn_def demo_runner_def)
qed

lemma demo_settles:
  assumes "stands ctx turn_state.Failed n d" and "rc_spec ctx = demo_spec"
  shows "settle_interrupted_turn demo_service demo_spec d = (d, Ok Unchanged)"
proof -
  obtain es p where h: "at_history demo_service (keeping {}) (\<lambda>_. True) es p [] d"
      "shows_turn demo_spec (\<lambda>_. rc_agent_id ctx) p \<lparr>vw_state = turn_state.Failed, vw_invocations = Map.empty, vw_requests = {}\<rparr>"
    using assms by (auto simp: stands_def at_turn_def)
  have "bt_wf (pr_invocations p)" using at_history_facts [OF h(1)] by (simp add: history_facts_def proj_ok_def maps_wf_def)
  then have "filter (\<lambda>v. of_turn demo_spec v \<and> \<not> inv_is_terminal (pv_state v)) (bt_values (pr_invocations p)) = []"
    using shown_states [OF h(2), of "\<lambda>s. \<not> inv_is_terminal s"] by (simp add: filter_empty_conv)
  moreover obtain t where "bt_get (pr_turns p) (tr_turn_id demo_spec) = Some t" "tu_thread_id t = tr_thread_id demo_spec" "tu_state t = turn_state.Failed"
    using h(2) by (auto simp: shows_turn_def)
  ultimately show ?thesis
    using at_history_projects [OF h(1)]
    by (simp add: settle_interrupted_turn_def abind_def runner_projection_def alift_def ok_or_def Let_def areturn_def turn_is_terminal_def)
qed

lemma demo_launched:
  assumes "holds_envelopes total_codec plain_externals UNIV db interrupted_conversation"
  shows "launched demo_service demo_spec (demo_running db)"
proof -
  obtain p t where p: "replay plain_externals interrupted_conversation = Ok p" "pr_invocations p = []" "bt_get (pr_turns p) 1 = Some t" "tu_thread_id t = 2"
    using demo_projection by blast
  then show ?thesis
    using at_history_ok [OF interrupted_at_history [OF assms p(1)], unfolded grown_anything] project_core_eq [OF assms]
    by (simp add: launched_def demo_running_def demo_spec_def bt_values_def)
qed

lemma demo_stands:
  assumes h: "holds_envelopes total_codec plain_externals UNIV db interrupted_conversation"
    and "rc_spec ctx = demo_spec" and "rc_agent_id ctx = ''root''"
  shows "stands ctx Accepted 5 (demo_daemon db\<lparr>dm_ids := Suc 0\<rparr>)"
proof -
  obtain p where p: "replay plain_externals interrupted_conversation = Ok p" "pr_invocations p = []"
      "\<exists>t. bt_get (pr_turns p) 1 = Some t \<and> tu_thread_id t = 2 \<and> tu_state t = Accepted"
    using demo_projection by blast
  have "at_history demo_service (keeping {}) (\<lambda>_. True) interrupted_conversation p [] (demo_daemon db)"
    using interrupted_at_history [OF h p(1)] at_history_grown by fastforce
  from draw_uuid(1) [OF this] have "at_history demo_service (keeping {}) (\<lambda>_. True) interrupted_conversation p [] (demo_daemon db\<lparr>dm_ids := Suc 0\<rparr>)" by simp
  moreover have "shows_turn demo_spec (\<lambda>_. ''root'') p \<lparr>vw_state = Accepted, vw_invocations = Map.empty, vw_requests = {}\<rparr>"
    using p(2,3) by (auto simp: shows_turn_def demo_spec_def invocation_states_def bt_get_def fun_eq_iff)
  moreover have "length (lg_events db) = 4"
    using h by (auto simp: holds_envelopes_def history_def interrupted_conversation_def sample_conversation_def dest: list_all2_lengthD)
  ultimately show ?thesis using assms(2,3) by (auto simp: stands_def at_turn_def demo_daemon_def)
qed

lemma demo_turn_fails:
  assumes h: "holds_envelopes total_codec plain_externals UNIV db interrupted_conversation"
  shows "\<exists>r'. run_with_approval demo_runner quiet demo_spec (demo_running db) = (r', Ok (RunFailed 10 ''provider_unconfigured''))"
proof -
  let ?r = "demo_running db\<lparr>rn_daemon := demo_daemon db\<lparr>dm_ids := Suc 0\<rparr>, rn_tick := Suc 0\<rparr>"
  have draw: "locked quiet (runner_uuid demo_service) (demo_running db) = (?r, Ok 10)"
    by (simp add: locked_quiet runner_uuid_def demo_running_def demo_ids_def)
  obtain r1 ctx where load: "load_context demo_runner quiet demo_spec 10 ?r = (r1, Ok ctx)" "rn_daemon r1 = rn_daemon ?r"
      "rc_spec ctx = demo_spec" "rc_agent_id ctx = ''root''" "rc_request_id ctx = 10" "rc_turn_override_error ctx = None"
    using demo_loads [of ?r 10] h by auto
  have "stands ctx Accepted 5 (rn_daemon r1)" using demo_stands [OF h load(3,4)] load(2) by simp
  from demo_phases [OF this _ load(6)] obtain r2 n where "run_phases demo_runner quiet ctx r1 = (r2, Ok (Stop (RunFailed 10 ''provider_unconfigured'')))"
      "stands ctx turn_state.Failed n (rn_daemon r2)" by (auto simp: load(5))
  moreover from demo_settles [OF this(2) load(3)] have "locked quiet (settle_interrupted_turn demo_service demo_spec) r2 = (r2\<lparr>rn_tick := Suc (rn_tick r2)\<rparr>, Ok Unchanged)"
    by (simp add: locked_quiet)
  moreover have "ru_service demo_runner = demo_service" by (simp add: demo_runner_def)
  ultimately show ?thesis
    using draw load(1) by (simp add: run_with_approval_def run_inner_def abind_def catch_def alift_def areturn_def)
qed

lemma quiet_rely: "rely (ru_service demo_runner) (tr_turn_id demo_spec) quiet"
  by (simp add: rely_def leaves_turn_def quiet_def demo_runner_def)


theorem workers_start_after_their_record_witness:
  "\<exists>db. holds_envelopes total_codec plain_externals UNIV db interrupted_conversation \<and>
     list_all (begun demo_service demo_spec) (rn_workers (fst (run_with_approval demo_runner quiet demo_spec (demo_running db))))"
proof -
  obtain db where h: "holds_envelopes total_codec plain_externals UNIV db interrupted_conversation" using interrupted_held by blast
  then have "launched (ru_service demo_runner) demo_spec (demo_running db)" using demo_launched by (simp add: demo_runner_def)
  from workers_start_after_their_record [OF this quiet_rely] h show ?thesis by (auto simp: demo_runner_def)
qed

theorem side_effects_need_consent_witness:
  "unstarted (demo_running initialize_schema) \<and>
     list_all permitted (rn_workers (fst (run_with_approval demo_runner quiet demo_spec (demo_running initialize_schema))))"
  using side_effects_need_consent [of "demo_running initialize_schema"] by (simp add: unstarted_def demo_running_def)

theorem run_stays_within_limits_witness:
  "unstarted (demo_running initialize_schema) \<and>
     unstarted (fst (run_with_approval demo_runner quiet demo_spec (demo_running initialize_schema)))"
  using run_stays_within_limits [of "demo_running initialize_schema" demo_runner] by (simp add: unstarted_def demo_running_def demo_runner_def)

end
