(* ===== verification/Spec2Isabelle.thy ===== *)
theory Spec2Isabelle
  imports Turn_Machine Invocation_Machine Capability_Policy Effect_Values Approval Sandbox Tool_Registry
    Invocation_Pipeline Core_Projection
    Event_Ledger Ledger_Outcomes Ledger_Port Tool_Call_Assembly
    Literal_Search Workspace_Diff Workspace_Files
    Descriptor_Store Command_Types Command_Service
    Daemon_Server Daemon_Connection Command_Calculus Command_Safety Command_Receipts
    Command_Responses Daemon_Recovery
    Runner_Ledger Runner_Context Thread_Lineage Turn_Runner Runner_View Runner_Steps Runner_Settlement
    Turn_Rely Turn_Safety Turn_Rounds Turn_Result Turn_Discipline Demo_Turn
begin

text \<open>
  \<^bold>\<open>YeuX harness: a verification development.\<close>

  The program is a local agent daemon in Rust. A turn of a conversation asks a model for tool
  calls, assembles them from the stream, evaluates each against a capability policy, asks the
  user for an approval that is bound to the exact invocation, executes it at most once, and
  records everything in an append-only event ledger in SQLite from which all views are
  projected. The development models the logic of \<open>yeux-protocol\<close> and \<open>yeux-core\<close>, the
  ledger and the workspace files of \<open>yeux-runtime\<close>, and the commands, the server, the
  pipeline and the turn runner of \<open>yeuxd\<close>.

  \<^bold>\<open>How the code is represented.\<close> A struct is a \<open>record\<close>, an enum a \<open>datatype\<close> with the
  source's variants, \<open>Result<T, E>\<close> the sum type \<open>(E, T) rust_result\<close> with \<open>Ok\<close> and
  \<open>Err\<close>, an early return a branch. A method on \<open>&mut self\<close> returns the new state; where
  it can fail after a mutation it returns the state together with the result. A \<open>BTreeMap\<close>
  is the sorted association list \<open>btree_map\<close>. A string is its UTF-8 byte string. Identifiers
  are 128-bit words, instants are integers of nanoseconds. A failing \<open>expect\<close> is an error
  value of its own, and theorems show that it does not occur.

  \<^bold>\<open>Theories.\<close>

  \<^item> \<open>Yeux_Prelude\<close>: results, machine bounds, the map of the standard library with its contract
    (locale \<open>keyed_store\<close>), blank strings, and two general contracts: \<open>absorbing_machine\<close>
    (a transition relation with terminal states) and \<open>event_fold\<close> (a fold that stops at
    the first error).
  \<^item> \<open>Protocol_Types\<close>: the data of \<open>yeux-protocol/src\<close> (domain, tool, policy, job, model,
    event) with their pure methods.
  \<^item> \<open>Canonical_Digest\<close>, \<open>Effect_Values\<close>: \<open>yeux-core/src/digest.rs\<close> and the serialised
    effect set. The digest of a value determines the value up to the order of object entries
    or a collision of SHA-256, and the effect digest determines the effect set.
  \<^item> \<open>Turn_Machine\<close> (\<open>agent.rs\<close>): turn transitions, actions, steering. Terminal turns are
    final, every turn is interruptible, and the turn record stays consistent.
  \<^item> \<open>Invocation_Machine\<close> (\<open>invocation.rs\<close>): transitions by idempotency contract and
    reconciliation. A non-idempotent invocation starts at most once.
  \<^item> \<open>Capability_Policy\<close> (\<open>policy.rs\<close>, \<open>yeuxd/src/grants.rs\<close>): grant intersection is the
    conjunction of the layers (locale \<open>scope_intersection\<close>, interpreted for exact scopes,
    path scopes and whole grants), and the daemon's layers bound every profile.
  \<^item> \<open>Approval\<close> (\<open>approval.rs\<close>): an accepted approval covers exactly the effects that run and
    cannot be moved to another invocation.
  \<^item> \<open>Sandbox\<close> (\<open>yeux-runtime/src/sandbox.rs\<close>): capabilities, requirements and the command
    lines of the two launchers. The bubblewrap command line reads back as exactly the intended
    options and target.
  \<^item> \<open>Tool_Registry\<close> (\<open>yeuxd/src/tools.rs\<close>): validation of tool specifications, planning,
    revalidation and execution permits over arbitrary adapters. A registry is built exactly
    from valid tools, and the read-only executor runs exactly the persisted proposal.
  \<^item> \<open>Invocation_Pipeline\<close> (\<open>yeuxd/src/pipeline.rs\<close>): preparation, approval and execution
    with single-use tokens. What must hold for an adapter to run, that an approved invocation
    does run, and that no interleaving dispatches a token twice (step relation
    \<open>pipeline_step\<close>).
  \<^item> \<open>Core_Projection\<close> (\<open>projection.rs\<close>): the whole of \<open>apply\<close>, branch by branch, and
    \<open>replay\<close>. The projection invariant \<open>proj_ok\<close> holds of every replayed history, the
    history is contiguous, ended work is immutable, and the machine of
    \<open>Invocation_Machine\<close> governs the events of every invocation.
  \<^item> \<open>Event_Ledger\<close> (\<open>yeux-runtime/src/ledger.rs\<close>): the two tables as lists of rows with the
    schema's constraints, appends, batches, command receipts, imports, replay and paging. A
    transaction that fails returns an error and no new state, which is the rollback.
    \<open>ledger_wf\<close> is the invariant of the tables.
  \<^item> \<open>Ledger_Outcomes\<close>: the typed invocation appends, whose transaction compares the projected
    state of the invocation with the announced one. The step relation \<open>ledger_step\<close> contains
    every writing operation; interleavings of clients are its paths, because a transaction
    holds the connection's lock (locale \<open>journal\<close>: what is stored stays stored).
  \<^item> \<open>Ledger_Port\<close>: the \<open>EventStore\<close> port and the projections of the ledger. The locale
    \<open>event_store\<close> is the contract the core relies on; its interpretation on the ledger is
    the refinement, and the core projection of a ledger is the replay of what was stored.
  \<^item> \<open>Tool_Call_Assembly\<close> (\<open>yeuxd/src/tool_calls.rs\<close>): which rounds of deltas are accepted,
    what they assemble to, and that the buffers stay within their limits.
  \<^item> \<open>Literal_Search\<close> (\<open>yeux-runtime/src/workspace_tools.rs\<close>): limits, the operation budget
    and the literal matcher. Its loops are \<open>partial_function (option)\<close>; they end without a
    panic within their operation bounds and report exactly the occurrences.
  \<^item> \<open>Workspace_Diff\<close> (the same file): the diff presented for approval and its summary. The
    hunk is a patch from the old to the new lines; only a final newline is invisible in it.
  \<^item> \<open>Workspace_Files\<close> (\<open>yeux-runtime/src/workspace.rs\<close>): paths, identities, reads and the
    revision-checked replacement over arbitrary system calls (record \<open>os\<close>). Accepted paths
    stay below the root, a failed replacement publishes nothing, and a published one was
    validated just before.
  \<^item> \<open>Descriptor_Store\<close> (\<open>yeux-runtime/src/descriptors.rs\<close>): the tables of descriptors.
  \<^item> \<open>Command_Types\<close>, \<open>Command_Service\<close> (\<open>yeux-protocol/src/api.rs\<close>, \<open>jsonrpc.rs\<close>,
    \<open>yeuxd/src/commands.rs\<close>): the parameters, results and faults of the JSON-RPC methods and
    every handler as a function from the state of the daemon to a new state and a result.
  \<^item> \<open>Daemon_Server\<close> (\<open>yeuxd/src/server.rs\<close>): frames and lines, the execution of a command
    under its identifier, subscriptions and their replay, approval requests to the client, the
    connections as the step relation \<open>server_step\<close>, and the recovery at startup.
    \<open>Event_Codec\<close>, \<open>Demo_Service\<close> and \<open>Demo_Run\<close> hold a concrete service on which the
    theorems are applied.
  \<^item> \<open>Daemon_Connection\<close>: frames do not depend on chunk boundaries, a subscriber sees every
    event once and in order, and approvals fail closed.
  \<^item> \<open>Command_Calculus\<close>, \<open>Command_Safety\<close>: a calculus for operations on the daemon (\<open>valid_run\<close> with
    \<open>run_rules\<close>), and with it that no client makes the ledger unreadable.
  \<^item> \<open>Daemon_Recovery\<close>: a restart settles every turn and invocation that was interrupted.
  \<^item> \<open>Command_Receipts\<close>, \<open>Command_Responses\<close>: a command is executed at most once, and its
    response agrees with the projection after it.
  \<^item> \<open>Runner_Ledger\<close>, \<open>Runner_Context\<close>, \<open>Turn_Runner\<close> (\<open>yeuxd/src/runner.rs\<close>): the operations
    of a run on the ledger, the model context and the model stream, and the agent loop from
    \<open>run_with_approval\<close> down to the start, the wait and the integration of a tool. A run and
    its surroundings alternate: before every step that holds the gate or reads shared state
    the other tasks act as they like (record \<open>surroundings\<close>).
  \<^item> \<open>Thread_Lineage\<close>: the walk along the ancestors of a thread ends, and what it returns.
  \<^item> \<open>Runner_View\<close>, \<open>Runner_Steps\<close>, \<open>Runner_Settlement\<close>: what the ledger shows of one turn
    (\<open>turn_view\<close>), and what each operation of the runner makes of it.
  \<^item> \<open>Turn_Rely\<close>, \<open>Turn_Safety\<close>, \<open>Turn_Rounds\<close>, \<open>Turn_Result\<close>: a rely-guarantee argument for
    a run (\<open>valid_turn\<close>). The others may add any event except events of this turn that a client
    cannot cause (\<open>rely\<close>). Then the result of a run is durable, and a tool starts only after
    the ledger says so. \<open>Turn_Discipline\<close> needs no rely: a side effect is started only after
    the client's consent, and requests and tools stay within the configured limits.
    \<open>Demo_Turn\<close> shows that clients keep to the rely, and runs a turn.

  \<^bold>\<open>Parameters and hypotheses.\<close> Code of other crates is a parameter: SHA-256, the JSON text of
  strings and numbers, the text of a UUID (\<open>externals\<close>), \<open>serde\<close>'s decoders and the value
  that a stored JSON text reads back as (\<open>codec\<close>), the JSON parser of tool arguments, the system calls of the workspace
  (\<open>os\<close>), of which nothing is assumed. Their
  documented behaviour is stated in \<open>json_text_ok\<close> (JSON text is self-delimiting and
  injective), \<open>codec_ok\<close> and \<open>port_codec_ok\<close> (a stored value reads back, the decoder selects
  the variant by its tag, a UUID parses back) and \<open>text_stable\<close>. Collision resistance is never
  assumed: the theorems name the collision instead.

  \<^bold>\<open>Bounds.\<close> Sequence numbers are \<open>u64\<close> in the protocol and \<open>i64\<close> in SQLite; the model keeps
  the checks and errors at these bounds. Sums that saturate in the source saturate in the
  model. The loops of the modelled code run over a list or up to a constant (64 attempts for a
  temporary name), except those of the literal matcher, which are partial functions and are
  proved to return, and the paging of a replay, whose fuel is the number of advertised events
  and is proved to be enough.

  The agent loop recurses on the rounds that are left; the walk along the ancestors of a thread
  has the number of threads as fuel, which is proved to be enough.

  \<^bold>\<open>Not modelled.\<close> Socket, process and keychain I/O, the HTTP providers and their decoder of
  events, the full-text search and the configuration of the SQLite connection, the dispatch of
  the built-in workspace tools to their adapters. The streams of the provider and the tools of
  a workspace are parameters of the runner.
\<close>

end
